(* ===== verification/Prelude.thy ===== *)
theory Prelude
  imports Complex_Main "HOL-Library.Code_Target_Nat"
begin

text \<open>
  Shared vocabulary of the development: results of fallible operations as sums (\<open>Inl\<close> an
  error value, \<open>Inr\<close> the result), sequencing of such results, Go maps as association lists,
  and the generic list lemmas and lemma collections that several components use.
\<close>

named_theorems go_defs \<open>unfolding equations of the Go string and number operations\<close>
named_theorems res_simps \<open>case analysis of sequenced results\<close>

section \<open>Results\<close>

text \<open>\<open>if x, err := f(); err != nil { return err }; k(x)\<close>\<close>

definition rbind :: "'e + 'a \<Rightarrow> ('a \<Rightarrow> 'e + 'b) \<Rightarrow> 'e + 'b" where
  "rbind r k = (case r of Inl e \<Rightarrow> Inl e | Inr x \<Rightarrow> k x)"

text \<open>A failed check ends the function with its error.\<close>

definition ensure :: "bool \<Rightarrow> 'e \<Rightarrow> 'e + unit" where
  "ensure b e = (if b then Inr () else Inl e)"

text \<open>Wrap the error of a callee.\<close>

definition wrap_err :: "('e \<Rightarrow> 'f) \<Rightarrow> 'e + 'a \<Rightarrow> 'f + 'a" where
  "wrap_err f r = (case r of Inl e \<Rightarrow> Inl (f e) | Inr x \<Rightarrow> Inr x)"

definition is_ok :: "'e + 'a \<Rightarrow> bool" where
  "is_ok r = (case r of Inl _ \<Rightarrow> False | Inr _ \<Rightarrow> True)"

lemma rbind_simps [simp]:
  "rbind (Inl e) k = Inl e"
  "rbind (Inr x) k = k x"
  by (simp_all add: rbind_def)

lemma wrap_err_simps [simp]:
  "wrap_err f (Inl e) = Inl (f e)"
  "wrap_err f (Inr x) = Inr x"
  by (simp_all add: wrap_err_def)

lemma is_ok_simps [simp]:
  "\<not> is_ok (Inl e)"
  "is_ok (Inr x)"
  by (simp_all add: is_ok_def)

lemma rbind_Inr_iff [res_simps]: "rbind r k = Inr y \<longleftrightarrow> (\<exists>x. r = Inr x \<and> k x = Inr y)"
  by (cases r) auto

lemma rbind_Inl_iff [res_simps]:
  "rbind r k = Inl e \<longleftrightarrow> r = Inl e \<or> (\<exists>x. r = Inr x \<and> k x = Inl e)"
  by (cases r) auto

lemma wrap_err_Inr_iff [res_simps]: "wrap_err f r = Inr y \<longleftrightarrow> r = Inr y"
  by (cases r) auto

lemma wrap_err_Inl_iff [res_simps]: "wrap_err f r = Inl e \<longleftrightarrow> (\<exists>e'. r = Inl e' \<and> e = f e')"
  by (cases r) auto

lemma ensure_Inr_iff [res_simps]: "ensure b e = Inr u \<longleftrightarrow> b"
  by (simp add: ensure_def)

lemma ensure_Inl_iff [res_simps]: "ensure b e = Inl e' \<longleftrightarrow> \<not> b \<and> e' = e"
  by (auto simp: ensure_def)

lemma is_ok_iff [res_simps]: "is_ok r \<longleftrightarrow> (\<exists>x. r = Inr x)"
  by (cases r) auto

lemma is_ok_rbind [simp]: "is_ok (rbind r k) \<longleftrightarrow> (\<exists>x. r = Inr x \<and> is_ok (k x))"
  by (cases r) auto

lemma is_ok_wrap_err [simp]: "is_ok (wrap_err f r) \<longleftrightarrow> is_ok r"
  by (cases r) auto

lemma is_ok_ensure [simp]: "is_ok (ensure b e) \<longleftrightarrow> b"
  by (simp add: ensure_def)

lemma rbind_cong [fundef_cong]:
  "r = r' \<Longrightarrow> (\<And>x. r' = Inr x \<Longrightarrow> k x = k' x) \<Longrightarrow> rbind r k = rbind r' k'"
  by (cases r') auto

text \<open>\<open>for _, x := range xs { if err := f(x); err != nil { return err } }\<close>\<close>

fun check_all :: "('a \<Rightarrow> 'e + unit) \<Rightarrow> 'a list \<Rightarrow> 'e + unit" where
  "check_all f [] = Inr ()"
| "check_all f (x # xs) = rbind (f x) (\<lambda>_. check_all f xs)"

lemma check_all_ok [simp]: "is_ok (check_all f xs) \<longleftrightarrow> (\<forall>x \<in> set xs. is_ok (f x))"
proof (induction xs)
  case (Cons x xs)
  then show ?case by (cases "f x") auto
qed simp

lemma check_all_Inr_iff [res_simps]: "check_all f xs = Inr u \<longleftrightarrow> (\<forall>x \<in> set xs. f x = Inr ())"
proof (induction xs)
  case (Cons x xs)
  then show ?case by (cases "f x") auto
qed simp

lemma check_all_first_error:
  "check_all f xs = Inl e \<longleftrightarrow>
     (\<exists>ys x zs. xs = ys @ x # zs \<and> (\<forall>y \<in> set ys. f y = Inr ()) \<and> f x = Inl e)"
proof (induction xs)
  case Nil
  then show ?case by simp
next
  case (Cons a xs)
  show ?case
  proof (cases "f a")
    case (Inl e')
    then show ?thesis
      by (force simp: Cons_eq_append_conv)
  next
    case (Inr u)
    have "(\<exists>ys x zs. a # xs = ys @ x # zs \<and> (\<forall>y \<in> set ys. f y = Inr ()) \<and> f x = Inl e)
      \<longleftrightarrow> (\<exists>ys x zs. xs = ys @ x # zs \<and> (\<forall>y \<in> set ys. f y = Inr ()) \<and> f x = Inl e)"
      (is "?l \<longleftrightarrow> ?r")
    proof
      assume ?l
      then show ?r using Inr by (fastforce simp: Cons_eq_append_conv)
    next
      assume ?r
      then obtain ys x zs where "a # xs = (a # ys) @ x # zs" "\<forall>y \<in> set (a # ys). f y = Inr ()" "f x = Inl e"
        using Inr by auto
      then show ?l by blast
    qed
    then show ?thesis using Inr Cons by simp
  qed
qed

section \<open>Go maps\<close>

text \<open>
  A Go map that is only looked up and tested for emptiness is the list of its entries;
  \<open>map_of\<close> is the lookup.
\<close>

type_synonym ('k, 'v) gomap = "('k \<times> 'v) list"

abbreviation has_key :: "('k, 'v) gomap \<Rightarrow> 'k \<Rightarrow> bool" where
  "has_key m k \<equiv> map_of m k \<noteq> None"

section \<open>Order-preserving removal of duplicates\<close>

text \<open>
  The loop \<open>seen := map; for v { if !seen[v] { seen[v] = true; out = append(out, v) } }\<close> occurs
  in many places of the code; it is this function with the empty set of seen elements.
\<close>

fun dedup_from :: "'a list \<Rightarrow> 'a list \<Rightarrow> 'a list" where
  "dedup_from seen [] = []"
| "dedup_from seen (x # xs) =
     (if x \<in> set seen then dedup_from seen xs else x # dedup_from (x # seen) xs)"

lemma set_dedup_from [simp]: "set (dedup_from seen xs) = set xs - set seen"
  by (induction xs arbitrary: seen) auto

lemma distinct_dedup_from [simp]: "distinct (dedup_from seen xs)"
  by (induction xs arbitrary: seen) auto

lemma dedup_from_subset: "set (dedup_from seen xs) \<inter> set seen = {}"
  by auto

lemma dedup_from_id: "distinct xs \<Longrightarrow> set xs \<inter> set seen = {} \<Longrightarrow> dedup_from seen xs = xs"
  by (induction xs arbitrary: seen) auto

lemma dedup_from_idem: "dedup_from [] (dedup_from [] xs) = dedup_from [] xs"
  by (rule dedup_from_id) auto

lemma length_dedup_from: "length (dedup_from seen xs) \<le> length xs"
  by (induction xs arbitrary: seen) (auto intro: le_SucI)

lemma dedup_from_append:
  "dedup_from seen (xs @ ys) = dedup_from seen xs @ dedup_from (rev xs @ seen) ys"
proof (induction xs arbitrary: seen)
  case Nil
  then show ?case by simp
next
  case (Cons x xs)
  have eq: "set s = set t \<Longrightarrow> dedup_from s ys = dedup_from t ys" for s t :: "'a list"
  proof (induction ys arbitrary: s t)
    case (Cons y ys)
    then show ?case by (metis (no_types, lifting) dedup_from.simps(2) list.simps(15))
  qed simp
  show ?case
    by (auto simp: Cons intro!: eq)
qed

end
