(* ===== verification/GoStrings.thy ===== *)
theory GoStrings
  imports Prelude "HOL-Library.Sublist"
begin

text \<open>
  The operations of Go's packages \<open>strings\<close>, \<open>strconv\<close> and \<open>unicode/utf8\<close> that the modelled
  code uses, on byte strings: a Go string is a \<open>string\<close>, one \<open>char\<close> per byte, and \<open>length\<close> is
  \<open>len\<close>. Integers are Go's 64-bit \<open>int\<close> where a bound matters.
\<close>

section \<open>Package strings\<close>

definition hasPrefix :: "string \<Rightarrow> string \<Rightarrow> bool" where
  "hasPrefix s p \<longleftrightarrow> take (length p) s = p"

definition hasSuffix :: "string \<Rightarrow> string \<Rightarrow> bool" where
  "hasSuffix s p \<longleftrightarrow> length p \<le> length s \<and> drop (length s - length p) s = p"

text \<open>\<open>strings.Index\<close>; \<open>None\<close> stands for the result -1.\<close>

fun indexOf :: "string \<Rightarrow> string \<Rightarrow> nat option" where
  "indexOf [] p = (if p = [] then Some 0 else None)"
| "indexOf (c # s) p =
     (if hasPrefix (c # s) p then Some 0 else map_option Suc (indexOf s p))"

definition containsStr :: "string \<Rightarrow> string \<Rightarrow> bool" where
  "containsStr s p \<longleftrightarrow> indexOf s p \<noteq> None"

text \<open>\<open>strings.Split\<close> with a one-character separator: all parts, at least one.\<close>

fun splitOn :: "char \<Rightarrow> string \<Rightarrow> string list" where
  "splitOn d [] = [[]]"
| "splitOn d (c # s) =
     (if c = d then [] # splitOn d s
      else (case splitOn d s of [] \<Rightarrow> [[c]] | p # ps \<Rightarrow> (c # p) # ps))"

text \<open>\<open>strings.SplitN(s, d, 2)\<close>: the parts before and after the first separator.\<close>

fun splitN2 :: "char \<Rightarrow> string \<Rightarrow> string list" where
  "splitN2 d [] = [[]]"
| "splitN2 d (c # s) =
     (if c = d then [[], s]
      else (case splitN2 d s of [] \<Rightarrow> [[c]] | p # ps \<Rightarrow> (c # p) # ps))"

fun joinWith :: "string \<Rightarrow> string list \<Rightarrow> string" where
  "joinWith d [] = []"
| "joinWith d [x] = x"
| "joinWith d (x # y # ys) = x @ d @ joinWith d (y # ys)"

definition trimLeftChar :: "char \<Rightarrow> string \<Rightarrow> string" where
  "trimLeftChar d s = dropWhile (\<lambda>c. c = d) s"

definition trimChar :: "char \<Rightarrow> string \<Rightarrow> string" where
  "trimChar d s = rev (trimLeftChar d (rev (trimLeftChar d s)))"

definition trimSuffixStr :: "string \<Rightarrow> string \<Rightarrow> string" where
  "trimSuffixStr s p = (if hasSuffix s p then take (length s - length p) s else s)"

lemma hasPrefix_iff: "hasPrefix s p \<longleftrightarrow> prefix p s"
  by (metis append_take_drop_id hasPrefix_def prefix_def append_eq_conv_conj)

lemma hasPrefix_append [simp]: "hasPrefix (p @ s) p"
  by (simp add: hasPrefix_def)

lemma hasPrefix_Nil [simp]: "hasPrefix s []"
  by (simp add: hasPrefix_def)

lemma hasPrefix_Cons: "hasPrefix (c # s) (d # p) \<longleftrightarrow> c = d \<and> hasPrefix s p"
  by (auto simp: hasPrefix_def)

lemma hasPrefix_trans: "hasPrefix s q \<Longrightarrow> hasPrefix q p \<Longrightarrow> hasPrefix s p"
  by (auto simp: hasPrefix_iff)

lemma hasSuffix_iff: "hasSuffix s p \<longleftrightarrow> suffix p s"
proof
  assume "hasSuffix s p"
  then have "s = take (length s - length p) s @ p"
    unfolding hasSuffix_def by (metis append_take_drop_id)
  then show "suffix p s" unfolding suffix_def by blast
qed (auto simp: hasSuffix_def suffix_def)

lemma splitOn_nonempty [simp]: "splitOn d s \<noteq> []"
  by (induction s) (auto split: list.splits)

lemma splitOn_no_sep: "d \<notin> set s \<Longrightarrow> splitOn d s = [s]"
  by (induction s) auto

lemma splitOn_append: "d \<notin> set a \<Longrightarrow> splitOn d (a @ d # s) = a # splitOn d s"
  by (induction a) (auto split: list.splits)

lemma splitOn_parts: "p \<in> set (splitOn d s) \<Longrightarrow> d \<notin> set p"
  by (induction s arbitrary: p) (auto split: if_splits list.splits)

lemma joinWith_Cons: "ys \<noteq> [] \<Longrightarrow> joinWith d (x # ys) = x @ d @ joinWith d ys"
  by (cases ys) auto

lemma join_splitOn: "joinWith [d] (splitOn d s) = s"
proof (induction s)
  case (Cons c s)
  obtain p ps where eq: "splitOn d s = p # ps"
    by (metis list.exhaust splitOn_nonempty)
  with Cons show ?case
    by (cases ps) (auto simp: eq)
qed simp

lemma splitOn_inj: "splitOn d s = splitOn d t \<Longrightarrow> s = t"
  by (metis join_splitOn)

lemma splitOn_join:
  "xs \<noteq> [] \<Longrightarrow> \<forall>x \<in> set xs. d \<notin> set x \<Longrightarrow> splitOn d (joinWith [d] xs) = xs"
proof (induction xs)
  case (Cons x xs)
  then show ?case
    by (cases xs) (auto simp: splitOn_no_sep splitOn_append)
qed simp

lemma length_splitOn: "length (splitOn d s) = Suc (count_list s d)"
  by (induction s) (auto split: list.splits)

lemma splitN2_eq:
  "splitN2 d s = (case splitOn d s of [] \<Rightarrow> [] | [a] \<Rightarrow> [a] | a # b # r \<Rightarrow> [a, joinWith [d] (b # r)])"
proof (induction s)
  case (Cons c s)
  obtain p ps where eq: "splitOn d s = p # ps"
    by (metis list.exhaust splitOn_nonempty)
  have "joinWith [d] (p # ps) = s" using join_splitOn [of d s] by (simp add: eq)
  with Cons eq show ?case
    by (auto split: list.splits)
qed simp

lemma splitN2_first: "splitN2 d s \<noteq> [] \<and> hd (splitN2 d s) = hd (splitOn d s)"
proof -
  obtain p ps where eq: "splitOn d s = p # ps"
    by (metis list.exhaust splitOn_nonempty)
  then show ?thesis by (auto simp: splitN2_eq split: list.splits)
qed

section \<open>Package strconv: integers\<close>

definition digit_char :: "nat \<Rightarrow> char" where
  "digit_char d = char_of (48 + d)"

definition is_digit_char :: "char \<Rightarrow> bool" where
  "is_digit_char c \<longleftrightarrow> 48 \<le> (of_char c :: nat) \<and> (of_char c :: nat) \<le> 57"

definition digit_val :: "char \<Rightarrow> nat" where
  "digit_val c = of_char c - 48"

text \<open>The decimal digits of a number, most significant first.\<close>

fun nat_digits :: "nat \<Rightarrow> nat list" where
  "nat_digits n = (if n < 10 then [n] else nat_digits (n div 10) @ [n mod 10])"

declare nat_digits.simps [simp del]

definition itoa_nat :: "nat \<Rightarrow> string" where
  "itoa_nat n = map digit_char (nat_digits n)"

definition itoa :: "int \<Rightarrow> string" where
  "itoa n = (if n < 0 then CHR ''-'' # itoa_nat (nat (- n)) else itoa_nat (nat n))"

definition digits_val :: "nat list \<Rightarrow> nat" where
  "digits_val ds = foldl (\<lambda>n d. 10 * n + d) 0 ds"

definition all_digits :: "string \<Rightarrow> bool" where
  "all_digits s \<longleftrightarrow> s \<noteq> [] \<and> list_all is_digit_char s"

definition nat_of_digits :: "string \<Rightarrow> nat" where
  "nat_of_digits s = digits_val (map digit_val s)"

definition maxInt64 :: int where
  "maxInt64 = 9223372036854775807"

text \<open>
  \<open>strconv.Atoi\<close>: an optional sign and decimal digits; \<open>None\<close> is the syntax or range error.
\<close>

definition atoi :: "string \<Rightarrow> int option" where
  "atoi s =
     (let (neg, ds) = (case s of
             [] \<Rightarrow> (False, [])
           | c # r \<Rightarrow> if c = CHR ''-'' then (True, r) else if c = CHR ''+'' then (False, r) else (False, s))
      in if \<not> all_digits ds then None
         else let v = (if neg then - int (nat_of_digits ds) else int (nat_of_digits ds))
              in if v < - maxInt64 - 1 \<or> maxInt64 < v then None else Some v)"

lemma nat_digits_nonempty [simp]: "nat_digits n \<noteq> []"
  by (subst nat_digits.simps) simp

lemma nat_digits_small: "d \<in> set (nat_digits n) \<Longrightarrow> d < 10"
proof (induction n rule: nat_digits.induct)
  case (1 n)
  then show ?case by (subst (asm) (2) nat_digits.simps) (auto split: if_splits)
qed

lemma digits_val_snoc [simp]: "digits_val (ds @ [d]) = 10 * digits_val ds + d"
  by (simp add: digits_val_def)

lemma digits_val_Nil [simp]: "digits_val [] = 0"
  by (simp add: digits_val_def)

lemma digits_val_nat_digits [simp]: "digits_val (nat_digits n) = n"
proof (induction n rule: nat_digits.induct)
  case (1 n)
  show ?case
  proof (cases "n < 10")
    case True
    then show ?thesis
      using digits_val_snoc [of "[]" n] by (simp add: nat_digits.simps [of n])
  next
    case False
    with 1 show ?thesis by (simp add: nat_digits.simps [of n])
  qed
qed

lemma of_char_digit_char: "d < 10 \<Longrightarrow> (of_char (digit_char d) :: nat) = 48 + d"
  by (simp add: digit_char_def of_char_of)

lemma digit_char_is_digit [simp]: "d < 10 \<Longrightarrow> is_digit_char (digit_char d)"
  by (simp add: is_digit_char_def of_char_digit_char)

lemma digit_val_digit_char [simp]: "d < 10 \<Longrightarrow> digit_val (digit_char d) = d"
  by (simp add: digit_val_def of_char_digit_char)

lemma digit_char_val: "is_digit_char c \<Longrightarrow> digit_char (digit_val c) = c"
  by (simp add: is_digit_char_def digit_char_def digit_val_def)

lemma digit_char_inj: "d < 10 \<Longrightarrow> e < 10 \<Longrightarrow> digit_char d = digit_char e \<Longrightarrow> d = e"
  by (metis digit_val_digit_char)

lemma all_digits_itoa [simp]: "all_digits (itoa_nat n)"
  by (auto simp: all_digits_def itoa_nat_def list_all_iff dest: nat_digits_small)

lemma itoa_nat_nonempty [simp]: "itoa_nat n \<noteq> []"
  by (simp add: itoa_nat_def)

lemma nat_of_digits_itoa [simp]: "nat_of_digits (itoa_nat n) = n"
proof -
  have "map digit_val (map digit_char (nat_digits n)) = nat_digits n"
    by (auto simp: comp_def intro!: map_idI dest: nat_digits_small)
  then show ?thesis by (simp add: nat_of_digits_def itoa_nat_def)
qed

lemma itoa_nat_inj: "itoa_nat m = itoa_nat n \<Longrightarrow> m = n"
  by (metis nat_of_digits_itoa)

lemma itoa_nat_first: "\<exists>c r. itoa_nat n = c # r \<and> is_digit_char c"
  using all_digits_itoa [of n] by (cases "itoa_nat n") (auto simp: all_digits_def)

lemma sign_not_digit: "\<not> is_digit_char CHR ''-''" "\<not> is_digit_char CHR ''+''"
  by (simp_all add: is_digit_char_def)

lemma atoi_itoa_nat: "int n \<le> maxInt64 \<Longrightarrow> atoi (itoa_nat n) = Some (int n)"
proof -
  assume n: "int n \<le> maxInt64"
  obtain c r where eq: "itoa_nat n = c # r" and c: "is_digit_char c"
    using itoa_nat_first by blast
  have "c \<noteq> CHR ''-''" "c \<noteq> CHR ''+''" using c sign_not_digit by blast+
  moreover have "nat_of_digits (c # r) = n" "all_digits (c # r)"
    using eq by (metis nat_of_digits_itoa, metis all_digits_itoa)
  ultimately show ?thesis
    using n by (simp add: atoi_def eq maxInt64_def)
qed

section \<open>Package unicode/utf8\<close>

text \<open>
  \<open>utf8.DecodeRune\<close> on the bytes of a non-empty string: the code point and its width; an
  invalid encoding is the replacement character U+FFFD of width one.
\<close>

definition cont_byte :: "nat \<Rightarrow> nat \<Rightarrow> nat \<Rightarrow> bool" where
  "cont_byte lo hi b \<longleftrightarrow> lo \<le> b \<and> b \<le> hi"

fun decode_rune :: "nat list \<Rightarrow> nat \<times> nat" where
  "decode_rune [] = (65533, 1)"
| "decode_rune (b # bs) =
     (if b < 128 then (b, 1)
      else if 194 \<le> b \<and> b \<le> 223 then
        (case bs of
           b1 # _ \<Rightarrow> if cont_byte 128 191 b1 then ((b - 192) * 64 + (b1 - 128), 2) else (65533, 1)
         | _ \<Rightarrow> (65533, 1))
      else if 224 \<le> b \<and> b \<le> 239 then
        (case bs of
           b1 # b2 # _ \<Rightarrow>
             if cont_byte (if b = 224 then 160 else 128) (if b = 237 then 159 else 191) b1
                \<and> cont_byte 128 191 b2
             then ((b - 224) * 4096 + (b1 - 128) * 64 + (b2 - 128), 3) else (65533, 1)
         | _ \<Rightarrow> (65533, 1))
      else if 240 \<le> b \<and> b \<le> 244 then
        (case bs of
           b1 # b2 # b3 # _ \<Rightarrow>
             if cont_byte (if b = 240 then 144 else 128) (if b = 244 then 143 else 191) b1
                \<and> cont_byte 128 191 b2 \<and> cont_byte 128 191 b3
             then ((b - 240) * 262144 + (b1 - 128) * 4096 + (b2 - 128) * 64 + (b3 - 128), 4)
             else (65533, 1)
         | _ \<Rightarrow> (65533, 1))
      else (65533, 1))"

lemma decode_rune_width: "1 \<le> snd (decode_rune bs) \<and> snd (decode_rune bs) \<le> 4"
  by (cases bs) (auto split: list.splits)

text \<open>The code points of a string, as \<open>for _, r := range s\<close> visits them.\<close>

function runes_of :: "nat list \<Rightarrow> nat list" where
  "runes_of [] = []"
| "runes_of (b # bs) = (let (r, w) = decode_rune (b # bs) in r # runes_of (drop w (b # bs)))"
  by pat_completeness auto
termination
proof (relation "measure length")
  fix b :: nat and bs r w x
  assume "x = decode_rune (b # bs)" and "(r, w) = x"
  then have "1 \<le> w" using decode_rune_width [of "b # bs"] by (metis snd_conv)
  then show "(drop w (b # bs), b # bs) \<in> measure length"
    by simp
qed simp

definition runes :: "string \<Rightarrow> nat list" where
  "runes s = runes_of (map of_char s)"

definition runeCount :: "string \<Rightarrow> nat" where
  "runeCount s = length (runes s)"

lemma length_runes_of: "length (runes_of bs) \<le> length bs"
proof (induction bs rule: runes_of.induct)
  case (2 b bs)
  obtain r w where rw: "decode_rune (b # bs) = (r, w)" by fastforce
  then have "1 \<le> w" using decode_rune_width [of "b # bs"] by simp
  with 2 [OF rw [symmetric]] rw show ?case by (simp add: Let_def)
qed simp

lemma runeCount_le_length: "runeCount s \<le> length s"
  using length_runes_of [of "map of_char s"] by (simp add: runeCount_def runes_def)

text \<open>
  \<open>strings.ToLower\<close>, as far as a comparison with an ASCII prefix can see it: upper-case ASCII
  letters, and the two other code points whose lower case is an ASCII letter, U+212A (Kelvin
  sign, lower case k) and U+0130 (dotted capital I, lower case i). All other code points are
  outside ASCII before and after.
\<close>

definition lower_char :: "char \<Rightarrow> char" where
  "lower_char c =
     (let n = (of_char c :: nat) in if 65 \<le> n \<and> n \<le> 90 then char_of (n + 32) else c)"

fun toLower :: "string \<Rightarrow> string" where
  "toLower (a # b # c # s) =
     (if (of_char a :: nat) = 226 \<and> (of_char b :: nat) = 132 \<and> (of_char c :: nat) = 170
      then CHR ''k'' # toLower s
      else if (of_char a :: nat) = 196 \<and> (of_char b :: nat) = 176 then CHR ''i'' # toLower (c # s)
      else lower_char a # toLower (b # c # s))"
| "toLower [a, b] =
     (if (of_char a :: nat) = 196 \<and> (of_char b :: nat) = 176 then ''i''
      else [lower_char a, lower_char b])"
| "toLower s = map lower_char s"

end
