(* ===== verification/Validator.thy ===== *)
theory Validator
  imports GoStrings
begin

text \<open>
  The field validators of \<open>pkg/criteria/validator\<close>: label keys and values (\<open>label.go\<close>), instance
  uids (\<open>id.go\<close>), resource, release, app, variable and file names (\<open>name.go\<close>), file paths
  (\<open>file.go\<close>) and memos (\<open>memo.go\<close>). The regular expressions of the source are fixed character
  class patterns, translated by hand into predicates on the code points of the string; the class
  \<open>\p{Han}\<close> of the Unicode tables is the parameter \<open>han\<close>, and Go's \<open>regexp\<close> compiler for a regular
  expression given by the user is the parameter \<open>rx\<close> (\<open>None\<close> when it does not compile).
\<close>

section \<open>Errors\<close>

datatype valid_err =
    Empty
  | TooLong nat
  | TooShort nat
  | TooManyLabels
  | ReservedPrefix string
  | BadFormat
  | AllDots
  | NotAbsolute
  | DoubleSlash
  | ReservedPath
  | BadRegex

type_synonym valid = "valid_err + unit"

section \<open>Labels\<close>

definition MaxLabelKeyCount :: nat where "MaxLabelKeyCount = 5"
definition MaxLabelKeyLength :: nat where "MaxLabelKeyLength = 128"
definition MaxLabelValueLength :: nat where "MaxLabelValueLength = 128"

definition ReservedLabelKeyPrefix :: "string list" where
  "ReservedLabelKeyPrefix = [''bk_bscp'', ''bscp'']"

definition ValidateLabelKey :: "string \<Rightarrow> valid" where
  "ValidateLabelKey key =
     rbind (ensure (length key \<noteq> 0) Empty) (\<lambda>_.
     rbind (ensure (length key \<le> MaxLabelKeyLength) (TooLong MaxLabelKeyLength)) (\<lambda>_.
     check_all (\<lambda>p. ensure (\<not> hasPrefix (toLower key) p) (ReservedPrefix p))
       ReservedLabelKeyPrefix))"

definition ValidateLabelValue :: "string \<Rightarrow> valid" where
  "ValidateLabelValue val =
     rbind (ensure (length val \<noteq> 0) Empty) (\<lambda>_.
     ensure (length val \<le> MaxLabelValueLength) (TooLong MaxLabelValueLength))"

definition ValidateLabelValueRegex :: "(string \<Rightarrow> (string \<Rightarrow> bool) option) \<Rightarrow> string \<Rightarrow> valid" where
  "ValidateLabelValueRegex rx val = ensure (rx val \<noteq> None) BadRegex"

text \<open>
  The iteration order of a Go map is not determined, so which of several errors is returned is
  not; the model visits the entries in the order of the association list.
\<close>

definition ValidateLabel :: "(string, string) gomap \<Rightarrow> valid" where
  "ValidateLabel label =
     (if label = [] then Inr ()
      else rbind (ensure (length label \<le> MaxLabelKeyCount) TooManyLabels) (\<lambda>_.
        check_all (\<lambda>(k, v). rbind (ValidateLabelKey k) (\<lambda>_. ValidateLabelValue v)) label))"

section \<open>The patterns of names\<close>

definition alnum_rune :: "nat \<Rightarrow> bool" where
  "alnum_rune r \<longleftrightarrow> (48 \<le> r \<and> r \<le> 57) \<or> (65 \<le> r \<and> r \<le> 90) \<or> (97 \<le> r \<and> r \<le> 122)"

text \<open>\<open>\w\<close>: letters, digits and the underscore.\<close>

definition word_rune :: "nat \<Rightarrow> bool" where
  "word_rune r \<longleftrightarrow> alnum_rune r \<or> r = 95"

definition cjk_rune :: "nat \<Rightarrow> bool" where
  "cjk_rune r \<longleftrightarrow> 0x4E00 \<le> r \<and> r \<le> 0x9FA5"

text \<open>\<open>^F M* L$\<close> and \<open>^(N E*)?N$\<close>.\<close>

definition re_first_mid_last :: "(nat \<Rightarrow> bool) \<Rightarrow> (nat \<Rightarrow> bool) \<Rightarrow> (nat \<Rightarrow> bool) \<Rightarrow> nat list \<Rightarrow> bool" where
  "re_first_mid_last f m l rs \<longleftrightarrow>
     2 \<le> length rs \<and> f (hd rs) \<and> l (last rs) \<and> list_all m (butlast (tl rs))"

definition re_qualified :: "(nat \<Rightarrow> bool) \<Rightarrow> (nat \<Rightarrow> bool) \<Rightarrow> nat list \<Rightarrow> bool" where
  "re_qualified n e rs \<longleftrightarrow> (\<exists>r \<in> set (take 1 rs). rs = [r] \<and> n r) \<or> re_first_mid_last n e n rs"

definition name_rune :: "nat \<Rightarrow> bool" where
  "name_rune r \<longleftrightarrow> cjk_rune r \<or> alnum_rune r"

definition qualifiedName :: "string \<Rightarrow> bool" where
  "qualifiedName s = re_qualified name_rune (\<lambda>r. name_rune r \<or> r = 45 \<or> r = 95) (runes s)"

definition qualifiedRN :: "string \<Rightarrow> bool" where
  "qualifiedRN s = re_qualified name_rune (\<lambda>r. name_rune r \<or> r = 45 \<or> r = 95 \<or> r = 46) (runes s)"

definition qualifiedUid :: "string \<Rightarrow> bool" where
  "qualifiedUid s = re_qualified alnum_rune (\<lambda>r. alnum_rune r \<or> r = 45 \<or> r = 95 \<or> r = 58) (runes s)"

definition qualifiedAppName :: "string \<Rightarrow> bool" where
  "qualifiedAppName s = re_first_mid_last alnum_rune (\<lambda>r. word_rune r \<or> r = 45) alnum_rune (runes s)"

definition qualifiedAppAlias :: "(nat \<Rightarrow> bool) \<Rightarrow> string \<Rightarrow> bool" where
  "qualifiedAppAlias han s =
     re_first_mid_last (\<lambda>r. alnum_rune r \<or> han r) (\<lambda>r. word_rune r \<or> han r \<or> r = 45)
       (\<lambda>r. alnum_rune r \<or> han r) (runes s)"

text \<open>
  Under \<open>(?i)\<close> a letter matches its simple case foldings: beside the other case, k matches
  U+212A and s matches U+017F, and both are in the folded \<open>\w\<close>.
\<close>

definition fold_eq :: "char \<Rightarrow> nat \<Rightarrow> bool" where
  "fold_eq c r \<longleftrightarrow> r = of_char c \<or> (97 \<le> (of_char c :: nat) \<and> r + 32 = of_char c)
     \<or> (c = CHR ''k'' \<and> r = 0x212A) \<or> (c = CHR ''s'' \<and> r = 0x17F)"

definition qualifiedVariableName :: "string \<Rightarrow> bool" where
  "qualifiedVariableName s =
     (let rs = runes s; p = ''bk_bscp_'' in
        length p \<le> length rs \<and> list_all2 fold_eq p (take (length p) rs)
        \<and> list_all (\<lambda>r. word_rune r \<or> r = 0x212A \<or> r = 0x17F) (drop (length p) rs))"

definition qualifiedFileName :: "(nat \<Rightarrow> bool) \<Rightarrow> string \<Rightarrow> bool" where
  "qualifiedFileName han s =
     (runes s \<noteq> [] \<and> list_all (\<lambda>r. han r \<or> word_rune r \<or> r = 45 \<or> r = 46 \<or> r = 32) (runes s))"

definition dotsName :: "string \<Rightarrow> bool" where
  "dotsName s = (runes s \<noteq> [] \<and> list_all (\<lambda>r. r = 46) (runes s))"

section \<open>Names\<close>

definition reservedResNamePrefix :: "string list" where
  "reservedResNamePrefix = [''_bk'']"

definition validResNamePrefix :: "string \<Rightarrow> valid" where
  "validResNamePrefix name =
     check_all (\<lambda>p. ensure (\<not> hasPrefix (toLower name) p) (ReservedPrefix p)) reservedResNamePrefix"

text \<open>The common body of the name validators: length in bytes, reserved prefix, pattern.\<close>

definition bounded_name :: "nat \<Rightarrow> (string \<Rightarrow> bool) \<Rightarrow> string \<Rightarrow> valid" where
  "bounded_name mx pat name =
     rbind (ensure (1 \<le> length name) Empty) (\<lambda>_.
     rbind (ensure (length name \<le> mx) (TooLong mx)) (\<lambda>_.
     rbind (validResNamePrefix name) (\<lambda>_.
     ensure (pat name) BadFormat)))"

definition ValidateAppName :: "string \<Rightarrow> valid" where
  "ValidateAppName name = bounded_name 128 qualifiedAppName name"

definition ValidateAppAlias :: "(nat \<Rightarrow> bool) \<Rightarrow> string \<Rightarrow> valid" where
  "ValidateAppAlias han alias = bounded_name 128 (qualifiedAppAlias han) alias"

definition ValidateVariableName :: "string \<Rightarrow> valid" where
  "ValidateVariableName name =
     rbind (ensure (9 \<le> length name) (TooShort 9)) (\<lambda>_.
     rbind (ensure (length name \<le> 128) (TooLong 128)) (\<lambda>_.
     ensure (qualifiedVariableName name) BadFormat))"

definition ValidateName :: "string \<Rightarrow> valid" where
  "ValidateName name = bounded_name 128 qualifiedName name"

definition ValidateReleaseName :: "string \<Rightarrow> valid" where
  "ValidateReleaseName name = bounded_name 128 qualifiedRN name"

definition ValidateNamespace :: "string \<Rightarrow> valid" where
  "ValidateNamespace namespace = bounded_name 128 qualifiedName namespace"

definition ValidateFileName :: "(nat \<Rightarrow> bool) \<Rightarrow> string \<Rightarrow> valid" where
  "ValidateFileName han name =
     rbind (ensure (1 \<le> length name) Empty) (\<lambda>_.
     rbind (ensure (runeCount name \<le> 64) (TooLong 64)) (\<lambda>_.
     rbind (validResNamePrefix name) (\<lambda>_.
     rbind (ensure (\<not> dotsName name) AllDots) (\<lambda>_.
     ensure (qualifiedFileName han name) BadFormat))))"

definition ValidateUserName :: "string \<Rightarrow> valid" where
  "ValidateUserName username =
     rbind (ensure (1 \<le> length username) Empty) (\<lambda>_. ensure (length username \<le> 32) (TooLong 32))"

section \<open>Uids, paths and memos\<close>

definition ValidateUid :: "string \<Rightarrow> valid" where
  "ValidateUid uid =
     rbind (ensure (length uid \<noteq> 0) Empty) (\<lambda>_.
     rbind (ensure (length uid \<le> 64) (TooLong 64)) (\<lambda>_.
     ensure (qualifiedUid uid) BadFormat))"

definition ValidateUidLength :: "string \<Rightarrow> valid" where
  "ValidateUidLength uid =
     rbind (ensure (length uid \<noteq> 0) Empty) (\<lambda>_. ensure (length uid \<le> 64) (TooLong 64))"

definition ValidateUnixFilePath :: "string \<Rightarrow> valid" where
  "ValidateUnixFilePath path =
     rbind (ensure (1 \<le> length path) Empty) (\<lambda>_.
     rbind (ensure (length path \<le> 1024) (TooLong 1024)) (\<lambda>_.
     rbind (ensure (hasPrefix path ''/'') NotAbsolute) (\<lambda>_.
     ensure (\<not> containsStr path ''//'') DoubleSlash)))"

text \<open>\<open>^[a-zA-Z]:(\\[\w...\s]+)+\<close>, not anchored at the end: one segment of one code point suffices.\<close>

definition win_seg_rune :: "nat \<Rightarrow> bool" where
  "win_seg_rune r \<longleftrightarrow> word_rune r \<or> cjk_rune r \<or> r \<in> {9, 10, 12, 13, 32}"

definition qualifiedWinFilePath :: "string \<Rightarrow> bool" where
  "qualifiedWinFilePath s =
     (case runes s of
        d # c # b # r # _ \<Rightarrow>
          ((65 \<le> d \<and> d \<le> 90) \<or> (97 \<le> d \<and> d \<le> 122)) \<and> c = 58 \<and> b = 92 \<and> win_seg_rune r
      | _ \<Rightarrow> False)"

definition ValidateWinFilePath :: "string \<Rightarrow> valid" where
  "ValidateWinFilePath path =
     rbind (ensure (1 \<le> length path) Empty) (\<lambda>_.
     rbind (ensure (length path \<le> 256) (TooLong 256)) (\<lambda>_.
     ensure (qualifiedWinFilePath path) BadFormat))"

definition SideWorkspaceDir :: string where "SideWorkspaceDir = ''bk-bscp''"

text \<open>\<open>^.*[\\/]*bk-bscp[\\/]*.*$\<close>: the dot does not match a newline.\<close>

definition qualifiedReloadFilePath :: "string \<Rightarrow> bool" where
  "qualifiedReloadFilePath s \<longleftrightarrow> containsStr s SideWorkspaceDir \<and> CHR 0x0A \<notin> set s"

definition ValidateReloadFilePath :: "string \<Rightarrow> valid" where
  "ValidateReloadFilePath path =
     rbind (ensure (length path \<noteq> 0) Empty) (\<lambda>_.
     rbind (ensure (length path \<le> 128) (TooLong 128)) (\<lambda>_.
     rbind (ensure (hasPrefix path ''/'') NotAbsolute) (\<lambda>_.
     ensure (\<not> qualifiedReloadFilePath path) ReservedPath)))"

definition ValidateMemo :: "string \<Rightarrow> bool \<Rightarrow> valid" where
  "ValidateMemo memo required =
     rbind (ensure (\<not> (required \<and> length memo = 0)) Empty) (\<lambda>_.
     if required then
       rbind (ensure (length memo \<noteq> 0) Empty) (\<lambda>_. ensure (runeCount memo \<le> 200) (TooLong 200))
     else if length memo = 0 then Inr () else ensure (runeCount memo \<le> 200) (TooLong 200))"

section \<open>Facts about the validators\<close>

lemmas validator_defs = ValidateLabelKey_def ValidateLabelValue_def ValidateLabelValueRegex_def
  MaxLabelKeyCount_def MaxLabelKeyLength_def MaxLabelValueLength_def ReservedLabelKeyPrefix_def

lemma ValidateLabelValue_ok:
  "ValidateLabelValue v = Inr () \<longleftrightarrow> v \<noteq> [] \<and> length v \<le> 128"
  by (simp add: validator_defs res_simps)

lemma ValidateLabelKey_ok:
  "ValidateLabelKey k = Inr () \<longleftrightarrow>
     k \<noteq> [] \<and> length k \<le> 128 \<and> \<not> hasPrefix (toLower k) ''bk_bscp'' \<and> \<not> hasPrefix (toLower k) ''bscp''"
  by (simp add: validator_defs res_simps)

lemma bounded_name_ok:
  "bounded_name mx pat name = Inr () \<longleftrightarrow>
     name \<noteq> [] \<and> length name \<le> mx \<and> \<not> hasPrefix (toLower name) ''_bk'' \<and> pat name"
  by (auto simp: bounded_name_def validResNamePrefix_def reservedResNamePrefix_def res_simps Suc_le_eq)

text \<open>Every byte below 128 of a string is one of its code points.\<close>

lemma decode_rune_ascii:
  assumes "decode_rune bs = (r, w)" "b \<in> set (take w bs)" "b < 128"
  shows "b = r"
  using assms
  by (cases bs rule: decode_rune.cases)
    (auto simp: cont_byte_def split: list.splits if_splits)

lemma ascii_in_runes_of: "b \<in> set bs \<Longrightarrow> b < 128 \<Longrightarrow> b \<in> set (runes_of bs)"
proof (induction bs rule: runes_of.induct)
  case (2 c bs)
  obtain r w where rw: "decode_rune (c # bs) = (r, w)" by fastforce
  have "set (c # bs) = set (take w (c # bs)) \<union> set (drop w (c # bs))"
    by (metis append_take_drop_id set_append)
  then consider "b \<in> set (take w (c # bs))" | "b \<in> set (drop w (c # bs))" using 2 by blast
  then show ?case
    using decode_rune_ascii [OF rw _ 2(3)] 2(1) [OF rw [symmetric]] rw 2(3) by cases (auto simp: Let_def)
qed simp

lemma ascii_in_runes: "c \<in> set s \<Longrightarrow> (of_char c :: nat) < 128 \<Longrightarrow> of_char c \<in> set (runes s)"
  unfolding runes_def by (rule ascii_in_runes_of) auto

lemma runes_all_ascii: "\<forall>c \<in> set s. (of_char c :: nat) < 128 \<Longrightarrow> runes s = map of_char s"
  unfolding runes_def by (induction s) (auto simp: Let_def)

lemma re_first_mid_last_all:
  assumes "re_first_mid_last f m l rs" "r \<in> set rs"
  shows "f r \<or> m r \<or> l r"
proof -
  obtain x y zs where rs: "rs = x # zs @ [y]"
    using assms(1) by (auto simp: re_first_mid_last_def Suc_le_length_iff numeral_2_eq_2)
      (metis append_butlast_last_id list.distinct(1))
  then show ?thesis
    using assms by (auto simp: re_first_mid_last_def list_all_iff butlast_append)
qed

lemma re_qualified_all: "re_qualified n e rs \<Longrightarrow> r \<in> set rs \<Longrightarrow> n r \<or> e r"
  by (auto simp: re_qualified_def dest: re_first_mid_last_all)

text \<open>
  Characters a validated name cannot contain, for each pattern: a byte below 128 outside the
  pattern's classes.
\<close>

lemma qualifiedFileName_ascii:
  assumes "qualifiedFileName han s" "c \<in> set s" "(of_char c :: nat) < 128" "\<not> han (of_char c)"
  shows "word_rune (of_char c) \<or> of_char c \<in> {45, 46, 32 :: nat}"
  using assms ascii_in_runes [OF assms(2,3)] by (auto simp: qualifiedFileName_def list_all_iff)

lemma qualifiedName_ascii:
  assumes "qualifiedName s" "c \<in> set s" "(of_char c :: nat) < 128"
  shows "alnum_rune (of_char c) \<or> of_char c \<in> {45, 95 :: nat}"
  using re_qualified_all [OF assms(1) [unfolded qualifiedName_def] ascii_in_runes [OF assms(2,3)]] assms(3)
  by (auto simp: name_rune_def cjk_rune_def)

text \<open>
  A file name that passes the validator is a single path component: it contains no slash,
  no backslash and no NUL byte, is neither the current nor the parent directory, and does not
  start with the reserved prefix in any case. The hypothesis is that the Unicode class Han
  holds no ASCII code point.
\<close>

theorem validated_file_name_is_component:
  assumes "\<And>r. han r \<Longrightarrow> 128 \<le> r"
    and "ValidateFileName han name = Inr ()"
  shows "name \<noteq> [] \<and> CHR ''/'' \<notin> set name \<and> CHR 0x5C \<notin> set name \<and> CHR 0x00 \<notin> set name
    \<and> name \<noteq> ''.'' \<and> name \<noteq> ''..'' \<and> \<not> hasPrefix (toLower name) ''_bk'' \<and> runeCount name \<le> 64"
proof -
  have ok: "name \<noteq> []" "runeCount name \<le> 64" "\<not> hasPrefix (toLower name) ''_bk''" "\<not> dotsName name"
    and q: "qualifiedFileName han name"
    using assms(2) by (simp_all add: ValidateFileName_def validResNamePrefix_def
        reservedResNamePrefix_def res_simps Suc_le_eq)
  have no: "c \<notin> set name" if "(of_char c :: nat) < 128" "\<not> word_rune (of_char c)"
    "of_char c \<notin> {45, 46, 32 :: nat}" for c
    using qualifiedFileName_ascii [OF q _ that(1)] that assms(1) [of "of_char c"] by fastforce
  have "dotsName ''.''" "dotsName ''..''" by code_simp+
  with ok(4) have "name \<noteq> ''.''" "name \<noteq> ''..''" by blast+
  then show ?thesis
    using ok no [of "CHR ''/''"] no [of "CHR 0x5C"] no [of "CHR 0x00"]
    by (simp add: word_rune_def alnum_rune_def)
qed

theorem validated_file_name_is_component_witness:
  "ValidateFileName (\<lambda>r. 0x4E00 \<le> r \<and> r \<le> 0x9FFF) ''app-1.yaml'' = Inr () \<and> CHR ''/'' \<notin> set ''app-1.yaml''"
proof -
  have v: "ValidateFileName (\<lambda>r. 0x4E00 \<le> r \<and> r \<le> 0x9FFF) ''app-1.yaml'' = Inr ()" by code_simp
  show ?thesis
    using validated_file_name_is_component [OF _ v] v by simp
qed

end
