(* ===== verification/GoFloat.thy ===== *)
theory GoFloat
  imports GoStrings
begin

text \<open>
  Go's \<open>float32\<close> and \<open>float64\<close>: finite values are the rationals they denote (the two zeros
  compare equal and are one value), and an arithmetic result is the exact result rounded to
  nearest, ties to even, on the grid of the format. \<open>parse_float\<close> is \<open>strconv.ParseFloat\<close> on the
  decimal syntax and on the spellings of infinity and not-a-number.
\<close>

datatype gofloat = FNaN | FInf bool | FFin rat

fun fl_less :: "gofloat \<Rightarrow> gofloat \<Rightarrow> bool" where
  "fl_less FNaN y = False"
| "fl_less x FNaN = False"
| "fl_less (FInf n) (FInf m) = (n \<and> \<not> m)"
| "fl_less (FInf n) (FFin y) = n"
| "fl_less (FFin x) (FInf m) = (\<not> m)"
| "fl_less (FFin x) (FFin y) = (x < y)"

fun fl_eq :: "gofloat \<Rightarrow> gofloat \<Rightarrow> bool" where
  "fl_eq FNaN y = False"
| "fl_eq x FNaN = False"
| "fl_eq (FInf n) (FInf m) = (n = m)"
| "fl_eq (FFin x) (FFin y) = (x = y)"
| "fl_eq _ _ = False"

definition fl_le :: "gofloat \<Rightarrow> gofloat \<Rightarrow> bool" where
  "fl_le x y \<longleftrightarrow> fl_less x y \<or> fl_eq x y"

lemma fl_less_trans: "fl_less x y \<Longrightarrow> fl_less y z \<Longrightarrow> fl_less x z"
  by (cases x; cases y; cases z) auto

lemma fl_less_le_trans: "fl_less x y \<Longrightarrow> fl_le y z \<Longrightarrow> fl_less x z"
  by (cases x; cases y; cases z) (auto simp: fl_le_def)

lemma fl_less_irrefl [simp]: "\<not> fl_less x x"
  by (cases x) auto

lemma fl_less_asym: "fl_less x y \<Longrightarrow> \<not> fl_less y x"
  by (cases x; cases y) auto

lemma fl_trichotomy: "x \<noteq> FNaN \<Longrightarrow> y \<noteq> FNaN \<Longrightarrow> fl_less x y \<or> fl_eq x y \<or> fl_less y x"
  by (cases x; cases y) auto

section \<open>Rounding\<close>

fun blen :: "nat \<Rightarrow> nat" where
  "blen n = (if n = 0 then 0 else Suc (blen (n div 2)))"

declare blen.simps [simp del]

lemma blen_bounds: "0 < n \<Longrightarrow> 2 ^ (blen n - 1) \<le> n \<and> n < 2 ^ blen n \<and> 0 < blen n"
proof (induction n rule: blen.induct)
  case (1 n)
  show ?case
  proof (cases "n = 1")
    case True
    then show ?thesis by (simp add: blen.simps)
  next
    case False
    with 1 have ih: "2 ^ (blen (n div 2) - 1) \<le> n div 2" "n div 2 < 2 ^ blen (n div 2)"
      "0 < blen (n div 2)" by auto
    have b: "blen n = Suc (blen (n div 2))"
      using 1 by (subst blen.simps) simp
    have "2 ^ blen (n div 2) = 2 * (2::nat) ^ (blen (n div 2) - 1)"
      using ih(3) by (cases "blen (n div 2)") auto
    define p where "p = (2::nat) ^ (blen (n div 2) - 1)"
    have "p \<le> n div 2" "n div 2 < 2 * p"
      using ih(1,2) \<open>2 ^ blen (n div 2) = _\<close> by (simp_all add: p_def)
    then have "2 * p \<le> n" "n < 2 * (2 * p)" by linarith+
    then show ?thesis
      unfolding b using \<open>2 ^ blen (n div 2) = _\<close> by (simp add: p_def)
  qed
qed

text \<open>The binary exponent of a positive rational.\<close>

definition ilog2 :: "rat \<Rightarrow> int" where
  "ilog2 x =
     (let (n, d) = quotient_of x; k = int (blen (nat n)) - int (blen (nat d))
      in if 2 powi k \<le> x then k else k - 1)"

lemma powi_2_mono: "i \<le> j \<Longrightarrow> (2::rat) powi i \<le> 2 powi j"
  by (simp add: power_int_increasing)

lemma powi_2_pos [simp]: "0 < (2::rat) powi i"
  by simp

lemma powi_2_add1: "(2::rat) powi (i + 1) = 2 * 2 powi i"
  by (simp add: power_int_add)

lemma powi_2_sub1: "(2::rat) powi i = 2 * 2 powi (i - 1)"
  using powi_2_add1 [of "i - 1"] by simp

lemma ilog2_bounds:
  assumes "0 < x"
  shows "2 powi (ilog2 x) \<le> x \<and> x < 2 powi (ilog2 x + 1)"
proof -
  obtain n d where nd: "quotient_of x = (n, d)" by fastforce
  have d: "0 < d" using quotient_of_denom_pos [OF nd] .
  have x: "x = of_int n / of_int d" using quotient_of_div [OF nd] .
  have n: "0 < n" using assms d x by (simp add: zero_less_divide_iff)
  define a where "a = blen (nat n)"
  define b where "b = blen (nat d)"
  have ab: "0 < a" "0 < b" "2 ^ (a - 1) \<le> nat n" "nat n < 2 ^ a" "2 ^ (b - 1) \<le> nat d" "nat d < 2 ^ b"
    using blen_bounds [of "nat n"] blen_bounds [of "nat d"] n d by (auto simp: a_def b_def)
  have rn: "2 ^ (a - 1) \<le> (of_int n :: rat)" "(of_int n :: rat) < 2 ^ a"
    using ab n by (metis of_int_of_nat_eq of_nat_le_iff of_nat_numeral of_nat_power int_nat_eq less_imp_le,
        metis ab(4) n of_int_of_nat_eq of_nat_less_iff of_nat_numeral of_nat_power int_nat_eq less_imp_le)
  have rd: "2 ^ (b - 1) \<le> (of_int d :: rat)" "(of_int d :: rat) < 2 ^ b"
    using ab d by (metis of_int_of_nat_eq of_nat_le_iff of_nat_numeral of_nat_power int_nat_eq less_imp_le,
        metis ab(6) d of_int_of_nat_eq of_nat_less_iff of_nat_numeral of_nat_power int_nat_eq less_imp_le)
  define k where "k = int a - int b"
  have pa: "(2::rat) ^ a = 2 * 2 ^ (a - 1)" and pb: "(2::rat) ^ b = 2 * 2 ^ (b - 1)"
    using ab by (metis power_Suc Suc_pred' One_nat_def)+
  have pk: "(2::rat) powi k = 2 ^ a / 2 ^ b"
    by (simp add: k_def power_int_diff)
  have dpos: "0 < (of_int d :: rat)" using d by simp
  have up: "x < 2 powi (k + 1)"
  proof -
    have "of_int n * 2 ^ (b - 1) < (2 ^ a * of_int d :: rat)"
      using rn(2) rd(1) dpos n by (intro mult_less_le_imp_less) auto
    then have "x < 2 ^ a / 2 ^ (b - 1)" using dpos by (simp add: x field_simps)
    then show ?thesis by (simp add: powi_2_add1 pk pb)
  qed
  have lo: "2 powi (k - 1) \<le> x"
  proof -
    have "2 ^ (a - 1) * of_int d \<le> (of_int n * 2 ^ b :: rat)"
      using rn(1) rd(2) dpos n by (intro mult_mono) auto
    then have "2 ^ (a - 1) / 2 ^ b \<le> x" using dpos by (simp add: x field_simps)
    moreover have "(2::rat) powi (k - 1) = 2 ^ (a - 1) / 2 ^ b"
      using powi_2_sub1 [of k] by (simp add: pk pa)
    ultimately show ?thesis by simp
  qed
  have il: "ilog2 x = (if 2 powi k \<le> x then k else k - 1)"
    by (simp add: ilog2_def nd k_def a_def b_def)
  show ?thesis using up lo by (auto simp: il)
qed

text \<open>The computation of \<open>ilog2\<close> on binary integers instead of unary naturals, for evaluation.\<close>

function blen_int :: "int \<Rightarrow> nat" where
  "blen_int n = (if n \<le> 0 then 0 else Suc (blen_int (n div 2)))"
  by pat_completeness auto
termination by (relation "measure nat") auto

declare blen_int.simps [simp del]

lemma blen_int_blen: "blen_int n = blen (nat n)"
proof (induction n rule: blen_int.induct)
  case (1 n)
  show ?case
  proof (cases "n \<le> 0")
    case True
    then show ?thesis by (simp add: blen_int.simps blen.simps)
  next
    case False
    then have "nat (n div 2) = nat n div 2" by (simp add: nat_div_distrib)
    with 1 False show ?thesis by (subst blen_int.simps, subst blen.simps) auto
  qed
qed

lemma ilog2_code [code]:
  "ilog2 x =
     (let (n, d) = quotient_of x; k = int (blen_int n) - int (blen_int d)
      in if 2 powi k \<le> x then k else k - 1)"
  by (simp add: ilog2_def blen_int_blen)

definition round_half_even :: "rat \<Rightarrow> int" where
  "round_half_even x =
     (let f = \<lfloor>x\<rfloor>; r = x - of_int f
      in if r < 1/2 then f else if 1/2 < r then f + 1 else if even f then f else f + 1)"

lemma round_half_even_of_int [simp]: "round_half_even (of_int n) = n"
  by (simp add: round_half_even_def)

lemma round_half_even_bounds: "\<lfloor>x\<rfloor> \<le> round_half_even x \<and> round_half_even x \<le> \<lfloor>x\<rfloor> + 1"
  by (simp add: round_half_even_def Let_def)

lemma round_half_even_mono: "x \<le> y \<Longrightarrow> round_half_even x \<le> round_half_even y"
proof -
  assume xy: "x \<le> y"
  then have "\<lfloor>x\<rfloor> \<le> \<lfloor>y\<rfloor>" by (rule floor_mono)
  show ?thesis
  proof (cases "\<lfloor>x\<rfloor> = \<lfloor>y\<rfloor>")
    case True
    with xy show ?thesis by (auto simp: round_half_even_def Let_def)
  next
    case False
    with \<open>\<lfloor>x\<rfloor> \<le> \<lfloor>y\<rfloor>\<close> have "\<lfloor>x\<rfloor> + 1 \<le> \<lfloor>y\<rfloor>" by simp
    then show ?thesis
      using round_half_even_bounds [of x] round_half_even_bounds [of y] by linarith
  qed
qed

text \<open>Rounding of a positive rational to \<open>prec\<close> significant bits, exponent at least \<open>emin\<close>.\<close>

definition fl_quantum :: "int \<Rightarrow> int \<Rightarrow> rat \<Rightarrow> int" where
  "fl_quantum prec emin x = max (ilog2 x - (prec - 1)) emin"

definition fl_round_pos :: "int \<Rightarrow> int \<Rightarrow> rat \<Rightarrow> rat" where
  "fl_round_pos prec emin x =
     (let q = fl_quantum prec emin x in of_int (round_half_even (x / 2 powi q)) * 2 powi q)"

definition fl_round :: "int \<Rightarrow> int \<Rightarrow> int \<Rightarrow> rat \<Rightarrow> gofloat" where
  "fl_round prec emin emax x =
     (if x = 0 then FFin 0
      else let y = fl_round_pos prec emin \<bar>x\<bar>
           in if 2 powi emax \<le> y then FInf (x < 0) else FFin (if x < 0 then - y else y))"

text \<open>The test of overflow without the power, for evaluation.\<close>

lemma powi_le_iff_ilog2: "0 < y \<Longrightarrow> 2 powi e \<le> y \<longleftrightarrow> e \<le> ilog2 y"
  using ilog2_bounds [of y] powi_2_mono [of e "ilog2 y"] powi_2_mono [of "ilog2 y + 1" e]
  by linarith

lemma fl_round_code [code]:
  "fl_round prec emin emax x =
     (if x = 0 then FFin 0
      else let y = fl_round_pos prec emin \<bar>x\<bar>
           in if 0 < y \<and> emax \<le> ilog2 y then FInf (x < 0) else FFin (if x < 0 then - y else y))"
proof -
  have "2 powi emax \<le> y \<longleftrightarrow> 0 < y \<and> emax \<le> ilog2 y" for y :: rat
    using order.strict_trans2 [OF powi_2_pos [of emax], of y] powi_le_iff_ilog2 [of y emax] by blast
  then show ?thesis by (simp add: fl_round_def Let_def)
qed

definition round64 :: "rat \<Rightarrow> gofloat" where
  "round64 = fl_round 53 (- 1074) 1024"

definition round32 :: "rat \<Rightarrow> gofloat" where
  "round32 = fl_round 24 (- 149) 128"

lemma grid_point: "q \<le> j \<Longrightarrow> \<exists>n. (2::rat) powi j / 2 powi q = of_int n"
proof -
  assume "q \<le> j"
  have "(2::rat) powi j / 2 powi q = 2 powi (j - q)"
    by (simp add: power_int_diff)
  also have "\<dots> = of_int (2 ^ nat (j - q))"
    using \<open>q \<le> j\<close> by (simp add: power_int_def)
  finally have "(2::rat) powi j / 2 powi q = of_int (2 ^ nat (j - q))" .
  then show ?thesis by blast
qed

lemma fl_round_pos_upper:
  assumes "0 < x" "x \<le> 2 powi j" "fl_quantum prec emin x \<le> j"
  shows "fl_round_pos prec emin x \<le> 2 powi j"
proof -
  let ?q = "fl_quantum prec emin x"
  obtain n where n: "(2::rat) powi j / 2 powi ?q = of_int n"
    using grid_point assms(3) by blast
  have "x / 2 powi ?q \<le> of_int n"
    using assms(2) by (simp add: n [symmetric] divide_right_mono)
  then have "round_half_even (x / 2 powi ?q) \<le> n"
    using round_half_even_mono round_half_even_of_int by metis
  then have "of_int (round_half_even (x / 2 powi ?q)) \<le> (2::rat) powi j / 2 powi ?q"
    by (simp add: n)
  then show ?thesis by (simp add: fl_round_pos_def Let_def field_simps)
qed

lemma fl_round_pos_lower:
  assumes "0 < x" "2 powi j \<le> x" "fl_quantum prec emin x \<le> j"
  shows "2 powi j \<le> fl_round_pos prec emin x"
proof -
  let ?q = "fl_quantum prec emin x"
  obtain n where n: "(2::rat) powi j / 2 powi ?q = of_int n"
    using grid_point assms(3) by blast
  have "of_int n \<le> x / 2 powi ?q"
    using assms(2) by (simp add: n [symmetric] divide_right_mono)
  then have "n \<le> round_half_even (x / 2 powi ?q)"
    using round_half_even_mono round_half_even_of_int by metis
  then have "(2::rat) powi j / 2 powi ?q \<le> of_int (round_half_even (x / 2 powi ?q))"
    by (simp add: n)
  then show ?thesis by (simp add: fl_round_pos_def Let_def field_simps)
qed

lemma ilog2_mono: "0 < x \<Longrightarrow> x \<le> y \<Longrightarrow> ilog2 x \<le> ilog2 y"
proof (rule ccontr)
  assume xy: "0 < x" "x \<le> y" and "\<not> ilog2 x \<le> ilog2 y"
  then have "ilog2 y + 1 \<le> ilog2 x" by simp
  then have "(2::rat) powi (ilog2 y + 1) \<le> 2 powi (ilog2 x)" by (rule powi_2_mono)
  then show False using ilog2_bounds [of x] ilog2_bounds [of y] xy by force
qed

lemma fl_round_pos_mono:
  assumes "0 < x" "x \<le> y" "1 \<le> prec"
  shows "fl_round_pos prec emin x \<le> fl_round_pos prec emin y"
proof (cases "fl_quantum prec emin x = fl_quantum prec emin y")
  case True
  have "round_half_even (x / 2 powi fl_quantum prec emin y)
      \<le> round_half_even (y / 2 powi fl_quantum prec emin y)"
    using assms by (intro round_half_even_mono divide_right_mono) auto
  then show ?thesis
    by (simp add: fl_round_pos_def Let_def True mult_right_mono)
next
  case False
  have il: "ilog2 x \<le> ilog2 y" using assms by (intro ilog2_mono)
  define j where "j = ilog2 y"
  have qy: "fl_quantum prec emin y = ilog2 y - (prec - 1)" and lt: "ilog2 x < ilog2 y"
    and em: "emin \<le> j"
    using False il assms(3) by (auto simp: fl_quantum_def max_def j_def split: if_splits)
  have qx: "fl_quantum prec emin x \<le> j"
    using lt em assms(3) by (auto simp: fl_quantum_def j_def)
  have "x \<le> 2 powi (ilog2 x + 1)" using ilog2_bounds [OF assms(1)] by simp
  also have "\<dots> \<le> 2 powi j" using lt by (intro powi_2_mono) (simp add: j_def)
  finally have "fl_round_pos prec emin x \<le> 2 powi j"
    using assms(1) qx by (intro fl_round_pos_upper)
  also have "\<dots> \<le> fl_round_pos prec emin y"
    using assms ilog2_bounds [of y] qy by (intro fl_round_pos_lower) (auto simp: j_def)
  finally show ?thesis .
qed

lemma fl_round_mono_pos:
  assumes "0 < x" "x \<le> y" "1 \<le> prec"
  shows "fl_le (fl_round prec emin emax x) (fl_round prec emin emax y)"
  using fl_round_pos_mono [OF assms, of emin] assms
  by (auto simp: fl_round_def Let_def fl_le_def)

lemma round64_mono: "0 < x \<Longrightarrow> x \<le> y \<Longrightarrow> fl_le (round64 x) (round64 y)"
  by (simp add: round64_def fl_round_mono_pos)

lemma round32_mono: "0 < x \<Longrightarrow> x \<le> y \<Longrightarrow> fl_le (round32 x) (round32 y)"
  by (simp add: round32_def fl_round_mono_pos)

lemma round64_0 [simp]: "round64 0 = FFin 0"
  by (simp add: round64_def fl_round_def)

section \<open>strconv.ParseFloat and fmt.Sprintf on floats\<close>

definition lower_str :: "string \<Rightarrow> string" where
  "lower_str s = map lower_char s"

text \<open>The decimal syntax: digits with an optional point, and an optional exponent.\<close>

definition parse_exponent :: "string \<Rightarrow> int option" where
  "parse_exponent s =
     (case s of [] \<Rightarrow> Some 0
      | c # r \<Rightarrow>
          if lower_char c \<noteq> CHR ''e'' then None
          else let (neg, ds) = (case r of
                       [] \<Rightarrow> (False, [])
                     | c' # r' \<Rightarrow> if c' = CHR ''-'' then (True, r')
                                  else if c' = CHR ''+'' then (False, r') else (False, r))
               in if all_digits ds then Some (if neg then - int (nat_of_digits ds) else int (nat_of_digits ds))
                  else None)"

definition parse_unsigned_decimal :: "string \<Rightarrow> rat option" where
  "parse_unsigned_decimal s =
     (let ip = takeWhile is_digit_char s; r1 = dropWhile is_digit_char s;
          (fp, r2) = (case r1 of [] \<Rightarrow> ([], [])
                      | c # t \<Rightarrow> if c = CHR ''.''
                                 then (takeWhile is_digit_char t, dropWhile is_digit_char t)
                                 else ([], r1))
      in if ip = [] \<and> fp = [] then None
         else map_option (\<lambda>e. rat_of_nat (nat_of_digits (ip @ fp)) * 10 powi (e - int (length fp)))
                (parse_exponent r2))"

definition fl_neg :: "gofloat \<Rightarrow> gofloat" where
  "fl_neg x = (case x of FNaN \<Rightarrow> FNaN | FInf n \<Rightarrow> FInf (\<not> n) | FFin y \<Rightarrow> FFin (- y))"

text \<open>
  \<open>ParseFloat(s, bits)\<close>: the value and whether there is no error. A syntax error comes with the
  value 0, a range error with the infinity of the sign. (The hexadecimal syntax of Go floats is
  not modelled: such a string is a syntax error here.)
\<close>

definition parse_float_full :: "nat \<Rightarrow> string \<Rightarrow> gofloat \<times> bool" where
  "parse_float_full bits s =
     (let (neg, r) = (case s of [] \<Rightarrow> (False, [])
                      | c # t \<Rightarrow> if c = CHR ''-'' then (True, t)
                                 else if c = CHR ''+'' then (False, t) else (False, s))
      in if lower_str r = ''inf'' \<or> lower_str r = ''infinity'' then (FInf neg, True)
         else if lower_str s = ''nan'' then (FNaN, True)
         else case parse_unsigned_decimal r of
                None \<Rightarrow> (FFin 0, False)
              | Some v \<Rightarrow>
                  (case (if bits = 32 then round32 v else round64 v) of
                     FFin y \<Rightarrow> (FFin (if neg then - y else y), True)
                   | _ \<Rightarrow> (FInf neg, False)))"

definition parse_float :: "nat \<Rightarrow> string \<Rightarrow> gofloat option" where
  "parse_float bits s = (case parse_float_full bits s of (x, ok) \<Rightarrow> if ok then Some x else None)"

text \<open>
  The verb \<open>%.1f\<close>: the exact value rounded to one decimal, ties to even.
\<close>

definition fmt_f1 :: "gofloat \<Rightarrow> string" where
  "fmt_f1 x =
     (case x of FNaN \<Rightarrow> ''NaN'' | FInf n \<Rightarrow> (if n then ''-Inf'' else ''+Inf'')
      | FFin y \<Rightarrow>
          let t = nat (round_half_even (10 * \<bar>y\<bar>))
          in (if y < 0 then ''-'' else []) @ itoa_nat (t div 10) @ ''.'' @ itoa_nat (t mod 10))"

lemma parse_float_int:
  assumes "f = round64 (rat_of_nat n)" "f = FFin y"
  shows "parse_float 64 (itoa_nat n) = Some (FFin y)"
proof -
  obtain c r where eq: "itoa_nat n = c # r" and c: "is_digit_char c"
    using itoa_nat_first by blast
  have ne: "c \<noteq> CHR ''-''" "c \<noteq> CHR ''+''" using c sign_not_digit by blast+
  have dg: "list_all is_digit_char (itoa_nat n)"
    using all_digits_itoa [of n] by (simp add: all_digits_def)
  have tw: "takeWhile is_digit_char (itoa_nat n) = itoa_nat n"
       "dropWhile is_digit_char (itoa_nat n) = []"
    using dg by (auto simp: list_all_iff)
  have pd: "parse_unsigned_decimal (itoa_nat n) = Some (rat_of_nat n)"
    by (simp add: parse_unsigned_decimal_def tw parse_exponent_def)
  have lc: "lower_char c = c"
    using c by (auto simp: lower_char_def is_digit_char_def)
  have "lower_str (itoa_nat n) \<noteq> ''inf'' \<and> lower_str (itoa_nat n) \<noteq> ''infinity''
        \<and> lower_str (itoa_nat n) \<noteq> ''nan''"
    using c by (auto simp: lower_str_def eq lc is_digit_char_def)
  then show ?thesis
    using assms(1) [symmetric] assms(2) pd ne by (simp add: parse_float_def parse_float_full_def eq)
qed

end
