(* ===== verification/Selector.thy ===== *)
theory Selector
  imports Validator GoFloat
begin

text \<open>
  \<open>pkg/runtime/selector\<close>: the label selectors of groups. \<open>operator.go\<close> gives the ten operators
  (one \<open>Validate\<close> and one \<open>Match\<close> each), \<open>label.go\<close> the elements and their comparison,
  \<open>selector.go\<close> the selector with its matching and validation, \<open>validater.go\<close> the checks made
  before a selector is decoded. A Go \<open>interface{}\<close> value is a \<open>go_value\<close>; a failed type assertion
  that the code does not test, and the comparison of two values of an uncomparable type, panic.
  Go's regular expressions are the parameter \<open>rx\<close>.
\<close>

section \<open>Interface values\<close>

datatype int_kind = KInt | KInt8 | KInt16 | KInt32 | KInt64 | KUint | KUint8 | KUint16 | KUint32 | KUint64

datatype go_value =
    VNil
  | VBool bool
  | VString string
  | VInt int_kind int
  | VFloat32 gofloat
  | VFloat64 gofloat
  | VNumber string
  | VList "go_value list"
  | VMap "(string \<times> go_value) list"

text \<open>\<open>==\<close> on interfaces; \<open>None\<close> is the panic on two lists or two maps.\<close>

fun go_eq :: "go_value \<Rightarrow> go_value \<Rightarrow> bool option" where
  "go_eq VNil VNil = Some True"
| "go_eq (VBool a) (VBool b) = Some (a = b)"
| "go_eq (VString a) (VString b) = Some (a = b)"
| "go_eq (VInt k a) (VInt l b) = Some (k = l \<and> a = b)"
| "go_eq (VFloat32 a) (VFloat32 b) = Some (fl_eq a b)"
| "go_eq (VFloat64 a) (VFloat64 b) = Some (fl_eq a b)"
| "go_eq (VNumber a) (VNumber b) = Some (a = b)"
| "go_eq (VList _) (VList _) = None"
| "go_eq (VMap _) (VMap _) = None"
| "go_eq _ _ = Some False"

datatype operator =
    Equal | NotEqual | GreaterThan | GreaterThanEqual | LessThan | LessThanEqual
  | In | NotIn | Regex | NotRegex

definition OperatorEnums :: "string \<Rightarrow> operator option" where
  "OperatorEnums = map_of
     [(''eq'', Equal), (''ne'', NotEqual), (''gt'', GreaterThan), (''ge'', GreaterThanEqual),
      (''lt'', LessThan), (''le'', LessThanEqual), (''in'', In), (''nin'', NotIn),
      (''re'', Regex), (''nre'', NotRegex)]"

record element =
  Key :: string
  Op :: operator
  Value :: go_value

type_synonym label = "element list"
type_synonym labels = "(string, string) gomap"
type_synonym regexps = "string \<Rightarrow> (string \<Rightarrow> bool) option"

datatype sel_err =
    NotString | NotNumber | NotList | NotFloat
  | OversizeValues
  | EmptyValue | EmptyList
  | ValueErr valid_err
  | KeyErr valid_err
  | ParseErr
  | RegexErr
  | NoKey | NoOp | UnsupportedOp
  | NilSelector
  | MatchAllWithLabels
  | NoLabels
  | OversizeLabels

section \<open>Operators\<close>

subsection \<open>eq and ne\<close>

definition EqualType_Validate :: "element \<Rightarrow> sel_err + unit" where
  "EqualType_Validate e =
     (case Value e of VString v \<Rightarrow> wrap_err ValueErr (ValidateLabelValue v) | _ \<Rightarrow> Inl NotString)"

definition EqualType_Match :: "element \<Rightarrow> labels \<Rightarrow> sel_err + bool" where
  "EqualType_Match e labels =
     (case Value e of
        VString val \<Rightarrow>
          (case map_of labels (Key e) of None \<Rightarrow> Inr False | Some to \<Rightarrow> Inr (val = to))
      | _ \<Rightarrow> Inl NotString)"

definition NotEqualType_Validate :: "element \<Rightarrow> sel_err + unit" where
  "NotEqualType_Validate e =
     (case Value e of VString v \<Rightarrow> wrap_err ValueErr (ValidateLabelValue v) | _ \<Rightarrow> Inl NotString)"

definition NotEqualType_Match :: "element \<Rightarrow> labels \<Rightarrow> sel_err + bool" where
  "NotEqualType_Match e labels =
     (case Value e of
        VString val \<Rightarrow>
          (case map_of labels (Key e) of None \<Rightarrow> Inr False | Some to \<Rightarrow> Inr (val \<noteq> to))
      | _ \<Rightarrow> Inl NotString)"

subsection \<open>gt, ge, lt and le\<close>

fun isNumeric :: "go_value \<Rightarrow> bool" where
  "isNumeric (VInt _ _) = True"
| "isNumeric (VFloat32 _) = True"
| "isNumeric (VFloat64 _) = True"
| "isNumeric (VNumber _) = True"
| "isNumeric _ = False"

text \<open>\<open>None\<close> is the panic of the default branch; the error of \<open>json.Number.Float64\<close> is dropped.\<close>

fun mustFloat64 :: "go_value \<Rightarrow> gofloat option" where
  "mustFloat64 (VInt _ n) = Some (round64 (of_int n))"
| "mustFloat64 (VNumber s) = Some (fst (parse_float_full 64 s))"
| "mustFloat64 (VFloat64 x) = Some x"
| "mustFloat64 (VFloat32 x) = Some x"
| "mustFloat64 _ = None"

definition GreaterThanType_Validate :: "element \<Rightarrow> sel_err + unit" where
  "GreaterThanType_Validate e = ensure (isNumeric (Value e)) NotNumber"

definition GreaterThanEqualType_Validate :: "element \<Rightarrow> sel_err + unit" where
  "GreaterThanEqualType_Validate e = ensure (isNumeric (Value e)) NotNumber"

definition LessThanType_Validate :: "element \<Rightarrow> sel_err + unit" where
  "LessThanType_Validate e = ensure (isNumeric (Value e)) NotNumber"

definition LessThanEqualType_Validate :: "element \<Rightarrow> sel_err + unit" where
  "LessThanEqualType_Validate e = ensure (isNumeric (Value e)) NotNumber"

text \<open>
  The common part of the four \<open>Match\<close> methods: \<open>from\<close> is the value of the element as a float64,
  \<open>to\<close> the label parsed with bit size 32. The guard on \<open>isNumeric\<close> excludes the panic.
\<close>

definition numeric_match :: "(gofloat \<Rightarrow> gofloat \<Rightarrow> bool) \<Rightarrow> element \<Rightarrow> labels \<Rightarrow> sel_err + bool" where
  "numeric_match cmp e labels =
     (if \<not> isNumeric (Value e) then Inl NotNumber
      else case mustFloat64 (Value e) of
        None \<Rightarrow> Inl NotNumber
      | Some fr \<Rightarrow>
          (case map_of labels (Key e) of
             None \<Rightarrow> Inr False
           | Some compare \<Rightarrow>
               (case parse_float 32 compare of None \<Rightarrow> Inl ParseErr | Some to \<Rightarrow> Inr (cmp to fr))))"

definition GreaterThanType_Match :: "element \<Rightarrow> labels \<Rightarrow> sel_err + bool" where
  "GreaterThanType_Match = numeric_match (\<lambda>to fr. fl_less fr to)"

definition GreaterThanEqualType_Match :: "element \<Rightarrow> labels \<Rightarrow> sel_err + bool" where
  "GreaterThanEqualType_Match = numeric_match (\<lambda>to fr. fl_le fr to)"

definition LessThanType_Match :: "element \<Rightarrow> labels \<Rightarrow> sel_err + bool" where
  "LessThanType_Match = numeric_match (\<lambda>to fr. fl_less to fr)"

definition LessThanEqualType_Match :: "element \<Rightarrow> labels \<Rightarrow> sel_err + bool" where
  "LessThanEqualType_Match = numeric_match (\<lambda>to fr. fl_le to fr)"

subsection \<open>in and nin\<close>

definition MaxInTypeElementSize :: nat where "MaxInTypeElementSize = 10"
definition MaxNotInTypeElementSize :: nat where "MaxNotInTypeElementSize = 10"

definition InType_Validate :: "element \<Rightarrow> sel_err + unit" where
  "InType_Validate e =
     (case Value e of
        VList values \<Rightarrow>
          rbind (ensure (length values \<le> 10) OversizeValues) (\<lambda>_.
          check_all (\<lambda>x. case x of VString v \<Rightarrow> wrap_err ValueErr (ValidateLabelValue v)
                                  | _ \<Rightarrow> Inl NotList) values)
      | _ \<Rightarrow> Inl NotList)"

definition InType_Match :: "element \<Rightarrow> labels \<Rightarrow> sel_err + bool" where
  "InType_Match e labels =
     (case Value e of
        VList values \<Rightarrow>
          (case map_of labels (Key e) of
             None \<Rightarrow> Inr False
           | Some to \<Rightarrow> Inr (list_ex (\<lambda>val. go_eq val (VString to) = Some True) values))
      | _ \<Rightarrow> Inl NotList)"

definition NotInType_Validate :: "element \<Rightarrow> sel_err + unit" where
  "NotInType_Validate e =
     (case Value e of
        VList values \<Rightarrow>
          rbind (ensure (length values \<le> 10) OversizeValues) (\<lambda>_.
          check_all (\<lambda>x. case x of VString v \<Rightarrow> wrap_err ValueErr (ValidateLabelValue v)
                                  | _ \<Rightarrow> Inl NotList) values)
      | _ \<Rightarrow> Inl NotList)"

definition NotInType_Match :: "element \<Rightarrow> labels \<Rightarrow> sel_err + bool" where
  "NotInType_Match e labels =
     (case Value e of
        VList values \<Rightarrow>
          (case map_of labels (Key e) of
             None \<Rightarrow> Inr False
           | Some to \<Rightarrow> Inr (\<not> list_ex (\<lambda>val. go_eq val (VString to) = Some True) values))
      | _ \<Rightarrow> Inl NotList)"

subsection \<open>re and nre\<close>

definition RegexType_Validate :: "regexps \<Rightarrow> element \<Rightarrow> sel_err + unit" where
  "RegexType_Validate rx e =
     (case Value e of
        VString v \<Rightarrow>
          rbind (wrap_err ValueErr (ValidateLabelValue v)) (\<lambda>_.
          wrap_err ValueErr (ValidateLabelValueRegex rx v))
      | _ \<Rightarrow> Inl NotString)"

definition RegexType_Match :: "regexps \<Rightarrow> element \<Rightarrow> labels \<Rightarrow> sel_err + bool" where
  "RegexType_Match rx e labels =
     (case Value e of
        VString val \<Rightarrow>
          (case map_of labels (Key e) of
             None \<Rightarrow> Inr False
           | Some to \<Rightarrow> (case rx val of None \<Rightarrow> Inl RegexErr | Some m \<Rightarrow> Inr (m to)))
      | _ \<Rightarrow> Inl NotString)"

definition NotRegexType_Validate :: "regexps \<Rightarrow> element \<Rightarrow> sel_err + unit" where
  "NotRegexType_Validate rx e =
     (case Value e of
        VString v \<Rightarrow>
          rbind (wrap_err ValueErr (ValidateLabelValue v)) (\<lambda>_.
          wrap_err ValueErr (ValidateLabelValueRegex rx v))
      | _ \<Rightarrow> Inl NotString)"

definition NotRegexType_Match :: "regexps \<Rightarrow> element \<Rightarrow> labels \<Rightarrow> sel_err + bool" where
  "NotRegexType_Match rx e labels =
     (case Value e of
        VString val \<Rightarrow>
          (case map_of labels (Key e) of
             None \<Rightarrow> Inr False
           | Some to \<Rightarrow> (case rx val of None \<Rightarrow> Inl RegexErr | Some m \<Rightarrow> Inr (\<not> m to)))
      | _ \<Rightarrow> Inl NotString)"

subsection \<open>Dispatch through the interface\<close>

fun Op_Validate :: "regexps \<Rightarrow> operator \<Rightarrow> element \<Rightarrow> sel_err + unit" where
  "Op_Validate rx Equal = EqualType_Validate"
| "Op_Validate rx NotEqual = NotEqualType_Validate"
| "Op_Validate rx GreaterThan = GreaterThanType_Validate"
| "Op_Validate rx GreaterThanEqual = GreaterThanEqualType_Validate"
| "Op_Validate rx LessThan = LessThanType_Validate"
| "Op_Validate rx LessThanEqual = LessThanEqualType_Validate"
| "Op_Validate rx In = InType_Validate"
| "Op_Validate rx NotIn = NotInType_Validate"
| "Op_Validate rx Regex = RegexType_Validate rx"
| "Op_Validate rx NotRegex = NotRegexType_Validate rx"

fun Op_Match :: "regexps \<Rightarrow> operator \<Rightarrow> element \<Rightarrow> labels \<Rightarrow> sel_err + bool" where
  "Op_Match rx Equal = EqualType_Match"
| "Op_Match rx NotEqual = NotEqualType_Match"
| "Op_Match rx GreaterThan = GreaterThanType_Match"
| "Op_Match rx GreaterThanEqual = GreaterThanEqualType_Match"
| "Op_Match rx LessThan = LessThanType_Match"
| "Op_Match rx LessThanEqual = LessThanEqualType_Match"
| "Op_Match rx In = InType_Match"
| "Op_Match rx NotIn = NotInType_Match"
| "Op_Match rx Regex = RegexType_Match rx"
| "Op_Match rx NotRegex = NotRegexType_Match rx"

section \<open>Elements and labels\<close>

definition Element_Match :: "regexps \<Rightarrow> element \<Rightarrow> labels \<Rightarrow> sel_err + bool" where
  "Element_Match rx e labels = Op_Match rx (Op e) e labels"

definition Element_Validate :: "regexps \<Rightarrow> element \<Rightarrow> sel_err + unit" where
  "Element_Validate rx e =
     rbind (wrap_err KeyErr (ValidateLabelKey (Key e))) (\<lambda>_. Op_Validate rx (Op e) e)"

definition Label_Validate :: "regexps \<Rightarrow> label \<Rightarrow> sel_err + unit" where
  "Label_Validate rx lb = check_all (Element_Validate rx) lb"

text \<open>
  \<open>for x in xs: found = false; for y in ys: if p(x, y) break; if !found return false\<close>, where a
  test may panic (\<open>None\<close>).
\<close>

fun some_ex :: "('a \<Rightarrow> bool option) \<Rightarrow> 'a list \<Rightarrow> bool option" where
  "some_ex p [] = Some False"
| "some_ex p (y # ys) =
     (case p y of None \<Rightarrow> None | Some b \<Rightarrow> if b then Some True else some_ex p ys)"

fun some_all_ex :: "('a \<Rightarrow> 'b \<Rightarrow> bool option) \<Rightarrow> 'a list \<Rightarrow> 'b list \<Rightarrow> bool option" where
  "some_all_ex p [] ys = Some True"
| "some_all_ex p (x # xs) ys =
     (case some_ex (p x) ys of
        None \<Rightarrow> None | Some b \<Rightarrow> if b then some_all_ex p xs ys else Some False)"

definition Element_Equal :: "element \<Rightarrow> element \<Rightarrow> bool option" where
  "Element_Equal e other =
     (if Key e \<noteq> Key other then Some False
      else if Op e \<noteq> Op other then Some False
      else if Op e = In \<or> Op e = NotIn then
        (case (Value e, Value other) of
           (VList vs, VList ws) \<Rightarrow>
             if length vs \<noteq> length ws then Some False else some_all_ex go_eq vs ws
         | _ \<Rightarrow> None)
      else go_eq (Value e) (Value other))"

definition Label_Equal :: "label \<Rightarrow> label \<Rightarrow> bool option" where
  "Label_Equal lb other =
     (if length lb \<noteq> length other then Some False else some_all_ex Element_Equal lb other)"

section \<open>Selectors\<close>

record selector =
  MatchAll :: bool
  LabelsOr :: label
  LabelsAnd :: label

definition Selector_IsEmpty :: "selector option \<Rightarrow> bool" where
  "Selector_IsEmpty s =
     (case s of None \<Rightarrow> True
      | Some s \<Rightarrow> \<not> MatchAll s \<and> length (LabelsOr s) = 0 \<and> length (LabelsAnd s) = 0)"

definition Selector_Equal :: "selector option \<Rightarrow> selector option \<Rightarrow> bool option" where
  "Selector_Equal s other =
     (case (s, other) of
        (None, None) \<Rightarrow> Some True
      | (Some s, Some t) \<Rightarrow>
          if MatchAll s \<noteq> MatchAll t then Some False
          else (case Label_Equal (LabelsOr s) (LabelsOr t) of
                  None \<Rightarrow> None
                | Some b \<Rightarrow> if \<not> b then Some False else Label_Equal (LabelsAnd s) (LabelsAnd t))
      | _ \<Rightarrow> Some False)"

text \<open>The methods that match are over the element's \<open>Match\<close> method \<open>m\<close>, called through the interface.\<close>

fun matchLabelsOr :: "(element \<Rightarrow> labels \<Rightarrow> 'e + bool) \<Rightarrow> label \<Rightarrow> labels \<Rightarrow> 'e + bool" where
  "matchLabelsOr m [] labels = Inr False"
| "matchLabelsOr m (one # rest) labels =
     (if \<not> has_key labels (Key one) then matchLabelsOr m rest labels
      else rbind (m one labels) (\<lambda>matched.
        if matched then Inr True else matchLabelsOr m rest labels))"

fun matchLabelsAnd_loop :: "(element \<Rightarrow> labels \<Rightarrow> 'e + bool) \<Rightarrow> label \<Rightarrow> labels \<Rightarrow> 'e + bool" where
  "matchLabelsAnd_loop m [] labels = Inr True"
| "matchLabelsAnd_loop m (one # rest) labels =
     (if \<not> has_key labels (Key one) then Inr False
      else rbind (m one labels) (\<lambda>matched.
        if \<not> matched then Inr False else matchLabelsAnd_loop m rest labels))"

definition matchLabelsAnd :: "(element \<Rightarrow> labels \<Rightarrow> 'e + bool) \<Rightarrow> label \<Rightarrow> labels \<Rightarrow> 'e + bool" where
  "matchLabelsAnd m labelsAnd labels =
     (if length labelsAnd = 0 then Inr False else matchLabelsAnd_loop m labelsAnd labels)"

definition Selector_MatchLabels :: "(element \<Rightarrow> labels \<Rightarrow> 'e + bool) \<Rightarrow> selector \<Rightarrow> labels \<Rightarrow> 'e + bool" where
  "Selector_MatchLabels m s labels =
     (if MatchAll s then Inr True
      else if length labels = 0 then Inr False
      else rbind (matchLabelsOr m (LabelsOr s) labels) (\<lambda>matched.
        if matched then Inr True
        else if length (LabelsAnd s) = 0 then Inr False
        else rbind (matchLabelsAnd m (LabelsAnd s) labels) (\<lambda>matched.
          if \<not> matched then Inr False else Inr True)))"

definition Selector_Validate :: "regexps \<Rightarrow> selector option \<Rightarrow> sel_err + unit" where
  "Selector_Validate rx s =
     (case s of None \<Rightarrow> Inl NilSelector
      | Some s \<Rightarrow>
          if MatchAll s then
            ensure (\<not> (length (LabelsOr s) \<noteq> 0 \<or> length (LabelsAnd s) \<noteq> 0)) MatchAllWithLabels
          else
            rbind (ensure (\<not> (length (LabelsOr s) = 0 \<and> length (LabelsAnd s) = 0)) NoLabels) (\<lambda>_.
            rbind (if length (LabelsAnd s) \<noteq> 0
                   then rbind (ensure (length (LabelsAnd s) \<le> MaxLabelKeyCount) OversizeLabels) (\<lambda>_.
                        Label_Validate rx (LabelsAnd s))
                   else Inr ()) (\<lambda>_.
            if length (LabelsOr s) \<noteq> 0
            then rbind (ensure (length (LabelsOr s) \<le> MaxLabelKeyCount) OversizeLabels) (\<lambda>_.
                 Label_Validate rx (LabelsOr s))
            else Inr ())))"

section \<open>Checks before decoding\<close>

record raw_element =
  raw_Key :: string
  raw_Op :: string
  raw_Value :: go_value

definition validatEelement :: "regexps \<Rightarrow> raw_element \<Rightarrow> sel_err + unit" where
  "validatEelement rx e =
     rbind (ensure (length (raw_Key e) \<noteq> 0) NoKey) (\<lambda>_.
     rbind (ensure (length (raw_Op e) \<noteq> 0) NoOp) (\<lambda>_.
     case OperatorEnums (raw_Op e) of
       None \<Rightarrow> Inl UnsupportedOp
     | Some opr \<Rightarrow>
         if opr = In \<or> opr = NotIn then
           (case raw_Value e of
              VList values \<Rightarrow>
                rbind (ensure (length values \<noteq> 0) EmptyList) (\<lambda>_.
                check_all (\<lambda>x. case x of VString v \<Rightarrow> ensure (v \<noteq> []) EmptyValue
                                        | _ \<Rightarrow> Inl NotString) values)
            | _ \<Rightarrow> Inl NotList)
         else if opr = Equal \<or> opr = NotEqual then
           (case raw_Value e of VString v \<Rightarrow> ensure (length v \<noteq> 0) EmptyValue | _ \<Rightarrow> Inl NotString)
         else if opr = Regex \<or> opr = NotRegex then
           (case raw_Value e of
              VString v \<Rightarrow>
                rbind (ensure (length v \<noteq> 0) EmptyValue) (\<lambda>_. ensure (rx v \<noteq> None) RegexErr)
            | _ \<Rightarrow> Inl NotString)
         else (case raw_Value e of VFloat64 _ \<Rightarrow> Inr () | _ \<Rightarrow> Inl NotFloat)))"

text \<open>The decoded labels stand for the JSON bytes.\<close>

definition ValidateBeforeUnmarshal :: "regexps \<Rightarrow> raw_element list \<Rightarrow> raw_element list \<Rightarrow> sel_err + unit" where
  "ValidateBeforeUnmarshal rx labelsOr labelsAnd =
     rbind (ensure (\<not> (length labelsAnd = 0 \<and> length labelsOr = 0)) NoLabels) (\<lambda>_.
     rbind (check_all (validatEelement rx) labelsOr) (\<lambda>_.
     check_all (validatEelement rx) labelsAnd))"

section \<open>What an element means\<close>

text \<open>
  The specification of a label test: on a label value \<open>v\<close> of the element's key, \<open>elem_sem\<close> says
  whether the test holds and \<open>elem_bad\<close> that the comparison has no answer, since the label value
  is not a number.
\<close>

definition numeric_op :: "operator \<Rightarrow> bool" where
  "numeric_op opr \<longleftrightarrow> opr \<in> {GreaterThan, GreaterThanEqual, LessThan, LessThanEqual}"

definition elem_bad :: "element \<Rightarrow> string \<Rightarrow> bool" where
  "elem_bad e v \<longleftrightarrow> numeric_op (Op e) \<and> parse_float 32 v = None"

fun go_num :: "go_value \<Rightarrow> gofloat" where
  "go_num (VInt _ n) = round64 (of_int n)"
| "go_num (VNumber s) = fst (parse_float_full 64 s)"
| "go_num (VFloat64 x) = x"
| "go_num (VFloat32 x) = x"
| "go_num _ = FNaN"

definition label_num :: "string \<Rightarrow> gofloat" where
  "label_num v = (case parse_float 32 v of None \<Rightarrow> FNaN | Some x \<Rightarrow> x)"

definition rx_matches :: "regexps \<Rightarrow> go_value \<Rightarrow> string \<Rightarrow> bool" where
  "rx_matches rx p v = (case p of VString s \<Rightarrow> (case rx s of None \<Rightarrow> False | Some m \<Rightarrow> m v) | _ \<Rightarrow> False)"

definition value_list :: "go_value \<Rightarrow> go_value list" where
  "value_list x = (case x of VList vs \<Rightarrow> vs | _ \<Rightarrow> [])"

definition elem_sem :: "regexps \<Rightarrow> element \<Rightarrow> string \<Rightarrow> bool" where
  "elem_sem rx e v =
     (case Op e of
        Equal \<Rightarrow> Value e = VString v
      | NotEqual \<Rightarrow> Value e \<noteq> VString v
      | GreaterThan \<Rightarrow> fl_less (go_num (Value e)) (label_num v)
      | GreaterThanEqual \<Rightarrow> fl_le (go_num (Value e)) (label_num v)
      | LessThan \<Rightarrow> fl_less (label_num v) (go_num (Value e))
      | LessThanEqual \<Rightarrow> fl_le (label_num v) (go_num (Value e))
      | In \<Rightarrow> VString v \<in> set (value_list (Value e))
      | NotIn \<Rightarrow> VString v \<notin> set (value_list (Value e))
      | Regex \<Rightarrow> rx_matches rx (Value e) v
      | NotRegex \<Rightarrow> \<not> rx_matches rx (Value e) v)"

definition elem_holds :: "regexps \<Rightarrow> element \<Rightarrow> labels \<Rightarrow> bool" where
  "elem_holds rx e labels = (case map_of labels (Key e) of None \<Rightarrow> False | Some v \<Rightarrow> elem_sem rx e v)"

text \<open>The label values a label list compares as numbers are numbers.\<close>

definition labels_numeric :: "label \<Rightarrow> labels \<Rightarrow> bool" where
  "labels_numeric lb labels =
     list_all (\<lambda>e. case map_of labels (Key e) of None \<Rightarrow> True | Some v \<Rightarrow> \<not> elem_bad e v) lb"

lemmas op_validate_defs = EqualType_Validate_def NotEqualType_Validate_def GreaterThanType_Validate_def
  GreaterThanEqualType_Validate_def LessThanType_Validate_def LessThanEqualType_Validate_def
  InType_Validate_def NotInType_Validate_def RegexType_Validate_def NotRegexType_Validate_def

lemmas op_match_defs = EqualType_Match_def NotEqualType_Match_def GreaterThanType_Match_def
  GreaterThanEqualType_Match_def LessThanType_Match_def LessThanEqualType_Match_def
  InType_Match_def NotInType_Match_def RegexType_Match_def NotRegexType_Match_def numeric_match_def

lemma isNumeric_mustFloat64: "isNumeric x \<Longrightarrow> mustFloat64 x = Some (go_num x)"
  by (cases x) auto

lemma go_eq_VString [simp]: "go_eq x (VString s) = Some True \<longleftrightarrow> x = VString s"
  by (cases x) auto

lemma Element_Validate_op: "Element_Validate rx e = Inr () \<Longrightarrow> Op_Validate rx (Op e) e = Inr ()"
  by (simp add: Element_Validate_def res_simps)

lemma numeric_match_present:
  assumes "isNumeric (Value e)" "map_of l (Key e) = Some v"
  shows "numeric_match cmp e l =
    (if parse_float 32 v = None then Inl ParseErr else Inr (cmp (label_num v) (go_num (Value e))))"
  using assms isNumeric_mustFloat64 [OF assms(1)]
  by (auto simp: numeric_match_def label_num_def split: option.splits)

lemma numeric_match_absent:
  "isNumeric (Value e) \<Longrightarrow> map_of l (Key e) = None \<Longrightarrow> numeric_match cmp e l = Inr False"
  using isNumeric_mustFloat64 [of "Value e"] by (auto simp: numeric_match_def)

section \<open>The interface of operators\<close>

text \<open>
  What the selector relies on: a validated element does not match labels that lack its key, and
  on labels that have it gives the answer of its specification, or the one error \<open>perr\<close> when the
  label value has no answer.
\<close>

locale label_operator =
  fixes vd :: "element \<Rightarrow> 'e + unit"
    and mt :: "element \<Rightarrow> labels \<Rightarrow> 'e + bool"
    and sem :: "element \<Rightarrow> string \<Rightarrow> bool"
    and bad :: "element \<Rightarrow> string \<Rightarrow> bool"
    and perr :: 'e
  assumes absent: "vd e = Inr () \<Longrightarrow> map_of l (Key e) = None \<Longrightarrow> mt e l = Inr False"
    and present: "vd e = Inr () \<Longrightarrow> map_of l (Key e) = Some v \<Longrightarrow>
      mt e l = (if bad e v then Inl perr else Inr (sem e v))"
begin

definition holds :: "element \<Rightarrow> labels \<Rightarrow> bool" where
  "holds e l = (case map_of l (Key e) of None \<Rightarrow> False | Some v \<Rightarrow> sem e v)"

definition answers :: "label \<Rightarrow> labels \<Rightarrow> bool" where
  "answers lb l = list_all (\<lambda>e. case map_of l (Key e) of None \<Rightarrow> True | Some v \<Rightarrow> \<not> bad e v) lb"

definition checked :: "label \<Rightarrow> bool" where
  "checked lb \<longleftrightarrow> (\<forall>e \<in> set lb. vd e = Inr ())"

lemma match_answer:
  "vd e = Inr () \<Longrightarrow> (\<And>v. map_of l (Key e) = Some v \<Longrightarrow> \<not> bad e v) \<Longrightarrow> mt e l = Inr (holds e l)"
  by (cases "map_of l (Key e)") (auto simp: absent present holds_def)

lemma match_error: "vd e = Inr () \<Longrightarrow> mt e l = Inl x \<Longrightarrow>
    x = perr \<and> (\<exists>v. map_of l (Key e) = Some v \<and> bad e v)"
  by (cases "map_of l (Key e)") (auto simp: absent present split: if_splits)

text \<open>An answer is right also when other elements have none.\<close>

lemma match_right: "vd e = Inr () \<Longrightarrow> mt e l = Inr b \<Longrightarrow> b = holds e l"
  by (cases "map_of l (Key e)") (auto simp: absent present holds_def split: if_splits)

lemma or_right: "checked lb \<Longrightarrow> matchLabelsOr mt lb l = Inr b \<Longrightarrow> b = (\<exists>e \<in> set lb. holds e l)"
proof (induction lb)
  case (Cons e lb)
  have e: "mt e l = Inr c \<Longrightarrow> c = holds e l" "\<not> has_key l (Key e) \<Longrightarrow> \<not> holds e l" for c
    using Cons.prems(1) match_right [of e l] by (auto simp: checked_def holds_def split: option.splits)
  have "checked lb" using Cons.prems(1) by (simp add: checked_def)
  with Cons e show ?case by (cases "mt e l") (auto split: if_splits)
qed simp

lemma and_loop_right: "checked lb \<Longrightarrow> matchLabelsAnd_loop mt lb l = Inr b \<Longrightarrow> b = (\<forall>e \<in> set lb. holds e l)"
proof (induction lb)
  case (Cons e lb)
  have e: "mt e l = Inr c \<Longrightarrow> c = holds e l" "\<not> has_key l (Key e) \<Longrightarrow> \<not> holds e l" for c
    using Cons.prems(1) match_right [of e l] by (auto simp: checked_def holds_def split: option.splits)
  have "checked lb" using Cons.prems(1) by (simp add: checked_def)
  with Cons e show ?case by (cases "mt e l") (auto split: if_splits)
qed simp

lemma or_answer:
  "checked lb \<Longrightarrow> answers lb l \<Longrightarrow> matchLabelsOr mt lb l = Inr (\<exists>e \<in> set lb. holds e l)"
proof (induction lb)
  case (Cons e lb)
  then have e: "has_key l (Key e) \<Longrightarrow> mt e l = Inr (holds e l)"
    by (auto simp: checked_def answers_def intro!: match_answer)
  show ?case
    using Cons e by (auto simp: checked_def answers_def holds_def split: option.splits)
qed simp

lemma and_loop_answer:
  "checked lb \<Longrightarrow> answers lb l \<Longrightarrow> matchLabelsAnd_loop mt lb l = Inr (\<forall>e \<in> set lb. holds e l)"
proof (induction lb)
  case (Cons e lb)
  then have e: "has_key l (Key e) \<Longrightarrow> mt e l = Inr (holds e l)"
    by (auto simp: checked_def answers_def intro!: match_answer)
  show ?case
    using Cons e by (auto simp: checked_def answers_def holds_def split: option.splits)
qed simp

lemma or_error:
  "checked lb \<Longrightarrow> matchLabelsOr mt lb l = Inl x \<Longrightarrow>
     x = perr \<and> (\<exists>e \<in> set lb. \<exists>v. map_of l (Key e) = Some v \<and> bad e v)"
proof (induction lb)
  case (Cons e lb)
  show ?case
  proof (cases "mt e l")
    case (Inl y)
    then show ?thesis
      using Cons match_error [of e l y] by (auto simp: checked_def split: if_splits)
  qed (use Cons in \<open>auto simp: checked_def split: if_splits\<close>)
qed simp

lemma and_loop_error:
  "checked lb \<Longrightarrow> matchLabelsAnd_loop mt lb l = Inl x \<Longrightarrow>
     x = perr \<and> (\<exists>e \<in> set lb. \<exists>v. map_of l (Key e) = Some v \<and> bad e v)"
proof (induction lb)
  case (Cons e lb)
  show ?case
  proof (cases "mt e l")
    case (Inl y)
    then show ?thesis
      using Cons match_error [of e l y] by (auto simp: checked_def split: if_splits)
  qed (use Cons in \<open>auto simp: checked_def split: if_splits\<close>)
qed simp

lemma selector_answer:
  assumes "checked (LabelsOr s)" "checked (LabelsAnd s)"
    and "answers (LabelsOr s) l" "answers (LabelsAnd s) l"
  shows "Selector_MatchLabels mt s l = Inr (MatchAll s \<or> l \<noteq> [] \<and>
    ((\<exists>e \<in> set (LabelsOr s). holds e l)
      \<or> LabelsAnd s \<noteq> [] \<and> (\<forall>e \<in> set (LabelsAnd s). holds e l)))"
  using or_answer [OF assms(1,3)] and_loop_answer [OF assms(2,4)]
  by (auto simp: Selector_MatchLabels_def matchLabelsAnd_def)

lemma selector_right:
  assumes "checked (LabelsOr s)" "checked (LabelsAnd s)" "Selector_MatchLabels mt s l = Inr b"
  shows "b \<longleftrightarrow> MatchAll s \<or> (\<exists>e \<in> set (LabelsOr s). holds e l)
    \<or> LabelsAnd s \<noteq> [] \<and> (\<forall>e \<in> set (LabelsAnd s). holds e l)"
proof (cases "MatchAll s \<or> l = []")
  case True
  moreover have "\<not> holds e []" for e by (simp add: holds_def)
  moreover have "LabelsAnd s \<noteq> [] \<Longrightarrow> hd (LabelsAnd s) \<in> set (LabelsAnd s)" by simp
  ultimately show ?thesis using assms(3) by (auto simp: Selector_MatchLabels_def split: if_splits)
next
  case False
  show ?thesis
  proof (cases "matchLabelsOr mt (LabelsOr s) l")
    case (Inr c)
    note c = or_right [OF assms(1) Inr]
    show ?thesis
      using False Inr c assms(3) and_loop_right [OF assms(2), of l]
      by (cases "matchLabelsAnd_loop mt (LabelsAnd s) l")
        (auto simp: Selector_MatchLabels_def matchLabelsAnd_def split: if_splits)
  qed (use False assms(3) in \<open>simp add: Selector_MatchLabels_def\<close>)
qed

lemma selector_error:
  assumes "checked (LabelsOr s)" "checked (LabelsAnd s)" "Selector_MatchLabels mt s l = Inl x"
  shows "x = perr \<and>
    (\<exists>e \<in> set (LabelsOr s) \<union> set (LabelsAnd s). \<exists>v. map_of l (Key e) = Some v \<and> bad e v)"
  using or_error [OF assms(1), of l x] and_loop_error [OF assms(2), of l x] assms(3)
  by (auto simp: Selector_MatchLabels_def matchLabelsAnd_def res_simps split: if_splits)

end

section \<open>The operators meet their contract\<close>

lemma op_match_absent:
  "Element_Validate rx e = Inr () \<Longrightarrow> map_of l (Key e) = None \<Longrightarrow> Element_Match rx e l = Inr False"
  by (cases "Op e"; drule Element_Validate_op)
    (auto simp: Element_Match_def op_validate_defs op_match_defs res_simps isNumeric_mustFloat64
       split: go_value.splits)

lemma op_match_present:
  assumes v: "Element_Validate rx e = Inr ()" and l: "map_of l (Key e) = Some v"
  shows "Element_Match rx e l = (if elem_bad e v then Inl ParseErr else Inr (elem_sem rx e v))"
proof (cases "numeric_op (Op e)")
  case True
  then have "isNumeric (Value e)"
    using Element_Validate_op [OF v]
    by (cases "Op e") (auto simp: numeric_op_def op_validate_defs res_simps)
  note n = numeric_match_present [OF this l]
  show ?thesis
    using True by (cases "Op e")
      (simp_all add: Element_Match_def n elem_bad_def elem_sem_def numeric_op_def
        GreaterThanType_Match_def GreaterThanEqualType_Match_def LessThanType_Match_def
        LessThanEqualType_Match_def)
next
  case False
  then show ?thesis
    using Element_Validate_op [OF v] l
    by (cases "Op e")
      (auto simp: Element_Match_def numeric_op_def elem_bad_def elem_sem_def op_validate_defs
         op_match_defs res_simps rx_matches_def value_list_def list_ex_iff ValidateLabelValueRegex_def
         split: go_value.splits option.splits)
qed

interpretation lop: label_operator "Element_Validate rx" "Element_Match rx" "elem_sem rx" elem_bad ParseErr
  for rx
  by unfold_locales (simp_all add: op_match_absent op_match_present)

lemma lop_holds [simp]: "lop.holds rx = elem_holds rx"
  by (intro ext) (simp add: lop.holds_def elem_holds_def)

lemma lop_answers [simp]: "lop.answers = labels_numeric"
  by (intro ext) (simp add: lop.answers_def labels_numeric_def)

lemma Label_Validate_checked: "Label_Validate rx lb = Inr () \<Longrightarrow> lop.checked rx lb"
  by (simp add: Label_Validate_def res_simps lop.checked_def)

lemma Selector_Validate_checked:
  assumes "Selector_Validate rx (Some s) = Inr ()"
  shows "lop.checked rx (LabelsOr s)" "lop.checked rx (LabelsAnd s)"
  using assms Label_Validate_checked [of rx "LabelsOr s"] Label_Validate_checked [of rx "LabelsAnd s"]
  by (auto simp: Selector_Validate_def res_simps lop.checked_def split: if_splits)

section \<open>Comparison of selectors\<close>

text \<open>
  What \<open>Element_Equal\<close> compares: key, operator and value, the value of \<open>in\<close> and \<open>nin\<close> as a set.
\<close>

definition canon :: "element \<Rightarrow> string \<times> operator \<times> (go_value + go_value set)" where
  "canon e = (Key e, Op e,
     if Op e = In \<or> Op e = NotIn then Inr (set (value_list (Value e))) else Inl (Value e))"

definition no_repeats :: "label \<Rightarrow> bool" where
  "no_repeats lb \<longleftrightarrow> distinct (map canon lb) \<and> list_all (\<lambda>e. distinct (value_list (Value e))) lb"

lemma fl_eq_eq: "fl_eq x y \<Longrightarrow> x = y"
  by (cases x; cases y) auto

lemma go_eq_eq: "go_eq x y = Some True \<Longrightarrow> x = y"
  by (cases x; cases y) (auto dest: fl_eq_eq)

lemma some_ex_True: "some_ex p ys = Some True \<Longrightarrow> \<exists>y \<in> set ys. p y = Some True"
  by (induction ys) (auto split: option.splits if_splits)

lemma some_all_ex_True:
  "some_all_ex p xs ys = Some True \<Longrightarrow> \<forall>x \<in> set xs. \<exists>y \<in> set ys. p x y = Some True"
  by (induction xs) (auto split: option.splits if_splits dest: some_ex_True)

lemma subset_eq_by_length:
  assumes "distinct xs" "set xs \<subseteq> set ys" "length ys = length xs"
  shows "set xs = set ys"
proof (rule card_subset_eq)
  show "card (set xs) = card (set ys)"
  proof (rule antisym)
    show "card (set xs) \<le> card (set ys)" using assms(2) by (rule card_mono [rotated]) simp
    show "card (set ys) \<le> card (set xs)"
      using card_length [of ys] distinct_card [OF assms(1)] assms(3) by simp
  qed
qed (use assms in auto)

lemma Element_Equal_canon:
  assumes "Element_Equal e f = Some True" "distinct (value_list (Value e))"
  shows "canon e = canon f"
proof (cases "Op e = In \<or> Op e = NotIn")
  case True
  then obtain vs ws where v: "Value e = VList vs" "Value f = VList ws" "length vs = length ws"
      "some_all_ex go_eq vs ws = Some True" and k: "Key e = Key f" "Op e = Op f"
    using assms(1) by (auto simp: Element_Equal_def split: if_splits go_value.splits)
  have "set vs \<subseteq> set ws"
    using some_all_ex_True [OF v(4)] by (auto dest: go_eq_eq)
  then have "set vs = set ws"
    using subset_eq_by_length [of vs ws] assms(2) v by (simp add: value_list_def)
  then show ?thesis using k v True by (auto simp: canon_def value_list_def)
next
  case False
  then show ?thesis
    using assms(1) by (auto simp: Element_Equal_def canon_def split: if_splits dest: go_eq_eq)
qed

lemma Label_Equal_canon:
  assumes "Label_Equal lb other = Some True" "no_repeats lb"
  shows "canon ` set lb = canon ` set other" "length lb = length other"
proof -
  have len: "length lb = length other" and all: "some_all_ex Element_Equal lb other = Some True"
    using assms(1) by (auto simp: Label_Equal_def split: if_splits)
  have "canon e \<in> canon ` set other" if e: "e \<in> set lb" for e
  proof -
    obtain f where f: "f \<in> set other" "Element_Equal e f = Some True"
      using bspec [OF some_all_ex_True [OF all] e] by (elim bexE)
    moreover have "distinct (value_list (Value e))"
      using assms(2) e by (simp add: no_repeats_def list_all_iff)
    ultimately have "canon e = canon f" by (intro Element_Equal_canon)
    then show ?thesis using f(1) by (rule image_eqI)
  qed
  then have "set (map canon lb) \<subseteq> set (map canon other)" by auto
  from subset_eq_by_length [OF _ this] show "canon ` set lb = canon ` set other"
    using assms(2) len by (simp add: no_repeats_def)
  show "length lb = length other" by (rule len)
qed

lemma elem_sem_canon: "canon e = canon f \<Longrightarrow> elem_sem rx e v = elem_sem rx f v"
  by (cases "Op e") (auto simp: canon_def elem_sem_def split: if_splits)

lemma elem_holds_canon: "canon e = canon f \<Longrightarrow> elem_holds rx e l = elem_holds rx f l"
  using elem_sem_canon [of e f rx] by (auto simp: canon_def elem_holds_def split: option.splits)

lemma canon_key: "canon e = canon f \<Longrightarrow> Key e = Key f \<and> Op e = Op f"
  by (auto simp: canon_def)

lemma labels_numeric_canon:
  assumes "canon ` set lb = canon ` set lb'" "labels_numeric lb l"
  shows "labels_numeric lb' l"
  unfolding labels_numeric_def list_all_iff
proof
  fix f assume "f \<in> set lb'"
  then obtain e where "e \<in> set lb" "canon e = canon f" using assms(1) by (metis imageE imageI)
  then show "case map_of l (Key f) of None \<Rightarrow> True | Some v \<Rightarrow> \<not> elem_bad f v"
    using bspec [OF assms(2) [unfolded labels_numeric_def list_all_iff], of e] canon_key [of e f]
    by (simp add: elem_bad_def split: option.splits)
qed

lemma ex_holds_canon:
  assumes "canon ` A = canon ` B"
  shows "(\<exists>e \<in> A. elem_holds rx e l) \<longleftrightarrow> (\<exists>e \<in> B. elem_holds rx e l)"
  by (metis (no_types, lifting) assms elem_holds_canon imageE imageI)

lemma all_holds_canon:
  assumes "canon ` A = canon ` B"
  shows "(\<forall>e \<in> A. elem_holds rx e l) \<longleftrightarrow> (\<forall>e \<in> B. elem_holds rx e l)"
  by (metis (no_types, lifting) assms elem_holds_canon imageE imageI)

lemma same_length_Nil: "length xs = length ys \<Longrightarrow> (xs = []) = (ys = [])"
  by auto

section \<open>Properties\<close>

text \<open>
  C30: On all labels, the answer a validated selector gives is that it matches if it is \<open>match_all\<close>,
  or some element of \<open>labels_or\<close> holds, or \<open>labels_and\<close> is not empty and all its elements hold, and
  that it does not match otherwise. It gives an error instead of an answer only if an operator of
  the selector that compares numbers meets a label whose value is not a number: no type assertion
  fails and no regular expression fails to compile. Numbers are those of \<open>parse_float\<close>, in decimal
  spelling; labels with hexadecimal or underscored numbers are outside the model.
\<close>

theorem selector_match_meaning:
  assumes "Selector_Validate rx (Some s) = Inr ()"
  shows "case Selector_MatchLabels (Element_Match rx) s l of
      Inr b \<Rightarrow> b = (MatchAll s \<or> (\<exists>e \<in> set (LabelsOr s). elem_holds rx e l)
        \<or> LabelsAnd s \<noteq> [] \<and> (\<forall>e \<in> set (LabelsAnd s). elem_holds rx e l))
    | Inl err \<Rightarrow> err = ParseErr \<and> (\<exists>e \<in> set (LabelsOr s) \<union> set (LabelsAnd s). \<exists>v.
        map_of l (Key e) = Some v \<and> numeric_op (Op e) \<and> parse_float 32 v = None)"
  using lop.selector_right [OF Selector_Validate_checked [OF assms], of l]
    lop.selector_error [OF Selector_Validate_checked [OF assms], of l]
  by (simp add: elem_bad_def split: sum.split)

definition sel_ex :: selector where
  "sel_ex = \<lparr>MatchAll = False,
     LabelsOr = [\<lparr>Key = ''city'', Op = In, Value = VList [VString ''sz'', VString ''gz'']\<rparr>],
     LabelsAnd = [\<lparr>Key = ''ver'', Op = GreaterThanEqual, Value = VFloat64 (FFin 2)\<rparr>,
                  \<lparr>Key = ''env'', Op = NotEqual, Value = VString ''prod''\<rparr>]\<rparr>"

theorem selector_match_meaning_witness:
  "Selector_MatchLabels (Element_Match Map.empty) sel_ex [(''ver'', ''3''), (''env'', ''test'')] = Inr True"
proof -
  let ?l = "[(''ver'', ''3''), (''env'', ''test'')]"
  have "Selector_Validate Map.empty (Some sel_ex) = Inr ()" by code_simp
  moreover have "LabelsAnd sel_ex \<noteq> []" "list_all (\<lambda>e. elem_holds Map.empty e ?l) (LabelsAnd sel_ex)"
    "\<not> list_ex (\<lambda>e. numeric_op (Op e) \<and> (case map_of ?l (Key e) of Some v \<Rightarrow> parse_float 32 v = None | None \<Rightarrow> False))
      (LabelsOr sel_ex @ LabelsAnd sel_ex)"
    by code_simp+
  ultimately show ?thesis
    using selector_match_meaning [of Map.empty sel_ex ?l]
    by (cases "Selector_MatchLabels (Element_Match Map.empty) sel_ex ?l") (fastforce simp: list_all_iff list_ex_iff)+
qed

text \<open>
  Two validated selectors that \<open>Equal\<close> identifies match the same labels, when the first has
  no repeated element and no repeated value: the order of elements and of the values of \<open>in\<close> and
  \<open>nin\<close> does not matter.
\<close>

theorem selector_equal_same_match:
  assumes "Selector_Validate rx (Some s) = Inr ()" "Selector_Validate rx (Some t) = Inr ()"
    and "Selector_Equal (Some s) (Some t) = Some True"
    and "no_repeats (LabelsOr s)" "no_repeats (LabelsAnd s)"
    and "labels_numeric (LabelsOr s) l" "labels_numeric (LabelsAnd s) l"
  shows "Selector_MatchLabels (Element_Match rx) s l = Selector_MatchLabels (Element_Match rx) t l"
proof -
  have eqs: "MatchAll s = MatchAll t" "Label_Equal (LabelsOr s) (LabelsOr t) = Some True"
    "Label_Equal (LabelsAnd s) (LabelsAnd t) = Some True"
    using assms(3) by (auto simp: Selector_Equal_def split: if_splits option.splits)
  note o = Label_Equal_canon [OF eqs(2) assms(4)] and a = Label_Equal_canon [OF eqs(3) assms(5)]
  show ?thesis
    using lop.selector_answer [OF Selector_Validate_checked [OF assms(1)], of l]
      lop.selector_answer [OF Selector_Validate_checked [OF assms(2)], of l]
      labels_numeric_canon [OF o(1) assms(6)] labels_numeric_canon [OF a(1) assms(7)] assms(6,7)
      ex_holds_canon [OF o(1), of rx l] all_holds_canon [OF a(1), of rx l] eqs(1)
      same_length_Nil [OF a(2)]
    by simp
qed

definition sel_ex' :: selector where
  "sel_ex' = sel_ex\<lparr>LabelsOr := [\<lparr>Key = ''city'', Op = In, Value = VList [VString ''gz'', VString ''sz'']\<rparr>],
     LabelsAnd := rev (LabelsAnd sel_ex)\<rparr>"

theorem selector_equal_same_match_witness:
  "Selector_MatchLabels (Element_Match Map.empty) sel_ex [(''ver'', ''3'')]
     = Selector_MatchLabels (Element_Match Map.empty) sel_ex' [(''ver'', ''3'')]"
proof (rule selector_equal_same_match)
  show "Selector_Validate Map.empty (Some sel_ex) = Inr ()" by code_simp
  show "Selector_Validate Map.empty (Some sel_ex') = Inr ()" by code_simp
  show "Selector_Equal (Some sel_ex) (Some sel_ex') = Some True" by code_simp
  show "no_repeats (LabelsOr sel_ex)" "no_repeats (LabelsAnd sel_ex)"
    by (simp_all add: no_repeats_def sel_ex_def canon_def value_list_def)
  show "labels_numeric (LabelsOr sel_ex) [(''ver'', ''3'')]"
    "labels_numeric (LabelsAnd sel_ex) [(''ver'', ''3'')]" by code_simp+
qed

text \<open>
  Without the hypothesis on repetitions \<open>Equal\<close> is not symmetric and identifies selectors that
  match different labels.
\<close>

lemma label_equal_not_symmetric:
  "\<exists>s t l. Selector_Validate Map.empty (Some s) = Inr () \<and> Selector_Validate Map.empty (Some t) = Inr ()
     \<and> Selector_Equal (Some s) (Some t) = Some True \<and> Selector_Equal (Some t) (Some s) = Some False
     \<and> Selector_MatchLabels (Element_Match Map.empty) s l = Inr False
     \<and> Selector_MatchLabels (Element_Match Map.empty) t l = Inr True"
proof (intro exI conjI)
  let ?s = "\<lparr>MatchAll = False, LabelsOr =
    [\<lparr>Key = ''city'', Op = In, Value = VList [VString ''a'', VString ''a'']\<rparr>], LabelsAnd = []\<rparr>"
  let ?t = "\<lparr>MatchAll = False, LabelsOr =
    [\<lparr>Key = ''city'', Op = In, Value = VList [VString ''a'', VString ''b'']\<rparr>], LabelsAnd = []\<rparr>"
  show "Selector_Validate Map.empty (Some ?s) = Inr ()" "Selector_Validate Map.empty (Some ?t) = Inr ()"
    "Selector_Equal (Some ?s) (Some ?t) = Some True" "Selector_Equal (Some ?t) (Some ?s) = Some False"
    "Selector_MatchLabels (Element_Match Map.empty) ?s [(''city'', ''b'')] = Inr False"
    "Selector_MatchLabels (Element_Match Map.empty) ?t [(''city'', ''b'')] = Inr True"
    by code_simp+
qed

text \<open>
  The label value is rounded to single precision and the value of the element is not, so that
  a label equal to the decimal of the element may compare as greater: the label \<open>0.1\<close> is not
  \<open>le\<close> but \<open>gt\<close> the selector value 0.1.
\<close>

theorem numeric_match_precision:
  "Element_Match rx \<lparr>Key = ''v'', Op = LessThanEqual, Value = VNumber ''0.1''\<rparr> [(''v'', ''0.1'')] = Inr False
   \<and> Element_Match rx \<lparr>Key = ''v'', Op = GreaterThan, Value = VNumber ''0.1''\<rparr> [(''v'', ''0.1'')] = Inr True"
proof -
  have "parse_float 32 ''0.1'' = Some (FFin (13421773 / 134217728))"
    "parse_float_full 64 ''0.1'' = (FFin (3602879701896397 / 36028797018963968), True)"
    by code_simp+
  then show ?thesis
    by (simp add: Element_Match_def LessThanEqualType_Match_def GreaterThanType_Match_def
        numeric_match_def fl_le_def)
qed

text \<open>
  C31: A label that passes the check made before a selector is decoded has a known operator, and the
  value it carries is one the operator accepts, up to the limits of length: validating the decoded
  element afterwards can only find too many or too long values.
\<close>

theorem checked_raw_element_well_typed:
  assumes "validatEelement rx r = Inr ()"
  shows "\<exists>opr. OperatorEnums (raw_Op r) = Some opr \<and>
    (\<forall>err. Op_Validate rx opr \<lparr>Key = raw_Key r, Op = opr, Value = raw_Value r\<rparr> = Inl err \<longrightarrow>
       err = OversizeValues \<or> err = ValueErr (TooLong 128))"
proof -
  obtain opr where o: "OperatorEnums (raw_Op r) = Some opr"
    using assms by (auto simp: validatEelement_def res_simps split: option.splits)
  have vl: "ValidateLabelValue v = Inl e \<Longrightarrow> v \<noteq> [] \<Longrightarrow> e = TooLong 128" for v e
    by (auto simp: validator_defs res_simps)
  have vs: "check_all (\<lambda>x. case x of VString v \<Rightarrow> wrap_err ValueErr (ValidateLabelValue v) | _ \<Rightarrow> Inl NotList) xs
      = Inl e \<Longrightarrow> e = ValueErr (TooLong 128)"
    if "check_all (\<lambda>x. case x of VString v \<Rightarrow> ensure (v \<noteq> []) EmptyValue | _ \<Rightarrow> Inl NotString) xs = Inr ()"
    for xs e
    using that by (induction xs) (auto simp: res_simps split: go_value.splits dest: vl)
  show ?thesis
    using assms o
    by (cases opr)
      (auto simp: validatEelement_def op_validate_defs res_simps ValidateLabelValueRegex_def
         simp del: check_all_Inr_iff split: go_value.splits dest: vl vs)
qed

theorem checked_raw_element_well_typed_witness:
  "\<exists>opr. OperatorEnums ''in'' = Some opr"
proof -
  let ?r = "\<lparr>raw_Key = ''city'', raw_Op = ''in'', raw_Value = VList [VString ''sz'']\<rparr>"
  have "validatEelement Map.empty ?r = Inr ()" by code_simp
  from checked_raw_element_well_typed [OF this] show ?thesis by auto
qed

end
