(* ===== verification/GoTime.thy ===== *)
theory GoTime
  imports GoStrings
begin

text \<open>
  \<open>time.Parse(time.DateTime, s)\<close> of Go's standard library (layout \<open>2006-01-02 15:04:05\<close>): four
  digits of year, two of month and day, one or two of hour, two of minute and second, and a
  fraction of a second that is accepted although the layout has none. The result is the instant
  in UTC, in seconds of the Unix epoch.
\<close>

definition is_leap :: "nat \<Rightarrow> bool" where
  "is_leap y \<longleftrightarrow> y mod 4 = 0 \<and> (y mod 100 \<noteq> 0 \<or> y mod 400 = 0)"

definition days_in :: "nat \<Rightarrow> nat \<Rightarrow> nat" where
  "days_in y m =
     (if m = 2 then (if is_leap y then 29 else 28) else if m \<in> {4, 6, 9, 11} then 30 else 31)"

text \<open>Take exactly \<open>n\<close> digits.\<close>

definition take_num :: "nat \<Rightarrow> string \<Rightarrow> (nat \<times> string) option" where
  "take_num n s =
     (if n \<le> length s \<and> list_all is_digit_char (take n s)
      then Some (nat_of_digits (take n s), drop n s) else None)"

definition take_lit :: "char \<Rightarrow> string \<Rightarrow> string option" where
  "take_lit c s = (case s of [] \<Rightarrow> None | d # r \<Rightarrow> if c = d then Some r else None)"

text \<open>\<open>getnum(value, false)\<close>: two digits, or one.\<close>

definition take_num_12 :: "string \<Rightarrow> (nat \<times> string) option" where
  "take_num_12 s = (case take_num 2 s of None \<Rightarrow> take_num 1 s | r \<Rightarrow> r)"

definition skip_fraction :: "string \<Rightarrow> string" where
  "skip_fraction s =
     (case s of c # d # r \<Rightarrow>
        if (c = CHR ''.'' \<or> c = CHR '','') \<and> is_digit_char d then dropWhile is_digit_char (d # r) else s
      | _ \<Rightarrow> s)"

definition opt_bind :: "'a option \<Rightarrow> ('a \<Rightarrow> 'b option) \<Rightarrow> 'b option" where
  "opt_bind x f = (case x of None \<Rightarrow> None | Some y \<Rightarrow> f y)"

definition days_before_year :: "nat \<Rightarrow> int" where
  "days_before_year y =
     365 * (int y - 1970) + ((int y - 1) div 4 - 492) - ((int y - 1) div 100 - 19)
     + ((int y - 1) div 400 - 4)"

definition days_before_month :: "nat \<Rightarrow> nat \<Rightarrow> nat" where
  "days_before_month y m = sum_list (map (days_in y) [1..<m])"

definition unix_seconds :: "nat \<Rightarrow> nat \<Rightarrow> nat \<Rightarrow> nat \<Rightarrow> nat \<Rightarrow> nat \<Rightarrow> int" where
  "unix_seconds y mo d h mi s =
     (days_before_year y + int (days_before_month y mo) + int d - 1) * 86400
     + int h * 3600 + int mi * 60 + int s"

definition parse_datetime :: "string \<Rightarrow> int option" where
  "parse_datetime v =
     opt_bind (take_num 4 v) (\<lambda>(y, v). opt_bind (take_lit CHR ''-'' v) (\<lambda>v.
     opt_bind (take_num 2 v) (\<lambda>(mo, v). opt_bind (take_lit CHR ''-'' v) (\<lambda>v.
     opt_bind (take_num 2 v) (\<lambda>(d, v). opt_bind (take_lit CHR '' '' v) (\<lambda>v.
     opt_bind (take_num_12 v) (\<lambda>(h, v). opt_bind (take_lit CHR '':'' v) (\<lambda>v.
     opt_bind (take_num 2 v) (\<lambda>(mi, v). opt_bind (take_lit CHR '':'' v) (\<lambda>v.
     opt_bind (take_num 2 v) (\<lambda>(s, v).
       if skip_fraction v \<noteq> [] then None
       else if mo < 1 \<or> 12 < mo \<or> 24 \<le> h \<or> 60 \<le> mi \<or> 60 \<le> s \<or> d < 1 \<or> days_in y mo < d then None
       else Some (unix_seconds y mo d h mi s))))))))))))"

lemma parse_datetime_examples:
  "parse_datetime ''1970-01-01 00:00:00'' = Some 0"
  "parse_datetime ''2024-02-29 12:30:05'' = Some 1709209805"
  "parse_datetime ''2023-02-29 12:30:05'' = None"
  by code_simp+

section \<open>RFC 3339\<close>

text \<open>
  \<open>time.Parse(time.RFC3339, s)\<close>, layout \<open>2006-01-02T15:04:05Z07:00\<close>: the letter Z, or a sign with
  hours up to 24 and minutes up to 60. The result is the instant in whole seconds.
\<close>

definition take_zone :: "string \<Rightarrow> (int \<times> string) option" where
  "take_zone v =
     (case v of
        [] \<Rightarrow> None
      | c # r \<Rightarrow>
          if c = CHR ''Z'' then Some (0, r)
          else if length v < 6 \<or> (c \<noteq> CHR ''+'' \<and> c \<noteq> CHR ''-'') then None
          else opt_bind (take_num 2 r) (\<lambda>(h, v). opt_bind (take_lit CHR '':'' v) (\<lambda>v.
               opt_bind (take_num 2 v) (\<lambda>(m, v).
                 if 24 < h \<or> 60 < m then None
                 else Some ((if c = CHR ''-'' then - 1 else 1) * (int h * 3600 + int m * 60), v)))))"

definition parse_rfc3339 :: "string \<Rightarrow> int option" where
  "parse_rfc3339 v =
     opt_bind (take_num 4 v) (\<lambda>(y, v). opt_bind (take_lit CHR ''-'' v) (\<lambda>v.
     opt_bind (take_num 2 v) (\<lambda>(mo, v). opt_bind (take_lit CHR ''-'' v) (\<lambda>v.
     opt_bind (take_num 2 v) (\<lambda>(d, v). opt_bind (take_lit CHR ''T'' v) (\<lambda>v.
     opt_bind (take_num_12 v) (\<lambda>(h, v). opt_bind (take_lit CHR '':'' v) (\<lambda>v.
     opt_bind (take_num 2 v) (\<lambda>(mi, v). opt_bind (take_lit CHR '':'' v) (\<lambda>v.
     opt_bind (take_num 2 v) (\<lambda>(s, v).
     opt_bind (take_zone (skip_fraction v)) (\<lambda>(z, v).
       if v \<noteq> [] then None
       else if mo < 1 \<or> 12 < mo \<or> 24 \<le> h \<or> 60 \<le> mi \<or> 60 \<le> s \<or> d < 1 \<or> days_in y mo < d then None
       else Some (unix_seconds y mo d h mi s - z)))))))))))))"

text \<open>The zero time, January 1 of year 1.\<close>

definition zero_time :: int where
  "zero_time = unix_seconds 1 1 1 0 0 0"

lemma parse_rfc3339_examples:
  "parse_rfc3339 ''1970-01-01T00:00:00Z'' = Some 0"
  "parse_rfc3339 ''2024-02-29T12:30:05.25+08:00'' = Some 1709181005"
  "parse_rfc3339 ''0001-01-01T00:00:00Z'' = Some zero_time"
  "parse_rfc3339 ''2024-02-29 12:30:05Z'' = None"
  "zero_time = - 62135596800"
  by code_simp+

end
