(* ===== verification/Tables.thy ===== *)
theory Tables
  imports Selector GoTime
begin

text \<open>
  The table types of \<open>pkg/dal/table\<close> that publishing works on, with their validation: groups
  (\<open>group.go\<close>), released groups (\<open>released_group.go\<close>), strategies (\<open>strategy.go\<close>), revisions
  (\<open>table.go\<close>), and the publish option of \<open>pkg/types/publish.go\<close>. A nil pointer is \<open>None\<close>; an
  access through a nil pointer is the error \<open>NilPointer\<close>. A string type with named constants is a
  datatype of these constants and of the other strings. Ids are natural numbers: the code only
  compares them.
\<close>

section \<open>Errors and enumerations\<close>

datatype tbl_err =
    IDShouldNotBeSet | IDShouldBeSet
  | NotSet string
  | InvalidID string
  | BadValue valid_err
  | BadSelector sel_err
  | Unsupported string
  | NothingChanged
  | CannotUpdate string
  | Oversize
  | NilPointer

datatype group_mode =
    GroupModeCustom | GroupModeDebug | GroupModeDefault | GroupModeBuiltIn | OtherMode string

datatype publish_mode = PublishByGroups | PublishByLabels | OtherPublishMode string

datatype publish_state = Unpublished | Publishing | Published | OtherState string

datatype publish_type = Manually | Automatically | Scheduled | Immediately | OtherType string

datatype publish_status =
    PendingApproval | PendingPublish | RevokedPublish | RejectedApproval | AlreadyPublish
  | OtherStatus string

definition GrayPercentKey :: string where "GrayPercentKey = ''gray_percent''"

definition GroupMode_Validate :: "group_mode \<Rightarrow> tbl_err + unit" where
  "GroupMode_Validate g =
     (case g of GroupModeCustom \<Rightarrow> Inr () | GroupModeDebug \<Rightarrow> Inr () | GroupModeDefault \<Rightarrow> Inr ()
      | _ \<Rightarrow> Inl (Unsupported ''mode''))"

definition GrayPublishMode_Validate :: "publish_mode \<Rightarrow> tbl_err + unit" where
  "GrayPublishMode_Validate s =
     (case s of PublishByGroups \<Rightarrow> Inr () | PublishByLabels \<Rightarrow> Inr ()
      | _ \<Rightarrow> Inl (Unsupported ''publish mode''))"

definition PublishState_Validate :: "publish_state \<Rightarrow> tbl_err + unit" where
  "PublishState_Validate p =
     (case p of Unpublished \<Rightarrow> Inr () | Publishing \<Rightarrow> Inr () | Published \<Rightarrow> Inr ()
      | _ \<Rightarrow> Inl (Unsupported ''publish state''))"

definition ValidatePublishType :: "publish_type \<Rightarrow> tbl_err + unit" where
  "ValidatePublishType p =
     (case p of Manually \<Rightarrow> Inr () | Automatically \<Rightarrow> Inr () | Scheduled \<Rightarrow> Inr () | Immediately \<Rightarrow> Inr ()
      | _ \<Rightarrow> Inl (Unsupported ''publish type''))"

definition ValidatePublishStatus :: "publish_status \<Rightarrow> tbl_err + unit" where
  "ValidatePublishStatus p =
     (case p of PendingApproval \<Rightarrow> Inr () | PendingPublish \<Rightarrow> Inr () | RevokedPublish \<Rightarrow> Inr ()
      | RejectedApproval \<Rightarrow> Inr () | AlreadyPublish \<Rightarrow> Inr ()
      | _ \<Rightarrow> Inl (Unsupported ''publish status''))"

section \<open>Revisions\<close>

text \<open>Times are seconds; 0 stands for Go's zero time.\<close>

record revision =
  Creator :: string
  Reviser :: string
  CreatedAt :: int
  RevUpdatedAt :: int

definition Revision_IsEmpty :: "revision \<Rightarrow> bool" where
  "Revision_IsEmpty r =
     (if length (Creator r) \<noteq> 0 then False else if length (Reviser r) \<noteq> 0 then False
      else if CreatedAt r \<noteq> 0 then False else if RevUpdatedAt r \<noteq> 0 then False else True)"

definition Revision_ValidateCreate :: "revision \<Rightarrow> tbl_err + unit" where
  "Revision_ValidateCreate r = ensure (length (Creator r) \<noteq> 0) (NotSet ''creator'')"

definition Revision_ValidateUpdate :: "revision \<Rightarrow> tbl_err + unit" where
  "Revision_ValidateUpdate r = ensure (length (Reviser r) \<noteq> 0) (NotSet ''reviser'')"

record created_revision =
  cr_Creator :: string
  cr_CreatedAt :: int

definition CreatedRevision_Validate :: "created_revision \<Rightarrow> tbl_err + unit" where
  "CreatedRevision_Validate r = ensure (length (cr_Creator r) \<noteq> 0) (NotSet ''creator'')"

text \<open>\<open>if x == nil { return errors.New(what + " not set") }; return f(*x)\<close>\<close>

definition need :: "'a option \<Rightarrow> string \<Rightarrow> ('a \<Rightarrow> tbl_err + 'b) \<Rightarrow> tbl_err + 'b" where
  "need x what f = (case x of None \<Rightarrow> Inl (NotSet what) | Some y \<Rightarrow> f y)"

lemma need_Inr_iff [res_simps]: "need x w f = Inr y \<longleftrightarrow> (\<exists>z. x = Some z \<and> f z = Inr y)"
  by (cases x) (auto simp: need_def)

section \<open>Groups\<close>

record group_spec =
  g_Name :: string
  Public :: bool
  Mode :: group_mode
  GSelector :: "selector option"
  g_UID :: string

record group =
  g_ID :: nat
  g_Spec :: "group_spec option"
  g_BizID :: "nat option"
  g_Revision :: "revision option"

definition GroupSpec_ValidateCreate :: "regexps \<Rightarrow> group_spec \<Rightarrow> tbl_err + unit" where
  "GroupSpec_ValidateCreate rx g =
     rbind (wrap_err BadValue (ValidateName (g_Name g))) (\<lambda>_.
     rbind (GroupMode_Validate (Mode g)) (\<lambda>_.
     case Mode g of
       GroupModeCustom \<Rightarrow>
         if GSelector g = None \<or> Selector_IsEmpty (GSelector g) then Inl (NotSet ''selector'')
         else wrap_err BadSelector (Selector_Validate rx (GSelector g))
     | GroupModeDebug \<Rightarrow> ensure (g_UID g \<noteq> []) (NotSet ''uid'')
     | _ \<Rightarrow> Inl (Unsupported ''mode'')))"

definition GroupSpec_ValidateUpdate :: "regexps \<Rightarrow> group_spec \<Rightarrow> tbl_err + unit" where
  "GroupSpec_ValidateUpdate rx g =
     rbind (wrap_err BadValue (ValidateName (g_Name g))) (\<lambda>_.
     rbind (ensure (Mode g = OtherMode []) (CannotUpdate ''mode'')) (\<lambda>_.
     rbind (ensure (GSelector g \<noteq> None) (NotSet ''selector'')) (\<lambda>_.
     wrap_err BadSelector (Selector_Validate rx (GSelector g)))))"

text \<open>The attachment holds the business id; \<open>None\<close> is a nil attachment.\<close>

definition GroupAttachment_IsEmpty :: "nat \<Rightarrow> bool" where
  "GroupAttachment_IsEmpty bizID = (bizID = 0)"

definition GroupAttachment_Validate :: "nat \<Rightarrow> tbl_err + unit" where
  "GroupAttachment_Validate bizID = ensure (0 < bizID) (InvalidID ''biz'')"

definition Group_ValidateCreate :: "regexps \<Rightarrow> group \<Rightarrow> tbl_err + unit" where
  "Group_ValidateCreate rx g =
     rbind (ensure (\<not> 0 < g_ID g) IDShouldNotBeSet) (\<lambda>_.
     need (g_Spec g) ''spec'' (\<lambda>spec.
     rbind (GroupSpec_ValidateCreate rx spec) (\<lambda>_.
     need (g_BizID g) ''attachment'' (\<lambda>att.
     rbind (GroupAttachment_Validate att) (\<lambda>_.
     need (g_Revision g) ''revision'' Revision_ValidateCreate)))))"

definition Group_ValidateUpdate :: "regexps \<Rightarrow> group \<Rightarrow> tbl_err + unit" where
  "Group_ValidateUpdate rx g =
     rbind (ensure (0 < g_ID g) IDShouldBeSet) (\<lambda>_.
     rbind (case g_Spec g of None \<Rightarrow> Inr False
            | Some spec \<Rightarrow> rbind (GroupSpec_ValidateUpdate rx spec) (\<lambda>_. Inr True)) (\<lambda>changed.
     need (g_BizID g) ''attachment'' (\<lambda>att.
     rbind (ensure (0 < att) (InvalidID ''biz'')) (\<lambda>_.
     rbind (ensure changed NothingChanged) (\<lambda>_.
     need (g_Revision g) ''revision'' Revision_ValidateUpdate)))))"

definition Group_ValidateDelete :: "group \<Rightarrow> tbl_err + unit" where
  "Group_ValidateDelete g =
     rbind (ensure (0 < g_ID g) IDShouldBeSet) (\<lambda>_.
     case g_BizID g of None \<Rightarrow> Inl NilPointer | Some att \<Rightarrow> ensure (0 < att) (InvalidID ''biz''))"

section \<open>Released groups\<close>

record released_group =
  rg_ID :: nat
  rg_GroupID :: nat
  rg_AppID :: nat
  rg_ReleaseID :: nat
  rg_StrategyID :: nat
  rg_Mode :: group_mode
  rg_Selector :: "selector option"
  rg_UID :: string
  rg_Edited :: bool
  rg_BizID :: nat
  rg_Reviser :: string
  rg_UpdatedAt :: int

definition ReleasedGroup_ValidateCreate :: "released_group \<Rightarrow> tbl_err + unit" where
  "ReleasedGroup_ValidateCreate c =
     rbind (ensure (rg_ID c = 0) IDShouldNotBeSet) (\<lambda>_.
     rbind (ensure (0 < rg_GroupID c) (InvalidID ''group'')) (\<lambda>_.
     rbind (ensure (0 < rg_AppID c) (InvalidID ''app'')) (\<lambda>_.
     rbind (ensure (0 < rg_BizID c) (InvalidID ''biz'')) (\<lambda>_.
     rbind (GroupMode_Validate (rg_Mode c)) (\<lambda>_.
     rbind (ensure (\<not> (rg_Mode c = GroupModeCustom \<and> rg_Selector c = None)) (NotSet ''selector'')) (\<lambda>_.
     ensure (\<not> (rg_Mode c = GroupModeDebug \<and> rg_UID c = [])) (NotSet ''uid'')))))))"

definition ReleasedGroup_ValidateUpdate :: "released_group \<Rightarrow> tbl_err + unit" where
  "ReleasedGroup_ValidateUpdate c =
     rbind (ensure (0 < rg_ID c) IDShouldBeSet) (\<lambda>_. ensure (0 < rg_BizID c) (InvalidID ''biz''))"

definition ReleasedGroup_ValidateDelete :: "released_group \<Rightarrow> tbl_err + unit" where
  "ReleasedGroup_ValidateDelete c =
     rbind (ensure (0 < rg_ID c) IDShouldBeSet) (\<lambda>_. ensure (0 < rg_BizID c) (InvalidID ''biz''))"

section \<open>Strategies\<close>

text \<open>The scope is its list of groups; \<open>None\<close> is a nil scope.\<close>

record strategy_spec =
  s_Name :: string
  ReleaseID :: nat
  AsDefault :: bool
  Scope :: "group list option"
  Namespace :: string
  Memo :: string
  PublishType :: publish_type
  PublishTime :: string
  PublishStatus :: publish_status
  RejectReason :: string
  Approver :: string
  ApproverProgress :: string
  FinalApprovalTime :: int
  ApproveType :: string
  ItsmTicketType :: string
  ItsmTicketUrl :: string
  ItsmTicketSn :: string
  ItsmTicketStatus :: string
  ItsmTicketStateID :: string
  ItsmCallbackToken :: string

record strategy_attachment =
  sa_BizID :: nat
  sa_AppID :: nat
  sa_StrategySetID :: nat

record strategy =
  s_ID :: nat
  Spec :: "strategy_spec option"
  State :: "publish_state option"
  Attachment :: "strategy_attachment option"
  s_Revision :: "revision option"

definition Scope_IsEmpty :: "group list \<Rightarrow> bool" where
  "Scope_IsEmpty groups = (length groups = 0)"

definition Scope_ValidateCreate :: "group list \<Rightarrow> tbl_err + unit" where
  "Scope_ValidateCreate groups = ensure (\<not> Scope_IsEmpty groups) (NotSet ''groups'')"

definition ValidateSubmitPublishContent :: "strategy_spec \<Rightarrow> tbl_err + unit" where
  "ValidateSubmitPublishContent s =
     rbind (ValidatePublishType (PublishType s)) (\<lambda>_.
     rbind (ValidatePublishStatus (PublishStatus s)) (\<lambda>_.
     rbind (ensure (\<not> (PublishTime s \<noteq> [] \<and> parse_datetime (PublishTime s) = None))
              (Unsupported ''publish time'')) (\<lambda>_.
     rbind (ensure (\<not> (Approver s \<noteq> [] \<and> PublishType s = Immediately))
              (Unsupported ''publish type'')) (\<lambda>_.
     ensure (\<not> (Approver s = [] \<and> (PublishType s = Automatically \<or> PublishType s = Manually)))
       (Unsupported ''publish type'')))))"

definition StrategySpec_ValidateCreate :: "regexps \<Rightarrow> strategy_spec \<Rightarrow> tbl_err + unit" where
  "StrategySpec_ValidateCreate rx s =
     rbind (wrap_err BadValue (ValidateName (s_Name s))) (\<lambda>_.
     rbind (ensure (0 < ReleaseID s) (InvalidID ''release'')) (\<lambda>_.
     rbind (if AsDefault s then Inr ()
            else case Scope s of None \<Rightarrow> Inl NilPointer
              | Some groups \<Rightarrow>
                  rbind (ensure (length groups \<noteq> 0) (NotSet ''scope'')) (\<lambda>_.
                  check_all (Group_ValidateCreate rx) groups)) (\<lambda>_.
     rbind (wrap_err BadValue (ValidateMemo (Memo s) False)) (\<lambda>_.
     ValidateSubmitPublishContent s))))"

definition StrategySpec_ValidateUpdate :: "strategy_spec \<Rightarrow> tbl_err + unit" where
  "StrategySpec_ValidateUpdate s =
     rbind (if length (s_Name s) \<noteq> 0 then wrap_err BadValue (ValidateName (s_Name s)) else Inr ()) (\<lambda>_.
     rbind (ensure (0 < ReleaseID s) (InvalidID ''release'')) (\<lambda>_.
     rbind (ensure (length (Namespace s) = 0) (CannotUpdate ''namespace'')) (\<lambda>_.
     wrap_err BadValue (ValidateMemo (Memo s) False))))"

definition StrategyAttachment_IsEmpty :: "strategy_attachment \<Rightarrow> bool" where
  "StrategyAttachment_IsEmpty s = (sa_BizID s = 0 \<and> sa_AppID s = 0 \<and> sa_StrategySetID s = 0)"

definition StrategyAttachment_Validate :: "strategy_attachment \<Rightarrow> tbl_err + unit" where
  "StrategyAttachment_Validate s =
     rbind (ensure (0 < sa_BizID s) (InvalidID ''biz'')) (\<lambda>_.
     rbind (ensure (0 < sa_AppID s) (InvalidID ''app'')) (\<lambda>_.
     ensure (0 < sa_StrategySetID s) (InvalidID ''strategy set'')))"

definition Strategy_ValidateCreate :: "regexps \<Rightarrow> strategy \<Rightarrow> tbl_err + unit" where
  "Strategy_ValidateCreate rx s =
     rbind (ensure (\<not> 0 < s_ID s) IDShouldNotBeSet) (\<lambda>_.
     need (Spec s) ''spec'' (\<lambda>spec.
     rbind (StrategySpec_ValidateCreate rx spec) (\<lambda>_.
     need (State s) ''state'' (\<lambda>state.
     rbind (PublishState_Validate state) (\<lambda>_.
     need (Attachment s) ''attachment'' (\<lambda>att.
     rbind (StrategyAttachment_Validate att) (\<lambda>_.
     need (s_Revision s) ''revision'' Revision_ValidateCreate)))))))"

definition Strategy_ValidateUpdate :: "strategy \<Rightarrow> tbl_err + unit" where
  "Strategy_ValidateUpdate s =
     rbind (ensure (0 < s_ID s) IDShouldBeSet) (\<lambda>_.
     rbind (case Spec s of None \<Rightarrow> Inr False
            | Some spec \<Rightarrow> rbind (StrategySpec_ValidateUpdate spec) (\<lambda>_. Inr True)) (\<lambda>changed.
     rbind (case State s of None \<Rightarrow> Inr changed
            | Some st \<Rightarrow> rbind (PublishState_Validate st) (\<lambda>_. Inr True)) (\<lambda>changed.
     need (Attachment s) ''attachment'' (\<lambda>att.
     rbind (ensure (0 < sa_BizID att) (InvalidID ''biz'')) (\<lambda>_.
     rbind (ensure (0 < sa_AppID att) (InvalidID ''app'')) (\<lambda>_.
     rbind (ensure changed NothingChanged) (\<lambda>_.
     need (s_Revision s) ''revision'' Revision_ValidateUpdate)))))))"

definition Strategy_ValidateDelete :: "strategy \<Rightarrow> tbl_err + unit" where
  "Strategy_ValidateDelete s =
     rbind (ensure (0 < s_ID s) IDShouldBeSet) (\<lambda>_.
     case Attachment s of None \<Rightarrow> Inl NilPointer
     | Some att \<Rightarrow> ensure (0 < sa_BizID att) (InvalidID ''biz''))"

section \<open>Sub strategies\<close>

record sub_strategy_spec =
  ss_Name :: string
  ss_ReleaseID :: nat
  ss_Scope :: "selector option option"
  ss_Memo :: string

definition SubScopeSelector_IsEmpty :: "selector option \<Rightarrow> bool" where
  "SubScopeSelector_IsEmpty sel = (if sel = None then True else Selector_IsEmpty sel)"

text \<open>\<open>marshal\<close> is the JSON encoder: the bytes of the selector, or \<open>None\<close> when it fails.\<close>

definition SubScopeSelector_Validate :: "(selector \<Rightarrow> string option) \<Rightarrow> selector option \<Rightarrow> tbl_err + unit" where
  "SubScopeSelector_Validate marshal sel =
     (case sel of None \<Rightarrow> Inl (NotSet ''selector'')
      | Some s \<Rightarrow>
          rbind (ensure (\<not> Selector_IsEmpty (Some s)) (NotSet ''selector'')) (\<lambda>_.
          rbind (ensure (\<not> MatchAll s) (Unsupported ''match all'')) (\<lambda>_.
          case marshal s of None \<Rightarrow> Inl (Unsupported ''selector'')
          | Some raw \<Rightarrow> ensure (length raw \<le> 1 * 1024) Oversize)))"

definition SubStrategySpec_IsEmpty :: "sub_strategy_spec \<Rightarrow> bool" where
  "SubStrategySpec_IsEmpty s =
     (if length (ss_Name s) \<noteq> 0 then False else if 0 < ss_ReleaseID s then False
      else if (case ss_Scope s of None \<Rightarrow> False | Some sc \<Rightarrow> \<not> SubScopeSelector_IsEmpty sc) then False
      else if length (ss_Memo s) \<noteq> 0 then False else True)"

definition SubStrategySpec_Validate :: "(selector \<Rightarrow> string option) \<Rightarrow> sub_strategy_spec \<Rightarrow> tbl_err + unit" where
  "SubStrategySpec_Validate marshal s =
     rbind (wrap_err BadValue (ValidateName (ss_Name s))) (\<lambda>_.
     rbind (ensure (0 < ss_ReleaseID s) (InvalidID ''release'')) (\<lambda>_.
     need (ss_Scope s) ''scope'' (\<lambda>sc.
     rbind (SubScopeSelector_Validate marshal sc) (\<lambda>_.
     wrap_err BadValue (ValidateMemo (ss_Memo s) False)))))"

definition SubStrategy_IsEmpty :: "sub_strategy_spec option \<Rightarrow> bool" where
  "SubStrategy_IsEmpty s = (case s of None \<Rightarrow> True | Some spec \<Rightarrow> SubStrategySpec_IsEmpty spec)"

definition SubStrategy_ValidateCreate ::
    "(selector \<Rightarrow> string option) \<Rightarrow> sub_strategy_spec option \<Rightarrow> tbl_err + unit" where
  "SubStrategy_ValidateCreate marshal s = need s ''spec'' (SubStrategySpec_Validate marshal)"

definition SubStrategy_ValidateUpdate ::
    "(selector \<Rightarrow> string option) \<Rightarrow> sub_strategy_spec option \<Rightarrow> tbl_err + unit" where
  "SubStrategy_ValidateUpdate marshal s = need s ''spec'' (SubStrategySpec_Validate marshal)"

section \<open>Publish options\<close>

record publish_option =
  o_BizID :: nat
  o_AppID :: nat
  o_ReleaseID :: nat
  o_Memo :: string
  o_All :: bool
  o_Default :: bool
  o_Groups :: "nat list"
  o_Revision :: "created_revision option"
  o_PublishType :: publish_type
  o_PublishTime :: string
  o_PublishStatus :: publish_status
  o_RejectReason :: string
  o_Approver :: string
  o_ApproverProgress :: string
  o_PubState :: publish_state
  o_ApproveType :: string

definition PublishOption_Validate :: "publish_option \<Rightarrow> tbl_err + unit" where
  "PublishOption_Validate ps =
     rbind (ensure (0 < o_BizID ps) (InvalidID ''biz'')) (\<lambda>_.
     rbind (ensure (0 < o_AppID ps) (InvalidID ''app'')) (\<lambda>_.
     rbind (ensure (0 < o_ReleaseID ps) (InvalidID ''release'')) (\<lambda>_.
     rbind (ensure (\<not> (\<not> o_All ps \<and> length (o_Groups ps) = 0)) (NotSet ''groups'')) (\<lambda>_.
     rbind (ensure (\<not> (o_All ps \<and> 0 < length (o_Groups ps))) (CannotUpdate ''groups'')) (\<lambda>_.
     need (o_Revision ps) ''revision'' CreatedRevision_Validate)))))"

section \<open>Facts\<close>

lemma ValidateSubmitPublishContent_ok:
  "ValidateSubmitPublishContent s = Inr () \<longleftrightarrow>
     (\<forall>t. PublishType s \<noteq> OtherType t) \<and> (\<forall>t. PublishStatus s \<noteq> OtherStatus t)
     \<and> (PublishTime s = [] \<or> parse_datetime (PublishTime s) \<noteq> None)
     \<and> (if Approver s = [] then PublishType s = Scheduled \<or> PublishType s = Immediately
        else PublishType s \<noteq> Immediately)"
  by (cases "PublishType s"; cases "PublishStatus s")
    (auto simp: ValidateSubmitPublishContent_def ValidatePublishType_def ValidatePublishStatus_def res_simps)

lemma PublishOption_Validate_ok:
  "PublishOption_Validate ps = Inr () \<longleftrightarrow>
     0 < o_BizID ps \<and> 0 < o_AppID ps \<and> 0 < o_ReleaseID ps \<and> (o_All ps \<longleftrightarrow> o_Groups ps = [])
     \<and> (\<exists>r. o_Revision ps = Some r \<and> cr_Creator r \<noteq> [])"
  by (auto simp: PublishOption_Validate_def CreatedRevision_Validate_def res_simps)

text \<open>A custom group that is valid on creation has a valid selector, which is not match-all empty.\<close>

lemma GroupSpec_ValidateCreate_custom:
  "GroupSpec_ValidateCreate rx g = Inr () \<Longrightarrow> Mode g = GroupModeCustom \<Longrightarrow>
     \<exists>s. GSelector g = Some s \<and> Selector_Validate rx (Some s) = Inr ()"
  by (auto simp: GroupSpec_ValidateCreate_def res_simps split: if_splits)

end
