(* ===== verification/GoHash.thy ===== *)
theory GoHash
  imports Prelude "HOL-Library.Word"
begin

text \<open>
  \<open>hash/crc32.ChecksumIEEE\<close> of Go's standard library: the reflected CRC-32 with polynomial
  0xEDB88320, initial value and final exclusive-or all ones, on 32-bit words.
\<close>

unbundle bit_operations_syntax

type_synonym u32 = "32 word"

definition crc_bit :: "u32 \<Rightarrow> u32" where
  "crc_bit c = (if c AND 1 = 1 then drop_bit 1 c XOR 3988292384 else drop_bit 1 c)"

definition crc_byte :: "u32 \<Rightarrow> u32 \<Rightarrow> u32" where
  "crc_byte c b = (crc_bit ^^ 8) (c XOR b)"

definition crc32_ieee :: "string \<Rightarrow> u32" where
  "crc32_ieee s = NOT (foldl (\<lambda>c x. crc_byte c (word_of_nat (of_char x))) 4294967295 s)"

lemma crc_bit_simps [code_unfold]: "(crc_bit ^^ 8) c =
   crc_bit (crc_bit (crc_bit (crc_bit (crc_bit (crc_bit (crc_bit (crc_bit c)))))))"
  by (simp add: eval_nat_numeral)

lemma crc32_ieee_append:
  "crc32_ieee (s @ t) =
     NOT (foldl (\<lambda>c x. crc_byte c (word_of_nat (of_char x))) (NOT (crc32_ieee s)) t)"
  by (simp add: crc32_ieee_def)

lemma unat_crc32_bound: "unat (crc32_ieee s) \<le> 4294967295"
  using unsigned_less [of "crc32_ieee s", where 'a = nat] by simp

text \<open>The same computation on integers, which evaluates faster.\<close>

definition crc_bit_i :: "int \<Rightarrow> int" where
  "crc_bit_i c = (if even c then c div 2 else (c div 2) XOR 3988292384)"

definition crc_byte_i :: "int \<Rightarrow> int \<Rightarrow> int" where
  "crc_byte_i c b = crc_bit_i (crc_bit_i (crc_bit_i (crc_bit_i (crc_bit_i (crc_bit_i (crc_bit_i
     (crc_bit_i (c XOR b))))))))"

lemma uint_crc_bit: "uint (crc_bit c) = crc_bit_i (uint c)"
proof -
  have "c AND 1 = 1 \<longleftrightarrow> odd c" by (simp add: and_one_eq odd_iff_mod_2_eq_one)
  moreover have "odd c \<longleftrightarrow> odd (uint c)" by transfer simp
  moreover have "uint (drop_bit 1 c) = uint c div 2"
    by (simp add: drop_bit_eq_div uint_div)
  ultimately show ?thesis
    by (auto simp: crc_bit_def crc_bit_i_def unsigned_xor_eq)
qed

lemma uint_crc_byte: "0 \<le> b \<Longrightarrow> b < 256 \<Longrightarrow> uint (crc_byte c (word_of_int b)) = crc_byte_i (uint c) b"
  by (simp add: crc_byte_def crc_byte_i_def crc_bit_simps uint_crc_bit unsigned_xor_eq
      unsigned_of_int take_bit_int_eq_self)

lemma uint_crc_fold:
  "uint (foldl (\<lambda>c x. crc_byte c (word_of_nat (of_char x))) w s)
     = foldl (\<lambda>c x. crc_byte_i c (of_char x)) (uint w) s"
proof (induction s arbitrary: w)
  case (Cons x s)
  have "(of_char x :: int) < 256" "0 \<le> (of_char x :: int)" by (cases x; simp)+
  then have "uint (crc_byte w (word_of_int (of_char x))) = crc_byte_i (uint w) (of_char x)"
    by (intro uint_crc_byte)
  moreover have "(word_of_nat (of_char x) :: u32) = word_of_int (of_char x)"
    by (cases x) simp
  ultimately show ?case by (simp add: Cons)
qed simp

lemma uint_crc32: "uint (crc32_ieee s) = 4294967295 - foldl (\<lambda>c x. crc_byte_i c (of_char x)) 4294967295 s"
proof -
  have "uint (NOT w) = 4294967295 - uint w" for w :: u32
    using uint_range_size [of w]
    by (simp add: unsigned_not_eq take_bit_not_eq_mask_diff mask_eq_exp_minus_1 take_bit_int_eq_self word_size)
  then show ?thesis by (simp add: crc32_ieee_def uint_crc_fold)
qed

lemma crc32_eqI: "4294967295 - foldl (\<lambda>c x. crc_byte_i c (of_char x)) 4294967295 s = uint w \<Longrightarrow> crc32_ieee s = w"
  using uint_crc32 [of s] by (simp add: word_uint_eq_iff)

lemmas crc_eval = crc_byte_i_def crc_bit_i_def

text \<open>The check value of the CRC catalogue.\<close>

lemma crc32_check: "crc32_ieee ''123456789'' = 3421780262"
  by (rule crc32_eqI) (simp add: crc_eval)

end
