(* ===== verification/ReleaseMatch.thy ===== *)
theory ReleaseMatch
  imports Tables GoHash "HOL-Library.Multiset"
begin

text \<open>
  \<open>cmd/feed-server/bll/release/match.go\<close>: which release an application instance gets. The released
  groups of the application are sorted by their time of update, newest first, matched one by one
  against the uid and the labels of the instance, and among the matching groups the one of the
  largest gray percentage wins. \<open>sort.Slice\<close> leaves the order of equal elements open, so the sort
  is a parameter \<open>ord\<close> of the model; \<open>sort_updated\<close> is one such function.
\<close>

section \<open>Cached groups and instances\<close>

record rgroup =
  GroupID :: nat
  RReleaseID :: nat
  StrategyID :: nat
  RMode :: group_mode
  RSelector :: "selector option"
  RUID :: string
  UpdatedAt :: int

record instance_meta =
  Uid :: string
  Labels :: labels

record matched_meta =
  m_StrategyID :: nat
  m_ReleaseID :: nat
  m_GroupID :: nat
  GrayPercent :: gofloat

datatype match_err =
    SelErr sel_err
  | CustomWithoutSelector
  | NotMatchedRelease
  | WrongConfigType
  | Dep string

section \<open>Gray percentages\<close>

text \<open>Division of float64 values by 100.\<close>

definition fl_div100 :: "gofloat \<Rightarrow> gofloat" where
  "fl_div100 x = (case x of FFin q \<Rightarrow> round64 (q / 100) | _ \<Rightarrow> x)"

text \<open>The text of a label value: a string, a float with \<open>%.1f%%\<close>, an int with \<open>%d%%\<close>, or unsupported.\<close>

definition percent_str :: "go_value \<Rightarrow> string option" where
  "percent_str v =
     (case v of
        VString s \<Rightarrow> Some s
      | VFloat64 x \<Rightarrow> Some (fmt_f1 x @ ''%'')
      | VInt KInt n \<Rightarrow> Some (itoa n @ ''%'')
      | _ \<Rightarrow> None)"

definition percent_of :: "string \<Rightarrow> gofloat option" where
  "percent_of s = map_option fl_div100 (parse_float 64 (trimSuffixStr s ''%''))"

definition parseGrayPercent :: "go_value \<Rightarrow> gofloat" where
  "parseGrayPercent value =
     (case percent_str value of
        None \<Rightarrow> FFin 0
      | Some s \<Rightarrow> (case percent_of s of Some p \<Rightarrow> p | None \<Rightarrow> FFin 0))"

text \<open>
  The loop of \<open>matchReleasedGrayClients\<close>: unlike \<open>parseGrayPercent\<close> it goes on to a later
  \<open>gray_percent\<close> label when the value has an unsupported type.
\<close>

fun gray_loop :: "label \<Rightarrow> gofloat" where
  "gray_loop [] = FFin 0"
| "gray_loop (e # rest) =
     (if Key e = GrayPercentKey then
        (case percent_str (Value e) of
           None \<Rightarrow> gray_loop rest
         | Some s \<Rightarrow> (case percent_of s of Some p \<Rightarrow> p | None \<Rightarrow> FFin 0))
      else gray_loop rest)"

definition hashSeed :: "string \<Rightarrow> nat \<Rightarrow> string" where
  "hashSeed uid releaseID = uid @ '':'' @ itoa_nat releaseID"

text \<open>\<open>float64(hash) / float64(math.MaxUint32)\<close>: both conversions are exact.\<close>

definition hashPercent :: "string \<Rightarrow> nat \<Rightarrow> gofloat" where
  "hashPercent uid releaseID =
     round64 (rat_of_nat (unat (crc32_ieee (hashSeed uid releaseID))) / 4294967295)"

definition gray_hit :: "gofloat \<Rightarrow> string \<Rightarrow> nat \<Rightarrow> bool" where
  "gray_hit p uid releaseID =
     (if fl_le p (FFin 0) \<or> fl_less (FFin 1) p then False else fl_less (hashPercent uid releaseID) p)"

definition matchReleasedGrayClients :: "selector \<Rightarrow> nat \<Rightarrow> string \<Rightarrow> bool" where
  "matchReleasedGrayClients sel releaseID uid = gray_hit (gray_loop (LabelsAnd sel)) uid releaseID"

section \<open>Matching\<close>

definition matchNonGrayLabels :: "regexps \<Rightarrow> selector \<Rightarrow> labels \<Rightarrow> sel_err + bool" where
  "matchNonGrayLabels rx sel labels =
     (let filteredLabelsAnd = filter (\<lambda>e. Key e \<noteq> GrayPercentKey) (LabelsAnd sel)
      in if length filteredLabelsAnd = 0 then Inr True
         else Selector_MatchLabels (Element_Match rx)
           \<lparr>MatchAll = MatchAll sel, LabelsOr = LabelsOr sel, LabelsAnd = filteredLabelsAnd\<rparr> labels)"

text \<open>The value of the first \<open>gray_percent\<close> label, if there is one.\<close>

definition grayLabel :: "selector \<Rightarrow> gofloat option" where
  "grayLabel sel =
     map_option (\<lambda>e. parseGrayPercent (Value e)) (find (\<lambda>e. Key e = GrayPercentKey) (LabelsAnd sel))"

definition matchCustomGroupWithGrayStrategy ::
    "regexps \<Rightarrow> rgroup \<Rightarrow> instance_meta \<Rightarrow> match_err + bool \<times> gofloat" where
  "matchCustomGroupWithGrayStrategy rx g meta =
     (case RSelector g of
        None \<Rightarrow> Inl CustomWithoutSelector
      | Some sel \<Rightarrow>
          (case grayLabel sel of
             Some grayPercent \<Rightarrow>
               rbind (wrap_err SelErr (matchNonGrayLabels rx sel (Labels meta))) (\<lambda>nonGrayMatched.
               Inr (if nonGrayMatched then matchReleasedGrayClients sel (RReleaseID g) (Uid meta) else False,
                    grayPercent))
           | None \<Rightarrow>
               rbind (wrap_err SelErr (Selector_MatchLabels (Element_Match rx) sel (Labels meta))) (\<lambda>matched.
               Inr (matched, FFin 0))))"

definition meta_of :: "rgroup \<Rightarrow> gofloat \<Rightarrow> matched_meta" where
  "meta_of g p = \<lparr>m_StrategyID = StrategyID g, m_ReleaseID = RReleaseID g, m_GroupID = GroupID g, GrayPercent = p\<rparr>"

text \<open>The loop over the groups: the matched list and the default found so far.\<close>

fun match_groups ::
    "regexps \<Rightarrow> instance_meta \<Rightarrow> rgroup list \<Rightarrow> matched_meta list \<times> matched_meta option
      \<Rightarrow> match_err + matched_meta list \<times> matched_meta option" where
  "match_groups rx meta [] acc = Inr acc"
| "match_groups rx meta (g # gs) (ml, df) =
     (case RMode g of
        GroupModeDebug \<Rightarrow>
          match_groups rx meta gs (if RUID g = Uid meta then ml @ [meta_of g (FFin 0)] else ml, df)
      | GroupModeCustom \<Rightarrow>
          rbind (matchCustomGroupWithGrayStrategy rx g meta) (\<lambda>(matched, p).
          match_groups rx meta gs (if matched then ml @ [meta_of g p] else ml, df))
      | GroupModeDefault \<Rightarrow> match_groups rx meta gs (ml, Some (meta_of g (FFin 0)))
      | _ \<Rightarrow> match_groups rx meta gs (ml, df))"

fun select_max :: "matched_meta \<Rightarrow> matched_meta list \<Rightarrow> matched_meta" where
  "select_max s [] = s"
| "select_max s (m # ms) = select_max (if fl_less (GrayPercent s) (GrayPercent m) then m else s) ms"

definition matchReleasedGroupWithLabels ::
    "(rgroup list \<Rightarrow> rgroup list) \<Rightarrow> regexps \<Rightarrow> rgroup list \<Rightarrow> instance_meta \<Rightarrow> match_err + matched_meta" where
  "matchReleasedGroupWithLabels ord rx groups meta =
     rbind (match_groups rx meta (ord groups) ([], None)) (\<lambda>(ml, df).
     case ml of
       [] \<Rightarrow> (case df of None \<Rightarrow> Inl NotMatchedRelease | Some d \<Rightarrow> Inr d)
     | m # _ \<Rightarrow> Inr (select_max m ml))"

text \<open>
  \<open>GetMatchedRelease\<close>: the rate limiter, the configuration type of the application and its
  released groups come from the caches, each with its error.
\<close>

datatype config_type = File | KV | Table | OtherConfigType string

definition GetMatchedRelease ::
    "string + unit \<Rightarrow> string + config_type \<Rightarrow> string + rgroup list
      \<Rightarrow> (rgroup list \<Rightarrow> rgroup list) \<Rightarrow> regexps \<Rightarrow> instance_meta \<Rightarrow> match_err + nat" where
  "GetMatchedRelease limiter appMeta released ord rx meta =
     rbind (wrap_err Dep limiter) (\<lambda>_.
     rbind (wrap_err Dep appMeta) (\<lambda>ct.
     rbind (ensure (ct = File \<or> ct = KV) WrongConfigType) (\<lambda>_.
     rbind (wrap_err Dep released) (\<lambda>groups.
     rbind (matchReleasedGroupWithLabels ord rx groups meta) (\<lambda>m. Inr (m_ReleaseID m))))))"

section \<open>Which groups match, and what they would give\<close>

text \<open>The match of one group alone: \<open>Some p\<close> when it matches with percentage \<open>p\<close>.\<close>

definition group_match :: "regexps \<Rightarrow> instance_meta \<Rightarrow> rgroup \<Rightarrow> match_err + gofloat option" where
  "group_match rx meta g =
     (case RMode g of
        GroupModeDebug \<Rightarrow> Inr (if RUID g = Uid meta then Some (FFin 0) else None)
      | GroupModeCustom \<Rightarrow>
          rbind (matchCustomGroupWithGrayStrategy rx g meta) (\<lambda>(b, p). Inr (if b then Some p else None))
      | _ \<Rightarrow> Inr None)"

definition matches :: "regexps \<Rightarrow> instance_meta \<Rightarrow> rgroup \<Rightarrow> gofloat \<Rightarrow> bool" where
  "matches rx meta g p \<longleftrightarrow> group_match rx meta g = Inr (Some p)"

definition match_list :: "regexps \<Rightarrow> instance_meta \<Rightarrow> rgroup list \<Rightarrow> (rgroup \<times> gofloat) list" where
  "match_list rx meta gs = concat (map (\<lambda>g. case group_match rx meta g of
     Inr (Some p) \<Rightarrow> [(g, p)] | _ \<Rightarrow> []) gs)"

definition default_of :: "rgroup list \<Rightarrow> rgroup option" where
  "default_of gs = (case filter (\<lambda>g. RMode g = GroupModeDefault) gs of [] \<Rightarrow> None | ds \<Rightarrow> Some (last ds))"

lemma match_list_Nil [simp]: "match_list rx meta [] = []"
  by (simp add: match_list_def)

lemma match_list_Cons: "match_list rx meta (g # gs) =
    (case group_match rx meta g of Inr (Some p) \<Rightarrow> [(g, p)] | _ \<Rightarrow> []) @ match_list rx meta gs"
  by (simp add: match_list_def)

lemma match_list_mem: "(g, p) \<in> set (match_list rx meta gs) \<longleftrightarrow> g \<in> set gs \<and> matches rx meta g p"
  by (induction gs) (auto simp: match_list_Cons matches_def split: sum.splits option.splits)

lemma match_list_empty:
  "match_list rx meta gs = [] \<longleftrightarrow> (\<forall>g \<in> set gs. \<forall>p. \<not> matches rx meta g p)"
  by (induction gs) (auto simp: match_list_Cons matches_def split: sum.splits option.splits)

lemma default_of_Nil [simp]: "default_of [] = None"
  by (simp add: default_of_def)

lemma default_of_Cons: "default_of (g # gs) =
    (case default_of gs of Some d \<Rightarrow> Some d
     | None \<Rightarrow> if RMode g = GroupModeDefault then Some g else None)"
  by (auto simp: default_of_def split: list.splits)

lemma default_of_Some: "default_of gs = Some d \<Longrightarrow> d \<in> set gs \<and> RMode d = GroupModeDefault"
  by (induction gs) (auto simp: default_of_Cons split: option.splits if_splits)

lemma default_of_None: "default_of gs = None \<longleftrightarrow> (\<forall>g \<in> set gs. RMode g \<noteq> GroupModeDefault)"
  by (induction gs) (auto simp: default_of_Cons split: option.splits if_splits)

lemma match_groups_Cons:
  "match_groups rx meta (g # gs) (ml, df) =
     rbind (group_match rx meta g) (\<lambda>r. match_groups rx meta gs
       (case r of Some p \<Rightarrow> ml @ [meta_of g p] | None \<Rightarrow> ml,
        if RMode g = GroupModeDefault then Some (meta_of g (FFin 0)) else df))"
  by (cases "RMode g"; cases "matchCustomGroupWithGrayStrategy rx g meta")
    (auto simp: group_match_def)

lemma match_groups_ok:
  "match_groups rx meta gs (ml, df) = Inr r \<longleftrightarrow>
     (\<forall>g \<in> set gs. is_ok (group_match rx meta g))
     \<and> r = (ml @ map (\<lambda>(g, p). meta_of g p) (match_list rx meta gs),
          case default_of gs of Some d \<Rightarrow> Some (meta_of d (FFin 0)) | None \<Rightarrow> df)"
proof (induction gs arbitrary: ml df)
  case Nil
  then show ?case by auto
next
  case (Cons g gs)
  show ?case
  proof (cases "group_match rx meta g")
    case (Inl e)
    then show ?thesis by (simp add: match_groups_Cons del: match_groups.simps)
  next
    case (Inr q)
    then show ?thesis
      by (cases q)
        (simp_all add: match_groups_Cons Cons.IH match_list_Cons default_of_Cons
           del: match_groups.simps split: option.splits)
  qed
qed

text \<open>A matching group never has percentage NaN.\<close>

lemma gray_hit_not_nan: "gray_hit p uid r \<Longrightarrow> p \<noteq> FNaN"
  by (cases "hashPercent uid r") (auto simp: gray_hit_def split: if_splits)

lemma gray_loop_find:
  "find (\<lambda>e. Key e = GrayPercentKey) lb = Some e \<Longrightarrow>
     percent_str (Value e) \<noteq> None \<Longrightarrow> gray_loop lb = parseGrayPercent (Value e)"
  by (induction lb) (auto simp: parseGrayPercent_def split: if_splits option.splits)

lemma custom_match_not_nan:
  assumes "matchCustomGroupWithGrayStrategy rx g meta = Inr (True, p)"
  shows "p \<noteq> FNaN"
proof -
  obtain sel where sel: "RSelector g = Some sel"
    using assms by (auto simp: matchCustomGroupWithGrayStrategy_def split: option.splits)
  show ?thesis
  proof (cases "find (\<lambda>e. Key e = GrayPercentKey) (LabelsAnd sel)")
    case None
    then show ?thesis
      using assms sel by (auto simp: matchCustomGroupWithGrayStrategy_def grayLabel_def res_simps)
  next
    case (Some e)
    then have p: "p = parseGrayPercent (Value e)" and "matchReleasedGrayClients sel (RReleaseID g) (Uid meta)"
      using assms sel by (auto simp: matchCustomGroupWithGrayStrategy_def grayLabel_def res_simps split: if_splits)
    then have nn: "gray_loop (LabelsAnd sel) \<noteq> FNaN"
      by (auto simp: matchReleasedGrayClients_def dest: gray_hit_not_nan)
    show ?thesis
    proof (cases "percent_str (Value e)")
      case None
      then show ?thesis by (simp add: p parseGrayPercent_def)
    next
      case s: (Some s)
      then show ?thesis using nn gray_loop_find [OF Some] p by simp
    qed
  qed
qed

lemma matches_not_nan: "matches rx meta g p \<Longrightarrow> p \<noteq> FNaN"
  by (auto simp: matches_def group_match_def res_simps split: group_mode.splits if_splits
      dest: custom_match_not_nan)

section \<open>The selected match is a first maximum\<close>

lemma select_max_spec:
  assumes "\<forall>m \<in> set (s # ms). GrayPercent m \<noteq> FNaN"
  shows "\<exists>k < length (s # ms). select_max s ms = (s # ms) ! k
    \<and> (\<forall>m \<in> set (s # ms). \<not> fl_less (GrayPercent (select_max s ms)) (GrayPercent m))
    \<and> (\<forall>i < k. fl_less (GrayPercent ((s # ms) ! i)) (GrayPercent (select_max s ms)))"
  using assms
proof (induction ms arbitrary: s)
  case Nil
  then show ?case by auto
next
  case (Cons m ms)
  show ?case
  proof (cases "fl_less (GrayPercent s) (GrayPercent m)")
    case True
    obtain k where k: "k < length (m # ms)" "select_max m ms = (m # ms) ! k"
      "\<forall>x \<in> set (m # ms). \<not> fl_less (GrayPercent (select_max m ms)) (GrayPercent x)"
      "\<forall>i < k. fl_less (GrayPercent ((m # ms) ! i)) (GrayPercent (select_max m ms))"
      using Cons.IH [of m] Cons.prems by auto
    have sm: "fl_less (GrayPercent s) (GrayPercent (select_max m ms))"
    proof (cases "fl_less (GrayPercent m) (GrayPercent (select_max m ms))")
      case True
      then show ?thesis using \<open>fl_less (GrayPercent s) (GrayPercent m)\<close> fl_less_trans by blast
    next
      case False
      then have "k = 0" using k(4) by (cases k) auto
      then show ?thesis using k(2) True by simp
    qed
    show ?thesis
    proof (intro exI [of _ "Suc k"] conjI)
      show "\<forall>i < Suc k. fl_less (GrayPercent ((s # m # ms) ! i)) (GrayPercent (select_max s (m # ms)))"
        using k(4) sm True by (auto simp: nth_Cons less_Suc_eq_0_disj split: nat.splits)
    qed (use k sm True fl_less_asym in auto)
  next
    case False
    obtain k where k: "k < length (s # ms)" "select_max s ms = (s # ms) ! k"
      "\<forall>x \<in> set (s # ms). \<not> fl_less (GrayPercent (select_max s ms)) (GrayPercent x)"
      "\<forall>i < k. fl_less (GrayPercent ((s # ms) ! i)) (GrayPercent (select_max s ms))"
      using Cons.IH [of s] Cons.prems by auto
    show ?thesis
    proof (cases k)
      case 0
      then show ?thesis using k False by (intro exI [of _ 0]) auto
    next
      case (Suc j)
      have s: "fl_less (GrayPercent s) (GrayPercent (select_max s ms))"
        using k(4) Suc by (metis nth_Cons_0 zero_less_Suc)
      have m: "fl_less (GrayPercent m) (GrayPercent (select_max s ms))"
      proof -
        have "GrayPercent s \<noteq> FNaN" "GrayPercent m \<noteq> FNaN" using Cons.prems by auto
        from fl_trichotomy [OF this] False
        consider "fl_eq (GrayPercent s) (GrayPercent m)" | "fl_less (GrayPercent m) (GrayPercent s)" by blast
        then show ?thesis
          using s fl_less_trans by cases (auto dest!: fl_eq_eq)
      qed
      show ?thesis
      proof (intro exI [of _ "Suc k"] conjI)
        show "\<forall>i < Suc k. fl_less (GrayPercent ((s # m # ms) ! i)) (GrayPercent (select_max s (m # ms)))"
        proof (intro allI impI)
          fix i assume "i < Suc k"
          then consider "i = 0" | "i = 1" | i' where "i = Suc (Suc i')" "Suc i' < k"
            by (metis One_nat_def Suc_less_eq not0_implies_Suc)
          then show "fl_less (GrayPercent ((s # m # ms) ! i)) (GrayPercent (select_max s (m # ms)))"
            using s m k(4) False by cases auto
        qed
      qed (use k Suc False m fl_less_asym in auto)
    qed
  qed
qed

section \<open>Properties of the sort\<close>

text \<open>What the documentation of \<open>sort.Slice\<close> promises for the comparison by \<open>UpdatedAt\<close>.\<close>

definition newest_first :: "rgroup list \<Rightarrow> bool" where
  "newest_first gs \<longleftrightarrow> sorted_wrt (\<lambda>g h. UpdatedAt h \<le> UpdatedAt g) gs"

definition sort_updated :: "rgroup list \<Rightarrow> rgroup list" where
  "sort_updated = sort_key (\<lambda>g. - UpdatedAt g)"

lemma sort_updated_ok: "mset (sort_updated gs) = mset gs" "newest_first (sort_updated gs)"
proof -
  show "mset (sort_updated gs) = mset gs" by (simp add: sort_updated_def)
  have "sorted (map (\<lambda>g. - UpdatedAt g) (sort_updated gs))" by (simp add: sort_updated_def)
  then show "newest_first (sort_updated gs)"
    by (simp add: newest_first_def sorted_map)
qed

lemma newest_first_match_list:
  assumes "newest_first gs" "i \<le> j" "j < length (match_list rx meta gs)"
  shows "UpdatedAt (fst (match_list rx meta gs ! j)) \<le> UpdatedAt (fst (match_list rx meta gs ! i))"
proof -
  have sub: "set (match_list rx meta gs) \<subseteq> {(g, p). g \<in> set gs}" for gs
    by (auto simp: match_list_mem)
  have "sorted_wrt (\<lambda>a b. UpdatedAt (fst b) \<le> UpdatedAt (fst a)) (match_list rx meta gs)"
    using assms(1)
    by (induction gs) (auto simp: newest_first_def match_list_Cons match_list_mem
        split: sum.splits option.splits)
  then show ?thesis
    using assms(2,3) by (cases "i = j") (auto simp: sorted_wrt_iff_nth_less)
qed

lemma newest_first_default:
  "newest_first gs \<Longrightarrow> default_of gs = Some d \<Longrightarrow> g \<in> set gs \<Longrightarrow> RMode g = GroupModeDefault \<Longrightarrow>
     UpdatedAt d \<le> UpdatedAt g"
  by (induction gs) (auto simp: newest_first_def default_of_Cons default_of_None
      dest: default_of_Some split: option.splits if_splits)

section \<open>Properties\<close>

text \<open>
  C29: The release an instance gets when no group's matching fails. If some group matches, it is
  the release of a matching group whose gray percentage no matching group exceeds, and the most
  recently updated of those; otherwise it is the release of the default group that was updated
  the longest ago. \<open>ord\<close> is any function that sorts by update time, newest first.
\<close>

theorem matched_release_selection:
  assumes ord: "mset (ord groups) = mset groups" "newest_first (ord groups)"
    and res: "matchReleasedGroupWithLabels ord rx groups meta = Inr m"
  shows "(\<exists>g \<in> set groups. \<exists>p. matches rx meta g p \<and> m = meta_of g p
            \<and> (\<forall>h \<in> set groups. \<forall>q. matches rx meta h q \<longrightarrow>
                 \<not> fl_less p q \<and> (fl_eq p q \<longrightarrow> UpdatedAt h \<le> UpdatedAt g)))
    \<or> (\<forall>h \<in> set groups. \<forall>q. \<not> matches rx meta h q)
        \<and> (\<exists>g \<in> set groups. RMode g = GroupModeDefault \<and> m = meta_of g (FFin 0)
            \<and> (\<forall>h \<in> set groups. RMode h = GroupModeDefault \<longrightarrow> UpdatedAt g \<le> UpdatedAt h))"
proof -
  have st: "set (ord groups) = set groups" using ord(1) by (rule mset_eq_setD)
  let ?L = "match_list rx meta (ord groups)" and ?f = "\<lambda>(g, p). meta_of g p"
  obtain ml df where mg: "match_groups rx meta (ord groups) ([], None) = Inr (ml, df)"
    using res by (auto simp: matchReleasedGroupWithLabels_def res_simps)
  then have ml: "ml = map ?f ?L"
    and df: "df = (case default_of (ord groups) of Some d \<Rightarrow> Some (meta_of d (FFin 0)) | None \<Rightarrow> None)"
    by (auto simp: match_groups_ok)
  show ?thesis
  proof (cases ml)
    case Nil
    then have no: "\<forall>h \<in> set groups. \<forall>q. \<not> matches rx meta h q"
      using ml match_list_mem [of _ _ rx meta "ord groups"] st by auto
    obtain d where d: "default_of (ord groups) = Some d" "m = meta_of d (FFin 0)"
      using res mg Nil df by (auto simp: matchReleasedGroupWithLabels_def split: option.splits)
    show ?thesis
      using no default_of_Some [OF d(1)] newest_first_default [OF ord(2) d(1)] d(2) st by auto
  next
    case (Cons x xs)
    then have m: "m = select_max x (x # xs)"
      using res mg by (auto simp: matchReleasedGroupWithLabels_def)
    have "GrayPercent y \<noteq> FNaN" if "y \<in> set ml" for y
      using that by (auto simp: ml match_list_mem meta_of_def dest: matches_not_nan)
    then have nn: "\<forall>y \<in> set (x # xs). GrayPercent y \<noteq> FNaN" using Cons by simp
    have "select_max x (x # xs) = select_max x xs" by simp
    with m have m: "m = select_max x xs" by simp
    from select_max_spec [OF nn] obtain k where k: "k < length ml" "m = ml ! k"
      "\<forall>y \<in> set ml. \<not> fl_less (GrayPercent m) (GrayPercent y)"
      "\<forall>i < k. fl_less (GrayPercent (ml ! i)) (GrayPercent m)"
      unfolding m Cons by auto
    obtain g p where gp: "?L ! k = (g, p)" by fastforce
    with k ml have mg: "m = meta_of g p" "(g, p) \<in> set ?L" by (auto simp: in_set_conv_nth)
    have "\<not> fl_less p q \<and> (fl_eq p q \<longrightarrow> UpdatedAt h \<le> UpdatedAt g)"
      if h: "h \<in> set groups" "matches rx meta h q" for h q
    proof -
      have "(h, q) \<in> set ?L" using h st by (simp add: match_list_mem)
      then obtain i where i: "i < length ?L" "?L ! i = (h, q)" by (auto simp: in_set_conv_nth)
      then have mi: "ml ! i = meta_of h q" by (simp add: ml)
      moreover have "ml ! i \<in> set ml" using i(1) ml by simp
      ultimately have "\<not> fl_less p q" using k(3) mg(1) by (auto simp: meta_of_def)
      moreover have "UpdatedAt h \<le> UpdatedAt g" if "fl_eq p q"
      proof -
        have "\<not> i < k" using k(4) mi mg(1) fl_eq_eq [OF that] by (auto simp: meta_of_def)
        then show ?thesis
          using newest_first_match_list [OF ord(2), of k i rx meta] i gp by simp
      qed
      ultimately show ?thesis by blast
    qed
    moreover have "g \<in> set groups" "matches rx meta g p" using mg(2) st by (simp_all add: match_list_mem)
    ultimately show ?thesis using mg(1) by blast
  qed
qed

definition groups_ex :: "rgroup list" where
  "groups_ex =
     [\<lparr>GroupID = 0, RReleaseID = 10, StrategyID = 1, RMode = GroupModeDefault, RSelector = None, RUID = [], UpdatedAt = 5\<rparr>,
      \<lparr>GroupID = 3, RReleaseID = 11, StrategyID = 2, RMode = GroupModeDebug, RSelector = None, RUID = ''u1'', UpdatedAt = 7\<rparr>,
      \<lparr>GroupID = 4, RReleaseID = 12, StrategyID = 3, RMode = GroupModeDebug, RSelector = None, RUID = ''u1'', UpdatedAt = 9\<rparr>]"

theorem matched_release_selection_witness:
  "\<exists>m. matchReleasedGroupWithLabels sort_updated Map.empty groups_ex \<lparr>Uid = ''u1'', Labels = []\<rparr> = Inr m
     \<and> m_ReleaseID m = 12 \<and> (\<exists>g \<in> set groups_ex. \<exists>p. m = meta_of g p)"
proof -
  let ?me = "\<lparr>Uid = ''u1'', Labels = []\<rparr>"
  obtain m where m: "matchReleasedGroupWithLabels sort_updated Map.empty groups_ex ?me = Inr m"
    "m_ReleaseID m = 12"
    by (simp add: matchReleasedGroupWithLabels_def groups_ex_def sort_updated_def meta_of_def)
  from matched_release_selection [OF sort_updated_ok m(1)] m show ?thesis by blast
qed

text \<open>
  An instance is told that no release matches exactly when the matching of no group fails, no
  group matches and there is no default group.
\<close>

theorem no_release_iff:
  assumes "mset (ord groups) = mset groups"
  shows "matchReleasedGroupWithLabels ord rx groups meta = Inl NotMatchedRelease \<longleftrightarrow>
    (\<forall>g \<in> set groups. is_ok (group_match rx meta g) \<and> (\<forall>p. \<not> matches rx meta g p)
       \<and> RMode g \<noteq> GroupModeDefault)"
proof -
  have st: "set (ord groups) = set groups" using assms by (rule mset_eq_setD)
  have ne: "match_groups rx meta gs acc \<noteq> Inl NotMatchedRelease" for gs acc
  proof (induction gs arbitrary: acc)
    case (Cons g gs)
    obtain ml df where acc: "acc = (ml, df)" by fastforce
    have "group_match rx meta g \<noteq> Inl NotMatchedRelease"
      by (auto simp: group_match_def matchCustomGroupWithGrayStrategy_def res_simps
          split: group_mode.splits option.splits)
    then show ?case
      using Cons.IH by (simp add: acc match_groups_Cons res_simps del: match_groups.simps)
  qed simp
  show ?thesis
  proof (cases "match_groups rx meta (ord groups) ([], None)")
    case (Inl e)
    then have "\<not> (\<forall>g \<in> set (ord groups). is_ok (group_match rx meta g))"
      using match_groups_ok [of rx meta "ord groups" "[]" None] by force
    then show ?thesis
      using Inl ne [of "ord groups" "([], None)"] st by (auto simp: matchReleasedGroupWithLabels_def)
  next
    case (Inr r)
    then have ok: "\<forall>g \<in> set (ord groups). is_ok (group_match rx meta g)"
      and r: "r = (map (\<lambda>(g, p). meta_of g p) (match_list rx meta (ord groups)),
         case default_of (ord groups) of Some d \<Rightarrow> Some (meta_of d (FFin 0)) | None \<Rightarrow> None)"
      by (simp_all add: match_groups_ok)
    have "match_list rx meta (ord groups) = [] \<longleftrightarrow> (\<forall>g \<in> set (ord groups). \<forall>p. \<not> matches rx meta g p)"
      by (rule match_list_empty)
    then show ?thesis
      using Inr r ok st default_of_None [of "ord groups"]
      by (auto simp: matchReleasedGroupWithLabels_def split: list.splits option.splits)
  qed
qed

theorem no_release_iff_witness:
  "matchReleasedGroupWithLabels sort_updated Map.empty (tl groups_ex) \<lparr>Uid = ''u2'', Labels = []\<rparr>
     = Inl NotMatchedRelease"
  unfolding no_release_iff [OF sort_updated_ok(1)]
  by (simp add: groups_ex_def group_match_def matches_def)

section \<open>Gray release\<close>

lemma gray_hit_mono: "gray_hit p uid r \<Longrightarrow> fl_le p q \<Longrightarrow> \<not> fl_less (FFin 1) q \<Longrightarrow> gray_hit q uid r"
  by (cases "hashPercent uid r"; cases p; cases q) (auto simp: gray_hit_def fl_le_def split: if_splits)

lemma round64_consts: "round64 1 = FFin 1" "round64 100 = FFin 100"
  by code_simp+

lemma round64_percent:
  assumes "1 \<le> n" "n \<le> (100::nat)"
  shows "\<exists>y. round64 (rat_of_nat n) = FFin y \<and> 1 \<le> y \<and> y \<le> 100"
proof -
  have "fl_le (round64 1) (round64 (rat_of_nat n))" "fl_le (round64 (rat_of_nat n)) (round64 100)"
    using assms by (auto intro!: round64_mono)
  then show ?thesis
    by (cases "round64 (rat_of_nat n)") (auto simp: round64_consts fl_le_def)
qed

lemma trimSuffix_append [simp]: "trimSuffixStr (s @ p) p = s"
  by (auto simp: trimSuffixStr_def hasSuffix_iff suffix_def)

lemma percent_of_text:
  assumes "1 \<le> n" "n \<le> 100" "round64 (rat_of_nat n) = FFin y"
  shows "percent_of (itoa_nat n @ ''%'') = Some (round64 (y / 100))"
  using parse_float_int [OF refl assms(3)] by (simp add: percent_of_def assms(3) fl_div100_def)

lemma percent_of_0: "percent_of (itoa_nat 0 @ ''%'') = Some (FFin 0)"
  using parse_float_int [of "round64 (rat_of_nat 0)" 0] by (simp add: percent_of_def fl_div100_def)

text \<open>The first \<open>gray_percent\<close> label of a selector is the text \<open>n%\<close>.\<close>

definition gray_text :: "selector \<Rightarrow> nat \<Rightarrow> bool" where
  "gray_text sel n \<longleftrightarrow> (\<exists>e. find (\<lambda>e. Key e = GrayPercentKey) (LabelsAnd sel) = Some e
     \<and> Value e = VString (itoa_nat n @ ''%''))"

lemma gray_loop_text: "gray_text sel n \<Longrightarrow> percent_of (itoa_nat n @ ''%'') = Some p \<Longrightarrow>
    gray_loop (LabelsAnd sel) = p"
  by (auto simp: gray_text_def gray_loop_find percent_str_def parseGrayPercent_def)

text \<open>
  Gray release is progressive. With percentages given as the text \<open>n%\<close>, a client that is
  selected at \<open>n\<close> percent of a release is selected at every larger percentage of the same release
  up to 100.
\<close>

theorem gray_progressive:
  assumes "gray_text s n" "gray_text t k" "n \<le> k" "k \<le> 100"
    and "matchReleasedGrayClients s releaseID uid"
  shows "matchReleasedGrayClients t releaseID uid"
proof -
  have "n \<noteq> 0"
  proof
    assume "n = 0"
    then have "gray_loop (LabelsAnd s) = FFin 0"
      using gray_loop_text [OF assms(1)] percent_of_0 by blast
    then show False using assms(5) by (simp add: matchReleasedGrayClients_def gray_hit_def fl_le_def)
  qed
  then have n: "1 \<le> n" "n \<le> 100" and k: "1 \<le> k" using assms by auto
  obtain y z where y: "round64 (rat_of_nat n) = FFin y" "1 \<le> y"
    and z: "round64 (rat_of_nat k) = FFin z" "1 \<le> z" "z \<le> 100"
    using round64_percent [OF n] round64_percent [OF k assms(4)] by auto
  have gl: "gray_loop (LabelsAnd s) = round64 (y / 100)" "gray_loop (LabelsAnd t) = round64 (z / 100)"
    using gray_loop_text [OF assms(1) percent_of_text [OF n y(1)]]
      gray_loop_text [OF assms(2) percent_of_text [OF k assms(4) z(1)]] by auto
  have "fl_le (FFin y) (FFin z)"
    using round64_mono [of "rat_of_nat n" "rat_of_nat k"] n assms(3) y z by simp
  then have "y \<le> z" by (auto simp: fl_le_def)
  then have le: "fl_le (round64 (y / 100)) (round64 (z / 100))"
    using y by (intro round64_mono) (auto simp: divide_simps)
  have "fl_le (round64 (z / 100)) (round64 1)"
    using z by (intro round64_mono) (auto simp: divide_simps)
  then have "\<not> fl_less (FFin 1) (round64 (z / 100))"
    by (cases "round64 (z / 100)") (auto simp: round64_consts fl_le_def)
  then show ?thesis
    using gray_hit_mono [OF _ le] assms(5) by (simp add: matchReleasedGrayClients_def gl)
qed

definition gray_sel :: "string \<Rightarrow> selector" where
  "gray_sel s = \<lparr>MatchAll = False, LabelsOr = [],
     LabelsAnd = [\<lparr>Key = GrayPercentKey, Op = Equal, Value = VString s\<rparr>]\<rparr>"

theorem gray_progressive_witness:
  "matchReleasedGrayClients (gray_sel ''50%'') 7 ''host-1''"
proof -
  have "itoa_nat 45 = ''45''" "itoa_nat 50 = ''50''" by code_simp+
  then have "gray_text (gray_sel ''45%'') 45" "gray_text (gray_sel ''50%'') 50"
    by (auto simp: gray_text_def gray_sel_def)
  moreover have "matchReleasedGrayClients (gray_sel ''45%'') 7 ''host-1''"
  proof -
    have g: "gray_loop (LabelsAnd (gray_sel ''45%'')) = FFin (8106479329266893 / 18014398509481984)"
      by code_simp
    have "itoa_nat 7 = ''7''" by code_simp
    then have "crc32_ieee (hashSeed ''host-1'' 7) = 1892934201"
      by (intro crc32_eqI) (simp add: hashSeed_def crc_eval)
    moreover have "fl_less (round64 (1892934201 / 4294967295)) (FFin (8106479329266893 / 18014398509481984))"
      by code_simp
    ultimately show ?thesis
      by (simp add: matchReleasedGrayClients_def g gray_hit_def hashPercent_def fl_le_def)
  qed
  ultimately show ?thesis using gray_progressive [of _ 45 _ 50] by simp
qed

lemma hash_below_one: "fl_less (hashPercent uid r) (FFin 1) \<longleftrightarrow> crc32_ieee (hashSeed uid r) \<noteq> 4294967295"
proof -
  let ?h = "crc32_ieee (hashSeed uid r)"
  have top: "round64 (4294967294 / 4294967295) = FFin (4294967295 / 4294967296)" by code_simp
  show ?thesis
  proof (cases "?h = 4294967295")
    case True
    have "unat (4294967295 :: u32) = 4294967295" by simp
    then have "hashPercent uid r = round64 1" by (simp add: hashPercent_def True)
    then show ?thesis using True by (simp add: round64_consts)
  next
    case False
    have "unat ?h \<noteq> 4294967295"
    proof
      assume "unat ?h = 4294967295"
      then have "word_of_nat (unat ?h) = (4294967295 :: u32)" by simp
      with False show False by simp
    qed
    then have le: "unat ?h \<le> 4294967294" using unat_crc32_bound [of "hashSeed uid r"] by simp
    have "fl_less (hashPercent uid r) (FFin 1)"
    proof (cases "unat ?h = 0")
      case True
      then show ?thesis by (simp add: hashPercent_def)
    next
      case ne: False
      have "rat_of_nat (unat ?h) \<le> rat_of_nat 4294967294" using le by (simp only: of_nat_le_iff)
      then have "fl_le (hashPercent uid r) (round64 (4294967294 / 4294967295))"
        using ne unfolding hashPercent_def
        by (intro round64_mono) (simp_all only: of_nat_0_less_iff zero_less_divide_iff divide_le_cancel
            of_nat_numeral, simp_all)
      then show ?thesis
        by (cases "hashPercent uid r") (auto simp: top fl_le_def)
    qed
    with False show ?thesis by simp
  qed
qed

text \<open>
  A gray release at 100% selects every client except those whose hash is the largest 32-bit
  value; such clients exist, since the quotient by \<open>math.MaxUint32\<close> reaches 1.
\<close>

theorem gray_full_percent:
  "(matchReleasedGrayClients (gray_sel ''100%'') releaseID uid
      \<longleftrightarrow> crc32_ieee (hashSeed uid releaseID) \<noteq> 4294967295)
   \<and> \<not> matchReleasedGrayClients (gray_sel ''100%'') 1 ''9m8eaahi''"
proof -
  have g: "gray_loop (LabelsAnd (gray_sel ''100%'')) = FFin 1" by code_simp
  have h: "matchReleasedGrayClients (gray_sel ''100%'') releaseID uid
      \<longleftrightarrow> crc32_ieee (hashSeed uid releaseID) \<noteq> 4294967295" for uid releaseID
    by (simp add: matchReleasedGrayClients_def g gray_hit_def fl_le_def hash_below_one)
  have "itoa_nat 1 = ''1''" by code_simp
  then have "crc32_ieee (hashSeed ''9m8eaahi'' 1) = 4294967295"
    by (intro crc32_eqI) (simp add: hashSeed_def crc_eval)
  with h show ?thesis by blast
qed

end
