(* ===== verification/Publish.thy ===== *)
theory Publish
  imports ReleaseMatch
begin

text \<open>
  \<open>internal/dal/dao/publish.go\<close>: a publish option becomes a strategy and, when it is published,
  rows of the table of released groups, from which the feed server serves the instances. The
  tables are lists of rows in a \<open>store\<close>; a query filters them. The only database failure
  modelled is a record that is not found: any other failure aborts the transaction, which leaves
  the store as it was. Generated ids count upwards. The update of a row from a struct is gorm's
  (\<open>Updates\<close>), a parameter \<open>upd\<close> whose documented behaviour is the predicate \<open>updates_struct\<close>.
\<close>

section \<open>The store\<close>

datatype pub_err =
    Tbl tbl_err
  | NilOption
  | GroupNotExists nat
  | GroupNotBound nat
  | NotFound
  | Deprecated
  | InPublishing
  | NotAllowed publish_status
  | NoPermission
  | ReasonEmpty
  | InvalidStatus
  | GroupExists
  | Ext string

record release_row =
  r_ID :: nat
  r_Name :: string
  r_BizID :: nat
  r_AppID :: nat
  r_Deprecated :: bool
  PublishNum :: nat
  FullyReleased :: bool

record event =
  ev_ResourceID :: nat
  ev_BizID :: nat
  ev_AppID :: nat
  ev_Creator :: string

record store =
  Groups :: "group list"
  Binds :: "(nat \<times> nat \<times> nat) list"
  Strategies :: "strategy list"
  Released :: "released_group list"
  Releases :: "release_row list"
  Events :: "event list"
  next_group :: nat
  next_released :: nat
  next_strategy :: nat

text \<open>The user of the request and the clock, as seconds and as the two texts the code formats.\<close>

record env =
  User :: string
  now :: int
  now_rfc3339 :: string
  now_datetime :: string

section \<open>gorm's update of a row from a struct\<close>

text \<open>
  The documentation of \<open>Updates\<close> with a struct: only non-zero fields are written. \<open>Omit(m.ID)\<close>
  leaves the id. The update time is set by gorm, here by the caller of the model.
\<close>

definition or_keep :: "'a \<Rightarrow> 'a \<Rightarrow> 'a \<Rightarrow> 'a" where
  "or_keep zero new old = (if new = zero then old else new)"

definition updates_struct :: "(released_group \<Rightarrow> released_group \<Rightarrow> released_group) \<Rightarrow> bool" where
  "updates_struct upd \<longleftrightarrow> (\<forall>new old.
     rg_ID (upd new old) = rg_ID old
     \<and> rg_GroupID (upd new old) = or_keep 0 (rg_GroupID new) (rg_GroupID old)
     \<and> rg_AppID (upd new old) = or_keep 0 (rg_AppID new) (rg_AppID old)
     \<and> rg_ReleaseID (upd new old) = or_keep 0 (rg_ReleaseID new) (rg_ReleaseID old)
     \<and> rg_StrategyID (upd new old) = or_keep 0 (rg_StrategyID new) (rg_StrategyID old)
     \<and> rg_Mode (upd new old) = or_keep (OtherMode []) (rg_Mode new) (rg_Mode old)
     \<and> rg_Selector (upd new old) = or_keep None (rg_Selector new) (rg_Selector old)
     \<and> rg_UID (upd new old) = or_keep [] (rg_UID new) (rg_UID old)
     \<and> rg_Edited (upd new old) = or_keep False (rg_Edited new) (rg_Edited old)
     \<and> rg_BizID (upd new old) = or_keep 0 (rg_BizID new) (rg_BizID old)
     \<and> rg_Reviser (upd new old) = or_keep [] (rg_Reviser new) (rg_Reviser old)
     \<and> rg_UpdatedAt (upd new old) = rg_UpdatedAt new)"

definition gorm_updates :: "released_group \<Rightarrow> released_group \<Rightarrow> released_group" where
  "gorm_updates new old =
     \<lparr>rg_ID = rg_ID old,
      rg_GroupID = or_keep 0 (rg_GroupID new) (rg_GroupID old),
      rg_AppID = or_keep 0 (rg_AppID new) (rg_AppID old),
      rg_ReleaseID = or_keep 0 (rg_ReleaseID new) (rg_ReleaseID old),
      rg_StrategyID = or_keep 0 (rg_StrategyID new) (rg_StrategyID old),
      rg_Mode = or_keep (OtherMode []) (rg_Mode new) (rg_Mode old),
      rg_Selector = or_keep None (rg_Selector new) (rg_Selector old),
      rg_UID = or_keep [] (rg_UID new) (rg_UID old),
      rg_Edited = or_keep False (rg_Edited new) (rg_Edited old),
      rg_BizID = or_keep 0 (rg_BizID new) (rg_BizID old),
      rg_Reviser = or_keep [] (rg_Reviser new) (rg_Reviser old),
      rg_UpdatedAt = rg_UpdatedAt new\<rparr>"

lemma gorm_updates_struct: "updates_struct gorm_updates"
  by (simp add: updates_struct_def gorm_updates_def)

section \<open>Submitting\<close>

definition empty_selector :: selector where
  "empty_selector = \<lparr>MatchAll = False, LabelsOr = [], LabelsAnd = []\<rparr>"

text \<open>The name of the default group, four characters in UTF-8.\<close>

definition default_name :: string where
  "default_name = [CHR 0xE9, CHR 0xBB, CHR 0x98, CHR 0xE8, CHR 0xAE, CHR 0xA4,
     CHR 0xE5, CHR 0x88, CHR 0x86, CHR 0xE7, CHR 0xBB, CHR 0x84]"

definition default_spec :: group_spec where
  "default_spec = \<lparr>g_Name = default_name, Public = True, Mode = GroupModeDefault,
     GSelector = Some empty_selector, g_UID = []\<rparr>"

text \<open>The loop of \<open>validatePublishGroups\<close> over the group ids; it sets \<open>Default\<close> in the option.\<close>

fun validatePublishGroups :: "store \<Rightarrow> nat list \<Rightarrow> publish_option \<Rightarrow> pub_err + publish_option" where
  "validatePublishGroups st [] opt = Inr opt"
| "validatePublishGroups st (groupID # ids) opt =
     (if groupID = 0 then validatePublishGroups st ids (opt\<lparr>o_Default := True\<rparr>)
      else case find (\<lambda>g. g_ID g = groupID \<and> g_BizID g = Some (o_BizID opt)) (Groups st) of
             None \<Rightarrow> Inl (GroupNotExists groupID)
           | Some g \<Rightarrow>
               (case g_Spec g of
                  None \<Rightarrow> Inl (Tbl NilPointer)
                | Some spec \<Rightarrow>
                    if Public spec then validatePublishGroups st ids opt
                    else if (groupID, o_AppID opt, o_BizID opt) \<in> set (Binds st)
                    then validatePublishGroups st ids opt
                    else Inl (GroupNotBound groupID)))"

definition genStrategy :: "env \<Rightarrow> publish_option \<Rightarrow> nat \<Rightarrow> group list \<Rightarrow> strategy" where
  "genStrategy ev opt stgID groups =
     (let state = (if o_PubState opt \<noteq> OtherState [] then o_PubState opt else Publishing);
          scope = groups @ map (\<lambda>_. \<lparr>g_ID = 0, g_Spec = Some default_spec, g_BizID = Some 0,
                      g_Revision = Some \<lparr>Creator = [], Reviser = [], CreatedAt = 0, RevUpdatedAt = 0\<rparr>\<rparr>)
                    (filter (\<lambda>v. v = 0) (o_Groups opt))
      in \<lparr>s_ID = stgID,
          Spec = Some
            \<lparr>s_Name = now_rfc3339 ev, ReleaseID = o_ReleaseID opt, AsDefault = o_Default opt,
             Scope = Some scope, Namespace = [], Memo = o_Memo opt,
             PublishType = o_PublishType opt, PublishTime = o_PublishTime opt,
             PublishStatus = o_PublishStatus opt, RejectReason = o_RejectReason opt,
             Approver = o_Approver opt, ApproverProgress = o_ApproverProgress opt,
             FinalApprovalTime = now ev, ApproveType = o_ApproveType opt,
             ItsmTicketType = [], ItsmTicketUrl = [], ItsmTicketSn = [], ItsmTicketStatus = [],
             ItsmTicketStateID = [], ItsmCallbackToken = []\<rparr>,
          State = Some state,
          Attachment = Some \<lparr>sa_BizID = o_BizID opt, sa_AppID = o_AppID opt, sa_StrategySetID = 0\<rparr>,
          s_Revision = Some \<lparr>Creator = User ev, Reviser = User ev, CreatedAt = now ev, RevUpdatedAt = now ev\<rparr>\<rparr>)"

definition updateReleasePublishInfo :: "publish_option \<Rightarrow> store \<Rightarrow> store" where
  "updateReleasePublishInfo opt st =
     st\<lparr>Releases := map (\<lambda>r.
          if r_ID r = o_ReleaseID opt
          then (if o_All opt \<or> o_Default opt
                then r\<lparr>PublishNum := PublishNum r + 1, FullyReleased := True\<rparr>
                else r\<lparr>PublishNum := PublishNum r + 1\<rparr>)
          else r) (Releases st)\<rparr>"

section \<open>The table of released groups\<close>

definition rg_key :: "released_group \<Rightarrow> nat \<times> nat \<times> nat" where
  "rg_key r = (rg_BizID r, rg_AppID r, rg_GroupID r)"

definition mk_released :: "env \<Rightarrow> publish_option \<Rightarrow> nat \<Rightarrow> nat \<Rightarrow> group_spec \<Rightarrow> released_group" where
  "mk_released ev opt stgID groupID spec =
     \<lparr>rg_ID = 0, rg_GroupID = groupID, rg_AppID = o_AppID opt, rg_ReleaseID = o_ReleaseID opt,
      rg_StrategyID = stgID, rg_Mode = Mode spec, rg_Selector = GSelector spec, rg_UID = g_UID spec,
      rg_Edited = False, rg_BizID = o_BizID opt, rg_Reviser = User ev, rg_UpdatedAt = now ev\<rparr>"

definition insert_released :: "released_group \<Rightarrow> store \<Rightarrow> store" where
  "insert_released rg st =
     st\<lparr>Released := Released st @ [rg\<lparr>rg_ID := next_released st\<rparr>], next_released := next_released st + 1\<rparr>"

text \<open>The body of the last loop: update the row of the group, insert one if not exactly one was hit.\<close>

definition upsert_one ::
    "(released_group \<Rightarrow> released_group \<Rightarrow> released_group) \<Rightarrow> released_group \<Rightarrow> store \<Rightarrow> store" where
  "upsert_one upd rg st =
     (let affected = length (filter (\<lambda>r. rg_key r = rg_key rg) (Released st));
          st' = st\<lparr>Released := map (\<lambda>r. if rg_key r = rg_key rg then upd rg r else r) (Released st)\<rparr>
      in if affected = 1 then st' else insert_released rg st')"

fun upsert_groups ::
    "(released_group \<Rightarrow> released_group \<Rightarrow> released_group) \<Rightarrow> env \<Rightarrow> publish_option \<Rightarrow> nat
      \<Rightarrow> (nat \<times> group_spec option) list \<Rightarrow> store \<Rightarrow> pub_err + store" where
  "upsert_groups upd ev opt stgID [] st = Inr st"
| "upsert_groups upd ev opt stgID ((gid, gspec) # gs) st =
     (case gspec of
        None \<Rightarrow> Inl (Tbl NilPointer)
      | Some spec \<Rightarrow>
          upsert_groups upd ev opt stgID gs (upsert_one upd (mk_released ev opt stgID gid spec) st))"

definition upsertReleasedGroups ::
    "(released_group \<Rightarrow> released_group \<Rightarrow> released_group) \<Rightarrow> env \<Rightarrow> publish_option \<Rightarrow> strategy
      \<Rightarrow> store \<Rightarrow> pub_err + store" where
  "upsertReleasedGroups upd ev opt stg st =
     (if o_All opt then
        let st1 = st\<lparr>Released := filter (\<lambda>r. \<not> (rg_BizID r = o_BizID opt \<and> rg_AppID r = o_AppID opt))
                     (Released st)\<rparr>
        in Inr (insert_released (mk_released ev opt (s_ID stg) 0 default_spec) st1)
      else case map_option Scope (Spec stg) of
        Some (Some groups) \<Rightarrow>
          if o_Default opt then
            let st1 = st\<lparr>Released := filter (\<lambda>r. \<not> (rg_BizID r = o_BizID opt \<and> rg_AppID r = o_AppID opt
                              \<and> rg_ReleaseID r = o_ReleaseID opt)) (Released st)\<rparr>;
                groupIDs = map g_ID groups;
                st2 = st1\<lparr>Released := filter (\<lambda>r. \<not> (rg_BizID r = o_BizID opt \<and> rg_AppID r = o_AppID opt
                              \<and> rg_GroupID r \<in> set groupIDs)) (Released st1)\<rparr>
            in upsert_groups upd ev opt (s_ID stg) [(0, Some default_spec)] st2
          else upsert_groups upd ev opt (s_ID stg) (map (\<lambda>g. (g_ID g, g_Spec g)) groups) st
      | _ \<Rightarrow> Inl (Tbl NilPointer))"

definition fire_publish :: "env \<Rightarrow> publish_option \<Rightarrow> store \<Rightarrow> store" where
  "fire_publish ev opt st =
     st\<lparr>Events := Events st @ [\<lparr>ev_ResourceID = o_ReleaseID opt, ev_BizID = o_BizID opt,
          ev_AppID = o_AppID opt, ev_Creator = User ev\<rparr>]\<rparr>"

definition UpsertPublishWithTx ::
    "(released_group \<Rightarrow> released_group \<Rightarrow> released_group) \<Rightarrow> env \<Rightarrow> publish_option \<Rightarrow> strategy
      \<Rightarrow> store \<Rightarrow> pub_err + store" where
  "UpsertPublishWithTx upd ev opt stg st =
     rbind (upsertReleasedGroups upd ev opt stg (updateReleasePublishInfo opt st)) (\<lambda>st1.
     Inr (fire_publish ev opt st1))"

definition submit ::
    "(released_group \<Rightarrow> released_group \<Rightarrow> released_group) \<Rightarrow> env \<Rightarrow> publish_option \<Rightarrow> group list
      \<Rightarrow> store \<Rightarrow> pub_err + nat \<times> store" where
  "submit upd ev opt groups st =
     (let stgID = next_strategy st;
          opt1 = (if o_PublishType opt = Immediately then opt\<lparr>o_PublishTime := now_datetime ev\<rparr> else opt);
          stg = genStrategy ev opt1 stgID groups
      in rbind (wrap_err Tbl (ValidateSubmitPublishContent (the (Spec stg)))) (\<lambda>_.
         let st1 = st\<lparr>Strategies := Strategies st @ [stg], next_strategy := stgID + 1\<rparr>
         in if o_PublishType opt1 = Immediately
            then rbind (UpsertPublishWithTx upd ev opt1 stg st1) (\<lambda>st2. Inr (stgID, st2))
            else Inr (stgID, st1)))"

definition SubmitWithTx ::
    "(released_group \<Rightarrow> released_group \<Rightarrow> released_group) \<Rightarrow> env \<Rightarrow> publish_option option
      \<Rightarrow> store \<Rightarrow> pub_err + nat \<times> store" where
  "SubmitWithTx upd ev opt st =
     (case opt of None \<Rightarrow> Inl NilOption
      | Some opt \<Rightarrow>
          rbind (wrap_err Tbl (PublishOption_Validate opt)) (\<lambda>_.
          rbind (validatePublishGroups st (o_Groups opt) opt) (\<lambda>opt.
          let groups = (if 0 < length (o_Groups opt)
                then filter (\<lambda>g. g_ID g \<in> set (o_Groups opt) \<and> g_BizID g = Some (o_BizID opt)) (Groups st)
                else [])
          in submit upd ev opt groups st)))"

section \<open>What the feed server is given\<close>

text \<open>
  \<open>pkg/protocol/core/released-group/convert.go\<close> and the query of \<open>internal/dal/dao/released_group.go\<close>:
  the rows of an application as cached groups.
\<close>

definition CacheReleasedGroup :: "released_group \<Rightarrow> rgroup" where
  "CacheReleasedGroup s =
     \<lparr>GroupID = rg_GroupID s, RReleaseID = rg_ReleaseID s, StrategyID = rg_StrategyID s,
      RMode = rg_Mode s, RSelector = rg_Selector s, RUID = rg_UID s, UpdatedAt = rg_UpdatedAt s\<rparr>"

definition CacheReleasedGroups :: "released_group list \<Rightarrow> rgroup list" where
  "CacheReleasedGroups s = map CacheReleasedGroup s"

definition ListAllByAppID :: "nat \<Rightarrow> nat \<Rightarrow> store \<Rightarrow> tbl_err + released_group list" where
  "ListAllByAppID appID bizID st =
     rbind (ensure (bizID \<noteq> 0) (InvalidID ''biz'')) (\<lambda>_.
     rbind (ensure (appID \<noteq> 0) (InvalidID ''app'')) (\<lambda>_.
     Inr (filter (\<lambda>r. rg_BizID r = bizID \<and> rg_AppID r = appID) (Released st))))"

section \<open>The invariant of the released groups\<close>

text \<open>Each application has at most one row for a group, and the ids are below the next id.\<close>

definition released_inv :: "store \<Rightarrow> bool" where
  "released_inv st \<longleftrightarrow> distinct (map rg_key (Released st)) \<and> distinct (map rg_ID (Released st))
     \<and> (\<forall>r \<in> set (Released st). rg_ID r < next_released st)"

lemma updates_struct_key:
  "updates_struct upd \<Longrightarrow> rg_key r = rg_key new \<Longrightarrow> rg_key (upd new r) = rg_key r"
  by (auto simp: updates_struct_def rg_key_def or_keep_def)

lemma updates_struct_id: "updates_struct upd \<Longrightarrow> rg_ID (upd new r) = rg_ID r"
  by (simp add: updates_struct_def)

lemma rg_key_set_id [simp]: "rg_key (r\<lparr>rg_ID := i\<rparr>) = rg_key r"
  by (simp add: rg_key_def)

lemma distinct_key_count:
  "distinct (map f xs) \<Longrightarrow> length (filter (\<lambda>x. f x = k) xs) = (if k \<in> f ` set xs then 1 else 0)"
  by (induction xs) (auto simp: filter_empty_conv)

lemma upsert_one_keys:
  assumes "updates_struct upd" "released_inv st"
  shows "map rg_key (Released (upsert_one upd rg st)) =
     map rg_key (Released st) @ (if rg_key rg \<in> rg_key ` set (Released st) then [] else [rg_key rg])"
  using assms distinct_key_count [of rg_key "Released st" "rg_key rg"]
  by (auto simp: upsert_one_def Let_def insert_released_def released_inv_def updates_struct_key
      intro!: map_cong)

lemma upsert_one_inv:
  assumes "updates_struct upd" "released_inv st"
  shows "released_inv (upsert_one upd rg st)"
proof -
  let ?m = "map (\<lambda>r. if rg_key r = rg_key rg then upd rg r else r) (Released st)"
  have ids: "map rg_ID ?m = map rg_ID (Released st)"
    using updates_struct_id [OF assms(1)] by auto
  then have mem: "\<forall>r \<in> set ?m. rg_ID r < next_released st"
    using assms(2) by (auto simp: released_inv_def updates_struct_id [OF assms(1)])
  have keys: "distinct (map rg_key (Released (upsert_one upd rg st)))"
    unfolding upsert_one_keys [OF assms] using assms(2) by (auto simp: released_inv_def)
  have nid: "next_released st \<notin> rg_ID ` set ?m" using mem by fastforce
  have did: "distinct (map rg_ID ?m)" unfolding ids using assms(2) by (simp add: released_inv_def)
  show ?thesis
  proof (cases "length (filter (\<lambda>r. rg_key r = rg_key rg) (Released st)) = 1")
    case True
    then show ?thesis using keys did mem by (simp add: released_inv_def upsert_one_def)
  next
    case False
    then have "Released (upsert_one upd rg st) = ?m @ [rg\<lparr>rg_ID := next_released st\<rparr>]"
      "next_released (upsert_one upd rg st) = next_released st + 1"
      by (simp_all add: upsert_one_def insert_released_def)
    then show ?thesis using keys did mem nid by (auto simp: released_inv_def less_SucI)
  qed
qed

text \<open>The row of the group after \<open>upsert_one\<close>, and the rows of other groups.\<close>

lemma upsert_one_other:
  "rg_key r \<noteq> rg_key rg \<Longrightarrow> r \<in> set (Released (upsert_one upd rg st)) \<Longrightarrow> updates_struct upd \<Longrightarrow>
     r \<in> set (Released st)"
  by (auto simp: upsert_one_def Let_def insert_released_def updates_struct_key split: if_splits)

lemma upsert_one_keeps:
  "rg_key r \<noteq> rg_key rg \<Longrightarrow> r \<in> set (Released st) \<Longrightarrow> r \<in> set (Released (upsert_one upd rg st))"
  by (auto simp: upsert_one_def Let_def insert_released_def image_iff intro!: bexI [of _ r])

lemma upsert_one_row:
  assumes "updates_struct upd" "released_inv st" "rg_ReleaseID rg \<noteq> 0"
  shows "\<exists>r \<in> set (Released (upsert_one upd rg st)). rg_key r = rg_key rg \<and> rg_ReleaseID r = rg_ReleaseID rg"
proof (cases "rg_key rg \<in> rg_key ` set (Released st)")
  case True
  then obtain r where r: "r \<in> set (Released st)" "rg_key r = rg_key rg" by auto
  then have "upd rg r \<in> set (Released (upsert_one upd rg st))"
    by (auto simp: upsert_one_def Let_def insert_released_def image_iff intro!: bexI [of _ r])
  moreover have "rg_ReleaseID (upd rg r) = rg_ReleaseID rg"
    using assms(1,3) by (simp add: updates_struct_def or_keep_def)
  ultimately show ?thesis using r updates_struct_key [OF assms(1) r(2)] by auto
next
  case False
  then have "length (filter (\<lambda>r. rg_key r = rg_key rg) (Released st)) = 0"
    by (auto simp: filter_empty_conv image_iff)
  then show ?thesis
    by (auto simp: upsert_one_def insert_released_def)
qed

lemma released_inv_unique:
  "released_inv st \<Longrightarrow> r \<in> set (Released st) \<Longrightarrow> r' \<in> set (Released st) \<Longrightarrow> rg_key r = rg_key r' \<Longrightarrow> r = r'"
  by (auto simp: released_inv_def distinct_map inj_on_def)

lemma released_inv_filter: "released_inv st \<Longrightarrow> released_inv (st\<lparr>Released := filter P (Released st)\<rparr>)"
  by (auto simp: released_inv_def distinct_map_filter)

lemma released_inv_insert:
  "released_inv st \<Longrightarrow> rg_key rg \<notin> rg_key ` set (Released st) \<Longrightarrow> released_inv (insert_released rg st)"
  by (fastforce simp: released_inv_def insert_released_def less_SucI)

lemma mk_released_key [simp]: "rg_key (mk_released ev opt sid gid spec) = (o_BizID opt, o_AppID opt, gid)"
  by (simp add: mk_released_def rg_key_def)

lemma mk_released_release [simp]: "rg_ReleaseID (mk_released ev opt sid gid spec) = o_ReleaseID opt"
  by (simp add: mk_released_def)

lemma upsert_groups_inv:
  "updates_struct upd \<Longrightarrow> released_inv st \<Longrightarrow> upsert_groups upd ev opt sid gs st = Inr st' \<Longrightarrow> released_inv st'"
proof (induction upd ev opt sid gs st rule: upsert_groups.induct)
  case (2 upd ev opt sid gid gspec gs st)
  then show ?case
    by (cases gspec) (auto dest: upsert_one_inv)
qed simp

lemma upsert_groups_other:
  "updates_struct upd \<Longrightarrow> upsert_groups upd ev opt sid gs st = Inr st' \<Longrightarrow>
     rg_key r \<notin> (\<lambda>g. (o_BizID opt, o_AppID opt, fst g)) ` set gs \<Longrightarrow>
     r \<in> set (Released st') \<longleftrightarrow> r \<in> set (Released st)"
proof (induction upd ev opt sid gs st rule: upsert_groups.induct)
  case (2 upd ev opt sid gid gspec gs st)
  then obtain spec where spec: "gspec = Some spec" by (cases gspec) auto
  let ?rg = "mk_released ev opt sid gid spec"
  have ne: "rg_key r \<noteq> rg_key ?rg" using 2(4) by auto
  have "r \<in> set (Released st') \<longleftrightarrow> r \<in> set (Released (upsert_one upd ?rg st))"
    using 2 spec by auto
  also have "\<dots> \<longleftrightarrow> r \<in> set (Released st)"
    using upsert_one_other [OF ne _ 2(2)] upsert_one_keeps [OF ne] by blast
  finally show ?case .
qed simp

lemma upsert_groups_row:
  "updates_struct upd \<Longrightarrow> released_inv st \<Longrightarrow> upsert_groups upd ev opt sid gs st = Inr st' \<Longrightarrow>
     o_ReleaseID opt \<noteq> 0 \<Longrightarrow> g \<in> set gs \<Longrightarrow>
     \<exists>r \<in> set (Released st'). rg_key r = (o_BizID opt, o_AppID opt, fst g) \<and> rg_ReleaseID r = o_ReleaseID opt"
proof (induction upd ev opt sid gs st arbitrary: g rule: upsert_groups.induct)
  case (2 upd ev opt sid gid gspec gs st)
  then obtain spec where spec: "gspec = Some spec" by (cases gspec) auto
  let ?rg = "mk_released ev opt sid gid spec"
  let ?st = "upsert_one upd ?rg st"
  have rest: "upsert_groups upd ev opt sid gs ?st = Inr st'" using 2(4) spec by simp
  have inv: "released_inv ?st" using upsert_one_inv 2(2,3) by blast
  show ?case
  proof (cases "\<exists>h \<in> set gs. fst h = fst g")
    case True
    then obtain h where "h \<in> set gs" "fst h = fst g" by blast
    with 2(1) [OF spec 2(2) inv rest 2(5)] show ?thesis by metis
  next
    case False
    then have g: "g = (gid, gspec)" using 2(6) by auto
    obtain r where r: "r \<in> set (Released ?st)" "rg_key r = (o_BizID opt, o_AppID opt, gid)"
      "rg_ReleaseID r = o_ReleaseID opt"
      using upsert_one_row [OF 2(2,3), of ?rg] 2(5) by auto
    then have "r \<in> set (Released st')"
      using upsert_groups_other [OF 2(2) rest, of r] False g by force
    with r g show ?thesis by auto
  qed
qed simp

section \<open>Properties\<close>

text \<open>
  Publishing keeps the table of released groups consistent: an application never has two rows
  for the same group, whatever the option and the strategy, and the ids stay distinct.
\<close>

lemma UpsertPublish_released_inv:
  assumes "updates_struct upd" "released_inv st" "UpsertPublishWithTx upd ev opt stg st = Inr st'"
  shows "released_inv st'"
proof -
  let ?s = "updateReleasePublishInfo opt st"
  have inv: "released_inv ?s"
    using assms(2) by (simp add: released_inv_def updateReleasePublishInfo_def)
  obtain s1 where s1: "upsertReleasedGroups upd ev opt stg ?s = Inr s1" and st': "st' = fire_publish ev opt s1"
    using assms(3) by (auto simp: UpsertPublishWithTx_def res_simps)
  have "released_inv s1"
  proof (cases "o_All opt")
    case True
    then have "s1 = insert_released (mk_released ev opt (s_ID stg) 0 default_spec)
        (?s\<lparr>Released := filter (\<lambda>r. \<not> (rg_BizID r = o_BizID opt \<and> rg_AppID r = o_AppID opt)) (Released ?s)\<rparr>)"
      using s1 by (simp add: upsertReleasedGroups_def)
    then show ?thesis
      by (auto intro!: released_inv_insert released_inv_filter inv) (auto simp: rg_key_def)
  next
    case False
    then obtain groups where g: "map_option Scope (Spec stg) = Some (Some groups)"
      using s1 by (auto simp: upsertReleasedGroups_def split: option.splits)
    show ?thesis
    proof (cases "o_Default opt")
      case True
      then have "\<exists>s2 gs. upsert_groups upd ev opt (s_ID stg) gs s2 = Inr s1 \<and> released_inv s2"
        using s1 False g inv unfolding upsertReleasedGroups_def Let_def
        by (intro exI conjI, simp only: if_False if_True g option.case)
          (simp_all add: released_inv_def distinct_map_filter)
      then show ?thesis using upsert_groups_inv [OF assms(1)] by blast
    next
      case d: False
      then show ?thesis
        using s1 False g inv by (auto simp: upsertReleasedGroups_def intro: upsert_groups_inv [OF assms(1)])
    qed
  qed
  then show ?thesis by (simp add: st' fire_publish_def released_inv_def)
qed

definition opt_ex :: publish_option where
  "opt_ex = \<lparr>o_BizID = 2, o_AppID = 3, o_ReleaseID = 7, o_Memo = [], o_All = False, o_Default = False,
     o_Groups = [5], o_Revision = Some \<lparr>cr_Creator = ''u'', cr_CreatedAt = 0\<rparr>, o_PublishType = Immediately,
     o_PublishTime = [], o_PublishStatus = AlreadyPublish, o_RejectReason = [], o_Approver = [],
     o_ApproverProgress = [], o_PubState = Publishing, o_ApproveType = []\<rparr>"

definition group_ex :: group where
  "group_ex = \<lparr>g_ID = 5, g_Spec = Some \<lparr>g_Name = ''g'', Public = True, Mode = GroupModeDebug,
     GSelector = None, g_UID = ''u1''\<rparr>, g_BizID = Some 2, g_Revision = None\<rparr>"

definition row_ex :: "nat \<Rightarrow> nat \<Rightarrow> nat \<Rightarrow> nat \<Rightarrow> released_group" where
  "row_ex i a g r = \<lparr>rg_ID = i, rg_GroupID = g, rg_AppID = a, rg_ReleaseID = r, rg_StrategyID = 1,
     rg_Mode = GroupModeDebug, rg_Selector = None, rg_UID = ''u1'', rg_Edited = True, rg_BizID = 2,
     rg_Reviser = ''u'', rg_UpdatedAt = 1\<rparr>"

definition store_ex :: store where
  "store_ex = \<lparr>Groups = [group_ex], Binds = [], Strategies = [], Released = [row_ex 1 3 5 6, row_ex 2 4 5 6],
     Releases = [\<lparr>r_ID = 7, r_Name = ''v7'', r_BizID = 2, r_AppID = 3, r_Deprecated = False,
       PublishNum = 0, FullyReleased = False\<rparr>],
     Events = [], next_group = 9, next_released = 3, next_strategy = 1\<rparr>"

definition env_ex :: env where
  "env_ex = \<lparr>User = ''u'', now = 100, now_rfc3339 = ''t'', now_datetime = ''2024-01-01 10:00:00''\<rparr>"

lemma store_ex_inv: "released_inv store_ex"
  by (simp add: released_inv_def store_ex_def row_ex_def rg_key_def)

text \<open>
  C32: A gray publish points exactly the groups of its scope at the release: each has one row, with
  this release, and the rows of all other groups and applications are as before.
\<close>

theorem gray_publish_rows:
  assumes "updates_struct upd" "released_inv st"
    and "UpsertPublishWithTx upd ev opt stg st = Inr st'"
    and "\<not> o_All opt" "\<not> o_Default opt" "o_ReleaseID opt \<noteq> 0"
    and "map_option Scope (Spec stg) = Some (Some groups)"
  shows "(\<forall>g \<in> set groups. \<exists>!r. r \<in> set (Released st') \<and> rg_key r = (o_BizID opt, o_AppID opt, g_ID g))
    \<and> (\<forall>r \<in> set (Released st'). rg_key r \<in> (\<lambda>g. (o_BizID opt, o_AppID opt, g_ID g)) ` set groups \<longrightarrow>
         rg_ReleaseID r = o_ReleaseID opt)
    \<and> (\<forall>r. rg_key r \<notin> (\<lambda>g. (o_BizID opt, o_AppID opt, g_ID g)) ` set groups \<longrightarrow>
         r \<in> set (Released st') \<longleftrightarrow> r \<in> set (Released st))"
proof -
  let ?s = "updateReleasePublishInfo opt st" and ?gs = "map (\<lambda>g. (g_ID g, g_Spec g)) groups"
  have inv: "released_inv ?s"
    using assms(2) by (simp add: released_inv_def updateReleasePublishInfo_def)
  obtain s1 where s1: "upsert_groups upd ev opt (s_ID stg) ?gs ?s = Inr s1" and st': "st' = fire_publish ev opt s1"
    using assms by (auto simp: UpsertPublishWithTx_def upsertReleasedGroups_def res_simps)
  have rel: "Released st' = Released s1" by (simp add: st' fire_publish_def)
  have inv1: "released_inv s1" by (rule upsert_groups_inv [OF assms(1) inv s1])
  have row: "\<exists>r \<in> set (Released st'). rg_key r = (o_BizID opt, o_AppID opt, g_ID g) \<and> rg_ReleaseID r = o_ReleaseID opt"
    if "g \<in> set groups" for g
    using upsert_groups_row [OF assms(1) inv s1 assms(6), of "(g_ID g, g_Spec g)"] that rel by auto
  have uniq: "r = r'" if "r \<in> set (Released st')" "r' \<in> set (Released st')" "rg_key r = rg_key r'" for r r'
    using released_inv_unique [OF inv1] that rel by simp
  have "r \<in> set (Released st') \<longleftrightarrow> r \<in> set (Released st)"
    if "rg_key r \<notin> (\<lambda>g. (o_BizID opt, o_AppID opt, g_ID g)) ` set groups" for r
    using upsert_groups_other [OF assms(1) s1, of r] that rel
    by (simp add: updateReleasePublishInfo_def image_image)
  moreover have "\<exists>!r. r \<in> set (Released st') \<and> rg_key r = (o_BizID opt, o_AppID opt, g_ID g)"
    if "g \<in> set groups" for g
    using row [OF that] uniq by metis
  moreover have "rg_ReleaseID r = o_ReleaseID opt"
    if r: "r \<in> set (Released st')" "rg_key r \<in> (\<lambda>g. (o_BizID opt, o_AppID opt, g_ID g)) ` set groups" for r
  proof -
    obtain g where "g \<in> set groups" "rg_key r = (o_BizID opt, o_AppID opt, g_ID g)" using r(2) by auto
    then show ?thesis using row [of g] uniq [OF r(1)] by metis
  qed
  ultimately show ?thesis by (intro conjI ballI allI impI) simp_all
qed

theorem gray_publish_rows_witness:
  "\<exists>st'. UpsertPublishWithTx gorm_updates env_ex opt_ex (genStrategy env_ex opt_ex 1 [group_ex]) store_ex
      = Inr st' \<and> (\<exists>r \<in> set (Released st'). rg_key r = (2, 3, 5) \<and> rg_ReleaseID r = 7)"
proof -
  obtain st' where st': "UpsertPublishWithTx gorm_updates env_ex opt_ex (genStrategy env_ex opt_ex 1 [group_ex]) store_ex
      = Inr st'"
    by (simp add: UpsertPublishWithTx_def upsertReleasedGroups_def genStrategy_def opt_ex_def group_ex_def)
  have sc: "map_option Scope (Spec (genStrategy env_ex opt_ex 1 [group_ex])) = Some (Some [group_ex])"
    by (simp add: genStrategy_def opt_ex_def)
  have o: "\<not> o_All opt_ex" "\<not> o_Default opt_ex" "o_ReleaseID opt_ex \<noteq> 0" "o_BizID opt_ex = 2"
    "o_AppID opt_ex = 3" "o_ReleaseID opt_ex = 7" "g_ID group_ex = 5"
    by (simp_all add: opt_ex_def group_ex_def)
  show ?thesis
    using gray_publish_rows [OF gorm_updates_struct store_ex_inv st' o(1-3) sc] st' o(4-7) by force
qed

text \<open>
  C33: After a full publish of a release, every instance of the application gets that release,
  whatever its uid and labels and whatever was released before.
\<close>

theorem full_publish_serves_all:
  assumes "UpsertPublishWithTx upd ev opt stg st = Inr st'" "o_All opt"
    and "ListAllByAppID (o_AppID opt) (o_BizID opt) st' = Inr rows"
    and "mset (ord (CacheReleasedGroups rows)) = mset (CacheReleasedGroups rows)"
  shows "\<exists>m. matchReleasedGroupWithLabels ord rx (CacheReleasedGroups rows) meta = Inr m
    \<and> m_ReleaseID m = o_ReleaseID opt"
proof -
  let ?rg = "(mk_released ev opt (s_ID stg) 0 default_spec)\<lparr>rg_ID := next_released st\<rparr>"
  have "Released st' = filter (\<lambda>r. \<not> (rg_BizID r = o_BizID opt \<and> rg_AppID r = o_AppID opt)) (Released st) @ [?rg]"
    using assms(1,2) by (auto simp: UpsertPublishWithTx_def upsertReleasedGroups_def Let_def
        insert_released_def fire_publish_def updateReleasePublishInfo_def)
  then have "rows = [?rg]"
    using assms(3) by (auto simp: ListAllByAppID_def mk_released_def res_simps filter_empty_conv)
  then have "ord (CacheReleasedGroups rows) = [CacheReleasedGroup ?rg]"
    using assms(4) mset_eq_length [OF assms(4)] mset_eq_setD [OF assms(4)]
    by (cases "ord (CacheReleasedGroups rows)") (auto simp: CacheReleasedGroups_def)
  then show ?thesis
    by (simp add: matchReleasedGroupWithLabels_def CacheReleasedGroup_def mk_released_def
        default_spec_def meta_of_def)
qed

theorem full_publish_serves_all_witness:
  "\<exists>st' rows m. UpsertPublishWithTx gorm_updates env_ex (opt_ex\<lparr>o_All := True\<rparr>)
      (genStrategy env_ex opt_ex 1 []) store_ex = Inr st'
    \<and> ListAllByAppID 3 2 st' = Inr rows
    \<and> matchReleasedGroupWithLabels sort_updated Map.empty (CacheReleasedGroups rows)
         \<lparr>Uid = ''u9'', Labels = []\<rparr> = Inr m \<and> m_ReleaseID m = 7"
proof -
  let ?opt = "opt_ex\<lparr>o_All := True\<rparr>"
  obtain st' where st': "UpsertPublishWithTx gorm_updates env_ex ?opt (genStrategy env_ex opt_ex 1 []) store_ex
      = Inr st'"
    by (simp add: UpsertPublishWithTx_def upsertReleasedGroups_def)
  have o: "o_All ?opt" "o_AppID ?opt = 3" "o_BizID ?opt = 2" "o_ReleaseID ?opt = 7" by (simp_all add: opt_ex_def)
  obtain rows where rows: "ListAllByAppID (o_AppID ?opt) (o_BizID ?opt) st' = Inr rows"
    by (simp add: ListAllByAppID_def o res_simps)
  have "\<exists>m. matchReleasedGroupWithLabels sort_updated Map.empty (CacheReleasedGroups rows)
      \<lparr>Uid = ''u9'', Labels = []\<rparr> = Inr m \<and> m_ReleaseID m = o_ReleaseID ?opt"
    by (rule full_publish_serves_all [OF st' o(1) rows, where ord = sort_updated]) (rule sort_updated_ok)
  then show ?thesis using st' rows unfolding o by blast
qed

text \<open>
  Publishing a group again does not clear the mark that the group was edited: the struct sets
  \<open>Edited\<close> to false, but a false value is not written.
\<close>

theorem republish_keeps_edited:
  assumes "updates_struct upd" "released_inv st"
    and "r \<in> set (Released st)" "rg_key r = (o_BizID opt, o_AppID opt, gid)"
    and "r' \<in> set (Released (upsert_one upd (mk_released ev opt sid gid spec) st))" "rg_key r' = rg_key r"
  shows "rg_Edited r' = rg_Edited r"
proof -
  let ?rg = "mk_released ev opt sid gid spec"
  have "length (filter (\<lambda>x. rg_key x = rg_key ?rg) (Released st)) = 1"
    using assms(2-4) distinct_key_count [of rg_key "Released st" "rg_key ?rg"]
    by (force simp: released_inv_def image_iff)
  then have "Released (upsert_one upd ?rg st)
      = map (\<lambda>x. if rg_key x = rg_key ?rg then upd ?rg x else x) (Released st)"
    by (simp add: upsert_one_def)
  then obtain x where x: "x \<in> set (Released st)" "r' = (if rg_key x = rg_key ?rg then upd ?rg x else x)"
    using assms(5) by auto
  then have "rg_key x = rg_key r"
    using assms(1,4,6) updates_struct_key [OF assms(1), of x ?rg] by (auto split: if_splits)
  then have "x = r" "r' = upd ?rg r"
    using released_inv_unique [OF assms(2) x(1) assms(3)] x(2) assms(4) by auto
  then show ?thesis
    using assms(1) by (simp add: updates_struct_def or_keep_def mk_released_def)
qed

theorem republish_keeps_edited_witness:
  "\<exists>r' \<in> set (Released (upsert_one gorm_updates (mk_released env_ex opt_ex 1 5 default_spec) store_ex)).
     rg_key r' = (2, 3, 5) \<and> rg_Edited r'"
proof -
  let ?rg = "mk_released env_ex opt_ex 1 5 default_spec"
  have k: "rg_key (row_ex 1 3 5 6) = (o_BizID opt_ex, o_AppID opt_ex, 5)"
    by (simp add: rg_key_def row_ex_def opt_ex_def)
  have "\<exists>r' \<in> set (Released (upsert_one gorm_updates ?rg store_ex)). rg_key r' = rg_key ?rg
      \<and> rg_ReleaseID r' = rg_ReleaseID ?rg"
    by (rule upsert_one_row [OF gorm_updates_struct store_ex_inv]) (simp add: opt_ex_def)
  then obtain r' where r': "r' \<in> set (Released (upsert_one gorm_updates ?rg store_ex))"
    "rg_key r' = (o_BizID opt_ex, o_AppID opt_ex, 5)" by auto
  have "row_ex 1 3 5 6 \<in> set (Released store_ex)" by (simp add: store_ex_def)
  from republish_keeps_edited [OF gorm_updates_struct store_ex_inv this k r'(1)] r'(2) k
  have "rg_Edited r' = rg_Edited (row_ex 1 3 5 6)" by simp
  then have "rg_Edited r'" by (simp add: row_ex_def)
  then show ?thesis using r' by (auto simp: opt_ex_def)
qed

end
