(* ===== verification/Approval.thy ===== *)
theory Approval
  imports Publish
begin

text \<open>
  \<open>cmd/data-service/service/publish.go\<close>: submitting a release for publication, and the approval of
  the submission (approve, reject, revoke, publish) by the approvers on the web page or by the
  callback of the ticket service. The ticket service (ITSM) is a record of functions, a parameter
  of the handlers; so is the answer of the credential check, which only goes into the response.
  A handler runs in one transaction: it returns an error and leaves the store alone, or the store
  after the commit. Audit records are not modelled.
\<close>

section \<open>Requests\<close>

text \<open>\<open>OperateWay\<close> is empty on the internal path (callback, timer) and \<open>WebUI\<close> for the web page.\<close>

record kit =
  Env :: env
  OperateWay :: string
  TenantID :: string

definition WebUI :: string where "WebUI = ''WebUI''"
definition NameSeparator :: string where "NameSeparator = '', ''"

definition OrSign :: string where "OrSign = ''or_sign''"
definition CountSign :: string where "CountSign = ''count_sign''"

record app =
  a_ID :: nat
  a_BizID :: nat
  IsApprove :: bool
  a_Approver :: string
  a_ApproveType :: string

record approve_req =
  q_BizID :: nat
  q_AppID :: nat
  q_ReleaseID :: nat
  q_StrategyID :: nat
  q_PublishStatus :: publish_status
  q_Reason :: string
  q_ApprovedBy :: "string list"

record submit_req =
  sq_BizID :: nat
  sq_AppID :: nat
  sq_ReleaseID :: nat
  sq_Memo :: string
  sq_All :: bool
  sq_Mode :: publish_mode
  sq_Default :: bool
  sq_Groups :: "nat list"
  sq_Labels :: "element list option"
  sq_GroupName :: string
  sq_PublishType :: publish_type
  sq_PublishTime :: string

section \<open>The ticket service\<close>

record approve_result =
  ar_Result :: "bool option"
  RejectUsers :: "string list"
  PassUsers :: "string list"
  Reasons :: "string list"

record approval_ticket =
  t_TicketID :: string
  t_StateId :: string
  t_Approver :: string
  t_Operator :: string
  t_Action :: string
  t_ActionType :: string
  t_Desc :: string
  t_TaskID :: string

record ticket_data =
  TicketURL :: string
  SN :: string
  StateID :: string
  CallbackToken :: string

record itsm =
  GetTicketStatus :: "string \<Rightarrow> string + string"
  GetApproveResult :: "string \<Rightarrow> string \<Rightarrow> string \<Rightarrow> string + approve_result"
  RevokedTicket :: "approval_ticket \<Rightarrow> string + unit"
  ApprovalTicket :: "approval_ticket \<Rightarrow> string + unit"
  CreateTicket :: "app \<Rightarrow> nat \<Rightarrow> string \<Rightarrow> string + ticket_data"
  EnableV4 :: bool
  GetConfig :: "string \<Rightarrow> string + string"
  UnmarshalTasks :: "string \<Rightarrow> (string, string) gomap option"

definition tenantConfigPrefix :: "string \<Rightarrow> string" where
  "tenantConfigPrefix tenantID = (if tenantID = [] \<or> tenantID = ''default'' then [] else tenantID @ ''-'')"

definition BuildStateIDKey :: "string \<Rightarrow> string \<Rightarrow> string" where
  "BuildStateIDKey tenantID approveType =
     (if approveType = CountSign then tenantConfigPrefix tenantID @ ''create_count_sign_approve_itsm_state_id''
      else tenantConfigPrefix tenantID @ ''create_or_sign_approve_itsm_state_id'')"

definition BuildWorkflowIDKey :: "string \<Rightarrow> string" where
  "BuildWorkflowIDKey tenantID = tenantConfigPrefix tenantID @ ''create_approve_itsm_workflow_id''"

section \<open>Updates of a strategy\<close>

text \<open>The map of updated columns; \<open>None\<close> for a key that is not in the map.\<close>

record updates =
  u_status :: publish_status
  u_reason :: "string option"
  u_progress :: "string option"
  u_ticket_status :: "string option"
  u_pub_state :: "publish_state option"

definition or_old :: "'a option \<Rightarrow> 'a \<Rightarrow> 'a" where
  "or_old new old = (case new of None \<Rightarrow> old | Some x \<Rightarrow> x)"

definition apply_updates :: "kit \<Rightarrow> updates \<Rightarrow> strategy \<Rightarrow> strategy" where
  "apply_updates k u s =
     s\<lparr>Spec := map_option (\<lambda>p. p\<lparr>PublishStatus := u_status u,
           RejectReason := or_old (u_reason u) (RejectReason p),
           ApproverProgress := or_old (u_progress u) (ApproverProgress p),
           ItsmTicketStatus := or_old (u_ticket_status u) (ItsmTicketStatus p),
           FinalApprovalTime := now (Env k)\<rparr>) (Spec s),
       State := (case u_pub_state u of None \<Rightarrow> State s | Some x \<Rightarrow> Some x),
       s_Revision := map_option (\<lambda>r. r\<lparr>Reviser := User (Env k), RevUpdatedAt := now (Env k)\<rparr>) (s_Revision s)\<rparr>"

definition UpdateByID :: "nat \<Rightarrow> (strategy \<Rightarrow> strategy) \<Rightarrow> store \<Rightarrow> store" where
  "UpdateByID sid f st = st\<lparr>Strategies := map (\<lambda>s. if s_ID s = sid then f s else s) (Strategies st)\<rparr>"

text \<open>\<open>Last\<close> orders by the primary key: the row of the greatest id.\<close>

definition last_by_id :: "strategy list \<Rightarrow> strategy option" where
  "last_by_id ss = fold (\<lambda>s acc. case acc of None \<Rightarrow> Some s
     | Some t \<Rightarrow> if s_ID t \<le> s_ID s then Some s else Some t) ss None"

text \<open>
  \<open>GetLast\<close> drops the results of its later \<open>Where\<close> calls; gorm has added their conditions to the
  statement they share with the first one.
\<close>

definition GetLast :: "nat \<Rightarrow> nat \<Rightarrow> nat \<Rightarrow> nat \<Rightarrow> store \<Rightarrow> strategy option" where
  "GetLast bizID appID releasedID strategyID st =
     last_by_id (filter (\<lambda>s.
       (case Attachment s of None \<Rightarrow> False | Some a \<Rightarrow> sa_BizID a = bizID \<and> sa_AppID a = appID)
       \<and> (releasedID \<noteq> 0 \<longrightarrow> (case Spec s of None \<Rightarrow> False | Some p \<Rightarrow> ReleaseID p = releasedID))
       \<and> (strategyID \<noteq> 0 \<longrightarrow> s_ID s = strategyID)) (Strategies st))"

definition get_release :: "nat \<Rightarrow> nat \<Rightarrow> nat \<Rightarrow> store \<Rightarrow> release_row option" where
  "get_release bizID appID rid st =
     find (\<lambda>r. r_ID r = rid \<and> r_BizID r = bizID \<and> r_AppID r = appID) (Releases st)"

section \<open>The four decisions\<close>

definition revokeApprove :: "approve_req \<Rightarrow> strategy_spec \<Rightarrow> string \<Rightarrow> pub_err + updates" where
  "revokeApprove req spec creator =
     (if PublishStatus spec \<noteq> PendingPublish \<and> PublishStatus spec \<noteq> PendingApproval
      then Inl (NotAllowed (PublishStatus spec))
      else Inr \<lparr>u_status = RevokedPublish, u_reason = Some (q_Reason req), u_progress = Some creator,
        u_ticket_status = Some ''revoked'', u_pub_state = None\<rparr>)"

text \<open>The loop over the approvers: it stops at the user of the request only.\<close>

fun find_rejector :: "string \<Rightarrow> string list \<Rightarrow> string list \<Rightarrow> string \<Rightarrow> string" where
  "find_rejector user approvedBy [] rejector = rejector"
| "find_rejector user approvedBy (v # vs) rejector =
     (if v = user then v
      else find_rejector user approvedBy vs (if v \<in> set approvedBy then v else rejector))"

definition rejectApprove :: "kit \<Rightarrow> approve_req \<Rightarrow> strategy_spec \<Rightarrow> pub_err + updates" where
  "rejectApprove k req spec =
     (if PublishStatus spec \<noteq> PendingApproval then Inl (NotAllowed (PublishStatus spec))
      else if q_Reason req = [] then Inl ReasonEmpty
      else let rejector = find_rejector (User (Env k)) (q_ApprovedBy req)
                 (splitOn CHR '','' (ApproverProgress spec)) []
           in if rejector = [] then Inl NoPermission
              else Inr \<lparr>u_status = RejectedApproval, u_reason = Some (q_Reason req),
                u_progress = Some rejector, u_ticket_status = Some ''rejected'', u_pub_state = None\<rparr>)"

text \<open>The option that \<open>passApprove\<close> and \<open>publishApprove\<close> publish with; \<open>Default\<close> is not set in it.\<close>

definition approve_opt :: "approve_req \<Rightarrow> group list \<Rightarrow> publish_option" where
  "approve_opt req groups =
     \<lparr>o_BizID = q_BizID req, o_AppID = q_AppID req, o_ReleaseID = q_ReleaseID req, o_Memo = [],
      o_All = (length groups = 0), o_Default = False, o_Groups = [], o_Revision = None,
      o_PublishType = OtherType [], o_PublishTime = [], o_PublishStatus = OtherStatus [],
      o_RejectReason = [], o_Approver = [], o_ApproverProgress = [], o_PubState = OtherState [],
      o_ApproveType = []\<rparr>"

type_synonym upd_fun = "released_group \<Rightarrow> released_group \<Rightarrow> released_group"

definition publish_strategy ::
    "upd_fun \<Rightarrow> kit \<Rightarrow> approve_req \<Rightarrow> strategy \<Rightarrow> store \<Rightarrow> pub_err + store" where
  "publish_strategy upd k req stg st =
     (case map_option Scope (Spec stg) of
        Some (Some groups) \<Rightarrow> UpsertPublishWithTx upd (Env k) (approve_opt req groups) stg st
      | _ \<Rightarrow> Inl (Tbl NilPointer))"

text \<open>The approvers that have not passed yet, and the new status and progress of the strategy.\<close>

definition new_progress :: "kit \<Rightarrow> approve_req \<Rightarrow> strategy_spec \<Rightarrow> string list" where
  "new_progress k req spec =
     filter (\<lambda>v. \<not> (v \<in> set (q_ApprovedBy req) \<or> v = User (Env k))) (splitOn CHR '','' (ApproverProgress spec))"

definition pass_status :: "kit \<Rightarrow> approve_req \<Rightarrow> strategy_spec \<Rightarrow> publish_status \<times> string \<times> string option" where
  "pass_status k req spec =
     (if ApproveType spec = OrSign \<or> Approver spec = User (Env k)
      then (PendingPublish, User (Env k), Some ''passed'')
      else if length (new_progress k req spec) = 0 \<or> OperateWay k = []
      then (PendingPublish, Approver spec, Some ''passed'')
      else (PendingApproval, joinWith NameSeparator (new_progress k req spec), None))"

definition passApprove ::
    "upd_fun \<Rightarrow> kit \<Rightarrow> approve_req \<Rightarrow> strategy \<Rightarrow> strategy_spec \<Rightarrow> store \<Rightarrow> pub_err + updates \<times> store" where
  "passApprove upd k req stg spec st =
     (if PublishStatus spec \<noteq> PendingApproval then Inl (NotAllowed (PublishStatus spec))
      else let isApprover = User (Env k) \<in> set (splitOn CHR '','' (ApproverProgress spec))
      in if \<not> isApprover \<and> OperateWay k = WebUI then Inl NoPermission
      else let (status, progress, ticket) = pass_status k req spec;
               u = \<lparr>u_status = status, u_reason = None, u_progress = Some progress,
                    u_ticket_status = ticket, u_pub_state = None\<rparr>
      in if status = PendingPublish \<and> PublishType spec = Automatically
         then rbind (publish_strategy upd k req stg st) (\<lambda>st1. Inr (u\<lparr>u_status := AlreadyPublish\<rparr>, st1))
         else Inr (u, st))"

definition publishApprove ::
    "upd_fun \<Rightarrow> kit \<Rightarrow> approve_req \<Rightarrow> strategy \<Rightarrow> strategy_spec \<Rightarrow> store \<Rightarrow> pub_err + updates \<times> store" where
  "publishApprove upd k req stg spec st =
     (if PublishStatus spec \<noteq> PendingPublish then Inl (NotAllowed (PublishStatus spec))
      else rbind (publish_strategy upd k req stg st) (\<lambda>st1.
        Inr (\<lparr>u_status = AlreadyPublish, u_reason = None, u_progress = None, u_ticket_status = None,
              u_pub_state = Some Publishing\<rparr>, st1)))"

section \<open>The state of the ticket\<close>

text \<open>
  Both functions may rewrite the request, and \<open>handleRunningStatus\<close> the user of the kit. The
  message is not empty when the ticket needs no further processing.
\<close>

definition handleRunningStatus ::
    "itsm \<Rightarrow> kit \<Rightarrow> string \<Rightarrow> string \<Rightarrow> string \<Rightarrow> approve_req \<Rightarrow> pub_err + approve_req \<times> string \<times> kit" where
  "handleRunningStatus it k sn stateID activityKey req =
     (if OperateWay k = WebUI \<and> q_PublishStatus req = RevokedPublish then Inr (req, [], k)
      else rbind (wrap_err Ext (GetApproveResult it sn stateID activityKey)) (\<lambda>ar.
        if ar_Result ar = Some False then
          Inr (req\<lparr>q_PublishStatus := RejectedApproval, q_ApprovedBy := RejectUsers ar,
                   q_Reason := joinWith '','' (Reasons ar)\<rparr>, ''rejected'', k)
        else if ar_Result ar = Some True then
          (if OperateWay k = WebUI \<and> q_PublishStatus req = RejectedApproval then Inr (req, [], k)
           else let req1 = req\<lparr>q_PublishStatus := PendingPublish, q_ApprovedBy := PassUsers ar\<rparr>
                in case find (\<lambda>u. u = User (Env k) \<or> OperateWay k \<noteq> WebUI) (PassUsers ar) of
                     Some u \<Rightarrow> Inr (req1, ''approved'', k\<lparr>Env := (Env k)\<lparr>User := u\<rparr>\<rparr>)
                   | None \<Rightarrow> Inr (req1, [], k))
        else Inr (req, [], k)))"

definition handleTicketStatus ::
    "itsm \<Rightarrow> kit \<Rightarrow> string \<Rightarrow> string \<Rightarrow> string \<Rightarrow> approve_req \<Rightarrow> pub_err + approve_req \<times> string \<times> kit" where
  "handleTicketStatus it k sn stateID activityKey req =
     (if q_PublishStatus req = AlreadyPublish then Inr (req, [], k)
      else rbind (wrap_err Ext (GetTicketStatus it sn)) (\<lambda>status.
        if status = ''RUNNING'' then handleRunningStatus it k sn stateID activityKey req
        else if status = ''REVOKED'' then Inr (req\<lparr>q_PublishStatus := RevokedPublish\<rparr>, ''revoked'', k)
        else if status = ''FINISHED'' then
          (if q_PublishStatus req = RevokedPublish then Inr (req, [], k) else Inr (req, ''finished'', k))
        else Inr (req\<lparr>q_PublishStatus := RevokedPublish, q_Reason := ''invalid tikcet status: '' @ status\<rparr>,
                  ''invalid'', k)))"

section \<open>Approve\<close>

definition decide ::
    "upd_fun \<Rightarrow> kit \<Rightarrow> approve_req \<Rightarrow> strategy \<Rightarrow> strategy_spec \<Rightarrow> string \<Rightarrow> store
      \<Rightarrow> pub_err + updates \<times> approval_ticket \<times> store" where
  "decide upd k req stg spec creator st =
     (let t0 = \<lparr>t_TicketID = ItsmTicketSn spec, t_StateId = [], t_Approver = [], t_Operator = [],
                t_Action = [], t_ActionType = [], t_Desc = [], t_TaskID = []\<rparr>
      in case q_PublishStatus req of
        RevokedPublish \<Rightarrow>
          rbind (revokeApprove req spec creator) (\<lambda>u.
          Inr (u, t0\<lparr>t_Operator := creator, t_ActionType := ''WITHDRAW'', t_Desc := q_Reason req\<rparr>, st))
      | RejectedApproval \<Rightarrow>
          rbind (rejectApprove k req spec) (\<lambda>u.
          Inr (u, t0\<lparr>t_StateId := ItsmTicketStateID spec, t_Approver := User (Env k), t_Action := ''false'',
                     t_Desc := q_Reason req\<rparr>, st))
      | PendingPublish \<Rightarrow>
          rbind (passApprove upd k req stg spec st) (\<lambda>(u, st1).
          Inr (u, t0\<lparr>t_StateId := ItsmTicketStateID spec, t_Approver := User (Env k), t_Action := ''true''\<rparr>, st1))
      | AlreadyPublish \<Rightarrow>
          rbind (publishApprove upd k req stg spec st) (\<lambda>(u, st1).
          Inr (u, t0\<lparr>t_TicketID := []\<rparr>, st1))
      | _ \<Rightarrow> Inl InvalidStatus)"

text \<open>Telling the ticket service, for a decision made on the web page.\<close>

definition sync_ticket :: "itsm \<Rightarrow> kit \<Rightarrow> approve_req \<Rightarrow> strategy_spec \<Rightarrow> approval_ticket \<Rightarrow> pub_err + unit" where
  "sync_ticket it k req spec t =
     rbind (if EnableV4 it then
              (if q_PublishStatus req \<noteq> RevokedPublish then
                 (case UnmarshalTasks it (ItsmTicketStateID spec) of
                    None \<Rightarrow> Inl (Ext ''unmarshal'')
                  | Some tasks \<Rightarrow>
                      (case map_of tasks (User (Env k)) of
                         None \<Rightarrow> Inl NoPermission
                       | Some task \<Rightarrow>
                           if task = [] then Inl NoPermission
                           else Inr (t\<lparr>t_TaskID := task, t_Operator := User (Env k)\<rparr>)))
               else Inr (t\<lparr>t_Operator := User (Env k)\<rparr>))
            else Inr t) (\<lambda>t.
     rbind (if q_PublishStatus req = RevokedPublish then wrap_err Ext (RevokedTicket it t) else Inr ()) (\<lambda>_.
     if q_PublishStatus req = RejectedApproval \<or> q_PublishStatus req = PendingPublish
     then wrap_err Ext (ApprovalTicket it t) else Inr ()))"

text \<open>
  The second half of \<open>Approve\<close>: the transaction, after the state of the ticket is known. \<open>req\<close>,
  \<open>message\<close> and \<open>k\<close> are as \<open>handleTicketStatus\<close> left them.
\<close>

definition approve_commit ::
    "upd_fun \<Rightarrow> itsm \<Rightarrow> app \<Rightarrow> pub_err + bool \<Rightarrow> strategy \<Rightarrow> strategy_spec \<Rightarrow> string \<Rightarrow> store
      \<Rightarrow> approve_req \<times> string \<times> kit \<Rightarrow> pub_err + store \<times> string" where
  "approve_commit upd it ap cred stg spec creator st = (\<lambda>(req, message, k).
     rbind (decide upd k req stg spec creator st) (\<lambda>(u, ticket, st1).
     let st2 = UpdateByID (s_ID stg) (apply_updates k u) st1
     in rbind (if IsApprove ap \<and> OperateWay k = WebUI \<and> message = [] \<and> ItsmTicketStatus spec = ''created''
               then sync_ticket it k req spec ticket else Inr ()) (\<lambda>_.
        rbind cred (\<lambda>_. Inr (st2, message)))))"

definition Approve ::
    "upd_fun \<Rightarrow> itsm \<Rightarrow> app list \<Rightarrow> pub_err + bool \<Rightarrow> kit \<Rightarrow> approve_req \<Rightarrow> store \<Rightarrow> pub_err + store \<times> string" where
  "Approve upd it apps cred k req st =
     (case get_release (q_BizID req) (q_AppID req) (q_ReleaseID req) st of
        None \<Rightarrow> Inl NotFound
      | Some release \<Rightarrow>
      if r_Deprecated release then Inl Deprecated
      else case GetLast (q_BizID req) (q_AppID req) (q_ReleaseID req) (q_StrategyID req) st of
        None \<Rightarrow> Inl NotFound
      | Some stg \<Rightarrow>
      (case find (\<lambda>a. a_ID a = q_AppID req) apps of
        None \<Rightarrow> Inl NotFound
      | Some ap \<Rightarrow>
      (case (Spec stg, s_Revision stg) of
        (Some spec, Some revn) \<Rightarrow>
          if OperateWay k = [] \<and> (PublishStatus spec = q_PublishStatus req
               \<or> PublishStatus spec = PendingPublish \<or> PublishStatus spec = AlreadyPublish)
          then Inr (st, [])
          else rbind (if IsApprove ap then
                 rbind (if EnableV4 it
                        then wrap_err Ext (GetConfig it (BuildStateIDKey (TenantID k) (a_ApproveType ap)))
                        else Inr []) (\<lambda>activeKey.
                 handleTicketStatus it k (ItsmTicketSn spec) (ItsmTicketStateID spec) activeKey req)
               else Inr (req, [], k)) (approve_commit upd it ap cred stg spec (Creator revn) st)
      | _ \<Rightarrow> Inl (Tbl NilPointer))))"

section \<open>Submit\<close>

definition get_group :: "nat \<Rightarrow> nat \<Rightarrow> store \<Rightarrow> group option" where
  "get_group gid bizID st =
     (if bizID = 0 \<or> gid = 0 then None
      else find (\<lambda>g. g_ID g = gid \<and> g_BizID g = Some bizID) (Groups st))"

definition ListAppValidGroups :: "nat \<Rightarrow> nat \<Rightarrow> store \<Rightarrow> pub_err + group list" where
  "ListAppValidGroups bizID appID st =
     (if bizID = 0 \<or> appID = 0 then Inl (Ext ''bizID or appID can not be 0'')
      else Inr (filter (\<lambda>g. g_BizID g = Some bizID
        \<and> ((case g_Spec g of None \<Rightarrow> False | Some sp \<Rightarrow> Public sp)
            \<or> g_ID g \<in> set [gid. (gid, a, b) \<leftarrow> Binds st, b = bizID \<and> a = appID])) (Groups st)))"

text \<open>\<open>Group().GetByName\<close>; a missing name is an error of the query, not a missing record.\<close>

definition GetGroupByName :: "nat \<Rightarrow> string \<Rightarrow> store \<Rightarrow> pub_err + group" where
  "GetGroupByName bizID nm st =
     (if bizID = 0 \<or> nm = [] then Inl (Ext ''biz id or name is empty'')
      else case find (\<lambda>g. g_BizID g = Some bizID \<and> (case g_Spec g of None \<Rightarrow> False | Some sp \<Rightarrow> g_Name sp = nm))
                  (Groups st) of
             None \<Rightarrow> Inl NotFound | Some g \<Rightarrow> Inr g)"

definition CreateGroupWithTx :: "regexps \<Rightarrow> group \<Rightarrow> store \<Rightarrow> pub_err + nat \<times> store" where
  "CreateGroupWithTx rx g st =
     rbind (wrap_err Tbl (Group_ValidateCreate rx g)) (\<lambda>_.
     Inr (next_group st,
          st\<lparr>Groups := Groups st @ [g\<lparr>g_ID := next_group st\<rparr>], next_group := next_group st + 1\<rparr>))"

text \<open>The groups whose selector \<open>Equal\<close>s the given one; \<open>None\<close> is a panic of the comparison.\<close>

fun equal_groups :: "selector \<Rightarrow> group list \<Rightarrow> group list option" where
  "equal_groups sel [] = Some []"
| "equal_groups sel (g # gs) =
     (case g_Spec g of
        None \<Rightarrow> None
      | Some sp \<Rightarrow>
          (case Selector_Equal (GSelector sp) (Some sel) of
             None \<Rightarrow> None
           | Some b \<Rightarrow> map_option (\<lambda>hs. if b then g # hs else hs) (equal_groups sel gs)))"

text \<open>\<open>gen_name\<close> is the name generated from the clock.\<close>

definition getOrCreateGroupByLabels ::
    "regexps \<Rightarrow> env \<Rightarrow> string \<Rightarrow> nat \<Rightarrow> nat \<Rightarrow> string \<Rightarrow> element list option \<Rightarrow> store \<Rightarrow> pub_err + nat \<times> store" where
  "getOrCreateGroupByLabels rx ev gen_name bizID appID groupName labels st =
     (case labels of
        None \<Rightarrow> Inl (Ext ''unmarshal group label failed'')
      | Some elements \<Rightarrow>
          let sel = \<lparr>MatchAll = False, LabelsOr = [], LabelsAnd = elements\<rparr>
          in rbind (ListAppValidGroups bizID appID st) (\<lambda>groups.
             case equal_groups sel groups of
               None \<Rightarrow> Inl (Tbl NilPointer)
             | Some (g # _) \<Rightarrow> Inr (g_ID g, st)
             | Some [] \<Rightarrow>
                 rbind (if groupName \<noteq> [] then
                          (case GetGroupByName bizID groupName st of
                             Inr _ \<Rightarrow> Inl GroupExists
                           | Inl NotFound \<Rightarrow> Inr groupName
                           | Inl e \<Rightarrow> Inl e)
                        else Inr gen_name) (\<lambda>nm.
                 rbind (CreateGroupWithTx rx
                     \<lparr>g_ID = 0,
                      g_Spec = Some \<lparr>g_Name = nm, Public = False, Mode = GroupModeCustom,
                        GSelector = Some sel, g_UID = []\<rparr>,
                      g_BizID = Some bizID,
                      g_Revision = Some \<lparr>Creator = User ev, Reviser = User ev, CreatedAt = 0, RevUpdatedAt = 0\<rparr>\<rparr> st)
                   (\<lambda>(gid, st1).
                 Inr (gid, st1\<lparr>Binds := Binds st1 @ [(gid, appID, bizID)]\<rparr>)))))"

fun query_groups :: "nat \<Rightarrow> nat list \<Rightarrow> store \<Rightarrow> pub_err + nat list \<times> string list" where
  "query_groups bizID [] st = Inr ([], [])"
| "query_groups bizID (gid # gids) st =
     (if gid = 0
      then rbind (query_groups bizID gids st) (\<lambda>(is, ns). Inr (0 # is, ns))
      else case get_group gid bizID st of
             None \<Rightarrow> Inl (GroupNotExists gid)
           | Some g \<Rightarrow>
               rbind (query_groups bizID gids st) (\<lambda>(is, ns).
               Inr (g_ID g # is, (case g_Spec g of None \<Rightarrow> [] | Some sp \<Rightarrow> g_Name sp) # ns)))"

definition parseGroup ::
    "regexps \<Rightarrow> env \<Rightarrow> string \<Rightarrow> submit_req \<Rightarrow> store \<Rightarrow> pub_err + nat list \<times> string list \<times> store" where
  "parseGroup rx ev gen_name req st =
     (if sq_All req then Inr ([], [], st)
      else let publishMode = (if sq_Mode req = OtherPublishMode [] then PublishByGroups else sq_Mode req)
      in rbind (wrap_err Tbl (GrayPublishMode_Validate publishMode)) (\<lambda>_.
         if publishMode = PublishByGroups
         then rbind (query_groups (sq_BizID req) (sq_Groups req) st) (\<lambda>(is, ns). Inr (is, ns, st))
         else rbind (getOrCreateGroupByLabels rx ev gen_name (sq_BizID req) (sq_AppID req)
                       (sq_GroupName req) (sq_Labels req) st) (\<lambda>(gid, st1).
              Inr ([gid], [sq_GroupName req], st1))))"

definition parsePublishOption :: "submit_req \<Rightarrow> app \<Rightarrow> publish_option" where
  "parsePublishOption req ap =
     (let opt = \<lparr>o_BizID = sq_BizID req, o_AppID = sq_AppID req, o_ReleaseID = sq_ReleaseID req,
            o_Memo = sq_Memo req, o_All = sq_All req, o_Default = sq_Default req, o_Groups = [],
            o_Revision = None, o_PublishType = sq_PublishType req, o_PublishTime = sq_PublishTime req,
            o_PublishStatus = PendingPublish, o_RejectReason = [], o_Approver = [],
            o_ApproverProgress = [], o_PubState = Publishing, o_ApproveType = a_ApproveType ap\<rparr>;
          opt = (if IsApprove ap
                 then opt\<lparr>o_PublishStatus := PendingApproval, o_Approver := a_Approver ap,
                          o_ApproverProgress := a_Approver ap, o_PubState := Unpublished\<rparr>
                 else opt)
      in if sq_PublishType req = Immediately then opt\<lparr>o_PublishStatus := AlreadyPublish\<rparr> else opt)"

text \<open>\<open>schedule\<close> is the call of the config server that keeps the time of a scheduled publication.\<close>

definition setPublishTime :: "(nat \<Rightarrow> int \<Rightarrow> pub_err + unit) \<Rightarrow> nat \<Rightarrow> submit_req \<Rightarrow> pub_err + unit" where
  "setPublishTime schedule pshID req =
     (if sq_PublishType req = Scheduled then
        (case parse_datetime (sq_PublishTime req) of
           None \<Rightarrow> Inl (Ext ''parse time failed'')
         | Some t \<Rightarrow> schedule pshID t)
      else Inr ())"

definition pending :: "publish_status \<Rightarrow> bool" where
  "pending s \<longleftrightarrow> s = PendingApproval \<or> s = PendingPublish"

definition set_ticket :: "ticket_data \<Rightarrow> strategy \<Rightarrow> strategy" where
  "set_ticket t s =
     s\<lparr>Spec := map_option (\<lambda>p. p\<lparr>ItsmTicketType := ''create'', ItsmTicketUrl := TicketURL t,
         ItsmTicketSn := SN t, ItsmTicketStatus := ''created'', ItsmTicketStateID := StateID t,
         ItsmCallbackToken := CallbackToken t\<rparr>) (Spec s)\<rparr>"

definition in_flight :: "nat \<Rightarrow> nat \<Rightarrow> store \<Rightarrow> bool" where
  "in_flight bizID appID st =
     (case GetLast bizID appID 0 0 st of
        None \<Rightarrow> False
      | Some s \<Rightarrow> (case Spec s of None \<Rightarrow> False | Some p \<Rightarrow> pending (PublishStatus p)))"

definition SubmitPublishApprove ::
    "upd_fun \<Rightarrow> regexps \<Rightarrow> itsm \<Rightarrow> app list \<Rightarrow> (nat \<Rightarrow> int \<Rightarrow> pub_err + unit) \<Rightarrow> pub_err + bool \<Rightarrow> string
      \<Rightarrow> kit \<Rightarrow> submit_req \<Rightarrow> store \<Rightarrow> pub_err + store \<times> nat" where
  "SubmitPublishApprove upd rx it apps schedule cred gen_name k req st =
     (case find (\<lambda>a. a_BizID a = sq_BizID req \<and> a_ID a = sq_AppID req) apps of
        None \<Rightarrow> Inl NotFound
      | Some ap \<Rightarrow>
     (case get_release (sq_BizID req) (sq_AppID req) (sq_ReleaseID req) st of
        None \<Rightarrow> Inl NotFound
      | Some release \<Rightarrow>
      if r_Deprecated release then Inl Deprecated
      else if in_flight (sq_BizID req) (sq_AppID req) st then Inl InPublishing
      else rbind (parseGroup rx (Env k) gen_name req st) (\<lambda>(groupIDs, groupName, st1).
           let opt = (parsePublishOption req ap)\<lparr>o_Groups := groupIDs,
                 o_Revision := Some \<lparr>cr_Creator = User (Env k), cr_CreatedAt = 0\<rparr>\<rparr>
           in rbind (SubmitWithTx upd (Env k) (Some opt) st1) (\<lambda>(pshID, st2).
           rbind (setPublishTime schedule pshID req) (\<lambda>_.
           rbind (if IsApprove ap
                  then rbind (wrap_err Ext (CreateTicket it ap (sq_ReleaseID req) (sq_Memo req))) (\<lambda>t.
                       Inr (UpdateByID pshID (set_ticket t) st2))
                  else Inr st2) (\<lambda>st3.
           rbind cred (\<lambda>_. Inr (st3, pshID))))))))"

text \<open>\<open>Publish\<close>: the compatible entry, an immediate or automatic publication.\<close>

definition Publish ::
    "upd_fun \<Rightarrow> regexps \<Rightarrow> itsm \<Rightarrow> app list \<Rightarrow> (nat \<Rightarrow> int \<Rightarrow> pub_err + unit) \<Rightarrow> pub_err + bool \<Rightarrow> string
      \<Rightarrow> kit \<Rightarrow> submit_req \<Rightarrow> store \<Rightarrow> pub_err + store \<times> nat" where
  "Publish upd rx it apps schedule cred gen_name k req st =
     (case find (\<lambda>a. a_BizID a = sq_BizID req \<and> a_ID a = sq_AppID req) apps of
        None \<Rightarrow> Inl NotFound
      | Some ap \<Rightarrow>
          SubmitPublishApprove upd rx it apps schedule cred gen_name k
            (req\<lparr>sq_PublishType := (if IsApprove ap then Automatically else Immediately),
                 sq_PublishTime := []\<rparr>) st)"

section \<open>The callback of the ticket service\<close>

record callback_req =
  cb_BizID :: nat
  cb_AppID :: nat
  cb_ReleaseID :: nat
  cb_Ticket :: "string option"
  cb_Token :: string

datatype callback_resp = CallbackOK string | CallbackFail string

text \<open>\<open>ListStrategyByReleasesIDs\<close> for one release: its strategy of the greatest id.\<close>

definition ListStrategyByReleasesID :: "nat \<Rightarrow> store \<Rightarrow> strategy list" where
  "ListStrategyByReleasesID releaseID st =
     (let hit = filter (\<lambda>s. case Spec s of None \<Rightarrow> False | Some p \<Rightarrow> ReleaseID p = releaseID) (Strategies st)
      in case last_by_id hit of
           None \<Rightarrow> []
         | Some m \<Rightarrow> filter (\<lambda>s. s_ID s = s_ID m) (Strategies st))"

definition ApprovalCallback ::
    "upd_fun \<Rightarrow> itsm \<Rightarrow> app list \<Rightarrow> pub_err + bool \<Rightarrow> kit \<Rightarrow> callback_req \<Rightarrow> store
      \<Rightarrow> pub_err + store \<times> callback_resp" where
  "ApprovalCallback upd it apps cred k req st =
     (case cb_Ticket req of
        None \<Rightarrow> Inr (st, CallbackFail ''ticket id is empty'')
      | Some ticket \<Rightarrow>
     (case find (\<lambda>s. case Spec s of None \<Rightarrow> False | Some p \<Rightarrow> ItsmTicketSn p = ticket)
             (ListStrategyByReleasesID (cb_ReleaseID req) st) of
        None \<Rightarrow> Inr (st, CallbackOK ''ticket id not match'')
      | Some stg \<Rightarrow>
     (case (Spec stg, s_Revision stg) of
        (Some spec, Some revn) \<Rightarrow>
          if ItsmCallbackToken spec \<noteq> [] \<and> ItsmCallbackToken spec \<noteq> cb_Token req
          then Inr (st, CallbackFail ''invalid callback token'')
          else if ItsmTicketStatus spec \<noteq> ''created''
          then Inr (st, CallbackOK ''ticket status has been processed'')
          else rbind (wrap_err Ext (GetConfig it (BuildStateIDKey (TenantID k) (ApproveType spec)))) (\<lambda>activeKey.
               rbind (wrap_err Ext (GetApproveResult it ticket [] activeKey)) (\<lambda>ar.
               case ar_Result ar of
                 None \<Rightarrow> Inr (st, CallbackOK ''ok'')
               | Some passed \<Rightarrow>
                   let areq = \<lparr>q_BizID = cb_BizID req, q_AppID = cb_AppID req, q_ReleaseID = cb_ReleaseID req,
                         q_StrategyID = s_ID stg,
                         q_PublishStatus = (if passed then PendingPublish else RejectedApproval),
                         q_Reason = (if passed then [] else joinWith '','' (Reasons ar)),
                         q_ApprovedBy = (if passed then PassUsers ar else RejectUsers ar)\<rparr>;
                       k' = k\<lparr>Env := (Env k)\<lparr>User := Creator revn\<rparr>\<rparr>
                   in case Approve upd it apps cred k' areq st of
                        Inl e \<Rightarrow> Inr (st, CallbackFail ''ok'')
                      | Inr (st', _) \<Rightarrow> Inr (st', CallbackOK ''ok'')))
      | _ \<Rightarrow> Inl (Tbl NilPointer))))"

end
