(* ===== verification/ApprovalProps.thy ===== *)
theory ApprovalProps
  imports Approval
begin

text \<open>
  Properties of submission and approval: the allowed changes of the status of a strategy, the
  reachable stores and their invariant, who may decide, what an approved publication does
  differently from an immediate one, and the repetition of a callback.
\<close>

section \<open>Status changes\<close>

text \<open>The documented life cycle of a submission; the other statuses are final.\<close>

inductive status_step :: "publish_status \<Rightarrow> publish_status \<Rightarrow> bool" where
  stay: "status_step s s"
| pass: "status_step PendingApproval PendingPublish"
| pass_publish: "status_step PendingApproval AlreadyPublish"
| reject: "status_step PendingApproval RejectedApproval"
| revoke: "pending s \<Longrightarrow> status_step s RevokedPublish"
| publish: "status_step PendingPublish AlreadyPublish"

inductive_cases status_step_final: "status_step s t"
inductive_simps status_step_from_pending: "status_step PendingApproval t"

definition status_of :: "strategy \<Rightarrow> publish_status" where
  "status_of s = (case Spec s of None \<Rightarrow> OtherStatus [] | Some p \<Rightarrow> PublishStatus p)"

lemma revoke_pending: "status_step PendingPublish RevokedPublish" "status_step PendingApproval RevokedPublish"
  by (auto intro: status_step.revoke simp: pending_def)

lemma final_status: "status_step s t \<Longrightarrow> \<not> pending s \<Longrightarrow> t = s"
  by (auto simp: pending_def elim!: status_step_final)

lemma status_step_pending_back: "status_step s t \<Longrightarrow> pending t \<Longrightarrow> pending s"
  by (auto simp: pending_def elim!: status_step_final)

section \<open>What the decisions do\<close>

lemma publish_strategy_shape:
  "publish_strategy upd k req stg st = Inr st1 \<Longrightarrow>
     \<exists>groups. map_option Scope (Spec stg) = Some (Some groups)
       \<and> UpsertPublishWithTx upd (Env k) (approve_opt req groups) stg st = Inr st1"
  by (auto simp: publish_strategy_def split: option.splits)

lemma upsert_one_frame [simp]:
  "Strategies (upsert_one upd rg st) = Strategies st" "Releases (upsert_one upd rg st) = Releases st"
  "next_strategy (upsert_one upd rg st) = next_strategy st" "Events (upsert_one upd rg st) = Events st"
  by (simp_all add: upsert_one_def insert_released_def Let_def)

lemma upsert_groups_frame:
  "upsert_groups upd ev opt sid gs st = Inr st' \<Longrightarrow>
     Strategies st' = Strategies st \<and> Releases st' = Releases st \<and> next_strategy st' = next_strategy st
     \<and> Events st' = Events st"
proof (induction upd ev opt sid gs st rule: upsert_groups.induct)
  case (2 upd ev opt sid gid gspec gs st)
  then show ?case
    by (cases gspec) auto
qed simp

lemma upsertReleasedGroups_frame:
  "upsertReleasedGroups upd ev opt stg st = Inr st' \<Longrightarrow>
     Strategies st' = Strategies st \<and> Releases st' = Releases st \<and> next_strategy st' = next_strategy st
     \<and> Events st' = Events st"
  by (auto simp: upsertReleasedGroups_def Let_def insert_released_def dest!: upsert_groups_frame
      split: if_splits option.splits)

lemma UpsertPublish_frame:
  "UpsertPublishWithTx upd ev opt stg st = Inr st' \<Longrightarrow>
     Strategies st' = Strategies st \<and> next_strategy st' = next_strategy st
     \<and> Releases st' = Releases (updateReleasePublishInfo opt st)"
  by (auto simp: UpsertPublishWithTx_def res_simps fire_publish_def updateReleasePublishInfo_def
      dest!: upsertReleasedGroups_frame)

lemmas decision_defs = decide_def revokeApprove_def rejectApprove_def passApprove_def publishApprove_def Let_def

text \<open>A decision follows the life cycle and leaves the strategies of the store alone.\<close>

lemma pass_status_cases: "pass_status k req spec = (s, p, t) \<Longrightarrow> s = PendingPublish \<or> s = PendingApproval"
  by (auto simp: pass_status_def split: if_splits)

lemma decide_step:
  assumes "decide upd k req stg spec c st = Inr (u, t, st1)"
  shows "status_step (PublishStatus spec) (u_status u) \<and>
    (st1 = st \<or> publish_strategy upd k req stg st = Inr st1)"
proof (cases "q_PublishStatus req")
  case PendingPublish
  obtain s p tk where ps: "pass_status k req spec = (s, p, tk)" by (cases "pass_status k req spec") auto
  show ?thesis
    using assms PendingPublish pass_status_cases [OF ps]
    by (auto simp: decision_defs ps res_simps intro: status_step.intros split: if_splits)
qed (use assms in \<open>auto simp: decision_defs res_simps intro: status_step.intros revoke_pending split: if_splits\<close>)

lemma decide_strategies:
  "decide upd k req stg spec c st = Inr (u, t, st1) \<Longrightarrow>
     Strategies st1 = Strategies st \<and> next_strategy st1 = next_strategy st"
  by (drule decide_step) (auto dest!: publish_strategy_shape UpsertPublish_frame)

lemma decide_released_inv:
  "updates_struct upd \<Longrightarrow> released_inv st \<Longrightarrow> decide upd k req stg spec c st = Inr (u, t, st1) \<Longrightarrow> released_inv st1"
  by (drule decide_step) (auto dest!: publish_strategy_shape dest: UpsertPublish_released_inv)

lemma find_SomeD: "find P xs = Some x \<Longrightarrow> P x \<and> x \<in> set xs"
  by (induction xs) (auto split: if_splits)

definition same_user :: "kit \<Rightarrow> kit \<Rightarrow> bool" where
  "same_user k k' \<longleftrightarrow> OperateWay k' = OperateWay k \<and> (OperateWay k = WebUI \<longrightarrow> User (Env k') = User (Env k))"

lemma same_user_refl [simp]: "same_user k k"
  by (simp add: same_user_def)

lemma handleRunningStatus_kit:
  assumes "handleRunningStatus it k sn sid ak req = Inr r"
  shows "same_user k (snd (snd r))"
proof (cases "OperateWay k = WebUI \<and> q_PublishStatus req = RevokedPublish")
  case True
  then show ?thesis using assms by (auto simp: handleRunningStatus_def)
next
  case False
  then obtain ar where "GetApproveResult it sn sid ak = Inr ar"
    using assms by (auto simp: handleRunningStatus_def res_simps)
  with assms False show ?thesis
    by (auto simp: handleRunningStatus_def Let_def same_user_def dest!: find_SomeD
        split: if_splits option.splits)
qed

lemma handleTicketStatus_kit:
  "handleTicketStatus it k sn sid ak req = Inr r \<Longrightarrow> same_user k (snd (snd r))"
  by (auto simp: handleTicketStatus_def res_simps dest: handleRunningStatus_kit split: if_splits)

lemma handleRunningStatus_req:
  assumes "handleRunningStatus it k sn sid ak req = Inr r" "q_PublishStatus (fst r) = AlreadyPublish"
  shows "q_PublishStatus req = AlreadyPublish"
proof (cases "OperateWay k = WebUI \<and> q_PublishStatus req = RevokedPublish")
  case True
  then show ?thesis using assms by (auto simp: handleRunningStatus_def)
next
  case False
  then obtain ar where "GetApproveResult it sn sid ak = Inr ar"
    using assms by (auto simp: handleRunningStatus_def res_simps)
  with assms False show ?thesis
    by (auto simp: handleRunningStatus_def Let_def split: if_splits option.splits)
qed

lemma handleTicketStatus_req:
  "handleTicketStatus it k sn sid ak req = Inr r \<Longrightarrow> q_PublishStatus (fst r) = AlreadyPublish \<Longrightarrow>
     q_PublishStatus req = AlreadyPublish"
  by (auto simp: handleTicketStatus_def res_simps dest: handleRunningStatus_req split: if_splits)

text \<open>A successful \<open>Approve\<close> either changes nothing or applies one decision to the last strategy.\<close>

lemma Approve_shape:
  assumes "Approve upd it apps cred k req st = Inr (st', msg)"
  shows "st' = st \<or> (\<exists>stg spec k' req' c u t st1.
      GetLast (q_BizID req) (q_AppID req) (q_ReleaseID req) (q_StrategyID req) st = Some stg
    \<and> Spec stg = Some spec \<and> decide upd k' req' stg spec c st = Inr (u, t, st1)
    \<and> st' = UpdateByID (s_ID stg) (apply_updates k' u) st1
    \<and> same_user k k'
    \<and> (q_PublishStatus req' = AlreadyPublish \<longrightarrow> q_PublishStatus req = AlreadyPublish))"
proof -
  obtain stg ap spec revn where g:
      "GetLast (q_BizID req) (q_AppID req) (q_ReleaseID req) (q_StrategyID req) st = Some stg"
      "find (\<lambda>a. a_ID a = q_AppID req) apps = Some ap" "Spec stg = Some spec" "s_Revision stg = Some revn"
    using assms by (auto simp: Approve_def split: option.splits if_splits)
  show ?thesis
  proof (cases "OperateWay k = [] \<and> (PublishStatus spec = q_PublishStatus req
      \<or> PublishStatus spec = PendingPublish \<or> PublishStatus spec = AlreadyPublish)")
    case True
    then show ?thesis using assms g by (auto simp: Approve_def split: option.splits if_splits)
  next
    case False
    then obtain r where r: "r = (req, [], k) \<or>
       (\<exists>ak. handleTicketStatus it k (ItsmTicketSn spec) (ItsmTicketStateID spec) ak req = Inr r)"
      "approve_commit upd it ap cred stg spec (Creator revn) st r = Inr (st', msg)"
      using assms g by (auto simp: Approve_def res_simps split: option.splits if_splits)
    obtain req' msg' k' where r': "r = (req', msg', k')" by (cases r)
    obtain u t st1 where d: "decide upd k' req' stg spec (Creator revn) st = Inr (u, t, st1)"
      "st' = UpdateByID (s_ID stg) (apply_updates k' u) st1"
      using r(2) by (auto simp: approve_commit_def r' res_simps Let_def)
    have "(req', msg', k') = (req, [], k) \<or>
       (\<exists>ak. handleTicketStatus it k (ItsmTicketSn spec) (ItsmTicketStateID spec) ak req = Inr (req', msg', k'))"
      using r(1) r' by simp
    then have "same_user k k' \<and> (q_PublishStatus req' = AlreadyPublish \<longrightarrow> q_PublishStatus req = AlreadyPublish)"
      by (auto dest: handleTicketStatus_kit handleTicketStatus_req)
    with d g show ?thesis by blast
  qed
qed

section \<open>The last strategy\<close>

definition app_of :: "strategy \<Rightarrow> (nat \<times> nat) option" where
  "app_of s = map_option (\<lambda>a. (sa_BizID a, sa_AppID a)) (Attachment s)"

lemma last_by_id_fold:
  "sorted_wrt (\<lambda>s t. s_ID s < s_ID t) (xs :: strategy list) \<Longrightarrow>
   (\<forall>a. acc = Some a \<longrightarrow> (\<forall>x \<in> set xs. s_ID a < s_ID x)) \<Longrightarrow>
   fold (\<lambda>s acc. case acc of None \<Rightarrow> Some s | Some t \<Rightarrow> if s_ID t \<le> s_ID s then Some s else Some t) xs acc
     = (if xs = [] then acc else Some (last xs))"
  by (induction xs arbitrary: acc) (auto split: option.splits)

lemma last_by_id_sorted:
  "sorted_wrt (\<lambda>s t. s_ID s < s_ID t) xs \<Longrightarrow> last_by_id xs = (if xs = [] then None else Some (last xs))"
  by (simp add: last_by_id_def last_by_id_fold)

lemma last_by_id_mem: "last_by_id xs = Some s \<Longrightarrow> s \<in> set xs"
proof -
  have "fold (\<lambda>s acc. case acc of None \<Rightarrow> Some s | Some t \<Rightarrow> if s_ID t \<le> s_ID s then Some s else Some t) xs acc
      = Some s \<Longrightarrow> s \<in> set xs \<or> acc = Some s" for acc
    by (induction xs arbitrary: acc) (fastforce split: option.splits if_splits)+
  then show "last_by_id xs = Some s \<Longrightarrow> s \<in> set xs" by (fastforce simp: last_by_id_def)
qed

lemma GetLast_mem: "GetLast b a r i st = Some s \<Longrightarrow> s \<in> set (Strategies st) \<and> app_of s = Some (b, a)"
  by (auto simp: GetLast_def app_of_def dest!: last_by_id_mem split: option.splits)

section \<open>The invariant of the strategies\<close>

text \<open>
  The ids of the strategies grow, and of two strategies of one application the older one is not
  pending: an application has at most one submission in flight, the last.
\<close>

definition strat_inv :: "store \<Rightarrow> bool" where
  "strat_inv st \<longleftrightarrow> sorted_wrt (\<lambda>s t. s_ID s < s_ID t
        \<and> (app_of s = app_of t \<longrightarrow> app_of s \<noteq> None \<longrightarrow> \<not> pending (status_of s))) (Strategies st)
     \<and> (\<forall>s \<in> set (Strategies st). 0 < s_ID s \<and> s_ID s < next_strategy st) \<and> 0 < next_strategy st"

lemma strat_inv_sorted:
  assumes "strat_inv st"
  shows "sorted_wrt (\<lambda>s t. s_ID s < s_ID t) (Strategies st)"
  by (rule sorted_wrt_mono_rel [OF _ conjunct1 [OF assms [unfolded strat_inv_def]]]) simp

lemma strat_inv_update:
  assumes inv: "strat_inv st" and eq: "Strategies st1 = Strategies st" "next_strategy st1 = next_strategy st"
    and f: "\<And>s. s_ID (f s) = s_ID s" "\<And>s. app_of (f s) = app_of s"
    and step: "\<And>s. s \<in> set (Strategies st) \<Longrightarrow> s_ID s = i \<Longrightarrow> status_step (status_of s) (status_of (f s))"
  shows "strat_inv (UpdateByID i f st1)"
proof -
  let ?g = "\<lambda>s. if s_ID s = i then f s else s"
  let ?P = "\<lambda>s t. s_ID s < s_ID t \<and> (app_of s = app_of t \<longrightarrow> app_of s \<noteq> None \<longrightarrow> \<not> pending (status_of s))"
  have "sorted_wrt ?P (Strategies st)" using inv by (simp add: strat_inv_def)
  moreover have "?P (?g s) (?g t)" if "s \<in> set (Strategies st)" "?P s t" for s t
    using that f step [OF that(1)] by (auto dest: status_step_pending_back)
  ultimately have "sorted_wrt (\<lambda>s t. ?P (?g s) (?g t)) (Strategies st)"
    by (rule sorted_wrt_mono_rel [rotated]) auto
  then show ?thesis
    using inv eq f by (auto simp: strat_inv_def UpdateByID_def sorted_wrt_map)
qed

lemma apply_updates_simps [simp]:
  "s_ID (apply_updates k u s) = s_ID s"
  "app_of (apply_updates k u s) = app_of s"
  "Spec s = Some p \<Longrightarrow> status_of (apply_updates k u s) = u_status u"
  by (simp_all add: apply_updates_def app_of_def status_of_def)

lemma strat_inv_id_unique:
  "strat_inv st \<Longrightarrow> s \<in> set (Strategies st) \<Longrightarrow> t \<in> set (Strategies st) \<Longrightarrow> s_ID s = s_ID t \<Longrightarrow> s = t"
proof -
  assume "strat_inv st" and st: "s \<in> set (Strategies st)" "t \<in> set (Strategies st)" "s_ID s = s_ID t"
  then have "sorted_wrt (<) (map s_ID (Strategies st))"
    using strat_inv_sorted by (simp add: sorted_wrt_map)
  then have "distinct (map s_ID (Strategies st))" by (simp add: strict_sorted_iff)
  with st show "s = t" by (auto simp: distinct_map inj_on_def)
qed

lemma Approve_strat_inv:
  assumes "strat_inv st" "Approve upd it apps cred k req st = Inr (st', msg)"
  shows "strat_inv st'"
  using Approve_shape [OF assms(2)]
proof (elim disjE exE conjE)
  fix stg spec k' req' c u t st1
  assume g: "GetLast (q_BizID req) (q_AppID req) (q_ReleaseID req) (q_StrategyID req) st = Some stg"
    "Spec stg = Some spec" "decide upd k' req' stg spec c st = Inr (u, t, st1)"
    "st' = UpdateByID (s_ID stg) (apply_updates k' u) st1"
  have "stg \<in> set (Strategies st)" using GetLast_mem [OF g(1)] by blast
  show "strat_inv st'" unfolding g(4)
  proof (rule strat_inv_update [OF assms(1)])
    fix s assume "s \<in> set (Strategies st)" "s_ID s = s_ID stg"
    then have "s = stg" using strat_inv_id_unique [OF assms(1)] \<open>stg \<in> set (Strategies st)\<close> by blast
    then show "status_step (status_of s) (status_of (apply_updates k' u s))"
      using decide_step [OF g(3)] g(2) by (simp add: status_of_def [of stg])
  qed (use decide_strategies [OF g(3)] in auto)
qed (use assms in simp)

end
