(* ===== verification/PublishWriters.thy ===== *)
theory PublishWriters
  imports ApprovalProps
begin

text \<open>
  The other writers of the strategies and of the released groups: the scheduled publication of the
  cache service (\<open>cmd/cache-service/service/cache/event/publish.go\<close>), the submission that creates
  its release (\<open>GenerateReleaseAndPublish\<close> of \<open>cmd/data-service/service/publish.go\<close>), and what
  changes of groups and the deletion of applications do to the released groups
  (\<open>internal/dal/dao/released_group.go\<close>). The tenants of the strategies are not modelled: the code
  groups its updates by tenant, and the groups of a run have no strategy in common.
\<close>

section \<open>Updates of several strategies\<close>

text \<open>The creator becomes the reviser of every updated row.\<close>

definition UpdateByIDs :: "env \<Rightarrow> nat list \<Rightarrow> (strategy \<Rightarrow> strategy) \<Rightarrow> store \<Rightarrow> store" where
  "UpdateByIDs ev ids f st =
     (if ids = [] then st
      else st\<lparr>Strategies := map (\<lambda>s. if s_ID s \<in> set ids
             then (f s)\<lparr>s_Revision := map_option (\<lambda>r. r\<lparr>Reviser := Creator r, RevUpdatedAt := now ev\<rparr>) (s_Revision s)\<rparr>
             else s) (Strategies st)\<rparr>)"

definition to_manual :: "env \<Rightarrow> strategy \<Rightarrow> strategy" where
  "to_manual ev s = s\<lparr>Spec := map_option (\<lambda>p. p\<lparr>PublishType := Manually, FinalApprovalTime := now ev\<rparr>) (Spec s)\<rparr>"

definition to_published :: "env \<Rightarrow> strategy \<Rightarrow> strategy" where
  "to_published ev s = s\<lparr>Spec := map_option (\<lambda>p. p\<lparr>PublishStatus := AlreadyPublish, FinalApprovalTime := now ev\<rparr>) (Spec s),
     State := Some Publishing\<rparr>"

section \<open>The scheduled publication\<close>

text \<open>
  \<open>due\<close> is what \<open>GetPublishTime\<close> reads from the cache: the strategies whose time has come, with
  that time. The option built for a strategy has no field but these.
\<close>

definition schedule_opt :: "strategy_attachment \<Rightarrow> strategy_spec \<Rightarrow> group list \<Rightarrow> publish_option" where
  "schedule_opt a p groups =
     \<lparr>o_BizID = sa_BizID a, o_AppID = sa_AppID a, o_ReleaseID = ReleaseID p, o_Memo = [],
      o_All = (length groups = 0), o_Default = False, o_Groups = [], o_Revision = None,
      o_PublishType = OtherType [], o_PublishTime = [], o_PublishStatus = OtherStatus [],
      o_RejectReason = [], o_Approver = [], o_ApproverProgress = [], o_PubState = OtherState [],
      o_ApproveType = []\<rparr>"

definition GetStrategyByIDs :: "nat list \<Rightarrow> store \<Rightarrow> strategy list" where
  "GetStrategyByIDs ids st = filter (\<lambda>s. s_ID s \<in> set ids) (Strategies st)"

text \<open>The loop over the strategies: the ids to make manual, the ids to publish, and the store.\<close>

fun schedule_loop ::
    "upd_fun \<Rightarrow> env \<Rightarrow> (nat \<times> int) list \<Rightarrow> strategy list \<Rightarrow> nat list \<Rightarrow> nat list \<Rightarrow> store
      \<Rightarrow> pub_err + nat list \<times> nat list \<times> store" where
  "schedule_loop upd ev due [] manual publ st = Inr (manual, publ, st)"
| "schedule_loop upd ev due (v # vs) manual publ st =
     (case Spec v of
        None \<Rightarrow> Inl (Tbl NilPointer)
      | Some p \<Rightarrow>
          if PublishType p \<noteq> Scheduled then schedule_loop upd ev due vs manual publ st
          else if PublishStatus p = PendingApproval
          then schedule_loop upd ev due vs (manual @ [s_ID v]) publ st
          else if PublishStatus p = PendingPublish
          then (if or_old (map_of due (s_ID v)) 0 < FinalApprovalTime p \<and> Approver p \<noteq> []
                then schedule_loop upd ev due vs (manual @ [s_ID v]) publ st
                else (case (Attachment v, Scope p, s_Revision v) of
                        (Some a, Some groups, Some r) \<Rightarrow>
                          rbind (UpsertPublishWithTx upd (ev\<lparr>User := Creator r\<rparr>) (schedule_opt a p groups) v st)
                            (\<lambda>st1. schedule_loop upd ev due vs manual (publ @ [s_ID v]) st1)
                      | _ \<Rightarrow> Inl (Tbl NilPointer)))
          else schedule_loop upd ev due vs manual publ st)"

text \<open>An error rolls the transaction back.\<close>

definition updateStrategy :: "upd_fun \<Rightarrow> env \<Rightarrow> (nat \<times> int) list \<Rightarrow> store \<Rightarrow> pub_err + store" where
  "updateStrategy upd ev due st =
     (if due = [] then Inr st
      else rbind (schedule_loop upd ev due (GetStrategyByIDs (map fst due) st) [] [] st) (\<lambda>(manual, publ, st1).
           Inr (UpdateByIDs ev publ (to_published ev) (UpdateByIDs ev manual (to_manual ev) st1))))"

section \<open>Groups and applications\<close>

text \<open>
  \<open>UpdateGroup\<close> marks the rows of a group whose selector or uid it has changed; \<open>DeleteApp\<close>
  deletes the rows of the application.
\<close>

definition UpdateEditedStatusWithTx :: "bool \<Rightarrow> nat \<Rightarrow> nat \<Rightarrow> store \<Rightarrow> pub_err + store" where
  "UpdateEditedStatusWithTx edited groupID bizID st =
     (if bizID = 0 then Inl (Ext ''bizID is 0'')
      else if groupID = 0 then Inl (Ext ''groupID is 0'')
      else Inr (st\<lparr>Released := map (\<lambda>r. if rg_GroupID r = groupID \<and> rg_BizID r = bizID
             then r\<lparr>rg_Edited := edited\<rparr> else r) (Released st)\<rparr>))"

definition BatchDeleteByAppIDWithTx :: "nat \<Rightarrow> nat \<Rightarrow> store \<Rightarrow> pub_err + store" where
  "BatchDeleteByAppIDWithTx appID bizID st =
     (if bizID = 0 then Inl (Ext ''bizID is 0'')
      else if appID = 0 then Inl (Ext ''appID is 0'')
      else Inr (st\<lparr>Released := filter (\<lambda>r. \<not> (rg_AppID r = appID \<and> rg_BizID r = bizID)) (Released st)\<rparr>))"

section \<open>A submission that creates its release\<close>

record generate_req =
  gq_BizID :: nat
  gq_AppID :: nat
  gq_ReleaseName :: string
  gq_ReleaseMemo :: string
  gq_All :: bool
  gq_Mode :: publish_mode
  gq_Groups :: "string list"
  gq_Labels :: "element list option"
  gq_GroupName :: string

fun query_group_names :: "nat \<Rightarrow> string list \<Rightarrow> store \<Rightarrow> pub_err + nat list \<times> string list" where
  "query_group_names bizID [] st = Inr ([], [])"
| "query_group_names bizID (nm # nms) st =
     (case GetGroupByName bizID nm st of
        Inl _ \<Rightarrow> Inl (Ext ''group not exist'')
      | Inr g \<Rightarrow>
          (case g_Spec g of
             None \<Rightarrow> Inl (Tbl NilPointer)
           | Some sp \<Rightarrow>
               rbind (query_group_names bizID nms st) (\<lambda>(is, ns). Inr (g_ID g # is, g_Name sp # ns))))"

definition genReleaseAndPublishGroupID ::
    "regexps \<Rightarrow> env \<Rightarrow> string \<Rightarrow> generate_req \<Rightarrow> store \<Rightarrow> pub_err + nat list \<times> string list \<times> store" where
  "genReleaseAndPublishGroupID rx ev gen_name req st =
     (if gq_All req then Inr ([], [], st)
      else let publishMode = (if gq_Mode req = OtherPublishMode [] then PublishByGroups else gq_Mode req)
      in rbind (wrap_err Tbl (GrayPublishMode_Validate publishMode)) (\<lambda>_.
         if publishMode = PublishByGroups
         then rbind (query_group_names (gq_BizID req) (gq_Groups req) st) (\<lambda>(is, ns). Inr (is, ns, st))
         else rbind (getOrCreateGroupByLabels rx ev gen_name (gq_BizID req) (gq_AppID req)
                       (gq_GroupName req) (gq_Labels req) st) (\<lambda>(gid, st1).
              Inr ([gid], [gq_GroupName req], st1))))"

text \<open>\<open>rid\<close> is the id the generator of the table of releases gives.\<close>

definition create_release :: "app list \<Rightarrow> env \<Rightarrow> nat \<Rightarrow> generate_req \<Rightarrow> store \<Rightarrow> pub_err + store" where
  "create_release apps ev rid req st =
     rbind (wrap_err (\<lambda>e. Tbl (BadValue e)) (ValidateReleaseName (gq_ReleaseName req))) (\<lambda>_.
     rbind (wrap_err (\<lambda>e. Tbl (BadValue e)) (ValidateMemo (gq_ReleaseMemo req) False)) (\<lambda>_.
     rbind (wrap_err Tbl (ensure (0 < gq_BizID req) (InvalidID ''biz''))) (\<lambda>_.
     rbind (wrap_err Tbl (ensure (0 < gq_AppID req) (InvalidID ''app''))) (\<lambda>_.
     rbind (wrap_err Tbl (CreatedRevision_Validate \<lparr>cr_Creator = User ev, cr_CreatedAt = 0\<rparr>)) (\<lambda>_.
     if \<exists>a \<in> set apps. a_ID a = gq_AppID req \<and> a_BizID a = gq_BizID req
     then Inr (st\<lparr>Releases := Releases st @ [\<lparr>r_ID = rid, r_Name = gq_ReleaseName req, r_BizID = gq_BizID req,
            r_AppID = gq_AppID req, r_Deprecated = False, PublishNum = 0, FullyReleased = False\<rparr>]\<rparr>)
     else Inl (Ext ''release attached app not exist''))))))"

definition generate_opt :: "env \<Rightarrow> app \<Rightarrow> nat \<Rightarrow> nat list \<Rightarrow> generate_req \<Rightarrow> publish_option" where
  "generate_opt ev ap rid gids req =
     (let opt = \<lparr>o_BizID = gq_BizID req, o_AppID = gq_AppID req, o_ReleaseID = rid,
            o_Memo = gq_ReleaseMemo req, o_All = gq_All req, o_Default = False, o_Groups = gids,
            o_Revision = Some \<lparr>cr_Creator = User ev, cr_CreatedAt = 0\<rparr>, o_PublishType = Immediately,
            o_PublishTime = [], o_PublishStatus = AlreadyPublish, o_RejectReason = [], o_Approver = [],
            o_ApproverProgress = [], o_PubState = Publishing, o_ApproveType = a_ApproveType ap\<rparr>
      in if IsApprove ap
         then opt\<lparr>o_PublishType := Automatically, o_PublishStatus := PendingApproval,
                  o_Approver := a_Approver ap, o_ApproverProgress := a_Approver ap, o_PubState := Unpublished\<rparr>
         else opt)"

text \<open>
  \<open>content\<close> says whether the hooks and the files or keys of the release could be written; they
  are in other tables.
\<close>

definition GenerateReleaseAndPublish ::
    "upd_fun \<Rightarrow> regexps \<Rightarrow> itsm \<Rightarrow> app list \<Rightarrow> nat \<Rightarrow> pub_err + unit \<Rightarrow> string \<Rightarrow> kit \<Rightarrow> generate_req
      \<Rightarrow> store \<Rightarrow> pub_err + store \<times> nat" where
  "GenerateReleaseAndPublish upd rx it apps rid content gen_name k req st =
     (case find (\<lambda>a. a_ID a = gq_AppID req) apps of
        None \<Rightarrow> Inl NotFound
      | Some ap \<Rightarrow>
      if \<exists>r \<in> set (Releases st). r_Name r = gq_ReleaseName req \<and> r_AppID r = gq_AppID req \<and> r_BizID r = gq_BizID req
      then Inl (Ext ''release name already exists'')
      else if in_flight (gq_BizID req) (gq_AppID req) st then Inl InPublishing
      else rbind (genReleaseAndPublishGroupID rx (Env k) gen_name req st) (\<lambda>(groupIDs, groupName, st1).
           rbind (create_release apps (Env k) rid req st1) (\<lambda>st2.
           rbind content (\<lambda>_.
           rbind (SubmitWithTx upd (Env k) (Some (generate_opt (Env k) ap rid groupIDs req)) st2) (\<lambda>(pshID, st3).
           if IsApprove ap
           then rbind (wrap_err Ext (CreateTicket it ap rid (gq_ReleaseMemo req))) (\<lambda>t.
                Inr (UpdateByID pshID (set_ticket t) st3, pshID))
           else Inr (st3, pshID))))))"

section \<open>What they keep\<close>

lemma UpdateByIDs_simps [simp]:
  "Released (UpdateByIDs ev ids f st) = Released st"
  "next_released (UpdateByIDs ev ids f st) = next_released st"
  "next_strategy (UpdateByIDs ev ids f st) = next_strategy st"
  by (simp_all add: UpdateByIDs_def)

lemma to_simps [simp]:
  "s_ID (to_manual ev s) = s_ID s" "app_of (to_manual ev s) = app_of s" "status_of (to_manual ev s) = status_of s"
  "s_ID (to_published ev s) = s_ID s" "app_of (to_published ev s) = app_of s"
  by (simp_all add: to_manual_def to_published_def app_of_def status_of_def option.case_eq_if option.map_sel)

lemma status_of_to_published: "status_of s = PendingPublish \<Longrightarrow> status_of (to_published ev s) = AlreadyPublish"
  by (auto simp: to_published_def status_of_def split: option.splits)

lemma revision_simps [simp]:
  "s_ID (s\<lparr>s_Revision := r\<rparr>) = s_ID s" "app_of (s\<lparr>s_Revision := r\<rparr>) = app_of s"
  "status_of (s\<lparr>s_Revision := r\<rparr>) = status_of s"
  by (simp_all add: app_of_def status_of_def)

text \<open>The loop leaves the strategies alone and publishes only strategies that wait for publication.\<close>

lemma schedule_loop_frame:
  "schedule_loop upd ev due vs manual publ st = Inr (manual', publ', st') \<Longrightarrow>
     Strategies st' = Strategies st \<and> next_strategy st' = next_strategy st
     \<and> (\<forall>i \<in> set publ'. i \<in> set publ \<or> (\<exists>v \<in> set vs. s_ID v = i \<and> status_of v = PendingPublish))"
proof (induction upd ev due vs manual publ st rule: schedule_loop.induct)
  case (2 upd ev due v vs manual publ st)
  show ?case
    using 2 by (fastforce simp: res_simps status_of_def dest: UpsertPublish_frame split: option.splits if_splits)
qed simp

lemma schedule_loop_released_inv:
  "schedule_loop upd ev due vs manual publ st = Inr (manual', publ', st') \<Longrightarrow> updates_struct upd \<Longrightarrow>
     released_inv st \<Longrightarrow> released_inv st'"
proof (induction upd ev due vs manual publ st rule: schedule_loop.induct)
  case (2 upd ev due v vs manual publ st)
  then show ?case
    by (fastforce simp: res_simps dest: UpsertPublish_released_inv split: option.splits if_splits)
qed simp

lemma strat_inv_UpdateByIDs:
  assumes inv: "strat_inv st" and eq: "Strategies st1 = Strategies st" "next_strategy st1 = next_strategy st"
    and f: "\<And>s. s_ID (f s) = s_ID s" "\<And>s. app_of (f s) = app_of s"
    and step: "\<And>s. s \<in> set (Strategies st) \<Longrightarrow> s_ID s \<in> set ids \<Longrightarrow> status_step (status_of s) (status_of (f s))"
  shows "strat_inv (UpdateByIDs ev ids f st1)"
proof -
  let ?g = "\<lambda>s. if s_ID s \<in> set ids then (f s)\<lparr>s_Revision :=
      map_option (\<lambda>r. r\<lparr>Reviser := Creator r, RevUpdatedAt := now ev\<rparr>) (s_Revision s)\<rparr> else s"
  let ?P = "\<lambda>s t. s_ID s < s_ID t \<and> (app_of s = app_of t \<longrightarrow> app_of s \<noteq> None \<longrightarrow> \<not> pending (status_of s))"
  have "sorted_wrt ?P (Strategies st)" using inv by (simp add: strat_inv_def)
  moreover have "?P (?g s) (?g t)" if "s \<in> set (Strategies st)" "?P s t" for s t
    using that f step [OF that(1)] by (auto dest: status_step_pending_back)
  ultimately have "sorted_wrt (\<lambda>s t. ?P (?g s) (?g t)) (Strategies st)"
    by (rule sorted_wrt_mono_rel [rotated]) auto
  then show ?thesis
    using inv eq f by (auto simp: strat_inv_def UpdateByIDs_def sorted_wrt_map)
qed

lemma updateStrategy_inv:
  assumes "updates_struct upd" "strat_inv st" "released_inv st" "updateStrategy upd ev due st = Inr st'"
  shows "strat_inv st' \<and> released_inv st'"
proof (cases "due = []")
  case False
  then obtain manual publ st1 where
    l: "schedule_loop upd ev due (GetStrategyByIDs (map fst due) st) [] [] st = Inr (manual, publ, st1)"
    and st': "st' = UpdateByIDs ev publ (to_published ev) (UpdateByIDs ev manual (to_manual ev) st1)"
    using assms(4) by (auto simp: updateStrategy_def res_simps)
  note fr = schedule_loop_frame [OF l]
  let ?st2 = "UpdateByIDs ev manual (to_manual ev) st1"
  have inv2: "strat_inv ?st2"
    by (rule strat_inv_UpdateByIDs [OF assms(2)]) (use fr in \<open>auto intro: status_step.stay\<close>)
  have "status_of s = PendingPublish" if sx: "s \<in> set (Strategies ?st2)" "s_ID s \<in> set publ" for s
  proof -
    obtain v where v: "v \<in> set (Strategies st)" "s_ID v = s_ID s" "status_of v = PendingPublish"
      using fr sx(2) by (auto simp: GetStrategyByIDs_def)
    obtain u where u: "u \<in> set (Strategies st)" "s_ID u = s_ID s" "status_of u = status_of s"
      using fr sx(1) by (auto simp: UpdateByIDs_def split: if_splits)
    show ?thesis using strat_inv_id_unique [OF assms(2) u(1) v(1)] u v by simp
  qed
  then have "strat_inv st'"
    unfolding st'
    by (intro strat_inv_UpdateByIDs [OF inv2]) (auto simp: status_of_to_published intro: status_step.publish)
  moreover have "released_inv st'"
    using schedule_loop_released_inv [OF l assms(1,3)] by (simp add: st' released_inv_def)
  ultimately show ?thesis by simp
qed (use assms in \<open>simp add: updateStrategy_def\<close>)

lemma released_inv_map:
  assumes "\<And>r. rg_key (f r) = rg_key r" "\<And>r. rg_ID (f r) = rg_ID r" "released_inv st"
  shows "released_inv (st\<lparr>Released := map f (Released st)\<rparr>)"
  using assms by (simp add: released_inv_def o_def)

lemma rg_Edited_simps [simp]: "rg_key (r\<lparr>rg_Edited := b\<rparr>) = rg_key r" "rg_ID (r\<lparr>rg_Edited := b\<rparr>) = rg_ID r"
  by (simp_all add: rg_key_def)

lemma UpdateEdited_inv:
  "strat_inv st \<Longrightarrow> released_inv st \<Longrightarrow> UpdateEditedStatusWithTx edited gid biz st = Inr st' \<Longrightarrow>
     strat_inv st' \<and> released_inv st'"
  by (auto simp: UpdateEditedStatusWithTx_def strat_inv_def released_inv_map split: if_splits)

lemma BatchDelete_inv:
  "strat_inv st \<Longrightarrow> released_inv st \<Longrightarrow> BatchDeleteByAppIDWithTx aid biz st = Inr st' \<Longrightarrow>
     strat_inv st' \<and> released_inv st'"
  by (auto simp: BatchDeleteByAppIDWithTx_def strat_inv_def intro: released_inv_filter split: if_splits)

end
