(* ===== verification/Transition.thy ===== *)
theory Transition
  imports Prelude
begin

text \<open>
  State machines: the states reachable from the initial ones, invariants of all reachable states,
  and the refinement of an abstract specification by operations that return a result. Both notions
  are interfaces: a component gives its steps or operations with the laws for one step, and obtains
  the statement for every run.
\<close>

section \<open>Reachable states\<close>

inductive reach :: "('s \<Rightarrow> bool) \<Rightarrow> ('s \<Rightarrow> 's \<Rightarrow> bool) \<Rightarrow> 's \<Rightarrow> bool" for init step where
  start: "init s \<Longrightarrow> reach init step s"
| step: "reach init step s \<Longrightarrow> step s s' \<Longrightarrow> reach init step s'"

locale transition_system =
  fixes init :: "'s \<Rightarrow> bool"
    and step :: "'s \<Rightarrow> 's \<Rightarrow> bool"
    and inv :: "'s \<Rightarrow> bool"
  assumes init_inv: "init s \<Longrightarrow> inv s"
    and step_inv: "inv s \<Longrightarrow> step s s' \<Longrightarrow> inv s'"
begin

lemma reach_inv: "reach init step s \<Longrightarrow> inv s"
  by (induction rule: reach.induct) (auto intro: init_inv step_inv)

lemma steps_inv: "step\<^sup>*\<^sup>* s s' \<Longrightarrow> inv s \<Longrightarrow> inv s'"
  by (induction rule: rtranclp.induct) (auto intro: step_inv)

end

section \<open>Refinement\<close>

text \<open>
  \<open>exec\<close> runs an operation and returns whether it succeeded, \<open>spec\<close> is its effect on the abstract
  state.
\<close>

fun run :: "('op \<Rightarrow> 's \<Rightarrow> bool \<times> 's) \<Rightarrow> 'op list \<Rightarrow> 's \<Rightarrow> bool \<times> 's" where
  "run exec [] s = (True, s)"
| "run exec (p # ps) s = (case exec p s of (ok, s') \<Rightarrow> (case run exec ps s' of (oks, t) \<Rightarrow> (ok \<and> oks, t)))"

locale refined_operations =
  fixes exec :: "'op \<Rightarrow> 's \<Rightarrow> bool \<times> 's"
    and inv :: "'s \<Rightarrow> bool"
    and abs :: "'s \<Rightarrow> 'a"
    and spec :: "'op \<Rightarrow> 'a \<Rightarrow> 'a"
  assumes exec_inv: "inv s \<Longrightarrow> inv (snd (exec p s))"
    and exec_spec: "inv s \<Longrightarrow> exec p s = (True, s') \<Longrightarrow> abs s' = spec p (abs s)"
begin

lemma run_inv: "inv s \<Longrightarrow> inv (snd (run exec ps s))"
proof (induction ps arbitrary: s)
  case (Cons p ps)
  show ?case using Cons.IH [OF exec_inv [OF Cons.prems, of p]] by (simp add: case_prod_unfold)
qed simp

lemma run_spec: "inv s \<Longrightarrow> run exec ps s = (True, t) \<Longrightarrow> abs t = fold spec ps (abs s)"
proof (induction ps arbitrary: s)
  case (Cons p ps)
  obtain ok s' where e: "exec p s = (ok, s')" by fastforce
  have "ok" "run exec ps s' = (True, t)" using Cons.prems(2) by (simp_all add: e split: prod.splits)
  moreover have "inv s'" using exec_inv [OF Cons.prems(1), of p] by (simp add: e)
  ultimately show ?case using Cons.IH exec_spec [OF Cons.prems(1), of p s'] e by simp
qed simp

end

end
