(* ===== verification/ApprovalFlow.thy ===== *)
theory ApprovalFlow
  imports PublishWriters Transition
begin

text \<open>
  The publication service as a transition system: submissions, decisions, callbacks and scheduled
  publications in any order, with any answers of the ticket service, between changes of groups,
  deletions of applications and any changes of other tables. Its invariant: one row per application and group in the table the feed
  server reads, and at most one submission in flight per application.
\<close>

section \<open>Submission\<close>

lemma validatePublishGroups_opt:
  "validatePublishGroups st ids opt = Inr opt' \<Longrightarrow> opt' = opt \<or> opt' = opt\<lparr>o_Default := True\<rparr>"
  by (induction st ids opt rule: validatePublishGroups.induct)
    (auto split: if_splits option.splits)

lemma genStrategy_simps [simp]:
  "s_ID (genStrategy ev opt i gs) = i"
  "app_of (genStrategy ev opt i gs) = Some (o_BizID opt, o_AppID opt)"
  "status_of (genStrategy ev opt i gs) = o_PublishStatus opt"
  by (simp_all add: genStrategy_def app_of_def status_of_def)

lemma submit_frame:
  assumes "submit upd ev opt groups st = Inr (i, st')"
  shows "i = next_strategy st \<and> next_strategy st' = i + 1
    \<and> (\<exists>stg. Strategies st' = Strategies st @ [stg] \<and> s_ID stg = i
        \<and> app_of stg = Some (o_BizID opt, o_AppID opt) \<and> status_of stg = o_PublishStatus opt)"
  using assms by (auto simp: submit_def Let_def res_simps dest!: UpsertPublish_frame split: if_splits)

lemma SubmitWithTx_frame:
  assumes "SubmitWithTx upd ev (Some opt) st = Inr (i, st')"
  shows "i = next_strategy st \<and> next_strategy st' = i + 1
    \<and> (\<exists>stg. Strategies st' = Strategies st @ [stg] \<and> s_ID stg = i
        \<and> app_of stg = Some (o_BizID opt, o_AppID opt) \<and> status_of stg = o_PublishStatus opt)"
  using assms by (fastforce simp: SubmitWithTx_def Let_def res_simps
      dest!: submit_frame validatePublishGroups_opt)

lemma released_inv_cong:
  "Released st' = Released st \<Longrightarrow> next_released st' = next_released st \<Longrightarrow> released_inv st' = released_inv st"
  by (simp add: released_inv_def)

lemma submit_released_inv:
  assumes "updates_struct upd" "released_inv st" "submit upd ev opt groups st = Inr (i, st')"
  shows "released_inv st'"
proof -
  have "released_inv (st\<lparr>Strategies := ss, next_strategy := n\<rparr>)" for ss n
    using assms(2) by (simp add: released_inv_def)
  with assms(1,3) show ?thesis
    by (auto simp: submit_def Let_def res_simps split: if_splits intro: UpsertPublish_released_inv)
qed

lemma SubmitWithTx_released_inv:
  assumes "updates_struct upd" "released_inv st" "SubmitWithTx upd ev opt st = Inr (i, st')"
  shows "released_inv st'"
  using assms by (auto simp: SubmitWithTx_def Let_def res_simps split: option.splits
      intro: submit_released_inv)

text \<open>\<open>parseGroup\<close> may create a group and its binding; nothing else of the store changes.\<close>

definition same_pub :: "store \<Rightarrow> store \<Rightarrow> bool" where
  "same_pub st st' \<longleftrightarrow> Strategies st' = Strategies st \<and> next_strategy st' = next_strategy st
     \<and> Released st' = Released st \<and> next_released st' = next_released st \<and> Events st' = Events st"

lemma same_pub_refl [simp]: "same_pub st st"
  by (simp add: same_pub_def)

lemma CreateGroup_same_pub: "CreateGroupWithTx rx g st = Inr (i, st') \<Longrightarrow> same_pub st st'"
  by (auto simp: CreateGroupWithTx_def res_simps same_pub_def)

lemma same_pub_Binds: "same_pub st st' \<Longrightarrow> same_pub st (st'\<lparr>Binds := b\<rparr>)"
  by (simp add: same_pub_def)

lemma getOrCreate_same_pub:
  assumes "getOrCreateGroupByLabels rx ev gn b a nm ls st = Inr (i, st')"
  shows "same_pub st st'"
proof -
  obtain es gs where ls: "ls = Some es" "ListAppValidGroups b a st = Inr gs"
    using assms by (auto simp: getOrCreateGroupByLabels_def Let_def res_simps split: option.splits)
  let ?eq = "equal_groups \<lparr>MatchAll = False, LabelsOr = [], LabelsAnd = es\<rparr> gs"
  show ?thesis
  proof (cases "\<exists>g hs. ?eq = Some (g # hs)")
    case True
    then show ?thesis using assms ls by (auto simp: getOrCreateGroupByLabels_def)
  next
    case False
    then obtain n st1 where "CreateGroupWithTx rx n st = Inr (i, st1)"
      "st' = st1\<lparr>Binds := Binds st1 @ [(i, a, b)]\<rparr>"
      using assms ls
      by (cases ?eq) (auto simp: getOrCreateGroupByLabels_def rbind_Inr_iff split: list.splits)
    then show ?thesis by (simp add: CreateGroup_same_pub same_pub_Binds)
  qed
qed

lemma parseGroup_same_pub: "parseGroup rx ev gn req st = Inr (is, ns, st') \<Longrightarrow> same_pub st st'"
  by (auto simp: parseGroup_def Let_def res_simps dest: getOrCreate_same_pub split: if_splits)

lemma strat_inv_same_pub: "same_pub st st' \<Longrightarrow> strat_inv st \<Longrightarrow> strat_inv st'"
  by (simp add: same_pub_def strat_inv_def)

lemma released_inv_same_pub: "same_pub st st' \<Longrightarrow> released_inv st \<Longrightarrow> released_inv st'"
  by (simp add: same_pub_def released_inv_def)

lemma parsePublishOption_app [simp]:
  "o_BizID (parsePublishOption req ap) = sq_BizID req" "o_AppID (parsePublishOption req ap) = sq_AppID req"
  by (simp_all add: parsePublishOption_def Let_def)

lemma set_ticket_simps [simp]:
  "s_ID (set_ticket t s) = s_ID s" "app_of (set_ticket t s) = app_of s"
  "status_of (set_ticket t s) = status_of s"
  by (simp_all add: set_ticket_def app_of_def status_of_def option.case_eq_if option.map_sel)

text \<open>A successful submission, step by step.\<close>

lemma Submit_shape:
  assumes "SubmitPublishApprove upd rx it apps schedule cred gn k req st = Inr (st', i)"
  obtains st1 st2 opt ap gids where "\<not> in_flight (sq_BizID req) (sq_AppID req) st" "same_pub st st1"
    "find (\<lambda>a. a_BizID a = sq_BizID req \<and> a_ID a = sq_AppID req) apps = Some ap"
    "opt = (parsePublishOption req ap)\<lparr>o_Groups := gids,
       o_Revision := Some \<lparr>cr_Creator = User (Env k), cr_CreatedAt = 0\<rparr>\<rparr>"
    "SubmitWithTx upd (Env k) (Some opt) st1 = Inr (i, st2)"
    "st' = st2 \<or> (\<exists>t. st' = UpdateByID i (set_ticket t) st2)"
proof -
  obtain ap where ap: "find (\<lambda>a. a_BizID a = sq_BizID req \<and> a_ID a = sq_AppID req) apps = Some ap"
    using assms by (cases "find (\<lambda>a. a_BizID a = sq_BizID req \<and> a_ID a = sq_AppID req) apps")
      (auto simp: SubmitPublishApprove_def)
  obtain release where rel: "get_release (sq_BizID req) (sq_AppID req) (sq_ReleaseID req) st = Some release"
    using assms ap by (cases "get_release (sq_BizID req) (sq_AppID req) (sq_ReleaseID req) st")
      (auto simp: SubmitPublishApprove_def)
  have nf: "\<not> in_flight (sq_BizID req) (sq_AppID req) st"
    using assms ap rel by (auto simp: SubmitPublishApprove_def split: if_splits)
  obtain gids gnames st1 where pg: "parseGroup rx (Env k) gn req st = Inr (gids, gnames, st1)"
    using assms ap rel nf by (auto simp: SubmitPublishApprove_def res_simps split: if_splits)
  let ?opt = "(parsePublishOption req ap)\<lparr>o_Groups := gids,
                 o_Revision := Some \<lparr>cr_Creator = User (Env k), cr_CreatedAt = 0\<rparr>\<rparr>"
  obtain st2 where "SubmitWithTx upd (Env k) (Some ?opt) st1 = Inr (i, st2)"
    "st' = st2 \<or> (\<exists>t. st' = UpdateByID i (set_ticket t) st2)"
    using assms ap rel nf pg
    by (auto simp: SubmitPublishApprove_def res_simps Let_def split: if_splits)
  then show thesis
    using that [OF nf parseGroup_same_pub [OF pg] ap refl] by blast
qed

lemma app_of_filter:
  "(case Attachment s of None \<Rightarrow> False | Some a \<Rightarrow> sa_BizID a = b \<and> sa_AppID a = a') \<longleftrightarrow> app_of s = Some (b, a')"
  by (simp add: app_of_def split: option.splits)

lemma GetLast_sorted:
  assumes "strat_inv st"
  shows "GetLast b a 0 0 st = (let xs = filter (\<lambda>s. app_of s = Some (b, a)) (Strategies st)
     in if xs = [] then None else Some (last xs))"
  using strat_inv_sorted [OF assms]
  by (simp add: GetLast_def app_of_filter last_by_id_sorted sorted_wrt_filter Let_def)

lemma not_in_flight:
  assumes inv: "strat_inv st" and nf: "\<not> in_flight b a st"
    and s: "s \<in> set (Strategies st)" "app_of s = Some (b, a)"
  shows "\<not> pending (status_of s)"
proof -
  let ?xs = "filter (\<lambda>s. app_of s = Some (b, a)) (Strategies st)"
  have ne: "?xs \<noteq> []" and mem: "s \<in> set ?xs" using s by (auto simp: filter_empty_conv)
  have lst: "\<not> pending (status_of (last ?xs))"
    using nf ne by (auto simp: in_flight_def GetLast_sorted [OF inv] Let_def status_of_def pending_def
        split: option.splits if_splits)
  have "sorted_wrt (\<lambda>s t. s_ID s < s_ID t
        \<and> (app_of s = app_of t \<longrightarrow> app_of s \<noteq> None \<longrightarrow> \<not> pending (status_of s))) ?xs"
    using inv by (simp add: strat_inv_def sorted_wrt_filter)
  then have "sorted_wrt (\<lambda>s t. app_of s = app_of t \<longrightarrow> app_of s \<noteq> None \<longrightarrow> \<not> pending (status_of s))
      (butlast ?xs @ [last ?xs])"
    using ne by (simp add: sorted_wrt_mono_rel [rotated])
  moreover have "app_of (last ?xs) = Some (b, a)" using last_in_set [OF ne] by auto
  ultimately have "\<forall>x \<in> set (butlast ?xs). app_of x = Some (b, a) \<longrightarrow> \<not> pending (status_of x)"
    by (auto simp: sorted_wrt_append)
  moreover have "s \<in> set (butlast ?xs) \<or> s = last ?xs"
    using mem ne by (metis append_butlast_last_id in_set_butlastD rotate1.simps(2) set_ConsD set_rotate1)
  ultimately show ?thesis using lst s(2) by auto
qed

lemma strat_inv_append:
  assumes inv: "strat_inv st" and nf: "\<not> in_flight b a st"
    and st': "Strategies st' = Strategies st @ [stg]" "s_ID stg = next_strategy st"
      "next_strategy st' = next_strategy st + 1" "app_of stg = Some (b, a)"
  shows "strat_inv st'"
  using inv st' not_in_flight [OF inv nf]
  by (auto simp: strat_inv_def sorted_wrt_append less_Suc_eq)

lemma in_flight_same_pub: "same_pub st st' \<Longrightarrow> in_flight b a st' = in_flight b a st"
  by (simp add: in_flight_def GetLast_def same_pub_def)

text \<open>A submission of an application with none in flight, by whatever handler.\<close>

lemma submission_strat_inv:
  assumes "strat_inv st" "\<not> in_flight b a st" "same_pub st st1"
    and sub: "SubmitWithTx upd ev (Some opt) st1 = Inr (i, st2)" and "o_BizID opt = b" "o_AppID opt = a"
    and st': "st' = st2 \<or> (\<exists>t. st' = UpdateByID i (set_ticket t) st2)"
  shows "strat_inv st'"
proof -
  have inv1: "strat_inv st1" and nf1: "\<not> in_flight b a st1"
    using assms(1-3) by (simp_all add: strat_inv_same_pub in_flight_same_pub)
  obtain stg where stg: "i = next_strategy st1" "next_strategy st2 = i + 1"
    "Strategies st2 = Strategies st1 @ [stg]" "s_ID stg = i" "app_of stg = Some (b, a)"
    using SubmitWithTx_frame [OF sub] assms(5,6) by auto
  have "strat_inv st2"
    by (rule strat_inv_append [OF inv1 nf1 stg(3)]) (use stg in auto)
  moreover have "strat_inv (UpdateByID i (set_ticket t) st2)" for t
    by (rule strat_inv_update [OF \<open>strat_inv st2\<close>]) (auto intro: status_step.stay)
  ultimately show ?thesis using st' by auto
qed

lemma Submit_strat_inv:
  assumes "strat_inv st" "SubmitPublishApprove upd rx it apps schedule cred gn k req st = Inr (st', i)"
  shows "strat_inv st'"
  using assms(2) by (rule Submit_shape) (rule submission_strat_inv [OF assms(1)], (assumption | simp)+)

lemma released_inv_UpdateByID [simp]: "released_inv (UpdateByID i f st) = released_inv st"
  by (simp add: released_inv_def UpdateByID_def)

lemma Submit_released_inv:
  assumes "updates_struct upd" "released_inv st"
    "SubmitPublishApprove upd rx it apps schedule cred gn k req st = Inr (st', i)"
  shows "released_inv st'"
  using assms(3)
  by (rule Submit_shape) (use assms(1,2) in \<open>auto dest: SubmitWithTx_released_inv released_inv_same_pub\<close>)

text \<open>A successful submission that creates its release, step by step.\<close>

lemma genGroupID_same_pub: "genReleaseAndPublishGroupID rx ev gn req st = Inr (is, ns, st') \<Longrightarrow> same_pub st st'"
  by (auto simp: genReleaseAndPublishGroupID_def Let_def res_simps dest: getOrCreate_same_pub split: if_splits)

lemma create_release_same_pub: "create_release apps ev rid req st = Inr st' \<Longrightarrow> same_pub st st'"
  by (auto simp: create_release_def res_simps same_pub_def split: if_splits)

lemma same_pub_trans: "same_pub st st1 \<Longrightarrow> same_pub st1 st2 \<Longrightarrow> same_pub st st2"
  by (simp add: same_pub_def)

lemma Generate_shape:
  assumes "GenerateReleaseAndPublish upd rx it apps rid content gn k req st = Inr (st', i)"
  obtains st1 st2 ap gids where "\<not> in_flight (gq_BizID req) (gq_AppID req) st" "same_pub st st1"
    "SubmitWithTx upd (Env k) (Some (generate_opt (Env k) ap rid gids req)) st1 = Inr (i, st2)"
    "st' = st2 \<or> (\<exists>t. st' = UpdateByID i (set_ticket t) st2)"
proof -
  obtain ap where ap: "find (\<lambda>a. a_ID a = gq_AppID req) apps = Some ap"
    using assms by (cases "find (\<lambda>a. a_ID a = gq_AppID req) apps") (auto simp: GenerateReleaseAndPublish_def)
  have nf: "\<not> in_flight (gq_BizID req) (gq_AppID req) st"
    using assms ap by (auto simp: GenerateReleaseAndPublish_def split: if_splits)
  obtain gids gnames st1 st2 where
    g: "genReleaseAndPublishGroupID rx (Env k) gn req st = Inr (gids, gnames, st1)"
      "create_release apps (Env k) rid req st1 = Inr st2"
    and "\<exists>st3. SubmitWithTx upd (Env k) (Some (generate_opt (Env k) ap rid gids req)) st2 = Inr (i, st3)
      \<and> (st' = st3 \<or> (\<exists>t. st' = UpdateByID i (set_ticket t) st3))"
    using assms ap by (auto simp: GenerateReleaseAndPublish_def res_simps split: if_splits)
  then show thesis
    using that [OF nf same_pub_trans [OF genGroupID_same_pub create_release_same_pub]] by blast
qed

lemma generate_opt_app [simp]:
  "o_BizID (generate_opt ev ap rid gids req) = gq_BizID req" "o_AppID (generate_opt ev ap rid gids req) = gq_AppID req"
  by (simp_all add: generate_opt_def Let_def)

lemma Generate_strat_inv:
  assumes "strat_inv st" "GenerateReleaseAndPublish upd rx it apps rid content gn k req st = Inr (st', i)"
  shows "strat_inv st'"
  using assms(2) by (rule Generate_shape) (rule submission_strat_inv [OF assms(1)], (assumption | simp)+)

lemma Generate_released_inv:
  assumes "updates_struct upd" "released_inv st"
    "GenerateReleaseAndPublish upd rx it apps rid content gn k req st = Inr (st', i)"
  shows "released_inv st'"
  using assms(3)
  by (rule Generate_shape) (use assms(1,2) in \<open>auto dest: SubmitWithTx_released_inv released_inv_same_pub\<close>)

lemma Approve_released_inv:
  assumes "updates_struct upd" "released_inv st" "Approve upd it apps cred k req st = Inr (st', msg)"
  shows "released_inv st'"
  using Approve_shape [OF assms(3)] assms(1,2) by (auto dest: decide_released_inv)

text \<open>The one \<open>Approve\<close> of a callback that changed the store.\<close>

lemma Callback_found:
  assumes "ApprovalCallback upd it apps cred k req st = Inr (st', resp)" "st' \<noteq> st"
  obtains ticket stg spec revn areq k' msg where "cb_Ticket req = Some ticket"
    "find (\<lambda>s. case Spec s of None \<Rightarrow> False | Some p \<Rightarrow> ItsmTicketSn p = ticket)
       (ListStrategyByReleasesID (cb_ReleaseID req) st) = Some stg"
    "Spec stg = Some spec" "s_Revision stg = Some revn"
    "ItsmCallbackToken spec \<noteq> [] \<longrightarrow> ItsmCallbackToken spec = cb_Token req"
    "q_StrategyID areq = s_ID stg" "q_PublishStatus areq \<noteq> AlreadyPublish" "OperateWay k' = OperateWay k"
    "Approve upd it apps cred k' areq st = Inr (st', msg)"
proof -
  obtain ticket where ticket: "cb_Ticket req = Some ticket"
    using assms by (auto simp: ApprovalCallback_def split: option.splits)
  let ?find = "find (\<lambda>s. case Spec s of None \<Rightarrow> False | Some p \<Rightarrow> ItsmTicketSn p = ticket)
             (ListStrategyByReleasesID (cb_ReleaseID req) st)"
  obtain stg where stg: "?find = Some stg"
    using assms ticket by (cases ?find) (auto simp: ApprovalCallback_def)
  obtain spec revn where sp: "Spec stg = Some spec" "s_Revision stg = Some revn"
    using assms ticket stg by (auto simp: ApprovalCallback_def split: option.splits)
  have tok: "ItsmCallbackToken spec \<noteq> [] \<longrightarrow> ItsmCallbackToken spec = cb_Token req"
    using assms ticket stg sp by (auto simp: ApprovalCallback_def split: if_splits)
  obtain activeKey ar passed where ar: "GetConfig it (BuildStateIDKey (TenantID k) (ApproveType spec)) = Inr activeKey"
    "GetApproveResult it ticket [] activeKey = Inr ar" "ar_Result ar = Some passed"
    using assms ticket stg sp
    by (auto simp: ApprovalCallback_def res_simps split: if_splits option.splits)
  let ?areq = "\<lparr>q_BizID = cb_BizID req, q_AppID = cb_AppID req, q_ReleaseID = cb_ReleaseID req,
       q_StrategyID = s_ID stg, q_PublishStatus = (if passed then PendingPublish else RejectedApproval),
       q_Reason = (if passed then [] else joinWith '','' (Reasons ar)),
       q_ApprovedBy = (if passed then PassUsers ar else RejectUsers ar)\<rparr>"
  let ?A = "Approve upd it apps cred (k\<lparr>Env := (Env k)\<lparr>User := Creator revn\<rparr>\<rparr>) ?areq st"
  obtain st1 msg where a: "?A = Inr (st1, msg)"
    using assms ticket stg sp ar
    by (cases ?A) (auto simp: ApprovalCallback_def wrap_err_def Let_def split: if_splits)
  then have "st1 = st'"
    using assms ticket stg sp ar
    by (auto simp: ApprovalCallback_def wrap_err_def Let_def split: if_splits)
  then show thesis using that [OF ticket stg sp tok _ _ _ a [unfolded \<open>st1 = st'\<close>]] by auto
qed

text \<open>A callback changes the store by one \<open>Approve\<close> with an empty \<open>OperateWay\<close>, or not at all.\<close>

lemma Callback_shape:
  assumes "ApprovalCallback upd it apps cred k req st = Inr (st', resp)"
  shows "st' = st \<or> (\<exists>k' areq msg. OperateWay k' = OperateWay k \<and> Approve upd it apps cred k' areq st = Inr (st', msg))"
  using Callback_found [OF assms] by blast

lemmas pub_handler_inv = Submit_strat_inv Approve_strat_inv Submit_released_inv Approve_released_inv
  Generate_strat_inv Generate_released_inv

section \<open>The service as a transition system\<close>

text \<open>
  Every request may come with its own answers of the ticket service, applications and clock. The
  rules name every writer of the strategies and of the released groups under \<open>cmd\<close>, apart from
  the migrations: the handlers, the scheduled publication of the cache service (with any strategies
  due), the change of a group and the deletion of an application. The periodic check of the tickets
  (\<open>sync_ticket_status.go\<close>) calls \<open>Approve\<close>. The last rule is any other change of the store; it
  leaves these two tables and their ids alone. Handlers and runs follow each other: the check that
  nothing is in flight is read before the transaction, and two submissions of one application that
  overlap could both pass it.
\<close>

inductive pub_step :: "upd_fun \<Rightarrow> store \<Rightarrow> store \<Rightarrow> bool" for upd where
  submits: "SubmitPublishApprove upd rx it apps schedule cred gn k req st = Inr (st', i) \<Longrightarrow> pub_step upd st st'"
| publishes: "Publish upd rx it apps schedule cred gn k req st = Inr (st', i) \<Longrightarrow> pub_step upd st st'"
| approves: "Approve upd it apps cred k areq st = Inr (st', msg) \<Longrightarrow> pub_step upd st st'"
| calls_back: "ApprovalCallback upd it apps cred k creq st = Inr (st', resp) \<Longrightarrow> pub_step upd st st'"
| generates: "GenerateReleaseAndPublish upd rx it apps rid content gn k greq st = Inr (st', i) \<Longrightarrow> pub_step upd st st'"
| timer: "updateStrategy upd ev due st = Inr st' \<Longrightarrow> pub_step upd st st'"
| edits_group: "UpdateEditedStatusWithTx edited gid biz st = Inr st' \<Longrightarrow> pub_step upd st st'"
| deletes_app: "BatchDeleteByAppIDWithTx aid biz st = Inr st' \<Longrightarrow> pub_step upd st st'"
| others: "Strategies st' = Strategies st \<Longrightarrow> next_strategy st' = next_strategy st \<Longrightarrow>
    Released st' = Released st \<Longrightarrow> next_released st' = next_released st \<Longrightarrow> pub_step upd st st'"

definition init_store :: store where
  "init_store = \<lparr>Groups = [], Binds = [], Strategies = [], Released = [], Releases = [], Events = [],
     next_group = 1, next_released = 1, next_strategy = 1\<rparr>"

abbreviation reachable :: "upd_fun \<Rightarrow> store \<Rightarrow> bool" where
  "reachable upd \<equiv> reach (\<lambda>st. st = init_store) (pub_step upd)"

lemma Publish_submits:
  assumes "Publish upd rx it apps schedule cred gn k req st = Inr r"
  shows "\<exists>req'. SubmitPublishApprove upd rx it apps schedule cred gn k req' st = Inr r"
proof (cases "find (\<lambda>a. a_BizID a = sq_BizID req \<and> a_ID a = sq_AppID req) apps")
  case None
  then show ?thesis using assms by (simp add: Publish_def)
next
  case (Some ap)
  then show ?thesis using assms by (auto simp: Publish_def)
qed

lemma pub_step_inv:
  assumes "updates_struct upd" "pub_step upd st st'" "strat_inv st" "released_inv st"
  shows "strat_inv st' \<and> released_inv st'"
  using assms(2)
proof cases
  case publishes
  then show ?thesis using assms pub_handler_inv by (metis Publish_submits)
next
  case calls_back
  then show ?thesis using assms pub_handler_inv by (metis Callback_shape)
next
  case timer
  then show ?thesis using assms updateStrategy_inv by blast
next
  case edits_group
  then show ?thesis using assms UpdateEdited_inv by blast
next
  case deletes_app
  then show ?thesis using assms BatchDelete_inv by blast
next
  case others
  then show ?thesis using assms by (simp add: strat_inv_def released_inv_def)
qed (use assms pub_handler_inv in metis)+

interpretation pub: transition_system "\<lambda>st. st = init_store" "pub_step upd"
    "\<lambda>st. updates_struct upd \<longrightarrow> strat_inv st \<and> released_inv st" for upd
proof
  show "st = init_store \<Longrightarrow> updates_struct upd \<longrightarrow> strat_inv st \<and> released_inv st" for st
    by (simp add: init_store_def strat_inv_def released_inv_def)
qed (use pub_step_inv in blast)

lemma reachable_inv: "reachable upd st \<Longrightarrow> updates_struct upd \<Longrightarrow> strat_inv st \<and> released_inv st"
  using pub.reach_inv by blast

end
