(* ===== verification/ApprovalClaims.thy ===== *)
theory ApprovalClaims
  imports ApprovalFlow
begin

text \<open>
  The properties of the publication service, with the concrete stores their witnesses use.
\<close>

section \<open>Decisions in detail\<close>

lemma decide_pending:
  "decide upd k req stg spec c st = Inr (u, t, st1) \<Longrightarrow> pending (PublishStatus spec)"
  by (auto simp: decision_defs res_simps pending_def split: publish_status.splits if_splits)

lemma decide_publishes:
  assumes "decide upd k req stg spec c st = Inr (u, t, st1)" "Released st1 \<noteq> Released st"
  shows "u_status u = AlreadyPublish"
proof (cases "q_PublishStatus req")
  case PendingPublish
  obtain s p tk where ps: "pass_status k req spec = (s, p, tk)" by (cases "pass_status k req spec") auto
  show ?thesis
    using assms PendingPublish by (auto simp: decision_defs ps res_simps split: if_splits)
qed (use assms in \<open>auto simp: decision_defs res_simps split: if_splits\<close>)

lemma decide_pass_user:
  assumes "decide upd k req stg spec c st = Inr (u, t, st1)" "PublishStatus spec = PendingApproval"
    and "u_status u = PendingPublish \<or> u_status u = AlreadyPublish" "OperateWay k = WebUI"
  shows "User (Env k) \<in> set (splitOn CHR '','' (ApproverProgress spec))"
proof (cases "q_PublishStatus req")
  case PendingPublish
  then show ?thesis using assms by (auto simp: decision_defs res_simps split: if_splits)
qed (use assms in \<open>auto simp: decision_defs res_simps split: if_splits\<close>)

text \<open>What one successful \<open>Approve\<close> does to the strategies and to the released groups.\<close>

lemma Approve_effect:
  assumes inv: "strat_inv st" and ap: "Approve upd it apps cred k req st = Inr (st', msg)"
  obtains "st' = st"
  | stg spec k' req' c u t st1 where "stg \<in> set (Strategies st)" "app_of stg = Some (q_BizID req, q_AppID req)"
      "Spec stg = Some spec" "decide upd k' req' stg spec c st = Inr (u, t, st1)"
      "Strategies st' = map (\<lambda>s. if s = stg then apply_updates k' u s else s) (Strategies st)"
      "Released st' = Released st1" "same_user k k'"
      "q_PublishStatus req' = AlreadyPublish \<longrightarrow> q_PublishStatus req = AlreadyPublish"
      "GetLast (q_BizID req) (q_AppID req) (q_ReleaseID req) (q_StrategyID req) st = Some stg"
proof -
  have "st' = st \<or> (\<exists>stg spec k' req' c u t st1.
      stg \<in> set (Strategies st) \<and> app_of stg = Some (q_BizID req, q_AppID req)
    \<and> Spec stg = Some spec \<and> decide upd k' req' stg spec c st = Inr (u, t, st1)
    \<and> Strategies st' = map (\<lambda>s. if s = stg then apply_updates k' u s else s) (Strategies st)
    \<and> Released st' = Released st1 \<and> same_user k k'
    \<and> (q_PublishStatus req' = AlreadyPublish \<longrightarrow> q_PublishStatus req = AlreadyPublish)
    \<and> GetLast (q_BizID req) (q_AppID req) (q_ReleaseID req) (q_StrategyID req) st = Some stg)"
    using Approve_shape [OF ap]
  proof (elim disjE exE conjE)
    fix stg spec k' req' c u t st1
    assume g: "GetLast (q_BizID req) (q_AppID req) (q_ReleaseID req) (q_StrategyID req) st = Some stg"
      "Spec stg = Some spec" "decide upd k' req' stg spec c st = Inr (u, t, st1)"
      "st' = UpdateByID (s_ID stg) (apply_updates k' u) st1" "same_user k k'"
      "q_PublishStatus req' = AlreadyPublish \<longrightarrow> q_PublishStatus req = AlreadyPublish"
    have mem: "stg \<in> set (Strategies st)" "app_of stg = Some (q_BizID req, q_AppID req)"
      using GetLast_mem [OF g(1)] by auto
    have "s_ID s = s_ID stg \<longleftrightarrow> s = stg" if "s \<in> set (Strategies st)" for s
      using strat_inv_id_unique [OF inv that mem(1)] by auto
    then have "Strategies st' = map (\<lambda>s. if s = stg then apply_updates k' u s else s) (Strategies st)"
      using decide_strategies [OF g(3)] by (simp add: g(4) UpdateByID_def)
    moreover have "Released st' = Released st1" by (simp add: g(4) UpdateByID_def)
    ultimately show ?thesis using mem g(1-3,5,6) by blast
  qed simp
  then show thesis using that by blast
qed

section \<open>Examples\<close>

definition app_ex :: "bool \<Rightarrow> app" where
  "app_ex b = \<lparr>a_ID = 3, a_BizID = 2, IsApprove = b, a_Approver = ''a,b,c'', a_ApproveType = CountSign\<rparr>"

definition itsm_ex :: itsm where
  "itsm_ex = \<lparr>GetTicketStatus = (\<lambda>_. Inr ''RUNNING''),
     GetApproveResult = (\<lambda>_ _ _. Inr \<lparr>ar_Result = None, RejectUsers = [], PassUsers = [], Reasons = []\<rparr>),
     RevokedTicket = (\<lambda>_. Inr ()), ApprovalTicket = (\<lambda>_. Inr ()),
     CreateTicket = (\<lambda>_ _ _. Inr \<lparr>TicketURL = ''url'', SN = ''sn'', StateID = ''st'', CallbackToken = ''tk''\<rparr>),
     EnableV4 = False, GetConfig = (\<lambda>_. Inr []), UnmarshalTasks = (\<lambda>_. None)\<rparr>"

definition kit_ex :: "string \<Rightarrow> kit" where
  "kit_ex u = \<lparr>Env = env_ex\<lparr>User := u\<rparr>, OperateWay = WebUI, TenantID = []\<rparr>"

definition submit_ex :: "publish_type \<Rightarrow> submit_req" where
  "submit_ex pt = \<lparr>sq_BizID = 2, sq_AppID = 3, sq_ReleaseID = 7, sq_Memo = [], sq_All = False,
     sq_Mode = OtherPublishMode [], sq_Default = False, sq_Groups = [5], sq_Labels = None, sq_GroupName = [],
     sq_PublishType = pt, sq_PublishTime = []\<rparr>"

definition approve_ex :: "publish_status \<Rightarrow> approve_req" where
  "approve_ex s = \<lparr>q_BizID = 2, q_AppID = 3, q_ReleaseID = 7, q_StrategyID = 0, q_PublishStatus = s,
     q_Reason = ''no'', q_ApprovedBy = []\<rparr>"

definition store0_ex :: store where
  "store0_ex = init_store\<lparr>Groups := Groups store_ex, Releases := Releases store_ex, next_group := 9\<rparr>"

definition stg_ex :: "publish_status \<Rightarrow> string \<Rightarrow> string \<Rightarrow> int \<Rightarrow> strategy" where
  "stg_ex status progress tk reviser_at = \<lparr>s_ID = 1, Spec = Some
     \<lparr>s_Name = ''t'', ReleaseID = 7, AsDefault = False, Scope = Some [group_ex], Namespace = [], Memo = [],
      PublishType = Automatically, PublishTime = [], PublishStatus = status, RejectReason = [],
      Approver = ''a,b,c'', ApproverProgress = progress, FinalApprovalTime = 100, ApproveType = CountSign,
      ItsmTicketType = ''create'', ItsmTicketUrl = ''url'', ItsmTicketSn = ''sn'', ItsmTicketStatus = tk,
      ItsmTicketStateID = ''st'', ItsmCallbackToken = ''tk''\<rparr>,
     State = Some Unpublished,
     Attachment = Some \<lparr>sa_BizID = 2, sa_AppID = 3, sa_StrategySetID = 0\<rparr>,
     s_Revision = Some \<lparr>Creator = ''u'', Reviser = ''u'', CreatedAt = 100, RevUpdatedAt = 100\<rparr>\<rparr>"

definition store1_ex :: store where
  "store1_ex = store0_ex\<lparr>Strategies := [stg_ex PendingApproval ''a,b,c'' ''created'' 100], next_strategy := 2\<rparr>"

lemmas ex_defs = app_ex_def itsm_ex_def kit_ex_def submit_ex_def approve_ex_def store0_ex_def store1_ex_def
  init_store_def store_ex_def env_ex_def stg_ex_def group_ex_def

lemma submit_ex_result:
  "SubmitPublishApprove gorm_updates Map.empty itsm_ex [app_ex True] (\<lambda>_ _. Inr ()) (Inr True) []
     (kit_ex ''u'') (submit_ex Automatically) store0_ex = Inr (store1_ex, 1)"
  by code_simp


lemma store1_ex_reachable: "reachable gorm_updates store1_ex"
proof -
  have "pub_step gorm_updates init_store store0_ex"
    by (rule pub_step.others) (simp_all add: store0_ex_def)
  moreover have "pub_step gorm_updates store0_ex store1_ex"
    by (rule pub_step.submits [OF submit_ex_result])
  ultimately show ?thesis by (blast intro: reach.intros)
qed

lemma store1_ex_inv: "strat_inv store1_ex"
  using reachable_inv [OF store1_ex_reachable gorm_updates_struct] by blast

section \<open>The reachable stores\<close>

text \<open>
  C1: After any sequence of submissions (also those that create their release), decisions,
  callbacks, scheduled publications of the cache service, changes of groups and deletions of
  applications, one after the other and between any changes of other tables, an application has at
  most one row for each group in the table of released groups, and at most one submission waiting
  for approval or for publication.
\<close>

theorem reachable_one_in_flight:
  assumes "updates_struct upd" "reachable upd st"
  shows "distinct (map rg_key (Released st))
    \<and> (\<forall>s \<in> set (Strategies st). \<forall>t \<in> set (Strategies st). pending (status_of s) \<longrightarrow> pending (status_of t)
        \<longrightarrow> app_of s = app_of t \<longrightarrow> app_of s \<noteq> None \<longrightarrow> s = t)"
proof (intro conjI ballI impI)
  have inv: "strat_inv st" "released_inv st"
    using reachable_inv [OF assms(2,1)] by auto
  show "distinct (map rg_key (Released st))" using inv(2) by (simp add: released_inv_def)
  fix s t
  assume st: "s \<in> set (Strategies st)" "t \<in> set (Strategies st)" "pending (status_of s)"
    "pending (status_of t)" "app_of s = app_of t" "app_of s \<noteq> None"
  show "s = t"
  proof (rule ccontr)
    assume "s \<noteq> t"
    obtain i j where ij: "i < length (Strategies st)" "j < length (Strategies st)"
      "s = Strategies st ! i" "t = Strategies st ! j"
      using st(1,2) by (metis in_set_conv_nth)
    with \<open>s \<noteq> t\<close> have "i < j \<or> j < i" by (metis linorder_neqE_nat)
    moreover have "\<not> pending (status_of (Strategies st ! m))"
      if "m < n" "n < length (Strategies st)" "app_of (Strategies st ! m) = app_of (Strategies st ! n)"
        "app_of (Strategies st ! m) \<noteq> None" for m n
      using inv(1) that by (auto simp: strat_inv_def sorted_wrt_iff_nth_less)
    ultimately show False using ij st by metis
  qed
qed

theorem reachable_one_in_flight_witness:
  "distinct (map rg_key (Released store1_ex)) \<and> length (Strategies store1_ex) = 1
    \<and> pending (status_of (hd (Strategies store1_ex)))"
  using reachable_one_in_flight [OF gorm_updates_struct store1_ex_reachable]
  by (simp add: store1_ex_def stg_ex_def status_of_def pending_def)

section \<open>Decisions\<close>

text \<open>
  C2: A successful \<open>Approve\<close> changes at most one strategy: it belongs to the application of the
  request, it was in flight, and its status moves along the life cycle. Every other strategy is
  left as it is, and the table the feed server reads changes only if that strategy ends published.
\<close>

theorem approve_follows_life_cycle:
  assumes "strat_inv st" "Approve upd it apps cred k req st = Inr (st', msg)"
  shows "st' = st \<or> (\<exists>s \<in> set (Strategies st). \<exists>s'. app_of s = Some (q_BizID req, q_AppID req)
    \<and> pending (status_of s) \<and> status_step (status_of s) (status_of s') \<and> s_ID s' = s_ID s \<and> app_of s' = app_of s
    \<and> Strategies st' = map (\<lambda>x. if x = s then s' else x) (Strategies st)
    \<and> (Released st' = Released st \<or> status_of s' = AlreadyPublish))"
  using assms
proof (rule Approve_effect)
  fix stg spec k' req' c u t st1
  assume g: "stg \<in> set (Strategies st)" "app_of stg = Some (q_BizID req, q_AppID req)" "Spec stg = Some spec"
    "decide upd k' req' stg spec c st = Inr (u, t, st1)"
    "Strategies st' = map (\<lambda>s. if s = stg then apply_updates k' u s else s) (Strategies st)"
    "Released st' = Released st1"
  have "status_of stg = PublishStatus spec" using g(3) by (simp add: status_of_def)
  then have "pending (status_of stg)" "status_step (status_of stg) (u_status u)"
    "Released st' = Released st \<or> u_status u = AlreadyPublish"
    using decide_pending [OF g(4)] decide_step [OF g(4)] decide_publishes [OF g(4)] g(6) by auto
  moreover have "Strategies st' = map (\<lambda>x. if x = stg then apply_updates k' u stg else x) (Strategies st)"
    using g(5) by (simp cong: if_cong)
  ultimately show ?thesis using g(1-3)
    by (intro disjI2 bexI [of _ stg] exI [of _ "apply_updates k' u stg"]) simp_all
qed simp

text \<open>The store after \<open>a\<close>, the first of three approvers, has passed.\<close>

definition store2_ex :: store where
  "store2_ex = store1_ex\<lparr>Strategies := [apply_updates (kit_ex ''a'')
     \<lparr>u_status = PendingApproval, u_reason = None, u_progress = Some ''b, c'', u_ticket_status = None,
      u_pub_state = None\<rparr> (stg_ex PendingApproval ''a,b,c'' ''created'' 100)]\<rparr>"

lemma approve_ex_result:
  "Approve gorm_updates itsm_ex [app_ex True] (Inr True) (kit_ex ''a'') (approve_ex PendingPublish) store1_ex
     = Inr (store2_ex, [])"
  by code_simp

theorem approve_follows_life_cycle_witness:
  "\<exists>s'. Strategies store2_ex = [s'] \<and> status_step PendingApproval (status_of s') \<and> store2_ex \<noteq> store1_ex"
proof -
  have "store2_ex \<noteq> store1_ex"
    by code_simp
  then show ?thesis
    using approve_follows_life_cycle [OF store1_ex_inv approve_ex_result]
    by (auto simp: store1_ex_def stg_ex_def status_of_def)
qed

text \<open>
  C35: On the web page a submission leaves the state of waiting for approval as approved or
  published only if the user of the request is one of the approvers still in its progress.
\<close>

theorem web_pass_needs_approver:
  assumes "strat_inv st" "Approve upd it apps cred k req st = Inr (st', msg)" "OperateWay k = WebUI"
    and "s \<in> set (Strategies st)" "Spec s = Some spec" "PublishStatus spec = PendingApproval"
    and "s' \<in> set (Strategies st')" "s_ID s' = s_ID s" "status_of s' \<in> {PendingPublish, AlreadyPublish}"
  shows "User (Env k) \<in> set (splitOn CHR '','' (ApproverProgress spec))"
  using assms(1,2)
proof (rule Approve_effect)
  assume "st' = st"
  then have "s' = s" using strat_inv_id_unique [OF assms(1) _ assms(4)] assms(7,8) by simp
  then show ?thesis using assms(5,6,9) by (simp add: status_of_def)
next
  fix stg sp k' req' c u t st1
  assume g: "stg \<in> set (Strategies st)" "Spec stg = Some sp"
    "decide upd k' req' stg sp c st = Inr (u, t, st1)"
    "Strategies st' = map (\<lambda>x. if x = stg then apply_updates k' u x else x) (Strategies st)" "same_user k k'"
  obtain x where x: "x \<in> set (Strategies st)" "s' = (if x = stg then apply_updates k' u x else x)"
    using assms(7) g(4) by auto
  then have "x = s" using strat_inv_id_unique [OF assms(1) _ assms(4)] assms(8) by (auto split: if_splits)
  then have "x = stg" using x(2) assms(5,6,9) by (auto simp: status_of_def split: if_splits)
  then have "sp = spec" "u_status u = PendingPublish \<or> u_status u = AlreadyPublish"
    using \<open>x = s\<close> x(2) g(2) assms(5,9) by auto
  moreover have "OperateWay k' = WebUI" "User (Env k') = User (Env k)"
    using g(5) assms(3) by (simp_all add: same_user_def)
  ultimately show ?thesis using decide_pass_user [OF g(3)] assms(6) by simp
qed


text \<open>The same strategy with one approver left passes.\<close>

definition store3_ex :: store where
  "store3_ex = store0_ex\<lparr>Strategies := [stg_ex PendingApproval ''c'' ''created'' 100], next_strategy := 2\<rparr>"

definition store4_ex :: store where
  "store4_ex = (case Approve gorm_updates itsm_ex [app_ex True] (Inr True) (kit_ex ''c'') (approve_ex PendingPublish)
     store3_ex of Inl _ \<Rightarrow> store3_ex | Inr (st, _) \<Rightarrow> st)"

lemma store3_ex_inv: "strat_inv store3_ex"
  by (simp add: strat_inv_def store3_ex_def stg_ex_def)

lemma store4_ex_result:
  "Approve gorm_updates itsm_ex [app_ex True] (Inr True) (kit_ex ''c'') (approve_ex PendingPublish) store3_ex
     = Inr (store4_ex, [])"
  by code_simp

lemma store4_ex_simps:
  "map s_ID (Strategies store4_ex) = [1]" "map status_of (Strategies store4_ex) = [AlreadyPublish]"
  "map rg_ReleaseID (Released store4_ex) = [7]" "map FullyReleased (Releases store4_ex) = [False]"
  by code_simp+

theorem web_pass_needs_approver_witness: "''c'' \<in> set (splitOn CHR '','' ''c'')"
proof -
  obtain s' where s': "Strategies store4_ex = [s']" "s_ID s' = 1" "status_of s' = AlreadyPublish"
    using store4_ex_simps(1,2) by (cases "Strategies store4_ex") auto
  have "User (Env (kit_ex ''c'')) \<in> set (splitOn CHR '','' (ApproverProgress
      (the (Spec (stg_ex PendingApproval ''c'' ''created'' 100)))))"
    by (rule web_pass_needs_approver [OF store3_ex_inv store4_ex_result,
          where s = "stg_ex PendingApproval ''c'' ''created'' 100" and s' = s'])
      (use s' in \<open>simp_all add: kit_ex_def store3_ex_def stg_ex_def\<close>)
  then show ?thesis by (simp add: kit_ex_def stg_ex_def env_ex_def)
qed


section \<open>Submission of an application that is approved\<close>

text \<open>
  C34: A submission for an application with approvers releases nothing, whatever its kind of
  publication: the released groups and the releases stay as they are, and the new strategy waits
  for approval.
\<close>

theorem approval_needed_before_release:
  assumes "strat_inv st" "SubmitPublishApprove upd rx it apps schedule cred gn k req st = Inr (st', i)"
    and "find (\<lambda>a. a_BizID a = sq_BizID req \<and> a_ID a = sq_AppID req) apps = Some ap"
    and "IsApprove ap" "a_Approver ap \<noteq> []"
  shows "Released st' = Released st \<and> Events st' = Events st
    \<and> (\<exists>stg. Strategies st' = Strategies st @ [stg] \<and> s_ID stg = i \<and> status_of stg = PendingApproval)"
  using assms(2)
proof (rule Submit_shape)
  fix st1 st2 opt ap' gids
  assume g: "same_pub st st1" "find (\<lambda>a. a_BizID a = sq_BizID req \<and> a_ID a = sq_AppID req) apps = Some ap'"
    "opt = (parsePublishOption req ap')\<lparr>o_Groups := gids,
       o_Revision := Some \<lparr>cr_Creator = User (Env k), cr_CreatedAt = 0\<rparr>\<rparr>"
    "SubmitWithTx upd (Env k) (Some opt) st1 = Inr (i, st2)"
    "st' = st2 \<or> (\<exists>t. st' = UpdateByID i (set_ticket t) st2)"
  have "ap' = ap" using g(2) assms(3) by simp
  then have opt: "o_Approver opt = a_Approver ap" "o_PublishType opt = sq_PublishType req"
    "sq_PublishType req \<noteq> Immediately \<Longrightarrow> o_PublishStatus opt = PendingApproval"
    using g(3) assms(4) by (auto simp: parsePublishOption_def Let_def)
  obtain opt' groups where sub: "submit upd (Env k) opt' groups st1 = Inr (i, st2)"
    "opt' = opt \<or> opt' = opt\<lparr>o_Default := True\<rparr>"
    using g(4) by (fastforce simp: SubmitWithTx_def Let_def res_simps dest: validatePublishGroups_opt)
  have o': "o_Approver opt' = a_Approver ap" "o_PublishType opt' = o_PublishType opt"
    "o_PublishStatus opt' = o_PublishStatus opt"
    using sub(2) opt(1) by auto
  have "o_PublishType opt' \<noteq> Immediately"
    using sub(1) o'(1) assms(5)
    by (auto simp: submit_def Let_def res_simps ValidateSubmitPublishContent_def genStrategy_def)
  then have "Released st2 = Released st1 \<and> Events st2 = Events st1
    \<and> (\<exists>stg. Strategies st2 = Strategies st1 @ [stg] \<and> s_ID stg = i \<and> status_of stg = PendingApproval)
    \<and> i = next_strategy st1"
    using sub(1) o' opt by (auto simp: submit_def Let_def res_simps)
  moreover have "map (\<lambda>s. if s_ID s = next_strategy st1 then set_ticket t s else s) (Strategies st1) = Strategies st1" for t
    using assms(1) g(1) by (auto simp: strat_inv_def same_pub_def intro!: map_idI)
  ultimately show ?thesis using g(1,5) by (auto simp: same_pub_def UpdateByID_def)
qed


lemma store0_ex_inv: "strat_inv store0_ex"
  by (simp add: strat_inv_def store0_ex_def init_store_def)

theorem approval_needed_before_release_witness:
  "Released store1_ex = [] \<and> (\<exists>stg. Strategies store1_ex = [stg] \<and> status_of stg = PendingApproval)"
proof -
  have "find (\<lambda>a. a_BizID a = sq_BizID (submit_ex Automatically) \<and> a_ID a = sq_AppID (submit_ex Automatically))
      [app_ex True] = Some (app_ex True)"
    by (simp add: app_ex_def submit_ex_def)
  from approval_needed_before_release [OF store0_ex_inv submit_ex_result this]
  show ?thesis by (auto simp: app_ex_def store0_ex_def init_store_def)
qed

section \<open>Countersigning on the web page\<close>

lemma split_name_separator:
  assumes "us \<noteq> []" "\<forall>u \<in> set us. CHR '','' \<notin> set u"
  shows "splitOn CHR '','' (joinWith NameSeparator us) = hd us # map (\<lambda>u. CHR '' '' # u) (tl us)"
  using assms
proof (induction us)
  case (Cons u us)
  show ?case
  proof (cases us)
    case Nil
    then show ?thesis using Cons.prems by (simp add: splitOn_no_sep)
  next
    case (Cons v vs)
    have "joinWith NameSeparator us = joinWith NameSeparator (v # vs)" using Cons by simp
    moreover have "splitOn CHR '','' (CHR '' '' # s) = (CHR '' '' # hd (splitOn CHR '','' s)) # tl (splitOn CHR '','' s)" for s
      by (cases "splitOn CHR '','' s") auto
    ultimately show ?thesis
      using Cons.IH Cons.prems Cons
      by (simp add: NameSeparator_def splitOn_append)
  qed
qed simp

text \<open>
  C36: Countersigning on the web page. The list of approvers is split at a comma but written back
  with comma and blank, so after the first approver has passed only the next one in the list is
  still recognised: every later approver is refused.
\<close>

theorem countersign_later_approver_refused:
  assumes "PublishStatus spec = PendingApproval" "ApproveType spec \<noteq> OrSign" "OperateWay k = WebUI"
    and "ApproverProgress spec = joinWith '','' (u # us)" "Approver spec = ApproverProgress spec"
    and "\<forall>x \<in> set (u # us). CHR '','' \<notin> set x \<and> CHR '' '' \<notin> set x"
    and "distinct (u # us)" "length us \<ge> 2" "q_ApprovedBy req = []" "User (Env k) = u"
    and "v \<in> set (tl us)" "k' = k\<lparr>Env := (Env k)\<lparr>User := v\<rparr>\<rparr>"
  shows "\<exists>upds. passApprove upd k req stg spec st = Inr (upds, st) \<and> u_status upds = PendingApproval
    \<and> (\<exists>p. u_progress upds = Some p \<and> p = joinWith '', '' us
         \<and> passApprove upd k' req' stg (spec\<lparr>ApproverProgress := p\<rparr>) st = Inl NoPermission)"
proof -
  have sp: "splitOn CHR '','' (ApproverProgress spec) = u # us"
    using assms(4,6) by (simp add: splitOn_join)
  have np: "new_progress k req spec = us"
    using assms(7,9,10) by (auto simp: new_progress_def sp filter_id_conv)
  have "Approver spec \<noteq> u"
    using sp assms(5,8) splitOn_no_sep [of "CHR '',''" u] assms(6) by auto
  then have ps: "pass_status k req spec = (PendingApproval, joinWith NameSeparator us, None)"
    using assms(2,3,8,10) by (auto simp: pass_status_def np WebUI_def)
  have ne: "us \<noteq> []" using assms(8) by auto
  have "v \<notin> set (splitOn CHR '','' (joinWith NameSeparator us))"
  proof -
    have "v \<noteq> hd us" using assms(7,11) ne by (cases us) auto
    moreover have "CHR '' '' \<notin> set v" using assms(6,11) ne by (cases us) auto
    ultimately show ?thesis using split_name_separator [OF ne] assms(6) by auto
  qed
  then have "passApprove upd k' req' stg (spec\<lparr>ApproverProgress := joinWith NameSeparator us\<rparr>) st = Inl NoPermission"
    using assms(1,3,12) by (simp add: passApprove_def)
  moreover have "passApprove upd k req stg spec st = Inr (\<lparr>u_status = PendingApproval, u_reason = None,
      u_progress = Some (joinWith NameSeparator us), u_ticket_status = None, u_pub_state = None\<rparr>, st)"
    using assms(1,10) by (simp add: passApprove_def ps sp)
  ultimately show ?thesis by (simp add: NameSeparator_def)
qed

theorem countersign_later_approver_refused_witness:
  "\<exists>upds p. passApprove gorm_updates (kit_ex ''a'') (approve_ex PendingPublish)
       (stg_ex PendingApproval ''a,b,c'' ''created'' 100)
       (the (Spec (stg_ex PendingApproval ''a,b,c'' ''created'' 100))) store1_ex = Inr (upds, store1_ex)
     \<and> u_progress upds = Some p \<and> p = ''b, c''"
proof -
  let ?stg = "stg_ex PendingApproval ''a,b,c'' ''created'' 100"
  have "\<exists>upds. passApprove gorm_updates (kit_ex ''a'') (approve_ex PendingPublish) ?stg (the (Spec ?stg)) store1_ex
      = Inr (upds, store1_ex) \<and> u_status upds = PendingApproval
    \<and> (\<exists>p. u_progress upds = Some p \<and> p = joinWith '', '' [''b'', ''c'']
        \<and> passApprove gorm_updates (kit_ex ''c'') (approve_ex PendingPublish) ?stg
            ((the (Spec ?stg))\<lparr>ApproverProgress := p\<rparr>) store1_ex = Inl NoPermission)"
    by (rule countersign_later_approver_refused [where u = "''a''" and v = "''c''"])
      (simp_all add: stg_ex_def kit_ex_def approve_ex_def CountSign_def OrSign_def)
  then show ?thesis by auto
qed


section \<open>Approved and immediate publication to the default group\<close>

text \<open>
  Publishing to the default group at once marks the release as fully released; publishing the
  same strategy after an approval does not, unless its scope is empty, because the option built
  from the strategy never sets \<open>Default\<close>.
\<close>

theorem approved_default_group_not_full:
  assumes "o_Default opt" "UpsertPublishWithTx upd ev opt stg st = Inr st1"
    and "Spec stg = Some spec" "Scope spec = Some groups" "groups \<noteq> []"
    and "publish_strategy upd k req stg st = Inr st2"
  shows "(\<forall>r \<in> set (Releases st1). r_ID r = o_ReleaseID opt \<longrightarrow> FullyReleased r)
    \<and> map FullyReleased (Releases st2) = map FullyReleased (Releases st)"
proof
  show "\<forall>r \<in> set (Releases st1). r_ID r = o_ReleaseID opt \<longrightarrow> FullyReleased r"
    using UpsertPublish_frame [OF assms(2)] assms(1) by (auto simp: updateReleasePublishInfo_def)
  obtain gs where gs: "map_option Scope (Spec stg) = Some (Some gs)"
    "UpsertPublishWithTx upd (Env k) (approve_opt req gs) stg st = Inr st2"
    using publish_strategy_shape [OF assms(6)] by blast
  then have "Releases st2 = Releases (updateReleasePublishInfo (approve_opt req groups) st)"
    using UpsertPublish_frame [OF gs(2)] assms(3,4) by simp
  then show "map FullyReleased (Releases st2) = map FullyReleased (Releases st)"
    using assms(5) by (auto simp: updateReleasePublishInfo_def approve_opt_def)
qed

definition stg_default_ex :: strategy where
  "stg_default_ex = genStrategy env_ex (opt_ex\<lparr>o_Groups := [0], o_Default := True\<rparr>) 1 []"

definition published_ex :: "bool \<Rightarrow> pub_err + store" where
  "published_ex b = (if b
     then UpsertPublishWithTx gorm_updates env_ex (opt_ex\<lparr>o_Groups := [0], o_Default := True\<rparr>) stg_default_ex store_ex
     else publish_strategy gorm_updates (kit_ex ''a'') (approve_ex PendingPublish) stg_default_ex store_ex)"

theorem approved_default_group_not_full_witness:
  "\<exists>st1 st2. published_ex True = Inr st1 \<and> published_ex False = Inr st2
    \<and> map FullyReleased (Releases st1) = [True] \<and> map FullyReleased (Releases st2) = [False]"
proof -
  let ?opt = "opt_ex\<lparr>o_Groups := [0], o_Default := True\<rparr>"
  obtain st1 where st1: "UpsertPublishWithTx gorm_updates env_ex ?opt stg_default_ex store_ex = Inr st1"
    by (simp add: UpsertPublishWithTx_def upsertReleasedGroups_def stg_default_ex_def genStrategy_def opt_ex_def)
  obtain st2 where st2: "publish_strategy gorm_updates (kit_ex ''a'') (approve_ex PendingPublish) stg_default_ex store_ex = Inr st2"
    by (simp add: publish_strategy_def UpsertPublishWithTx_def upsertReleasedGroups_def stg_default_ex_def
        genStrategy_def opt_ex_def approve_opt_def)
  obtain spec groups where sp: "Spec stg_default_ex = Some spec" "Scope spec = Some groups" "groups \<noteq> []"
    by (simp add: stg_default_ex_def genStrategy_def opt_ex_def)
  have "o_Default ?opt" by simp
  note res = approved_default_group_not_full [OF this st1 sp st2]
  have "map r_ID (Releases st1) = [7]" "length (Releases st1) = 1"
    using UpsertPublish_frame [OF st1] by (simp_all add: updateReleasePublishInfo_def store_ex_def opt_ex_def)
  then have "map FullyReleased (Releases st1) = [True]"
    using res by (cases "Releases st1") (auto simp: opt_ex_def)
  moreover have "map FullyReleased (Releases st2) = [False]" using res by (simp add: store_ex_def)
  ultimately show ?thesis using st1 st2 by (simp add: published_ex_def)
qed

section \<open>Repeated callbacks\<close>

lemma decide_internal_ticket:
  assumes "decide upd k req stg spec c st = Inr (u, t, st1)" "OperateWay k = []"
    and "q_PublishStatus req \<noteq> AlreadyPublish"
  shows "\<exists>tk. u_ticket_status u = Some tk \<and> tk \<noteq> ''created''"
proof (cases "q_PublishStatus req")
  case PendingPublish
  then show ?thesis using assms
    by (auto simp: decision_defs pass_status_def res_simps split: if_splits)
qed (use assms in \<open>auto simp: decision_defs res_simps split: if_splits\<close>)

lemma find_map_upd:
  assumes "\<And>s. P (f s) = P s"
  shows "find P (map f xs) = map_option f (find P xs)"
  using assms by (induction xs) auto

lemma last_by_id_map:
  assumes "\<And>s. s_ID (f s) = s_ID s"
  shows "last_by_id (map f xs) = map_option f (last_by_id xs)"
proof -
  let ?g = "\<lambda>s acc. case acc of None \<Rightarrow> Some s | Some t \<Rightarrow> if s_ID t \<le> s_ID s then Some s else Some t"
  have "fold ?g (map f xs) (map_option f acc) = map_option f (fold ?g xs acc)" for acc
  proof (induction xs arbitrary: acc)
    case (Cons x xs)
    show ?case using Cons [of "?g x acc"] assms by (cases acc) auto
  qed simp
  from this [of None] show ?thesis by (simp add: last_by_id_def)
qed

lemma ListStrategy_map:
  assumes "\<And>s. s_ID (f s) = s_ID s"
    and "\<And>s. map_option ReleaseID (Spec (f s)) = map_option ReleaseID (Spec s)"
    and "Strategies st' = map f (Strategies st)"
  shows "ListStrategyByReleasesID r st' = map f (ListStrategyByReleasesID r st)"
proof -
  have rel: "(case Spec s of None \<Rightarrow> False | Some p \<Rightarrow> ReleaseID p = r) \<longleftrightarrow> map_option ReleaseID (Spec s) = Some r" for s
    by (auto split: option.splits)
  have "filter (\<lambda>s. map_option ReleaseID (Spec s) = Some r) (map f (Strategies st))
      = map f (filter (\<lambda>s. map_option ReleaseID (Spec s) = Some r) (Strategies st))"
    by (simp only: filter_map o_def assms(2))
  then show ?thesis
    by (simp only: ListStrategyByReleasesID_def rel assms(3) Let_def)
      (simp add: last_by_id_map assms(1) filter_map o_def split: option.splits)
qed


lemma apply_updates_spec:
  "map_option ReleaseID (Spec (apply_updates k u s)) = map_option ReleaseID (Spec s)"
  "map_option ItsmTicketSn (Spec (apply_updates k u s)) = map_option ItsmTicketSn (Spec s)"
  "map_option ItsmCallbackToken (Spec (apply_updates k u s)) = map_option ItsmCallbackToken (Spec s)"
  "u_ticket_status u = Some tk \<Longrightarrow> Spec s = Some sp \<Longrightarrow>
     map_option ItsmTicketStatus (Spec (apply_updates k u s)) = Some tk"
  "s_Revision s = Some rv \<Longrightarrow> \<exists>rv'. s_Revision (apply_updates k u s) = Some rv'"
  by (simp_all add: apply_updates_def option.map_comp o_def or_old_def)

text \<open>
  A callback is processed once. After a callback that changed the store, the same callback
  arriving again leaves the store as it is, whatever the ticket service answers then.
\<close>

theorem callback_processed_once:
  assumes "strat_inv st" "OperateWay k = []"
    and "ApprovalCallback upd it apps cred k req st = Inr (st', resp)" "st' \<noteq> st"
  shows "ApprovalCallback upd it2 apps2 cred2 k2 req st'
    = Inr (st', CallbackOK ''ticket status has been processed'')"
  using assms(3,4)
proof (rule Callback_found)
  fix ticket stg spec revn areq k' msg
  assume g: "cb_Ticket req = Some ticket"
    "find (\<lambda>s. case Spec s of None \<Rightarrow> False | Some p \<Rightarrow> ItsmTicketSn p = ticket)
       (ListStrategyByReleasesID (cb_ReleaseID req) st) = Some stg"
    "Spec stg = Some spec" "s_Revision stg = Some revn"
    "ItsmCallbackToken spec \<noteq> [] \<longrightarrow> ItsmCallbackToken spec = cb_Token req"
    "q_StrategyID areq = s_ID stg" "q_PublishStatus areq \<noteq> AlreadyPublish" "OperateWay k' = OperateWay k"
    "Approve upd it apps cred k' areq st = Inr (st', msg)"
  have "stg \<in> set (ListStrategyByReleasesID (cb_ReleaseID req) st)" using find_SomeD [OF g(2)] by simp
  then have mem: "stg \<in> set (Strategies st)"
    by (auto simp: ListStrategyByReleasesID_def Let_def split: option.splits)
  show ?thesis using assms(1) g(9)
  proof (rule Approve_effect)
    assume "st' = st" then show ?thesis using assms(4) by simp
  next
    fix stg' sp k'' req' c u t st1
    assume h: "stg' \<in> set (Strategies st)" "decide upd k'' req' stg' sp c st = Inr (u, t, st1)"
      "Strategies st' = map (\<lambda>s. if s = stg' then apply_updates k'' u s else s) (Strategies st)"
      "same_user k' k''" "q_PublishStatus req' = AlreadyPublish \<longrightarrow> q_PublishStatus areq = AlreadyPublish"
      "GetLast (q_BizID areq) (q_AppID areq) (q_ReleaseID areq) (q_StrategyID areq) st = Some stg'"
    have "0 < s_ID stg" using assms(1) mem by (simp add: strat_inv_def)
    then have "s_ID stg' = s_ID stg" using h(6) g(6)
      by (auto simp: GetLast_def dest!: last_by_id_mem split: option.splits)
    then have eq: "stg' = stg" using strat_inv_id_unique [OF assms(1) h(1) mem] by simp
    obtain tk where tk: "u_ticket_status u = Some tk" "tk \<noteq> ''created''"
      using decide_internal_ticket [OF h(2)] h(4,5) g(7,8) assms(2) by (auto simp: same_user_def)
    let ?f = "\<lambda>s. if s = stg' then apply_updates k'' u s else s"
    let ?P = "\<lambda>s. case Spec s of None \<Rightarrow> False | Some p \<Rightarrow> ItsmTicketSn p = ticket"
    have P: "?P s \<longleftrightarrow> map_option ItsmTicketSn (Spec s) = Some ticket" for s by (auto split: option.splits)
    have L: "ListStrategyByReleasesID (cb_ReleaseID req) st' = map ?f (ListStrategyByReleasesID (cb_ReleaseID req) st)"
      by (rule ListStrategy_map [OF _ _ h(3)]) (simp_all add: apply_updates_spec)
    have Pf: "?P (?f s) = ?P s" for s by (simp only: P apply_updates_spec split: if_splits) simp
    have fnd: "find ?P (ListStrategyByReleasesID (cb_ReleaseID req) st') = Some (apply_updates k'' u stg)"
    proof -
      have "find ?P (ListStrategyByReleasesID (cb_ReleaseID req) st')
          = map_option ?f (find ?P (ListStrategyByReleasesID (cb_ReleaseID req) st))"
        unfolding L by (rule find_map_upd) (rule Pf)
      then show ?thesis unfolding g(2) by (simp add: eq)
    qed
    obtain spec' rv' where new: "Spec (apply_updates k'' u stg) = Some spec'" "ItsmTicketStatus spec' = tk"
      "ItsmCallbackToken spec' = ItsmCallbackToken spec" "s_Revision (apply_updates k'' u stg) = Some rv'"
      using apply_updates_spec(3) [of k'' u stg] apply_updates_spec(4) [OF tk(1) g(3), of k'']
        apply_updates_spec(5) [OF g(4), of k'' u] g(3) by auto
    show ?thesis
      unfolding ApprovalCallback_def g(1) option.case fnd using new g(5) tk(2) by auto
  qed
qed


definition itsm_done_ex :: itsm where
  "itsm_done_ex = itsm_ex\<lparr>GetTicketStatus := (\<lambda>_. Inr ''FINISHED''),
     GetApproveResult := (\<lambda>_ _ _. Inr \<lparr>ar_Result = Some True, RejectUsers = [], PassUsers = [''a'', ''b'', ''c''],
       Reasons = []\<rparr>)\<rparr>"

definition callback_ex :: callback_req where
  "callback_ex = \<lparr>cb_BizID = 2, cb_AppID = 3, cb_ReleaseID = 7, cb_Ticket = Some ''sn'', cb_Token = ''tk''\<rparr>"

definition kit_internal_ex :: kit where
  "kit_internal_ex = (kit_ex [])\<lparr>OperateWay := []\<rparr>"

definition store5_ex :: store where
  "store5_ex = (case ApprovalCallback gorm_updates itsm_done_ex [app_ex True] (Inr True) kit_internal_ex callback_ex store1_ex
     of Inl _ \<Rightarrow> store1_ex | Inr (st, _) \<Rightarrow> st)"

lemma callback_ex_result:
  "ApprovalCallback gorm_updates itsm_done_ex [app_ex True] (Inr True) kit_internal_ex callback_ex store1_ex
     = Inr (store5_ex, CallbackOK ''ok'')" "store5_ex \<noteq> store1_ex"
  by code_simp+

theorem callback_processed_once_witness:
  "ApprovalCallback gorm_updates itsm_done_ex [app_ex True] (Inr True) kit_internal_ex callback_ex store5_ex
     = Inr (store5_ex, CallbackOK ''ticket status has been processed'')"
  by (rule callback_processed_once [OF store1_ex_inv _ callback_ex_result])
    (simp add: kit_internal_ex_def)

end
