(* ===== verification/Credential.thy ===== *)
theory Credential
  imports Approval
begin

text \<open>
  Credentials and their scopes: the scope expressions (\<open>pkg/runtime/credential/scope.go\<close>), the
  matching of configuration items (\<open>pkg/tools/wildcard.go\<close>, \<open>MatchPattern\<close> of \<open>pkg/tools/tools.go\<close>),
  the credential cached by the feed server (\<open>pkg/types/cache.go\<close>) and its use
  (\<open>cmd/feed-server/bll/lcache/credential.go\<close>), the check of the publication service, and the
  validation of both tables. The glob library is a parameter: \<open>glob seps pattern\<close> is \<open>None\<close> when the
  pattern does not compile and otherwise its matcher.
\<close>

section \<open>The glob library\<close>

type_synonym globber = "char list \<Rightarrow> string \<Rightarrow> (string \<Rightarrow> bool) option"

definition glob_meta :: "char list" where
  "glob_meta = ''*?[]{}!,-'' @ [CHR 0x5C]"

text \<open>A pattern without special characters matches itself only.\<close>

definition glob_literal :: "globber \<Rightarrow> bool" where
  "glob_literal glob \<longleftrightarrow> (\<forall>seps p. set p \<inter> set glob_meta = {} \<longrightarrow> glob seps p = Some (\<lambda>s. s = p))"

text \<open>A globber that knows literals, and the star as any text without a separator.\<close>

definition glob_ex :: globber where
  "glob_ex seps p =
     (if p = ''*'' then Some (\<lambda>s. set s \<inter> set seps = {})
      else if set p \<inter> set glob_meta = {} then Some (\<lambda>s. s = p) else None)"

lemma glob_ex_literal: "glob_literal glob_ex"
  by (auto simp: glob_literal_def glob_ex_def glob_meta_def)

section \<open>Matching configuration items\<close>

datatype cred_err =
    InvalidScope string
  | BadPattern
  | Required string
  | InvalidArg string
  | Remote string

definition compile :: "globber \<Rightarrow> char list \<Rightarrow> string \<Rightarrow> cred_err + (string \<Rightarrow> bool)" where
  "compile glob seps p = (case glob seps p of None \<Rightarrow> Inl BadPattern | Some g \<Rightarrow> Inr g)"

definition MatchConfigItem :: "globber \<Rightarrow> string \<Rightarrow> string \<Rightarrow> string \<Rightarrow> cred_err + bool" where
  "MatchConfigItem glob scope path nm =
     (let scope = trimChar CHR ''/'' scope;
          path = trimChar CHR ''/'' path;
          fullPath = trimChar CHR ''/'' (path @ ''/'' @ nm)
      in rbind (compile glob ''/'' scope) (\<lambda>g. Inr (g fullPath)))"

definition MatchAppConfigItem :: "globber \<Rightarrow> string \<Rightarrow> string \<Rightarrow> string \<Rightarrow> string \<Rightarrow> cred_err + bool" where
  "MatchAppConfigItem glob scope ap path nm =
     (case splitN2 CHR ''/'' scope of
        [appPattern, ciPattern] \<Rightarrow>
          rbind (compile glob [] appPattern) (\<lambda>g.
          if \<not> g ap then Inr False else MatchConfigItem glob ciPattern path nm)
      | _ \<Rightarrow> Inl (InvalidScope scope))"

fun match_any :: "globber \<Rightarrow> string \<Rightarrow> string list \<Rightarrow> bool" where
  "match_any glob nm [] = False"
| "match_any glob nm (m # ms) =
     (case glob [] m of
        None \<Rightarrow> match_any glob nm ms
      | Some g \<Rightarrow> if g nm then True else match_any glob nm ms)"

definition MatchPattern :: "globber \<Rightarrow> string \<Rightarrow> string list \<Rightarrow> bool" where
  "MatchPattern glob nm match = (if length match = 0 then True else match_any glob nm match)"

section \<open>Scopes\<close>

definition Scope_Validate :: "string \<Rightarrow> cred_err + unit" where
  "Scope_Validate cs =
     (let strs = splitOn CHR ''/'' cs
      in if length strs < 2 then Inl (InvalidScope cs)
         else check_all (\<lambda>str. ensure (length str \<noteq> 0) (InvalidScope cs)) strs)"

definition Scope_Split :: "string \<Rightarrow> cred_err + string \<times> string" where
  "Scope_Split cs =
     (case indexOf cs ''/'' of
        None \<Rightarrow> Inl (InvalidScope cs)
      | Some index \<Rightarrow> Inr (take index cs, drop index cs))"

definition Scope_MatchApp :: "globber \<Rightarrow> string \<Rightarrow> string \<Rightarrow> cred_err + bool" where
  "Scope_MatchApp glob cs nm =
     rbind (Scope_Validate cs) (\<lambda>_.
     rbind (compile glob [] (hd (splitOn CHR ''/'' cs))) (\<lambda>g. Inr (g nm)))"

definition Scope_MatchConfigItem :: "globber \<Rightarrow> string \<Rightarrow> string \<Rightarrow> string \<Rightarrow> cred_err + bool" where
  "Scope_MatchConfigItem glob cs path nm =
     rbind (Scope_Validate cs) (\<lambda>_.
     MatchConfigItem glob (splitN2 CHR ''/'' cs ! 1) path nm)"

definition New :: "string \<Rightarrow> string \<Rightarrow> cred_err + string" where
  "New ap scope =
     (if length ap = 0 then Inl (Required ''app'')
      else if length scope = 0 then Inl (Required ''scope'')
      else Inr (ap @ scope))"

section \<open>The cached credential\<close>

record credential_cache =
  Enabled :: bool
  CScope :: "string list"
  scopeMap :: "(string, string list) gomap"
  isPreprocess :: bool

text \<open>Setting a key of the map; a panic is \<open>None\<close>.\<close>

definition map_put :: "'k \<Rightarrow> 'v \<Rightarrow> ('k, 'v) gomap \<Rightarrow> ('k, 'v) gomap" where
  "map_put k v m = (k, v) # filter (\<lambda>(k', _). k' \<noteq> k) m"

fun build_scopes :: "string list \<Rightarrow> (string, string list) gomap \<Rightarrow> (string, string list) gomap option" where
  "build_scopes [] m = Some m"
| "build_scopes (v # vs) m =
     (case indexOf v ''/'' of
        None \<Rightarrow> None
      | Some index \<Rightarrow>
          let ap = take index v; scope = drop (index + 1) v
          in build_scopes vs (case map_of m ap of
               None \<Rightarrow> map_put ap [scope] m
             | Some ss \<Rightarrow> map_put ap (ss @ [scope]) m))"

definition preprocess :: "credential_cache \<Rightarrow> credential_cache option" where
  "preprocess c =
     (if isPreprocess c then Some c
      else map_option (\<lambda>m. c\<lparr>scopeMap := m, isPreprocess := True\<rparr>) (build_scopes (CScope c) []))"

definition Cache_MatchApp :: "string \<Rightarrow> credential_cache \<Rightarrow> (bool \<times> credential_cache) option" where
  "Cache_MatchApp ap c = map_option (\<lambda>c. (has_key (scopeMap c) ap, c)) (preprocess c)"

definition Cache_MatchKv :: "globber \<Rightarrow> string \<Rightarrow> string \<Rightarrow> credential_cache \<Rightarrow> bool" where
  "Cache_MatchKv glob ap key c =
     (case map_of (scopeMap c) ap of
        None \<Rightarrow> False
      | Some scopes \<Rightarrow> match_any glob key scopes)"

definition Cache_MatchConfigItem :: "globber \<Rightarrow> string \<Rightarrow> string \<Rightarrow> string \<Rightarrow> credential_cache \<Rightarrow> bool" where
  "Cache_MatchConfigItem glob ap path nm c =
     (case map_of (scopeMap c) ap of
        None \<Rightarrow> False
      | Some scopes \<Rightarrow> list_ex (\<lambda>scope. MatchConfigItem glob scope path nm = Inr True) scopes)"

section \<open>Its use by the feed server\<close>

text \<open>
  \<open>hit\<close> is what the local cache holds for the credential, \<open>remote\<close> the answer of the cache service.
  The second result is what the local cache is given, if anything.
\<close>

definition CanMatchCI ::
    "globber \<Rightarrow> nat \<Rightarrow> string \<Rightarrow> string \<Rightarrow> string \<Rightarrow> string \<Rightarrow> credential_cache option
      \<Rightarrow> cred_err + credential_cache \<Rightarrow> cred_err + bool \<times> credential_cache option" where
  "CanMatchCI glob bizID ap credential path nm hit remote =
     (if bizID = 0 then Inl (InvalidArg ''biz id'')
      else if length ap = 0 then Inl (InvalidArg ''app name'')
      else if length credential = 0 then Inl (InvalidArg ''credential'')
      else case hit of
        Some c \<Rightarrow>
          if \<not> Enabled c then Inr (False, None)
          else Inr (list_ex (\<lambda>s. MatchAppConfigItem glob s ap path nm = Inr True) (CScope c), None)
      | None \<Rightarrow>
          rbind remote (\<lambda>c.
          Inr (list_ex (\<lambda>s. Enabled c \<and> MatchAppConfigItem glob s ap path nm = Inr True) (CScope c), Some c)))"

section \<open>The check of the publication service\<close>

record credential_scope =
  cs_ID :: nat
  cs_Scope :: "string option"
  cs_Attachment :: "(nat \<times> nat) option"
  cs_Revision :: "revision option"

record credential =
  c_ID :: nat
  c_Enable :: bool
  c_BizID :: nat

text \<open>The scopes of one business, each with the id of its credential.\<close>

fun matched_credentials :: "globber \<Rightarrow> string \<Rightarrow> (string \<times> nat) list \<Rightarrow> cred_err + nat list" where
  "matched_credentials glob nm [] = Inr []"
| "matched_credentials glob nm ((scope, cid) # ss) =
     rbind (Scope_MatchApp glob scope nm) (\<lambda>match.
     rbind (matched_credentials glob nm ss) (\<lambda>cids. Inr (if match then cid # cids else cids)))"

definition checkAppHaveCredentials ::
    "globber \<Rightarrow> string option \<Rightarrow> (string \<times> nat) list \<Rightarrow> credential list \<Rightarrow> cred_err + bool" where
  "checkAppHaveCredentials glob appName scopes creds =
     (case appName of
        None \<Rightarrow> Inl (Remote ''app'')
      | Some nm \<Rightarrow>
          if length scopes = 0 then Inr False
          else rbind (matched_credentials glob nm scopes) (\<lambda>cids.
               Inr (list_ex c_Enable (filter (\<lambda>c. c_ID c \<in> set cids) creds))))"

section \<open>Validation of the tables\<close>

definition lift_cred :: "cred_err + unit \<Rightarrow> tbl_err + unit" where
  "lift_cred r = wrap_err (\<lambda>_. Unsupported ''scope'') r"

definition CredentialScope_ValidateCreate :: "credential_scope \<Rightarrow> tbl_err + unit" where
  "CredentialScope_ValidateCreate c =
     rbind (ensure (\<not> cs_ID c > 0) IDShouldNotBeSet) (\<lambda>_.
     need (cs_Scope c) ''spec'' (\<lambda>scope.
     rbind (lift_cred (Scope_Validate scope)) (\<lambda>_.
     need (cs_Attachment c) ''attachment'' (\<lambda>_.
     need (cs_Revision c) ''revision'' (\<lambda>r.
     Revision_ValidateCreate r)))))"

definition CredentialScope_ValidateDelete :: "credential_scope \<Rightarrow> tbl_err + unit" where
  "CredentialScope_ValidateDelete c =
     rbind (ensure (cs_ID c > 0) IDShouldBeSet) (\<lambda>_.
     case cs_Attachment c of None \<Rightarrow> Inl NilPointer | Some (bizID, _) \<Rightarrow> ensure (bizID > 0) (InvalidID ''biz''))"

definition CredentialScope_ValidateUpdate :: "credential_scope \<Rightarrow> tbl_err + unit" where
  "CredentialScope_ValidateUpdate c =
     rbind (ensure (cs_ID c > 0) IDShouldBeSet) (\<lambda>_.
     need (cs_Scope c) ''spec'' (\<lambda>scope.
     rbind (lift_cred (Scope_Validate scope)) (\<lambda>_.
     need (cs_Attachment c) ''attachment'' (\<lambda>_.
     need (cs_Revision c) ''revision'' (\<lambda>_. Inr ())))))"

record credential_spec =
  CredentialType :: string
  EncCredential :: string
  EncAlgorithm :: string
  cred_Name :: string
  cred_Memo :: string
  cred_Enable :: bool

record credential_row =
  cr_ID :: nat
  cr_Spec :: "credential_spec option"
  cr_BizID :: "nat option"
  cr_Revision :: "revision option"

definition CredentialType_Validate :: "string \<Rightarrow> tbl_err + unit" where
  "CredentialType_Validate s =
     (if s = [] then Inr () else ensure (s = ''bearToken'') (Unsupported ''credential type''))"

definition CredentialSpec_ValidateCreate :: "credential_spec \<Rightarrow> tbl_err + unit" where
  "CredentialSpec_ValidateCreate c =
     rbind (CredentialType_Validate (CredentialType c)) (\<lambda>_.
     wrap_err BadValue (ValidateName (cred_Name c)))"

definition CredentialSpec_ValidateUpdate :: "credential_spec \<Rightarrow> tbl_err + unit" where
  "CredentialSpec_ValidateUpdate c =
     rbind (ensure (CredentialType c = []) (CannotUpdate ''credential type'')) (\<lambda>_.
     rbind (ensure (EncAlgorithm c = []) (CannotUpdate ''enc algorithm'')) (\<lambda>_.
     rbind (ensure (EncCredential c = []) (CannotUpdate ''enc credential'')) (\<lambda>_.
     wrap_err BadValue (ValidateName (cred_Name c)))))"

definition CredentialAttachment_Validate :: "nat \<Rightarrow> tbl_err + unit" where
  "CredentialAttachment_Validate bizID = ensure (bizID > 0) (InvalidID ''biz'')"

definition Credential_ValidateCreate :: "credential_row \<Rightarrow> tbl_err + unit" where
  "Credential_ValidateCreate c =
     rbind (ensure (\<not> cr_ID c > 0) IDShouldNotBeSet) (\<lambda>_.
     need (cr_Spec c) ''spec'' (\<lambda>spec.
     rbind (CredentialSpec_ValidateCreate spec) (\<lambda>_.
     need (cr_BizID c) ''attachment'' (\<lambda>bizID.
     rbind (CredentialAttachment_Validate bizID) (\<lambda>_.
     need (cr_Revision c) ''revision'' (\<lambda>r.
     Revision_ValidateCreate r))))))"

definition Credential_ValidateDelete :: "credential_row \<Rightarrow> tbl_err + unit" where
  "Credential_ValidateDelete c =
     rbind (ensure (cr_ID c > 0) IDShouldBeSet) (\<lambda>_.
     case cr_BizID c of None \<Rightarrow> Inl NilPointer | Some bizID \<Rightarrow> ensure (bizID > 0) (InvalidID ''biz''))"

definition Credential_ValidateUpdate :: "credential_row \<Rightarrow> tbl_err + unit" where
  "Credential_ValidateUpdate c =
     rbind (ensure (cr_ID c > 0) IDShouldBeSet) (\<lambda>_.
     need (cr_Spec c) ''spec'' (\<lambda>spec.
     rbind (CredentialSpec_ValidateUpdate spec) (\<lambda>_.
     need (cr_BizID c) ''attachment'' (\<lambda>bizID.
     rbind (ensure (bizID > 0) (InvalidID ''biz'')) (\<lambda>_.
     need (cr_Revision c) ''revision'' (\<lambda>_. Inr ()))))))"

end
