(* ===== verification/CredentialClaims.thy ===== *)
theory CredentialClaims
  imports Credential ApprovalClaims
begin

text \<open>
  Properties of credential scopes: composing and splitting, the agreement of the two ways the feed
  server authorises a configuration item, and what a pattern that does not compile does to
  publication.
\<close>

section \<open>Slashes\<close>

lemma indexOf_char: "indexOf s [d] = (if d \<in> set s then Some (length (takeWhile (\<lambda>c. c \<noteq> d) s)) else None)"
  by (induction s) (auto simp: hasPrefix_Cons)

lemma take_index: "indexOf s [d] = Some i \<Longrightarrow> take i s = takeWhile (\<lambda>c. c \<noteq> d) s"
  by (auto simp: indexOf_char takeWhile_eq_take [symmetric] split: if_splits)

lemma indexOf_less: "indexOf s [d] = Some i \<Longrightarrow> i < length s"
  by (induction s arbitrary: i) (auto simp: hasPrefix_Cons split: if_splits)

lemma indexOf_first: "d \<notin> set a \<Longrightarrow> indexOf (a @ d # s) [d] = Some (length a)"
  by (induction a) (auto simp: hasPrefix_Cons)

lemma splitN2_index:
  "splitN2 d s = (case indexOf s [d] of None \<Rightarrow> [s] | Some i \<Rightarrow> [take i s, drop (Suc i) s])"
proof (induction s)
  case (Cons c s)
  then show ?case by (auto simp: hasPrefix_Cons split: option.splits)
qed simp

lemma Scope_Validate_parts:
  "Scope_Validate cs = Inr () \<longleftrightarrow> 2 \<le> length (splitOn CHR ''/'' cs) \<and> (\<forall>p \<in> set (splitOn CHR ''/'' cs). p \<noteq> [])"
  by (auto simp: Scope_Validate_def Let_def res_simps)

lemma Scope_Validate_index:
  assumes "Scope_Validate cs = Inr ()"
  obtains i where "indexOf cs ''/'' = Some i" "take i cs \<noteq> []" "take i cs = hd (splitOn CHR ''/'' cs)"
proof -
  obtain a b r where sp: "splitOn CHR ''/'' cs = a # b # r"
    using assms by (cases "splitOn CHR ''/'' cs" rule: remdups_adj.cases) (auto simp: Scope_Validate_parts)
  then have "splitN2 CHR ''/'' cs = [a, joinWith ''/'' (b # r)]" by (simp add: splitN2_eq)
  then show thesis
    using that sp assms by (auto simp: splitN2_index Scope_Validate_parts split: option.splits)
qed

text \<open>
  A scope composed by \<open>New\<close> from an application without a slash and a path that begins with
  one is split into the same two parts again, and every validated scope is composed from its parts.
\<close>

theorem scope_split_roundtrip:
  assumes "CHR ''/'' \<notin> set ap" "New ap (CHR ''/'' # scope) = Inr cs" "Scope_Validate cs' = Inr ()"
  shows "Scope_Split cs = Inr (ap, CHR ''/'' # scope)
    \<and> (\<exists>a s. Scope_Split cs' = Inr (a, s) \<and> New a s = Inr cs' \<and> CHR ''/'' \<notin> set a)"
proof
  have "cs = ap @ CHR ''/'' # scope" using assms(2) by (auto simp: New_def split: if_splits)
  then show "Scope_Split cs = Inr (ap, CHR ''/'' # scope)"
    using assms(1) by (simp add: Scope_Split_def indexOf_first)
  obtain i where i: "indexOf cs' ''/'' = Some i" "take i cs' \<noteq> []"
    by (rule Scope_Validate_index [OF assms(3)]) blast
  have "drop i cs' \<noteq> []"
    using indexOf_less [OF i(1)] by simp
  moreover have "CHR ''/'' \<notin> set (take i cs')"
    unfolding take_index [OF i(1)] by (auto dest: set_takeWhileD)
  ultimately show "\<exists>a s. Scope_Split cs' = Inr (a, s) \<and> New a s = Inr cs' \<and> CHR ''/'' \<notin> set a"
    using i by (auto simp: Scope_Split_def New_def)
qed

theorem scope_split_roundtrip_witness:
  "Scope_Split ''app/etc/*'' = Inr (''app'', ''/etc/*'')
    \<and> (\<exists>a s. Scope_Split ''b/c'' = Inr (a, s) \<and> New a s = Inr ''b/c'' \<and> CHR ''/'' \<notin> set a)"
  using scope_split_roundtrip [of "''app''" "''etc/*''" "''app/etc/*''" "''b/c''"]
  by (simp add: New_def Scope_Validate_parts)

section \<open>The two authorisations of the feed server\<close>

lemma map_of_map_put [simp]: "map_of (map_put k v m) k' = (if k' = k then Some v else map_of m k')"
  by (induction m) (auto simp: map_put_def)

definition scopes_of :: "(string, string list) gomap \<Rightarrow> string \<Rightarrow> string list" where
  "scopes_of m ap = (case map_of m ap of None \<Rightarrow> [] | Some ss \<Rightarrow> ss)"

lemma build_scopes_lookup:
  assumes "build_scopes vs m = Some m'"
  shows "scopes_of m' ap = scopes_of m ap @
    map (\<lambda>v. v ! 1) (filter (\<lambda>v. v ! 0 = ap) (map (splitN2 CHR ''/'') vs))
    \<and> (\<forall>v \<in> set vs. CHR ''/'' \<in> set v)
    \<and> (has_key m' ap \<longleftrightarrow> has_key m ap \<or> (\<exists>v \<in> set vs. splitN2 CHR ''/'' v ! 0 = ap))"
  using assms
proof (induction vs m rule: build_scopes.induct)
  case (2 v vs m)
  obtain i where i: "indexOf v ''/'' = Some i" using 2(2) by (auto split: option.splits)
  have sp: "splitN2 CHR ''/'' v = [take i v, drop (Suc i) v]" using i by (simp add: splitN2_index)
  have mem: "CHR ''/'' \<in> set v" using i by (auto simp: indexOf_char split: if_splits)
  let ?m = "case map_of m (take i v) of None \<Rightarrow> map_put (take i v) [drop (i + 1) v] m
               | Some ss \<Rightarrow> map_put (take i v) (ss @ [drop (i + 1) v]) m"
  have b: "build_scopes vs ?m = Some m'" using 2(2) unfolding build_scopes.simps i option.case Let_def .
  note IH = 2(1) [OF i refl refl b]
  show ?case using IH mem by (auto simp: sp scopes_of_def split: option.splits)
qed simp

lemma Cache_MatchConfigItem_scopes:
  "Cache_MatchConfigItem glob ap path nm c
     \<longleftrightarrow> list_ex (\<lambda>s. MatchConfigItem glob s path nm = Inr True) (scopes_of (scopeMap c) ap)"
  by (simp add: Cache_MatchConfigItem_def scopes_of_def split: option.splits)

text \<open>
  C37: For an enabled credential whose scopes name applications literally, and which has just been put
  into the cache, so that its scopes have not been split yet, checking the application and then the
  configuration item in the cached credential gives the same answer as \<open>CanMatchCI\<close>. The cached check
  itself does not look whether the credential is enabled, which the feed server does before it.
\<close>

theorem cache_agrees_with_can_match:
  assumes "glob_literal glob" "Enabled c" "\<not> isPreprocess c"
    and "\<forall>s \<in> set (CScope c). Scope_Validate s = Inr () \<and> set (hd (splitOn CHR ''/'' s)) \<inter> set glob_meta = {}"
    and "Cache_MatchApp ap c = Some (ok, c')"
    and "CanMatchCI glob bizID ap cred path nm (Some c) remote = Inr (ok', u)"
  shows "(ok \<and> Cache_MatchConfigItem glob ap path nm c') = ok'"
proof -
  obtain m where m: "build_scopes (CScope c) [] = Some m" "c' = c\<lparr>scopeMap := m, isPreprocess := True\<rparr>"
    "ok = has_key m ap"
    using assms(3,5) by (auto simp: Cache_MatchApp_def preprocess_def)
  note look = build_scopes_lookup [OF m(1), of ap]
  have sc: "scopes_of m ap = map (\<lambda>v. v ! 1) (filter (\<lambda>v. v ! 0 = ap) (map (splitN2 CHR ''/'') (CScope c)))"
    using look by (simp add: scopes_of_def)
  have one: "MatchAppConfigItem glob s ap path nm = Inr True \<longleftrightarrow>
      splitN2 CHR ''/'' s ! 0 = ap \<and> MatchConfigItem glob (splitN2 CHR ''/'' s ! 1) path nm = Inr True"
    if "s \<in> set (CScope c)" for s
  proof -
    have v: "Scope_Validate s = Inr ()" using assms(4) that by simp
    obtain i where i: "indexOf s ''/'' = Some i" "take i s = hd (splitOn CHR ''/'' s)"
      by (rule Scope_Validate_index [OF v])
    have g: "glob [] (take i s) = Some (\<lambda>t. t = take i s)"
      using assms(4) that unfolding i(2)
      by (intro assms(1) [unfolded glob_literal_def, rule_format]) blast
    have sp: "splitN2 CHR ''/'' s = [take i s, drop (Suc i) s]" using i(1) by (simp add: splitN2_index)
    have "MatchAppConfigItem glob s ap path nm
        = (if ap \<noteq> take i s then Inr False else MatchConfigItem glob (drop (Suc i) s) path nm)"
      unfolding MatchAppConfigItem_def sp by (simp add: compile_def g)
    then show ?thesis by (cases "ap = take i s") (simp_all add: sp)
  qed
  have "ok' = list_ex (\<lambda>s. MatchAppConfigItem glob s ap path nm = Inr True) (CScope c)"
    using assms(2,6) by (auto simp: CanMatchCI_def split: if_splits)
  also have "\<dots> = Cache_MatchConfigItem glob ap path nm c'"
    unfolding Cache_MatchConfigItem_scopes m(2) list_ex_iff using one by (simp add: sc)
  finally have "ok' = Cache_MatchConfigItem glob ap path nm c'" .
  moreover have "Cache_MatchConfigItem glob ap path nm c' \<Longrightarrow> ok"
    by (auto simp: Cache_MatchConfigItem_def m(2,3) split: option.splits)
  ultimately show ?thesis by blast
qed

definition cache_ex :: credential_cache where
  "cache_ex = \<lparr>Enabled = True, CScope = [''app/etc'', ''b/x'', ''app/*''], scopeMap = [], isPreprocess = False\<rparr>"

theorem cache_agrees_with_can_match_witness:
  "\<exists>ok c'. Cache_MatchApp ''app'' cache_ex = Some (ok, c') \<and> ok
    \<and> Cache_MatchConfigItem glob_ex ''app'' ''/'' ''f'' c'"
proof -
  obtain ok c' where ok: "Cache_MatchApp ''app'' cache_ex = Some (ok, c')"
    by (simp add: Cache_MatchApp_def preprocess_def cache_ex_def hasPrefix_def Let_def)
  have "CanMatchCI glob_ex 1 ''app'' ''tok'' ''/'' ''f'' (Some cache_ex) (Inl BadPattern) = Inr (True, None)"
    by code_simp
  from cache_agrees_with_can_match [OF glob_ex_literal _ _ _ ok this]
  have "ok \<and> Cache_MatchConfigItem glob_ex ''app'' ''/'' ''f'' c'"
    by (simp add: cache_ex_def Scope_Validate_parts glob_meta_def)
  then show ?thesis using ok by blast
qed

text \<open>
  A scope whose application part is a pattern other than the name itself authorises the
  configuration item through \<open>CanMatchCI\<close>, but the cached credential knows no such application.
\<close>

theorem wildcard_application_only_in_one_path:
  assumes "CHR ''/'' \<notin> set p" "p \<noteq> ap" "glob [] p = Some g" "g ap"
    and "MatchConfigItem glob s path nm = Inr True" "ap \<noteq> []" "bizID \<noteq> 0" "cred \<noteq> []"
    and "c = \<lparr>Enabled = True, CScope = [p @ CHR ''/'' # s], scopeMap = [], isPreprocess = False\<rparr>"
  shows "CanMatchCI glob bizID ap cred path nm (Some c) remote = Inr (True, None)
    \<and> (\<exists>c'. Cache_MatchApp ap c = Some (False, c'))"
proof -
  have "indexOf (p @ CHR ''/'' # s) ''/'' = Some (length p)"
    using assms(1) by (rule indexOf_first)
  then show ?thesis
    using assms(2-9)
    by (auto simp: CanMatchCI_def MatchAppConfigItem_def splitN2_index compile_def Cache_MatchApp_def preprocess_def)
qed

theorem wildcard_application_only_in_one_path_witness:
  "\<exists>c. CanMatchCI glob_ex 1 ''app'' ''tok'' ''/etc'' ''f'' (Some c) (Inl BadPattern) = Inr (True, None)
    \<and> (\<exists>c'. Cache_MatchApp ''app'' c = Some (False, c'))"
proof -
  have "MatchConfigItem glob_ex ''etc/f'' ''/etc'' ''f'' = Inr True" by code_simp
  then show ?thesis
    using wildcard_application_only_in_one_path [of "''*''" "''app''" glob_ex "\<lambda>s. True" "''etc/f''" "''/etc''" "''f''"
        1 "''tok''" _ "Inl BadPattern"]
    by (auto simp: glob_ex_def)
qed

section \<open>A pattern that does not compile\<close>

lemma matched_credentials_bad:
  assumes "(scope, cid) \<in> set ss" "glob [] (hd (splitOn CHR ''/'' scope)) = None"
  shows "\<not> is_ok (matched_credentials glob nm ss)"
  using assms
proof (induction ss)
  case (Cons x ss)
  then show ?case
    by (cases x) (auto simp: Scope_MatchApp_def compile_def is_ok_iff res_simps)
qed simp

text \<open>
  One scope of a business whose application pattern does not compile passes the validation
  when it is saved, and then every submission of every application of that business fails.
\<close>

theorem bad_pattern_blocks_publication:
  assumes "cs_Scope row = Some scope" "CredentialScope_ValidateCreate row = Inr ()"
    and "glob [] (hd (splitOn CHR ''/'' scope)) = None" "(scope, cid) \<in> set scopes"
  shows "\<not> is_ok (SubmitPublishApprove upd rx it apps schedule
      (wrap_err (\<lambda>_. Ext ''credential'') (checkAppHaveCredentials glob appName scopes creds)) gn k req st)"
proof -
  have "scopes \<noteq> []" using assms(4) by auto
  then have bad: "\<not> is_ok (checkAppHaveCredentials glob appName scopes creds)"
    using matched_credentials_bad [where glob = glob, OF assms(4,3)]
    by (auto simp: checkAppHaveCredentials_def is_ok_iff res_simps split: option.splits)
  have no: "\<not> is_ok (SubmitPublishApprove upd rx it apps schedule (Inl e) gn k req st)" for e
    by (auto simp: SubmitPublishApprove_def Let_def is_ok_iff rbind_Inr_iff split: option.splits)
  obtain e where "checkAppHaveCredentials glob appName scopes creds = Inl e"
    using bad by (cases "checkAppHaveCredentials glob appName scopes creds") auto
  then show ?thesis using no by simp
qed

definition scope_row_ex :: credential_scope where
  "scope_row_ex = \<lparr>cs_ID = 0, cs_Scope = Some ''[/x'', cs_Attachment = Some (2, 1),
     cs_Revision = Some \<lparr>Creator = ''u'', Reviser = ''u'', CreatedAt = 0, RevUpdatedAt = 0\<rparr>\<rparr>"

theorem bad_pattern_blocks_publication_witness:
  "CredentialScope_ValidateCreate scope_row_ex = Inr () \<and>
   \<not> is_ok (SubmitPublishApprove gorm_updates Map.empty itsm_ex [app_ex True] (\<lambda>_ _. Inr ())
     (wrap_err (\<lambda>_. Ext ''credential'') (checkAppHaveCredentials glob_ex (Some ''app'') [(''a/b'', 1), (''[/x'', 1)] []))
     [] (kit_ex ''u'') (submit_ex Automatically) store0_ex)"
proof -
  have v: "CredentialScope_ValidateCreate scope_row_ex = Inr ()" by code_simp
  have s: "cs_Scope scope_row_ex = Some ''[/x''" by (simp add: scope_row_ex_def)
  have g: "glob_ex [] (hd (splitOn CHR ''/'' ''[/x'')) = None" by (simp add: glob_ex_def glob_meta_def)
  have m: "(''[/x'', 1) \<in> set [(''a/b'', 1), (''[/x'', 1)]" by simp
  show ?thesis using v bad_pattern_blocks_publication [where glob = glob_ex, OF s v g m] by simp
qed

end
