(* ===== verification/Range2Re.thy ===== *)
theory Range2Re
  imports GoStrings
begin

text \<open>
  \<open>internal/expression/range2re.go\<close>: a range of numbers as a list of fragments of a regular
  expression, each a digit or a class of digits per position. The loops run on Go's 64-bit \<open>int\<close>
  and need not end, so they are partial functions: \<open>None\<close> is a loop that never returns, \<open>Inl\<close> a
  panic. The theory shows what the loops compute on ranges below \<open>10 ^ 18\<close>.
\<close>

section \<open>The code\<close>

definition wrap64 :: "int \<Rightarrow> int" where
  "wrap64 n = (n + 2 ^ 63) mod 2 ^ 64 - 2 ^ 63"

text \<open>The value of \<open>strconv.Atoi\<close> when its error is ignored: saturated, or 0 for a syntax error.\<close>

definition atoi_sat :: "string \<Rightarrow> int" where
  "atoi_sat s =
     (let (neg, ds) = (case s of
             [] \<Rightarrow> (False, [])
           | c # r \<Rightarrow> if c = CHR ''-'' then (True, r) else if c = CHR ''+'' then (False, r) else (False, s))
      in if \<not> all_digits ds then 0
         else if neg then max (- maxInt64 - 1) (- int (nat_of_digits ds))
         else min maxInt64 (int (nat_of_digits ds)))"

text \<open>The loops over the digits, from the last one.\<close>

fun raise_digits :: "string \<Rightarrow> string" where
  "raise_digits [] = []"
| "raise_digits (c # cs) = CHR ''9'' # (if c \<noteq> CHR ''0'' then cs else raise_digits cs)"

definition getUpperRange :: "int \<Rightarrow> int \<times> int" where
  "getUpperRange begin = (begin, atoi_sat (rev (raise_digits (rev (itoa begin)))))"

fun lower_digits :: "string \<Rightarrow> string" where
  "lower_digits [] = []"
| "lower_digits (c # cs) = CHR ''0'' # (if c \<noteq> CHR ''9'' then cs else lower_digits cs)"

definition getLowerRange :: "int \<Rightarrow> int \<times> int" where
  "getLowerRange end = (atoi_sat (rev (lower_digits (rev (itoa end)))), end)"

partial_function (option) splitRangeLeft :: "int \<Rightarrow> int \<Rightarrow> (int \<times> int) list option" where
  "splitRangeLeft begin end =
     (if begin < end then
        Option.bind (splitRangeLeft (wrap64 (snd (getUpperRange begin) + 1)) end) (\<lambda>rest.
        Some (getUpperRange begin # rest))
      else Some [])"

text \<open>The list is built from the end and reversed.\<close>

partial_function (option) splitRangeRight :: "int \<Rightarrow> int \<Rightarrow> (int \<times> int) list option" where
  "splitRangeRight begin end =
     (if begin < end then
        Option.bind (splitRangeRight begin (wrap64 (fst (getLowerRange end) - 1))) (\<lambda>rest.
        Some (rest @ [getLowerRange end]))
      else Some [])"

declare splitRangeLeft.simps [code] splitRangeRight.simps [code]

definition rangePartToRe :: "int \<Rightarrow> int \<Rightarrow> string" where
  "rangePartToRe begin end =
     concat (map (\<lambda>(b, e). if b = e then [b] else [CHR ''['', b, CHR ''-'', e, CHR '']''])
       (zip (itoa begin) (itoa end)))"

text \<open>The list \<open>splitRanges\<close> of \<open>Range2Re\<close>; an index of an empty list is a panic.\<close>

definition split_ranges :: "int \<Rightarrow> int \<Rightarrow> (string + (int \<times> int) list) option" where
  "split_ranges begin end =
     Option.bind (splitRangeLeft begin end) (\<lambda>splitByLeft.
     if splitByLeft = [] then Some (Inl ''index out of range'')
     else let midLeft = last splitByLeft; splitByLeft = butlast splitByLeft
     in Option.bind (splitRangeRight (fst midLeft) end) (\<lambda>splitByRight.
     case splitByRight of
       [] \<Rightarrow> Some (Inl ''index out of range'')
     | midRight # splitByRight \<Rightarrow>
         Some (Inr (splitByLeft
           @ (if fst midRight < snd midLeft \<and> fst midLeft < snd midRight
              then [(fst midLeft, snd midRight)] else [midLeft, midRight])
           @ splitByRight))))"

definition Range2Re :: "int \<Rightarrow> int \<Rightarrow> (string + string list) option" where
  "Range2Re begin end =
     (if begin = end then Some (Inr [itoa begin])
      else map_option (map_sum id (map (\<lambda>(b, e). rangePartToRe b e))) (split_ranges begin end))"

lemma Range2Re_examples:
  "Range2Re 1 105 = Some (Inr [''[1-9]'', ''[1-9][0-9]'', ''10[0-5]''])"
  "Range2Re 13 20 = Some (Inr [''1[3-9]'', ''20''])"
  by code_simp+

section \<open>The digit loops as arithmetic\<close>

fun up :: "nat \<Rightarrow> nat" where
  "up n = (if n < 10 \<or> n mod 10 \<noteq> 0 then 10 * (n div 10) + 9 else 10 * up (n div 10) + 9)"

fun low :: "nat \<Rightarrow> nat" where
  "low n = (if n < 10 \<or> n mod 10 \<noteq> 9 then 10 * (n div 10) else 10 * low (n div 10))"

declare up.simps [simp del] low.simps [simp del]

definition dlen :: "nat \<Rightarrow> nat" where
  "dlen n = length (nat_digits n)"

lemma dlen_rec: "dlen n = (if n < 10 then 1 else Suc (dlen (n div 10)))"
  by (simp add: dlen_def nat_digits.simps [of n])

lemma itoa_nat_rec: "itoa_nat n = (if n < 10 then [digit_char n] else itoa_nat (n div 10) @ [digit_char (n mod 10)])"
  by (simp add: itoa_nat_def nat_digits.simps [of n])

lemma length_itoa_nat [simp]: "length (itoa_nat n) = dlen n"
  by (simp add: itoa_nat_def dlen_def)

lemma digit_char_eqs: "d < 10 \<Longrightarrow> digit_char d = CHR ''0'' \<longleftrightarrow> d = 0" "d < 10 \<Longrightarrow> digit_char d = CHR ''9'' \<longleftrightarrow> d = 9"
  "digit_char 0 = CHR ''0''" "digit_char 9 = CHR ''9''"
proof -
  show 0: "digit_char 0 = CHR ''0''" "digit_char 9 = CHR ''9''" by code_simp+
  show "d < 10 \<Longrightarrow> digit_char d = CHR ''0'' \<longleftrightarrow> d = 0" "d < 10 \<Longrightarrow> digit_char d = CHR ''9'' \<longleftrightarrow> d = 9"
    using digit_char_inj [of d 0] digit_char_inj [of d 9] 0 by auto
qed

lemma itoa_snoc: "0 < m \<Longrightarrow> d < 10 \<Longrightarrow> itoa_nat (10 * m + d) = itoa_nat m @ [digit_char d]"
  by (simp add: itoa_nat_rec [of "10 * m + d"])

lemma dlen_snoc: "0 < m \<Longrightarrow> d < 10 \<Longrightarrow> dlen (10 * m + d) = Suc (dlen m)"
  by (simp add: dlen_rec [of "10 * m + d"])

lemma up_pos: "0 < up n"
  by (subst up.simps) simp

lemma raise_itoa: "rev (raise_digits (rev (itoa_nat n))) = itoa_nat (up n)"
proof (induction n rule: up.induct)
  case (1 n)
  show ?case
  proof (cases "n < 10")
    case True
    then have "10 * (n div 10) + 9 = (9 :: nat)" by simp
    then show ?thesis using True
      by (simp add: itoa_nat_rec [of n] itoa_nat_rec [of 9] up.simps [of n] digit_char_eqs)
  next
    case False
    then show ?thesis
      using 1 by (simp add: itoa_nat_rec [of n] itoa_snoc up_pos up.simps [of n] digit_char_eqs)
  qed
qed

lemma nat_of_digits_snoc: "nat_of_digits (s @ [c]) = 10 * nat_of_digits s + digit_val c"
  by (simp add: nat_of_digits_def)

lemma nat_of_digits_one: "nat_of_digits [c] = digit_val c"
  using nat_of_digits_snoc [of "[]" c] by (simp add: nat_of_digits_def)

lemma digit_val_0: "digit_val CHR ''0'' = 0" "is_digit_char CHR ''0''"
  by (simp_all add: digit_val_def is_digit_char_def)

lemma all_digits_snoc: "all_digits (s @ [c]) \<longleftrightarrow> is_digit_char c \<and> (s = [] \<or> all_digits s)"
  by (auto simp: all_digits_def)

lemma lower_itoa:
  "all_digits (rev (lower_digits (rev (itoa_nat n)))) \<and> nat_of_digits (rev (lower_digits (rev (itoa_nat n)))) = low n"
proof (induction n rule: low.induct)
  case (1 n)
  show ?case
  proof (cases "n < 10")
    case True
    then show ?thesis
      by (simp add: itoa_nat_rec [of n] low.simps [of n] nat_of_digits_one digit_val_0 all_digits_def)
  next
    case False
    have d: "nat_of_digits (itoa_nat (n div 10)) = n div 10" "all_digits (itoa_nat (n div 10))" by simp_all
    show ?thesis
      using False 1 d
      by (simp add: itoa_nat_rec [of n] low.simps [of n] digit_char_eqs nat_of_digits_snoc all_digits_snoc digit_val_0)
  qed
qed

lemma atoi_sat_digits:
  assumes "all_digits s" "int (nat_of_digits s) \<le> maxInt64"
  shows "atoi_sat s = int (nat_of_digits s)"
proof -
  obtain c r where "s = c # r" "is_digit_char c" using assms(1) by (cases s) (auto simp: all_digits_def)
  moreover have "c \<noteq> CHR ''-''" "c \<noteq> CHR ''+''" using sign_not_digit calculation(2) by blast+
  ultimately show ?thesis using assms by (simp add: atoi_sat_def)
qed

lemma getUpperRange_nat:
  "int (up n) \<le> maxInt64 \<Longrightarrow> getUpperRange (int n) = (int n, int (up n))"
  by (simp add: getUpperRange_def itoa_def raise_itoa atoi_sat_digits)

lemma getLowerRange_nat:
  "int (low n) \<le> maxInt64 \<Longrightarrow> getLowerRange (int n) = (int (low n), int n)"
  using lower_itoa [of n] by (simp add: getLowerRange_def itoa_def atoi_sat_digits)


section \<open>Blocks\<close>

text \<open>
  A range that is a class per digit: below some position every digit is free, at the position it
  runs from one digit to another, above it the digits are fixed.
\<close>

definition block :: "nat \<Rightarrow> nat \<Rightarrow> bool" where
  "block b e \<longleftrightarrow> b \<le> e \<and> dlen b = dlen e
     \<and> (\<exists>k. 10 ^ k dvd b \<and> 10 ^ k dvd e + 1 \<and> b div 10 ^ Suc k = e div 10 ^ Suc k)"

lemma dlen_mono: "m \<le> n \<Longrightarrow> dlen m \<le> dlen n"
proof (induction n arbitrary: m rule: nat_digits.induct)
  case (1 n)
  show ?case
  proof (cases "n < 10")
    case False
    then show ?thesis using 1(1) [of "m div 10"] 1(2) by (simp add: dlen_rec [of m] dlen_rec [of n] div_le_mono)
  qed (use 1(2) in \<open>simp add: dlen_rec [of m] dlen_rec [of n]\<close>)
qed

lemma up_props:
  "n \<le> up n \<and> dlen (up n) = dlen n
     \<and> (\<exists>k. 10 ^ k dvd n \<and> 10 ^ Suc k dvd up n + 1 \<and> n div 10 ^ Suc k = up n div 10 ^ Suc k)"
proof (induction n rule: up.induct)
  case (1 n)
  show ?case
  proof (cases "n < 10 \<or> n mod 10 \<noteq> 0")
    case True
    then have u: "up n = 10 * (n div 10) + 9" by (simp add: up.simps)
    have "(up n + 1) mod 10 = 0" "up n div 10 = n div 10" "n \<le> up n" unfolding u by presburger+
    moreover have "up n < 10 \<longleftrightarrow> n < 10" unfolding u by presburger
    ultimately show ?thesis
      by (auto simp: dlen_rec [of "up n"] dlen_rec [of n] mod_eq_0_iff_dvd intro!: exI [of _ 0])
  next
    case False
    then have u: "up n = 10 * up (n div 10) + 9" by (simp add: up.simps [of n])
    obtain k where k: "10 ^ k dvd n div 10" "10 ^ Suc k dvd up (n div 10) + 1"
      "n div 10 div 10 ^ Suc k = up (n div 10) div 10 ^ Suc k"
      using 1 False by auto
    have le: "n div 10 \<le> up (n div 10)" and len: "dlen (up (n div 10)) = dlen (n div 10)" using 1 False by auto
    have n: "n = 10 * (n div 10)" using False by presburger
    have ud: "up n div 10 = up (n div 10)" unfolding u by presburger
    have "10 ^ Suc k dvd n" using k(1) n by (metis mult_dvd_mono dvd_refl power_Suc)
    moreover have "up n + 1 = 10 * (up (n div 10) + 1)" unfolding u by simp
    then have "10 ^ Suc (Suc k) dvd up n + 1" using k(2) by (metis mult_dvd_mono dvd_refl power_Suc)
    moreover have "n div 10 ^ Suc (Suc k) = up n div 10 ^ Suc (Suc k)"
      using k(3) ud by (metis div_mult2_eq power_Suc)
    moreover have "dlen (up n) = dlen n" using len False
      by (simp add: u dlen_snoc up_pos dlen_rec [of n])
    moreover have "n \<le> up n" using le n u by linarith
    ultimately show ?thesis by blast
  qed
qed

lemma low_props:
  "\<exists>j. 10 ^ j dvd n + 1 \<and> low n = n div 10 ^ Suc j * 10 ^ Suc j"
proof (induction n rule: low.induct)
  case (1 n)
  show ?case
  proof (cases "n < 10 \<or> n mod 10 \<noteq> 9")
    case True
    then show ?thesis by (auto simp: low.simps [of n] intro!: exI [of _ 0])
  next
    case False
    then obtain j where j: "10 ^ j dvd n div 10 + 1" "low (n div 10) = n div 10 div 10 ^ Suc j * 10 ^ Suc j"
      using 1 by auto
    have "n + 1 = 10 * (n div 10 + 1)" using False by presburger
    then have "10 ^ Suc j dvd n + 1" using j(1) by (metis mult_dvd_mono dvd_refl power_Suc)
    moreover have "n div 10 div 10 ^ Suc j = n div 10 ^ Suc (Suc j)" by (metis div_mult2_eq power_Suc)
    then have "low n = n div 10 ^ Suc (Suc j) * 10 ^ Suc (Suc j)"
      using False j(2) by (simp add: low.simps [of n])
    ultimately show ?thesis by blast
  qed
qed

lemma low_le: "low n \<le> n"
  using low_props [of n] by auto

lemma up_block: "block n (up n)"
proof -
  obtain k where k: "10 ^ k dvd n" "10 ^ Suc k dvd up n + 1" "n div 10 ^ Suc k = up n div 10 ^ Suc k"
    using up_props by blast
  have "10 ^ k dvd up n + 1" using k(2) by (rule power_le_dvd) simp
  then show ?thesis using k up_props [of n] unfolding block_def by metis
qed

lemma same_div_between:
  "b \<le> n \<Longrightarrow> n \<le> e \<Longrightarrow> b div d = e div d \<Longrightarrow> n div d = e div (d :: nat)"
  by (metis div_le_mono le_antisym)

lemma div_of_floor:
  assumes "n div d * d \<le> b" "b \<le> n"
  shows "b div d = n div (d :: nat)"
proof (rule le_antisym)
  show "b div d \<le> n div d" using assms(2) by (rule div_le_mono)
  show "n div d \<le> b div d" using div_le_mono [OF assms(1), of d] by (cases "d = 0") simp_all
qed

lemma low_block:
  assumes "low n \<le> b" "b \<le> n" "dlen b = dlen n" "10 ^ k dvd b" "b div 10 ^ Suc k = n div 10 ^ Suc k"
  shows "block b n"
proof -
  obtain j where j: "10 ^ j dvd n + 1" "low n = n div 10 ^ Suc j * 10 ^ Suc j" using low_props by blast
  have d: "b div 10 ^ Suc j = n div 10 ^ Suc j" using assms(1,2) j(2) by (metis div_of_floor)
  let ?m = "min j k"
  have "10 ^ ?m dvd b" "10 ^ ?m dvd n + 1"
    using assms(4) j(1) by (metis le_imp_power_dvd dvd_trans min.cobounded2, metis le_imp_power_dvd dvd_trans min.cobounded1)
  moreover have "b div 10 ^ Suc ?m = n div 10 ^ Suc ?m" using d assms(5) by (simp add: min_def)
  ultimately show ?thesis using assms(2,3) by (auto simp: block_def)
qed


section \<open>The loops on small ranges\<close>

text \<open>The two loops on numbers that cannot overflow; they end since every range is not empty.\<close>

function lefts :: "nat \<Rightarrow> nat \<Rightarrow> (nat \<times> nat) list" where
  "lefts b e = (if b < e then (b, up b) # lefts (up b + 1) e else [])"
  by pat_completeness auto
termination by (relation "measure (\<lambda>(b, e). e - b)") (use up_props in \<open>auto simp: less_Suc_eq_le intro!: diff_less_mono2\<close>)

function rights :: "nat \<Rightarrow> nat \<Rightarrow> (nat \<times> nat) list" where
  "rights b e = (if b < e then (if low e = 0 then [] else rights b (low e - 1)) @ [(low e, e)] else [])"
  by pat_completeness auto
termination
proof (relation "measure snd", goal_cases)
  case (2 b e)
  then show ?case using low_le [of e] by simp
qed simp

declare lefts.simps [simp del] rights.simps [simp del]

abbreviation ints :: "(nat \<times> nat) list \<Rightarrow> (int \<times> int) list" where
  "ints rs \<equiv> map (\<lambda>(b, e). (int b, int e)) rs"

lemma wrap64_small: "- (2 ^ 63) \<le> n \<Longrightarrow> n < 2 ^ 63 \<Longrightarrow> wrap64 n = n"
  by (simp add: wrap64_def)

lemma dlen_bound: "n < 10 ^ k \<Longrightarrow> 0 < k \<Longrightarrow> dlen n \<le> k"
proof (induction k arbitrary: n)
  case (Suc k)
  show ?case
  proof (cases "n < 10")
    case False
    have "n div 10 < 10 ^ k" using Suc.prems(1) by (simp add: less_mult_imp_div_less mult.commute)
    moreover have "0 < k" using False Suc.prems(1) by (cases k) auto
    ultimately show ?thesis using Suc.IH [of "n div 10"] False by (simp add: dlen_rec [of n])
  qed (simp add: dlen_rec [of n])
qed simp

lemma dlen_upper: "n < 10 ^ dlen n"
proof (induction n rule: nat_digits.induct)
  case (1 n)
  show ?case
  proof (cases "n < 10")
    case False
    then have "n div 10 < 10 ^ dlen (n div 10)" using 1 by simp
    then have "n < 10 * 10 ^ dlen (n div 10)" by linarith
    then show ?thesis using False by (simp add: dlen_rec [of n])
  qed (simp add: dlen_rec [of n])
qed

lemma up_bound: "n < 10 ^ 18 \<Longrightarrow> up n < 10 ^ 18"
proof -
  assume "n < 10 ^ 18"
  then have "dlen (up n) \<le> 18" using dlen_bound [of n 18] up_props [of n] by simp
  then have "(10 :: nat) ^ dlen (up n) \<le> 10 ^ 18" by (rule power_increasing) simp
  then show ?thesis using dlen_upper [of "up n"] by linarith
qed

lemma splitRangeLeft_nat:
  "b < 10 ^ 18 \<Longrightarrow> e < 10 ^ 18 \<Longrightarrow> splitRangeLeft (int b) (int e) = Some (ints (lefts b e))"
proof (induction b e rule: lefts.induct)
  case (1 b e)
  have u: "up b < 10 ^ 18" by (rule up_bound) (fact 1)
  have g: "getUpperRange (int b) = (int b, int (up b))" using u by (intro getUpperRange_nat) (simp add: maxInt64_def)
  have w: "wrap64 (int (up b) + 1) = int (up b + 1)" using u by (subst wrap64_small) auto
  show ?case
  proof (cases "b < e")
    case True
    show ?thesis
    proof (cases "up b + 1 < 10 ^ 18")
      case lt: True
      have "splitRangeLeft (int (up b + 1)) (int e) = Some (ints (lefts (up b + 1) e))"
        by (rule 1(1) [OF True lt 1(3)])
      then show ?thesis
        using True g w by (subst splitRangeLeft.simps) (simp add: lefts.simps [of b e])
    next
      case False
      then have "up b + 1 = 10 ^ 18" using u by simp
      then have "\<not> int (up b + 1) < int e" "\<not> up b + 1 < e" using 1(3) by auto
      then have "splitRangeLeft (int (up b + 1)) (int e) = Some []" "lefts (up b + 1) e = []"
        by (subst splitRangeLeft.simps, simp, subst lefts.simps, simp)
      then show ?thesis
        using True g w by (subst splitRangeLeft.simps) (simp add: lefts.simps [of b e])
    qed
  next
    case False
    then show ?thesis by (subst splitRangeLeft.simps) (simp add: lefts.simps [of b e])
  qed
qed

lemma splitRangeRight_nat:
  "e < 10 ^ 18 \<Longrightarrow> splitRangeRight (int b) (int e) = Some (ints (rights b e))"
proof (induction b e rule: rights.induct)
  case (1 b e)
  have l: "low e < 10 ^ 18" using low_le [of e] 1(2) by linarith
  have g: "getLowerRange (int e) = (int (low e), int e)" using l by (intro getLowerRange_nat) (simp add: maxInt64_def)
  have w: "wrap64 (int (low e) - 1) = int (low e) - 1" using l by (subst wrap64_small) auto
  show ?case
  proof (cases "b < e")
    case True
    show ?thesis
    proof (cases "low e = 0")
      case z: True
      have "splitRangeRight (int b) (- 1) = Some []" by (subst splitRangeRight.simps) simp
      then show ?thesis
        using True g w z by (subst splitRangeRight.simps) (simp add: rights.simps [of b e])
    next
      case False
      then obtain l' where l': "low e = Suc l'" by (cases "low e") auto
      have "splitRangeRight (int b) (int l') = Some (ints (rights b l'))"
        using 1(1) [OF True False] l l' by simp
      moreover have "wrap64 (fst (getLowerRange (int e)) - 1) = int l'" using w g l' by simp
      ultimately show ?thesis
        using True g l' by (subst splitRangeRight.simps) (simp add: rights.simps [of b e])
    qed
  next
    case False
    then show ?thesis by (subst splitRangeRight.simps) (simp add: rights.simps [of b e])
  qed
qed


section \<open>The parts cover the range\<close>

definition parts :: "(nat \<times> nat) list \<Rightarrow> nat \<Rightarrow> nat \<Rightarrow> bool" where
  "parts rs lo hi \<longleftrightarrow> (\<forall>(x, y) \<in> set rs. block x y)
     \<and> (\<forall>n. (\<exists>(x, y) \<in> set rs. x \<le> n \<and> n \<le> y) \<longleftrightarrow> lo \<le> n \<and> n < hi)"

lemma parts_Nil [simp]: "parts [] n n"
  by (simp add: parts_def)

lemma parts_single: "block x y \<Longrightarrow> parts [(x, y)] x (Suc y)"
  by (auto simp: parts_def)

lemma parts_append: "parts rs a b \<Longrightarrow> parts ss b c \<Longrightarrow> a \<le> b \<Longrightarrow> b \<le> c \<Longrightarrow> parts (rs @ ss) a c"
proof -
  assume rs: "parts rs a b" and ss: "parts ss b c" and le: "a \<le> b" "b \<le> c"
  note rsn = rs [unfolded parts_def, THEN conjunct2, rule_format]
  note ssn = ss [unfolded parts_def, THEN conjunct2, rule_format]
  have u: "(\<exists>(x, y) \<in> set (rs @ ss). x \<le> n \<and> n \<le> y) \<longleftrightarrow> (a \<le> n \<and> n < b) \<or> (b \<le> n \<and> n < c)" for n
    by (simp only: set_append bex_Un rsn ssn)
  have "(a \<le> n \<and> n < b) \<or> (b \<le> n \<and> n < c) \<longleftrightarrow> a \<le> n \<and> n < c" for n
    using le by linarith
  moreover have "\<forall>(x, y) \<in> set (rs @ ss). block x y"
    using rs [unfolded parts_def, THEN conjunct1] ss [unfolded parts_def, THEN conjunct1] by auto
  ultimately show ?thesis unfolding parts_def u by simp
qed

lemma block_refl: "block n n"
  by (auto simp: block_def intro!: exI [of _ 0])

lemma low_self_block: "dlen (low n) = dlen n \<Longrightarrow> block (low n) n"
proof -
  assume len: "dlen (low n) = dlen n"
  obtain j where j: "10 ^ j dvd n + 1" "low n = n div 10 ^ Suc j * 10 ^ Suc j" using low_props by blast
  show ?thesis
  proof (rule low_block [OF order_refl low_le len])
    have "10 ^ Suc j dvd low n" unfolding j(2) by simp
    then show "10 ^ j dvd low n" by (rule power_le_dvd) simp
    show "low n div 10 ^ Suc j = n div 10 ^ Suc j" unfolding j(2) by simp
  qed
qed

lemma lefts_shape:
  "b < e \<Longrightarrow> \<exists>rs bl. lefts b e = rs @ [(bl, up bl)] \<and> b \<le> bl \<and> bl < e \<and> e \<le> up bl + 1 \<and> parts rs b bl"
proof (induction b e rule: lefts.induct)
  case (1 b e)
  show ?case
  proof (cases "up b + 1 < e")
    case True
    then obtain rs bl where IH: "lefts (up b + 1) e = rs @ [(bl, up bl)]" "up b + 1 \<le> bl" "bl < e"
      "e \<le> up bl + 1" "parts rs (up b + 1) bl"
      using 1 by blast
    have "parts ([(b, up b)] @ rs) b bl"
      by (rule parts_append [where b = "up b + 1"]) (use IH up_props [of b] parts_single [OF up_block] in auto)
    then show ?thesis
      using IH 1(2) up_props [of b] by (intro exI [of _ "(b, up b) # rs"] exI [of _ bl]) (simp add: lefts.simps [of b e])
  next
    case False
    then have "lefts b e = [] @ [(b, up b)]" using 1(2) by (simp add: lefts.simps [of b e] lefts.simps [of "Suc (up b)"])
    then show ?thesis using False 1(2) by (intro exI [of _ "[]"] exI [of _ b]) simp
  qed
qed

lemma rights_shape:
  "b < e \<Longrightarrow> (\<And>m. m \<le> e \<Longrightarrow> b + 1 < low m \<Longrightarrow> dlen (low m) = dlen m) \<Longrightarrow>
     \<exists>ur rs. rights b e = (low ur, ur) # rs \<and> b < ur \<and> ur \<le> e \<and> low ur \<le> b + 1 \<and> parts rs (ur + 1) (e + 1)"
proof (induction b e rule: rights.induct)
  case (1 b e)
  show ?case
  proof (cases "b < low e - 1")
    case True
    then have nz: "low e \<noteq> 0" by simp
    have "\<exists>ur rs. rights b (low e - 1) = (low ur, ur) # rs \<and> b < ur \<and> ur \<le> low e - 1 \<and> low ur \<le> b + 1
        \<and> parts rs (ur + 1) (low e - 1 + 1)"
    proof (rule 1(1) [OF 1(2) nz True])
      fix m assume "m \<le> low e - 1" "b + 1 < low m"
      then show "dlen (low m) = dlen m" using low_le [of e] by (intro 1(3)) auto
    qed
    then obtain ur rs where IH: "rights b (low e - 1) = (low ur, ur) # rs" "b < ur" "ur \<le> low e - 1"
      "low ur \<le> b + 1" "parts rs (ur + 1) (low e)"
      using nz by auto
    have "block (low e) e" using True by (intro low_self_block 1(3)) auto
    then have "parts (rs @ [(low e, e)]) (ur + 1) (e + 1)"
      using IH(3,5) low_le [of e] nz parts_single by (intro parts_append [where b = "low e"]) auto
    then show ?thesis
      using IH nz 1(2) low_le [of e] by (intro exI [of _ ur] exI [of _ "rs @ [(low e, e)]"]) (simp add: rights.simps [of b e])
  next
    case False
    then have "rights b e = [(low e, e)]" using 1(2) by (simp add: rights.simps [of b e] rights.simps [of b "low e - Suc 0"])
    then show ?thesis using False 1(2) by (intro exI [of _ e] exI [of _ "[]"]) simp
  qed
qed

lemma up_nine: "n mod 10 = 9 \<Longrightarrow> up n = n"
  by (subst up.simps) presburger

lemma low_ten: "10 dvd low n"
  using low_props [of n] by auto

text \<open>The first part of the right-hand split starts in the last part of the left-hand one.\<close>

lemma merged_block:
  assumes "bl < up bl" "bl < ur" "ur \<le> up bl" "low ur \<le> bl + 1"
  shows "low ur \<le> bl \<and> block bl ur"
proof -
  have "low ur \<noteq> bl + 1"
  proof
    assume "low ur = bl + 1"
    then have "bl mod 10 = 9" using low_ten [of ur] by presburger
    then show False using up_nine assms(1) by simp
  qed
  then have le: "low ur \<le> bl" using assms(4) by simp
  obtain k where k: "10 ^ k dvd bl" "bl div 10 ^ Suc k = up bl div 10 ^ Suc k"
    using up_props by blast
  have "bl div 10 ^ Suc k = ur div 10 ^ Suc k"
    using same_div_between [OF _ assms(3) k(2)] assms(2) k(2) by simp
  moreover have "dlen bl = dlen ur"
    using dlen_mono [of bl ur] dlen_mono [OF assms(3)] up_props [of bl] assms(2) by simp
  ultimately have "block bl ur" using assms(2) k(1) by (intro low_block [OF le]) auto
  then show ?thesis using le by blast
qed


lemma split_ranges_parts:
  assumes "b < e" "e < 10 ^ 18"
  shows "\<exists>rs. split_ranges (int b) (int e) = Some (Inr (ints rs)) \<and> parts rs b (e + 1)"
proof -
  obtain ls bl where L: "lefts b e = ls @ [(bl, up bl)]" "b \<le> bl" "bl < e" "e \<le> up bl + 1" "parts ls b bl"
    using lefts_shape [OF assms(1)] by blast
  have bl18: "bl < 10 ^ 18" using L(3) assms(2) by simp
  have ten: "10 dvd up bl + 1"
  proof -
    obtain k where "10 ^ Suc k dvd up bl + 1" using up_props by blast
    then show ?thesis by (metis dvd_mult_left power_Suc)
  qed
  have le: "bl \<le> up bl" using up_props by blast
  have e_low: "low e = e" if "e = up bl + 1"
  proof -
    have "10 dvd e" using ten that by simp
    then have "10 * (e div 10) = e" "e mod 10 = 0" by simp_all
    then show ?thesis by (subst low.simps) simp
  qed
  have dl: "dlen n = dlen bl" if "bl \<le> n" "n \<le> up bl" for n
    using dlen_mono that up_props [of bl] by (metis le_antisym)
  have Rh: "dlen (low m) = dlen m" if "m \<le> e" "bl + 1 < low m" for m
  proof (cases "m \<le> up bl")
    case True
    then show ?thesis using dl [of m] dl [of "low m"] low_le [of m] that by simp
  next
    case False
    then have "m = e" "e = up bl + 1" using that(1) L(4) by simp_all
    then show ?thesis using e_low by simp
  qed
  obtain ur rs where R: "rights bl e = (low ur, ur) # rs" "bl < ur" "ur \<le> e" "low ur \<le> bl + 1" "parts rs (ur + 1) (e + 1)"
    using rights_shape [OF L(3) Rh] by blast
  let ?mid = "if low ur < up bl \<and> bl < ur then [(bl, ur)] else [(bl, up bl), (low ur, ur)]"
  have "split_ranges (int b) (int e) = Some (Inr (ints (ls @ ?mid @ rs)))"
    using splitRangeLeft_nat [of b e] splitRangeRight_nat [of e bl] assms L(1) R(1)
    by (simp add: split_ranges_def Let_def)
  moreover have "parts (ls @ ?mid @ rs) b (e + 1)"
  proof -
    have "parts ?mid bl (ur + 1)"
    proof (cases "bl = up bl")
      case True
      then have "e = up bl + 1" using L(3,4) by simp
      then have "ur = e" using R(2,3) True by simp
      then have "low ur = ur" using e_low \<open>e = up bl + 1\<close> by simp
      with \<open>ur = e\<close> have "?mid = [(bl, up bl)] @ [(ur, ur)]" "ur = Suc (up bl)" using True \<open>e = up bl + 1\<close> \<open>low ur = ur\<close> by simp_all
      moreover have "parts [(bl, up bl)] bl ur" using parts_single [OF up_block] \<open>ur = Suc (up bl)\<close> by simp
      then have "parts ([(bl, up bl)] @ [(ur, ur)]) bl (ur + 1)"
        using parts_append parts_single [OF block_refl [of ur]] R(2) by fastforce
      ultimately show ?thesis by simp
    next
      case False
      then have lt: "bl < up bl" using le by simp
      have "ur \<le> up bl"
      proof (rule ccontr)
        assume "\<not> ur \<le> up bl"
        then have "ur = up bl + 1" "e = up bl + 1" using R(3) L(4) by simp_all
        then show False using e_low R(4) lt by simp
      qed
      then have "low ur \<le> bl" "block bl ur" using merged_block [OF lt R(2) _ R(4)] by simp_all
      then show ?thesis using lt R(2) parts_single [of bl ur] by simp
    qed
    then have "parts (?mid @ rs) bl (e + 1)"
      by (rule parts_append [OF _ R(5)]) (use R(2,3) in simp_all)
    then show ?thesis by (rule parts_append [OF L(5)]) (use L(2,3) in simp_all)
  qed
  ultimately show ?thesis by blast
qed

section \<open>The digits of a block\<close>

definition digits_between :: "nat \<Rightarrow> nat \<Rightarrow> nat \<Rightarrow> bool" where
  "digits_between b e n \<longleftrightarrow> dlen n = dlen b
     \<and> list_all (\<lambda>(d, lo, hi). lo \<le> d \<and> d \<le> hi) (zip (nat_digits n) (zip (nat_digits b) (nat_digits e)))"

lemma digits_between_rec:
  assumes "dlen b = dlen e"
  shows "digits_between b e n \<longleftrightarrow> (n < 10 \<longleftrightarrow> b < 10) \<and> b mod 10 \<le> n mod 10 \<and> n mod 10 \<le> e mod 10
    \<and> (n < 10 \<or> digits_between (b div 10) (e div 10) (n div 10))"
proof -
  have pos: "0 < dlen m" for m by (simp add: dlen_rec)
  have e10: "e < 10 \<longleftrightarrow> b < 10"
    using assms pos [of "b div 10"] pos [of "e div 10"]
    by (simp add: dlen_rec [of b] dlen_rec [of e] split: if_splits)
  show ?thesis
  proof (cases "b < 10")
    case True
    then show ?thesis using e10 pos [of "n div 10"]
      by (auto simp: digits_between_def dlen_rec [of b] dlen_rec [of n] nat_digits.simps [of b]
          nat_digits.simps [of e] nat_digits.simps [of n])
  next
    case False
    show ?thesis
    proof (cases "n < 10")
      case True
      then show ?thesis using False pos [of "b div 10"]
        by (simp add: digits_between_def dlen_rec [of b] dlen_rec [of n])
    next
      case nF: False
      have len: "length (nat_digits (e div 10)) = length (nat_digits (b div 10))"
        using assms False e10 by (simp add: dlen_rec [of b] dlen_rec [of e] flip: dlen_def)
      then have "dlen n = dlen b \<Longrightarrow> zip (nat_digits n) (zip (nat_digits b) (nat_digits e))
          = zip (nat_digits (n div 10)) (zip (nat_digits (b div 10)) (nat_digits (e div 10)))
              @ [(n mod 10, b mod 10, e mod 10)]"
        using False nF e10
        by (simp add: nat_digits.simps [of b] nat_digits.simps [of e] nat_digits.simps [of n] dlen_def)
      then show ?thesis using False nF
        by (auto simp: digits_between_def dlen_rec [of b] dlen_rec [of n])
    qed
  qed
qed


lemma dvd_ten: "10 ^ Suc k dvd n \<longleftrightarrow> n mod 10 = 0 \<and> 10 ^ k dvd n div (10 :: nat)"
proof
  assume d: "10 ^ Suc k dvd n"
  then obtain q where "n = 10 * 10 ^ k * q" by (auto simp: dvd_def)
  then show "n mod 10 = 0 \<and> 10 ^ k dvd n div 10" by (simp add: mult.assoc)
next
  assume "n mod 10 = 0 \<and> 10 ^ k dvd n div 10"
  then obtain q where "n div 10 = 10 ^ k * q" "n = 10 * (n div 10)" by (auto simp: dvd_def)
  then show "10 ^ Suc k dvd n" by (metis dvd_triv_left mult.assoc power_Suc)
qed

lemma div_mod_ten: "\<exists>q r. n = 10 * q + r \<and> r < 10 \<and> n div 10 = q \<and> n mod 10 = (r :: nat)"
  by (intro exI [of _ "n div 10"] exI [of _ "n mod 10"]) simp

lemma digits_between_self: "digits_between m m n \<longleftrightarrow> n = m"
proof (induction m arbitrary: n rule: nat_digits.induct)
  case (1 m)
  show ?case
  proof (cases "m < 10")
    case True
    then show ?thesis by (subst digits_between_rec [OF refl]) auto
  next
    case False
    then have "digits_between m m n \<longleftrightarrow> \<not> n < 10 \<and> n mod 10 = m mod 10 \<and> n div 10 = m div 10"
      using 1 by (subst digits_between_rec [OF refl]) auto
    then show ?thesis using False by (metis mult_div_mod_eq)
  qed
qed

lemma digits_between_block:
  assumes "b \<le> e" "dlen b = dlen e" "10 ^ k dvd b" "10 ^ k dvd e + 1" "b div 10 ^ Suc k = e div 10 ^ Suc k"
  shows "digits_between b e n \<longleftrightarrow> b \<le> n \<and> n \<le> e"
  using assms
proof (induction k arbitrary: b e n)
  case 0
  have same: "b div 10 = e div 10" using 0(5) by simp
  have D: "digits_between b e n \<longleftrightarrow> (n < 10 \<longleftrightarrow> b < 10) \<and> b mod 10 \<le> n mod 10 \<and> n mod 10 \<le> e mod 10
      \<and> (n < 10 \<or> n div 10 = b div 10)"
    by (subst digits_between_rec [OF 0(2)]) (simp add: same digits_between_self)
  obtain q x y p z where v: "b = 10 * q + x" "e = 10 * q + y" "n = 10 * p + z" "x < 10" "y < 10" "z < 10"
    "b mod 10 = x" "e mod 10 = y" "n mod 10 = z" "n div 10 = p" "b div 10 = q"
    using div_mod_ten [of b] div_mod_ten [of e] div_mod_ten [of n] same by metis
  show ?case unfolding D v(7-11)
  proof -
    have "n < 10 \<longleftrightarrow> p = 0" "b < 10 \<longleftrightarrow> q = 0" using v by auto
    moreover have "b \<le> n \<and> n \<le> e \<longleftrightarrow> p = q \<and> x \<le> z \<and> z \<le> y"
      unfolding v(1-3) using v(4-6) by (cases p q rule: linorder_cases) auto
    ultimately show "((n < 10) = (b < 10) \<and> x \<le> z \<and> z \<le> y \<and> (n < 10 \<or> p = q)) = (b \<le> n \<and> n \<le> e)"
      by auto
  qed
next
  case (Suc k)
  have b0: "b mod 10 = 0" "10 ^ k dvd b div 10" using Suc.prems(3) unfolding dvd_ten by auto
  have e9: "(e + 1) mod 10 = 0" "10 ^ k dvd (e + 1) div 10" using Suc.prems(4) unfolding dvd_ten by auto
  obtain q where b: "b = 10 * q" "b div 10 = q" using b0(1) by auto
  obtain r' where r': "e + 1 = 10 * r'" using e9(1) by (metis mod_0_imp_dvd dvdE)
  then obtain r where r: "r' = r + 1" by (cases r') auto
  then have "e = 10 * r + 9" using r' by simp
  then have e: "e = 10 * r + 9" "e div 10 = r" "10 ^ k dvd r + 1" "e mod 10 = 9" using e9(2) r r' by simp_all
  have d: "q div 10 ^ Suc k = r div 10 ^ Suc k"
    using Suc.prems(5) b(2) e(2) by (metis div_mult2_eq power_Suc)
  obtain p z where n: "n = 10 * p + z" "z < 10" "n div 10 = p" "n mod 10 = z" using div_mod_ten [of n] by blast
  have pos: "0 < dlen m" for m by (simp add: dlen_rec)
  show ?case
  proof (cases "b < 10")
    case True
    then have "q = 0" using b(1) by simp
    moreover have "e < 10" using Suc.prems(2) True pos [of "e div 10"] by (simp add: dlen_rec [of b] dlen_rec [of e] split: if_splits)
    ultimately show ?thesis
      using b e n True by (subst digits_between_rec [OF Suc.prems(2)]) auto
  next
    case False
    then have "dlen b = Suc (dlen q)" "dlen e = Suc (dlen r)"
      using Suc.prems(1) dlen_rec [of b] dlen_rec [of e] b(2) e(2) by simp_all
    then have "dlen q = dlen r" "q \<le> r" using Suc.prems(1,2) b(1) e(1) by auto
    then have "digits_between q r p \<longleftrightarrow> q \<le> p \<and> p \<le> r"
      using Suc.IH [of q r p] b0(2) b(2) e(3) d by simp
    then show ?thesis
      using b e n False by (subst digits_between_rec [OF Suc.prems(2)]) auto
  qed
qed

lemma block_digits: "block b e \<Longrightarrow> digits_between b e n \<longleftrightarrow> b \<le> n \<and> n \<le> e"
  unfolding block_def using digits_between_block by blast

end
