(* ===== verification/GoRegexp.thy ===== *)
theory GoRegexp
  imports GoStrings
begin

text \<open>
  The part of Go's package \<open>regexp\<close> that the expression language needs: regular expressions of the
  form \<open>\A(?s: items )\z\<close> whose items are a literal, an escaped punctuation character, the dot, the
  dot with a star, and a character class with ranges, negation and POSIX names. Patterns and texts
  are sequences of code points; a pattern that is not valid UTF-8 does not compile. \<open>None\<close> is a
  compilation error; the texts the code compiles all have this form.
\<close>

section \<open>Syntax\<close>

text \<open>The elements of a class: ranges, or the complement of ranges (\<open>[:^digit:]\<close>).\<close>

type_synonym class_elem = "bool \<times> (nat \<times> nat) list"

datatype re_item = Star | AnyChar | Lit nat | Class bool "class_elem list"

abbreviation rn :: "char \<Rightarrow> nat" where
  "rn c \<equiv> of_char c"

definition rns :: "string \<Rightarrow> nat list" where
  "rns s = map of_char s"

definition posix_ranges :: "(string \<times> (nat \<times> nat) list) list" where
  "posix_ranges =
    [(''alnum'', [(48, 57), (65, 90), (97, 122)]), (''alpha'', [(65, 90), (97, 122)]), (''ascii'', [(0, 127)]),
     (''blank'', [(9, 9), (32, 32)]), (''cntrl'', [(0, 31), (127, 127)]), (''digit'', [(48, 57)]),
     (''graph'', [(33, 126)]), (''lower'', [(97, 122)]), (''print'', [(32, 126)]),
     (''punct'', [(33, 47), (58, 64), (91, 96), (123, 126)]), (''space'', [(9, 13), (32, 32)]),
     (''upper'', [(65, 90)]), (''word'', [(48, 57), (65, 90), (95, 95), (97, 122)]),
     (''xdigit'', [(48, 57), (65, 70), (97, 102)])]"

text \<open>A named class: the name between \<open>[:\<close> and \<open>:]\<close>.\<close>

definition posix_class :: "nat list \<Rightarrow> class_elem option" where
  "posix_class name =
     (case find (\<lambda>(n, r). rns n = name \<or> rn CHR ''^'' # rns n = name) posix_ranges of
        None \<Rightarrow> None
      | Some (n, r) \<Rightarrow> Some (rns n \<noteq> name, r))"

text \<open>The text up to the next \<open>:]\<close> and the text after it.\<close>

fun until_colon :: "nat list \<Rightarrow> (nat list \<times> nat list) option" where
  "until_colon (a # b # t) =
     (if a = rn CHR '':'' \<and> b = rn CHR '']'' then Some ([], t)
      else map_option (\<lambda>(n, r). (a # n, r)) (until_colon (b # t)))"
| "until_colon _ = None"

definition alnum_ascii :: "nat \<Rightarrow> bool" where
  "alnum_ascii c \<longleftrightarrow> (48 \<le> c \<and> c \<le> 57) \<or> (65 \<le> c \<and> c \<le> 90) \<or> (97 \<le> c \<and> c \<le> 122)"

text \<open>One character of a class; the escapes that occur are those of punctuation.\<close>

fun class_char :: "nat list \<Rightarrow> (nat \<times> nat list) option" where
  "class_char [] = None"
| "class_char (c # t) =
     (if c = rn CHR 0x5C then
        (case t of [] \<Rightarrow> None | d # t' \<Rightarrow> if d < 128 \<and> \<not> alnum_ascii d then Some (d, t') else None)
      else Some (c, t))"

text \<open>
  The loop of \<open>parseClass\<close>; every round takes at least one character, so that the length of the
  text is enough fuel.
\<close>

fun class_loop :: "nat \<Rightarrow> bool \<Rightarrow> nat list \<Rightarrow> (class_elem list \<times> nat list) option" where
  "class_loop 0 first t = None"
| "class_loop (Suc k) first t =
     (case t of
        c # t' \<Rightarrow>
          if c = rn CHR '']'' \<and> \<not> first then Some ([], t')
          else (case (if c = rn CHR ''['' then (case t' of d # t2 \<Rightarrow> if d = rn CHR '':'' then until_colon t2 else None
                        | [] \<Rightarrow> None) else None) of
            Some (name, rest) \<Rightarrow>
              (case posix_class name of
                 None \<Rightarrow> None
               | Some e \<Rightarrow> map_option (\<lambda>(es, r). (e # es, r)) (class_loop k False rest))
          | None \<Rightarrow>
              (case class_char t of
                 None \<Rightarrow> None
               | Some (lo, t1) \<Rightarrow>
                   (case t1 of
                      h # x # t2 \<Rightarrow>
                        if h = rn CHR ''-'' \<and> x \<noteq> rn CHR '']'' then
                          (case class_char (x # t2) of
                             None \<Rightarrow> None
                           | Some (hi, t3) \<Rightarrow>
                               if hi < lo then None
                               else map_option (\<lambda>(es, r). ((False, [(lo, hi)]) # es, r)) (class_loop k False t3))
                        else map_option (\<lambda>(es, r). ((False, [(lo, lo)]) # es, r)) (class_loop k False t1)
                    | _ \<Rightarrow> map_option (\<lambda>(es, r). ((False, [(lo, lo)]) # es, r)) (class_loop k False t1))))
      | [] \<Rightarrow> None)"

definition parse_class :: "nat list \<Rightarrow> (re_item \<times> nat list) option" where
  "parse_class t =
     (case t of
        c # t' \<Rightarrow>
          if c = rn CHR ''^''
          then map_option (\<lambda>(es, r). (Class True es, r)) (class_loop (Suc (length t')) True t')
          else map_option (\<lambda>(es, r). (Class False es, r)) (class_loop (Suc (length t)) True t)
      | [] \<Rightarrow> None)"

fun parse_items :: "nat \<Rightarrow> nat list \<Rightarrow> re_item list option" where
  "parse_items 0 t = None"
| "parse_items (Suc k) t =
     (if t = rns '')'' @ [rn CHR 0x5C, rn CHR ''z''] then Some []
      else case t of
        [] \<Rightarrow> None
      | c # t' \<Rightarrow>
          if c = rn CHR ''.'' then
            (case t' of
               s # t2 \<Rightarrow> if s = rn CHR ''*'' then map_option ((#) Star) (parse_items k t2)
                 else map_option ((#) AnyChar) (parse_items k t')
             | [] \<Rightarrow> None)
          else if c = rn CHR 0x5C then
            (case t' of d # t2 \<Rightarrow> map_option ((#) (Lit d)) (parse_items k t2) | [] \<Rightarrow> None)
          else if c = rn CHR ''['' then
            (case parse_class t' of
               None \<Rightarrow> None
             | Some (cl, t2) \<Rightarrow> map_option ((#) cl) (parse_items k t2))
          else map_option ((#) (Lit c)) (parse_items k t'))"

section \<open>Matching\<close>

definition in_elem :: "nat \<Rightarrow> class_elem \<Rightarrow> bool" where
  "in_elem c e = (fst e \<noteq> list_ex (\<lambda>(lo, hi). lo \<le> c \<and> c \<le> hi) (snd e))"

fun matches :: "re_item list \<Rightarrow> nat list \<Rightarrow> bool" where
  "matches [] s = (s = [])"
| "matches (Star # is) [] = matches is []"
| "matches (Star # is) (c # s) = (matches is (c # s) \<or> matches (Star # is) s)"
| "matches (AnyChar # is) s = (case s of [] \<Rightarrow> False | c # s' \<Rightarrow> matches is s')"
| "matches (Lit d # is) s = (case s of [] \<Rightarrow> False | c # s' \<Rightarrow> c = d \<and> matches is s')"
| "matches (Class neg es # is) s =
     (case s of [] \<Rightarrow> False | c # s' \<Rightarrow> (neg \<noteq> list_ex (in_elem c) es) \<and> matches is s')"

fun valid_utf8_from :: "nat \<Rightarrow> nat list \<Rightarrow> bool" where
  "valid_utf8_from 0 bs = (bs = [])"
| "valid_utf8_from (Suc k) bs =
     (bs = [] \<or> (case decode_rune bs of (r, w) \<Rightarrow> (r, w) \<noteq> (65533, 1) \<and> valid_utf8_from k (drop w bs)))"

definition valid_utf8 :: "string \<Rightarrow> bool" where
  "valid_utf8 s = valid_utf8_from (length s) (map of_char s)"

definition re_prefix :: string where
  "re_prefix = [CHR 0x5C] @ ''A(?s:''"

definition re_suffix :: string where
  "re_suffix = '')'' @ [CHR 0x5C] @ ''z''"

text \<open>\<open>regexp.Compile\<close> and \<open>MatchString\<close> for the texts described above.\<close>

definition Compile :: "string \<Rightarrow> (string \<Rightarrow> bool) option" where
  "Compile re =
     (if \<not> valid_utf8 re \<or> \<not> hasPrefix re re_prefix then None
      else let t = runes (drop (length re_prefix) re)
           in map_option (\<lambda>is s. matches is (runes s)) (parse_items (Suc (length t)) t))"

section \<open>ASCII patterns\<close>

definition ascii :: "string \<Rightarrow> bool" where
  "ascii s \<longleftrightarrow> (\<forall>c \<in> set s. rn c < 128)"

lemma ascii_simps [simp]: "ascii []" "ascii (c # s) \<longleftrightarrow> rn c < 128 \<and> ascii s" "ascii (s @ t) \<longleftrightarrow> ascii s \<and> ascii t"
  by (auto simp: ascii_def)

lemma runes_ascii: "ascii s \<Longrightarrow> runes s = rns s"
  by (induction s) (auto simp: runes_def rns_def)

lemma valid_ascii: "ascii s \<Longrightarrow> valid_utf8 s"
proof -
  have "list_all (\<lambda>b. b < 128) bs \<Longrightarrow> valid_utf8_from (length bs) bs" for bs
  proof (induction bs)
    case (Cons b bs)
    then have "decode_rune (b # bs) = (b, 1)" "b \<noteq> 65533" by simp_all
    then show ?case using Cons by simp
  qed simp
  from this [of "map of_char s"] show "ascii s \<Longrightarrow> valid_utf8 s"
    by (simp add: valid_utf8_def ascii_def list_all_iff)
qed

lemma digit_ascii: "is_digit_char c \<Longrightarrow> rn c < 128"
  by (simp add: is_digit_char_def)

lemma matches_Star: "matches (Star # is) s \<longleftrightarrow> (\<exists>p q. s = p @ q \<and> matches is q)"
  by (induction s) (auto simp: Cons_eq_append_conv)

definition takes :: "re_item \<Rightarrow> nat \<Rightarrow> bool" where
  "takes i c = (case i of Star \<Rightarrow> False | AnyChar \<Rightarrow> True | Lit d \<Rightarrow> c = d
     | Class neg es \<Rightarrow> neg \<noteq> list_ex (in_elem c) es)"

lemma matches_one: "i \<noteq> Star \<Longrightarrow> matches (i # is) s \<longleftrightarrow> (\<exists>c s'. s = c # s' \<and> takes i c \<and> matches is s')"
  by (cases i; cases s) (simp_all add: takes_def)

lemma matches_append: "matches (is @ js) s \<longleftrightarrow> (\<exists>p q. s = p @ q \<and> matches is p \<and> matches js q)"
proof (induction "is" arbitrary: s)
  case (Cons i "is")
  show ?case
  proof (cases "i = Star")
    case True
    have "matches ((i # is) @ js) s \<longleftrightarrow> (\<exists>p q1 q2. s = p @ q1 @ q2 \<and> matches is q1 \<and> matches js q2)"
      unfolding True append_Cons matches_Star Cons by blast
    also have "\<dots> \<longleftrightarrow> (\<exists>p q. s = p @ q \<and> matches (i # is) p \<and> matches js q)"
      unfolding True matches_Star by (metis append.assoc)
    finally show ?thesis .
  next
    case False
    have "matches ((i # is) @ js) s \<longleftrightarrow> (\<exists>c p q. s = c # p @ q \<and> takes i c \<and> matches is p \<and> matches js q)"
      unfolding append_Cons matches_one [OF False] Cons by blast
    also have "\<dots> \<longleftrightarrow> (\<exists>p q. s = p @ q \<and> matches (i # is) p \<and> matches js q)"
      unfolding matches_one [OF False] by (metis append_Cons)
    finally show ?thesis .
  qed
qed simp

end
