(* ===== verification/ProcExpr.thy ===== *)
theory ProcExpr
  imports Range2Re GoRegexp "HOL-Library.Word"
begin

text \<open>
  \<open>internal/expression\<close>: the expressions that select processes. \<open>parse.go\<close> expands the brackets of
  an expression into patterns, \<open>match.go\<close> translates a pattern to a regular expression and matches
  names, \<open>list2expr.go\<close> writes a list as an expression, \<open>slice.go\<close> takes slices of a list and
  \<open>scope.go\<close> composes the five segments. \<open>None\<close> is a call that does not return (a number range that
  overflows, see \<open>Range2Re\<close>), \<open>Inl\<close> an error.
\<close>

datatype expr_err = Syntax string | Panic string | BadRegexp string

section \<open>White space\<close>

text \<open>The encodings of the code points \<open>unicode.IsSpace\<close> accepts.\<close>

definition space_seqs :: "string list" where
  "space_seqs = map (map char_of) (([[9], [10], [11], [12], [13], [32], [194, 133], [194, 160], [225, 154, 128],
     [226, 128, 168], [226, 128, 169], [226, 128, 175], [226, 129, 159], [227, 128, 128]] :: nat list list)
     @ map (\<lambda>n. [226, 128, n]) [128 ..< 139])"

text \<open>Each round drops a prefix; the length of the text is enough fuel.\<close>

fun strip_front :: "nat \<Rightarrow> string list \<Rightarrow> string \<Rightarrow> string" where
  "strip_front 0 seqs s = s"
| "strip_front (Suc k) seqs s =
     (case find (\<lambda>p. hasPrefix s p) seqs of
        None \<Rightarrow> s
      | Some p \<Rightarrow> strip_front k seqs (drop (length p) s))"

definition TrimSpace :: "string \<Rightarrow> string" where
  "TrimSpace s =
     (let l = strip_front (length s) space_seqs s
      in rev (strip_front (length l) (map rev space_seqs) (rev l)))"

section \<open>parse.go\<close>

datatype match_type = matchWord | matchRange | matchWordList | matchBuildInEnum | matchBuildInExclude

definition isAlpha :: "char \<Rightarrow> bool" where
  "isAlpha c \<longleftrightarrow> (rn CHR ''a'' \<le> rn c \<and> rn c \<le> rn CHR ''z'') \<or> (rn CHR ''A'' \<le> rn c \<and> rn c \<le> rn CHR ''Z'')"

definition isLower :: "char \<Rightarrow> bool" where
  "isLower c \<longleftrightarrow> rn CHR ''a'' \<le> rn c \<and> rn c \<le> rn CHR ''z''"

definition getRangeScope :: "string \<Rightarrow> string \<times> string" where
  "getRangeScope s = (let parts = splitOn CHR ''-'' s in (parts ! 0, parts ! 1))"

definition isRangeFormat :: "string \<Rightarrow> bool" where
  "isRangeFormat s \<longleftrightarrow> length (splitOn CHR ''-'' s) = 2"

definition isSingleAlphaRange :: "string \<Rightarrow> bool" where
  "isSingleAlphaRange s =
     (if \<not> isRangeFormat s then False
      else let (begin, end) = getRangeScope s in
        if length begin \<noteq> 1 \<or> length end \<noteq> 1 then False
        else if \<not> isAlpha (hd begin) \<or> \<not> isAlpha (hd end) then False
        else if isLower (hd begin) \<noteq> isLower (hd end) then False
        else rn (hd begin) < rn (hd end))"

definition isNumberRange :: "string \<Rightarrow> bool" where
  "isNumberRange s =
     (if \<not> isRangeFormat s then False
      else let (begin, end) = getRangeScope s in
        case (atoi begin, atoi end) of
          (Some b, Some e) \<Rightarrow> if hasPrefix begin ''-'' \<or> hasPrefix end ''-'' then False else b < e
        | _ \<Rightarrow> False)"

definition getMatchType :: "string \<Rightarrow> match_type" where
  "getMatchType s =
     (if hasPrefix s ''['' \<and> hasSuffix s '']'' then matchBuildInEnum
      else if hasPrefix s ''!'' then matchBuildInExclude
      else if containsStr s '','' then matchWordList
      else if containsStr s ''-'' then
        (if isRangeFormat s \<and> (isSingleAlphaRange s \<or> isNumberRange s) then matchRange else matchWord)
      else matchWord)"

definition parseWordListExpression :: "string \<Rightarrow> string list" where
  "parseWordListExpression s = map TrimSpace (splitOn CHR '','' s)"

definition parseRangeExpression :: "string \<Rightarrow> (expr_err + string list) option" where
  "parseRangeExpression s =
     (if isSingleAlphaRange s then Some (Inr [''['' @ s @ '']''])
      else if isNumberRange s then
        (let (begin, end) = getRangeScope s
         in map_option (map_sum Panic id) (Range2Re (the (atoi begin)) (the (atoi end))))
      else Some (Inl (Syntax s)))"

text \<open>The loop that appends the results of a recursive call for each element.\<close>

fun traverse :: "('a \<Rightarrow> ('e + 'b list) option) \<Rightarrow> 'a list \<Rightarrow> ('e + 'b list) option" where
  "traverse f [] = Some (Inr [])"
| "traverse f (x # xs) =
     Option.bind (f x) (\<lambda>r. case r of
       Inl e \<Rightarrow> Some (Inl e)
     | Inr ys \<Rightarrow> map_option (map_sum id ((@) ys)) (traverse f xs))"

lemma traverse_cong [fundef_cong]:
  "xs = ys \<Longrightarrow> (\<And>y. y \<in> set ys \<Longrightarrow> f y = g y) \<Longrightarrow> traverse f xs = traverse g ys"
proof (induction xs arbitrary: ys)
  case (Cons x xs)
  then show ?case by (cases "g x") (auto split: sum.splits)
qed simp

text \<open>
  \<open>parseEnumExpression\<close> calls itself on the words of a list and on the fragments of a range; the
  measure is the kind of the expression: words contain no comma, fragments are not ranges.
\<close>

definition enum_level :: "string \<Rightarrow> nat" where
  "enum_level s = (case getMatchType s of matchWordList \<Rightarrow> 2 | matchRange \<Rightarrow> 1 | _ \<Rightarrow> 0)"

lemma containsStr_char: "containsStr s [d] \<longleftrightarrow> d \<in> set s"
proof -
  have "indexOf s [d] = None \<longleftrightarrow> d \<notin> set s"
    by (induction s) (auto simp: hasPrefix_Cons)
  then show ?thesis by (simp add: containsStr_def)
qed

lemma set_strip_front: "set (strip_front k seqs s) \<subseteq> set s"
proof (induction k arbitrary: s)
  case (Suc k)
  show ?case
  proof (cases "find (\<lambda>p. hasPrefix s p) seqs")
    case (Some p)
    then show ?thesis using Suc [of "drop (length p) s"] set_drop_subset [of "length p" s] by auto
  qed simp
qed simp

lemma set_TrimSpace: "set (TrimSpace s) \<subseteq> set s"
proof -
  define l where "l = strip_front (length s) space_seqs s"
  have "set l \<subseteq> set s" unfolding l_def by (rule set_strip_front)
  moreover have "set (strip_front (length l) (map rev space_seqs) (rev l)) \<subseteq> set l"
    using set_strip_front [of "length l" "map rev space_seqs" "rev l"] by simp
  ultimately show ?thesis by (simp add: TrimSpace_def Let_def flip: l_def)
qed

lemma word_level: "w \<in> set (parseWordListExpression s) \<Longrightarrow> enum_level w \<le> 1"
proof -
  assume "w \<in> set (parseWordListExpression s)"
  then have "CHR '','' \<notin> set w"
    using splitOn_parts set_TrimSpace by (fastforce simp: parseWordListExpression_def)
  then have "getMatchType w \<noteq> matchWordList" by (simp add: getMatchType_def containsStr_char)
  then show "enum_level w \<le> 1" by (simp add: enum_level_def split: match_type.splits)
qed

text \<open>The characters of a fragment.\<close>

lemma digit_char_simps: "is_digit_char c \<Longrightarrow> c \<noteq> CHR ''-'' \<and> c \<noteq> CHR '','' \<and> c \<noteq> CHR ''['' \<and> c \<noteq> CHR '']'' \<and> c \<noteq> CHR ''!''"
  by (auto simp: is_digit_char_def)

lemma itoa_shape: "\<exists>neg ds. itoa n = (if neg then CHR ''-'' # ds else ds) \<and> list_all is_digit_char ds"
  using all_digits_itoa by (cases "n < 0") (auto simp: itoa_def all_digits_def)

lemma itoa_chars: "c \<in> set (itoa n) \<Longrightarrow> is_digit_char c \<or> c = CHR ''-''"
  using itoa_shape [of n] by (auto simp: list_all_iff split: if_splits)

lemma rangePart_mem:
  assumes "c \<in> set (rangePartToRe b e)"
  obtains x y where "(x, y) \<in> set (zip (itoa b) (itoa e))" "x = y \<and> c = x \<or> x \<noteq> y \<and> c \<in> {CHR ''['', x, CHR ''-'', y, CHR '']''}"
  using assms unfolding rangePartToRe_def set_concat set_map
  by (auto split: if_splits)

lemma rangePart_chars: "c \<in> set (rangePartToRe b e) \<Longrightarrow> is_digit_char c \<or> c \<in> {CHR ''-'', CHR ''['', CHR '']''}"
proof (erule rangePart_mem)
  fix x y assume "(x, y) \<in> set (zip (itoa b) (itoa e))"
    "x = y \<and> c = x \<or> x \<noteq> y \<and> c \<in> {CHR ''['', x, CHR ''-'', y, CHR '']''}"
  moreover have "x \<in> set (itoa b)" "y \<in> set (itoa e)"
    using calculation(1) by (auto dest: set_zip_leftD set_zip_rightD)
  ultimately show ?thesis using itoa_chars by auto
qed

lemma rangePart_no_class:
  assumes "CHR ''['' \<notin> set (rangePartToRe b e)"
  shows "\<exists>n. rangePartToRe b e = take n (itoa b)"
proof -
  have eq: "x = y" if "(x, y) \<in> set (zip (itoa b) (itoa e))" for x y
    using assms that by (force simp: rangePartToRe_def split: if_splits)
  then have "rangePartToRe b e = concat (map (\<lambda>(x, y). [x]) (zip (itoa b) (itoa e)))"
    unfolding rangePartToRe_def by (auto intro!: arg_cong [of _ _ concat])
  also have "\<dots> = map fst (zip (itoa b) (itoa e))" by (induction "zip (itoa b) (itoa e)") (auto simp: concat_map_singleton case_prod_unfold)
  also have "\<dots> = take (min (length (itoa b)) (length (itoa e))) (itoa b)" by (rule map_fst_zip_take)
  finally show ?thesis by blast
qed

lemma atoi_chars: "atoi s = Some n \<Longrightarrow> c \<in> set s \<Longrightarrow> is_digit_char c \<or> c = CHR ''-'' \<or> c = CHR ''+''"
  by (cases s) (auto simp: atoi_def all_digits_def list_all_iff split: if_splits)

lemma no_range:
  assumes "CHR ''['' \<in> set s \<or> hasPrefix s ''-''"
  shows "\<not> isSingleAlphaRange s \<and> \<not> isNumberRange s"
proof (cases "isRangeFormat s")
  case True
  then obtain p q where pq: "splitOn CHR ''-'' s = [p, q]"
    by (auto simp: isRangeFormat_def length_Suc_conv numeral_2_eq_2)
  then have s: "s = p @ ''-'' @ q" using join_splitOn [of "CHR ''-''" s] by simp
  have alpha: "\<not> isAlpha CHR ''[''" by (simp add: isAlpha_def)
  have br: "CHR ''['' \<in> set t \<Longrightarrow> atoi t = None" for t
    using atoi_chars [of t _ "CHR ''[''"] by (cases "atoi t") (auto simp: is_digit_char_def)
  consider "CHR ''['' \<in> set p" | "CHR ''['' \<in> set q" | "p = []"
    using assms splitOn_parts [of p "CHR ''-''" s] pq by (cases p) (auto simp: s hasPrefix_def)
  then show ?thesis
  proof cases
    case 1
    then have "length p = 1 \<Longrightarrow> \<not> isAlpha (hd p)" using alpha by (cases p) auto
    then show ?thesis using br 1 pq by (auto simp: isSingleAlphaRange_def isNumberRange_def getRangeScope_def Let_def split: option.splits)
  next
    case 2
    then have "length q = 1 \<Longrightarrow> \<not> isAlpha (hd q)" using alpha by (cases q) auto
    then show ?thesis using br 2 pq by (auto simp: isSingleAlphaRange_def isNumberRange_def getRangeScope_def Let_def split: option.splits)
  next
    case 3
    then show ?thesis using pq
      by (simp add: isSingleAlphaRange_def isNumberRange_def getRangeScope_def Let_def atoi_def all_digits_def)
  qed
qed (simp add: isSingleAlphaRange_def isNumberRange_def)

lemma fragment_level: "enum_level (rangePartToRe b e) = 0"
proof -
  let ?f = "rangePartToRe b e"
  have "CHR '','' \<notin> set ?f" using rangePart_chars digit_char_simps by fastforce
  moreover have "\<not> (isSingleAlphaRange ?f \<or> isNumberRange ?f) \<or> CHR ''-'' \<notin> set ?f"
  proof (cases "CHR ''['' \<in> set ?f")
    case False
    then obtain n where n: "?f = take n (itoa b)" using rangePart_no_class by blast
    obtain neg ds where ds: "itoa b = (if neg then CHR ''-'' # ds else ds)" "list_all is_digit_char ds"
      using itoa_shape by blast
    have nd: "CHR ''-'' \<notin> set ds" using ds(2) by (auto simp: list_all_iff is_digit_char_def)
    show ?thesis
    proof (cases "neg \<and> n \<noteq> 0")
      case True
      then have "hasPrefix ?f ''-''" using n ds(1) by (cases n) (simp_all add: hasPrefix_def)
      then show ?thesis using no_range by blast
    next
      case False
      then have "CHR ''-'' \<notin> set ?f" using n ds(1) nd by (auto dest: in_set_takeD)
      then show ?thesis by blast
    qed
  qed (use no_range in blast)
  ultimately show ?thesis by (auto simp: enum_level_def getMatchType_def containsStr_char)
qed


lemma isNumberRangeD:
  assumes "isNumberRange s"
  obtains p q b e where "getRangeScope s = (p, q)" "atoi p = Some b" "atoi q = Some e" "b < e"
proof -
  obtain p q where be: "getRangeScope s = (p, q)" by fastforce
  then show thesis
    using that assms
    by (cases "atoi p"; cases "atoi q") (auto simp: isNumberRange_def Let_def split: if_splits)
qed

lemma range_frag_level:
  assumes "parseRangeExpression s = Some (Inr fs)" "f \<in> set fs" "getMatchType s = matchRange"
  shows "enum_level f = 0"
proof (cases "isSingleAlphaRange s")
  case True
  then have "f = ''['' @ s @ '']''" using assms by (auto simp: parseRangeExpression_def)
  then show ?thesis by (simp add: enum_level_def getMatchType_def hasPrefix_def hasSuffix_def)
next
  case False
  then have num: "isNumberRange s" using assms(3) by (auto simp: getMatchType_def split: if_splits)
  then obtain b e where be: "b < e" "map_option (map_sum Panic id) (Range2Re b e) = Some (Inr fs)"
    using assms(1) False by (auto simp: parseRangeExpression_def elim!: isNumberRangeD)
  then have R: "Range2Re b e = Some (Inr fs)"
    by (cases "Range2Re b e"; cases "the (Range2Re b e)") auto
  then obtain rs where "split_ranges b e = Some (Inr rs)" "fs = map (\<lambda>(b, e). rangePartToRe b e) rs"
    using be(1) by (cases "split_ranges b e"; cases "the (split_ranges b e)") (auto simp: Range2Re_def)
  then show ?thesis using assms(2) fragment_level by auto
qed

text \<open>\<open>parseEnumExpression\<close>: the content of one bracket as a list of values.\<close>

function (sequential) parseEnumExpression :: "string \<Rightarrow> (expr_err + string list) option" where
  "parseEnumExpression s =
     (case getMatchType s of
        matchBuildInExclude \<Rightarrow> Some (Inr [''['' @ s @ '']''])
      | matchWordList \<Rightarrow> traverse parseEnumExpression (parseWordListExpression s)
      | matchRange \<Rightarrow>
          Option.bind (parseRangeExpression s) (\<lambda>r. case r of
            Inl e \<Rightarrow> Some (Inl e)
          | Inr frags \<Rightarrow> traverse parseEnumExpression frags)
      | _ \<Rightarrow> Some (Inr [s]))"
  by pat_completeness auto
termination
proof (relation "measure enum_level", goal_cases)
  case (3 s w)
  then have "enum_level s = 2" "enum_level w \<le> 1" using word_level by (auto simp: enum_level_def)
  then show ?case by simp
next
  case (2 s r frags f)
  then have "parseRangeExpression s = Some (Inr frags)" "f \<in> set frags" by auto
  then have "enum_level f = 0" using 2(1) range_frag_level by blast
  then show ?case using 2(1) by (simp add: enum_level_def)
qed simp

declare parseEnumExpression.simps [simp del]

text \<open>
  The scan over the brackets of an expression. \<open>parsed\<close> are the expansions of what is read, \<open>s\<close> is
  what follows the last bracket.
\<close>

lemma indexOf_char_less: "indexOf s [d] = Some i \<Longrightarrow> i < length s"
  by (induction s arbitrary: i) (auto simp: hasPrefix_Cons split: if_splits)

function (sequential) expand_brackets :: "string list \<Rightarrow> string \<Rightarrow> (expr_err + string list) option" where
  "expand_brackets parsed s =
     (case indexOf s ''['' of
        None \<Rightarrow> Some (Inr (map (\<lambda>p. p @ s) parsed))
      | Some enumBegin \<Rightarrow>
          (case indexOf (drop enumBegin s) '']'' of
             None \<Rightarrow> Some (Inl (Syntax (drop enumBegin s)))
           | Some k \<Rightarrow>
               let enumContent = take (k - 1) (drop (enumBegin + 1) s);
                   prefix = take enumBegin s
               in Option.bind (parseEnumExpression enumContent) (\<lambda>r. case r of
                    Inl e \<Rightarrow> Some (Inl e)
                  | Inr enumValues \<Rightarrow>
                      expand_brackets (concat (map (\<lambda>p. map (\<lambda>v. p @ prefix @ v) enumValues) parsed))
                        (drop (enumBegin + k + 1) s))))"
  by pat_completeness auto
termination
  by (relation "measure (\<lambda>(_, s). length s)") (auto dest!: indexOf_char_less)

declare expand_brackets.simps [simp del]

definition parseExp2UnixShellStyleMain :: "string \<Rightarrow> (expr_err + string list) option" where
  "parseExp2UnixShellStyleMain s = expand_brackets [[]] s"

definition ParseExp2UnixShellStyle :: "string \<Rightarrow> (expr_err + string list) option" where
  "ParseExp2UnixShellStyle s = map_option (map_sum id (dedup_from [])) (parseExp2UnixShellStyleMain s)"

section \<open>match.go\<close>

definition ExpressionSplitter :: string where "ExpressionSplitter = ''<-GSEKIT->''"

definition isRegexMeta :: "char \<Rightarrow> bool" where
  "isRegexMeta c \<longleftrightarrow> c \<in> set (''.+*?()|[]{}^$'' @ [CHR 0x5C])"

definition translateCharClass :: "string \<Rightarrow> string" where
  "translateCharClass stuff =
     (let (open, rest) =
        (case stuff of
           [] \<Rightarrow> ([], [])
         | c # r \<Rightarrow> if c = CHR ''!'' then (''^'', r)
             else if c = CHR ''^'' \<or> c = CHR ''['' then ([CHR 0x5C], stuff) else ([], stuff))
      in ''['' @ open @ concat (map (\<lambda>c. if c = CHR 0x5C then [CHR 0x5C, CHR 0x5C] else [c]) rest) @ '']'')"

text \<open>The content of a bracket at \<open>s\<close>: an exclamation mark, a closing bracket, and up to the next one.\<close>

definition class_content :: "string \<Rightarrow> string \<times> string" where
  "class_content s =
     (let (a, s1) = (case s of c # r \<Rightarrow> if c = CHR ''!'' then ([c], r) else ([], s) | [] \<Rightarrow> ([], s));
          (b, s2) = (case s1 of c # r \<Rightarrow> if c = CHR '']'' then ([c], r) else ([], s1) | [] \<Rightarrow> ([], s1))
      in (a @ b @ takeWhile (\<lambda>c. c \<noteq> CHR '']'') s2, dropWhile (\<lambda>c. c \<noteq> CHR '']'') s2))"

lemma class_content_length: "length (snd (class_content s)) \<le> length s"
proof -
  have "length (dropWhile (\<lambda>c. c \<noteq> CHR '']'') t) \<le> length t" for t by (rule length_dropWhile_le)
  then show ?thesis
    by (auto simp: class_content_def Let_def split: list.splits if_splits prod.splits intro: le_SucI)
qed

function (sequential) translate_items :: "string \<Rightarrow> string" where
  "translate_items [] = []"
| "translate_items (c # s) =
     (if c = CHR ''*'' then ''.*'' @ translate_items s
      else if c = CHR ''?'' then ''.'' @ translate_items s
      else if c = CHR ''['' then
        (case class_content s of
           (stuff, []) \<Rightarrow> [CHR 0x5C, CHR ''[''] @ translate_items s
         | (stuff, _ # rest) \<Rightarrow> translateCharClass stuff @ translate_items rest)
      else (if isRegexMeta c then [CHR 0x5C, c] else [c]) @ translate_items s)"
  by pat_completeness auto
termination
proof (relation "measure length", goal_cases)
  case (5 c s stuff d rest)
  then show ?case using class_content_length [of s] by (auto simp: Suc_le_lessD less_SucI) (metis Suc_le_lessD length_Cons less_SucI snd_conv)
qed simp_all

definition fnmatchTranslate :: "string \<Rightarrow> string" where
  "fnmatchTranslate pat = re_prefix @ translate_items pat @ re_suffix"

definition compile_pat :: "string \<Rightarrow> expr_err + (string \<Rightarrow> bool)" where
  "compile_pat cand = (case Compile (fnmatchTranslate cand) of None \<Rightarrow> Inl (BadRegexp cand) | Some re \<Rightarrow> Inr re)"

fun match_first :: "string \<Rightarrow> string list \<Rightarrow> expr_err + bool" where
  "match_first name [] = Inr False"
| "match_first name (cand # cands) =
     rbind (compile_pat cand) (\<lambda>re. if re name then Inr True else match_first name cands)"

definition Match :: "string \<Rightarrow> string \<Rightarrow> (expr_err + bool) option" where
  "Match name s =
     map_option (\<lambda>r. rbind r (match_first name)) (ParseExp2UnixShellStyle s)"

fun compile_all :: "string list \<Rightarrow> expr_err + (string \<Rightarrow> bool) list" where
  "compile_all [] = Inr []"
| "compile_all (cand # cands) =
     rbind (compile_pat cand) (\<lambda>re. rbind (compile_all cands) (\<lambda>res. Inr (re # res)))"

definition ListMatch :: "string list \<Rightarrow> string \<Rightarrow> (expr_err + string list) option" where
  "ListMatch names s =
     map_option (\<lambda>r. rbind r (\<lambda>cands. rbind (compile_all cands) (\<lambda>res.
       Inr (filter (\<lambda>name. list_ex (\<lambda>re. re name) res) names)))) (ParseExp2UnixShellStyle s)"

section \<open>list2expr.go\<close>

definition defaultSegment :: string where "defaultSegment = ''*''"

text \<open>\<open>sort.Strings\<close> compares byte by byte.\<close>

fun less_eq_bytes :: "string \<Rightarrow> string \<Rightarrow> bool" where
  "less_eq_bytes [] t = True"
| "less_eq_bytes (c # s) [] = False"
| "less_eq_bytes (c # s) (d # t) = (rn c < rn d \<or> (c = d \<and> less_eq_bytes s t))"

fun insert_bytes :: "string \<Rightarrow> string list \<Rightarrow> string list" where
  "insert_bytes s [] = [s]"
| "insert_bytes s (t # ts) = (if less_eq_bytes s t then s # t # ts else t # insert_bytes s ts)"

definition sort_bytes :: "string list \<Rightarrow> string list" where
  "sort_bytes ss = foldr insert_bytes ss []"

definition List2Expr :: "string list \<Rightarrow> string" where
  "List2Expr values =
     (case dedup_from [] values of
        [] \<Rightarrow> defaultSegment
      | [x] \<Rightarrow> x
      | uniq \<Rightarrow> ''['' @ joinWith '','' (sort_bytes uniq) @ '']'')"

definition dedupeInts :: "32 word list \<Rightarrow> int list" where
  "dedupeInts ids = dedup_from [] (map uint ids)"

text \<open>The inner loop: the last element of the run that starts with \<open>x\<close>, and the rest.\<close>

fun run_end :: "int \<Rightarrow> int list \<Rightarrow> int \<times> int list" where
  "run_end x [] = (x, [])"
| "run_end x (y # ys) = (if y = x + 1 then run_end y ys else (x, y # ys))"

lemma run_end_length: "length (snd (run_end x ys)) \<le> length ys"
  by (induction x ys rule: run_end.induct) auto

function compressRanges :: "int list \<Rightarrow> string list" where
  "compressRanges [] = []"
| "compressRanges (x # xs) =
     (case run_end x xs of (y, rest) \<Rightarrow>
       (if x = y then itoa x else itoa x @ ''-'' @ itoa y) # compressRanges rest)"
  by pat_completeness auto
termination
proof (relation "measure length", goal_cases)
  case (2 x xs y rest)
  then show ?case using run_end_length [of x xs] by (metis in_measure le_imp_less_Suc length_Cons snd_conv)
qed simp

definition IDsToExpr :: "32 word list \<Rightarrow> string" where
  "IDsToExpr ids =
     (case dedupeInts ids of
        [] \<Rightarrow> defaultSegment
      | [n] \<Rightarrow> itoa n
      | nums \<Rightarrow> ''['' @ joinWith '','' (compressRanges (sort nums)) @ '']'')"


section \<open>slice.go\<close>

definition slice_space :: "char \<Rightarrow> bool" where
  "slice_space c \<longleftrightarrow> c = CHR '' '' \<or> rn c \<in> {9, 10, 12, 13}"

definition skip_space :: "string \<Rightarrow> string" where
  "skip_space s = (case s of c # r \<Rightarrow> if slice_space c then r else s | [] \<Rightarrow> [])"

text \<open>
  The optional group \<open>([-+]?\d+)?\<close>: the number at the front of \<open>s\<close> and the rest. What follows the
  group never begins with a digit or a sign, so the longest match is the only one.
\<close>

definition slice_number :: "string \<Rightarrow> string \<times> string" where
  "slice_number s =
     (let (sign, r) = (case s of c # r \<Rightarrow> if c = CHR ''-'' \<or> c = CHR ''+'' then ([c], r) else ([], s) | [] \<Rightarrow> ([], []));
          ds = takeWhile is_digit_char r
      in if ds = [] then ([], s) else (sign @ ds, dropWhile is_digit_char r))"

text \<open>A match of the pattern at the front: its two groups and what follows it.\<close>

definition slice_at :: "string \<Rightarrow> (string \<times> string \<times> string) option" where
  "slice_at s =
     (case s of
        c # s1 \<Rightarrow>
          if c \<noteq> CHR ''['' then None
          else let (b, s2) = slice_number s1
          in (case skip_space s2 of
                c2 # s3 \<Rightarrow>
                  if c2 \<noteq> CHR '':'' then None
                  else let (e, s4) = slice_number (skip_space s3)
                  in (case s4 of
                        c3 # s5 \<Rightarrow> if c3 = CHR '']'' then Some (b, e, s5) else None
                      | [] \<Rightarrow> None)
              | [] \<Rightarrow> None)
      | [] \<Rightarrow> None)"

lemma slice_number_length: "length (snd (slice_number s)) \<le> length s"
proof -
  have "length (dropWhile P t) \<le> length t" for P and t :: string by (rule length_dropWhile_le)
  then show ?thesis by (auto simp: slice_number_def Let_def le_SucI split: list.splits prod.splits)
qed

lemma skip_space_length: "length (skip_space s) \<le> length s"
  by (auto simp: skip_space_def split: list.splits)

lemma slice_at_length: "slice_at s = Some (b, e, r) \<Longrightarrow> length r < length s"
proof -
  assume at: "slice_at s = Some (b, e, r)"
  then obtain s1 s2 s3 c2 s4 where p: "s = CHR ''['' # s1" "slice_number s1 = (b, s2)" "skip_space s2 = c2 # s3"
    "slice_number (skip_space s3) = (e, s4)" "s4 = CHR '']'' # r"
    by (auto simp: slice_at_def Let_def split: list.splits if_splits prod.splits)
  have "length s4 \<le> length (skip_space s3)" "length (skip_space s3) \<le> length s3" "length s2 \<le> length s1"
    "length (c2 # s3) \<le> length s2"
    using slice_number_length [of "skip_space s3"] slice_number_length [of s1] skip_space_length [of s3]
      skip_space_length [of s2] p by simp_all
  then show ?thesis using p by simp
qed

text \<open>\<open>FindAllStringSubmatch\<close>: the matches from left to right, without overlap.\<close>

function slice_all :: "string \<Rightarrow> (string \<times> string) list" where
  "slice_all s =
     (case slice_at s of
        Some (b, e, r) \<Rightarrow> (b, e) # slice_all r
      | None \<Rightarrow> (case s of [] \<Rightarrow> [] | c # r \<Rightarrow> slice_all r))"
  by pat_completeness auto
termination by (relation "measure length") (auto dest: slice_at_length)

declare slice_all.simps [simp del]

definition IsSliceExpression :: "string \<Rightarrow> bool" where
  "IsSliceExpression s \<longleftrightarrow> slice_at s \<noteq> None"

definition parseSliceIndex :: "string \<Rightarrow> int option" where
  "parseSliceIndex s = (if s = [] then None else atoi s)"

definition clampIndex :: "int \<Rightarrow> int \<Rightarrow> int" where
  "clampIndex idx l =
     (if idx < 0 then (if idx + l < 0 then 0 else idx + l) else if idx > l then l else idx)"

definition pythonSlice :: "'a list \<Rightarrow> int option \<Rightarrow> int option \<Rightarrow> 'a list" where
  "pythonSlice ids begin end =
     (let l = int (length ids);
          start = (case begin of None \<Rightarrow> 0 | Some b \<Rightarrow> clampIndex b l);
          stop = (case end of None \<Rightarrow> l | Some e \<Rightarrow> clampIndex e l)
      in if start \<ge> stop then [] else take (nat (stop - start)) (drop (nat start) ids))"

definition ExecuteSlice :: "'a list \<Rightarrow> string \<Rightarrow> 'a list" where
  "ExecuteSlice ids s =
     (case slice_all s of
        [(b, e)] \<Rightarrow> pythonSlice ids (parseSliceIndex b) (parseSliceIndex e)
      | _ \<Rightarrow> ids)"

section \<open>scope.go\<close>

record scope =
  Environment :: string
  SetName :: string
  ModuleName :: string
  ServiceName :: string
  ProcessAlias :: string
  ProcessID :: string

record candidate =
  Expression :: string
  CcProcessID :: "32 word"

definition orDefault :: "string \<Rightarrow> string" where
  "orDefault seg = (if seg = [] then defaultSegment else seg)"

definition GenExpression :: "scope \<Rightarrow> string" where
  "GenExpression s = joinWith ExpressionSplitter
     [orDefault (SetName s), orDefault (ModuleName s), orDefault (ServiceName s),
      orDefault (ProcessAlias s), orDefault (ProcessID s)]"

definition GenDisplayExpression :: "scope \<Rightarrow> string" where
  "GenDisplayExpression s = joinWith ''.''
     [orDefault (SetName s), orDefault (ModuleName s), orDefault (ServiceName s),
      orDefault (ProcessAlias s), orDefault (ProcessID s)]"

definition JoinProcessExpression :: "string \<Rightarrow> string \<Rightarrow> string \<Rightarrow> string \<Rightarrow> string \<Rightarrow> string" where
  "JoinProcessExpression setName moduleName serviceName al ccProcessID =
     joinWith ExpressionSplitter [setName, moduleName, serviceName, al, ccProcessID]"

text \<open>The map from expressions to ids keeps the last id of an expression.\<close>

definition expr_id :: "candidate list \<Rightarrow> string \<Rightarrow> 32 word" where
  "expr_id cs e = (case find (\<lambda>c. Expression c = e) (rev cs) of None \<Rightarrow> 0 | Some c \<Rightarrow> CcProcessID c)"

definition ScopeToCcIDs :: "scope \<Rightarrow> candidate list \<Rightarrow> (expr_err + 32 word list) option" where
  "ScopeToCcIDs s candidates =
     (let orderedExprs = dedup_from [] (map Expression candidates);
          (sliceExpression, s) =
            (if IsSliceExpression (orDefault (ProcessID s)) then (ProcessID s, s\<lparr>ProcessID := defaultSegment\<rparr>)
             else (defaultSegment, s))
      in map_option (\<lambda>r. rbind r (\<lambda>matchedExprs.
           Inr (ExecuteSlice (map (expr_id candidates) matchedExprs) sliceExpression)))
         (ListMatch orderedExprs (GenExpression s)))"

lemma expression_examples:
  "Match ''ab'' ''[ab]'' = Some (Inr True)" "Match ''a'' ''[ab]'' = Some (Inr False)"
  "Match ''b'' ''[a-b]'' = Some (Inr True)" "Match ''c'' ''[!ab]'' = Some (Inr True)"
  "Match ''48'' ''4[6, 8, 9]'' = Some (Inr True)" "Match ''47'' ''4[6, 8, 9]'' = Some (Inr False)"
  "IDsToExpr [3, 1, 2, 7] = ''[1-3,7]''"
  "ExecuteSlice [1 :: nat, 2, 3, 4] ''[1:-1]'' = [2, 3]"
  by code_simp+

end
