(* ===== verification/ProcExprProps.thy ===== *)
theory ProcExprProps
  imports ProcExpr
begin

text \<open>
  What the expressions select: the fragments of a number range match exactly its numbers, the
  expression written for a list of process ids selects exactly these ids, slices stay within the
  list, and a range beyond \<open>10 ^ 18\<close> never returns.
\<close>

section \<open>Patterns of literals, stars and digit classes\<close>

datatype ptok = PLit char | PStar | PClass char char

fun pat_text :: "ptok \<Rightarrow> string" where
  "pat_text (PLit c) = [c]"
| "pat_text PStar = ''*''"
| "pat_text (PClass x y) = [CHR ''['', x, CHR ''-'', y, CHR '']'']"

fun re_text :: "ptok \<Rightarrow> string" where
  "re_text PStar = ''.*''"
| "re_text t = pat_text t"

fun item :: "ptok \<Rightarrow> re_item" where
  "item (PLit c) = Lit (rn c)"
| "item PStar = Star"
| "item (PClass x y) = Class False [(False, [(rn x, rn y)])]"

fun ok_tok :: "ptok \<Rightarrow> bool" where
  "ok_tok (PLit c) \<longleftrightarrow> rn c < 128 \<and> \<not> isRegexMeta c"
| "ok_tok PStar \<longleftrightarrow> True"
| "ok_tok (PClass x y) \<longleftrightarrow> is_digit_char x \<and> is_digit_char y \<and> rn x \<le> rn y"

lemma rn_eq_iff: "rn c = rn d \<longleftrightarrow> c = d"
  by simp

lemma digit_not_special:
  "is_digit_char c \<Longrightarrow> c \<noteq> CHR '']'' \<and> c \<noteq> CHR ''!'' \<and> c \<noteq> CHR ''^'' \<and> c \<noteq> CHR ''['' \<and> c \<noteq> CHR 0x5C
     \<and> c \<noteq> CHR ''-'' \<and> c \<noteq> CHR '','' \<and> c \<noteq> CHR '':'' \<and> c \<noteq> CHR ''*'' \<and> c \<noteq> CHR ''?''"
  by (auto simp: is_digit_char_def)

lemma digit_not_meta: "is_digit_char c \<Longrightarrow> \<not> isRegexMeta c"
  by (auto simp: isRegexMeta_def is_digit_char_def)

lemma rn_code: "rn d = n \<Longrightarrow> c \<noteq> d \<Longrightarrow> rn c \<noteq> n"
  by auto

lemma class_content_range:
  assumes "is_digit_char x" "is_digit_char y"
  shows "class_content (x # CHR ''-'' # y # CHR '']'' # s) = ([x, CHR ''-'', y], CHR '']'' # s)"
  using digit_not_special [OF assms(1)] digit_not_special [OF assms(2)]
  by (simp add: class_content_def)

lemma translate_range:
  assumes "is_digit_char x" "is_digit_char y"
  shows "translateCharClass [x, CHR ''-'', y] = [CHR ''['', x, CHR ''-'', y, CHR '']'']"
  using digit_not_special [OF assms(1)] digit_not_special [OF assms(2)]
  by (simp add: translateCharClass_def)

lemma translate_class:
  assumes "is_digit_char x" "is_digit_char y"
  shows "translate_items (CHR ''['' # x # CHR ''-'' # y # CHR '']'' # s)
    = [CHR ''['', x, CHR ''-'', y, CHR '']''] @ translate_items s"
  unfolding translate_items.simps(2) class_content_range [OF assms] prod.case list.case translate_range [OF assms]
  by simp

lemma translate_lit: "\<not> isRegexMeta c \<Longrightarrow> translate_items (c # s) = c # translate_items s"
  by (subst translate_items.simps(2)) (auto simp: isRegexMeta_def)

lemma translate_toks: "list_all ok_tok ts \<Longrightarrow> translate_items (concat (map pat_text ts)) = concat (map re_text ts)"
proof (induction ts)
  case (Cons t ts)
  then show ?case
    by (cases t) (simp_all del: translate_items.simps add: translate_class translate_lit, simp)
qed simp

lemma parse_class_digits:
  assumes "is_digit_char x" "is_digit_char y" "rn x \<le> rn y"
  shows "parse_class (rn x # rn CHR ''-'' # rn y # rn CHR '']'' # t) = Some (Class False [(False, [(rn x, rn y)])], t)"
proof -
  have d: "48 \<le> rn x" "rn x \<le> 57" "48 \<le> rn y" "rn y \<le> 57" using assms by (simp_all add: is_digit_char_def)
  then have "rn x \<noteq> 93" "rn x \<noteq> 94" "rn x \<noteq> 91" "rn x \<noteq> 92" "rn y \<noteq> 93" "rn y \<noteq> 92" by simp_all
  then show ?thesis using assms(3) by (simp add: parse_class_def)
qed

lemma parse_toks:
  "list_all ok_tok ts \<Longrightarrow> length (concat (map re_text ts)) < k \<Longrightarrow>
     parse_items k (rns (concat (map re_text ts) @ re_suffix)) = Some (map item ts)"
proof (induction ts arbitrary: k)
  case Nil
  then show ?case by (cases k) (simp_all add: re_suffix_def rns_def)
next
  case (Cons t ts)
  obtain k' where k: "k = Suc k'" using Cons.prems(2) by (cases k) auto
  have IH: "parse_items k' (rns (concat (map re_text ts) @ re_suffix)) = Some (map item ts)"
    using Cons k by (cases t) auto
  show ?case
  proof (cases t)
    case (PLit c)
    then have "c \<noteq> CHR '')''" "c \<noteq> CHR ''.''" "c \<noteq> CHR 0x5C" "c \<noteq> CHR ''[''" using Cons.prems(1)
      by (auto simp: isRegexMeta_def)
    then have "rn c \<noteq> 41" "rn c \<noteq> 46" "rn c \<noteq> 92" "rn c \<noteq> 91"
      using rn_code [of "CHR '')''" 41 c] rn_code [of "CHR ''.''" 46 c] rn_code [of "CHR 0x5C" 92 c]
        rn_code [of "CHR ''[''" 91 c] by simp_all
    then show ?thesis using IH k PLit by (simp add: rns_def)
  next
    case PStar
    then show ?thesis using IH k by (simp add: rns_def)
  next
    case (PClass x y)
    then show ?thesis using IH k Cons.prems(1) parse_class_digits [of x y "rns (concat (map re_text ts) @ re_suffix)"]
      by (simp add: rns_def)
  qed
qed

lemma ascii_toks: "list_all ok_tok ts \<Longrightarrow> ascii (concat (map re_text ts))"
proof (induction ts)
  case (Cons t ts)
  then show ?case by (cases t) (auto dest: digit_ascii)
qed simp

lemma compile_toks:
  assumes "list_all ok_tok ts"
  shows "compile_pat (concat (map pat_text ts)) = Inr (\<lambda>s. matches (map item ts) (runes s))"
proof -
  let ?t = "concat (map re_text ts)"
  have tr: "fnmatchTranslate (concat (map pat_text ts)) = re_prefix @ ?t @ re_suffix"
    using assms by (simp add: fnmatchTranslate_def translate_toks)
  have asc: "ascii re_prefix" "ascii re_suffix" "ascii ?t"
    using ascii_toks [OF assms] by (simp_all add: re_prefix_def re_suffix_def)
  have "runes (?t @ re_suffix) = rns (?t @ re_suffix)" using asc by (intro runes_ascii) simp
  then have "parse_items (Suc (length (runes (?t @ re_suffix)))) (runes (?t @ re_suffix)) = Some (map item ts)"
    using parse_toks [OF assms] by (simp del: parse_items.simps add: rns_def)
  moreover have "valid_utf8 (re_prefix @ ?t @ re_suffix)" using asc by (intro valid_ascii) simp
  ultimately show ?thesis by (simp del: parse_items.simps add: compile_pat_def tr Compile_def Let_def)
qed

lemma matches_fixed:
  "\<forall>i \<in> set is. i \<noteq> Star \<Longrightarrow> matches is s \<longleftrightarrow> list_all2 takes is s"
proof (induction "is" arbitrary: s)
  case (Cons i "is")
  then show ?case by (cases s) (auto simp: matches_one)
qed simp

section \<open>The fragments of a range\<close>

definition frag_toks :: "nat \<Rightarrow> nat \<Rightarrow> ptok list" where
  "frag_toks b e = map (\<lambda>(x, y). if x = y then PLit x else PClass x y) (zip (itoa_nat b) (itoa_nat e))"

lemma frag_text: "rangePartToRe (int b) (int e) = concat (map pat_text (frag_toks b e))"
  by (auto simp: rangePartToRe_def frag_toks_def itoa_def intro!: arg_cong [of _ _ concat])

lemma zip_itoa: "zip (itoa_nat b) (itoa_nat e) = map (\<lambda>(x, y). (digit_char x, digit_char y)) (zip (nat_digits b) (nat_digits e))"
  by (simp add: itoa_nat_def zip_map_map)

lemma block_digit_le:
  assumes "block b e" "(x, y) \<in> set (zip (nat_digits b) (nat_digits e))"
  shows "x \<le> y \<and> x < 10 \<and> y < 10"
proof -
  have len: "length (nat_digits b) = length (nat_digits e)" using assms(1) by (simp add: block_def dlen_def)
  have "digits_between b e b" using block_digits [OF assms(1), of b] assms(1) by (simp add: block_def)
  then have "list_all (\<lambda>(d, lo, hi). lo \<le> d \<and> d \<le> hi) (zip (nat_digits b) (zip (nat_digits b) (nat_digits e)))"
    by (simp add: digits_between_def)
  moreover obtain i where i: "i < length (nat_digits b)" "x = nat_digits b ! i" "y = nat_digits e ! i"
    using assms(2) by (auto simp: set_zip)
  ultimately have "x \<le> y" using len by (auto simp: list_all_length)
  then show ?thesis using i len nat_digits_small by (metis nth_mem)
qed

lemma rn_digit: "d < 10 \<Longrightarrow> rn (digit_char d) = 48 + d"
  by (rule of_char_digit_char)

lemma frag_ok: "block b e \<Longrightarrow> list_all ok_tok (frag_toks b e)"
proof -
  assume bl: "block b e"
  have "ok_tok (if digit_char x = digit_char y then PLit (digit_char x) else PClass (digit_char x) (digit_char y))"
    if "(x, y) \<in> set (zip (nat_digits b) (nat_digits e))" for x y
    using block_digit_le [OF bl that] by (auto simp: rn_digit digit_not_meta)
  then show ?thesis by (auto simp: frag_toks_def zip_itoa list_all_iff)
qed

lemma frag_items: "map item (frag_toks b e)
    = map (\<lambda>(x, y). if digit_char x = digit_char y then Lit (rn (digit_char x))
        else Class False [(False, [(rn (digit_char x), rn (digit_char y))])]) (zip (nat_digits b) (nat_digits e))"
  by (auto simp: frag_toks_def zip_itoa)

lemma frag_matches:
  assumes "block b e"
  shows "matches (map item (frag_toks b e)) (rns (itoa_nat n)) \<longleftrightarrow> b \<le> n \<and> n \<le> e"
proof -
  have len: "length (nat_digits b) = length (nat_digits e)" using assms by (simp add: block_def dlen_def)
  let ?it = "\<lambda>(x, y). if digit_char x = digit_char y then Lit (rn (digit_char x))
        else Class False [(False, [(rn (digit_char x), rn (digit_char y))])]"
  have tk: "takes (?it (x, y)) (rn (digit_char d)) \<longleftrightarrow> x \<le> d \<and> d \<le> y"
    if "(x, y) \<in> set (zip (nat_digits b) (nat_digits e))" "d < 10" for x y d
    using block_digit_le [OF assms that(1)] that(2)
    by (auto simp: takes_def in_elem_def rn_digit dest: digit_char_inj)
  have "matches (map item (frag_toks b e)) (rns (itoa_nat n))
      \<longleftrightarrow> list_all2 (\<lambda>p d. takes (?it p) (rn (digit_char d))) (zip (nat_digits b) (nat_digits e)) (nat_digits n)"
    unfolding frag_items
    by (subst matches_fixed) (auto simp: rns_def itoa_nat_def list_all2_map1 list_all2_map2 split: if_splits)
  also have "\<dots> \<longleftrightarrow> list_all2 (\<lambda>(x, y) d. x \<le> d \<and> d \<le> y) (zip (nat_digits b) (nat_digits e)) (nat_digits n)"
    using tk nat_digits_small by (intro list.rel_cong refl) auto
  also have "\<dots> \<longleftrightarrow> digits_between b e n"
    using len by (auto simp: digits_between_def dlen_def list_all2_conv_all_nth list_all_length)
  finally show ?thesis using block_digits [OF assms] by simp
qed


lemma runes_itoa: "runes (itoa_nat n) = rns (itoa_nat n)"
proof -
  have "ascii (itoa_nat n)" using all_digits_itoa [of n] by (auto simp: ascii_def all_digits_def list_all_iff dest: digit_ascii)
  then show ?thesis by (rule runes_ascii)
qed

text \<open>The parts of a range with two bounds, as \<open>Range2Re\<close> computes them.\<close>

definition range_parts :: "nat \<Rightarrow> nat \<Rightarrow> (nat \<times> nat) list" where
  "range_parts b e = (if b = e then [(b, b)]
     else case split_ranges (int b) (int e) of
       Some (Inr rs) \<Rightarrow> map (\<lambda>(x, y). (nat x, nat y)) rs
     | _ \<Rightarrow> [])"

lemma range_parts_spec:
  assumes "b \<le> e" "e < 10 ^ 18"
  shows "parts (range_parts b e) b (e + 1)
    \<and> Range2Re (int b) (int e) = Some (Inr (map (\<lambda>(x, y). concat (map pat_text (frag_toks x y))) (range_parts b e)))"
proof (cases "b = e")
  case True
  have "concat (map pat_text (frag_toks b b)) = itoa (int b)"
    unfolding frag_text [symmetric] by (simp add: rangePartToRe_def zip_same_conv_map concat_map_singleton o_def)
  then show ?thesis using True parts_single [OF block_refl [of b]] by (simp add: range_parts_def Range2Re_def)
next
  case False
  then obtain rs where rs: "split_ranges (int b) (int e) = Some (Inr (ints rs))" "parts rs b (e + 1)"
    using split_ranges_parts [of b e] assms by auto
  have "map (\<lambda>(x, y). (nat x, nat y)) (ints rs) = rs" by (induction rs) auto
  then have "range_parts b e = rs" using rs False by (simp add: range_parts_def)
  with rs have sp: "split_ranges (int b) (int e) = Some (Inr (ints (range_parts b e)))"
    "parts (range_parts b e) b (e + 1)" by simp_all
  then show ?thesis using False
    by (auto simp: Range2Re_def o_def frag_text [symmetric] case_prod_unfold)
qed

text \<open>
  C38: The fragments of a number range below \<open>10 ^ 18\<close> compile, and together they match exactly
  the decimal numbers of the range.
\<close>

theorem range2re_exact:
  assumes "b \<le> e" "e < 10 ^ 18"
  shows "\<exists>fs. Range2Re (int b) (int e) = Some (Inr fs)
    \<and> (\<forall>f \<in> set fs. is_ok (compile_pat f))
    \<and> (\<forall>n. (\<exists>f \<in> set fs. \<exists>re. compile_pat f = Inr re \<and> re (itoa_nat n)) \<longleftrightarrow> b \<le> n \<and> n \<le> e)"
proof -
  let ?rs = "range_parts b e" and ?f = "\<lambda>(x, y). concat (map pat_text (frag_toks x y))"
  have P: "parts ?rs b (e + 1)" and R: "Range2Re (int b) (int e) = Some (Inr (map ?f ?rs))"
    using range_parts_spec [OF assms] by auto
  have c: "compile_pat (?f p) = Inr (\<lambda>s. matches (map item (frag_toks (fst p) (snd p))) (runes s))"
    if "p \<in> set ?rs" for p
  proof -
    have "block (fst p) (snd p)" using P that by (auto simp: parts_def)
    then show ?thesis using compile_toks [OF frag_ok] by (simp add: case_prod_unfold)
  qed
  have "(\<exists>f \<in> set (map ?f ?rs). \<exists>re. compile_pat f = Inr re \<and> re (itoa_nat n))
      \<longleftrightarrow> (\<exists>p \<in> set ?rs. matches (map item (frag_toks (fst p) (snd p))) (rns (itoa_nat n)))" for n
    using c by (auto simp: runes_itoa)
  also have "\<dots> n \<longleftrightarrow> (\<exists>(x, y) \<in> set ?rs. x \<le> n \<and> n \<le> y)" for n
    using P frag_matches by (fastforce simp: parts_def)
  also have "\<dots> n \<longleftrightarrow> b \<le> n \<and> n \<le> e" for n
    using P by (auto simp: parts_def)
  finally show ?thesis using R c by (intro exI [of _ "map ?f ?rs"]) auto
qed

theorem range2re_exact_witness:
  "\<exists>fs. Range2Re 13 120 = Some (Inr fs)
    \<and> (\<forall>n. (\<exists>f \<in> set fs. \<exists>re. compile_pat f = Inr re \<and> re (itoa_nat n)) \<longleftrightarrow> 13 \<le> n \<and> n \<le> 120)"
  using range2re_exact [of 13 120] by auto

section \<open>Ranges that overflow\<close>

lemma left_loops:
  assumes "wrap64 (snd (getUpperRange x) + 1) = x" "x < e"
  shows "splitRangeLeft x e = None"
proof (rule ccontr)
  assume "splitRangeLeft x e \<noteq> None"
  then obtain rs where rs: "splitRangeLeft x e = Some rs" by auto
  have "splitRangeLeft x e = Option.bind (splitRangeLeft x e) (\<lambda>rest. Some (getUpperRange x # rest))"
    using assms(2) by (subst splitRangeLeft.simps) (simp only: assms(1) if_True)
  then show False unfolding rs by simp
qed

lemma raise_append: "\<exists>x \<in> set xs. x \<noteq> CHR ''0'' \<Longrightarrow> raise_digits (xs @ ys) = raise_digits xs @ ys"
  by (induction xs) auto

lemma atoi_sat_itoa: "atoi_sat (itoa_nat m) = min maxInt64 (int m)"
proof -
  obtain c r where c: "itoa_nat m = c # r" "is_digit_char c" using itoa_nat_first by blast
  then have "c \<noteq> CHR ''-''" "c \<noteq> CHR ''+''" using sign_not_digit by blast+
  moreover have "all_digits (c # r)" "nat_of_digits (c # r) = m" using c by (metis all_digits_itoa, metis nat_of_digits_itoa)
  ultimately show ?thesis by (simp add: atoi_sat_def c(1))
qed

lemma upper_saturates: "snd (getUpperRange (int n)) = min maxInt64 (int (up n))"
  by (simp add: getUpperRange_def itoa_def raise_itoa atoi_sat_itoa)

lemma upper_negative:
  assumes "0 < n" "n mod 10 \<noteq> 0"
  shows "snd (getUpperRange (- int n)) = max (- maxInt64 - 1) (- int (up n))"
proof -
  have "itoa_nat n \<noteq> []" "last (itoa_nat n) \<noteq> CHR ''0''"
    using assms by (subst itoa_nat_rec, simp, subst itoa_nat_rec, simp add: digit_char_eqs)
  then have "\<exists>x \<in> set (rev (itoa_nat n)). x \<noteq> CHR ''0''" by (metis last_in_set set_rev)
  then have "rev (raise_digits (rev (CHR ''-'' # itoa_nat n))) = CHR ''-'' # itoa_nat (up n)"
    by (simp add: raise_append raise_itoa)
  then show ?thesis using assms(1) by (simp add: getUpperRange_def itoa_def atoi_sat_def)
qed

lemma left_overflow: "10 ^ 18 < e \<Longrightarrow> splitRangeLeft (10 ^ 18) e = None"
proof -
  assume e: "10 ^ 18 < e"
  have "up (10 ^ 18) = 10 ^ 19 - 1" by (simp add: up.simps)
  then have 1: "wrap64 (snd (getUpperRange (10 ^ 18)) + 1) = - (2 ^ 63)"
    using upper_saturates [of "10 ^ 18"] by (simp add: wrap64_def maxInt64_def)
  have "up (2 ^ 63) = 9223372036854775809" "up (2 ^ 63 - 1) = 9223372036854775809" by (simp_all add: up.simps)
  then have 2: "wrap64 (snd (getUpperRange (- (2 ^ 63))) + 1) = - (2 ^ 63) + 1"
    and 3: "wrap64 (snd (getUpperRange (- (2 ^ 63) + 1)) + 1) = - (2 ^ 63) + 1"
    using upper_negative [of "2 ^ 63"] upper_negative [of "2 ^ 63 - 1"] by (simp_all add: wrap64_def maxInt64_def)
  have "splitRangeLeft (- (2 ^ 63) + 1) e = None" using e by (intro left_loops [OF 3]) simp
  then have "splitRangeLeft (- (2 ^ 63)) e = None"
    using e by (subst splitRangeLeft.simps) (simp only: 2, simp)
  then show ?thesis using e by (subst splitRangeLeft.simps) (simp only: 1, simp)
qed

lemma left_overflow_below: "b \<le> 10 ^ 18 \<Longrightarrow> 10 ^ 18 < e \<Longrightarrow> splitRangeLeft (int b) e = None"
proof (induction "10 ^ 18 - b" arbitrary: b rule: less_induct)
  case less
  show ?case
  proof (cases "b = 10 ^ 18")
    case True
    then show ?thesis using left_overflow [OF less.prems(2)] by simp
  next
    case False
    then have b: "b < 10 ^ 18" using less.prems(1) by simp
    have u: "up b < 10 ^ 18" "b \<le> up b" using up_bound [OF b] up_props by auto
    have g: "snd (getUpperRange (int b)) = int (up b)" using u(1) getUpperRange_nat [of b] by (simp add: maxInt64_def)
    have w: "wrap64 (int (up b) + 1) = int (up b + 1)" using u(1) by (subst wrap64_small) auto
    have "splitRangeLeft (int (up b + 1)) e = None" by (rule less.hyps) (use u b less.prems in auto)
    moreover have "int b < 10 ^ 18" using b by simp
    then have "int b < e" using less.prems(2) by linarith
    ultimately show ?thesis by (subst splitRangeLeft.simps) (simp only: g w, simp)
  qed
qed

text \<open>
  C40: A number range that starts at or below \<open>10 ^ 18\<close> and ends above it never returns: the upper
  bound of the range of \<open>10 ^ 18\<close> saturates, its successor wraps around, and the loop stays below
  zero for ever.
\<close>

theorem range2re_overflow_hangs:
  assumes "b \<le> 10 ^ 18" "10 ^ 18 < e"
  shows "Range2Re (int b) e = None"
proof -
  have "int b \<noteq> e" using assms by auto
  then show ?thesis using left_overflow_below [OF assms] by (simp add: Range2Re_def split_ranges_def)
qed

theorem range2re_overflow_hangs_witness: "Range2Re 1 9223372036854775807 = None"
  using range2re_overflow_hangs [of 1 9223372036854775807] by simp


section \<open>Parsing the expression of a list of ids\<close>

text \<open>A word that begins and ends with a digit is not changed by trimming.\<close>

lemma space_seqs_first:
  "p \<in> set space_seqs \<Longrightarrow> \<exists>c r. p = c # r \<and> \<not> is_digit_char c"
  "p \<in> set (map rev space_seqs) \<Longrightarrow> \<exists>c r. p = c # r \<and> \<not> is_digit_char c"
proof -
  have "list_all (\<lambda>p. p \<noteq> [] \<and> \<not> is_digit_char (hd p)) space_seqs"
    "list_all (\<lambda>p. p \<noteq> [] \<and> \<not> is_digit_char (hd p)) (map rev space_seqs)" by code_simp+
  then show "p \<in> set space_seqs \<Longrightarrow> \<exists>c r. p = c # r \<and> \<not> is_digit_char c"
    "p \<in> set (map rev space_seqs) \<Longrightarrow> \<exists>c r. p = c # r \<and> \<not> is_digit_char c"
    unfolding list_all_iff by (metis list.exhaust list.sel(1))+
qed

lemma strip_front_digit:
  assumes "\<And>p. p \<in> set seqs \<Longrightarrow> \<exists>c r. p = c # r \<and> \<not> is_digit_char c" "is_digit_char (hd s)" "s \<noteq> []"
  shows "strip_front k seqs s = s"
proof (cases k)
  case (Suc k')
  have "\<not> hasPrefix s p" if "p \<in> set seqs" for p
    using assms(1) [OF that] assms(2,3) by (cases s) (auto simp: hasPrefix_Cons)
  then have "find (\<lambda>p. hasPrefix s p) seqs = None" by (auto simp: find_None_iff)
  then show ?thesis by (simp add: Suc)
qed simp

lemma TrimSpace_digits:
  assumes "s \<noteq> []" "is_digit_char (hd s)" "is_digit_char (last s)"
  shows "TrimSpace s = s"
proof -
  have "strip_front (length s) space_seqs s = s"
    by (rule strip_front_digit [OF space_seqs_first(1) assms(2,1)])
  moreover have "strip_front (length s) (map rev space_seqs) (rev s) = rev s"
    by (rule strip_front_digit [OF space_seqs_first(2)]) (use assms in \<open>simp_all add: hd_rev\<close>)
  ultimately show ?thesis by (simp add: TrimSpace_def)
qed

text \<open>One segment of an enumeration: a number or a range of numbers.\<close>

definition seg :: "nat \<times> nat \<Rightarrow> string" where
  "seg p = (if fst p = snd p then itoa_nat (fst p) else itoa_nat (fst p) @ ''-'' @ itoa_nat (snd p))"

lemma digits_itoa_nat: "c \<in> set (itoa_nat n) \<Longrightarrow> is_digit_char c"
  using all_digits_itoa [of n] by (auto simp: all_digits_def list_all_iff)

lemma seg_chars: "c \<in> set (seg p) \<Longrightarrow> is_digit_char c \<or> c = CHR ''-''"
  by (auto simp: seg_def dest: digits_itoa_nat split: if_splits)

lemma itoa_ends: "is_digit_char (hd (itoa_nat n))" "is_digit_char (last (itoa_nat n))"
  using digits_itoa_nat by (metis hd_in_set itoa_nat_nonempty, metis last_in_set itoa_nat_nonempty)

lemma seg_ends: "seg p \<noteq> [] \<and> is_digit_char (hd (seg p)) \<and> is_digit_char (last (seg p))"
  by (simp add: seg_def itoa_ends)

lemma seg_no: "CHR '','' \<notin> set (seg p)" "CHR ''['' \<notin> set (seg p)" "CHR '']'' \<notin> set (seg p)"
  using seg_chars digit_not_special by fastforce+

lemma hasPrefix_hd: "hasPrefix s [d] \<longleftrightarrow> s \<noteq> [] \<and> hd s = d"
  by (cases s) (auto simp: hasPrefix_Cons hasPrefix_def)

lemma parseEnum_word: "parseEnumExpression (itoa_nat n) = Some (Inr [itoa_nat n])"
proof -
  have "hd (itoa_nat n) \<noteq> CHR ''[''" "hd (itoa_nat n) \<noteq> CHR ''!''" "CHR '','' \<notin> set (itoa_nat n)" "CHR ''-'' \<notin> set (itoa_nat n)"
    using digits_itoa_nat [of _ n] digit_not_special by (metis hd_in_set itoa_nat_nonempty)+
  then have "getMatchType (itoa_nat n) = matchWord"
    by (simp add: getMatchType_def containsStr_char hasPrefix_hd)
  then show ?thesis by (subst parseEnumExpression.simps) simp
qed

lemma parseEnum_fragment: "parseEnumExpression (rangePartToRe b e) = Some (Inr [rangePartToRe b e])"
proof -
  have "\<not> hasPrefix (rangePartToRe b e) ''!''"
  proof -
    have "CHR ''!'' \<notin> set (rangePartToRe b e)"
      using rangePart_chars [of "CHR ''!''" b e] by (auto simp: is_digit_char_def)
    then show ?thesis by (metis hasPrefix_hd hd_in_set)
  qed
  then have "getMatchType (rangePartToRe b e) \<in> {matchWord, matchBuildInEnum}"
    using fragment_level [of b e] by (auto simp: enum_level_def getMatchType_def split: if_splits)
  then show ?thesis by (subst parseEnumExpression.simps) auto
qed

lemma traverse_single: "\<forall>x \<in> set xs. f x = Some (Inr [x]) \<Longrightarrow> traverse f xs = Some (Inr xs)"
  by (induction xs) auto

lemma traverse_all: "\<forall>x \<in> set xs. f x = Some (Inr (g x)) \<Longrightarrow> traverse f xs = Some (Inr (concat (map g xs)))"
  by (induction xs) auto

definition seg_values :: "nat \<times> nat \<Rightarrow> string list" where
  "seg_values p = map (\<lambda>(x, y). concat (map pat_text (frag_toks x y))) (range_parts (fst p) (snd p))"

lemma parseEnum_seg:
  assumes "x \<le> y" "y < 10 ^ 18"
  shows "parseEnumExpression (seg (x, y)) = Some (Inr (seg_values (x, y)))"
proof (cases "x = y")
  case True
  have "concat (map pat_text (frag_toks y y)) = itoa_nat y"
    unfolding frag_text [symmetric]
    by (simp add: rangePartToRe_def itoa_def zip_same_conv_map concat_map_singleton o_def)
  then show ?thesis using True by (simp add: seg_def seg_values_def range_parts_def parseEnum_word)
next
  case False
  let ?s = "itoa_nat x @ CHR ''-'' # itoa_nat y"
  have nd: "CHR ''-'' \<notin> set (itoa_nat n)" for n using digits_itoa_nat digit_not_special by metis
  have sp: "splitOn CHR ''-'' ?s = [itoa_nat x, itoa_nat y]"
    by (simp add: splitOn_append nd splitOn_no_sep)
  have at: "atoi (itoa_nat x) = Some (int x)" "atoi (itoa_nat y) = Some (int y)"
    using assms by (auto intro!: atoi_itoa_nat simp: maxInt64_def)
  have al: "\<not> isAlpha c" if "is_digit_char c" for c
    using that by (auto simp: isAlpha_def is_digit_char_def)
  have "\<not> isSingleAlphaRange ?s"
    using al digits_itoa_nat [of "hd (itoa_nat x)" x]
    by (simp add: isSingleAlphaRange_def isRangeFormat_def getRangeScope_def sp)
  moreover have "isNumberRange ?s"
    using at False assms(1) nd [of x] nd [of y]
    by (simp add: isNumberRange_def isRangeFormat_def getRangeScope_def sp hasPrefix_hd)
      (metis hd_in_set itoa_nat_nonempty)
  moreover have "CHR '','' \<notin> set ?s" "\<not> hasPrefix ?s ''[''" "\<not> hasPrefix ?s ''!''"
    using digits_itoa_nat digit_not_special seg_no(1) [of "(x, y)"] False
    by (auto simp: hasPrefix_hd seg_def) (metis hd_in_set itoa_nat_nonempty)+
  ultimately have ty: "getMatchType ?s = matchRange" "parseRangeExpression ?s = map_option (map_sum Panic id) (Range2Re (int x) (int y))"
    by (simp_all add: getMatchType_def containsStr_char isRangeFormat_def sp parseRangeExpression_def getRangeScope_def at)
  have "traverse parseEnumExpression (seg_values (x, y)) = Some (Inr (seg_values (x, y)))"
    by (rule traverse_single) (auto simp: seg_values_def frag_text [symmetric] parseEnum_fragment)
  then show ?thesis
    using False range_parts_spec [OF assms]
    by (subst parseEnumExpression.simps) (simp add: seg_def ty seg_values_def)
qed

lemma parseEnum_segs:
  assumes "ps \<noteq> []" "\<forall>(x, y) \<in> set ps. x \<le> y \<and> y < 10 ^ 18"
  shows "parseEnumExpression (joinWith '','' (map seg ps)) = Some (Inr (concat (map seg_values ps)))"
proof (cases ps rule: remdups_adj.cases)
  case (2 p)
  then show ?thesis using assms(2) parseEnum_seg [of "fst p" "snd p"] by auto
next
  case (3 p q qs)
  let ?s = "joinWith '','' (map seg ps)"
  have sp: "splitOn CHR '','' ?s = map seg ps"
    using 3 seg_no(1) by (intro splitOn_join) auto
  have hd: "hd ?s = hd (seg p)" "?s \<noteq> []" using seg_ends [of p] by (simp_all add: 3)
  have "hd ?s \<noteq> CHR ''[''" "hd ?s \<noteq> CHR ''!''"
    using seg_ends [of p] digit_not_special unfolding hd(1) by blast+
  moreover have "CHR '','' \<in> set ?s" by (simp add: 3)
  ultimately have "getMatchType ?s = matchWordList"
    by (simp add: getMatchType_def containsStr_char hasPrefix_hd)
  moreover have "parseWordListExpression ?s = map seg ps"
    unfolding parseWordListExpression_def sp using seg_ends by (auto intro!: TrimSpace_digits)
  moreover have "traverse parseEnumExpression (map seg ps) = Some (Inr (concat (map seg_values ps)))"
  proof -
    have "traverse (parseEnumExpression \<circ> seg) ps = Some (Inr (concat (map seg_values ps)))"
      using assms(2) by (intro traverse_all) (auto simp: parseEnum_seg)
    moreover have "traverse f (map g xs) = traverse (f \<circ> g) xs"
      for f :: "string \<Rightarrow> (expr_err + string list) option" and g :: "nat \<times> nat \<Rightarrow> string" and xs
      by (induction xs) auto
    ultimately show ?thesis by simp
  qed
  ultimately show ?thesis by (subst parseEnumExpression.simps) simp
qed (use assms(1) in simp)


text \<open>The runs of a list of natural numbers.\<close>

fun nrun_end :: "nat \<Rightarrow> nat list \<Rightarrow> nat \<times> nat list" where
  "nrun_end x [] = (x, [])"
| "nrun_end x (y # ys) = (if y = x + 1 then nrun_end y ys else (x, y # ys))"

lemma nrun_end_split: "nrun_end x ys = (y, rest) \<Longrightarrow> x \<le> y \<and> x # ys = [x ..< Suc y] @ rest"
proof (induction x ys rule: nrun_end.induct)
  case (2 x z ys)
  then show ?case by (auto simp: upt_rec [of x] split: if_splits)
qed auto

lemma run_end_int: "run_end (int x) (map int ys) = (case nrun_end x ys of (y, rest) \<Rightarrow> (int y, map int rest))"
proof (induction x ys rule: nrun_end.induct)
  case (2 x y ys)
  have "int y = int x + 1 \<longleftrightarrow> y = x + 1" by auto
  then show ?case using 2 by simp
qed simp

text \<open>The numbers a list of intervals contains.\<close>

definition covers :: "(nat \<times> nat) list \<Rightarrow> nat \<Rightarrow> bool" where
  "covers ps n \<longleftrightarrow> (\<exists>(x, y) \<in> set ps. x \<le> n \<and> n \<le> y)"

lemma covers_simps [simp]:
  "\<not> covers [] n"
  "covers ((x, y) # ps) n \<longleftrightarrow> (x \<le> n \<and> n \<le> y) \<or> covers ps n"
  "covers (ps @ qs) n \<longleftrightarrow> covers ps n \<or> covers qs n"
  by (auto simp: covers_def)

abbreviation ordered :: "(nat \<times> nat) list \<Rightarrow> bool" where
  "ordered ps \<equiv> (\<forall>(x, y) \<in> set ps. x \<le> y)"

lemma compress_runs:
  "\<exists>ps. compressRanges (map int xs) = map seg ps \<and> ordered ps \<and> (\<forall>n. covers ps n \<longleftrightarrow> n \<in> set xs) \<and> (xs \<noteq> [] \<longrightarrow> ps \<noteq> [])"
proof (induction "length xs" arbitrary: xs rule: less_induct)
  case less
  show ?case
  proof (cases xs)
    case Nil
    show ?thesis unfolding Nil by (rule exI [of _ "[]"]) simp
  next
    case (Cons x ys)
    obtain y rest where r: "nrun_end x ys = (y, rest)" by fastforce
    have sp: "x \<le> y" "xs = [x ..< Suc y] @ rest" using nrun_end_split [OF r] Cons by simp_all
    have "length rest < length xs"
      using arg_cong [OF sp(2), of length] sp(1) by simp
    from less [OF this] obtain ps where ps: "compressRanges (map int rest) = map seg ps" "ordered ps"
      "\<And>n. covers ps n \<longleftrightarrow> n \<in> set rest"
      by auto
    have c: "compressRanges (map int xs) = map seg ((x, y) # ps)"
      using ps(1) by (simp add: Cons run_end_int r seg_def itoa_def)
    have "n \<in> set xs \<longleftrightarrow> (x \<le> n \<and> n \<le> y) \<or> n \<in> set rest" for n
      unfolding sp(2) set_append set_upt by auto
    then have "covers ((x, y) # ps) n \<longleftrightarrow> n \<in> set xs" for n using ps(3) by simp
    with c ps(2) sp(1) show ?thesis by (intro exI [of _ "(x, y) # ps"]) simp
  qed
qed

section \<open>Matching the expression of a list of ids\<close>

lemma indexOf_first_char: "d \<notin> set a \<Longrightarrow> indexOf (a @ d # s) [d] = Some (length a)"
  by (induction a) (auto simp: hasPrefix_Cons)

lemma indexOf_no_char: "d \<notin> set a \<Longrightarrow> indexOf a [d] = None"
  by (induction a) (auto simp: hasPrefix_Cons)

lemma expand_no_bracket: "CHR ''['' \<notin> set s \<Longrightarrow> expand_brackets ps s = Some (Inr (map (\<lambda>p. p @ s) ps))"
  by (subst expand_brackets.simps) (simp add: indexOf_no_char)

lemma expand_one_bracket:
  assumes "CHR ''['' \<notin> set pre" "CHR '']'' \<notin> set c" "parseEnumExpression c = Some (Inr vals)"
  shows "expand_brackets [[]] (pre @ CHR ''['' # c @ '']'') = Some (Inr (map (\<lambda>v. pre @ v) vals))"
proof -
  let ?s = "pre @ CHR ''['' # c @ '']''"
  have 1: "indexOf ?s ''['' = Some (length pre)" by (rule indexOf_first_char [OF assms(1)])
  have "indexOf ((CHR ''['' # c) @ CHR '']'' # []) '']'' = Some (length (CHR ''['' # c))"
    by (rule indexOf_first_char) (use assms(2) in simp)
  then have 2: "indexOf (drop (length pre) ?s) '']'' = Some (Suc (length c))"
    by (simp del: indexOf.simps)
  have 3: "take (Suc (length c) - 1) (drop (length pre + 1) ?s) = c" "take (length pre) ?s = pre"
    "drop (length pre + Suc (length c) + 1) ?s = []" by simp_all
  show ?thesis
    by (subst expand_brackets.simps)
      (simp only: 1 2 3 option.case Let_def assms(3) bind.bind_lunit sum.case list.map concat.simps append_Nil append_Nil2
        expand_no_bracket list.set empty_iff not_False_eq_True option.simps, simp add: o_def)
qed

text \<open>A list of candidates that are a fixed prefix and the fragments of parts.\<close>

abbreviation frag :: "nat \<times> nat \<Rightarrow> string" where
  "frag p \<equiv> concat (map pat_text (frag_toks (fst p) (snd p)))"

abbreviation blocks :: "(nat \<times> nat) list \<Rightarrow> bool" where
  "blocks rs \<equiv> (\<forall>(x, y) \<in> set rs. block x y)"

lemma seg_values_parts:
  assumes "x \<le> y" "y < 10 ^ 18"
  shows "\<exists>rs. seg_values (x, y) = map frag rs \<and> blocks rs \<and> (\<forall>n. covers rs n \<longleftrightarrow> x \<le> n \<and> n \<le> y)"
proof (intro exI conjI allI)
  have P: "parts (range_parts x y) x (y + 1)" using range_parts_spec [OF assms] by blast
  show "seg_values (x, y) = map frag (range_parts x y)" by (simp add: seg_values_def case_prod_unfold)
  show "blocks (range_parts x y)" using P by (simp add: parts_def)
  show "covers (range_parts x y) n \<longleftrightarrow> x \<le> n \<and> n \<le> y" for n
    using P by (auto simp: parts_def covers_def)
qed

lemma segs_values_parts:
  "\<forall>(x, y) \<in> set ps. x \<le> y \<and> y < 10 ^ 18 \<Longrightarrow>
    \<exists>rs. concat (map seg_values ps) = map frag rs \<and> blocks rs \<and> (\<forall>n. covers rs n \<longleftrightarrow> covers ps n)"
proof (induction ps)
  case Nil
  show ?case by (rule exI [of _ "[]"]) simp
next
  case (Cons p ps)
  obtain x y where p: "p = (x, y)" by fastforce
  have "\<forall>(x, y) \<in> set ps. x \<le> y \<and> y < 10 ^ 18" using Cons.prems by simp
  from Cons.IH [OF this] obtain rs where rs: "concat (map seg_values ps) = map frag rs" "blocks rs"
    "\<And>n. covers rs n \<longleftrightarrow> covers ps n" by auto
  have "x \<le> y" "y < 10 ^ 18" using Cons.prems by (simp_all add: p)
  from seg_values_parts [OF this] obtain qs where qs: "seg_values (x, y) = map frag qs" "blocks qs"
    "\<And>n. covers qs n \<longleftrightarrow> x \<le> n \<and> n \<le> y" by auto
  show ?case
  proof (intro exI [of _ "qs @ rs"] conjI allI)
    show "concat (map seg_values (p # ps)) = map frag (qs @ rs)" using rs(1) qs(1) by (simp add: p)
    show "blocks (qs @ rs)" using rs(2) qs(2) by auto
    show "covers (qs @ rs) n \<longleftrightarrow> covers (p # ps) n" for n using rs(3) qs(3) by (simp add: p)
  qed
qed

lemma int_mem: "int a \<in> int ` A \<longleftrightarrow> a \<in> A"
  by auto

lemma dedup_map_int: "dedup_from (map int seen) (map int xs) = map int (dedup_from seen xs)"
proof (induction xs arbitrary: seen)
  case (Cons x xs)
  from Cons [of seen] Cons [of "x # seen"] show ?case by (simp add: int_mem)
qed simp

lemma dedupeInts_nat: "dedupeInts ids = map int (dedup_from [] (map unat ids))"
proof -
  have "map uint ids = map int (map unat ids)" by simp
  then show ?thesis using dedup_map_int [of "[]" "map unat ids"] by (simp only: dedupeInts_def list.map)
qed

lemma sort_map_int: "sort (map int ns) = map int (sort ns)"
proof -
  have "insort (int x) (map int xs) = map int (insort x xs)" for x xs
    by (induction xs) auto
  then show ?thesis by (induction ns) simp_all
qed

lemma frag_single: "frag (n, n) = itoa_nat n"
  using frag_text [of n n] by (simp add: rangePartToRe_def itoa_def zip_same_conv_map concat_map_singleton o_def)

lemma set_join: "c \<in> set (joinWith d ss) \<Longrightarrow> c \<in> set d \<or> (\<exists>s \<in> set ss. c \<in> set s)"
  by (induction d ss rule: joinWith.induct) auto

lemma ids_candidates:
  assumes "ids \<noteq> []" "CHR ''['' \<notin> set pre"
  shows "\<exists>rs. parseExp2UnixShellStyleMain (pre @ IDsToExpr ids) = Some (Inr (map (\<lambda>p. pre @ frag p) rs))
    \<and> blocks rs \<and> (\<forall>n. covers rs n \<longleftrightarrow> n \<in> unat ` set ids)"
proof -
  define ns where "ns = dedup_from [] (map unat ids)"
  have set_ns: "set ns = unat ` set ids" by (simp add: ns_def)
  have small: "n < 10 ^ 18" if n: "n \<in> set ns" for n
  proof -
    obtain w where "n = unat w" "w \<in> set ids" using n unfolding set_ns by (rule imageE)
    moreover have "unat w < 2 ^ LENGTH(32)" by (rule unsigned_less)
    ultimately show ?thesis by simp
  qed
  have d: "dedupeInts ids = map int ns" by (simp add: dedupeInts_nat ns_def)
  have ne: "ns \<noteq> []" using assms(1) set_ns by auto
  show ?thesis
  proof (cases ns rule: remdups_adj.cases)
    case (2 n)
    have "IDsToExpr ids = itoa_nat n" using d 2 by (simp add: IDsToExpr_def itoa_def)
    moreover have "CHR ''['' \<notin> set (pre @ itoa_nat n)"
      using assms(2) digits_itoa_nat digit_not_special by (metis UnE set_append)
    ultimately have "parseExp2UnixShellStyleMain (pre @ IDsToExpr ids) = Some (Inr [pre @ itoa_nat n])"
      by (simp add: parseExp2UnixShellStyleMain_def expand_no_bracket)
    moreover have "covers [(n, n)] m \<longleftrightarrow> m \<in> unat ` set ids" for m
      unfolding set_ns [symmetric] by (simp add: 2) presburger
    ultimately show ?thesis by (intro exI [of _ "[(n, n)]"]) (simp add: frag_single [simplified] block_refl)
  next
    case (3 n m ms)
    obtain ps where ps: "compressRanges (map int (sort ns)) = map seg ps" "ordered ps"
      "\<And>n. covers ps n \<longleftrightarrow> n \<in> set (sort ns)" "ps \<noteq> []"
      using compress_runs [of "sort ns"] ne by auto
    have b: "\<forall>(x, y) \<in> set ps. x \<le> y \<and> y < 10 ^ 18"
    proof (clarify)
      fix x y assume m: "(x, y) \<in> set ps"
      then have "x \<le> y" using ps(2) by auto
      then have "covers ps y" using m by (auto simp: covers_def)
      then show "x \<le> y \<and> y < 10 ^ 18" using \<open>x \<le> y\<close> ps(3) small by simp
    qed
    from segs_values_parts [OF b] obtain rs where rs: "concat (map seg_values ps) = map frag rs" "blocks rs"
      "\<And>n. covers rs n \<longleftrightarrow> covers ps n" by auto
    let ?c = "joinWith '','' (map seg ps)"
    have e: "IDsToExpr ids = CHR ''['' # ?c @ '']''"
      using d 3 ps(1) sort_map_int [of ns] by (simp add: IDsToExpr_def)
    have "CHR '']'' \<notin> set ?c" using seg_no(3) by (auto dest!: set_join)
    from expand_one_bracket [OF assms(2) this parseEnum_segs [OF ps(4) b]]
    have "parseExp2UnixShellStyleMain (pre @ IDsToExpr ids) = Some (Inr (map (\<lambda>p. pre @ frag p) rs))"
      by (simp add: parseExp2UnixShellStyleMain_def e rs(1) o_def)
    then show ?thesis using rs ps(3) set_ns by (intro exI [of _ rs]) simp
  qed (use ne in simp)
qed


text \<open>Matching one of several candidates.\<close>

lemma match_first_all:
  "\<forall>c \<in> set cands. compile_pat c = Inr (re c) \<Longrightarrow> match_first name cands = Inr (\<exists>c \<in> set cands. re c name)"
  by (induction cands) auto

lemma compile_all_all:
  "\<forall>c \<in> set cands. compile_pat c = Inr (re c) \<Longrightarrow> compile_all cands = Inr (map re cands)"
  by (induction cands) auto

text \<open>Candidates that are tokens followed by fragments.\<close>

definition cand_matches :: "ptok list \<Rightarrow> (nat \<times> nat) list \<Rightarrow> nat list \<Rightarrow> bool" where
  "cand_matches pts rs s \<longleftrightarrow> (\<exists>(x, y) \<in> set rs. matches (map item pts @ map item (frag_toks x y)) s)"

lemma compile_cand:
  assumes "list_all ok_tok pts" "block x y"
  shows "compile_pat (concat (map pat_text pts) @ concat (map pat_text (frag_toks x y)))
    = Inr (\<lambda>s. matches (map item pts @ map item (frag_toks x y)) (runes s))"
  using compile_toks [of "pts @ frag_toks x y"] assms frag_ok [OF assms(2)] by simp

lemma ids_match:
  assumes "ids \<noteq> []" "list_all ok_tok pts" "CHR ''['' \<notin> set (concat (map pat_text pts))"
  shows "\<exists>rs. blocks rs \<and> (\<forall>n. covers rs n \<longleftrightarrow> n \<in> unat ` set ids)
    \<and> (\<forall>name. Match name (concat (map pat_text pts) @ IDsToExpr ids) = Some (Inr (cand_matches pts rs (runes name))))
    \<and> (\<forall>names. ListMatch names (concat (map pat_text pts) @ IDsToExpr ids)
        = Some (Inr (filter (\<lambda>name. cand_matches pts rs (runes name)) names)))"
proof -
  let ?pre = "concat (map pat_text pts)"
  obtain rs where rs: "parseExp2UnixShellStyleMain (?pre @ IDsToExpr ids) = Some (Inr (map (\<lambda>p. ?pre @ frag p) rs))"
    "blocks rs" "\<And>n. covers rs n \<longleftrightarrow> n \<in> unat ` set ids"
    using ids_candidates [OF assms(1,3)] by auto
  define cands where "cands = dedup_from [] (map (\<lambda>p. ?pre @ frag p) rs)"
  have P: "ParseExp2UnixShellStyle (?pre @ IDsToExpr ids) = Some (Inr cands)"
    by (simp add: ParseExp2UnixShellStyle_def rs(1) cands_def)
  have set_c: "set cands = (\<lambda>p. ?pre @ frag p) ` set rs" by (simp add: cands_def)
  define re where "re c = (case compile_pat c of Inr r \<Rightarrow> r | Inl _ \<Rightarrow> (\<lambda>_. False))" for c
  have ok: "compile_pat (?pre @ frag p) = Inr (\<lambda>s. matches (map item pts @ map item (frag_toks (fst p) (snd p))) (runes s))"
    if "p \<in> set rs" for p
    using rs(2) that by (intro compile_cand [OF assms(2)]) auto
  then have all: "\<forall>c \<in> set cands. compile_pat c = Inr (re c)" by (auto simp: set_c re_def)
  have ex: "(\<exists>c \<in> set cands. re c name) \<longleftrightarrow> cand_matches pts rs (runes name)" for name
    unfolding set_c cand_matches_def using ok by (auto simp: re_def case_prod_unfold)
  show ?thesis
  proof (intro exI [of _ rs] conjI allI)
    show "Match name (?pre @ IDsToExpr ids) = Some (Inr (cand_matches pts rs (runes name)))" for name
      by (simp add: Match_def P match_first_all [OF all] ex)
    show "ListMatch names (?pre @ IDsToExpr ids) = Some (Inr (filter (\<lambda>name. cand_matches pts rs (runes name)) names))" for names
      using ex by (simp add: ListMatch_def P compile_all_all [OF all] list_ex_iff)
    show "blocks rs" by (rule rs(2))
    show "covers rs n \<longleftrightarrow> n \<in> unat ` set ids" for n by (rule rs(3))
  qed
qed

lemma cand_matches_id:
  assumes "blocks rs"
  shows "cand_matches [] rs (rns (itoa_nat n)) \<longleftrightarrow> covers rs n"
  using assms frag_matches unfolding cand_matches_def covers_def by fastforce

text \<open>The expression for no ids is a star.\<close>

lemma match_star: "Match name defaultSegment = Some (Inr True)"
proof -
  have p: "ParseExp2UnixShellStyle defaultSegment = Some (Inr [''*''])" by code_simp
  have "compile_pat ''*'' = Inr (\<lambda>s. matches [Star] (runes s))" using compile_toks [of "[PStar]"] by simp
  moreover have "matches [Star] s" for s unfolding matches_Star by (intro exI [of _ s] exI [of _ "[]"]) simp
  ultimately show ?thesis by (simp add: Match_def p)
qed

text \<open>
  C39: The expression written for a list of process ids matches the decimal form of an id exactly
  when the list is empty, which stands for all ids, or the id is in the list.
\<close>

theorem ids_expr_roundtrip:
  "Match (itoa (uint i)) (IDsToExpr ids) = Some (Inr (ids = [] \<or> i \<in> set ids))"
proof (cases "ids = []")
  case True
  then have "IDsToExpr ids = defaultSegment" by (simp add: IDsToExpr_def dedupeInts_def)
  then show ?thesis by (simp add: match_star True)
next
  case False
  obtain rs where rs: "blocks rs" "\<And>n. covers rs n \<longleftrightarrow> n \<in> unat ` set ids"
    "\<And>name. Match name (IDsToExpr ids) = Some (Inr (cand_matches [] rs (runes name)))"
    using ids_match [OF False, of "[]"] by auto
  have i: "itoa (uint i) = itoa_nat (unat i)" by (simp add: itoa_def)
  have "unat i \<in> unat ` set ids \<longleftrightarrow> i \<in> set ids" by (auto simp: word_unat_eq_iff [symmetric])
  then show ?thesis using False by (simp add: i rs(2,3) runes_itoa cand_matches_id [OF rs(1)])
qed

section \<open>Selecting processes by their ids\<close>

lemma decode_ascii:
  "a < 128 \<Longrightarrow> decode_rune (b # bs @ a # ys) = decode_rune (b # bs) \<and> snd (decode_rune (b # bs)) \<le> length (b # bs)"
  by (cases bs; cases "tl bs"; cases "tl (tl bs)") (auto simp: cont_byte_def split: if_splits list.splits)

lemma runes_of_ascii: "a < 128 \<Longrightarrow> runes_of (xs @ a # ys) = runes_of xs @ a # runes_of ys"
proof (induction xs rule: runes_of.induct)
  case (2 b bs)
  obtain r w where rw: "decode_rune (b # bs) = (r, w)" by fastforce
  have d: "decode_rune (b # bs @ a # ys) = (r, w)" "w \<le> length (b # bs)"
    using decode_ascii [OF 2(2), of b bs ys] rw by simp_all
  have "runes_of (drop w (b # bs) @ a # ys) = runes_of (drop w (b # bs)) @ a # runes_of ys"
    by (rule 2(1) [OF rw [symmetric] refl 2(2)])
  moreover have "drop w (b # bs @ a # ys) = drop w (b # bs) @ a # ys"
    using d(2) drop_append [of w "b # bs" "a # ys"] by simp
  ultimately show ?case by (simp only: append_Cons runes_of.simps(2) d(1) rw Let_def prod.case)
qed simp

lemma runes_split: "ascii u \<Longrightarrow> u \<noteq> [] \<Longrightarrow> runes (a @ u @ t) = runes a @ rns u @ runes t"
proof -
  have cons: "runes (c # t) = rn c # runes t" if "rn c < 128" for c t
    using runes_of_ascii [of "rn c" "[]" "map rn t"] that by (simp add: runes_def)
  have app: "runes (u @ t) = rns u @ runes t" if "ascii u" for u t
    using that by (induction u) (simp_all add: rns_def cons)
  assume u: "ascii u" "u \<noteq> []"
  then obtain c v where "u = c # v" by (cases u) auto
  then show ?thesis using u app [of v t] runes_of_ascii [of "rn c" "map rn a" "map rn (v @ t)"]
    by (simp add: runes_def rns_def)
qed

text \<open>The number at the end of a text is determined by the text.\<close>

lemma digit_suffix:
  assumes "p @ q = p' @ q'" "list_all P q" "list_all P q'" "p \<noteq> []" "p' \<noteq> []" "\<not> P (last p)" "\<not> P (last p')"
  shows "q = q'"
proof -
  have tw: "takeWhile P (rev (p @ q)) = rev q" if "list_all P q" "p \<noteq> []" "\<not> P (last p)" for p q
  proof -
    have "takeWhile P (rev p) = []" using that by (cases p rule: rev_cases) auto
    then show ?thesis using that(1) by (simp add: takeWhile_append list_all_iff)
  qed
  from tw [OF assms(2,4,6)] tw [OF assms(3,5,7)] assms(1) have "rev q = rev q'" by simp
  then show ?thesis by simp
qed

definition digit_code :: "nat \<Rightarrow> bool" where
  "digit_code c \<longleftrightarrow> 48 \<le> c \<and> c \<le> 57"

lemma frag_digits:
  assumes "block x y" "matches (map item (frag_toks x y)) q"
  shows "list_all digit_code q"
proof -
  have "\<forall>i \<in> set (map item (frag_toks x y)). i \<noteq> Star" by (auto simp: frag_items split: if_splits)
  then have m: "list_all2 takes (map item (frag_toks x y)) q" using assms(2) by (simp add: matches_fixed)
  have t: "takes i c \<Longrightarrow> digit_code c" if "i \<in> set (map item (frag_toks x y))" for i c
  proof -
    assume c: "takes i c"
    obtain u v where i: "(u, v) \<in> set (zip (nat_digits x) (nat_digits y))" "i = (if digit_char u = digit_char v then Lit (rn (digit_char u))
        else Class False [(False, [(rn (digit_char u), rn (digit_char v))])])"
      using \<open>i \<in> _\<close> by (auto simp: frag_items)
    then have "u < 10" "v < 10" using nat_digits_small by (auto dest: set_zip_leftD set_zip_rightD)
    then show "digit_code c" using c i(2) by (auto simp: takes_def in_elem_def digit_code_def rn_digit split: if_splits)
  qed
  show ?thesis unfolding list_all_length
  proof (intro allI impI)
    fix k assume "k < length q"
    then show "digit_code (q ! k)" using m t by (metis list_all2_conv_all_nth nth_mem)
  qed
qed

lemma cand_matches_prefix:
  assumes "blocks rs" "matches (map item (pts @ [PLit c])) s" "\<not> digit_code (rn c)"
  shows "cand_matches (pts @ [PLit c]) rs (s @ rns (itoa_nat n)) \<longleftrightarrow> covers rs n"
proof -
  let ?pre = "map item (pts @ [PLit c])"
  have lst: "p \<noteq> [] \<and> \<not> digit_code (last p)" if "matches ?pre p" for p
  proof -
    have "matches (map item pts @ [Lit (rn c)]) p" using that by simp
    then obtain u v where "p = u @ v" "matches [Lit (rn c)] v" unfolding matches_append by blast
    then have "p = u @ [rn c]" by (auto split: list.splits)
    then show ?thesis using assms(3) by simp
  qed
  have dg: "list_all digit_code (rns (itoa_nat n))"
    using digits_itoa_nat [of _ n] by (auto simp: rns_def list_all_iff digit_code_def is_digit_char_def)
  have "matches (?pre @ map item (frag_toks x y)) (s @ rns (itoa_nat n)) \<longleftrightarrow> matches (map item (frag_toks x y)) (rns (itoa_nat n))"
    if b: "block x y" for x y
  proof
    assume "matches (?pre @ map item (frag_toks x y)) (s @ rns (itoa_nat n))"
    then obtain p q where pq: "s @ rns (itoa_nat n) = p @ q" "matches ?pre p" "matches (map item (frag_toks x y)) q"
      unfolding matches_append by blast
    have "rns (itoa_nat n) = q"
      using lst [OF assms(2)] lst [OF pq(2)] by (intro digit_suffix [OF pq(1) dg frag_digits [OF b pq(3)]]) auto
    then show "matches (map item (frag_toks x y)) (rns (itoa_nat n))" using pq(3) by simp
  next
    assume "matches (map item (frag_toks x y)) (rns (itoa_nat n))"
    then show "matches (?pre @ map item (frag_toks x y)) (s @ rns (itoa_nat n))"
      unfolding matches_append using assms(2) by blast
  qed
  then have "cand_matches (pts @ [PLit c]) rs (s @ rns (itoa_nat n)) \<longleftrightarrow> cand_matches [] rs (rns (itoa_nat n))"
    using assms(1) unfolding cand_matches_def by (fastforce simp del: map_append)
  then show ?thesis using cand_matches_id [OF assms(1)] by simp
qed


text \<open>The expression with a star in every segment but the last.\<close>

definition any_prefix :: "ptok list" where
  "any_prefix = concat (replicate 4 (PStar # map PLit ExpressionSplitter))"

lemma any_prefix_facts:
  "list_all ok_tok any_prefix" "CHR ''['' \<notin> set (concat (map pat_text any_prefix))"
  "any_prefix = butlast any_prefix @ [PLit CHR ''>'']" "\<not> digit_code (rn CHR ''>'')"
  by code_simp+

lemma matches_lits: "matches (map (item \<circ> PLit) u) s \<longleftrightarrow> s = rns u"
  by (induction u arbitrary: s) (auto simp: rns_def split: list.splits)

lemma any_prefix_matches:
  "matches (map item any_prefix) (runes a @ rns ExpressionSplitter @ runes b @ rns ExpressionSplitter
     @ runes c @ rns ExpressionSplitter @ runes d @ rns ExpressionSplitter)"
proof -
  let ?i = "Star # map (item \<circ> PLit) ExpressionSplitter"
  have one: "matches ?i (x @ rns ExpressionSplitter)" for x
    unfolding matches_Star matches_lits by blast
  have two: "matches (?i @ is) ((x @ rns ExpressionSplitter) @ s)" if "matches is s" for x s "is"
    unfolding matches_append using one that by blast
  have "map item any_prefix = ?i @ ?i @ ?i @ ?i"
    by (simp add: any_prefix_def numeral_eq_Suc)
  then show ?thesis
    using two [OF two [OF two [OF one]], of "runes a" "runes b" "runes c" "runes d"] by simp
qed

lemma runes_expression:
  "runes (JoinProcessExpression a b c d (itoa_nat n)) = (runes a @ rns ExpressionSplitter @ runes b @ rns ExpressionSplitter
     @ runes c @ rns ExpressionSplitter @ runes d @ rns ExpressionSplitter) @ rns (itoa_nat n)"
proof -
  have "ascii ExpressionSplitter" "ExpressionSplitter \<noteq> []" by (simp_all add: ExpressionSplitter_def)
  note sp = runes_split [OF this]
  show ?thesis by (simp add: JoinProcessExpression_def sp runes_itoa)
qed

lemma compress_chars: "c \<in> set (joinWith '','' (compressRanges xs)) \<Longrightarrow> is_digit_char c \<or> c = CHR ''-'' \<or> c = CHR '',''"
proof -
  have "c \<in> set s \<Longrightarrow> is_digit_char c \<or> c = CHR ''-''" if "s \<in> set (compressRanges xs)" for s
    using that
  proof (induction xs rule: compressRanges.induct)
    case (2 x xs)
    obtain y r where r: "run_end x xs = (y, r)" by fastforce
    show ?case using 2(1) [OF r [symmetric]] 2(2,3) itoa_chars [of c x] itoa_chars [of c y] by (auto simp: r split: if_splits)
  qed simp
  then show "c \<in> set (joinWith '','' (compressRanges xs)) \<Longrightarrow> ?thesis" by (auto dest!: set_join)
qed

lemma ids_expr_chars: "c \<in> set (IDsToExpr ids) \<Longrightarrow> is_digit_char c \<or> c \<in> set ''-,[]*''"
  using compress_chars itoa_chars by (fastforce simp: IDsToExpr_def defaultSegment_def split: list.splits)

lemma slice_at_colon: "slice_at s \<noteq> None \<Longrightarrow> CHR '':'' \<in> set s"
proof -
  assume "slice_at s \<noteq> None"
  then obtain s1 b s2 s3 where p: "s = CHR ''['' # s1" "slice_number s1 = (b, s2)" "skip_space s2 = CHR '':'' # s3"
    by (auto simp: slice_at_def Let_def split: list.splits if_splits prod.splits)
  have "set s2 \<subseteq> set s1"
    using p(2) by (auto simp: slice_number_def Let_def dest!: set_dropWhileD split: list.splits if_splits)
  moreover have "CHR '':'' \<in> set s2"
    using p(3) by (auto simp: skip_space_def split: list.splits if_splits)
  ultimately show ?thesis using p(1) by auto
qed

lemma ids_expr_no_slice: "\<not> IsSliceExpression (IDsToExpr ids)"
  using ids_expr_chars [of "CHR '':''" ids] slice_at_colon [of "IDsToExpr ids"]
  by (auto simp: IsSliceExpression_def is_digit_char_def)

lemma expr_id_distinct:
  assumes "distinct (map Expression cs)" "c \<in> set cs"
  shows "expr_id cs (Expression c) = CcProcessID c"
proof -
  have "\<exists>d. find (\<lambda>d. Expression d = Expression c) (rev cs) = Some d \<and> d = c"
  proof (cases "find (\<lambda>d. Expression d = Expression c) (rev cs)")
    case (Some d)
    then obtain k where "k < length (rev cs)" "rev cs ! k = d" "Expression d = Expression c"
      by (auto simp: find_Some_iff)
    then have "d \<in> set cs" "Expression d = Expression c" using nth_mem [of k "rev cs"] by simp_all
    then show ?thesis using Some assms by (metis distinct_map inj_onD)
  qed (use assms(2) in \<open>auto simp: find_None_iff\<close>)
  then show ?thesis by (auto simp: expr_id_def)
qed

text \<open>
  A scope whose segments are open except for the process ids, written as an expression from a
  list of ids, selects exactly the candidate processes with these ids, in the order of the
  candidates: the number of one process never selects another one, whatever the names of its set,
  module, service and alias are.
\<close>

theorem scope_selects_ids:
  assumes "ids \<noteq> []" "distinct (map Expression cs)"
    and "\<forall>p \<in> set cs. \<exists>a b c d. Expression p = JoinProcessExpression a b c d (itoa (uint (CcProcessID p)))"
  shows "ScopeToCcIDs \<lparr>Environment = env, SetName = '''', ModuleName = ''*'', ServiceName = '''', ProcessAlias = '''', ProcessID = IDsToExpr ids\<rparr> cs
    = Some (Inr (filter (\<lambda>i. i \<in> set ids) (map CcProcessID cs)))"
proof -
  obtain rs where rs: "blocks rs" "\<And>n. covers rs n \<longleftrightarrow> n \<in> unat ` set ids"
    "\<And>names. ListMatch names (concat (map pat_text any_prefix) @ IDsToExpr ids)
      = Some (Inr (filter (\<lambda>name. cand_matches any_prefix rs (runes name)) names))"
    using ids_match [OF assms(1) any_prefix_facts(1,2)] by auto
  have hit: "cand_matches any_prefix rs (runes (Expression p)) \<longleftrightarrow> CcProcessID p \<in> set ids" if p: "p \<in> set cs" for p
  proof -
    obtain a b c d where "Expression p = JoinProcessExpression a b c d (itoa_nat (unat (CcProcessID p)))"
      using bspec [OF assms(3) p] by (auto simp: itoa_def)
    then have "cand_matches any_prefix rs (runes (Expression p)) \<longleftrightarrow> covers rs (unat (CcProcessID p))"
      using cand_matches_prefix [OF rs(1), of "butlast any_prefix"] any_prefix_facts(3,4) any_prefix_matches
      by (simp only: runes_expression) metis
    also have "\<dots> \<longleftrightarrow> CcProcessID p \<in> set ids" unfolding rs(2) by (auto simp: word_unat_eq_iff [symmetric])
    finally show ?thesis .
  qed
  have ne: "IDsToExpr ids \<noteq> []"
    using itoa_nat_nonempty by (auto simp: IDsToExpr_def defaultSegment_def itoa_def split: list.splits)
  have gen: "GenExpression \<lparr>Environment = env, SetName = '''', ModuleName = ''*'', ServiceName = '''', ProcessAlias = '''', ProcessID = IDsToExpr ids\<rparr>
    = concat (map pat_text any_prefix) @ IDsToExpr ids"
    using ne by (simp add: GenExpression_def orDefault_def defaultSegment_def any_prefix_def ExpressionSplitter_def numeral_eq_Suc)
  have "slice_all defaultSegment = []" by code_simp
  then have sl: "ExecuteSlice xs defaultSegment = xs" for xs :: "32 word list" by (simp add: ExecuteSlice_def)
  have "filter (\<lambda>name. cand_matches any_prefix rs (runes name)) (map Expression cs) = map Expression (filter (\<lambda>p. CcProcessID p \<in> set ids) cs)"
    using hit by (simp add: filter_map o_def cong: filter_cong)
  moreover have "map (expr_id cs) (map Expression (filter P cs)) = map CcProcessID (filter P cs)" for P
    using expr_id_distinct [OF assms(2)] by simp
  ultimately show ?thesis
    using ids_expr_no_slice [of ids] ne
    by (simp add: ScopeToCcIDs_def orDefault_def gen rs(3) dedup_from_id assms(2) sl filter_map o_def)
qed

theorem scope_selects_ids_witness:
  "ScopeToCcIDs \<lparr>Environment = '''', SetName = '''', ModuleName = ''*'', ServiceName = '''', ProcessAlias = '''', ProcessID = IDsToExpr [8, 9, 10]\<rparr>
     [\<lparr>Expression = JoinProcessExpression ''s9'' ''m'' ''v'' ''a'' ''90'', CcProcessID = 90\<rparr>,
      \<lparr>Expression = JoinProcessExpression ''s'' ''m'' ''v'' ''a'' ''9'', CcProcessID = 9\<rparr>] = Some (Inr [9])"
proof -
  let ?cs = "[\<lparr>Expression = JoinProcessExpression ''s9'' ''m'' ''v'' ''a'' ''90'', CcProcessID = 90\<rparr>,
      \<lparr>Expression = JoinProcessExpression ''s'' ''m'' ''v'' ''a'' ''9'', CcProcessID = 9\<rparr>]"
  have 1: "distinct (map Expression ?cs)" by code_simp
  have i: "itoa 90 = ''90''" "itoa 9 = ''9''" by code_simp+
  have "\<forall>p \<in> set ?cs. \<exists>a b c d. Expression p = JoinProcessExpression a b c d (itoa (uint (CcProcessID p)))"
    by (auto simp: i)
  then show ?thesis using scope_selects_ids [of "[8, 9, 10]" ?cs "''''"] 1 by simp
qed

text \<open>
  \<open>ListMatch\<close> is \<open>Match\<close> on each name: when every candidate pattern of the expression compiles, it
  keeps exactly the names that match, in their order.
\<close>

theorem list_match_is_match:
  assumes "ParseExp2UnixShellStyle e = Some (Inr cands)" "\<forall>c \<in> set cands. is_ok (compile_pat c)"
  shows "ListMatch names e = Some (Inr (filter (\<lambda>name. Match name e = Some (Inr True)) names))"
proof -
  define re where "re c = (case compile_pat c of Inr r \<Rightarrow> r | Inl _ \<Rightarrow> (\<lambda>_. False))" for c
  have all: "\<forall>c \<in> set cands. compile_pat c = Inr (re c)"
    using assms(2) by (auto simp: re_def is_ok_def split: sum.splits)
  show ?thesis
    by (simp add: ListMatch_def Match_def assms(1) compile_all_all [OF all] match_first_all [OF all] list_ex_iff)
qed

text \<open>
  A slice keeps exactly the elements at the positions Python keeps: from the first bound on and
  before the second one, a negative bound counting from the end; bounds outside the list are
  brought back to its ends, so that no index leaves the list.
\<close>

theorem slice_is_python:
  assumes "slice_all s = [(b, e)]"
  shows "ExecuteSlice ids s = map (\<lambda>k. ids ! k) (filter (\<lambda>k.
      (case parseSliceIndex b of None \<Rightarrow> True | Some i \<Rightarrow> (if i < 0 then i + int (length ids) else i) \<le> int k)
    \<and> (case parseSliceIndex e of None \<Rightarrow> True | Some i \<Rightarrow> int k < (if i < 0 then i + int (length ids) else i))) [0 ..< length ids])"
proof -
  define l where "l = int (length ids)"
  define start where "start = (case parseSliceIndex b of None \<Rightarrow> 0 | Some i \<Rightarrow> clampIndex i l)"
  define stop where "stop = (case parseSliceIndex e of None \<Rightarrow> l | Some i \<Rightarrow> clampIndex i l)"
  have r: "0 \<le> start" "stop \<le> l" by (auto simp: start_def stop_def l_def clampIndex_def split: option.splits)
  have lo: "(case parseSliceIndex b of None \<Rightarrow> True | Some i \<Rightarrow> (if i < 0 then i + l else i) \<le> int k) \<longleftrightarrow> nat start \<le> k"
    if "k < length ids" for k
    using that by (auto simp: start_def l_def clampIndex_def split: option.splits)
  have hi: "(case parseSliceIndex e of None \<Rightarrow> True | Some i \<Rightarrow> int k < (if i < 0 then i + l else i)) \<longleftrightarrow> k < nat stop"
    if "k < length ids" for k
    using that by (auto simp: stop_def l_def clampIndex_def split: option.splits)
  have "ExecuteSlice ids s = take (nat stop - nat start) (drop (nat start) ids)"
  proof -
    have "ExecuteSlice ids s = (if start \<ge> stop then [] else take (nat (stop - start)) (drop (nat start) ids))"
      unfolding start_def stop_def l_def
      by (simp only: ExecuteSlice_def assms pythonSlice_def Let_def list.case prod.case)
    then show ?thesis using r(1) nat_diff_distrib [of start stop] by (cases "start \<ge> stop") (simp_all add: nat_mono)
  qed
  also have "\<dots> = map (\<lambda>k. ids ! k) [nat start ..< nat stop]"
    using r by (intro nth_equalityI) (auto simp: l_def)
  also have "[nat start ..< nat stop] = filter (\<lambda>k. nat start \<le> k \<and> k < nat stop) [0 ..< length ids]"
    using r by (intro sorted_distinct_set_unique) (auto simp: l_def intro: sorted_wrt_filter)
  also have "\<dots> = filter (\<lambda>k.
      (case parseSliceIndex b of None \<Rightarrow> True | Some i \<Rightarrow> (if i < 0 then i + l else i) \<le> int k)
    \<and> (case parseSliceIndex e of None \<Rightarrow> True | Some i \<Rightarrow> int k < (if i < 0 then i + l else i))) [0 ..< length ids]"
    using lo hi by (intro filter_cong refl) simp
  finally show ?thesis unfolding l_def .
qed

theorem slice_is_python_witness: "ExecuteSlice [1 :: nat, 2, 3, 4] ''[-3:9]'' = [2, 3, 4]"
proof -
  have "slice_all ''[-3:9]'' = [(''-3'', ''9'')]" "parseSliceIndex ''-3'' = Some (- 3)" "parseSliceIndex ''9'' = Some 9" by code_simp+
  then show ?thesis using slice_is_python [of "''[-3:9]''" "''-3''" "''9''" "[1 :: nat, 2, 3, 4]"] by simp
qed

theorem list_match_is_match_witness:
  "ListMatch [''a1'', ''b2'', ''a3''] ''[ab][1-2]'' = Some (Inr (filter (\<lambda>name. Match name ''[ab][1-2]'' = Some (Inr True)) [''a1'', ''b2'', ''a3'']))"
proof -
  have "ParseExp2UnixShellStyle ''[ab][1-2]'' = Some (Inr [''ab[1-2]''])" by code_simp
  moreover have "\<forall>c \<in> set [''ab[1-2]'']. is_ok (compile_pat c)" by code_simp
  ultimately show ?thesis by (rule list_match_is_match)
qed

end
