(* ===== verification/KvTables.thy ===== *)
theory KvTables
  imports Publish
begin

text \<open>
  The table types of key-value configuration (\<open>pkg/dal/table/kv.go\<close>, \<open>released_kv.go\<close>) with their
  validation, the options of \<open>pkg/types/kv.go\<close> and \<open>released_kv.go\<close>, and the access to the
  versioned secret store (\<open>internal/dal/vault\<close>). The client of the secret store is a parameter, a
  record \<open>kv2\<close> of its two calls; \<open>kv2_laws\<close> is its documented behaviour. The decoders of JSON, YAML
  and XML are parameters too.
\<close>

section \<open>Enumerations\<close>

datatype data_type =
    KvAny | KvStr | KvNumber | KvText | KvJson | KvYAML | KvXml | KvSecret | OtherDataType string

datatype kv_state =
    KvStateAdd | KvStateDelete | KvStateRevise | KvStateUnchange | OtherKvState string

datatype secret_type =
    SecretTypePassword | SecretTypeCertificate | SecretTypeSecretKey | SecretTypeToken | SecretTypeCustom
  | OtherSecretType string

definition ValidateApp :: "data_type \<Rightarrow> tbl_err + unit" where
  "ValidateApp k = (case k of OtherDataType _ \<Rightarrow> Inl (Unsupported ''data-type'') | _ \<Rightarrow> Inr ())"

definition ValidateCreateKv :: "data_type \<Rightarrow> tbl_err + unit" where
  "ValidateCreateKv k =
     (case k of KvAny \<Rightarrow> Inl (Unsupported ''data-type'') | OtherDataType _ \<Rightarrow> Inl (Unsupported ''data-type'')
      | _ \<Rightarrow> Inr ())"

definition KvState_Validate :: "kv_state \<Rightarrow> tbl_err + unit" where
  "KvState_Validate k = (case k of OtherKvState _ \<Rightarrow> Inl (Unsupported ''kv state'') | _ \<Rightarrow> Inr ())"

definition SecretType_Validate :: "secret_type \<Rightarrow> tbl_err + unit" where
  "SecretType_Validate st = (case st of OtherSecretType _ \<Rightarrow> Inl (Unsupported ''secret type'') | _ \<Rightarrow> Inr ())"

section \<open>Values\<close>

definition MaxValueLength :: nat where
  "MaxValueLength = 1 * 1024 * 1024"

record decoders =
  json_Valid :: "string \<Rightarrow> bool"
  yaml_ok :: "string \<Rightarrow> bool"
  xml_ok :: "string \<Rightarrow> bool"

definition IsNumber :: "string \<Rightarrow> bool" where
  "IsNumber s = (if atoi s \<noteq> None then True else parse_float 64 s \<noteq> None)"

definition ValidateValue :: "decoders \<Rightarrow> data_type \<Rightarrow> string \<Rightarrow> tbl_err + unit" where
  "ValidateValue dc k value =
     (if value = [] then Inl (NotSet ''kv value'')
      else if length value > MaxValueLength then Inl Oversize
      else case k of
        KvStr \<Rightarrow> ensure (\<not> containsStr value [CHR 0x0A]) (Unsupported ''newline'')
      | KvNumber \<Rightarrow> ensure (IsNumber value) (Unsupported ''number'')
      | KvText \<Rightarrow> Inr ()
      | KvJson \<Rightarrow> ensure (json_Valid dc value) (Unsupported ''json'')
      | KvYAML \<Rightarrow> ensure (yaml_ok dc value) (Unsupported ''yaml'')
      | KvXml \<Rightarrow> ensure (xml_ok dc value) (Unsupported ''xml'')
      | KvSecret \<Rightarrow> Inr ()
      | _ \<Rightarrow> Inl (Unsupported ''key-value type''))"

section \<open>Rows\<close>

record kv_spec =
  Key :: string
  k_Memo :: string
  KvType :: data_type
  Version :: "32 word"
  SecretType :: secret_type
  SecretHidden :: bool
  CertificateExpirationDate :: "int option"

record kv_attachment =
  ka_BizID :: nat
  ka_AppID :: nat

record content_spec =
  Signature :: string
  ByteSize :: nat
  Md5 :: string

text \<open>The structures as the code builds them, with pointers to the embedded parts.\<close>

record kv =
  k_ID :: nat
  KvState :: kv_state
  k_Spec :: "kv_spec option"
  k_Attachment :: "kv_attachment option"
  k_Revision :: "revision option"
  ContentSpec :: "content_spec option"

record released_kv =
  rk_ID :: nat
  rk_ReleaseID :: nat
  rk_Spec :: "kv_spec option"
  rk_Attachment :: "kv_attachment option"
  rk_Revision :: "revision option"
  rk_ContentSpec :: "content_spec option"

definition KvSpec_ValidateCreate :: "kv_spec \<Rightarrow> tbl_err + unit" where
  "KvSpec_ValidateCreate k =
     rbind (wrap_err BadValue (ValidateName (Key k))) (\<lambda>_. ValidateCreateKv (KvType k))"

definition KvAttachment_Validate :: "kv_attachment \<Rightarrow> tbl_err + unit" where
  "KvAttachment_Validate a =
     rbind (ensure (0 < ka_BizID a) (InvalidID ''biz id'')) (\<lambda>_. ensure (0 < ka_AppID a) (InvalidID ''app id''))"

definition Kv_ValidateCreate :: "kv \<Rightarrow> tbl_err + unit" where
  "Kv_ValidateCreate k =
     rbind (ensure (k_ID k = 0) IDShouldNotBeSet) (\<lambda>_.
     rbind (ensure (KvState k = KvStateAdd) (Unsupported ''kv state'')) (\<lambda>_.
     need (k_Spec k) ''spec'' (\<lambda>s. rbind (KvSpec_ValidateCreate s) (\<lambda>_.
     need (k_Attachment k) ''attachment'' (\<lambda>a. rbind (KvAttachment_Validate a) (\<lambda>_.
     need (k_Revision k) ''revision'' Revision_ValidateCreate))))))"

text \<open>\<open>ValidateDelete\<close> reads the attachment through its pointer without a check.\<close>

definition Kv_ValidateDelete :: "kv \<Rightarrow> tbl_err + unit" where
  "Kv_ValidateDelete k =
     rbind (ensure (0 < k_ID k) (NotSet ''kv id'')) (\<lambda>_.
     case k_Attachment k of
       None \<Rightarrow> Inl NilPointer
     | Some a \<Rightarrow> rbind (ensure (0 < ka_BizID a) (NotSet ''biz id'')) (\<lambda>_. ensure (0 < ka_AppID a) (NotSet ''app id'')))"

definition Kv_ValidateUpdate :: "kv \<Rightarrow> tbl_err + unit" where
  "Kv_ValidateUpdate k =
     rbind (ensure (0 < k_ID k) IDShouldBeSet) (\<lambda>_.
     need (k_Spec k) ''spec'' (\<lambda>_.
     need (k_Attachment k) ''attachment'' (\<lambda>a.
     rbind (ensure (0 < ka_BizID a) (NotSet ''biz id'')) (\<lambda>_.
     rbind (ensure (0 < ka_AppID a) (NotSet ''app id'')) (\<lambda>_.
     need (k_Revision k) ''revision'' (\<lambda>_. Inr ()))))))"

definition ReleasedKv_ValidateCreate :: "released_kv \<Rightarrow> tbl_err + unit" where
  "ReleasedKv_ValidateCreate r =
     rbind (ensure (rk_ID r = 0) IDShouldNotBeSet) (\<lambda>_.
     need (rk_Spec r) ''spec'' (\<lambda>s. rbind (KvSpec_ValidateCreate s) (\<lambda>_.
     need (rk_Attachment r) ''attachment'' (\<lambda>a. rbind (KvAttachment_Validate a) (\<lambda>_.
     need (rk_Revision r) ''revision'' (\<lambda>_. Inr ()))))))"

section \<open>The secret store\<close>

text \<open>
  A secret is a map from fields to values; \<open>DOther\<close> is a value that is not a string. \<open>kv2_put\<close> writes
  a new version of the secret at a path and returns its number, \<open>kv2_get\<close> reads one version.
\<close>

datatype secret_val = DStr string | DOther

type_synonym secret = "(string, secret_val) gomap"

record 'v kv2 =
  kv2_put :: "'v \<Rightarrow> string \<Rightarrow> secret \<Rightarrow> string + int \<times> 'v"
  kv2_get :: "'v \<Rightarrow> string \<Rightarrow> int \<Rightarrow> string + secret"

text \<open>
  The documented behaviour: versions are numbered from one, below \<open>2 ^ 32\<close> in any store that exists; a
  version that was written is read as it was written, and writing one secret leaves the others.
\<close>

definition kv2_laws :: "'v kv2 \<Rightarrow> bool" where
  "kv2_laws api \<longleftrightarrow> (\<forall>v path d n v'. kv2_put api v path d = Inr (n, v') \<longrightarrow>
     1 \<le> n \<and> n < 2 ^ 32 \<and> kv2_get api v' path n = Inr d
     \<and> (\<forall>p m. p \<noteq> path \<longrightarrow> kv2_get api v' p m = kv2_get api v p m))"

text \<open>\<open>kvPath\<close> and \<open>releasedKvPath\<close>, with the verbs replaced.\<close>

definition kvPath :: "nat \<Rightarrow> nat \<Rightarrow> string \<Rightarrow> string" where
  "kvPath biz app key = ''biz/'' @ itoa_nat biz @ ''/apps/'' @ itoa_nat app @ ''/kvs/'' @ key"

definition releasedKvPath :: "nat \<Rightarrow> nat \<Rightarrow> nat \<Rightarrow> string \<Rightarrow> string" where
  "releasedKvPath biz app rel key =
     ''biz/'' @ itoa_nat biz @ ''/apps/'' @ itoa_nat app @ ''/releases/'' @ itoa_nat rel @ ''/kvs/'' @ key"

datatype vault_err = BadOption tbl_err | Client string | NotAString string

text \<open>The options of the calls and their validation.\<close>

definition UpsertKvOption_Validate :: "decoders \<Rightarrow> nat \<Rightarrow> nat \<Rightarrow> string \<Rightarrow> data_type \<Rightarrow> string \<Rightarrow> tbl_err + unit" where
  "UpsertKvOption_Validate dc biz app key t value =
     rbind (ensure (0 < biz) (InvalidID ''biz id'')) (\<lambda>_.
     rbind (ensure (0 < app) (InvalidID ''app id'')) (\<lambda>_.
     rbind (ensure (key \<noteq> []) (NotSet ''kv key'')) (\<lambda>_.
     rbind (ensure (value \<noteq> []) (NotSet ''kv value'')) (\<lambda>_.
     ValidateValue dc t value))))"

definition CreateReleasedKvOption_Validate ::
    "decoders \<Rightarrow> nat \<Rightarrow> nat \<Rightarrow> nat \<Rightarrow> string \<Rightarrow> data_type \<Rightarrow> string \<Rightarrow> tbl_err + unit" where
  "CreateReleasedKvOption_Validate dc biz app rel key t value =
     rbind (ensure (0 < biz) (InvalidID ''biz id'')) (\<lambda>_.
     rbind (ensure (0 < app) (InvalidID ''app id'')) (\<lambda>_.
     rbind (ensure (0 < rel) (InvalidID ''revision id'')) (\<lambda>_.
     rbind (ensure (key \<noteq> []) (NotSet ''kv key'')) (\<lambda>_.
     rbind (ensure (value \<noteq> []) (NotSet ''kv value'')) (\<lambda>_.
     ValidateValue dc t value)))))"

definition GetKvByVersion_Validate :: "nat \<Rightarrow> nat \<Rightarrow> string \<Rightarrow> int \<Rightarrow> tbl_err + unit" where
  "GetKvByVersion_Validate biz app key version =
     rbind (ensure (0 < biz) (InvalidID ''biz id'')) (\<lambda>_.
     rbind (ensure (0 < app) (InvalidID ''app id'')) (\<lambda>_.
     rbind (ensure (key \<noteq> []) (NotSet ''kv key'')) (\<lambda>_.
     ensure (0 < version) (InvalidID ''version''))))"

definition GetRKvOption_Validate :: "nat \<Rightarrow> nat \<Rightarrow> string \<Rightarrow> nat \<Rightarrow> int \<Rightarrow> tbl_err + unit" where
  "GetRKvOption_Validate biz app key rel version =
     rbind (ensure (0 < biz) (InvalidID ''biz id'')) (\<lambda>_.
     rbind (ensure (0 < app) (InvalidID ''app id'')) (\<lambda>_.
     rbind (ensure (key \<noteq> []) (NotSet ''kv key'')) (\<lambda>_.
     rbind (ensure (0 < rel) (InvalidID ''revision id'')) (\<lambda>_.
     ensure (0 < version) (InvalidID ''version'')))))"

text \<open>The type is stored under the name of its constant.\<close>

definition data_type_text :: "data_type \<Rightarrow> string" where
  "data_type_text k =
     (case k of KvAny \<Rightarrow> ''any'' | KvStr \<Rightarrow> ''string'' | KvNumber \<Rightarrow> ''number'' | KvText \<Rightarrow> ''text''
      | KvJson \<Rightarrow> ''json'' | KvYAML \<Rightarrow> ''yaml'' | KvXml \<Rightarrow> ''xml'' | KvSecret \<Rightarrow> ''secret'' | OtherDataType s \<Rightarrow> s)"

definition data_type_of :: "string \<Rightarrow> data_type" where
  "data_type_of s =
     (case find (\<lambda>k. data_type_text k = s) [KvAny, KvStr, KvNumber, KvText, KvJson, KvYAML, KvXml, KvSecret] of
        Some k \<Rightarrow> k | None \<Rightarrow> OtherDataType s)"

definition kv_data :: "data_type \<Rightarrow> string \<Rightarrow> secret" where
  "kv_data t value = [(''kv_type'', DStr (data_type_text t)), (''value'', DStr value)]"

definition UpsertKv ::
    "'v kv2 \<Rightarrow> decoders \<Rightarrow> nat \<Rightarrow> nat \<Rightarrow> string \<Rightarrow> data_type \<Rightarrow> string \<Rightarrow> 'v \<Rightarrow> vault_err + int \<times> 'v" where
  "UpsertKv api dc biz app key t value v =
     rbind (wrap_err BadOption (UpsertKvOption_Validate dc biz app key t value)) (\<lambda>_.
     wrap_err Client (kv2_put api v (kvPath biz app key) (kv_data t value)))"

text \<open>The two type assertions on what was read.\<close>

definition read_secret :: "secret \<Rightarrow> vault_err + data_type \<times> string" where
  "read_secret d =
     (case map_of d ''kv_type'' of
        Some (DStr t) \<Rightarrow>
          (case map_of d ''value'' of
             Some (DStr value) \<Rightarrow> Inr (data_type_of t, value)
           | _ \<Rightarrow> Inl (NotAString ''value''))
      | _ \<Rightarrow> Inl (NotAString ''kv_type''))"

definition GetKvByVersion ::
    "'v kv2 \<Rightarrow> nat \<Rightarrow> nat \<Rightarrow> string \<Rightarrow> int \<Rightarrow> 'v \<Rightarrow> vault_err + data_type \<times> string" where
  "GetKvByVersion api biz app key version v =
     rbind (wrap_err BadOption (GetKvByVersion_Validate biz app key version)) (\<lambda>_.
     rbind (wrap_err Client (kv2_get api v (kvPath biz app key) version)) read_secret)"

definition CreateRKv ::
    "'v kv2 \<Rightarrow> decoders \<Rightarrow> nat \<Rightarrow> nat \<Rightarrow> nat \<Rightarrow> string \<Rightarrow> data_type \<Rightarrow> string \<Rightarrow> 'v \<Rightarrow> vault_err + int \<times> 'v" where
  "CreateRKv api dc biz app rel key t value v =
     rbind (wrap_err BadOption (CreateReleasedKvOption_Validate dc biz app rel key t value)) (\<lambda>_.
     wrap_err Client (kv2_put api v (releasedKvPath biz app rel key) (kv_data t value)))"

definition GetRKv ::
    "'v kv2 \<Rightarrow> nat \<Rightarrow> nat \<Rightarrow> string \<Rightarrow> nat \<Rightarrow> int \<Rightarrow> 'v \<Rightarrow> vault_err + data_type \<times> string" where
  "GetRKv api biz app key rel version v =
     rbind (wrap_err BadOption (GetRKvOption_Validate biz app key rel version)) (\<lambda>_.
     rbind (wrap_err Client (kv2_get api v (releasedKvPath biz app rel key) version)) read_secret)"

end
