(* ===== verification/Effects.thy ===== *)
theory Effects
  imports Prelude
begin

text \<open>
  Operations on a state that keep what they have written when they fail: the result and the state.
\<close>

definition sbind :: "('e + 'a) \<times> 's \<Rightarrow> ('a \<Rightarrow> 's \<Rightarrow> ('e + 'b) \<times> 's) \<Rightarrow> ('e + 'b) \<times> 's" where
  "sbind r k = (case r of (Inl e, s) \<Rightarrow> (Inl e, s) | (Inr x, s) \<Rightarrow> k x s)"

text \<open>A step that only reads, or that fails without an effect.\<close>

definition slift :: "'e + 'a \<Rightarrow> 's \<Rightarrow> ('e + 'a) \<times> 's" where
  "slift r s = (r, s)"

definition sput :: "'e + 's \<Rightarrow> 's \<Rightarrow> ('e + unit) \<times> 's" where
  "sput r s = (case r of Inl e \<Rightarrow> (Inl e, s) | Inr s' \<Rightarrow> (Inr (), s'))"

lemma sbind_simps [simp]:
  "sbind (Inl e, s) k = (Inl e, s)"
  "sbind (Inr x, s) k = k x s"
  by (simp_all add: sbind_def)

lemma sbind_Inr_iff [res_simps]:
  "sbind r k = (Inr y, s') \<longleftrightarrow> (\<exists>x s. r = (Inr x, s) \<and> k x s = (Inr y, s'))"
  by (cases r; cases "fst r") (auto simp: sbind_def)

lemma slift_iff [res_simps]: "slift r s = (r', s') \<longleftrightarrow> r' = r \<and> s' = s"
  by (auto simp: slift_def)

lemma sput_Inr_iff [res_simps]: "sput r s = (Inr u, s') \<longleftrightarrow> r = Inr s'"
  by (cases r) (auto simp: sput_def)

lemma sbind_err: "sbind r k = (Inl e, s') \<longleftrightarrow> r = (Inl e, s') \<or> (\<exists>x s. r = (Inr x, s) \<and> k x s = (Inl e, s'))"
  by (cases r; cases "fst r") (auto simp: sbind_def)

lemma sput_err: "sput r s = (Inl e, s') \<longleftrightarrow> r = Inl e \<and> s' = s"
  by (cases r) (auto simp: sput_def)

lemmas effect_simps = sbind_err sput_err sbind_Inr_iff slift_iff sput_Inr_iff

text \<open>A loop that ends at the first error.\<close>

fun sfor :: "('a \<Rightarrow> 's \<Rightarrow> ('e + unit) \<times> 's) \<Rightarrow> 'a list \<Rightarrow> 's \<Rightarrow> ('e + unit) \<times> 's" where
  "sfor f [] s = (Inr (), s)"
| "sfor f (x # xs) s = sbind (f x s) (\<lambda>_. sfor f xs)"

lemma sfor_inv:
  assumes "\<And>x s. x \<in> set xs \<Longrightarrow> P s \<Longrightarrow> P (snd (f x s))" "P s"
  shows "P (snd (sfor f xs s))"
  using assms
proof (induction xs arbitrary: s)
  case (Cons x xs)
  obtain r s' where f: "f x s = (r, s')" by fastforce
  have "P s'" using Cons.prems(1) [of x s] Cons.prems(2) f by simp
  then show ?case using Cons f by (cases r) auto
qed simp

end
