(* ===== verification/KvService.thy ===== *)
theory KvService
  imports KvTables Effects
begin

text \<open>
  The drafts and releases of key-value configuration: the queries of \<open>internal/dal/dao/kv.go\<close>,
  \<open>released_kv.go\<close> and \<open>release.go\<close> over tables as lists of rows, and the handlers of
  \<open>cmd/data-service/service/kv.go\<close>, \<open>release.go\<close> and \<open>released_kv.go\<close>.

  A handler returns its result and the store: what was written outside its transaction, in the
  database or in the secret store, stays after an error. Inside a transaction the state is a pair,
  what is committed and what the transaction sees. Failures of the database other than a missing
  record and a violated unique index are not modelled, nor are audit records. A query without an
  order returns the rows in the order of the table.
\<close>

section \<open>The store\<close>

datatype kv_err =
    KTbl tbl_err
  | KVault vault_err
  | KNotFound
  | KExists string
  | DuplicateEntry
  | KTypeMismatch
  | NotKvApp
  | KvTypeIncorrect string
  | DuplicateKeys string
  | SaveFailed
  | ExceedsLimit nat
  | ReleaseExists string
  | CertificateExpired
  | BadParameter string
  | FileErr string

record kv_row =
  kv_ID :: nat
  kv_State :: kv_state
  kv_Spec :: kv_spec
  kv_BizID :: nat
  kv_AppID :: nat
  kv_Rev :: revision
  kv_Content :: content_spec

record rkv_row =
  rkv_ID :: nat
  rkv_ReleaseID :: nat
  rkv_Spec :: kv_spec
  rkv_BizID :: nat
  rkv_AppID :: nat
  rkv_Rev :: revision
  rkv_Content :: content_spec

datatype config_type = KV | File | Table | OtherConfigType string

record kv_app =
  ap_ID :: nat
  ap_BizID :: nat
  ConfigType :: config_type
  DataType :: data_type

datatype hook_type = PreHook | PostHook

record released_hook =
  rh_ID :: nat
  rh_AppID :: nat
  rh_ReleaseID :: nat
  rh_HookID :: nat
  rh_HookRevisionID :: nat
  rh_HookName :: string
  rh_HookRevisionName :: string
  rh_Content :: string
  rh_ScriptType :: string
  rh_HookType :: hook_type
  rh_BizID :: nat
  rh_Reviser :: string

record 'v kv_store =
  Kvs :: "kv_row list"
  ReleasedKvs :: "rkv_row list"
  KvApps :: "kv_app list"
  KvReleases :: "release_row list"
  ReleasedHooks :: "released_hook list"
  Vault :: 'v
  next_kv :: nat
  next_rkv :: nat
  next_release :: nat
  next_hook :: nat

text \<open>
  The request's user and clock, the secret store, the decoders, the digests \<open>tools.SHA256\<close> and
  \<open>tools.MD5\<close>, and the configured limits per business and by default.
\<close>

record 'v kv_kit =
  KvUser :: string
  Now :: int
  Api :: "'v kv2"
  Dec :: decoders
  SHA256 :: "string \<Rightarrow> string"
  MD5 :: "string \<Rightarrow> string"
  LimitSpec :: "(string, nat) gomap"
  LimitDefault :: nat

text \<open>A transaction: the committed store and the store it sees.\<close>

type_synonym 'v tx = "'v kv_store \<times> 'v kv_store"

definition run_tx :: "('v tx \<Rightarrow> (kv_err + 'a) \<times> 'v tx) \<Rightarrow> 'v kv_store \<Rightarrow> (kv_err + 'a) \<times> 'v kv_store" where
  "run_tx body st =
     (case body (st, st) of
        (Inl e, c, t) \<Rightarrow> (Inl e, c)
      | (Inr x, c, t) \<Rightarrow> (Inr x, t))"

text \<open>A write in the transaction, and a write outside of it.\<close>

definition in_tx :: "('v kv_store \<Rightarrow> kv_err + 'v kv_store) \<Rightarrow> 'v tx \<Rightarrow> (kv_err + unit) \<times> 'v tx" where
  "in_tx f s = sput (map_sum id (\<lambda>t. (fst s, t)) (f (snd s))) s"

definition out_tx :: "('v kv_store \<Rightarrow> 'v kv_store) \<Rightarrow> 'v tx \<Rightarrow> 'v tx" where
  "out_tx f s = (f (fst s), f (snd s))"

section \<open>internal/dal/dao/kv.go\<close>

definition of_row :: "kv_row \<Rightarrow> kv" where
  "of_row r = \<lparr>k_ID = kv_ID r, KvState = kv_State r, k_Spec = Some (kv_Spec r),
     k_Attachment = Some \<lparr>ka_BizID = kv_BizID r, ka_AppID = kv_AppID r\<rparr>,
     k_Revision = Some (kv_Rev r), ContentSpec = Some (kv_Content r)\<rparr>"

text \<open>The unique index \<open>idx_bizID_appID_key_kvState\<close>.\<close>

definition kv_index :: "kv_row \<Rightarrow> nat \<times> nat \<times> string \<times> kv_state" where
  "kv_index r = (kv_BizID r, kv_AppID r, Key (kv_Spec r), kv_State r)"

definition kv_write :: "kv_row list \<Rightarrow> 'v kv_store \<Rightarrow> kv_err + 'v kv_store" where
  "kv_write rows st = (if distinct (map kv_index rows) then Inr (st\<lparr>Kvs := rows\<rparr>) else Inl DuplicateEntry)"

definition kv_where :: "nat \<Rightarrow> nat \<Rightarrow> kv_row \<Rightarrow> bool" where
  "kv_where biz app r \<longleftrightarrow> kv_BizID r = biz \<and> kv_AppID r = app"

definition GetByKvState :: "nat \<Rightarrow> nat \<Rightarrow> string \<Rightarrow> kv_state list \<Rightarrow> 'v kv_store \<Rightarrow> kv_row option" where
  "GetByKvState biz app key states st =
     find (\<lambda>r. kv_where biz app r \<and> Key (kv_Spec r) = key \<and> kv_State r \<in> set states) (Kvs st)"

definition kv_GetByID :: "nat \<Rightarrow> nat \<Rightarrow> nat \<Rightarrow> 'v kv_store \<Rightarrow> kv_row option" where
  "kv_GetByID biz app i st = find (\<lambda>r. kv_where biz app r \<and> kv_ID r = i) (Kvs st)"

definition kv_ListAllByAppID :: "nat \<Rightarrow> nat \<Rightarrow> kv_state list \<Rightarrow> 'v kv_store \<Rightarrow> kv_err + kv_row list" where
  "kv_ListAllByAppID app biz states st =
     (if app = 0 then Inl (BadParameter ''appID'')
      else if biz = 0 then Inl (BadParameter ''bizID'')
      else Inr (filter (\<lambda>r. kv_where biz app r \<and> kv_State r \<in> set states) (Kvs st)))"

text \<open>Without a search and without a status, as \<open>checkKVConfigItemExceedsAppLimit\<close> calls it.\<close>

definition CountNumberUnDeleted :: "nat \<Rightarrow> nat \<Rightarrow> 'v kv_store \<Rightarrow> nat" where
  "CountNumberUnDeleted biz app st =
     length (filter (\<lambda>r. kv_where biz app r \<and> kv_State r \<noteq> KvStateDelete) (Kvs st))"

definition live_states :: "kv_state list" where
  "live_states = [KvStateUnchange, KvStateAdd, KvStateRevise]"

text \<open>The certificates that expire within some days; zero days selects those that have expired.\<close>

definition FindNearExpiryCertKvs :: "int \<Rightarrow> nat \<Rightarrow> nat \<Rightarrow> nat \<Rightarrow> 'v kv_store \<Rightarrow> kv_row list" where
  "FindNearExpiryCertKvs tm biz app days st =
     filter (\<lambda>r. kv_where biz app r \<and> SecretType (kv_Spec r) = SecretTypeCertificate \<and> kv_State r \<in> set live_states
       \<and> (case CertificateExpirationDate (kv_Spec r) of
            None \<Rightarrow> False
          | Some d \<Rightarrow> if days = 0 then d \<le> tm else tm \<le> d \<and> d \<le> tm + int days * 86400)) (Kvs st)"

definition FetchKeysExcluding :: "nat \<Rightarrow> nat \<Rightarrow> string list \<Rightarrow> 'v kv_store \<Rightarrow> string list" where
  "FetchKeysExcluding biz app keys st =
     map (\<lambda>r. Key (kv_Spec r)) (filter (\<lambda>r. kv_where biz app r \<and> Key (kv_Spec r) \<notin> set keys
       \<and> kv_State r = KvStateDelete) (Kvs st))"

definition FetchIDsExcluding :: "nat \<Rightarrow> nat \<Rightarrow> nat list \<Rightarrow> 'v kv_store \<Rightarrow> nat list" where
  "FetchIDsExcluding biz app ids st =
     map kv_ID (filter (\<lambda>r. kv_where biz app r \<and> kv_ID r \<notin> set ids) (Kvs st))"

text \<open>The insertion of a structure whose parts are set; gorm fills in times that are zero.\<close>

definition stamp :: "int \<Rightarrow> revision \<Rightarrow> revision" where
  "stamp tm r = r\<lparr>CreatedAt := (if CreatedAt r = 0 then tm else CreatedAt r),
     RevUpdatedAt := (if RevUpdatedAt r = 0 then tm else RevUpdatedAt r)\<rparr>"

definition new_row :: "int \<Rightarrow> nat \<Rightarrow> kv \<Rightarrow> kv_row" where
  "new_row tm i k = \<lparr>kv_ID = i, kv_State = KvState k, kv_Spec = the (k_Spec k),
     kv_BizID = ka_BizID (the (k_Attachment k)), kv_AppID = ka_AppID (the (k_Attachment k)),
     kv_Rev = stamp tm (the (k_Revision k)), kv_Content = the (ContentSpec k)\<rparr>"

text \<open>Ids are taken in a transaction of their own: they stay used when the insertion fails.\<close>

definition kv_Create :: "int \<Rightarrow> kv \<Rightarrow> 'v kv_store \<Rightarrow> (kv_err + nat) \<times> 'v kv_store" where
  "kv_Create tm k st =
     sbind (slift (wrap_err KTbl (Kv_ValidateCreate k)) st) (\<lambda>_ st.
     let i = next_kv st; st1 = st\<lparr>next_kv := i + 1\<rparr> in
     sbind (sput (kv_write (Kvs st1 @ [new_row tm i k]) st1) st1) (\<lambda>_ st2. (Inr i, st2)))"

fun new_rows :: "int \<Rightarrow> nat \<Rightarrow> kv list \<Rightarrow> kv_row list" where
  "new_rows tm i [] = []"
| "new_rows tm i (k # ks) = new_row tm i k # new_rows tm (i + 1) ks"

definition BatchCreateWithTx :: "int \<Rightarrow> kv list \<Rightarrow> 'v tx \<Rightarrow> (kv_err + nat list) \<times> 'v tx" where
  "BatchCreateWithTx tm ks s =
     (if ks = [] then (Inr [], s)
      else let i = next_kv (snd s); s1 = out_tx (\<lambda>st. st\<lparr>next_kv := i + length ks\<rparr>) s in
        sbind (slift (check_all (\<lambda>k. wrap_err KTbl (Kv_ValidateCreate k)) ks) s1) (\<lambda>_ s1.
        sbind (in_tx (\<lambda>t. kv_write (Kvs t @ new_rows tm i ks) t) s1) (\<lambda>_ s2. (Inr [i ..< i + length ks], s2))))"

text \<open>The columns an update writes; the time of the update is gorm's.\<close>

definition set_columns :: "int \<Rightarrow> kv \<Rightarrow> kv_row \<Rightarrow> kv_row" where
  "set_columns tm k r =
     r\<lparr>kv_State := KvState k,
       kv_Spec := (kv_Spec r)\<lparr>Version := Version (the (k_Spec k)),
         CertificateExpirationDate := CertificateExpirationDate (the (k_Spec k))\<rparr>,
       kv_Rev := (kv_Rev r)\<lparr>Reviser := Reviser (the (k_Revision k)), RevUpdatedAt := tm\<rparr>,
       kv_Content := the (ContentSpec k)\<rparr>"

definition set_memo :: "kv \<Rightarrow> kv_row \<Rightarrow> kv_row" where
  "set_memo k r = r\<lparr>kv_Spec := (kv_Spec r)\<lparr>k_Memo := k_Memo (the (k_Spec k)), SecretHidden := SecretHidden (the (k_Spec k))\<rparr>\<rparr>"

definition update_where :: "kv \<Rightarrow> (kv_row \<Rightarrow> kv_row) \<Rightarrow> 'v kv_store \<Rightarrow> kv_err + 'v kv_store" where
  "update_where k f st =
     kv_write (map (\<lambda>r. if kv_BizID r = ka_BizID (the (k_Attachment k)) \<and> kv_ID r = k_ID k then f r else r) (Kvs st)) st"

definition kv_Update :: "int \<Rightarrow> kv \<Rightarrow> 'v kv_store \<Rightarrow> kv_err + 'v kv_store" where
  "kv_Update tm k st =
     rbind (wrap_err KTbl (Kv_ValidateUpdate k)) (\<lambda>_. update_where k (set_memo k \<circ> set_columns tm k) st)"

definition kv_UpdateWithTx :: "int \<Rightarrow> kv \<Rightarrow> 'v kv_store \<Rightarrow> kv_err + 'v kv_store" where
  "kv_UpdateWithTx tm k st =
     rbind (wrap_err KTbl (Kv_ValidateUpdate k)) (\<lambda>_. update_where k (set_columns tm k) st)"

text \<open>The row is looked up for the audit record before it is deleted.\<close>

definition kv_Delete :: "kv \<Rightarrow> 'v kv_store \<Rightarrow> kv_err + 'v kv_store" where
  "kv_Delete k st =
     rbind (wrap_err KTbl (Kv_ValidateDelete k)) (\<lambda>_.
     let a = the (k_Attachment k) in
     (case kv_GetByID (ka_BizID a) (ka_AppID a) (k_ID k) st of
        None \<Rightarrow> Inl KNotFound
      | Some _ \<Rightarrow> Inr (st\<lparr>Kvs := filter (\<lambda>r. \<not> (kv_BizID r = ka_BizID a \<and> kv_ID r = k_ID k)) (Kvs st)\<rparr>)))"

text \<open>\<open>BatchDeleteWithTx\<close> has the transaction as an argument, but deletes outside of it.\<close>

definition BatchDeleteWithTx :: "nat \<Rightarrow> nat \<Rightarrow> nat list \<Rightarrow> 'v tx \<Rightarrow> 'v tx" where
  "BatchDeleteWithTx biz app ids =
     out_tx (\<lambda>st. st\<lparr>Kvs := filter (\<lambda>r. \<not> (kv_where biz app r \<and> kv_ID r \<in> set ids)) (Kvs st)\<rparr>)"

text \<open>
  \<open>Save\<close>: an insertion that on a conflict of the primary key or of the unique index updates all
  columns but the primary key of the row in conflict.
\<close>

definition kv_save :: "int \<Rightarrow> kv \<Rightarrow> 'v kv_store \<Rightarrow> kv_err + 'v kv_store" where
  "kv_save tm k st =
     (let r = (new_row tm (k_ID k) k)\<lparr>kv_Rev := (the (k_Revision k))\<lparr>RevUpdatedAt := tm\<rparr>\<rparr> in
      if \<exists>q \<in> set (Kvs st). kv_ID q = kv_ID r
      then kv_write (map (\<lambda>q. if kv_ID q = kv_ID r then r else q) (Kvs st)) st
      else if \<exists>q \<in> set (Kvs st). kv_index q = kv_index r
      then Inr (st\<lparr>Kvs := map (\<lambda>q. if kv_index q = kv_index r then r\<lparr>kv_ID := kv_ID q\<rparr> else q) (Kvs st)\<rparr>)
      else Inr (st\<lparr>Kvs := Kvs st @ [r]\<rparr>))"

fun BatchUpdateWithTx :: "int \<Rightarrow> kv list \<Rightarrow> 'v kv_store \<Rightarrow> kv_err + 'v kv_store" where
  "BatchUpdateWithTx tm [] st = Inr st"
| "BatchUpdateWithTx tm (k # ks) st = rbind (kv_save tm k st) (BatchUpdateWithTx tm ks)"

definition DeleteByStateWithTx :: "nat \<Rightarrow> nat \<Rightarrow> kv_state \<Rightarrow> 'v kv_store \<Rightarrow> kv_err + 'v kv_store" where
  "DeleteByStateWithTx biz app state st =
     (if biz = 0 then Inl (BadParameter ''biz id'')
      else if app = 0 then Inl (BadParameter ''app id'')
      else if state = OtherKvState [] then Inl (BadParameter ''KvState'')
      else case find (\<lambda>r. kv_where biz app r \<and> kv_State r = state) (Kvs st) of
        None \<Rightarrow> Inl KNotFound
      | Some _ \<Rightarrow> Inr (st\<lparr>Kvs := filter (\<lambda>r. \<not> (kv_where biz app r \<and> kv_State r = state)) (Kvs st)\<rparr>))"

definition UpdateSelectedKVStates ::
    "nat \<Rightarrow> nat \<Rightarrow> kv_state list \<Rightarrow> kv_state \<Rightarrow> 'v kv_store \<Rightarrow> kv_err + 'v kv_store" where
  "UpdateSelectedKVStates biz app targets new st =
     (if biz = 0 then Inl (BadParameter ''biz id'')
      else if app = 0 then Inl (BadParameter ''app id'')
      else if targets = [] then Inr st
      else if new = OtherKvState [] then Inl (BadParameter ''newKVStates'')
      else kv_write (map (\<lambda>r. if kv_where biz app r \<and> kv_State r \<in> set targets then r\<lparr>kv_State := new\<rparr> else r) (Kvs st)) st)"


section \<open>internal/dal/dao/release.go, released\_kv.go, released\_hooks.go\<close>

text \<open>The release with the largest id.\<close>

definition GetReleaseLately :: "nat \<Rightarrow> nat \<Rightarrow> 'v kv_store \<Rightarrow> release_row option" where
  "GetReleaseLately biz app st =
     fold (\<lambda>r best. if r_AppID r = app \<and> r_BizID r = biz
         \<and> (case best of None \<Rightarrow> True | Some b \<Rightarrow> r_ID b < r_ID r) then Some r else best) (KvReleases st) None"

definition GetReleaseByName :: "nat \<Rightarrow> nat \<Rightarrow> string \<Rightarrow> 'v kv_store \<Rightarrow> release_row option" where
  "GetReleaseByName biz app name st =
     find (\<lambda>r. r_Name r = name \<and> r_AppID r = app \<and> r_BizID r = biz) (KvReleases st)"

definition rkv_Get :: "nat \<Rightarrow> nat \<Rightarrow> nat \<Rightarrow> string \<Rightarrow> 'v kv_store \<Rightarrow> rkv_row option" where
  "rkv_Get biz app rel key st =
     find (\<lambda>r. rkv_BizID r = biz \<and> rkv_AppID r = app \<and> rkv_ReleaseID r = rel \<and> Key (rkv_Spec r) = key) (ReleasedKvs st)"

definition new_rkv :: "nat \<Rightarrow> released_kv \<Rightarrow> rkv_row" where
  "new_rkv i r = \<lparr>rkv_ID = i, rkv_ReleaseID = rk_ReleaseID r, rkv_Spec = the (rk_Spec r),
     rkv_BizID = ka_BizID (the (rk_Attachment r)), rkv_AppID = ka_AppID (the (rk_Attachment r)),
     rkv_Rev = the (rk_Revision r), rkv_Content = the (rk_ContentSpec r)\<rparr>"

definition BulkCreateWithTx :: "released_kv list \<Rightarrow> 'v tx \<Rightarrow> (kv_err + unit) \<times> 'v tx" where
  "BulkCreateWithTx rs s =
     (if rs = [] then (Inr (), s)
      else sbind (slift (check_all (\<lambda>r. wrap_err KTbl (ReleasedKv_ValidateCreate r)) rs) s) (\<lambda>_ s.
        let i = next_rkv (snd s); s1 = out_tx (\<lambda>st. st\<lparr>next_rkv := i + length rs\<rparr>) s in
        in_tx (\<lambda>t. Inr (t\<lparr>ReleasedKvs := ReleasedKvs t @ map (\<lambda>(j, r). new_rkv (i + j) r) (enumerate 0 rs)\<rparr>)) s1))"

definition GetReleasedHook :: "nat \<Rightarrow> nat \<Rightarrow> nat \<Rightarrow> hook_type \<Rightarrow> 'v kv_store \<Rightarrow> kv_err + released_hook option" where
  "GetReleasedHook biz app rel tp st =
     (if biz = 0 then Inl (BadParameter ''bizID'')
      else if app = 0 then Inl (BadParameter ''appID'')
      else Inr (find (\<lambda>h. rh_BizID h = biz \<and> rh_AppID h = app \<and> rh_ReleaseID h = rel \<and> rh_HookType h = tp) (ReleasedHooks st)))"

section \<open>cmd/data-service/service/kv.go\<close>

record kv_req =
  kq_Key :: string
  kq_KvType :: data_type
  kq_Value :: string
  kq_Memo :: string
  kq_SecretType :: secret_type
  kq_SecretHidden :: bool
  kq_CertDate :: string

text \<open>\<open>KvSpec.KvSpec()\<close> of \<open>pkg/protocol/core/kv/convert.go\<close>.\<close>

definition KvSpec_of :: "kv_req \<Rightarrow> kv_spec" where
  "KvSpec_of k = \<lparr>Key = kq_Key k, k_Memo = kq_Memo k, KvType = kq_KvType k, Version = 0,
     SecretType = kq_SecretType k, SecretHidden = kq_SecretHidden k,
     CertificateExpirationDate = (case parse_rfc3339 (kq_CertDate k) of
        Some t \<Rightarrow> if t \<noteq> zero_time then Some t else None | None \<Rightarrow> None)\<rparr>"

definition content_of :: "'v kv_kit \<Rightarrow> string \<Rightarrow> content_spec" where
  "content_of kt value = \<lparr>Signature = SHA256 kt value, ByteSize = length value, Md5 = MD5 kt value\<rparr>"

definition checkKVTypeMatch :: "data_type \<Rightarrow> data_type \<Rightarrow> bool" where
  "checkKVTypeMatch kvType appKvType = (if appKvType = KvAny then True else kvType = appKvType)"

definition getAppConfigCnt :: "'v kv_kit \<Rightarrow> nat \<Rightarrow> nat" where
  "getAppConfigCnt kt biz =
     (case map_of (LimitSpec kt) (itoa_nat biz) of
        Some n \<Rightarrow> if 0 < n then n else LimitDefault kt
      | None \<Rightarrow> LimitDefault kt)"

definition checkKVConfigItemExceedsAppLimit ::
    "'v kv_kit \<Rightarrow> nat \<Rightarrow> nat \<Rightarrow> int \<Rightarrow> int \<Rightarrow> 'v kv_store \<Rightarrow> kv_err + unit" where
  "checkKVConfigItemExceedsAppLimit kt biz app addQuantity subQuantity st =
     ensure (\<not> int (CountNumberUnDeleted biz app st) - subQuantity + addQuantity > int (getAppConfigCnt kt biz))
       (ExceedsLimit (getAppConfigCnt kt biz))"

text \<open>A write to the secret store is outside of every transaction.\<close>

definition vault_put :: "('v \<Rightarrow> vault_err + int \<times> 'v) \<Rightarrow> 'v kv_store \<Rightarrow> (kv_err + int) \<times> 'v kv_store" where
  "vault_put f st =
     (case f (Vault st) of Inl e \<Rightarrow> (Inl (KVault e), st) | Inr (n, v) \<Rightarrow> (Inr n, st\<lparr>Vault := v\<rparr>))"

definition get_app :: "nat \<Rightarrow> nat \<Rightarrow> 'v kv_store \<Rightarrow> kv_err + kv_app" where
  "get_app biz app st =
     (case find (\<lambda>a. ap_ID a = app \<and> ap_BizID a = biz) (KvApps st) of None \<Rightarrow> Inl KNotFound | Some a \<Rightarrow> Inr a)"

definition CreateKv :: "'v kv_kit \<Rightarrow> nat \<Rightarrow> nat \<Rightarrow> kv_req \<Rightarrow> 'v kv_store \<Rightarrow> (kv_err + nat) \<times> 'v kv_store" where
  "CreateKv kt biz app req st =
     sbind (slift (checkKVConfigItemExceedsAppLimit kt biz app 1 0 st) st) (\<lambda>_ st.
     sbind (slift (ensure (GetByKvState biz app (kq_Key req) [KvStateAdd, KvStateUnchange, KvStateRevise] st = None)
       (KExists (kq_Key req))) st) (\<lambda>_ st.
     sbind (slift (get_app biz app st) st) (\<lambda>a st.
     sbind (slift (ensure (checkKVTypeMatch (kq_KvType req) (DataType a)) KTypeMismatch) st) (\<lambda>_ st.
     sbind (vault_put (UpsertKv (Api kt) (Dec kt) biz app (kq_Key req) (kq_KvType req) (kq_Value req)) st) (\<lambda>version st.
     kv_Create (Now kt)
       \<lparr>k_ID = 0, KvState = KvStateAdd,
        k_Spec = Some ((KvSpec_of req)\<lparr>Version := word_of_int version\<rparr>),
        k_Attachment = Some \<lparr>ka_BizID = biz, ka_AppID = app\<rparr>,
        k_Revision = Some \<lparr>Creator = KvUser kt, Reviser = KvUser kt, CreatedAt = 0, RevUpdatedAt = 0\<rparr>,
        ContentSpec = Some (content_of kt (kq_Value req))\<rparr> st)))))"

definition UpdateKv :: "'v kv_kit \<Rightarrow> nat \<Rightarrow> nat \<Rightarrow> kv_req \<Rightarrow> 'v kv_store \<Rightarrow> (kv_err + unit) \<times> 'v kv_store" where
  "UpdateKv kt biz app req st =
     (case GetByKvState biz app (kq_Key req) [KvStateAdd, KvStateUnchange, KvStateRevise] st of
        None \<Rightarrow> (Inl KNotFound, st)
      | Some r \<Rightarrow>
          sbind (vault_put (UpsertKv (Api kt) (Dec kt) biz app (Key (kv_Spec r)) (KvType (kv_Spec r)) (kq_Value req)) st)
            (\<lambda>version st.
          sput (kv_Update (Now kt) ((of_row r)\<lparr>
              KvState := (if kv_State r = KvStateUnchange then KvStateRevise else kv_State r),
              k_Revision := Some \<lparr>Creator = [], Reviser = KvUser kt, CreatedAt = 0, RevUpdatedAt = Now kt\<rparr>,
              k_Spec := Some ((kv_Spec r)\<lparr>Version := word_of_int version, k_Memo := kq_Memo req,
                SecretHidden := kq_SecretHidden req,
                CertificateExpirationDate := CertificateExpirationDate (KvSpec_of req)\<rparr>),
              ContentSpec := Some (content_of kt (kq_Value req))\<rparr>) st) st))"

definition DeleteKv :: "'v kv_kit \<Rightarrow> nat \<Rightarrow> nat \<Rightarrow> nat \<Rightarrow> 'v kv_store \<Rightarrow> (kv_err + unit) \<times> 'v kv_store" where
  "DeleteKv kt biz app i st =
     (case kv_GetByID biz app i st of
        None \<Rightarrow> (Inl KNotFound, st)
      | Some r \<Rightarrow>
          if kv_State r = KvStateAdd then sput (kv_Delete (of_row r) st) st
          else sput (kv_Update (Now kt) ((of_row r)\<lparr>KvState := KvStateDelete,
                 k_Revision := Some ((kv_Rev r)\<lparr>Reviser := KvUser kt\<rparr>)\<rparr>) st) st)"


text \<open>The types of the keys that exist, as a map: the last row of a key counts.\<close>

definition checkKVConfigItemTypes :: "kv_req list \<Rightarrow> kv_row list \<Rightarrow> kv_err + unit" where
  "checkKVConfigItemTypes reqs kvs =
     check_all (\<lambda>v.
       case find (\<lambda>r. Key (kv_Spec r) = kq_Key v) (rev kvs) of
         None \<Rightarrow> Inr ()
       | Some r \<Rightarrow> ensure (kq_KvType v = KvType (kv_Spec r)) (KvTypeIncorrect (kq_Key v))) reqs"

definition clearDraftKVStore ::
    "'v kv_kit \<Rightarrow> nat \<Rightarrow> nat \<Rightarrow> bool \<Rightarrow> kv_row list \<Rightarrow> 'v tx \<Rightarrow> (kv_err + unit) \<times> 'v tx" where
  "clearDraftKVStore kt biz app replaceAll kvs s =
     (if \<not> replaceAll then (Inr (), s)
      else let
        reallyDelete = map kv_ID (filter (\<lambda>v. kv_State v = KvStateAdd) kvs);
        fakeDelete = map (\<lambda>v. (of_row v)\<lparr>KvState := KvStateDelete,
            k_Revision := Some ((kv_Rev v)\<lparr>Reviser := KvUser kt, RevUpdatedAt := Now kt\<rparr>)\<rparr>)
          (filter (\<lambda>v. kv_State v \<noteq> KvStateAdd) kvs)
      in in_tx (BatchUpdateWithTx (Now kt) fakeDelete) (BatchDeleteWithTx biz app reallyDelete s))"

text \<open>
  \<open>doBatchUpsertVault\<close> starts a task per entry and waits for all of them, failed or not. \<open>order\<close> is
  the order in which the tasks run; the first error is returned, the last version of a key counts.
\<close>

fun put_all :: "'v kv_kit \<Rightarrow> nat \<Rightarrow> nat \<Rightarrow> kv_req list \<Rightarrow> 'v \<Rightarrow> vault_err option \<times> (string, int) gomap \<times> 'v" where
  "put_all kt biz app [] v = (None, [], v)"
| "put_all kt biz app (k # ks) v =
     (case UpsertKv (Api kt) (Dec kt) biz app (kq_Key k) (kq_KvType k) (kq_Value k) v of
        Inl e \<Rightarrow> (case put_all kt biz app ks v of (_, m, v') \<Rightarrow> (Some e, m, v'))
      | Inr (n, v1) \<Rightarrow> (case put_all kt biz app ks v1 of (e, m, v') \<Rightarrow> (e, m @ [(kq_Key k, n)], v')))"

definition doBatchUpsertVault ::
    "'v kv_kit \<Rightarrow> nat \<Rightarrow> nat \<Rightarrow> kv_req list \<Rightarrow> 'v tx \<Rightarrow> (kv_err + (string, int) gomap) \<times> 'v tx" where
  "doBatchUpsertVault kt biz app order s =
     (case put_all kt biz app order (Vault (fst s)) of
        (e, m, v) \<Rightarrow> (case e of Some e \<Rightarrow> Inl (KVault e) | None \<Rightarrow> Inr m, out_tx (\<lambda>st. st\<lparr>Vault := v\<rparr>) s))"

text \<open>The loop of \<open>checkKvs\<close>: what is to be updated and what is to be created, in order.\<close>

fun check_kvs ::
    "'v kv_kit \<Rightarrow> nat \<Rightarrow> nat \<Rightarrow> (string, int) gomap \<Rightarrow> kv_row list \<Rightarrow> string list \<Rightarrow> kv_req list
      \<Rightarrow> kv_err + kv list \<times> kv list" where
  "check_kvs kt biz app versions editingKvs seen [] = Inr ([], [])"
| "check_kvs kt biz app versions editingKvs seen (q # qs) =
     (if kq_Key q \<in> set seen then Inl (DuplicateKeys (kq_Key q))
      else case map_of versions (kq_Key q) of
        None \<Rightarrow> Inl SaveFailed
      | Some version \<Rightarrow>
          rbind (check_kvs kt biz app versions editingKvs (kq_Key q # seen) qs) (\<lambda>(toUpdate, toCreate).
          let k = \<lparr>k_ID = 0, KvState = KvStateAdd,
                k_Spec = Some ((KvSpec_of q)\<lparr>Version := word_of_int version\<rparr>),
                k_Attachment = Some \<lparr>ka_BizID = biz, ka_AppID = app\<rparr>,
                k_Revision = Some \<lparr>Creator = KvUser kt, Reviser = KvUser kt, CreatedAt = Now kt, RevUpdatedAt = Now kt\<rparr>,
                ContentSpec = Some (content_of kt (kq_Value q))\<rparr>
          in case find (\<lambda>r. Key (kv_Spec r) = kq_Key q) (rev editingKvs) of
               Some r \<Rightarrow> Inr (k\<lparr>k_ID := kv_ID r, KvState := kv_State r, k_Revision := Some (kv_Rev r)\<rparr> # toUpdate, toCreate)
             | None \<Rightarrow> Inr (toUpdate, k # toCreate)))"

definition MergeAndDeduplicate :: "nat list \<Rightarrow> nat list \<Rightarrow> nat list" where
  "MergeAndDeduplicate a b = dedup_from [] (a @ b)"

definition BatchUpsertKvs ::
    "'v kv_kit \<Rightarrow> kv_req list \<Rightarrow> nat \<Rightarrow> nat \<Rightarrow> kv_req list \<Rightarrow> bool \<Rightarrow> 'v kv_store \<Rightarrow> (kv_err + nat list) \<times> 'v kv_store" where
  "BatchUpsertKvs kt order biz app reqs replaceAll st =
     sbind (slift (get_app biz app st) st) (\<lambda>a st.
     sbind (slift (ensure (ConfigType a = KV) NotKvApp) st) (\<lambda>_ st.
     sbind (slift (check_all (\<lambda>q. ensure (checkKVTypeMatch (kq_KvType q) (DataType a)) KTypeMismatch) reqs) st) (\<lambda>_ st.
     sbind (slift (kv_ListAllByAppID app biz live_states st) st) (\<lambda>kvs st.
     run_tx (\<lambda>s.
       sbind (slift (checkKVConfigItemTypes reqs kvs) s) (\<lambda>_ s.
       sbind (clearDraftKVStore kt biz app replaceAll kvs s) (\<lambda>_ s.
       sbind (doBatchUpsertVault kt biz app order s) (\<lambda>versionMap s.
       sbind (slift (kv_ListAllByAppID app biz live_states (snd s)) s) (\<lambda>editingKvs s.
       sbind (slift (check_kvs kt biz app versionMap editingKvs [] reqs) s) (\<lambda>(toUpdate, toCreate) s.
       sbind (slift (checkKVConfigItemExceedsAppLimit kt biz app (int (length toCreate)) (int (length toUpdate)) (fst s)) s) (\<lambda>_ s.
       sbind (BatchCreateWithTx (Now kt) toCreate s) (\<lambda>createIds s.
       sbind (in_tx (BatchUpdateWithTx (Now kt) toUpdate) s) (\<lambda>_ s.
       (Inr (MergeAndDeduplicate createIds (map k_ID toUpdate)), s)))))))))) st))))"

text \<open>The draft with the value of the last release: the read and the write of the secret are outside of the transaction.\<close>

definition getLatestReleasedKV ::
    "'v kv_kit \<Rightarrow> nat \<Rightarrow> nat \<Rightarrow> kv_row \<Rightarrow> 'v kv_store \<Rightarrow> (kv_err + kv) \<times> 'v kv_store" where
  "getLatestReleasedKV kt biz app r st =
     (case GetReleaseLately biz app st of
        None \<Rightarrow> (Inl KNotFound, st)
      | Some rel \<Rightarrow>
          (case rkv_Get biz app (r_ID rel) (Key (kv_Spec r)) st of
             None \<Rightarrow> (Inl KNotFound, st)
           | Some rk \<Rightarrow>
               sbind (slift (wrap_err KVault (GetRKv (Api kt) biz app (Key (kv_Spec r)) (r_ID rel)
                 (uint (Version (rkv_Spec rk))) (Vault st))) st) (\<lambda>(t, kvValue) st.
               sbind (vault_put (UpsertKv (Api kt) (Dec kt) biz app (Key (kv_Spec r)) (KvType (kv_Spec r)) kvValue) st)
                 (\<lambda>version st.
               (Inr ((of_row r)\<lparr>KvState := KvStateUnchange,
                   k_Spec := Some ((kv_Spec r)\<lparr>Version := word_of_int version,
                     CertificateExpirationDate := CertificateExpirationDate (rkv_Spec rk)\<rparr>),
                   k_Revision := Some \<lparr>Creator = [], Reviser = KvUser kt, CreatedAt = 0, RevUpdatedAt = Now kt\<rparr>,
                   ContentSpec := Some (content_of kt kvValue)\<rparr>), st)))))"

text \<open>Outside of the transaction that is open.\<close>

definition outside :: "('v kv_store \<Rightarrow> (kv_err + 'a) \<times> 'v kv_store) \<Rightarrow> 'v tx \<Rightarrow> (kv_err + 'a) \<times> 'v tx" where
  "outside f s = (case f (fst s) of (r, c) \<Rightarrow> (r, c, (snd s)\<lparr>Vault := Vault c\<rparr>))"

definition UnDeleteKv :: "'v kv_kit \<Rightarrow> nat \<Rightarrow> nat \<Rightarrow> string \<Rightarrow> 'v kv_store \<Rightarrow> (kv_err + unit) \<times> 'v kv_store" where
  "UnDeleteKv kt biz app key st =
     (case GetByKvState biz app key [KvStateDelete] st of
        None \<Rightarrow> (Inl KNotFound, st)
      | Some r \<Rightarrow>
          run_tx (\<lambda>s.
            sbind (case GetByKvState biz app key [KvStateAdd] st of
                None \<Rightarrow> (Inr (), s)
              | Some addKv \<Rightarrow> if 0 < kv_ID addKv then in_tx (kv_Delete (of_row addKv)) s else (Inr (), s)) (\<lambda>_ s.
            sbind (outside (getLatestReleasedKV kt biz app r) s) (\<lambda>toUpdate s.
            in_tx (kv_UpdateWithTx (Now kt) toUpdate) s))) st)"

definition UndoKv :: "'v kv_kit \<Rightarrow> nat \<Rightarrow> nat \<Rightarrow> string \<Rightarrow> 'v kv_store \<Rightarrow> (kv_err + unit) \<times> 'v kv_store" where
  "UndoKv kt biz app key st =
     (case GetByKvState biz app key [KvStateRevise] st of
        None \<Rightarrow> (Inl KNotFound, st)
      | Some r \<Rightarrow>
          sbind (getLatestReleasedKV kt biz app r st) (\<lambda>toUpdate st.
          sput (kv_Update (Now kt) toUpdate st) st))"

section \<open>cmd/data-service/service/release.go\<close>

text \<open>A draft with its value, as \<open>genCreateKv\<close> reads it.\<close>

fun genCreateKv :: "'v kv_kit \<Rightarrow> nat \<Rightarrow> nat \<Rightarrow> 'v \<Rightarrow> kv_row list \<Rightarrow> kv_err + (kv_row \<times> string) list" where
  "genCreateKv kt biz app v [] = Inr []"
| "genCreateKv kt biz app v (r # rs) =
     rbind (wrap_err KVault (GetKvByVersion (Api kt) biz app (Key (kv_Spec r)) (uint (Version (kv_Spec r))) v)) (\<lambda>(t, value).
     rbind (genCreateKv kt biz app v rs) (\<lambda>kvs. Inr ((r, value) # kvs)))"

fun doBatchReleasedVault ::
    "'v kv_kit \<Rightarrow> nat \<Rightarrow> (kv_row \<times> string) list \<Rightarrow> 'v kv_store \<Rightarrow> (kv_err + (string, int) gomap) \<times> 'v kv_store" where
  "doBatchReleasedVault kt rel [] st = (Inr [], st)"
| "doBatchReleasedVault kt rel ((r, value) # kvs) st =
     sbind (vault_put (CreateRKv (Api kt) (Dec kt) (kv_BizID r) (kv_AppID r) rel (Key (kv_Spec r)) (KvType (kv_Spec r)) value) st)
       (\<lambda>version st.
     sbind (doBatchReleasedVault kt rel kvs st) (\<lambda>m st. (Inr (m @ [(Key (kv_Spec r), version)]), st)))"

text \<open>
  \<open>RKvs\<close> of \<open>pkg/protocol/core/released-kv/convert.go\<close>; times go through their text, which keeps the
  seconds and drops the zero time.
\<close>

definition pb_cert :: "int option \<Rightarrow> int option" where
  "pb_cert d = (case d of Some t \<Rightarrow> if t \<noteq> zero_time then Some t else None | None \<Rightarrow> None)"

definition RKvs :: "(kv_row \<times> string) list \<Rightarrow> (string, int) gomap \<Rightarrow> nat \<Rightarrow> released_kv list" where
  "RKvs kvs versionMap rel = map (\<lambda>(r, value).
     \<lparr>rk_ID = 0, rk_ReleaseID = rel,
      rk_Spec = Some ((kv_Spec r)\<lparr>
        Version := word_of_int (case map_of versionMap (Key (kv_Spec r)) of None \<Rightarrow> 0 | Some n \<Rightarrow> n),
        CertificateExpirationDate := pb_cert (CertificateExpirationDate (kv_Spec r))\<rparr>),
      rk_Attachment = Some \<lparr>ka_BizID = kv_BizID r, ka_AppID = kv_AppID r\<rparr>,
      rk_Revision = Some (kv_Rev r), rk_ContentSpec = Some (kv_Content r)\<rparr>) kvs"

definition cleanUpKV :: "nat \<Rightarrow> nat \<Rightarrow> 'v tx \<Rightarrow> (kv_err + unit) \<times> 'v tx" where
  "cleanUpKV biz app s =
     sbind (slift (kv_ListAllByAppID app biz [KvStateDelete] (fst s)) s) (\<lambda>result s.
     sbind (if result \<noteq> [] then in_tx (DeleteByStateWithTx biz app KvStateDelete) s else (Inr (), s)) (\<lambda>_ s.
     in_tx (UpdateSelectedKVStates biz app [KvStateAdd, KvStateRevise] KvStateUnchange) s))"

definition doKvOperations :: "'v kv_kit \<Rightarrow> nat \<Rightarrow> nat \<Rightarrow> nat \<Rightarrow> 'v tx \<Rightarrow> (kv_err + unit) \<times> 'v tx" where
  "doKvOperations kt app biz rel s =
     sbind (slift (kv_ListAllByAppID app biz [KvStateAdd, KvStateRevise, KvStateUnchange] (fst s)) s) (\<lambda>details s.
     sbind (slift (genCreateKv kt biz app (Vault (fst s)) details) s) (\<lambda>kvs s.
     sbind (outside (doBatchReleasedVault kt rel kvs) s) (\<lambda>versionMap s.
     sbind (BulkCreateWithTx (RKvs kvs versionMap rel) s) (\<lambda>_ s.
     cleanUpKV biz app s))))"

record release_req =
  rq_Name :: string
  rq_Memo :: string
  rq_Deprecated :: bool
  rq_PublishNum :: nat

definition ReleaseSpec_Validate :: "release_req \<Rightarrow> tbl_err + unit" where
  "ReleaseSpec_Validate r =
     rbind (wrap_err BadValue (ValidateReleaseName (rq_Name r))) (\<lambda>_. wrap_err BadValue (ValidateMemo (rq_Memo r) False))"

definition ReleaseAttachment_Validate :: "nat \<Rightarrow> nat \<Rightarrow> tbl_err + unit" where
  "ReleaseAttachment_Validate biz app =
     rbind (ensure (0 < biz) (InvalidID ''biz id'')) (\<lambda>_. ensure (0 < app) (InvalidID ''app id''))"

definition Release_ValidateCreate :: "nat \<Rightarrow> release_req \<Rightarrow> nat \<Rightarrow> nat \<Rightarrow> created_revision \<Rightarrow> tbl_err + unit" where
  "Release_ValidateCreate i spec biz app cr =
     rbind (ensure (i = 0) IDShouldNotBeSet) (\<lambda>_.
     rbind (ReleaseSpec_Validate spec) (\<lambda>_.
     rbind (ReleaseAttachment_Validate biz app) (\<lambda>_.
     CreatedRevision_Validate cr)))"

definition release_CreateWithTx :: "'v kv_kit \<Rightarrow> nat \<Rightarrow> nat \<Rightarrow> release_req \<Rightarrow> 'v tx \<Rightarrow> (kv_err + nat) \<times> 'v tx" where
  "release_CreateWithTx kt biz app spec s =
     sbind (slift (wrap_err KTbl (Release_ValidateCreate 0 spec biz app \<lparr>cr_Creator = KvUser kt, cr_CreatedAt = 0\<rparr>)) s) (\<lambda>_ s.
     sbind (slift (get_app biz app (fst s)) s) (\<lambda>_ s.
     let i = next_release (snd s); s1 = out_tx (\<lambda>st. st\<lparr>next_release := i + 1\<rparr>) s in
     sbind (in_tx (\<lambda>t. Inr (t\<lparr>KvReleases := KvReleases t @ [\<lparr>r_ID = i, r_Name = rq_Name spec, r_BizID = biz, r_AppID = app,
         r_Deprecated = rq_Deprecated spec, PublishNum = rq_PublishNum spec, FullyReleased = False\<rparr>]\<rparr>)) s1) (\<lambda>_ s2.
     (Inr i, s2))))"

definition ScriptType_Validate :: "string \<Rightarrow> tbl_err + unit" where
  "ScriptType_Validate s =
     ensure (s \<in> set [[], ''shell'', ''python'', ''bat'', ''powershell'']) (Unsupported ''hook type'')"

definition ReleasedHook_ValidateCreate :: "released_hook \<Rightarrow> tbl_err + unit" where
  "ReleasedHook_ValidateCreate c =
     rbind (ensure (rh_ID c = 0) IDShouldNotBeSet) (\<lambda>_.
     rbind (ensure (0 < rh_AppID c) (NotSet ''app id'')) (\<lambda>_.
     rbind (ensure (0 < rh_HookID c) (NotSet ''hook id'')) (\<lambda>_.
     rbind (ensure (rh_HookName c \<noteq> []) (NotSet ''hook name'')) (\<lambda>_.
     rbind (ensure (0 < rh_HookRevisionID c) (NotSet ''hook revision id'')) (\<lambda>_.
     rbind (ensure (rh_HookRevisionName c \<noteq> []) (NotSet ''hook revision name'')) (\<lambda>_.
     rbind (ensure (rh_Content c \<noteq> []) (NotSet ''content'')) (\<lambda>_.
     rbind (ScriptType_Validate (rh_ScriptType c)) (\<lambda>_.
     rbind (ensure (0 < rh_BizID c) (NotSet ''biz id'')) (\<lambda>_.
     ensure (rh_Reviser c \<noteq> []) (NotSet ''reviser''))))))))))"

text \<open>
  The hook of the drafts, release 0, is copied to the new release. The table holds the content in
  base64, which is decoded and encoded again.
\<close>

definition copy_hook :: "nat \<Rightarrow> nat \<Rightarrow> nat \<Rightarrow> hook_type \<Rightarrow> 'v tx \<Rightarrow> (kv_err + unit) \<times> 'v tx" where
  "copy_hook biz app rel tp s =
     sbind (slift (GetReleasedHook biz app 0 tp (fst s)) s) (\<lambda>h s.
     case h of
       None \<Rightarrow> (Inr (), s)
     | Some h \<Rightarrow>
         let h' = h\<lparr>rh_ID := 0, rh_ReleaseID := rel\<rparr> in
         sbind (slift (wrap_err KTbl (ReleasedHook_ValidateCreate h')) s) (\<lambda>_ s.
         let i = next_hook (snd s); s1 = out_tx (\<lambda>st. st\<lparr>next_hook := i + 1\<rparr>) s in
         in_tx (\<lambda>t. Inr (t\<lparr>ReleasedHooks := ReleasedHooks t @ [h'\<lparr>rh_ID := i\<rparr>]\<rparr>)) s1))"

definition checkForExpiredCertificates :: "'v kv_kit \<Rightarrow> nat \<Rightarrow> nat \<Rightarrow> 'v kv_store \<Rightarrow> nat" where
  "checkForExpiredCertificates kt biz app st = length (FindNearExpiryCertKvs (Now kt) biz app 0 st)"

text \<open>\<open>file\<close> is what \<open>CreateRelease\<close> does for the configuration files of an application of type file.\<close>

definition CreateRelease ::
    "'v kv_kit \<Rightarrow> (nat \<Rightarrow> 'v tx \<Rightarrow> (kv_err + unit) \<times> 'v tx) \<Rightarrow> nat \<Rightarrow> nat \<Rightarrow> release_req \<Rightarrow> 'v kv_store
      \<Rightarrow> (kv_err + nat) \<times> 'v kv_store" where
  "CreateRelease kt file biz app req st =
     (case find (\<lambda>a. ap_ID a = app) (KvApps st) of
        None \<Rightarrow> (Inl KNotFound, st)
      | Some a \<Rightarrow>
          if GetReleaseByName biz app (rq_Name req) st \<noteq> None then (Inl (ReleaseExists (rq_Name req)), st)
          else run_tx (\<lambda>s.
            sbind (release_CreateWithTx kt biz app req s) (\<lambda>rel s.
            sbind (copy_hook biz app rel PreHook s) (\<lambda>_ s.
            sbind (copy_hook biz app rel PostHook s) (\<lambda>_ s.
            sbind (case ConfigType a of
                File \<Rightarrow> file rel s
              | KV \<Rightarrow>
                  if checkForExpiredCertificates kt biz app (fst s) > 0 then (Inl CertificateExpired, s)
                  else doKvOperations kt app biz rel s
              | _ \<Rightarrow> (Inr (), s)) (\<lambda>_ s.
            (Inr rel, s)))))) st)"

definition ListAllByReleaseID :: "released_group list \<Rightarrow> nat \<Rightarrow> nat \<Rightarrow> released_group list" where
  "ListAllByReleaseID rgs rel biz = filter (\<lambda>g. rg_ReleaseID g = rel \<and> rg_BizID g = biz) rgs"

definition UpdateDeprecated :: "nat \<Rightarrow> nat \<Rightarrow> nat \<Rightarrow> bool \<Rightarrow> 'v kv_store \<Rightarrow> (kv_err + unit) \<times> 'v kv_store" where
  "UpdateDeprecated biz app rel deprecated st =
     (case find (\<lambda>r. r_ID r = rel \<and> r_AppID r = app \<and> r_BizID r = biz) (KvReleases st) of
        None \<Rightarrow> (Inl KNotFound, st)
      | Some _ \<Rightarrow> (Inr (), st\<lparr>KvReleases := map (\<lambda>r. if r_ID r = rel \<and> r_AppID r = app \<and> r_BizID r = biz
             then r\<lparr>r_Deprecated := deprecated\<rparr> else r) (KvReleases st)\<rparr>))"

text \<open>\<open>rgs\<close> is the table of released groups.\<close>

definition DeprecateRelease ::
    "released_group list \<Rightarrow> nat \<Rightarrow> nat \<Rightarrow> nat \<Rightarrow> 'v kv_store \<Rightarrow> (kv_err + unit) \<times> 'v kv_store" where
  "DeprecateRelease rgs biz app rel st =
     (if ListAllByReleaseID rgs rel biz \<noteq> [] then (Inl (BadParameter ''published''), st)
      else UpdateDeprecated biz app rel True st)"

definition UnDeprecateRelease :: "nat \<Rightarrow> nat \<Rightarrow> nat \<Rightarrow> 'v kv_store \<Rightarrow> (kv_err + unit) \<times> 'v kv_store" where
  "UnDeprecateRelease biz app rel st = UpdateDeprecated biz app rel False st"

definition deleteReleaseRelatedResources ::
    "(nat \<Rightarrow> 'v kv_store \<Rightarrow> kv_err + 'v kv_store) \<Rightarrow> nat \<Rightarrow> nat \<Rightarrow> nat \<Rightarrow> kv_app \<Rightarrow> 'v kv_store \<Rightarrow> kv_err + 'v kv_store" where
  "deleteReleaseRelatedResources file biz app rel a st =
     (case ConfigType a of
        File \<Rightarrow> file rel st
      | KV \<Rightarrow>
          if biz = 0 \<or> app = 0 \<or> rel = 0 then Inl (BadParameter ''id'')
          else Inr (st\<lparr>ReleasedKvs := filter (\<lambda>r. \<not> (rkv_BizID r = biz \<and> rkv_AppID r = app \<and> rkv_ReleaseID r = rel)) (ReleasedKvs st)\<rparr>)
      | _ \<Rightarrow> Inr st)"

definition DeleteRelease ::
    "(nat \<Rightarrow> 'v kv_store \<Rightarrow> kv_err + 'v kv_store) \<Rightarrow> nat \<Rightarrow> nat \<Rightarrow> nat \<Rightarrow> 'v kv_store \<Rightarrow> (kv_err + unit) \<times> 'v kv_store" where
  "DeleteRelease file biz app rel st =
     (case find (\<lambda>r. r_ID r = rel \<and> r_AppID r = app \<and> r_BizID r = biz) (KvReleases st) of
        None \<Rightarrow> (Inl KNotFound, st)
      | Some r \<Rightarrow>
          if \<not> r_Deprecated r then (Inl (BadParameter ''not deprecated''), st)
          else sbind (slift (get_app biz app st) st) (\<lambda>a st.
            run_tx (\<lambda>s.
              sbind (in_tx (deleteReleaseRelatedResources file biz app rel a) s) (\<lambda>_ s.
              in_tx (\<lambda>t. Inr (t\<lparr>KvReleases := filter (\<lambda>r. \<not> (r_ID r = rel \<and> r_AppID r = app \<and> r_BizID r = biz)) (KvReleases t)\<rparr>)) s)) st))"

section \<open>cmd/data-service/service/released\_kv.go\<close>

definition GetReleasedKv :: "'v kv_kit \<Rightarrow> nat \<Rightarrow> nat \<Rightarrow> nat \<Rightarrow> string \<Rightarrow> 'v kv_store \<Rightarrow> kv_err + data_type \<times> string" where
  "GetReleasedKv kt biz app rel key st =
     (case rkv_Get biz app rel key st of
        None \<Rightarrow> Inl KNotFound
      | Some rk \<Rightarrow> wrap_err KVault (GetRKv (Api kt) biz app key rel (uint (Version (rkv_Spec rk))) (Vault st)))"

text \<open>The value of a draft, as \<open>getKv\<close> reads it.\<close>

definition getKv :: "'v kv_kit \<Rightarrow> nat \<Rightarrow> nat \<Rightarrow> 32 word \<Rightarrow> string \<Rightarrow> 'v kv_store \<Rightarrow> kv_err + data_type \<times> string" where
  "getKv kt biz app version key st = wrap_err KVault (GetKvByVersion (Api kt) biz app key (uint version) (Vault st))"

end
