(* ===== verification/KvProps.thy ===== *)
theory KvProps
  imports KvService Transition
begin

text \<open>
  The life cycle of a key: a key of an application has at most one draft that is not deleted, and at
  most one deleted draft, which can be restored; if it has both, the first is new. The handlers keep
  this invariant, so the unique index of the table is never violated, and refine two sets of keys:
  those that are drafts and those that were in the last release.
\<close>

section \<open>The skeleton of the table\<close>

type_synonym kv_key = "nat \<times> nat \<times> string"

definition kv_key :: "kv_row \<Rightarrow> kv_key" where
  "kv_key r = (kv_BizID r, kv_AppID r, Key (kv_Spec r))"

type_synonym skel = "nat \<times> kv_key \<times> kv_state"

definition skel :: "kv_row \<Rightarrow> skel" where
  "skel r = (kv_ID r, kv_key r, kv_State r)"

abbreviation skels :: "kv_row list \<Rightarrow> skel list" where
  "skels rs \<equiv> map skel rs"

definition known_state :: "kv_state \<Rightarrow> bool" where
  "known_state s \<longleftrightarrow> s \<in> {KvStateAdd, KvStateDelete, KvStateRevise, KvStateUnchange}"

text \<open>Two drafts of one key: one is new, the other is deleted.\<close>

definition compat :: "kv_state \<Rightarrow> kv_state \<Rightarrow> bool" where
  "compat s t \<longleftrightarrow> (s = KvStateAdd \<and> t = KvStateDelete) \<or> (s = KvStateDelete \<and> t = KvStateAdd)"

definition skel_ok :: "(nat \<times> 'k \<times> kv_state) list \<Rightarrow> bool" where
  "skel_ok ks \<longleftrightarrow> distinct (map fst ks)
     \<and> (\<forall>(i, k, s) \<in> set ks. 0 < i \<and> known_state s)
     \<and> (\<forall>(i, k, s) \<in> set ks. \<forall>(j, l, t) \<in> set ks. i \<noteq> j \<longrightarrow> k = l \<longrightarrow> compat s t)"

lemma compat_sym: "compat s t = compat t s"
  by (auto simp: compat_def)

lemma skel_ok_parts:
  assumes "skel_ok ks"
  shows "distinct (map fst ks)"
    and "(i, k, s) \<in> set ks \<Longrightarrow> 0 < i \<and> known_state s"
    and "(i, k, s) \<in> set ks \<Longrightarrow> (j, k, t) \<in> set ks \<Longrightarrow> i \<noteq> j \<Longrightarrow> compat s t"
  using assms unfolding skel_ok_def by fastforce+

lemma skel_okI:
  assumes "distinct (map fst ks)" "\<And>i k s. (i, k, s) \<in> set ks \<Longrightarrow> 0 < i \<and> known_state s"
    "\<And>i j k s t. (i, k, s) \<in> set ks \<Longrightarrow> (j, k, t) \<in> set ks \<Longrightarrow> i \<noteq> j \<Longrightarrow> compat s t"
  shows "skel_ok ks"
  using assms unfolding skel_ok_def by auto

lemma skel_ok_filter: "skel_ok ks \<Longrightarrow> skel_ok (filter P ks)"
  unfolding skel_ok_def by (auto simp: distinct_map_filter)

text \<open>A new row, and a row that changes its state.\<close>

lemma skel_ok_append:
  assumes "skel_ok ks" "i \<notin> fst ` set ks" "0 < i" "known_state s"
    "\<And>j t. (j, k, t) \<in> set ks \<Longrightarrow> compat s t"
  shows "skel_ok (ks @ [(i, k, s)])"
proof (rule skel_okI)
  show "distinct (map fst (ks @ [(i, k, s)]))" using skel_ok_parts(1) [OF assms(1)] assms(2) by simp
  show "0 < a \<and> known_state c" if "(a, b, c) \<in> set (ks @ [(i, k, s)])" for a b c
    using that skel_ok_parts(2) [OF assms(1), of a b c] assms(3,4) by auto
  show "compat c t" if "(a, b, c) \<in> set (ks @ [(i, k, s)])" "(j, b, t) \<in> set (ks @ [(i, k, s)])" "a \<noteq> j" for a j b c t
    using that skel_ok_parts(3) [OF assms(1), of a b c j t] assms(5) compat_sym by auto
qed

lemma skel_ok_update:
  assumes "skel_ok ks" "known_state s" "\<And>j t. (j, k, t) \<in> set ks \<Longrightarrow> j \<noteq> i \<Longrightarrow> compat s t"
    "\<And>l t. (i, l, t) \<in> set ks \<Longrightarrow> l = k"
  shows "skel_ok (map (\<lambda>x. if fst x = i then (i, k, s) else x) ks)"
proof -
  let ?f = "\<lambda>x. if fst x = i then (i, k, s) else x"
  have el: "(a = i \<and> b = k \<and> c = s \<and> (\<exists>t. (i, k, t) \<in> set ks)) \<or> (a \<noteq> i \<and> (a, b, c) \<in> set ks)"
    if m: "(a, b, c) \<in> set (map ?f ks)" for a b c
  proof -
    from m obtain x where x: "x \<in> set ks" "(a, b, c) = ?f x" by auto
    obtain a' b' c' where "x = (a', b', c')" by (cases x)
    then show ?thesis using x assms(4) by (auto split: if_splits)
  qed
  show ?thesis
  proof (rule skel_okI)
    have "map fst (map ?f ks) = map fst ks" by auto
    then show "distinct (map fst (map ?f ks))" using skel_ok_parts(1) [OF assms(1)] by (simp only:)
    show "0 < a \<and> known_state c" if "(a, b, c) \<in> set (map ?f ks)" for a b c
      using el [OF that] skel_ok_parts(2) [OF assms(1)] assms(2) by blast
    show "compat c t" if "(a, b, c) \<in> set (map ?f ks)" "(j, b, t) \<in> set (map ?f ks)" "a \<noteq> j" for a j b c t
      using el [OF that(1)] el [OF that(2)] that(3) assms(3) skel_ok_parts(3) [OF assms(1)] compat_sym by metis
  qed
qed

text \<open>The state of a table that is in order determines the unique index.\<close>

lemma skel_ok_index:
  assumes "skel_ok (skels rs)"
  shows "distinct (map kv_index rs)"
proof -
  have "distinct (map kv_ID rs)" using skel_ok_parts(1) [OF assms] by (simp add: o_def skel_def)
  moreover have "inj_on kv_index (set rs)"
  proof (rule inj_onI)
    fix r q assume r: "r \<in> set rs" "q \<in> set rs" "kv_index r = kv_index q"
    then have m: "(kv_ID r, kv_key r, kv_State r) \<in> set (skels rs)" "(kv_ID q, kv_key r, kv_State r) \<in> set (skels rs)"
      by (force simp: skel_def kv_index_def kv_key_def)+
    have "kv_ID r = kv_ID q"
    proof (rule ccontr)
      assume "kv_ID r \<noteq> kv_ID q"
      then have "compat (kv_State r) (kv_State r)" using skel_ok_parts(3) [OF assms m] by simp
      then show False by (auto simp: compat_def)
    qed
    then show "r = q" using r(1,2) \<open>distinct (map kv_ID rs)\<close> by (simp add: distinct_map inj_on_def)
  qed
  ultimately show ?thesis by (simp add: distinct_map)
qed

lemma kv_write_ok: "skel_ok (skels rs) \<Longrightarrow> kv_write rs st = Inr (st\<lparr>Kvs := rs\<rparr>)"
  by (simp add: kv_write_def skel_ok_index)

definition kv_inv :: "'v kv_store \<Rightarrow> bool" where
  "kv_inv st \<longleftrightarrow> skel_ok (skels (Kvs st)) \<and> (\<forall>r \<in> set (Kvs st). kv_ID r < next_kv st) \<and> 0 < next_kv st"

lemma kv_inv_cong: "Kvs st' = Kvs st \<Longrightarrow> next_kv st' = next_kv st \<Longrightarrow> kv_inv st' = kv_inv st"
  by (simp add: kv_inv_def)

lemma kv_inv_id: "kv_inv st \<Longrightarrow> r \<in> set (Kvs st) \<Longrightarrow> q \<in> set (Kvs st) \<Longrightarrow> kv_ID r = kv_ID q \<Longrightarrow> r = q"
proof -
  assume "kv_inv st" "r \<in> set (Kvs st)" "q \<in> set (Kvs st)" "kv_ID r = kv_ID q"
  moreover have "distinct (map kv_ID (Kvs st))"
    using skel_ok_parts(1) \<open>kv_inv st\<close> by (fastforce simp: kv_inv_def o_def skel_def)
  ultimately show ?thesis by (simp add: distinct_map inj_on_def)
qed

lemma kv_inv_compat:
  assumes "kv_inv st" "r \<in> set (Kvs st)" "q \<in> set (Kvs st)" "kv_key r = kv_key q" "r \<noteq> q"
  shows "compat (kv_State r) (kv_State q)"
proof -
  have ok: "skel_ok (skels (Kvs st))" using assms(1) by (simp add: kv_inv_def)
  have "skel r = (kv_ID r, kv_key r, kv_State r)" "skel q = (kv_ID q, kv_key r, kv_State q)"
    using assms(4) by (simp_all add: skel_def)
  then have m: "(kv_ID r, kv_key r, kv_State r) \<in> set (skels (Kvs st))" "(kv_ID q, kv_key r, kv_State q) \<in> set (skels (Kvs st))"
    using assms(2,3) by (metis image_eqI set_map)+
  have "kv_ID r \<noteq> kv_ID q" using assms(5) kv_inv_id [OF assms(1-3)] by blast
  then show ?thesis by (rule skel_ok_parts(3) [OF ok m])
qed

lemma kv_inv_state: "kv_inv st \<Longrightarrow> r \<in> set (Kvs st) \<Longrightarrow> 0 < kv_ID r \<and> kv_ID r < next_kv st \<and> known_state (kv_State r)"
  unfolding kv_inv_def skel_ok_def by (auto simp: skel_def)

text \<open>A row that changes, without its id and key.\<close>

lemma kv_inv_update:
  assumes "kv_inv st" "r \<in> set (Kvs st)" "kv_ID r' = kv_ID r" "kv_key r' = kv_key r" "known_state (kv_State r')"
    "\<And>q. q \<in> set (Kvs st) \<Longrightarrow> q \<noteq> r \<Longrightarrow> kv_key q = kv_key r \<Longrightarrow> compat (kv_State r') (kv_State q)"
  shows "skel_ok (skels (map (\<lambda>q. if kv_ID q = kv_ID r then r' else q) (Kvs st)))"
proof -
  have "skels (map (\<lambda>q. if kv_ID q = kv_ID r then r' else q) (Kvs st))
    = map (\<lambda>x. if fst x = kv_ID r then (kv_ID r, kv_key r, kv_State r') else x) (skels (Kvs st))"
    using assms(3,4) by (auto simp: skel_def)
  then show ?thesis
  proof (rule ssubst)
    show "skel_ok (map (\<lambda>x. if fst x = kv_ID r then (kv_ID r, kv_key r, kv_State r') else x) (skels (Kvs st)))"
  proof (rule skel_ok_update)
    show "skel_ok (skels (Kvs st))" using assms(1) by (simp add: kv_inv_def)
    show "known_state (kv_State r')" by (rule assms(5))
    show "compat (kv_State r') t" if "(j, kv_key r, t) \<in> set (skels (Kvs st))" "j \<noteq> kv_ID r" for j t
    proof -
      from that(1) obtain q where "q \<in> set (Kvs st)" "skel q = (j, kv_key r, t)" by auto
      then show ?thesis using assms(6) [of q] that(2) by (auto simp: skel_def)
    qed
    show "l = kv_key r" if "(kv_ID r, l, t) \<in> set (skels (Kvs st))" for l t
      using that kv_inv_id [OF assms(1) _ assms(2)] by (auto simp: skel_def)
  qed
  qed
qed

section \<open>The abstract state\<close>

text \<open>
  The drafts and the basis: the keys of an application that are configured now, and those that were
  in its last release, each with the id of its row. A draft is new if its pair is not in the basis,
  a pair of the basis that is no draft is deleted.
\<close>

definition entry :: "kv_row \<Rightarrow> kv_key \<times> nat" where
  "entry r = (kv_key r, kv_ID r)"

definition drafts_of :: "kv_row list \<Rightarrow> (kv_key \<times> nat) set" where
  "drafts_of rs = entry ` {r \<in> set rs. kv_State r \<noteq> KvStateDelete}"

definition base_of :: "kv_row list \<Rightarrow> (kv_key \<times> nat) set" where
  "base_of rs = entry ` {r \<in> set rs. kv_State r \<noteq> KvStateAdd}"

type_synonym kv_abs = "(kv_key \<times> nat) set \<times> (kv_key \<times> nat) set \<times> nat"

definition kv_abs :: "'v kv_store \<Rightarrow> kv_abs" where
  "kv_abs st = (drafts_of (Kvs st), base_of (Kvs st), next_kv st)"

lemma kv_abs_cong: "Kvs st' = Kvs st \<Longrightarrow> next_kv st' = next_kv st \<Longrightarrow> kv_abs st' = kv_abs st"
  by (simp add: kv_abs_def)

definition keep :: "'a \<Rightarrow> bool \<Rightarrow> 'a set" where
  "keep x b = (if b then {x} else {})"

definition set_row :: "kv_row \<Rightarrow> kv_row \<Rightarrow> kv_row list \<Rightarrow> kv_row list" where
  "set_row r r' rs = map (\<lambda>q. if kv_ID q = kv_ID r then r' else q) rs"

lemma set_set_row: "r \<in> set rs \<Longrightarrow> set (set_row r r' rs) = {q \<in> set rs. kv_ID q \<noteq> kv_ID r} \<union> {r'}"
  by (auto simp: set_row_def)

lemma entries_set_row:
  assumes "r \<in> set rs" "kv_ID r' = kv_ID r"
  shows "entry ` {q \<in> set (set_row r r' rs). P q} = {p \<in> entry ` {q \<in> set rs. P q}. snd p \<noteq> kv_ID r} \<union> keep (entry r') (P r')"
  unfolding set_set_row [OF assms(1)] using assms(2) by (auto simp: entry_def keep_def)

lemma abs_set_row:
  assumes "r \<in> set rs" "kv_ID r' = kv_ID r" "kv_key r' = kv_key r"
  shows "drafts_of (set_row r r' rs) = {p \<in> drafts_of rs. snd p \<noteq> kv_ID r} \<union> keep (entry r) (kv_State r' \<noteq> KvStateDelete)"
    "base_of (set_row r r' rs) = {p \<in> base_of rs. snd p \<noteq> kv_ID r} \<union> keep (entry r) (kv_State r' \<noteq> KvStateAdd)"
  unfolding drafts_of_def base_of_def using entries_set_row [OF assms(1,2)] assms(2,3) by (simp_all add: entry_def)

lemma set_row_same: "kv_inv st \<Longrightarrow> r \<in> set (Kvs st) \<Longrightarrow> set_row r r (Kvs st) = Kvs st"
proof -
  assume a: "kv_inv st" "r \<in> set (Kvs st)"
  have "(if kv_ID q = kv_ID r then r else q) = q" if "q \<in> set (Kvs st)" for q
    using kv_inv_id [OF a(1) that a(2)] by auto
  then show ?thesis unfolding set_row_def by (intro map_idI)
qed

lemma drop_entry:
  assumes "kv_inv st" "r \<in> set (Kvs st)"
  shows "{p \<in> drafts_of (Kvs st). snd p \<noteq> kv_ID r} \<union> keep (entry r) (kv_State r \<noteq> KvStateDelete) = drafts_of (Kvs st)"
    "{p \<in> base_of (Kvs st). snd p \<noteq> kv_ID r} \<union> keep (entry r) (kv_State r \<noteq> KvStateAdd) = base_of (Kvs st)"
  using abs_set_row [OF assms(2) refl refl] set_row_same [OF assms] by simp_all

text \<open>Setting one row, as the updates by id do.\<close>

lemma update_where_set_row:
  assumes "kv_inv st" "r \<in> set (Kvs st)" "k_ID k = kv_ID r" "k_Attachment k = Some \<lparr>ka_BizID = kv_BizID r, ka_AppID = a\<rparr>"
  shows "update_where k f st = kv_write (set_row r (f r) (Kvs st)) st"
proof -
  have "(if kv_BizID q = kv_BizID r \<and> kv_ID q = kv_ID r then f q else q) = (if kv_ID q = kv_ID r then f r else q)"
    if "q \<in> set (Kvs st)" for q
    using kv_inv_id [OF assms(1) that assms(2)] by auto
  then show ?thesis unfolding update_where_def set_row_def using assms(3,4) by (simp cong: map_cong)
qed

lemma set_row_inv:
  assumes "kv_inv st" "r \<in> set (Kvs st)" "kv_ID r' = kv_ID r" "kv_key r' = kv_key r" "known_state (kv_State r')"
    "\<And>q. q \<in> set (Kvs st) \<Longrightarrow> q \<noteq> r \<Longrightarrow> kv_key q = kv_key r \<Longrightarrow> compat (kv_State r') (kv_State q)"
  shows "kv_write (set_row r r' (Kvs st)) st = Inr (st\<lparr>Kvs := set_row r r' (Kvs st)\<rparr>)"
    "kv_inv (st\<lparr>Kvs := set_row r r' (Kvs st)\<rparr>)"
proof -
  have ok: "skel_ok (skels (set_row r r' (Kvs st)))" unfolding set_row_def by (rule kv_inv_update [OF assms])
  show "kv_write (set_row r r' (Kvs st)) st = Inr (st\<lparr>Kvs := set_row r r' (Kvs st)\<rparr>)" by (rule kv_write_ok [OF ok])
  have "q \<in> set (set_row r r' (Kvs st)) \<Longrightarrow> kv_ID q < next_kv st" for q
    unfolding set_set_row [OF assms(2)] using assms(1,2,3) by (auto simp: kv_inv_def)
  then show "kv_inv (st\<lparr>Kvs := set_row r r' (Kvs st)\<rparr>)" using ok assms(1) by (simp add: kv_inv_def)
qed

lemma kv_inv_filter: "kv_inv st \<Longrightarrow> kv_inv (st\<lparr>Kvs := filter P (Kvs st)\<rparr>)"
proof -
  assume inv: "kv_inv st"
  define ids where "ids = kv_ID ` {r \<in> set (Kvs st). P r}"
  have "filter P (Kvs st) = filter (\<lambda>r. kv_ID r \<in> ids) (Kvs st)"
    using kv_inv_id [OF inv] by (intro filter_cong refl) (auto simp: ids_def)
  then have "skels (filter P (Kvs st)) = filter (\<lambda>x. fst x \<in> ids) (skels (Kvs st))"
    by (simp add: filter_map o_def skel_def)
  then show ?thesis using inv skel_ok_filter by (auto simp: kv_inv_def)
qed

lemma new_key_inv:
  assumes "kv_inv st" "kv_ID r = next_kv st" "kv_State r = KvStateAdd"
    "\<And>q. q \<in> set (Kvs st) \<Longrightarrow> kv_key q = kv_key r \<Longrightarrow> kv_State q = KvStateDelete"
  shows "skel_ok (skels (Kvs st @ [r]))" "kv_inv (st\<lparr>Kvs := Kvs st @ [r], next_kv := next_kv st + 1\<rparr>)"
proof -
  have "skel_ok (skels (Kvs st) @ [(kv_ID r, kv_key r, kv_State r)])"
  proof (rule skel_ok_append)
    show "skel_ok (skels (Kvs st))" using assms(1) by (simp add: kv_inv_def)
    show "kv_ID r \<notin> fst ` set (skels (Kvs st))" using assms(1,2) by (auto simp: kv_inv_def skel_def)
    show "0 < kv_ID r" using assms(1,2) by (simp add: kv_inv_def)
    show "known_state (kv_State r)" by (simp add: assms(3) known_state_def)
    show "compat (kv_State r) t" if m: "(j, kv_key r, t) \<in> set (skels (Kvs st))" for j t
    proof -
      from m obtain q where "q \<in> set (Kvs st)" "skel q = (j, kv_key r, t)" by auto
      then show ?thesis using assms(3,4) by (auto simp: skel_def compat_def)
    qed
  qed
  then show ok: "skel_ok (skels (Kvs st @ [r]))" by (simp add: skel_def)
  show "kv_inv (st\<lparr>Kvs := Kvs st @ [r], next_kv := next_kv st + 1\<rparr>)"
    using ok assms(1,2) by (auto simp: kv_inv_def less_Suc_eq)
qed

section \<open>Operations on one draft\<close>

definition same_kvs :: "'v kv_store \<Rightarrow> 'v kv_store \<Rightarrow> bool" where
  "same_kvs st st' \<longleftrightarrow> Kvs st' = Kvs st \<and> next_kv st' = next_kv st"

lemma same_kvs_refl [simp]: "same_kvs st st"
  by (simp add: same_kvs_def)

lemma same_kvs_inv: "same_kvs st st' \<Longrightarrow> kv_inv st \<Longrightarrow> kv_inv st'"
  by (simp add: same_kvs_def kv_inv_def)

lemma same_kvs_abs: "same_kvs st st' \<Longrightarrow> kv_abs st' = kv_abs st"
  by (simp add: same_kvs_def kv_abs_def)

lemma vault_put_kvs: "vault_put f st = (r, st') \<Longrightarrow> \<exists>v. st' = st\<lparr>Vault := v\<rparr>"
  by (auto simp: vault_put_def split: sum.splits intro: exI [of _ "Vault st"])

lemma vault_put_same: "vault_put f st = (r, st') \<Longrightarrow> same_kvs st st'"
  by (auto dest!: vault_put_kvs simp: same_kvs_def)

lemma GetByKvState_Some:
  "GetByKvState biz app key ss st = Some r \<Longrightarrow> r \<in> set (Kvs st) \<and> kv_key r = (biz, app, key) \<and> kv_State r \<in> set ss"
  by (auto simp: GetByKvState_def find_Some_iff kv_where_def kv_key_def)

lemma GetByKvState_None:
  "GetByKvState biz app key ss st = None \<Longrightarrow> q \<in> set (Kvs st) \<Longrightarrow> kv_key q = (biz, app, key) \<Longrightarrow> kv_State q \<notin> set ss"
  by (auto simp: GetByKvState_def find_None_iff kv_where_def kv_key_def)

lemma kv_GetByID_Some:
  "kv_GetByID biz app i st = Some r \<Longrightarrow> r \<in> set (Kvs st) \<and> kv_BizID r = biz \<and> kv_AppID r = app \<and> kv_ID r = i"
  by (auto simp: kv_GetByID_def find_Some_iff kv_where_def)

text \<open>A step either leaves the table, or changes it as a list of conditions says.\<close>

lemma known_state_cases: "known_state s \<Longrightarrow> s \<in> {KvStateAdd, KvStateDelete, KvStateRevise, KvStateUnchange}"
  by (simp add: known_state_def)

lemma others_none:
  assumes "kv_inv st" "r \<in> set (Kvs st)" "kv_State r \<in> {KvStateUnchange, KvStateRevise}" "q \<in> set (Kvs st)" "kv_key q = kv_key r"
  shows "q = r"
proof (rule ccontr)
  assume "q \<noteq> r"
  then have "compat (kv_State r) (kv_State q)" using kv_inv_compat [OF assms(1,2,4)] assms(5) by auto
  then show False using assms(3) by (auto simp: compat_def)
qed

text \<open>An update by id that sets the state of the row it has read.\<close>

lemma update_row_effect:
  assumes inv: "kv_inv st" and r: "r \<in> set (Kvs st)"
    and k: "k_ID k = kv_ID r" "k_Attachment k = Some \<lparr>ka_BizID = kv_BizID r, ka_AppID = a\<rparr>"
    and f: "kv_ID (f r) = kv_ID r" "kv_key (f r) = kv_key r" "kv_State (f r) = s"
    and s: "s = kv_State r \<or> (known_state s \<and> (\<forall>q \<in> set (Kvs st). kv_key q = kv_key r \<longrightarrow> q \<noteq> r \<longrightarrow> compat s (kv_State q)))"
  shows "\<exists>st'. update_where k f st = Inr st' \<and> st' = st\<lparr>Kvs := set_row r (f r) (Kvs st)\<rparr> \<and> kv_inv st'
    \<and> drafts_of (Kvs st') = {p \<in> drafts_of (Kvs st). snd p \<noteq> kv_ID r} \<union> keep (entry r) (s \<noteq> KvStateDelete)
    \<and> base_of (Kvs st') = {p \<in> base_of (Kvs st). snd p \<noteq> kv_ID r} \<union> keep (entry r) (s \<noteq> KvStateAdd)"
proof -
  have ks: "known_state (kv_State (f r))" using s f(3) kv_inv_state [OF inv r] by auto
  have co: "compat (kv_State (f r)) (kv_State q)" if "q \<in> set (Kvs st)" "q \<noteq> r" "kv_key q = kv_key r" for q
    using s f(3) that kv_inv_compat [OF inv r that(1)] by auto
  note w = set_row_inv [OF inv r f(1,2) ks co]
  show ?thesis
  proof (intro exI conjI)
    show "update_where k f st = Inr (st\<lparr>Kvs := set_row r (f r) (Kvs st)\<rparr>)"
      using update_where_set_row [OF inv r k, of f] w(1) by (rule trans)
    show "kv_inv (st\<lparr>Kvs := set_row r (f r) (Kvs st)\<rparr>)" by (rule w(2))
  qed (use abs_set_row [OF r f(1,2)] f(3) in simp_all)
qed

lemma set_columns_simps [simp]:
  "kv_ID (set_columns tm k r) = kv_ID r" "kv_key (set_columns tm k r) = kv_key r" "kv_State (set_columns tm k r) = KvState k"
  "kv_ID (set_memo k r) = kv_ID r" "kv_key (set_memo k r) = kv_key r" "kv_State (set_memo k r) = kv_State r"
  by (simp_all add: set_columns_def set_memo_def kv_key_def)

lemma of_row_simps [simp]:
  "k_ID (of_row r) = kv_ID r" "k_Attachment (of_row r) = Some \<lparr>ka_BizID = kv_BizID r, ka_AppID = kv_AppID r\<rparr>"
  "KvState (of_row r) = kv_State r" "k_Spec (of_row r) = Some (kv_Spec r)"
  by (simp_all add: of_row_def)

definition replaces :: "kv_row \<Rightarrow> kv_state \<Rightarrow> 'v kv_store \<Rightarrow> 'v kv_store \<Rightarrow> bool" where
  "replaces r s st st' \<longleftrightarrow> next_kv st' = next_kv st \<and> kv_inv st'
     \<and> drafts_of (Kvs st') = {p \<in> drafts_of (Kvs st). snd p \<noteq> kv_ID r} \<union> keep (entry r) (s \<noteq> KvStateDelete)
     \<and> base_of (Kvs st') = {p \<in> base_of (Kvs st). snd p \<noteq> kv_ID r} \<union> keep (entry r) (s \<noteq> KvStateAdd)"

lemma kv_update_effect:
  assumes inv: "kv_inv st" "r \<in> set (Kvs st)"
    and k: "k_ID k = kv_ID r" "k_Attachment k = Some \<lparr>ka_BizID = kv_BizID r, ka_AppID = a\<rparr>"
    and s: "KvState k = kv_State r \<or> (known_state (KvState k)
      \<and> (\<forall>q \<in> set (Kvs st). kv_key q = kv_key r \<longrightarrow> q \<noteq> r \<longrightarrow> compat (KvState k) (kv_State q)))"
    and u: "u = kv_Update tm k st \<or> u = kv_UpdateWithTx tm k st"
  shows "u \<noteq> Inl DuplicateEntry \<and> (\<forall>st'. u = Inr st' \<longrightarrow> replaces r (KvState k) st st')"
proof -
  obtain f where f: "u = rbind (wrap_err KTbl (Kv_ValidateUpdate k)) (\<lambda>_. update_where k f st)"
    "kv_ID (f r) = kv_ID r" "kv_key (f r) = kv_key r" "kv_State (f r) = KvState k"
    using u
  proof
    assume "u = kv_Update tm k st"
    then show thesis by (intro that [of "set_memo k \<circ> set_columns tm k"]) (simp_all add: kv_Update_def)
  next
    assume "u = kv_UpdateWithTx tm k st"
    then show thesis by (intro that [of "set_columns tm k"]) (simp_all add: kv_UpdateWithTx_def)
  qed
  from update_row_effect [where f = f, OF inv k f(2-4) s] obtain st1 where st1: "update_where k f st = Inr st1"
    "st1 = st\<lparr>Kvs := set_row r (f r) (Kvs st)\<rparr>" "replaces r (KvState k) st st1"
    by (auto simp: replaces_def)
  show ?thesis
  proof (cases "Kv_ValidateUpdate k")
    case (Inl e)
    then show ?thesis by (simp add: f(1))
  next
    case (Inr x)
    then show ?thesis using st1 by (simp add: f(1))
  qed
qed

lemma replaces_same:
  assumes "kv_inv st" "r \<in> set (Kvs st)" "replaces r s st st'"
    "(s = KvStateDelete) = (kv_State r = KvStateDelete)" "(s = KvStateAdd) = (kv_State r = KvStateAdd)"
  shows "kv_abs st' = kv_abs st"
  using assms(3) drop_entry [OF assms(1,2)] unfolding replaces_def kv_abs_def by (simp add: assms(4,5))

lemma UpdateKv_effect:
  assumes "kv_inv st" "UpdateKv kt biz app req st = (res, st')"
  shows "res \<noteq> Inl DuplicateEntry \<and> kv_inv st' \<and> kv_abs st' = kv_abs st"
proof (cases "GetByKvState biz app (kq_Key req) [KvStateAdd, KvStateUnchange, KvStateRevise] st")
  case None
  then show ?thesis using assms by (auto simp: UpdateKv_def)
next
  case (Some r)
  let ?s = "if kv_State r = KvStateUnchange then KvStateRevise else kv_State r"
  obtain n st1 where v: "vault_put (UpsertKv (Api kt) (Dec kt) biz app (Key (kv_Spec r)) (KvType (kv_Spec r)) (kq_Value req)) st = (n, st1)"
    by fastforce
  have same: "same_kvs st st1" using vault_put_same [OF v] .
  have inv1: "kv_inv st1" and r1: "r \<in> set (Kvs st1)" and nd: "kv_State r \<in> {KvStateAdd, KvStateUnchange, KvStateRevise}"
    using same_kvs_inv [OF same assms(1)] GetByKvState_Some [OF Some] same by (auto simp: same_kvs_def)
  show ?thesis
  proof (cases n)
    case (Inl e)
    then have "e \<noteq> DuplicateEntry" using v by (auto simp: vault_put_def split: sum.splits)
    then show ?thesis using Inl assms Some v same_kvs_inv [OF same] same_kvs_abs [OF same] by (auto simp: UpdateKv_def)
  next
    case (Inr version)
    note F = assms(2) [unfolded UpdateKv_def Some option.case v Inr sbind_simps]
    obtain k where k: "k_ID k = kv_ID r" "k_Attachment k = Some \<lparr>ka_BizID = kv_BizID r, ka_AppID = kv_AppID r\<rparr>" "KvState k = ?s"
      "(res, st') = sput (kv_Update (Now kt) k st1) st1"
      by (rule that [OF _ _ _ F [symmetric]]) simp_all
    have s: "KvState k = kv_State r \<or> (known_state (KvState k)
        \<and> (\<forall>q \<in> set (Kvs st1). kv_key q = kv_key r \<longrightarrow> q \<noteq> r \<longrightarrow> compat (KvState k) (kv_State q)))"
      using others_none [OF inv1 r1] unfolding k(3) by (auto simp: known_state_def)
    have "st' = st1 \<or> replaces r (KvState k) st1 st'"
      using kv_update_effect [OF inv1 r1 k(1,2) s disjI1 [OF refl], of "Now kt"] k(4)
      by (cases "kv_Update (Now kt) k st1") (auto simp: sput_def)
    moreover have "kv_abs st' = kv_abs st1" if "replaces r (KvState k) st1 st'"
      using nd by (intro replaces_same [OF inv1 r1 that]) (auto simp: k(3))
    moreover have "res \<noteq> Inl DuplicateEntry"
      using kv_update_effect [OF inv1 r1 k(1,2) s disjI1 [OF refl], of "Now kt"] k(4) by (auto simp: sput_def split: sum.splits)
    ultimately show ?thesis using inv1 same_kvs_abs [OF same] by (auto simp: replaces_def)
  qed
qed

text \<open>A row that is deleted from the table.\<close>

definition without :: "nat \<Rightarrow> 'v kv_store \<Rightarrow> 'v kv_store" where
  "without i st = st\<lparr>Kvs := filter (\<lambda>q. kv_ID q \<noteq> i) (Kvs st)\<rparr>"

lemma without_effect:
  assumes "kv_inv st"
  shows "kv_inv (without i st)" "next_kv (without i st) = next_kv st"
    "drafts_of (Kvs (without i st)) = {p \<in> drafts_of (Kvs st). snd p \<noteq> i}"
    "base_of (Kvs (without i st)) = {p \<in> base_of (Kvs st). snd p \<noteq> i}"
  using kv_inv_filter [OF assms] by (auto simp: without_def drafts_of_def base_of_def entry_def)

lemma kv_Delete_effect:
  assumes "kv_inv st" "r \<in> set (Kvs st)" "kv_Delete (of_row r) st = res"
  shows "res = Inr (without (kv_ID r) st) \<or> (\<exists>e. res = Inl (KTbl e))"
proof -
  have f: "filter (\<lambda>q. \<not> (kv_BizID q = kv_BizID r \<and> kv_ID q = kv_ID r)) (Kvs st) = filter (\<lambda>q. kv_ID q \<noteq> kv_ID r) (Kvs st)"
    using kv_inv_id [OF assms(1) _ assms(2)] by (intro filter_cong refl) auto
  have "kv_GetByID (kv_BizID r) (kv_AppID r) (kv_ID r) st \<noteq> None"
    using assms(2) by (auto simp: kv_GetByID_def find_None_iff kv_where_def)
  then show ?thesis using assms(3) f
    by (cases "Kv_ValidateDelete (of_row r)") (auto simp: kv_Delete_def without_def)
qed

lemma DeleteKv_effect:
  assumes inv: "kv_inv st" and del: "DeleteKv kt biz app i st = (res, st')"
  shows "res \<noteq> Inl DuplicateEntry \<and> kv_inv st' \<and> (is_ok res \<longrightarrow> kv_abs st' = ({p \<in> drafts_of (Kvs st). snd p \<noteq> i}, base_of (Kvs st), next_kv st))"
proof (cases "kv_GetByID biz app i st")
  case None
  then show ?thesis using assms by (auto simp: DeleteKv_def)
next
  case (Some r)
  have r: "r \<in> set (Kvs st)" "kv_ID r = i" using kv_GetByID_Some [OF Some] by auto
  note dr = drop_entry [OF inv r(1)]
  show ?thesis
  proof (cases "kv_State r = KvStateAdd")
    case True
    then have F: "(res, st') = sput (kv_Delete (of_row r) st) st" using del Some by (simp add: DeleteKv_def)
    consider "kv_Delete (of_row r) st = Inr (without i st)" | e where "kv_Delete (of_row r) st = Inl (KTbl e)"
      using kv_Delete_effect [OF inv r(1) refl] r(2) by blast
    then show ?thesis
    proof cases
      case 1
      then show ?thesis using F without_effect [OF inv, of i] dr(2) r(2) True by (simp add: sput_def kv_abs_def keep_def)
    next
      case 2
      then show ?thesis using F inv by (simp add: sput_def)
    qed
  next
    case False
    note F = del [unfolded DeleteKv_def Some option.case if_not_P [OF False]]
    obtain k where k: "k_ID k = kv_ID r" "k_Attachment k = Some \<lparr>ka_BizID = kv_BizID r, ka_AppID = kv_AppID r\<rparr>"
      "KvState k = KvStateDelete" "(res, st') = sput (kv_Update (Now kt) k st) st"
      by (rule that [OF _ _ _ F [symmetric]]) simp_all
    have s: "KvState k = kv_State r \<or> (known_state (KvState k)
        \<and> (\<forall>q \<in> set (Kvs st). kv_key q = kv_key r \<longrightarrow> q \<noteq> r \<longrightarrow> compat (KvState k) (kv_State q)))"
    proof (cases "kv_State r = KvStateDelete")
      case False
      then have "kv_State r \<in> {KvStateUnchange, KvStateRevise}"
        using \<open>kv_State r \<noteq> KvStateAdd\<close> kv_inv_state [OF inv r(1)] by (auto simp: known_state_def)
      then show ?thesis using others_none [OF inv r(1)] by (auto simp: k(3) known_state_def)
    qed (simp add: k(3))
    show ?thesis
    proof (cases "kv_Update (Now kt) k st")
      case (Inl e)
      then show ?thesis using kv_update_effect [OF inv r(1) k(1,2) s disjI1 [OF refl], of "Now kt"] k(4) inv by (simp add: sput_def)
    next
      case (Inr st2)
      then have "replaces r KvStateDelete st st2" "st' = st2" "res = Inr ()"
        using kv_update_effect [OF inv r(1) k(1,2) s disjI1 [OF refl], of "Now kt"] k(3,4) by (auto simp: sput_def)
      then show ?thesis using dr(2) False r(2) by (simp add: replaces_def kv_abs_def keep_def)
    qed
  qed
qed

lemma getLatest_shape:
  assumes "getLatestReleasedKV kt biz app r st = (res, st')"
  shows "(\<exists>v. st' = st\<lparr>Vault := v\<rparr>) \<and> res \<noteq> Inl DuplicateEntry \<and> (\<forall>k. res = Inr k \<longrightarrow> k_ID k = kv_ID r
    \<and> k_Attachment k = Some \<lparr>ka_BizID = kv_BizID r, ka_AppID = kv_AppID r\<rparr> \<and> KvState k = KvStateUnchange)"
proof -
  have triv: "\<exists>v. st = st\<lparr>Vault := v\<rparr>" by (rule exI [of _ "Vault st"]) simp
  show ?thesis
    using assms triv unfolding getLatestReleasedKV_def
    by (auto simp: sbind_def slift_def wrap_err_def vault_put_def split: option.splits sum.splits prod.splits)
qed

lemma UndoKv_effect:
  assumes inv: "kv_inv st" and u: "UndoKv kt biz app key st = (res, st')"
  shows "res \<noteq> Inl DuplicateEntry \<and> kv_inv st' \<and> kv_abs st' = kv_abs st"
proof (cases "GetByKvState biz app key [KvStateRevise] st")
  case None
  then show ?thesis using assms by (auto simp: UndoKv_def)
next
  case (Some r)
  obtain lr st1 where l: "getLatestReleasedKV kt biz app r st = (lr, st1)" by fastforce
  note sh = getLatest_shape [OF l]
  then have same: "same_kvs st st1" by (auto simp: same_kvs_def)
  have inv1: "kv_inv st1" and r1: "r \<in> set (Kvs st1)" "kv_State r = KvStateRevise"
    using same_kvs_inv [OF same inv] GetByKvState_Some [OF Some] same by (auto simp: same_kvs_def)
  note F = u [unfolded UndoKv_def Some option.case l]
  show ?thesis
  proof (cases lr)
    case (Inl e)
    then show ?thesis using F sh inv1 same_kvs_abs [OF same] by auto
  next
    case (Inr k)
    then have k: "k_ID k = kv_ID r" "k_Attachment k = Some \<lparr>ka_BizID = kv_BizID r, ka_AppID = kv_AppID r\<rparr>"
      "KvState k = KvStateUnchange" "(res, st') = sput (kv_Update (Now kt) k st1) st1"
      using sh F by auto
    have s: "KvState k = kv_State r \<or> (known_state (KvState k)
        \<and> (\<forall>q \<in> set (Kvs st1). kv_key q = kv_key r \<longrightarrow> q \<noteq> r \<longrightarrow> compat (KvState k) (kv_State q)))"
      using others_none [OF inv1 r1(1)] r1(2) by (auto simp: k(3) known_state_def)
    note e = kv_update_effect [OF inv1 r1(1) k(1,2) s disjI1 [OF refl], of "Now kt"]
    have "st' = st1 \<or> replaces r KvStateUnchange st1 st'"
      using e k(3,4) by (cases "kv_Update (Now kt) k st1") (auto simp: sput_def)
    moreover have "kv_abs st' = kv_abs st1" if "replaces r KvStateUnchange st1 st'"
      using replaces_same [OF inv1 r1(1) that] r1(2) by simp
    moreover have "res \<noteq> Inl DuplicateEntry" using e k(4) by (auto simp: sput_def split: sum.splits)
    ultimately show ?thesis using inv1 same_kvs_abs [OF same] by (auto simp: replaces_def)
  qed
qed

lemma abs_append:
  "drafts_of (rs @ [r]) = (if kv_State r = KvStateDelete then drafts_of rs else insert (entry r) (drafts_of rs))"
  "base_of (rs @ [r]) = (if kv_State r = KvStateAdd then base_of rs else insert (entry r) (base_of rs))"
proof -
  have "{q \<in> set (rs @ [r]). P q} = (if P r then insert r {q \<in> set rs. P q} else {q \<in> set rs. P q})" for P by auto
  then show "drafts_of (rs @ [r]) = (if kv_State r = KvStateDelete then drafts_of rs else insert (entry r) (drafts_of rs))"
    "base_of (rs @ [r]) = (if kv_State r = KvStateAdd then base_of rs else insert (entry r) (base_of rs))"
    by (simp_all add: drafts_of_def base_of_def)
qed

text \<open>\<open>CreateKv\<close> appends one new row; the row keeps the key that was free.\<close>

lemma CreateKv_effect:
  assumes inv: "kv_inv st" and c: "CreateKv kt biz app req st = (res, st')"
  shows "res \<noteq> Inl DuplicateEntry \<and> kv_inv st'
    \<and> (\<forall>i. res = Inr i \<longrightarrow> i = next_kv st \<and> kv_abs st' = (insert ((biz, app, kq_Key req), i) (drafts_of (Kvs st)), base_of (Kvs st), i + 1))"
proof -
  define k where "k n = \<lparr>k_ID = 0, KvState = KvStateAdd,
        k_Spec = Some ((KvSpec_of req)\<lparr>Version := word_of_int n\<rparr>),
        k_Attachment = Some \<lparr>ka_BizID = biz, ka_AppID = app\<rparr>,
        k_Revision = Some \<lparr>Creator = KvUser kt, Reviser = KvUser kt, CreatedAt = 0, RevUpdatedAt = 0\<rparr>,
        ContentSpec = Some (content_of kt (kq_Value req))\<rparr>" for n :: int
  define r where "r n = new_row (Now kt) (next_kv st) (k n)" for n
  have rk: "kv_ID (r n) = next_kv st" "kv_key (r n) = (biz, app, kq_Key req)" "kv_State (r n) = KvStateAdd" for n
    by (simp_all add: r_def k_def new_row_def kv_key_def KvSpec_of_def)
  consider "same_kvs st st'" "res \<noteq> Inl DuplicateEntry" "\<not> is_ok res"
    | n v where "GetByKvState biz app (kq_Key req) [KvStateAdd, KvStateUnchange, KvStateRevise] st = None"
      "kv_Create (Now kt) (k n) (st\<lparr>Vault := v\<rparr>) = (res, st')"
  proof -
    have "same_kvs st st' \<and> res \<noteq> Inl DuplicateEntry \<and> \<not> is_ok res
      \<or> GetByKvState biz app (kq_Key req) [KvStateAdd, KvStateUnchange, KvStateRevise] st = None
        \<and> (\<exists>n v. kv_Create (Now kt) (k n) (st\<lparr>Vault := v\<rparr>) = (res, st'))"
      using c unfolding CreateKv_def k_def [symmetric]
      by (auto simp: sbind_def slift_def vault_put_def same_kvs_def ensure_def checkKVConfigItemExceedsAppLimit_def get_app_def
          split: sum.splits if_splits option.splits)
    then show thesis using that by blast
  qed
  then show ?thesis
  proof cases
    case 1
    then show ?thesis using same_kvs_inv inv by fastforce
  next
    case 2
    let ?st1 = "st\<lparr>Vault := v, next_kv := next_kv st + 1\<rparr>"
    have "skel_ok (skels (Kvs st @ [r n]))" "kv_inv (st\<lparr>Kvs := Kvs st @ [r n], next_kv := next_kv st + 1\<rparr>)"
    proof -
      have "kv_State q = KvStateDelete" if "q \<in> set (Kvs st)" "kv_key q = kv_key (r n)" for q
        using GetByKvState_None [OF 2(1) that(1)] that(2) rk kv_inv_state [OF inv that(1)] by (auto simp: known_state_def)
      then show "skel_ok (skels (Kvs st @ [r n]))" "kv_inv (st\<lparr>Kvs := Kvs st @ [r n], next_kv := next_kv st + 1\<rparr>)"
        using new_key_inv [OF inv rk(1,3)] by blast+
    qed
    note ni = this
    have w: "kv_write (Kvs ?st1 @ [r n]) ?st1 = Inr (?st1\<lparr>Kvs := Kvs st @ [r n]\<rparr>)" using kv_write_ok [OF ni(1)] by simp
    have i1: "kv_inv ?st1" using inv by (auto simp: kv_inv_def intro: less_SucI)
    have i2: "kv_inv (?st1\<lparr>Kvs := Kvs st @ [r n]\<rparr>)" using ni(2) by (simp add: kv_inv_def)
    show ?thesis
    proof (cases "Kv_ValidateCreate (k n)")
      case (Inl e)
      then show ?thesis using 2(2) inv by (auto simp: kv_Create_def slift_def kv_inv_def)
    next
      case (Inr x)
      then have "res = Inr (next_kv st)" "st' = ?st1\<lparr>Kvs := Kvs st @ [r n]\<rparr>"
        using 2(2) w by (simp_all add: kv_Create_def slift_def Let_def r_def sput_def)
      moreover have "kv_abs (?st1\<lparr>Kvs := Kvs st @ [r n]\<rparr>)
        = (insert ((biz, app, kq_Key req), next_kv st) (drafts_of (Kvs st)), base_of (Kvs st), next_kv st + 1)"
        using rk [of n] by (simp add: kv_abs_def abs_append entry_def)
      ultimately show ?thesis using i2 by simp
    qed
  qed
qed

section \<open>Transactions\<close>

lemma run_tx_result:
  assumes "run_tx body st = (res, st')"
  obtains c t where "body (st, st) = (res, c, t)" "st' = (if is_ok res then t else c)"
  using assms by (auto simp: run_tx_def is_ok_def split: prod.splits sum.splits)

lemma in_tx_result:
  "in_tx f s = (res, s') \<longleftrightarrow> (\<exists>e. f (snd s) = Inl e \<and> res = Inl e \<and> s' = s) \<or> (\<exists>t. f (snd s) = Inr t \<and> res = Inr () \<and> s' = (fst s, t))"
  by (cases "f (snd s)") (auto simp: in_tx_def sput_def)

lemma UnDeleteKv_effect:
  assumes inv: "kv_inv st" and u: "UnDeleteKv kt biz app key st = (res, st')"
  shows "res \<noteq> Inl DuplicateEntry \<and> kv_inv st' \<and> (is_ok res \<longrightarrow>
    kv_abs st' = ({p \<in> drafts_of (Kvs st). fst p \<noteq> (biz, app, key)} \<union> {p \<in> base_of (Kvs st). fst p = (biz, app, key)},
      base_of (Kvs st), next_kv st))"
proof (cases "GetByKvState biz app key [KvStateDelete] st")
  case None
  then show ?thesis using assms by (auto simp: UnDeleteKv_def)
next
  case (Some r)
  let ?key = "(biz, app, key)"
  have r: "r \<in> set (Kvs st)" "kv_key r = ?key" "kv_State r = KvStateDelete"
    using GetByKvState_Some [OF Some] by auto
  define add where "add = GetByKvState biz app key [KvStateAdd] st"
  define t1 where "t1 = (case add of None \<Rightarrow> st | Some a \<Rightarrow> without (kv_ID a) st)"
  have others: "q = r \<or> add = Some q" if q: "q \<in> set (Kvs st)" "kv_key q = ?key" for q
  proof (rule ccontr)
    assume n: "\<not> (q = r \<or> add = Some q)"
    then have "kv_State q = KvStateAdd" using kv_inv_compat [OF inv r(1) q(1)] r(2,3) q(2) by (auto simp: compat_def)
    have "add \<noteq> None"
    proof
      assume "add = None"
      then have "kv_State q \<notin> set [KvStateAdd]" using GetByKvState_None q unfolding add_def by blast
      then show False using \<open>kv_State q = KvStateAdd\<close> by simp
    qed
    then obtain a where a: "add = Some a" by blast
    then have "a \<in> set (Kvs st)" "kv_key a = ?key" "kv_State a = KvStateAdd" using GetByKvState_Some [OF a [unfolded add_def]] by auto
    then show False using kv_inv_compat [OF inv q(1), of a] n a q(2) \<open>kv_State q = KvStateAdd\<close> by (auto simp: compat_def)
  qed
  have add_row: "a \<in> set (Kvs st) \<and> kv_key a = ?key \<and> kv_State a = KvStateAdd \<and> 0 < kv_ID a" if "add = Some a" for a
    using GetByKvState_Some [OF that [unfolded add_def]] kv_inv_state [OF inv] by auto
  have inv1: "kv_inv t1" using inv without_effect(1) [OF inv] by (auto simp: t1_def split: option.splits)
  have r1: "r \<in> set (Kvs t1)" using r(1,3) add_row kv_inv_id [OF inv _ r(1)] by (auto simp: t1_def without_def split: option.splits)
  have alone: "q = r" if "q \<in> set (Kvs t1)" "kv_key q = kv_key r" for q
    using that others [of q] r(2) by (auto simp: t1_def without_def split: option.splits)
  define del where "del = (case add of None \<Rightarrow> (Inr (), st, st) | Some a \<Rightarrow> if 0 < kv_ID a then in_tx (kv_Delete (of_row a)) (st, st) else (Inr (), st, st))"
  have del: "del = (Inr (), st, t1) \<or> (\<exists>e. del = (Inl (KTbl e), st, st))"
    using add_row kv_Delete_effect [OF inv _ refl] by (fastforce simp: del_def t1_def in_tx_def sput_def split: option.splits)
  obtain c t where body: "sbind del (\<lambda>_ s. sbind (outside (getLatestReleasedKV kt biz app r) s) (\<lambda>toUpdate s.
      in_tx (kv_UpdateWithTx (Now kt) toUpdate) s)) = (res, c, t)" "st' = (if is_ok res then t else c)"
    using u [unfolded UnDeleteKv_def Some option.case add_def [symmetric]] del_def by (auto elim!: run_tx_result)
  obtain lr c1 where l: "getLatestReleasedKV kt biz app r st = (lr, c1)" by fastforce
  obtain v where sh: "c1 = st\<lparr>Vault := v\<rparr>" "lr \<noteq> Inl DuplicateEntry"
    "\<And>k. lr = Inr k \<Longrightarrow> k_ID k = kv_ID r \<and> k_Attachment k = Some \<lparr>ka_BizID = kv_BizID r, ka_AppID = kv_AppID r\<rparr> \<and> KvState k = KvStateUnchange"
    using getLatest_shape [OF l] by auto
  let ?t2 = "t1\<lparr>Vault := v\<rparr>"
  have same: "same_kvs st c1" "same_kvs t1 ?t2" by (simp_all add: sh(1) same_kvs_def)
  show ?thesis
  proof (cases "(\<exists>e. del = (Inl (KTbl e), st, st)) \<or> (\<exists>e. del = (Inr (), st, t1) \<and> lr = Inl e)")
    case True
    then have "\<not> is_ok res" "same_kvs st st'" "res \<noteq> Inl DuplicateEntry" using body l sh(2) same(1) by (auto simp: outside_def)
    then show ?thesis using same_kvs_inv inv by auto
  next
    case False
    then obtain k where d: "del = (Inr (), st, t1)" "lr = Inr k" using del by (cases lr) auto
    then have b: "in_tx (kv_UpdateWithTx (Now kt) k) (c1, ?t2) = (res, c, t)" using body(1) l by (simp add: outside_def sh(1))
    have inv2: "kv_inv ?t2" "r \<in> set (Kvs ?t2)" using same_kvs_inv [OF same(2) inv1] r1 by simp_all
    have s: "KvState k = kv_State r \<or> (known_state (KvState k)
        \<and> (\<forall>q \<in> set (Kvs ?t2). kv_key q = kv_key r \<longrightarrow> q \<noteq> r \<longrightarrow> compat (KvState k) (kv_State q)))"
      using sh(3) [OF d(2)] alone by (auto simp: known_state_def)
    note e = kv_update_effect [OF inv2 _ _ s disjI2 [OF refl], of "kv_AppID r" "Now kt"]
    have k: "k_ID k = kv_ID r" "k_Attachment k = Some \<lparr>ka_BizID = kv_BizID r, ka_AppID = kv_AppID r\<rparr>" "KvState k = KvStateUnchange"
      using sh(3) [OF d(2)] by simp_all
    show ?thesis
    proof (cases "kv_UpdateWithTx (Now kt) k ?t2")
      case (Inl err)
      then have "res = Inl err" "c = c1" using b by (auto simp: in_tx_def sput_def)
      then have "res = Inl err" "st' = c1" using body(2) by (simp_all add: is_ok_def)
      then show ?thesis using e [OF k(1,2)] Inl same_kvs_inv [OF same(1) inv] by auto
    next
      case (Inr t3)
      then have st': "res = Inr ()" "st' = t3" "replaces r KvStateUnchange ?t2 t3"
        using b body(2) e [OF k(1,2)] k(3) by (auto simp: in_tx_def sput_def)
      have D1: "drafts_of (Kvs t1) = {p \<in> drafts_of (Kvs st). fst p \<noteq> ?key}"
      proof -
        have "kv_key q = ?key \<longleftrightarrow> add = Some q" if "q \<in> set (Kvs st)" "kv_State q \<noteq> KvStateDelete" for q
          using others [OF that(1)] that(2) r(3) add_row by auto
        moreover have "q = a" if "q \<in> set (Kvs st)" "kv_ID q = kv_ID a" "add = Some a" for q a
          using kv_inv_id [OF inv that(1)] add_row [OF that(3)] that(2) by auto
        ultimately show ?thesis unfolding t1_def drafts_of_def without_def entry_def
          by (auto simp: image_iff split: option.splits) blast+
      qed
      have B1: "base_of (Kvs t1) = base_of (Kvs st)"
        using add_row kv_inv_id [OF inv] by (auto simp: t1_def base_of_def without_def image_iff split: option.splits)
      have er: "{p \<in> base_of (Kvs st). fst p = ?key} = {entry r}"
      proof -
        have "{q \<in> set (Kvs st). kv_State q \<noteq> KvStateAdd \<and> kv_key q = ?key} = {r}"
        proof
          show "{q \<in> set (Kvs st). kv_State q \<noteq> KvStateAdd \<and> kv_key q = ?key} \<subseteq> {r}"
            using others add_row by fastforce
          show "{r} \<subseteq> {q \<in> set (Kvs st). kv_State q \<noteq> KvStateAdd \<and> kv_key q = ?key}" using r by simp
        qed
        moreover have "{p \<in> base_of (Kvs st). fst p = ?key} = entry ` {q \<in> set (Kvs st). kv_State q \<noteq> KvStateAdd \<and> kv_key q = ?key}"
          by (auto simp: base_of_def entry_def image_iff)
        ultimately show ?thesis by simp
      qed
      have "snd p \<noteq> kv_ID r" if p: "p \<in> drafts_of (Kvs t1)" for p
      proof
        assume i: "snd p = kv_ID r"
        from p obtain x where x: "x \<in> set (Kvs st)" "kv_State x \<noteq> KvStateDelete" "p = entry x" unfolding D1 by (auto simp: drafts_of_def)
        then have "x = r" using i kv_inv_id [OF inv x(1) r(1)] by (simp add: entry_def)
        then show False using x(2) r(3) by simp
      qed
      then have "drafts_of (Kvs t3) = drafts_of (Kvs t1) \<union> {entry r}"
        using st'(3) by (auto simp: replaces_def keep_def)
      moreover have "base_of (Kvs t3) = base_of (Kvs st)"
        using st'(3) drop_entry(2) [OF inv2] r(3) B1 by (simp add: replaces_def keep_def)
      ultimately show ?thesis using st' D1 er by (simp add: replaces_def kv_abs_def t1_def without_def split: option.splits)
    qed
  qed
qed

section \<open>Lists of drafts\<close>

lemma of_skels:
  "drafts_of rs = (\<lambda>(i, k, s). (k, i)) ` {x \<in> set (skels rs). snd (snd x) \<noteq> KvStateDelete}"
  "base_of rs = (\<lambda>(i, k, s). (k, i)) ` {x \<in> set (skels rs). snd (snd x) \<noteq> KvStateAdd}"
proof -
  have "entry ` {r \<in> set rs. P (kv_State r)} = (\<lambda>(i, k, s). (k, i)) ` {x \<in> skel ` set rs. P (snd (snd x))}" for P
  proof -
    have "{x \<in> skel ` set rs. P (snd (snd x))} = skel ` {r \<in> set rs. P (kv_State r)}" by (auto simp: skel_def)
    then show ?thesis by (simp add: image_image skel_def entry_def)
  qed
  then show "drafts_of rs = (\<lambda>(i, k, s). (k, i)) ` {x \<in> set (skels rs). snd (snd x) \<noteq> KvStateDelete}"
    "base_of rs = (\<lambda>(i, k, s). (k, i)) ` {x \<in> set (skels rs). snd (snd x) \<noteq> KvStateAdd}"
    by (simp_all add: drafts_of_def base_of_def)
qed

text \<open>A table with the same ids, keys and states.\<close>

definition same_skels :: "'v kv_store \<Rightarrow> 'v kv_store \<Rightarrow> bool" where
  "same_skels st st' \<longleftrightarrow> skels (Kvs st') = skels (Kvs st) \<and> next_kv st' = next_kv st"

lemma kv_inv_skels: "kv_inv st \<longleftrightarrow> skel_ok (skels (Kvs st)) \<and> (\<forall>x \<in> set (skels (Kvs st)). fst x < next_kv st) \<and> 0 < next_kv st"
  by (auto simp: kv_inv_def skel_def)

lemma same_skels_inv: "same_skels st st' \<Longrightarrow> kv_inv st \<Longrightarrow> kv_inv st'"
  unfolding same_skels_def kv_inv_skels by simp

lemma same_skels_abs: "same_skels st st' \<Longrightarrow> kv_abs st' = kv_abs st"
  unfolding same_skels_def kv_abs_def of_skels by (simp only:)

lemma kv_inv_more_ids: "kv_inv st \<Longrightarrow> next_kv st \<le> n \<Longrightarrow> kv_inv (st\<lparr>next_kv := n\<rparr>)"
  by (auto simp: kv_inv_def)

definition kkey :: "kv \<Rightarrow> kv_key" where
  "kkey k = (ka_BizID (the (k_Attachment k)), ka_AppID (the (k_Attachment k)), Key (the (k_Spec k)))"

lemma new_row_simps [simp]:
  "kv_ID (new_row tm i k) = i" "kv_key (new_row tm i k) = kkey k" "kv_State (new_row tm i k) = KvState k"
  by (simp_all add: new_row_def kv_key_def kkey_def)

lemma kkey_of_row [simp]: "kkey (of_row r) = kv_key r"
  by (simp add: kkey_def kv_key_def)

text \<open>\<open>Save\<close> of a draft that exists.\<close>

lemma kv_save_effect:
  assumes inv: "kv_inv st" and r: "r \<in> set (Kvs st)"
    and k: "k_ID k = kv_ID r" "kkey k = kv_key r"
    and s: "KvState k = kv_State r \<or> (known_state (KvState k)
      \<and> (\<forall>q \<in> set (Kvs st). kv_key q = kv_key r \<longrightarrow> q \<noteq> r \<longrightarrow> compat (KvState k) (kv_State q)))"
  shows "\<exists>r'. kv_save tm k st = Inr (st\<lparr>Kvs := set_row r r' (Kvs st)\<rparr>) \<and> replaces r (KvState k) st (st\<lparr>Kvs := set_row r r' (Kvs st)\<rparr>)
    \<and> skel r' = (kv_ID r, kv_key r, KvState k)"
proof -
  define r' where "r' = (new_row tm (k_ID k) k)\<lparr>kv_Rev := (the (k_Revision k))\<lparr>RevUpdatedAt := tm\<rparr>\<rparr>"
  have f: "kv_ID r' = kv_ID r" "kv_key r' = kv_key r" "kv_State r' = KvState k"
    using k by (simp_all add: r'_def kv_key_def new_row_def kkey_def)
  have ks: "known_state (kv_State r')" using s f(3) kv_inv_state [OF inv r] by auto
  have co: "compat (kv_State r') (kv_State q)" if "q \<in> set (Kvs st)" "q \<noteq> r" "kv_key q = kv_key r" for q
    using s f(3) that kv_inv_compat [OF inv r that(1)] by auto
  have w: "kv_write (set_row r r' (Kvs st)) st = Inr (st\<lparr>Kvs := set_row r r' (Kvs st)\<rparr>)"
    "kv_inv (st\<lparr>Kvs := set_row r r' (Kvs st)\<rparr>)"
    by (rule set_row_inv [OF inv r f(1,2) ks], erule (2) co)+
  have "kv_save tm k st = kv_write (set_row r r' (Kvs st)) st"
    using r f(1) unfolding kv_save_def r'_def [symmetric] Let_def set_row_def by auto
  then have "kv_save tm k st = Inr (st\<lparr>Kvs := set_row r r' (Kvs st)\<rparr>)" using w(1) by (rule trans)
  moreover have "replaces r (KvState k) st (st\<lparr>Kvs := set_row r r' (Kvs st)\<rparr>)"
    unfolding replaces_def using w(2) abs_set_row [OF r f(1,2), unfolded f(3)] by simp
  moreover have "skel r' = (kv_ID r, kv_key r, KvState k)" unfolding skel_def f ..
  ultimately show ?thesis by blast
qed

text \<open>Saving drafts in the state they have.\<close>

definition matches_row :: "kv_row list \<Rightarrow> kv \<Rightarrow> bool" where
  "matches_row rs k \<longleftrightarrow> (k_ID k, kkey k, KvState k) \<in> set (skels rs)"

lemma BatchUpdate_same:
  assumes "kv_inv st" "\<forall>k \<in> set ks. matches_row (Kvs st) k"
  shows "\<exists>st'. BatchUpdateWithTx tm ks st = Inr st' \<and> same_skels st st'"
  using assms
proof (induction ks arbitrary: st)
  case (Cons k ks)
  then obtain r where r: "r \<in> set (Kvs st)" "skel r = (k_ID k, kkey k, KvState k)" by (auto simp: matches_row_def)
  then obtain r' where s: "kv_save tm k st = Inr (st\<lparr>Kvs := set_row r r' (Kvs st)\<rparr>)" "skel r' = skel r"
    using kv_save_effect [OF Cons.prems(1) r(1), of k tm] by (auto simp: skel_def)
  let ?st1 = "st\<lparr>Kvs := set_row r r' (Kvs st)\<rparr>"
  have "skel (if kv_ID q = kv_ID r then r' else q) = skel q" if "q \<in> set (Kvs st)" for q
    using kv_inv_id [OF Cons.prems(1) that r(1)] s(2) by auto
  then have sk: "same_skels st ?st1" by (simp add: same_skels_def set_row_def)
  then have "kv_inv ?st1" "\<forall>k \<in> set ks. matches_row (Kvs ?st1) k"
    using same_skels_inv [OF sk Cons.prems(1)] Cons.prems(2) by (auto simp: matches_row_def same_skels_def)
  then obtain st2 where "BatchUpdateWithTx tm ks ?st1 = Inr st2" "same_skels ?st1 st2" using Cons.IH by blast
  then show ?case using s(1) sk by (simp add: same_skels_def)
qed (simp add: same_skels_def)

text \<open>Marking drafts of the last release as deleted.\<close>

lemma BatchUpdate_delete:
  assumes "kv_inv st" "distinct rs" "set rs \<subseteq> {r \<in> set (Kvs st). kv_State r \<in> {KvStateUnchange, KvStateRevise}}"
    "\<And>r. k_ID (mk r) = kv_ID r \<and> kkey (mk r) = kv_key r \<and> KvState (mk r) = KvStateDelete"
  shows "\<exists>st'. BatchUpdateWithTx tm (map mk rs) st = Inr st' \<and> kv_inv st' \<and> next_kv st' = next_kv st
    \<and> drafts_of (Kvs st') = drafts_of (Kvs st) - entry ` set rs \<and> base_of (Kvs st') = base_of (Kvs st)"
  using assms(1-3)
proof (induction rs arbitrary: st)
  case (Cons r rs)
  then have r: "r \<in> set (Kvs st)" "kv_State r \<in> {KvStateUnchange, KvStateRevise}" by auto
  have "KvState (mk r) = kv_State r \<or> (known_state (KvState (mk r))
      \<and> (\<forall>q \<in> set (Kvs st). kv_key q = kv_key r \<longrightarrow> q \<noteq> r \<longrightarrow> compat (KvState (mk r)) (kv_State q)))"
    using others_none [OF Cons.prems(1) r] assms(4) by (auto simp: known_state_def)
  then obtain r' where s: "kv_save tm (mk r) st = Inr (st\<lparr>Kvs := set_row r r' (Kvs st)\<rparr>)"
    "replaces r KvStateDelete st (st\<lparr>Kvs := set_row r r' (Kvs st)\<rparr>)"
    using kv_save_effect [OF Cons.prems(1) r(1), of "mk r" tm] assms(4) by auto
  let ?st1 = "st\<lparr>Kvs := set_row r r' (Kvs st)\<rparr>"
  have "q \<in> set (Kvs ?st1)" if "q \<in> set rs" for q
  proof -
    have q: "q \<in> set (Kvs st)" "q \<noteq> r" using that Cons.prems(2,3) by auto
    then have "kv_ID q \<noteq> kv_ID r" using kv_inv_id [OF Cons.prems(1) q(1) r(1)] by auto
    then show ?thesis using q(1) set_set_row [OF r(1)] by auto
  qed
  then have "set rs \<subseteq> {r \<in> set (Kvs ?st1). kv_State r \<in> {KvStateUnchange, KvStateRevise}}" using Cons.prems(3) by auto
  moreover have "kv_inv ?st1" "distinct rs" using s(2) Cons.prems(2) by (auto simp: replaces_def)
  ultimately obtain st2 where st2: "BatchUpdateWithTx tm (map mk rs) ?st1 = Inr st2" "kv_inv st2" "next_kv st2 = next_kv ?st1"
    "drafts_of (Kvs st2) = drafts_of (Kvs ?st1) - entry ` set rs" "base_of (Kvs st2) = base_of (Kvs ?st1)"
    using Cons.IH [of ?st1] by blast
  have "drafts_of (Kvs ?st1) = drafts_of (Kvs st) - {entry r}"
  proof -
    have "snd p \<noteq> kv_ID r \<longleftrightarrow> p \<noteq> entry r" if p: "p \<in> drafts_of (Kvs st)" for p
    proof -
      from p obtain q where q: "q \<in> set (Kvs st)" "p = entry q" by (auto simp: drafts_of_def)
      then show ?thesis using kv_inv_id [OF Cons.prems(1) q(1) r(1)] by (auto simp: entry_def)
    qed
    then show ?thesis using s(2) by (auto simp: replaces_def keep_def)
  qed
  moreover have "base_of (Kvs ?st1) = base_of (Kvs st)"
    using s(2) drop_entry(2) [OF Cons.prems(1) r(1)] r(2) by (auto simp: replaces_def keep_def)
  ultimately have "drafts_of (Kvs st2) = drafts_of (Kvs st) - entry ` set (r # rs)" "base_of (Kvs st2) = base_of (Kvs st)"
    using st2(4,5) by auto
  then show ?case using st2(1-3) s(1) by auto
qed simp

text \<open>New drafts with consecutive ids.\<close>

definition fresh_entries :: "kv_key list \<Rightarrow> nat \<Rightarrow> (kv_key \<times> nat) set" where
  "fresh_entries ks i = set (zip ks [i ..< i + length ks])"

lemma new_rows_effect:
  assumes "kv_inv st" "distinct (map kkey ks)" "\<forall>k \<in> set ks. KvState k = KvStateAdd"
    "\<forall>q \<in> set (Kvs st). kv_key q \<in> kkey ` set ks \<longrightarrow> kv_State q = KvStateDelete"
  shows "kv_inv (st\<lparr>Kvs := Kvs st @ new_rows tm (next_kv st) ks, next_kv := next_kv st + length ks\<rparr>)
    \<and> drafts_of (Kvs st @ new_rows tm (next_kv st) ks) = drafts_of (Kvs st) \<union> fresh_entries (map kkey ks) (next_kv st)
    \<and> base_of (Kvs st @ new_rows tm (next_kv st) ks) = base_of (Kvs st)"
  using assms
proof (induction ks arbitrary: st)
  case Nil
  then show ?case by (simp add: fresh_entries_def)
next
  case (Cons k ks)
  let ?r = "new_row tm (next_kv st) k"
  let ?st1 = "st\<lparr>Kvs := Kvs st @ [?r], next_kv := next_kv st + 1\<rparr>"
  have i1: "kv_inv ?st1"
    using Cons.prems by (intro new_key_inv(2)) auto
  moreover have "distinct (map kkey ks)" "\<forall>k \<in> set ks. KvState k = KvStateAdd" using Cons.prems by auto
  moreover have "\<forall>q \<in> set (Kvs ?st1). kv_key q \<in> kkey ` set ks \<longrightarrow> kv_State q = KvStateDelete"
    using Cons.prems(2,4) by auto
  ultimately have IH: "kv_inv (?st1\<lparr>Kvs := Kvs ?st1 @ new_rows tm (next_kv ?st1) ks, next_kv := next_kv ?st1 + length ks\<rparr>)
    \<and> drafts_of (Kvs ?st1 @ new_rows tm (next_kv ?st1) ks) = drafts_of (Kvs ?st1) \<union> fresh_entries (map kkey ks) (next_kv ?st1)
    \<and> base_of (Kvs ?st1 @ new_rows tm (next_kv ?st1) ks) = base_of (Kvs ?st1)"
    by (rule Cons.IH)
  have fe: "fresh_entries (map kkey (k # ks)) (next_kv st) = insert (kkey k, next_kv st) (fresh_entries (map kkey ks) (next_kv st + 1))"
    by (simp add: fresh_entries_def upt_conv_Cons del: upt_Suc)
  have "drafts_of (Kvs st @ [?r]) = insert (kkey k, next_kv st) (drafts_of (Kvs st))" "base_of (Kvs st @ [?r]) = base_of (Kvs st)"
    using Cons.prems(3) by (simp_all add: abs_append entry_def)
  then show ?case using IH fe by (simp add: kv_inv_def)
qed

end
