(* ===== verification/KvRefine.thy ===== *)
theory KvRefine
  imports KvProps
begin

text \<open>
  Batch imports and releases act on many drafts in one transaction. With them, the handlers refine
  the drafts, the basis and the next id, and keep the invariant in every history.
\<close>

section \<open>Batch imports\<close>

lemma find_rev_None: "find P (rev rs) = None \<longleftrightarrow> (\<forall>r \<in> set rs. \<not> P r)"
  by (auto simp: find_None_iff)

lemma find_rev_Some: "find P (rev rs) = Some r \<Longrightarrow> r \<in> set rs \<and> P r"
proof -
  assume "find P (rev rs) = Some r"
  then have "r \<in> set (rev rs) \<and> P r" by (auto simp only: find_Some_iff nth_mem)
  then show ?thesis by simp
qed

text \<open>What \<open>check_kvs\<close> sorts into updates and creations.\<close>

definition upsert_key :: "nat \<Rightarrow> nat \<Rightarrow> kv_req \<Rightarrow> kv_key" where
  "upsert_key biz app q = (biz, app, kq_Key q)"

lemma check_kvs_shape:
  assumes "check_kvs kt biz app versions ed seen qs = Inr (us, cs)"
  shows "distinct (map kq_Key qs) \<and> (\<forall>q \<in> set qs. kq_Key q \<notin> set seen)
    \<and> map kkey cs = map (upsert_key biz app) (filter (\<lambda>q. \<forall>r \<in> set ed. Key (kv_Spec r) \<noteq> kq_Key q) qs)
    \<and> (\<forall>k \<in> set cs. KvState k = KvStateAdd)
    \<and> (\<forall>k \<in> set us. \<exists>r \<in> set ed. k_ID k = kv_ID r \<and> KvState k = kv_State r \<and> kkey k = (biz, app, Key (kv_Spec r)))"
  using assms
proof (induction qs arbitrary: seen us cs)
  case (Cons q qs)
  from Cons.prems obtain version us1 cs1 where n: "kq_Key q \<notin> set seen" "map_of versions (kq_Key q) = Some version"
    "check_kvs kt biz app versions ed (kq_Key q # seen) qs = Inr (us1, cs1)"
    by (auto simp: res_simps split: if_splits option.splits)
  note IH = Cons.IH [OF n(3)]
  define k where "k = \<lparr>k_ID = 0, KvState = KvStateAdd, k_Spec = Some ((KvSpec_of q)\<lparr>Version := word_of_int version\<rparr>),
    k_Attachment = Some \<lparr>ka_BizID = biz, ka_AppID = app\<rparr>,
    k_Revision = Some \<lparr>Creator = KvUser kt, Reviser = KvUser kt, CreatedAt = Now kt, RevUpdatedAt = Now kt\<rparr>,
    ContentSpec = Some (content_of kt (kq_Value q))\<rparr>"
  have kk: "kkey (k\<lparr>k_ID := i, KvState := s, k_Revision := v\<rparr>) = upsert_key biz app q" "kkey k = upsert_key biz app q" "KvState k = KvStateAdd" for i s v
    by (simp_all add: k_def kkey_def KvSpec_of_def upsert_key_def)
  note eq = Cons.prems [unfolded check_kvs.simps if_not_P [OF n(1)] n(2,3) option.case rbind_simps prod.case Let_def, folded k_def]
  show ?case
  proof (cases "find (\<lambda>r. Key (kv_Spec r) = kq_Key q) (rev ed)")
    case None
    then have new: "\<forall>r \<in> set ed. Key (kv_Spec r) \<noteq> kq_Key q" by (simp add: find_rev_None)
    have k: "us = us1" "cs = k # cs1" using eq None by simp_all
    show ?thesis using IH new n(1) unfolding k by (auto simp: kk)
  next
    case (Some r)
    then have r: "r \<in> set ed" "Key (kv_Spec r) = kq_Key q" using find_rev_Some [OF Some] by simp_all
    then have old: "\<not> (\<forall>r \<in> set ed. Key (kv_Spec r) \<noteq> kq_Key q)" by blast
    define u where "u = k\<lparr>k_ID := kv_ID r, KvState := kv_State r, k_Revision := Some (kv_Rev r)\<rparr>"
    have k: "us = u # us1" "cs = cs1" using eq Some by (simp_all add: u_def)
    have "k_ID u = kv_ID r \<and> KvState u = kv_State r \<and> kkey u = (biz, app, Key (kv_Spec r))"
      using kk(1) r(2) by (simp add: u_def upsert_key_def)
    then have "\<exists>r \<in> set ed. k_ID u = kv_ID r \<and> KvState u = kv_State r \<and> kkey u = (biz, app, Key (kv_Spec r))"
      using r(1) by blast
    then show ?thesis using IH old n(1) unfolding k by auto
  qed
qed auto

definition in_app :: "nat \<Rightarrow> nat \<Rightarrow> kv_key \<times> nat \<Rightarrow> bool" where
  "in_app biz app p \<longleftrightarrow> fst (fst p) = biz \<and> fst (snd (fst p)) = app"

lemma in_app_entry [simp]: "in_app biz app (entry r) = kv_where biz app r"
  by (simp add: in_app_def entry_def kv_key_def kv_where_def)

text \<open>The drafts of an application leave the table, or are marked as deleted.\<close>

lemma clearDraft_effect:
  assumes inv: "kv_inv st"
    and kvs: "kvs = filter (\<lambda>r. kv_where biz app r \<and> kv_State r \<in> set live_states) (Kvs st)"
    and c: "clearDraftKVStore kt biz app replaceAll kvs (st, st) = (res, c, t)"
  shows "res = Inr () \<and> kv_inv c \<and> kv_inv t \<and> next_kv c = next_kv st \<and> next_kv t = next_kv st
    \<and> c = st\<lparr>Kvs := filter (\<lambda>r. \<not> (replaceAll \<and> kv_where biz app r \<and> kv_State r = KvStateAdd)) (Kvs st)\<rparr>
    \<and> drafts_of (Kvs t) = (if replaceAll then {p \<in> drafts_of (Kvs st). \<not> in_app biz app p} else drafts_of (Kvs st))
    \<and> base_of (Kvs t) = base_of (Kvs st)"
proof (cases replaceAll)
  case False
  then have "(res, c, t) = (Inr (), st, st)" using c [symmetric] by (simp add: clearDraftKVStore_def)
  then show ?thesis using inv False by simp
next
  case True
  define news where "news = map kv_ID (filter (\<lambda>v. kv_State v = KvStateAdd) kvs)"
  define olds where "olds = filter (\<lambda>v. kv_State v \<noteq> KvStateAdd) kvs"
  define mk where "mk = (\<lambda>v. (of_row v)\<lparr>KvState := KvStateDelete,
      k_Revision := Some ((kv_Rev v)\<lparr>Reviser := KvUser kt, RevUpdatedAt := Now kt\<rparr>)\<rparr>)"
  define P where "P = (\<lambda>r. \<not> (kv_where biz app r \<and> kv_ID r \<in> set news))"
  define st1 where "st1 = st\<lparr>Kvs := filter P (Kvs st)\<rparr>"
  have e: "clearDraftKVStore kt biz app replaceAll kvs (st, st) = in_tx (BatchUpdateWithTx (Now kt) (map mk olds)) (st1, st1)"
    using True unfolding clearDraftKVStore_def BatchDeleteWithTx_def out_tx_def st1_def P_def news_def olds_def mk_def by simp
  have inv1: "kv_inv st1" unfolding st1_def by (rule kv_inv_filter [OF inv])
  have PI: "P r \<longleftrightarrow> \<not> (kv_where biz app r \<and> kv_State r = KvStateAdd)" if "r \<in> set (Kvs st)" for r
  proof -
    have "kv_ID r \<in> set news \<longleftrightarrow> kv_where biz app r \<and> kv_State r = KvStateAdd"
      using kv_inv_id [OF inv _ that] that by (auto simp: news_def kvs live_states_def)
    then show ?thesis by (auto simp: P_def)
  qed
  have old: "set olds = {r \<in> set (Kvs st). kv_where biz app r \<and> kv_State r \<in> {KvStateUnchange, KvStateRevise}}"
    by (auto simp: olds_def kvs live_states_def)
  have "set olds \<subseteq> {r \<in> set (Kvs st1). kv_State r \<in> {KvStateUnchange, KvStateRevise}}"
    using PI unfolding old by (auto simp: st1_def)
  moreover have "distinct olds"
  proof -
    have "distinct (Kvs st)" using inv skel_ok_parts(1) by (fastforce simp: kv_inv_def distinct_map)
    then show ?thesis by (simp add: olds_def kvs)
  qed
  moreover have "k_ID (mk r) = kv_ID r \<and> kkey (mk r) = kv_key r \<and> KvState (mk r) = KvStateDelete" for r
    by (simp add: mk_def kkey_def kv_key_def)
  ultimately obtain st2 where b: "BatchUpdateWithTx (Now kt) (map mk olds) st1 = Inr st2" "kv_inv st2" "next_kv st2 = next_kv st1"
    "drafts_of (Kvs st2) = drafts_of (Kvs st1) - entry ` set olds" "base_of (Kvs st2) = base_of (Kvs st1)"
    using BatchUpdate_delete [OF inv1, of olds mk "Now kt"] by blast
  have "res = Inr ()" "c = st1" "t = st2" using c b(1) unfolding e by (simp_all add: in_tx_def sput_def)
  moreover have "base_of (Kvs st1) = base_of (Kvs st)" using PI by (auto simp: st1_def base_of_def)
  moreover have "drafts_of (Kvs st1) - entry ` set olds = {p \<in> drafts_of (Kvs st). \<not> in_app biz app p}"
  proof -
    let ?live = "{r \<in> set (Kvs st). kv_State r \<noteq> KvStateDelete}"
    have "inj_on entry ?live" by (rule inj_onI) (use kv_inv_id [OF inv] in \<open>auto simp: entry_def\<close>)
    moreover have "{r \<in> set (Kvs st1). kv_State r \<noteq> KvStateDelete} \<subseteq> ?live" "set olds \<subseteq> ?live"
      unfolding old by (auto simp: st1_def)
    ultimately have "drafts_of (Kvs st1) - entry ` set olds = entry ` ({r \<in> set (Kvs st1). kv_State r \<noteq> KvStateDelete} - set olds)"
      unfolding drafts_of_def by (subst inj_on_image_set_diff [of entry ?live]) auto
    also have "{r \<in> set (Kvs st1). kv_State r \<noteq> KvStateDelete} - set olds = {r \<in> ?live. \<not> kv_where biz app r}"
    proof -
      have "P r \<and> r \<notin> set olds \<longleftrightarrow> \<not> kv_where biz app r" if "r \<in> ?live" for r
        using PI [of r] that old kv_inv_state [OF inv, of r] by (auto simp: known_state_def)
      then show ?thesis by (auto simp: st1_def)
    qed
    also have "entry ` \<dots> = {p \<in> drafts_of (Kvs st). \<not> in_app biz app p}"
      by (auto simp: drafts_of_def)
    finally show ?thesis .
  qed
  moreover have "filter P (Kvs st) = filter (\<lambda>r. \<not> (replaceAll \<and> kv_where biz app r \<and> kv_State r = KvStateAdd)) (Kvs st)"
    using PI True by (intro filter_cong refl) auto
  ultimately show ?thesis using b inv1 True by (simp add: st1_def)
qed

text \<open>What is shared by all states of a transaction that only writes other tables.\<close>

definition batch_spec :: "nat \<Rightarrow> nat \<Rightarrow> kv_req list \<Rightarrow> bool \<Rightarrow> kv_abs \<Rightarrow> kv_abs" where
  "batch_spec biz app reqs replaceAll a =
     (case a of (D, B, i) \<Rightarrow>
        let D1 = if replaceAll then {p \<in> D. \<not> in_app biz app p} else D;
            new = filter (\<lambda>k. k \<notin> fst ` D1) (map (upsert_key biz app) reqs)
        in (D1 \<union> fresh_entries new i, B, i + length new))"

lemma editing_keys:
  assumes "ed = filter (\<lambda>r. kv_where biz app r \<and> kv_State r \<in> set live_states) (Kvs t)" "kv_inv t"
  shows "filter (\<lambda>k. k \<notin> fst ` drafts_of (Kvs t)) (map (upsert_key biz app) qs)
    = map (upsert_key biz app) (filter (\<lambda>q. \<forall>r \<in> set ed. Key (kv_Spec r) \<noteq> kq_Key q) qs)"
proof -
  have "upsert_key biz app q \<in> fst ` drafts_of (Kvs t) \<longleftrightarrow> (\<exists>r \<in> set ed. Key (kv_Spec r) = kq_Key q)" for q
  proof -
    have "kv_State r \<in> set live_states \<longleftrightarrow> kv_State r \<noteq> KvStateDelete" if "r \<in> set (Kvs t)" for r
      using kv_inv_state [OF assms(2) that] by (auto simp: live_states_def known_state_def)
    then have "set ed = {r \<in> set (Kvs t). kv_where biz app r \<and> kv_State r \<noteq> KvStateDelete}" by (auto simp: assms(1))
    moreover have "fst ` drafts_of (Kvs t) = kv_key ` {r \<in> set (Kvs t). kv_State r \<noteq> KvStateDelete}"
      by (simp add: drafts_of_def entry_def image_image)
    ultimately show ?thesis by (auto simp: upsert_key_def kv_key_def kv_where_def)
  qed
  then show ?thesis by (simp add: filter_map o_def)
qed

lemma BatchCreate_effect:
  assumes "kv_inv c" "kv_inv t" "next_kv c = next_kv t" "distinct (map kkey ks)" "\<forall>k \<in> set ks. KvState k = KvStateAdd"
    "\<forall>q \<in> set (Kvs t). kv_key q \<in> kkey ` set ks \<longrightarrow> kv_State q = KvStateDelete"
    "BatchCreateWithTx tm ks (c, t) = (res, c', t')"
  shows "res \<noteq> Inl DuplicateEntry \<and> kv_inv c' \<and> (is_ok res \<longrightarrow> kv_inv t'
    \<and> Kvs t' = Kvs t @ new_rows tm (next_kv t) ks
    \<and> kv_abs t' = (drafts_of (Kvs t) \<union> fresh_entries (map kkey ks) (next_kv t), base_of (Kvs t), next_kv t + length ks))"
proof (cases "ks = []")
  case True
  then show ?thesis using assms by (auto simp: BatchCreateWithTx_def kv_abs_def fresh_entries_def)
next
  case False
  let ?n = "next_kv t + length ks"
  note e = new_rows_effect [OF assms(2,4-6), of tm]
  have ok: "skel_ok (skels (Kvs t @ new_rows tm (next_kv t) ks))" using e by (simp add: kv_inv_def)
  have w: "kv_write (Kvs t @ new_rows tm (next_kv t) ks) (t\<lparr>next_kv := ?n\<rparr>)
      = Inr (t\<lparr>next_kv := ?n, Kvs := Kvs t @ new_rows tm (next_kv t) ks\<rparr>)" by (rule kv_write_ok [OF ok])
  have c: "kv_inv (c\<lparr>next_kv := ?n\<rparr>)" using kv_inv_more_ids [OF assms(1)] assms(3) by simp
  show ?thesis
  proof (cases "check_all (\<lambda>k. wrap_err KTbl (Kv_ValidateCreate k)) ks")
    case (Inl err)
    then have "err \<noteq> DuplicateEntry" by (induction ks) (auto simp: res_simps split: sum.splits)
    then show ?thesis using assms(7) False Inl c
      by (auto simp: BatchCreateWithTx_def Let_def out_tx_def slift_def is_ok_def)
  next
    case (Inr u)
    then have "(res, c', t') = (Inr [next_kv t ..< ?n], c\<lparr>next_kv := ?n\<rparr>, t\<lparr>next_kv := ?n, Kvs := Kvs t @ new_rows tm (next_kv t) ks\<rparr>)"
      using assms(7) False w by (simp add: BatchCreateWithTx_def Let_def out_tx_def slift_def in_tx_def sput_def)
    then show ?thesis using e c by (simp add: kv_abs_def kv_inv_def)
  qed
qed

lemma doBatchUpsertVault_shape:
  "doBatchUpsertVault kt biz app order s = (res, s') \<Longrightarrow> res \<noteq> Inl DuplicateEntry \<and> (\<exists>v. s' = out_tx (\<lambda>st. st\<lparr>Vault := v\<rparr>) s)"
  by (auto simp: doBatchUpsertVault_def split: prod.splits option.splits)

lemma check_kvs_err: "check_kvs kt biz app versions ed seen qs = Inl e \<Longrightarrow> e \<noteq> DuplicateEntry"
  by (induction qs arbitrary: seen) (auto simp: res_simps Let_def split: if_splits option.splits prod.splits)

lemma checkTypes_err: "checkKVConfigItemTypes reqs kvs = Inl e \<Longrightarrow> e \<noteq> DuplicateEntry"
  unfolding checkKVConfigItemTypes_def by (induction reqs) (auto simp: res_simps ensure_def split: if_splits option.splits)

text \<open>The result of a transaction: what is committed, or what is left of it.\<close>

definition settled :: "(kv_abs \<Rightarrow> bool) \<Rightarrow> (kv_err + 'a) \<times> 'v tx \<Rightarrow> bool" where
  "settled Q r = (case r of (res, c, t) \<Rightarrow>
     res \<noteq> Inl DuplicateEntry \<and> (\<not> is_ok res \<longrightarrow> kv_inv c) \<and> (is_ok res \<longrightarrow> kv_inv t \<and> Q (kv_abs t)))"

lemma run_tx_settled:
  assumes "settled Q (body (st, st))" "run_tx body st = (res, st')"
  shows "res \<noteq> Inl DuplicateEntry \<and> kv_inv st' \<and> (is_ok res \<longrightarrow> Q (kv_abs st'))"
  using assms(2)
proof (rule run_tx_result)
  fix c t assume "body (st, st) = (res, c, t)" "st' = (if is_ok res then t else c)"
  then show ?thesis using assms(1) by (simp add: settled_def)
qed

lemma settled_err: "e \<noteq> DuplicateEntry \<Longrightarrow> kv_inv c \<Longrightarrow> settled Q (Inl e, c, t)"
  by (simp add: settled_def)

lemma settled_bind:
  assumes "\<And>e c t. r = (Inl e, c, t) \<Longrightarrow> e \<noteq> DuplicateEntry \<and> kv_inv c"
    "\<And>x c t. r = (Inr x, c, t) \<Longrightarrow> settled Q (k x (c, t))"
  shows "settled Q (sbind r k)"
proof -
  obtain x c t where r: "r = (x, c, t)" by (cases r) auto
  show ?thesis using assms by (cases x) (auto simp: r settled_def)
qed

lemma BatchUpsertKvs_effect:
  assumes inv: "kv_inv st" and b: "BatchUpsertKvs kt order biz app reqs replaceAll st = (res, st')"
  shows "res \<noteq> Inl DuplicateEntry \<and> kv_inv st' \<and> (is_ok res \<longrightarrow> kv_abs st' = batch_spec biz app reqs replaceAll (kv_abs st))"
proof -
  define kvs where "kvs = filter (\<lambda>r. kv_where biz app r \<and> kv_State r \<in> set live_states) (Kvs st)"
  define body where "body = (\<lambda>s.
       sbind (slift (checkKVConfigItemTypes reqs kvs) s) (\<lambda>_ s.
       sbind (clearDraftKVStore kt biz app replaceAll kvs s) (\<lambda>_ s.
       sbind (doBatchUpsertVault kt biz app order s) (\<lambda>versionMap s.
       sbind (slift (kv_ListAllByAppID app biz live_states (snd s)) s) (\<lambda>editingKvs s.
       sbind (slift (check_kvs kt biz app versionMap editingKvs [] reqs) s) (\<lambda>(toUpdate, toCreate) s.
       sbind (slift (checkKVConfigItemExceedsAppLimit kt biz app (int (length toCreate)) (int (length toUpdate)) (fst s)) s) (\<lambda>_ s.
       sbind (BatchCreateWithTx (Now kt) toCreate s) (\<lambda>createIds s.
       sbind (in_tx (BatchUpdateWithTx (Now kt) toUpdate) s) (\<lambda>_ s.
       (Inr (MergeAndDeduplicate createIds (map k_ID toUpdate)), s))))))))))"
  let ?Q = "\<lambda>a. a = batch_spec biz app reqs replaceAll (kv_abs st)"
  have "settled ?Q (body (st, st))"
    unfolding body_def
  proof (rule settled_bind, goal_cases)
    case (1 e c t)
    then show ?case using inv checkTypes_err by (auto simp: slift_def)
  next
    case (2 _ c t)
    then have s0: "c = st" "t = st" by (auto simp: slift_def)
    show ?case unfolding s0
    proof (rule settled_bind, goal_cases)
      case (1 e c t)
      then show ?case using clearDraft_effect [OF inv kvs_def] by blast
    next
      case (2 _ c1 t1)
      note cl = clearDraft_effect [OF inv kvs_def 2]
      show ?case
      proof (rule settled_bind, goal_cases)
        case (1 e c t)
        then show ?case using doBatchUpsertVault_shape [OF 1] cl same_kvs_inv [of c1 c] by (auto simp: out_tx_def same_kvs_def)
      next
        case (2 versions c2 t2)
        obtain v where v: "c2 = c1\<lparr>Vault := v\<rparr>" "t2 = t1\<lparr>Vault := v\<rparr>"
          using doBatchUpsertVault_shape [OF 2] by (auto simp: out_tx_def)
        have inv2: "kv_inv c2" "kv_inv t2" "next_kv c2 = next_kv t2"
          using cl v same_kvs_inv [of c1 c2] same_kvs_inv [of t1 t2] by (auto simp: same_kvs_def)
        define ed where "ed = filter (\<lambda>r. kv_where biz app r \<and> kv_State r \<in> set live_states) (Kvs t2)"
        show ?case
        proof (rule settled_bind, goal_cases)
          case (1 e c t)
          then show ?case using inv2 by (auto simp: slift_def kv_ListAllByAppID_def split: if_splits)
        next
          case (2 ed' c t)
          then have s: "ed' = ed" "c = c2" "t = t2" by (auto simp: slift_def kv_ListAllByAppID_def ed_def split: if_splits)
          show ?case unfolding s
          proof (rule settled_bind, goal_cases)
            case (1 e c t)
            then show ?case using inv2 by (auto simp: slift_def dest: check_kvs_err)
          next
            case (2 x c t)
            then obtain us cs where x: "x = (us, cs)" "check_kvs kt biz app versions ed [] reqs = Inr (us, cs)" "c = c2" "t = t2"
              by (cases x) (auto simp: slift_def)
            note sh = check_kvs_shape [OF x(2)]
            let ?new = "map (upsert_key biz app) (filter (\<lambda>q. \<forall>r \<in> set ed. Key (kv_Spec r) \<noteq> kq_Key q) reqs)"
            show ?case unfolding x prod.case
            proof (rule settled_bind, goal_cases)
              case (1 e c t)
              then show ?case using inv2 by (auto simp: slift_def checkKVConfigItemExceedsAppLimit_def ensure_def split: if_splits)
            next
              case (2 _ c t)
              then have s: "c = c2" "t = t2" by (auto simp: slift_def)
              have "distinct (map kkey cs)"
              proof -
                have "inj_on (upsert_key biz app) (set reqs)" using sh by (auto simp: inj_on_def upsert_key_def distinct_map)
                then show ?thesis using sh by (auto simp: distinct_map intro: inj_on_subset)
              qed
              moreover have "\<forall>k \<in> set cs. KvState k = KvStateAdd" using sh by blast
              moreover have "\<forall>q \<in> set (Kvs t2). kv_key q \<in> kkey ` set cs \<longrightarrow> kv_State q = KvStateDelete"
              proof (intro ballI impI)
                fix q assume q: "q \<in> set (Kvs t2)" "kv_key q \<in> kkey ` set cs"
                have "map kkey cs = ?new" using sh by blast
                then have "set (map kkey cs) = set ?new" by (rule arg_cong)
                then have "kv_key q \<in> set ?new" using q(2) by (simp only: set_map)
                then have "kv_where biz app q" "q \<notin> set ed" by (auto simp: upsert_key_def kv_key_def kv_where_def)
                then have "kv_State q \<notin> set live_states" using q(1) by (simp add: ed_def)
                then show "kv_State q = KvStateDelete" using kv_inv_state [OF inv2(2) q(1)]
                  by (auto simp: live_states_def known_state_def)
              qed
              ultimately have bc: "res \<noteq> Inl DuplicateEntry \<and> kv_inv c' \<and> (is_ok res \<longrightarrow> kv_inv t'
                \<and> Kvs t' = Kvs t2 @ new_rows (Now kt) (next_kv t2) cs
                \<and> kv_abs t' = (drafts_of (Kvs t2) \<union> fresh_entries (map kkey cs) (next_kv t2), base_of (Kvs t2), next_kv t2 + length cs))"
                if "BatchCreateWithTx (Now kt) cs (c2, t2) = (res, c', t')" for res c' t'
                by (rule BatchCreate_effect [OF inv2 _ _ _ that])
              show ?case unfolding s
              proof (rule settled_bind, goal_cases)
                case (1 e c t)
                then show ?case using bc by blast
              next
                case (2 ids c3 t3)
                note t3 = bc [OF 2]
                have "\<forall>k \<in> set us. matches_row (Kvs t3) k"
                proof
                  fix k assume "k \<in> set us"
                  then obtain r where "r \<in> set ed" "k_ID k = kv_ID r \<and> KvState k = kv_State r \<and> kkey k = (biz, app, Key (kv_Spec r))"
                    using sh by blast
                  then have "r \<in> set (Kvs t3)" "skel r = (k_ID k, kkey k, KvState k)"
                    using t3 by (auto simp: ed_def skel_def kv_key_def kv_where_def)
                  then show "matches_row (Kvs t3) k" unfolding matches_row_def by (metis image_eqI set_map)
                qed
                then obtain t4 where t4: "BatchUpdateWithTx (Now kt) us t3 = Inr t4" "same_skels t3 t4"
                  using BatchUpdate_same t3 by fastforce
                have "kv_abs t4 = batch_spec biz app reqs replaceAll (kv_abs st)"
                proof -
                  define D1 where "D1 = (if replaceAll then {p \<in> drafts_of (Kvs st). \<not> in_app biz app p} else drafts_of (Kvs st))"
                  have d: "drafts_of (Kvs t2) = D1" "base_of (Kvs t2) = base_of (Kvs st)" "next_kv t2 = next_kv st"
                    using cl unfolding v D1_def by auto
                  have n: "map kkey cs = filter (\<lambda>k. k \<notin> fst ` D1) (map (upsert_key biz app) reqs)"
                    using sh editing_keys [OF ed_def inv2(2)] unfolding d by simp
                  have l: "length (map kkey cs) = length cs" by simp
                  have "kv_abs t4 = kv_abs t3" by (rule same_skels_abs [OF t4(2)])
                  also have "\<dots> = (D1 \<union> fresh_entries (map kkey cs) (next_kv st), base_of (Kvs st), next_kv st + length (map kkey cs))"
                    unfolding l d [symmetric] using t3 by simp
                  also have "\<dots> = batch_spec biz app reqs replaceAll (kv_abs st)"
                    unfolding batch_spec_def kv_abs_def prod.case Let_def D1_def [symmetric] n ..
                  finally show ?thesis .
                qed
                then show ?case using t4 t3 same_skels_inv by (auto simp: in_tx_def sput_def settled_def)
              qed
            qed
          qed
        qed
      qed
    qed
  qed
  note tx = run_tx_settled [where Q = ?Q and body = body, OF this]
  consider e where "(res, st') = (Inl e, st)" "e \<noteq> DuplicateEntry" | "run_tx body st = (res, st')"
  proof (cases "get_app biz app st")
    case (Inl e)
    then show thesis using b that(1) by (auto simp: BatchUpsertKvs_def slift_def get_app_def split: option.splits)
  next
    case (Inr a)
    note F = b [unfolded BatchUpsertKvs_def slift_def Inr sbind_simps, folded slift_def]
    let ?types = "check_all (\<lambda>q. ensure (checkKVTypeMatch (kq_KvType q) (DataType a)) KTypeMismatch) reqs"
    consider e where "?types = Inl e" | "?types = Inr ()" by (cases "?types") auto
    then show thesis
    proof cases
      case 1
      then have "e = KTypeMismatch" by (auto simp: check_all_first_error ensure_Inl_iff)
      then show thesis using F 1 that(1) by (cases "ConfigType a = KV") (auto simp: slift_def ensure_def)
    next
      case 2
      show thesis
      proof (cases "app = 0 \<or> biz = 0 \<or> ConfigType a \<noteq> KV")
        case True
        then show thesis using F 2 that(1) by (auto simp: slift_def ensure_def kv_ListAllByAppID_def split: if_splits)
      next
        case False
        then have "run_tx body st = (res, st')"
          using F 2 unfolding body_def kvs_def by (simp add: slift_def ensure_def kv_ListAllByAppID_def)
        then show thesis by (rule that(2))
      qed
    qed
  qed
  then show ?thesis
  proof cases
    case 1
    then show ?thesis using inv by simp
  next
    case 2
    then show ?thesis by (rule tx)
  qed
qed

section \<open>Releases\<close>

text \<open>A step that leaves the drafts and the applications alone.\<close>

definition still :: "'v kv_store \<Rightarrow> 'v kv_store \<Rightarrow> bool" where
  "still st st' \<longleftrightarrow> same_kvs st st' \<and> KvApps st' = KvApps st"

definition tx_still :: "'v kv_store \<Rightarrow> 'v tx \<Rightarrow> bool" where
  "tx_still st s \<longleftrightarrow> still st (fst s) \<and> still st (snd s)"

lemmas still_defs = tx_still_def still_def same_kvs_def

text \<open>What a step of a release may do before the last one.\<close>

definition quiet :: "'v kv_store \<Rightarrow> (kv_err + 'a) \<times> 'v tx \<Rightarrow> bool" where
  "quiet st r \<longleftrightarrow> fst r \<noteq> Inl DuplicateEntry \<and> tx_still st (snd r)"

lemma quiet_bind: "quiet st r \<Longrightarrow> (\<And>x s. tx_still st s \<Longrightarrow> quiet st (k x s)) \<Longrightarrow> quiet st (sbind r k)"
  by (cases r; cases "fst r") (auto simp: quiet_def)

lemma quiet_slift: "tx_still st s \<Longrightarrow> r \<noteq> Inl DuplicateEntry \<Longrightarrow> quiet st (slift r s)"
  by (simp add: quiet_def slift_def)

lemma quiet_return: "tx_still st s \<Longrightarrow> quiet st (Inr x, s)"
  by (simp add: quiet_def)

lemma quiet_in_tx:
  "tx_still st s \<Longrightarrow> f (snd s) \<noteq> Inl DuplicateEntry \<Longrightarrow> (\<And>t. f (snd s) = Inr t \<Longrightarrow> still (snd s) t) \<Longrightarrow> quiet st (in_tx f s)"
  by (cases "f (snd s)") (auto simp: quiet_def in_tx_def sput_def still_defs)

lemma tx_still_out: "tx_still st s \<Longrightarrow> (\<And>x. still x (f x)) \<Longrightarrow> tx_still st (out_tx f s)"
  by (auto simp: out_tx_def still_defs)

lemma wrap_KTbl [simp]: "wrap_err KTbl r \<noteq> Inl DuplicateEntry" "wrap_err KVault r' \<noteq> Inl DuplicateEntry"
  by (auto simp: res_simps wrap_err_def split: sum.splits)

lemma release_CreateWithTx_quiet: "tx_still st s \<Longrightarrow> quiet st (release_CreateWithTx kt biz app spec s)"
  unfolding release_CreateWithTx_def Let_def
  by (intro quiet_bind quiet_slift quiet_return quiet_in_tx tx_still_out)
    (auto simp: get_app_def still_defs split: option.splits)

lemma copy_hook_quiet: "tx_still st s \<Longrightarrow> quiet st (copy_hook biz app rel tp s)"
  unfolding copy_hook_def Let_def
proof (intro quiet_bind quiet_slift, goal_cases)
  case (3 x s)
  then show ?case
    by (cases x) (auto intro!: quiet_bind quiet_slift quiet_return quiet_in_tx tx_still_out simp: still_defs)
qed (auto simp: GetReleasedHook_def)

lemma doBatchReleasedVault_shape:
  "doBatchReleasedVault kt rel kvs st = (res, st') \<Longrightarrow> res \<noteq> Inl DuplicateEntry \<and> (\<exists>v. st' = st\<lparr>Vault := v\<rparr>)"
proof (induction kvs arbitrary: st res st')
  case Nil
  then show ?case by (auto intro: exI [of _ "Vault st"])
next
  case (Cons x kvs)
  obtain r y where x: "x = (r, y)" by (cases x)
  obtain n st1 where p: "vault_put (CreateRKv (Api kt) (Dec kt) (kv_BizID r) (kv_AppID r) rel (Key (kv_Spec r)) (KvType (kv_Spec r)) y) st = (n, st1)"
    by fastforce
  then obtain v where v: "st1 = st\<lparr>Vault := v\<rparr>" using vault_put_kvs by blast
  show ?case
  proof (cases n)
    case (Inl e)
    then have "res = Inl e" "st' = st1" "e \<noteq> DuplicateEntry" using Cons.prems p by (auto simp: x vault_put_def split: sum.splits)
    then show ?thesis using v by blast
  next
    case (Inr m)
    obtain res2 st2 where r2: "doBatchReleasedVault kt rel kvs st1 = (res2, st2)" by fastforce
    then show ?thesis using Cons.prems Cons.IH [OF r2] p Inr v by (cases res2) (auto simp: x)
  qed
qed

lemma outside_quiet:
  assumes "tx_still st s" "\<And>r c. f (fst s) = (r, c) \<Longrightarrow> r \<noteq> Inl DuplicateEntry \<and> (\<exists>v. c = (fst s)\<lparr>Vault := v\<rparr>)"
  shows "quiet st (outside f s)"
proof -
  obtain r c where f: "f (fst s) = (r, c)" by fastforce
  then show ?thesis using assms(1) assms(2) [OF f] by (auto simp: outside_def quiet_def still_defs)
qed

lemma BulkCreate_quiet: "tx_still st s \<Longrightarrow> quiet st (BulkCreateWithTx rs s)"
proof -
  assume s: "tx_still st s"
  have "check_all (\<lambda>r. wrap_err KTbl (ReleasedKv_ValidateCreate r)) rs \<noteq> Inl DuplicateEntry"
    by (auto simp: check_all_first_error)
  then show ?thesis unfolding BulkCreateWithTx_def Let_def
    using s by (auto intro!: quiet_bind quiet_slift quiet_return quiet_in_tx tx_still_out simp: still_def same_kvs_def)
qed

lemma genCreateKv_err: "genCreateKv kt biz app v rs \<noteq> Inl DuplicateEntry"
  by (induction rs) (auto simp: res_simps split: prod.splits)

text \<open>The end of a release: the drafts of the application become its basis.\<close>

definition release_spec :: "nat \<Rightarrow> nat \<Rightarrow> kv_abs \<Rightarrow> kv_abs" where
  "release_spec biz app a = (case a of (D, B, i) \<Rightarrow> (D, {p \<in> B. \<not> in_app biz app p} \<union> {p \<in> D. in_app biz app p}, i))"

definition released_rows :: "nat \<Rightarrow> nat \<Rightarrow> kv_row list \<Rightarrow> kv_row list" where
  "released_rows biz app rs = map (\<lambda>r. if kv_where biz app r \<and> kv_State r \<in> {KvStateAdd, KvStateRevise} then r\<lparr>kv_State := KvStateUnchange\<rparr> else r)
     (filter (\<lambda>r. \<not> (kv_where biz app r \<and> kv_State r = KvStateDelete)) rs)"

lemma set_map_where: "{y \<in> set (map f xs). P y} = f ` {x \<in> set xs. P (f x)}"
  by auto

lemma released_rows_effect:
  assumes "kv_inv st"
  shows "kv_inv (st\<lparr>Kvs := released_rows biz app (Kvs st)\<rparr>)"
    "kv_abs (st\<lparr>Kvs := released_rows biz app (Kvs st)\<rparr>) = release_spec biz app (kv_abs st)"
proof -
  let ?P = "\<lambda>r. \<not> (kv_where biz app r \<and> kv_State r = KvStateDelete)"
  let ?f = "\<lambda>r. if kv_where biz app r \<and> kv_State r \<in> {KvStateAdd, KvStateRevise} then r\<lparr>kv_State := KvStateUnchange\<rparr> else r"
  let ?rs = "filter ?P (Kvs st)"
  let ?st1 = "st\<lparr>Kvs := ?rs\<rparr>"
  have inv1: "kv_inv ?st1" by (rule kv_inv_filter [OF assms])
  have f: "kv_ID (?f r) = kv_ID r" "kv_key (?f r) = kv_key r" "entry (?f r) = entry r" for r
    by (simp_all add: kv_key_def entry_def)
  have fU: "kv_State (?f r) = KvStateUnchange" if "r \<in> set ?rs" "kv_where biz app r" for r
    using kv_inv_state [OF inv1, of r] that by (auto simp: known_state_def)
  have fO: "?f r = r" if "\<not> kv_where biz app r" for r using that by simp
  have "skel_ok (skels (map ?f ?rs))"
  proof (rule skel_okI)
    have e: "map fst (skels (map ?f ?rs)) = map fst (skels ?rs)" by (simp add: skel_def f)
    have ok: "skel_ok (skels ?rs)" using inv1 by (simp add: kv_inv_def)
    show "distinct (map fst (skels (map ?f ?rs)))" unfolding e by (rule skel_ok_parts(1) [OF ok])
    show "0 < i \<and> known_state s" if m: "(i, k, s) \<in> set (skels (map ?f ?rs))" for i k s
    proof -
      from m obtain r where "r \<in> set ?rs" "(i, k, s) = skel (?f r)" by (auto simp del: set_filter)
      then show ?thesis using kv_inv_state [OF inv1, of r] by (auto simp: skel_def known_state_def)
    qed
    show "compat s t" if m: "(i, k, s) \<in> set (skels (map ?f ?rs))" "(j, k, t) \<in> set (skels (map ?f ?rs))" "i \<noteq> j" for i j k s t
    proof -
      from m(1) obtain r where r: "r \<in> set ?rs" "(i, k, s) = skel (?f r)" by (auto simp del: set_filter)
      from m(2) obtain q where q: "q \<in> set ?rs" "(j, k, t) = skel (?f q)" by (auto simp del: set_filter)
      have ids: "i = kv_ID r" "j = kv_ID q" "kv_key r = k" "kv_key q = k" using r(2) q(2) f by (auto simp: skel_def)
      then have c: "compat (kv_State r) (kv_State q)" using kv_inv_compat [OF inv1, of r q] r(1) q(1) m(3) by auto
      have same: "kv_where biz app q = kv_where biz app r" using ids(3,4) by (auto simp: kv_key_def kv_where_def)
      have "\<not> kv_where biz app r" using c r(1) q(1) same by (auto simp: compat_def)
      then show ?thesis using c r(2) q(2) same by (auto simp: skel_def)
    qed
  qed
  then show "kv_inv (st\<lparr>Kvs := released_rows biz app (Kvs st)\<rparr>)"
    using assms f(1) by (auto simp: kv_inv_def released_rows_def)
  have im: "entry ` {r \<in> set (map ?f ?rs). R (kv_State r)} = entry ` {r \<in> set ?rs. R (kv_State (?f r))}" for R
    unfolding set_map_where image_image f(3) ..
  have "drafts_of (map ?f ?rs) = drafts_of (Kvs st)"
  proof -
    have "{r \<in> set ?rs. kv_State (?f r) \<noteq> KvStateDelete} = {r \<in> set (Kvs st). kv_State r \<noteq> KvStateDelete}" by auto
    then show ?thesis unfolding drafts_of_def im [of "\<lambda>s. s \<noteq> KvStateDelete"] by (rule arg_cong)
  qed
  moreover have "base_of (map ?f ?rs) = {p \<in> base_of (Kvs st). \<not> in_app biz app p} \<union> {p \<in> drafts_of (Kvs st). in_app biz app p}"
  proof -
    have "{r \<in> set ?rs. kv_State (?f r) \<noteq> KvStateAdd}
      = {r \<in> set (Kvs st). kv_State r \<noteq> KvStateAdd \<and> \<not> kv_where biz app r} \<union> {r \<in> set (Kvs st). kv_State r \<noteq> KvStateDelete \<and> kv_where biz app r}"
      by auto
    then have "base_of (map ?f ?rs) = entry ` ({r \<in> set (Kvs st). kv_State r \<noteq> KvStateAdd \<and> \<not> kv_where biz app r}
        \<union> {r \<in> set (Kvs st). kv_State r \<noteq> KvStateDelete \<and> kv_where biz app r})"
      unfolding base_of_def im [of "\<lambda>s. s \<noteq> KvStateAdd"] by (rule arg_cong)
    also have "\<dots> = {p \<in> base_of (Kvs st). \<not> in_app biz app p} \<union> {p \<in> drafts_of (Kvs st). in_app biz app p}"
      unfolding image_Un by (auto simp: base_of_def drafts_of_def)
    finally show ?thesis .
  qed
  ultimately show "kv_abs (st\<lparr>Kvs := released_rows biz app (Kvs st)\<rparr>) = release_spec biz app (kv_abs st)"
    by (simp add: kv_abs_def release_spec_def released_rows_def)
qed

lemma cleanUpKV_effect:
  assumes inv: "kv_inv (snd s)" and k: "Kvs (fst s) = Kvs (snd s)" and c: "cleanUpKV biz app s = (res, s')"
  shows "res \<noteq> Inl DuplicateEntry \<and> fst s' = fst s
    \<and> (is_ok res \<longrightarrow> snd s' = (snd s)\<lparr>Kvs := released_rows biz app (Kvs (snd s))\<rparr>)"
proof (cases "app = 0 \<or> biz = 0")
  case True
  then obtain x where "kv_ListAllByAppID app biz [KvStateDelete] (fst s) = Inl (BadParameter x)"
    by (cases "app = 0") (simp_all add: kv_ListAllByAppID_def)
  then show ?thesis using c by (auto simp: cleanUpKV_def slift_def)
next
  case False
  obtain c0 t0 where s: "s = (c0, t0)" by (cases s)
  define gone where "gone = (\<lambda>r. kv_where biz app r \<and> kv_State r = KvStateDelete)"
  let ?t1 = "t0\<lparr>Kvs := filter (\<lambda>r. \<not> gone r) (Kvs t0)\<rparr>"
  have l: "kv_ListAllByAppID app biz [KvStateDelete] c0 = Inr (filter gone (Kvs t0))"
    using False k by (simp add: kv_ListAllByAppID_def gone_def s)
  have d: "DeleteByStateWithTx biz app KvStateDelete t0 = Inr ?t1" if "filter gone (Kvs t0) \<noteq> []"
  proof -
    have "find gone (Kvs t0) \<noteq> None" using that by (auto simp: find_None_iff filter_empty_conv)
    then show ?thesis using False by (auto simp: DeleteByStateWithTx_def gone_def)
  qed
  have "?t1 = t0" if "filter gone (Kvs t0) = []"
  proof -
    have "filter (\<lambda>r. \<not> gone r) (Kvs t0) = Kvs t0" using that by (auto simp: filter_empty_conv intro!: filter_True)
    then show ?thesis by simp
  qed
  then have step: "sbind (if filter gone (Kvs t0) \<noteq> [] then in_tx (DeleteByStateWithTx biz app KvStateDelete) (c0, t0) else (Inr (), c0, t0)) g
      = g () (c0, ?t1)" for g :: "unit \<Rightarrow> 'a tx \<Rightarrow> (kv_err + unit) \<times> 'a tx"
    using d by (cases "filter gone (Kvs t0) = []") (simp_all add: in_tx_def sput_def)
  have rr: "released_rows biz app (Kvs t0) = map (\<lambda>r. if kv_where biz app r \<and> kv_State r \<in> set [KvStateAdd, KvStateRevise]
      then r\<lparr>kv_State := KvStateUnchange\<rparr> else r) (filter (\<lambda>r. \<not> gone r) (Kvs t0))"
    by (simp add: released_rows_def gone_def)
  have "kv_inv t0" using inv s by simp
  then have "skel_ok (skels (released_rows biz app (Kvs t0)))"
    using released_rows_effect(1) [of t0 biz app] by (simp add: kv_inv_def)
  then have "kv_write (released_rows biz app (Kvs t0)) ?t1 = Inr (?t1\<lparr>Kvs := released_rows biz app (Kvs t0)\<rparr>)" by (rule kv_write_ok)
  then have u: "UpdateSelectedKVStates biz app [KvStateAdd, KvStateRevise] KvStateUnchange ?t1 = Inr (?t1\<lparr>Kvs := released_rows biz app (Kvs t0)\<rparr>)"
    using False by (simp add: UpdateSelectedKVStates_def rr)
  have "(res, s') = in_tx (UpdateSelectedKVStates biz app [KvStateAdd, KvStateRevise] KvStateUnchange) (c0, ?t1)"
    using c unfolding cleanUpKV_def s slift_def fst_conv l sbind_simps step by simp
  then show ?thesis unfolding in_tx_def snd_conv u by (simp add: sput_def s)
qed

definition quiet_file :: "(nat \<Rightarrow> 'v tx \<Rightarrow> (kv_err + unit) \<times> 'v tx) \<Rightarrow> bool" where
  "quiet_file file \<longleftrightarrow> (\<forall>st rel s. tx_still st s \<longrightarrow> quiet st (file rel s))"

lemma quiet_settled:
  assumes "quiet st r" "kv_inv st" "\<And>x s. tx_still st s \<Longrightarrow> settled Q (k x s)"
  shows "settled Q (sbind r k)"
proof (rule settled_bind)
  fix e c t assume r: "r = (Inl e, c, t)"
  then have "same_kvs st c" using assms(1) by (auto simp: quiet_def tx_still_def still_def)
  then show "e \<noteq> DuplicateEntry \<and> kv_inv c" using assms(1,2) same_kvs_inv by (auto simp: quiet_def r)
next
  fix x c t assume "r = (Inr x, c, t)"
  then show "settled Q (k x (c, t))" using assms(1,3) by (auto simp: quiet_def)
qed

lemma still_settled:
  assumes "kv_inv st" "tx_still st s" "Q (kv_abs st)"
  shows "settled Q (Inr x, s)"
proof -
  have "same_kvs st (snd s)" using assms(2) by (simp add: tx_still_def still_def)
  then show ?thesis using assms same_kvs_inv [of st "snd s"] same_kvs_abs [of st "snd s"] by (cases s) (simp add: settled_def)
qed

lemma CreateRelease_effect:
  assumes inv: "kv_inv st" and qf: "quiet_file file" and r: "CreateRelease kt file biz app req st = (res, st')"
  shows "res \<noteq> Inl DuplicateEntry \<and> kv_inv st' \<and> (is_ok res \<longrightarrow> (\<exists>a. find (\<lambda>a. ap_ID a = app) (KvApps st) = Some a
    \<and> kv_abs st' = (if ConfigType a = KV then release_spec biz app (kv_abs st) else kv_abs st)))"
proof (cases "find (\<lambda>a. ap_ID a = app) (KvApps st)")
  case None
  then show ?thesis using r inv by (auto simp: CreateRelease_def)
next
  case (Some a)
  define body where "body = (\<lambda>s.
            sbind (release_CreateWithTx kt biz app req s) (\<lambda>rel s.
            sbind (copy_hook biz app rel PreHook s) (\<lambda>_ s.
            sbind (copy_hook biz app rel PostHook s) (\<lambda>_ s.
            sbind (case ConfigType a of
                File \<Rightarrow> file rel s
              | KV \<Rightarrow>
                  if checkForExpiredCertificates kt biz app (fst s) > 0 then (Inl CertificateExpired, s)
                  else doKvOperations kt app biz rel s
              | _ \<Rightarrow> (Inr (), s)) (\<lambda>_ s.
            (Inr rel, s))))))"
  let ?Q = "\<lambda>b. b = (if ConfigType a = KV then release_spec biz app (kv_abs st) else kv_abs st)"
  have last: "settled ?Q (sbind (doKvOperations kt app biz rel s) (\<lambda>_ s. (Inr rel, s)))"
    if t: "tx_still st s" and K: "ConfigType a = KV" for rel s
  proof -
    have sb: "sbind (sbind r g) h = sbind r (\<lambda>x s. sbind (g x s) h)" for r :: "(kv_err + 'y) \<times> 'x tx"
      and g :: "'y \<Rightarrow> 'x tx \<Rightarrow> (kv_err + unit) \<times> 'x tx" and h :: "unit \<Rightarrow> 'x tx \<Rightarrow> (kv_err + nat) \<times> 'x tx"
      by (cases r; cases "fst r") (auto simp: sbind_def)
    show ?thesis
      unfolding doKvOperations_def sb
    proof (rule quiet_settled [OF _ inv], goal_cases)
      case 1
      then show ?case using t by (auto intro!: quiet_slift simp: kv_ListAllByAppID_def)
    next
      case (2 details s1)
      show ?case
      proof (rule quiet_settled [OF _ inv], goal_cases)
        case 1
        then show ?case using 2 by (intro quiet_slift genCreateKv_err)
      next
        case (2 kvs s2)
        show ?case
        proof (rule quiet_settled [OF _ inv], goal_cases)
          case 1
          then show ?case using doBatchReleasedVault_shape by (intro outside_quiet [OF 2]) blast
        next
          case (2 versions s3)
          show ?case
          proof (rule quiet_settled [OF _ inv], goal_cases)
            case 1
            then show ?case by (rule BulkCreate_quiet [OF 2])
          next
            case (2 _ s4)
            obtain res s5 where cl: "cleanUpKV biz app s4 = (res, s5)" by (cases "cleanUpKV biz app s4")
            have sk: "same_kvs st (snd s4)" "same_kvs st (fst s4)" "Kvs (fst s4) = Kvs (snd s4)" using 2 by (auto simp: still_defs)
            have i4: "kv_inv (snd s4)" "kv_inv (fst s4)" using same_kvs_inv inv sk(1,2) by blast+
            note e = cleanUpKV_effect [OF i4(1) sk(3) cl]
            have "kv_inv ((snd s4)\<lparr>Kvs := released_rows biz app (Kvs (snd s4))\<rparr>)"
              "kv_abs ((snd s4)\<lparr>Kvs := released_rows biz app (Kvs (snd s4))\<rparr>) = release_spec biz app (kv_abs st)"
              using released_rows_effect [OF i4(1)] same_kvs_abs [OF sk(1)] by simp_all
            then show ?case unfolding cl using e i4(2) K
              by (cases res; cases s5) (auto simp: settled_def)
          qed
        qed
      qed
    qed
  qed
  have b: "settled ?Q (body (st, st))"
    unfolding body_def
  proof (rule quiet_settled [OF release_CreateWithTx_quiet inv], goal_cases)
    case 1
    then show ?case by (simp add: still_defs)
  next
    case (2 rel s1)
    show ?case
    proof (rule quiet_settled [OF copy_hook_quiet [OF 2] inv], rule quiet_settled [OF copy_hook_quiet inv], assumption)
      fix s3 assume t3: "tx_still st s3"
      let ?rest = "sbind (case ConfigType a of File \<Rightarrow> file rel s3
        | KV \<Rightarrow> if checkForExpiredCertificates kt biz app (fst s3) > 0 then (Inl CertificateExpired, s3) else doKvOperations kt app biz rel s3
        | _ \<Rightarrow> (Inr (), s3)) (\<lambda>_ s. (Inr rel, s))"
      show "settled ?Q ?rest"
      proof (cases "ConfigType a")
        case KV
        have "same_kvs st (fst s3)" using t3 by (simp add: tx_still_def still_def)
        then have "kv_inv (fst s3)" using same_kvs_inv inv by blast
        then have "settled ?Q (Inl CertificateExpired :: kv_err + nat, s3)" by (cases s3) (simp add: settled_def)
        then show ?thesis using last [OF t3 KV] by (simp add: KV)
      next
        case File
        have "quiet st (file rel s3)" using qf t3 unfolding quiet_file_def by blast
        then show ?thesis using File by (auto intro!: quiet_settled [OF _ inv] still_settled [OF inv])
      qed (auto intro!: still_settled [OF inv t3])
    qed
  qed
  show ?thesis
  proof (cases "GetReleaseByName biz app (rq_Name req) st = None")
    case False
    then show ?thesis using r Some inv by (auto simp: CreateRelease_def)
  next
    case True
    then have "run_tx body st = (res, st')" using r Some by (simp add: CreateRelease_def body_def)
    then show ?thesis using run_tx_settled [where Q = ?Q and body = body, OF b] Some by auto
  qed
qed

section \<open>The handlers refine the drafts and the basis\<close>

text \<open>
  The operations a client calls. Those on releases are for key-value applications; what a release of
  configuration files does is a parameter and stands aside, in \<open>kv_step\<close>.
\<close>

datatype 'v kv_op =
    OpCreate "'v kv_kit" nat nat kv_req
  | OpUpdate "'v kv_kit" nat nat kv_req
  | OpDelete "'v kv_kit" nat nat nat
  | OpUnDelete "'v kv_kit" nat nat string
  | OpUndo "'v kv_kit" nat nat string
  | OpBatch "'v kv_kit" "kv_req list" nat nat "kv_req list" bool
  | OpRelease "'v kv_kit" nat nat release_req
  | OpDeprecate "released_group list" nat nat nat
  | OpUnDeprecate nat nat nat
  | OpDeleteRelease nat nat nat

definition err_of :: "(kv_err + 'a) \<times> 's \<Rightarrow> kv_err option \<times> 's" where
  "err_of r = (case fst r of Inl e \<Rightarrow> Some e | Inr _ \<Rightarrow> None, snd r)"

definition is_kv_app :: "nat \<Rightarrow> 'v kv_store \<Rightarrow> bool" where
  "is_kv_app app st = (case find (\<lambda>a. ap_ID a = app) (KvApps st) of None \<Rightarrow> False | Some a \<Rightarrow> ConfigType a = KV)"

fun kv_exec :: "'v kv_op \<Rightarrow> 'v kv_store \<Rightarrow> kv_err option \<times> 'v kv_store" where
  "kv_exec (OpCreate kt biz app req) st = err_of (CreateKv kt biz app req st)"
| "kv_exec (OpUpdate kt biz app req) st = err_of (UpdateKv kt biz app req st)"
| "kv_exec (OpDelete kt biz app i) st = err_of (DeleteKv kt biz app i st)"
| "kv_exec (OpUnDelete kt biz app key) st = err_of (UnDeleteKv kt biz app key st)"
| "kv_exec (OpUndo kt biz app key) st = err_of (UndoKv kt biz app key st)"
| "kv_exec (OpBatch kt order biz app reqs replaceAll) st = err_of (BatchUpsertKvs kt order biz app reqs replaceAll st)"
| "kv_exec (OpRelease kt biz app req) st =
     (if is_kv_app app st then err_of (CreateRelease kt (\<lambda>_ s. (Inr (), s)) biz app req st) else (Some NotKvApp, st))"
| "kv_exec (OpDeprecate rgs biz app rel) st = err_of (DeprecateRelease rgs biz app rel st)"
| "kv_exec (OpUnDeprecate biz app rel) st = err_of (UnDeprecateRelease biz app rel st)"
| "kv_exec (OpDeleteRelease biz app rel) st =
     (if is_kv_app app st then err_of (DeleteRelease (\<lambda>_ st. Inr st) biz app rel st) else (Some NotKvApp, st))"

fun kv_spec_op :: "'v kv_op \<Rightarrow> kv_abs \<Rightarrow> kv_abs" where
  "kv_spec_op (OpCreate kt biz app req) (D, B, i) = (insert ((biz, app, kq_Key req), i) D, B, i + 1)"
| "kv_spec_op (OpDelete kt biz app j) (D, B, i) = ({p \<in> D. snd p \<noteq> j}, B, i)"
| "kv_spec_op (OpUnDelete kt biz app key) (D, B, i) =
     ({p \<in> D. fst p \<noteq> (biz, app, key)} \<union> {p \<in> B. fst p = (biz, app, key)}, B, i)"
| "kv_spec_op (OpBatch kt order biz app reqs replaceAll) a = batch_spec biz app reqs replaceAll a"
| "kv_spec_op (OpRelease kt biz app req) a = release_spec biz app a"
| "kv_spec_op _ a = a"

lemma DeleteRelease_effect:
  assumes "DeleteRelease (\<lambda>_ st. Inr st) biz app rel st = (res, st')" "kv_inv st"
  shows "res \<noteq> Inl DuplicateEntry \<and> kv_inv st' \<and> kv_abs st' = kv_abs st"
proof -
  have "res \<noteq> Inl DuplicateEntry \<and> same_kvs st st'"
    using assms(1) unfolding DeleteRelease_def
    by (auto simp: slift_def get_app_def run_tx_def in_tx_def sput_def deleteReleaseRelatedResources_def same_kvs_def sbind_def
        split: option.splits if_splits sum.splits prod.splits config_type.splits)
  then show ?thesis using same_kvs_inv same_kvs_abs assms(2) by blast
qed

lemma quiet_no_file: "quiet_file (\<lambda>_ s. (Inr (), s))"
  by (simp add: quiet_file_def quiet_def)

lemma err_of_iff [simp]: "err_of (r, s) = (e, s') \<longleftrightarrow> s' = s \<and> (e = None \<longleftrightarrow> is_ok r) \<and> (\<forall>x. e = Some x \<longleftrightarrow> r = Inl x)"
  by (cases r; cases e) (auto simp: err_of_def)

lemma kv_exec_effect:
  assumes inv: "kv_inv st" and x: "kv_exec p st = (e, st')"
  shows "e \<noteq> Some DuplicateEntry \<and> kv_inv st' \<and> (e = None \<longrightarrow> kv_abs st' = kv_spec_op p (kv_abs st))"
proof (cases p)
  case (OpCreate kt biz app req)
  obtain res s where r: "CreateKv kt biz app req st = (res, s)" by (cases "CreateKv kt biz app req st")
  then show ?thesis using CreateKv_effect [OF inv r] x by (cases res) (auto simp: OpCreate kv_abs_def)
next
  case (OpUpdate kt biz app req)
  obtain res s where r: "UpdateKv kt biz app req st = (res, s)" by (cases "UpdateKv kt biz app req st")
  then show ?thesis using UpdateKv_effect [OF inv r] x by (cases res) (auto simp: OpUpdate kv_abs_def)
next
  case (OpDelete kt biz app i)
  obtain res s where r: "DeleteKv kt biz app i st = (res, s)" by (cases "DeleteKv kt biz app i st")
  then show ?thesis using DeleteKv_effect [OF inv r] x by (cases res) (auto simp: OpDelete kv_abs_def)
next
  case (OpUnDelete kt biz app key)
  obtain res s where r: "UnDeleteKv kt biz app key st = (res, s)" by (cases "UnDeleteKv kt biz app key st")
  then show ?thesis using UnDeleteKv_effect [OF inv r] x by (cases res) (auto simp: OpUnDelete kv_abs_def)
next
  case (OpUndo kt biz app key)
  obtain res s where r: "UndoKv kt biz app key st = (res, s)" by (cases "UndoKv kt biz app key st")
  then show ?thesis using UndoKv_effect [OF inv r] x by (cases res) (auto simp: OpUndo kv_abs_def)
next
  case (OpBatch kt order biz app reqs replaceAll)
  obtain res s where r: "BatchUpsertKvs kt order biz app reqs replaceAll st = (res, s)"
    by (cases "BatchUpsertKvs kt order biz app reqs replaceAll st")
  then show ?thesis using BatchUpsertKvs_effect [OF inv r] x by (cases res) (auto simp: OpBatch kv_abs_def)
next
  case (OpRelease kt biz app req)
  show ?thesis
  proof (cases "is_kv_app app st")
    case False
    then show ?thesis using x inv by (auto simp: OpRelease)
  next
    case True
    obtain res s where r: "CreateRelease kt (\<lambda>_ s. (Inr (), s)) biz app req st = (res, s)"
      by (cases "CreateRelease kt (\<lambda>_ s. (Inr (), s)) biz app req st")
    then show ?thesis using CreateRelease_effect [OF inv quiet_no_file r] x True
      by (cases res) (auto simp: OpRelease kv_abs_def is_kv_app_def)
  qed
next
  case (OpDeleteRelease biz app rel)
  obtain res s where r: "DeleteRelease (\<lambda>_ st. Inr st) biz app rel st = (res, s)"
    by (cases "DeleteRelease (\<lambda>_ st. Inr st) biz app rel st")
  then show ?thesis using DeleteRelease_effect [OF r inv] x inv
    by (cases res) (auto simp: OpDeleteRelease kv_abs_def split: if_splits)
next
  case (OpDeprecate rgs biz app rel)
  then show ?thesis using x inv
    by (auto simp: DeprecateRelease_def UpdateDeprecated_def kv_abs_def kv_inv_def split: if_splits option.splits)
next
  case (OpUnDeprecate biz app rel)
  then show ?thesis using x inv
    by (auto simp: UnDeprecateRelease_def UpdateDeprecated_def kv_abs_def kv_inv_def split: if_splits option.splits)
qed

definition kv_init :: "'v kv_store \<Rightarrow> bool" where
  "kv_init st \<longleftrightarrow> Kvs st = [] \<and> 0 < next_kv st"

definition kv_step :: "'v kv_store \<Rightarrow> 'v kv_store \<Rightarrow> bool" where
  "kv_step st st' \<longleftrightarrow> (\<exists>p e. kv_exec p st = (e, st'))
     \<or> (\<exists>kt file biz app req res. quiet_file file \<and> CreateRelease kt file biz app req st = (res, st'))"

definition kv_run_op :: "'v kv_op \<Rightarrow> 'v kv_store \<Rightarrow> bool \<times> 'v kv_store" where
  "kv_run_op p st = (fst (kv_exec p st) = None, snd (kv_exec p st))"

abbreviation kv_reachable :: "'v kv_store \<Rightarrow> bool" where
  "kv_reachable \<equiv> reach kv_init kv_step"

interpretation kvs: transition_system kv_init kv_step kv_inv
proof
  show "kv_inv s" if "kv_init s" for s :: "'a kv_store"
    using that by (simp add: kv_init_def kv_inv_def skel_ok_def)
  show "kv_inv s'" if inv: "kv_inv s" and st: "kv_step s s'" for s s' :: "'a kv_store"
    using st unfolding kv_step_def
  proof (elim disjE exE conjE)
    fix p e assume "kv_exec p s = (e, s')"
    then show ?thesis using kv_exec_effect [OF inv] by blast
  next
    fix kt fl biz app req res assume "quiet_file fl" "CreateRelease kt fl biz app req s = (res, s')"
    then show ?thesis using CreateRelease_effect [OF inv] by blast
  qed
qed

interpretation kv_ops: refined_operations kv_run_op kv_inv kv_abs kv_spec_op
proof
  show "kv_inv (snd (kv_run_op p s))" if "kv_inv s" for s :: "'a kv_store" and p
    using kv_exec_effect [OF that, of p] by (cases "kv_exec p s") (simp add: kv_run_op_def)
  show "kv_abs s' = kv_spec_op p (kv_abs s)" if "kv_inv s" "kv_run_op p s = (True, s')" for s s' :: "'a kv_store" and p
    using kv_exec_effect [OF that(1), of p] that(2) by (cases "kv_exec p s") (simp add: kv_run_op_def)
qed

end
