(* ===== verification/KvClaims.thy ===== *)
theory KvClaims
  imports KvRefine
begin

text \<open>
  Properties of key-value drafts and releases: the states a key can be in, the refinement of drafts
  and basis in every history, releases as snapshots, what undoing restores, the limit of an
  application, and a batch import that fails. The concrete histories use a secret store that keeps
  the versions of every path in a list.
\<close>

section \<open>A secret store\<close>

type_synonym vault = "(string \<times> secret list) list"

definition versions_at :: "vault \<Rightarrow> string \<Rightarrow> secret list" where
  "versions_at v path = (case map_of v path of None \<Rightarrow> [] | Some ds \<Rightarrow> ds)"

definition list_api :: "vault kv2" where
  "list_api = \<lparr>
     kv2_put = (\<lambda>v path d. let ds = versions_at v path in
       if length ds < 100 then Inr (int (length ds) + 1, (path, ds @ [d]) # v) else Inl ''full''),
     kv2_get = (\<lambda>v path n. let ds = versions_at v path in
       if 1 \<le> n \<and> n \<le> int (length ds) then Inr (ds ! nat (n - 1)) else Inl ''not found'')\<rparr>"

lemma list_api_laws: "kv2_laws list_api"
  unfolding kv2_laws_def list_api_def
  by (auto simp: Let_def versions_at_def nth_append split: if_splits option.splits)

definition demo_kit :: "vault kv_kit" where
  "demo_kit = \<lparr>KvUser = ''admin'', Now = 100, Api = list_api,
     Dec = \<lparr>json_Valid = (\<lambda>_. True), yaml_ok = (\<lambda>_. True), xml_ok = (\<lambda>_. True)\<rparr>,
     SHA256 = (\<lambda>_. ''sha''), MD5 = (\<lambda>_. ''md5''), LimitSpec = [], LimitDefault = 2\<rparr>"

definition demo_req :: "string \<Rightarrow> string \<Rightarrow> kv_req" where
  "demo_req key val = \<lparr>kq_Key = key, kq_KvType = KvStr, kq_Value = val, kq_Memo = [],
     kq_SecretType = OtherSecretType [], kq_SecretHidden = False, kq_CertDate = []\<rparr>"

definition demo_rel :: "string \<Rightarrow> release_req" where
  "demo_rel name = \<lparr>rq_Name = name, rq_Memo = [], rq_Deprecated = False, rq_PublishNum = 0\<rparr>"

definition demo_store :: "vault kv_store" where
  "demo_store = \<lparr>Kvs = [], ReleasedKvs = [],
     KvApps = [\<lparr>ap_ID = 1, ap_BizID = 2, ConfigType = KV, DataType = KvAny\<rparr>],
     KvReleases = [], ReleasedHooks = [], Vault = [], next_kv = 1, next_rkv = 1, next_release = 1, next_hook = 1\<rparr>"

definition demo_ops :: "vault kv_op list" where
  "demo_ops = [OpCreate demo_kit 2 1 (demo_req ''key'' ''a''), OpRelease demo_kit 2 1 (demo_rel ''v1''),
     OpDelete demo_kit 2 1 1, OpCreate demo_kit 2 1 (demo_req ''key'' ''b'')]"

section \<open>Reachable drafts\<close>

lemma run_reachable: "kv_reachable st \<Longrightarrow> kv_reachable (snd (run kv_run_op ps st))"
proof (induction ps arbitrary: st)
  case (Cons p ps)
  have "kv_step st (snd (kv_run_op p st))"
    unfolding kv_step_def kv_run_op_def snd_conv by (intro disjI1 exI) (rule prod.collapse [symmetric])
  then have "kv_reachable (snd (kv_run_op p st))" by (rule reach.step [OF Cons.prems])
  then show ?case using Cons.IH by (simp add: case_prod_unfold)
qed simp

text \<open>
  C3: In every history of the key-value handlers, two rows of one key of an application are a
  new draft and the deleted draft it stands beside, no two rows have an id in common or collide in
  the unique index, and no handler fails with a duplicate entry.
\<close>

theorem reachable_drafts_of_a_key:
  assumes "kv_reachable st"
  shows "distinct (map kv_ID (Kvs st)) \<and> distinct (map kv_index (Kvs st))
    \<and> (\<forall>r \<in> set (Kvs st). \<forall>q \<in> set (Kvs st). r \<noteq> q \<longrightarrow> kv_BizID r = kv_BizID q \<longrightarrow> kv_AppID r = kv_AppID q
        \<longrightarrow> Key (kv_Spec r) = Key (kv_Spec q) \<longrightarrow> {kv_State r, kv_State q} = {KvStateAdd, KvStateDelete})
    \<and> fst (kv_exec p st) \<noteq> Some DuplicateEntry"
proof -
  have inv: "kv_inv st" by (rule kvs.reach_inv [OF assms])
  then have ok: "skel_ok (skels (Kvs st))" by (simp add: kv_inv_def)
  have "{kv_State r, kv_State q} = {KvStateAdd, KvStateDelete}"
    if "r \<in> set (Kvs st)" "q \<in> set (Kvs st)" "r \<noteq> q" "kv_BizID r = kv_BizID q" "kv_AppID r = kv_AppID q"
      "Key (kv_Spec r) = Key (kv_Spec q)" for r q
    using kv_inv_compat [OF inv that(1,2) _ that(3)] that(4-6) by (auto simp: kv_key_def compat_def)
  moreover have "distinct (map kv_ID (Kvs st))" using skel_ok_parts(1) [OF ok] by (simp add: o_def skel_def)
  moreover have "fst (kv_exec p st) \<noteq> Some DuplicateEntry" using kv_exec_effect [OF inv, of p] by (cases "kv_exec p st") simp
  ultimately show ?thesis using skel_ok_index [OF ok] by blast
qed

definition demo_end :: "vault kv_store" where
  "demo_end = snd (run kv_run_op demo_ops demo_store)"

lemma demo_end_reachable: "kv_reachable demo_end"
  unfolding demo_end_def by (rule run_reachable, rule reach.start) (simp add: kv_init_def demo_store_def)

theorem reachable_drafts_of_a_key_witness:
  "map kv_State (Kvs demo_end) = [KvStateDelete, KvStateAdd] \<and> distinct (map kv_index (Kvs demo_end))"
proof
  show "map kv_State (Kvs demo_end) = [KvStateDelete, KvStateAdd]" by code_simp
  show "distinct (map kv_index (Kvs demo_end))"
    using reachable_drafts_of_a_key [OF demo_end_reachable, of "OpUnDeprecate 2 1 1"] by blast
qed

section \<open>Drafts and basis in every history\<close>

text \<open>
  C4: The handlers refine two sets of keys with ids, those configured and those of the last
  release: a history in which every call succeeds leaves the sets that folding the specification of
  the calls gives. A creation takes the next id, a deletion keeps the basis, restoring a key takes its
  entry from the basis, a batch import adds the keys that are new with consecutive ids after dropping
  the drafts of the application when it replaces all, and a release makes the drafts the basis.
\<close>

theorem kv_history_refines:
  assumes "kv_init st" "run kv_run_op ps st = (True, t)"
  shows "(drafts_of (Kvs t), base_of (Kvs t), next_kv t) = fold kv_spec_op ps ({}, {}, next_kv st)"
proof -
  have inv: "kv_inv st" by (rule kvs.init_inv [OF assms(1)])
  have "kv_abs st = ({}, {}, next_kv st)" using assms(1) by (simp add: kv_abs_def kv_init_def drafts_of_def base_of_def)
  then show ?thesis using kv_ops.run_spec [OF inv assms(2)] by (simp add: kv_abs_def)
qed

lemma demo_spec:
  "fold kv_spec_op demo_ops ({}, {}, 1) = ({((2, 1, ''key''), 2)}, {((2, 1, ''key''), 1)}, 3)"
proof -
  have r: "release_spec 2 1 ({((2, 1, ''key''), 1)}, {}, 2) = ({((2, 1, ''key''), 1)}, {((2, 1, ''key''), 1)}, 2)"
    by (auto simp: release_spec_def in_app_def)
  show ?thesis unfolding demo_ops_def fold.simps comp_def id_def kv_spec_op.simps
    by (auto simp: demo_req_def r numeral_2_eq_2 [symmetric] numeral_3_eq_3 [symmetric] simp del: One_nat_def)
qed

theorem kv_history_refines_witness:
  "(drafts_of (Kvs demo_end), base_of (Kvs demo_end), next_kv demo_end)
    = ({((2, 1, ''key''), 2)}, {((2, 1, ''key''), 1)}, 3)"
proof -
  have i: "kv_init demo_store" "next_kv demo_store = 1" by (simp_all add: kv_init_def demo_store_def)
  have "fst (run kv_run_op demo_ops demo_store)" by code_simp
  then have r: "run kv_run_op demo_ops demo_store = (True, demo_end)" unfolding demo_end_def by (intro prod_eqI) simp_all
  show ?thesis unfolding kv_history_refines [OF i(1) r] i(2) by (rule demo_spec)
qed

section \<open>Values\<close>

lemma data_type_roundtrip: "ValidateValue dc t val = Inr () \<Longrightarrow> data_type_of (data_type_text t) = t"
  by (cases t) (auto simp: ValidateValue_def data_type_of_def data_type_text_def ensure_def res_simps split: if_splits)

lemma read_kv_data: "ValidateValue dc t val = Inr () \<Longrightarrow> read_secret (kv_data t val) = Inr (t, val)"
  by (simp add: read_secret_def kv_data_def data_type_roundtrip)

lemma UpsertKv_read:
  assumes "kv2_laws api" "UpsertKv api dc biz app key t val v = Inr (n, v')"
  shows "GetKvByVersion api biz app key n v' = Inr (t, val) \<and> 1 \<le> n \<and> n < 2 ^ 32
    \<and> (\<forall>p m. p \<noteq> kvPath biz app key \<longrightarrow> kv2_get api v' p m = kv2_get api v p m)"
proof -
  have p: "kv2_put api v (kvPath biz app key) (kv_data t val) = Inr (n, v')"
    and o: "UpsertKvOption_Validate dc biz app key t val = Inr ()" using assms(2) by (auto simp: UpsertKv_def res_simps)
  then have "1 \<le> n \<and> n < 2 ^ 32 \<and> kv2_get api v' (kvPath biz app key) n = Inr (kv_data t val)
    \<and> (\<forall>p m. p \<noteq> kvPath biz app key \<longrightarrow> kv2_get api v' p m = kv2_get api v p m)"
    using assms(1) unfolding kv2_laws_def by blast
  moreover have "ValidateValue dc t val = Inr ()" using o by (auto simp: UpsertKvOption_Validate_def res_simps)
  note read_kv_data [OF this]
  ultimately show ?thesis using o by (simp add: GetKvByVersion_def GetKvByVersion_Validate_def UpsertKvOption_Validate_def res_simps)
qed

lemma CreateRKv_read:
  assumes "kv2_laws api" "CreateRKv api dc biz app rel key t val v = Inr (n, v')"
  shows "GetRKv api biz app key rel n v' = Inr (t, val) \<and> 1 \<le> n \<and> n < 2 ^ 32
    \<and> (\<forall>p m. p \<noteq> releasedKvPath biz app rel key \<longrightarrow> kv2_get api v' p m = kv2_get api v p m)"
proof -
  have p: "kv2_put api v (releasedKvPath biz app rel key) (kv_data t val) = Inr (n, v')"
    and o: "CreateReleasedKvOption_Validate dc biz app rel key t val = Inr ()" using assms(2) by (auto simp: CreateRKv_def res_simps)
  then have "1 \<le> n \<and> n < 2 ^ 32 \<and> kv2_get api v' (releasedKvPath biz app rel key) n = Inr (kv_data t val)
    \<and> (\<forall>p m. p \<noteq> releasedKvPath biz app rel key \<longrightarrow> kv2_get api v' p m = kv2_get api v p m)"
    using assms(1) unfolding kv2_laws_def by blast
  moreover have "ValidateValue dc t val = Inr ()" using o by (auto simp: CreateReleasedKvOption_Validate_def res_simps)
  note read_kv_data [OF this]
  ultimately show ?thesis using o by (simp add: GetRKv_def GetRKvOption_Validate_def CreateReleasedKvOption_Validate_def res_simps)
qed

lemma vault_put_ok: "vault_put f st = (Inr n, st') \<longleftrightarrow> (\<exists>v. f (Vault st) = Inr (n, v) \<and> st' = st\<lparr>Vault := v\<rparr>)"
  by (auto simp: vault_put_def split: sum.splits)

lemma slift_ok: "slift r s = (Inr x, s') \<longleftrightarrow> r = Inr x \<and> s' = s"
  by (auto simp: slift_def)

lemma uint_of_version: "1 \<le> n \<Longrightarrow> n < 2 ^ 32 \<Longrightarrow> uint (word_of_int n :: 32 word) = n"
  by (simp add: uint_word_of_int)

lemma kv_Update_row:
  assumes inv: "kv_inv st" and r: "r \<in> set (Kvs st)"
    and k: "k_ID k = kv_ID r" "k_Attachment k = Some \<lparr>ka_BizID = kv_BizID r, ka_AppID = a\<rparr>"
    and u: "kv_Update tm k st = Inr st'"
  shows "st' = st\<lparr>Kvs := set_row r (set_memo k (set_columns tm k r)) (Kvs st)\<rparr>"
proof -
  have "update_where k (set_memo k \<circ> set_columns tm k) st = Inr st'" using u by (auto simp: kv_Update_def res_simps)
  then show ?thesis unfolding update_where_set_row [OF inv r k] kv_write_def by (auto split: if_splits)
qed

lemma in_set_row: "r \<in> set rs \<Longrightarrow> r' \<in> set (set_row r r' rs)"
  by (simp add: set_set_row)

text \<open>
  After an update the draft of the key is read with the value, the memo and the visibility of the
  request, in the type the key has, and a draft that was released is marked as revised.
\<close>

theorem updated_value_is_read:
  assumes "kv_reachable st" "kv2_laws (Api kt)" "UpdateKv kt biz app req st = (Inr (), st')"
  shows "\<exists>r \<in> set (Kvs st). \<exists>r' \<in> set (Kvs st'). kv_ID r' = kv_ID r \<and> kv_key r' = (biz, app, kq_Key req)
    \<and> kv_State r' = (if kv_State r = KvStateUnchange then KvStateRevise else kv_State r)
    \<and> getKv kt biz app (Version (kv_Spec r')) (kq_Key req) st' = Inr (KvType (kv_Spec r), kq_Value req)
    \<and> k_Memo (kv_Spec r') = kq_Memo req \<and> SecretHidden (kv_Spec r') = kq_SecretHidden req"
proof -
  have inv: "kv_inv st" by (rule kvs.reach_inv [OF assms(1)])
  obtain r where g: "GetByKvState biz app (kq_Key req) [KvStateAdd, KvStateUnchange, KvStateRevise] st = Some r"
    using assms(3) by (auto simp: UpdateKv_def split: option.splits)
  have r: "r \<in> set (Kvs st)" "kv_key r = (biz, app, kq_Key req)" using GetByKvState_Some [OF g] by auto
  obtain n v where up: "UpsertKv (Api kt) (Dec kt) biz app (Key (kv_Spec r)) (KvType (kv_Spec r)) (kq_Value req) (Vault st) = Inr (n, v)"
    using assms(3) g by (auto simp: UpdateKv_def vault_put_def sbind_def split: sum.splits)
  let ?st1 = "st\<lparr>Vault := v\<rparr>"
  have "vault_put (UpsertKv (Api kt) (Dec kt) biz app (Key (kv_Spec r)) (KvType (kv_Spec r)) (kq_Value req)) st = (Inr n, ?st1)"
    using up by (simp add: vault_put_def)
  note F = assms(3) [unfolded UpdateKv_def g option.case this sbind_simps]
  obtain k where k: "k_ID k = kv_ID r" "k_Attachment k = Some \<lparr>ka_BizID = kv_BizID r, ka_AppID = kv_AppID r\<rparr>"
    "KvState k = (if kv_State r = KvStateUnchange then KvStateRevise else kv_State r)" "k_Memo (the (k_Spec k)) = kq_Memo req"
    "SecretHidden (the (k_Spec k)) = kq_SecretHidden req" "Version (the (k_Spec k)) = word_of_int n"
    "sput (kv_Update (Now kt) k ?st1) ?st1 = (Inr (), st')"
    by (rule that [OF _ _ _ _ _ _ F]) simp_all
  have inv1: "kv_inv ?st1" using inv by (simp add: kv_inv_def)
  have "kv_Update (Now kt) k ?st1 = Inr st'" using k(7) by (auto simp: res_simps)
  then have st': "st' = ?st1\<lparr>Kvs := set_row r (set_memo k (set_columns (Now kt) k r)) (Kvs ?st1)\<rparr>"
    using r(1) by (intro kv_Update_row [OF inv1 _ k(1,2)]) simp_all
  let ?r' = "set_memo k (set_columns (Now kt) k r)"
  have row: "kv_Spec ?r' = (kv_Spec r)\<lparr>Version := word_of_int n, CertificateExpirationDate := CertificateExpirationDate (the (k_Spec k)),
      k_Memo := kq_Memo req, SecretHidden := kq_SecretHidden req\<rparr>"
    by (simp add: set_memo_def set_columns_def k)
  have key: "Key (kv_Spec r) = kq_Key req" using r(2) by (simp add: kv_key_def)
  have rd: "GetKvByVersion (Api kt) biz app (kq_Key req) n v = Inr (KvType (kv_Spec r), kq_Value req)" "1 \<le> n" "n < 2 ^ 32"
    using UpsertKv_read [OF assms(2) up] by (simp_all add: key)
  show ?thesis
  proof (rule bexI [OF _ r(1)], rule bexI [of _ ?r'], intro conjI)
    show "?r' \<in> set (Kvs st')" unfolding st' using r(1) by (simp add: set_set_row)
    show "getKv kt biz app (Version (kv_Spec ?r')) (kq_Key req) st' = Inr (KvType (kv_Spec r), kq_Value req)"
      unfolding getKv_def row st' using rd uint_of_version [OF rd(2,3)] by simp
  qed (simp_all add: k(3) r(2) row)
qed

theorem updated_value_is_read_witness:
  "\<exists>st'. UpdateKv demo_kit 2 1 (demo_req ''key'' ''c'') demo_end = (Inr (), st')
    \<and> (\<exists>r' \<in> set (Kvs st'). getKv demo_kit 2 1 (Version (kv_Spec r')) ''key'' st' = Inr (KvStr, ''c''))"
proof -
  define st' where "st' = snd (UpdateKv demo_kit 2 1 (demo_req ''key'' ''c'') demo_end)"
  have "is_ok (fst (UpdateKv demo_kit 2 1 (demo_req ''key'' ''c'') demo_end)) \<and> (\<forall>r \<in> set (Kvs demo_end). KvType (kv_Spec r) = KvStr)" by code_simp
  then have u: "UpdateKv demo_kit 2 1 (demo_req ''key'' ''c'') demo_end = (Inr (), st')" "\<forall>r \<in> set (Kvs demo_end). KvType (kv_Spec r) = KvStr"
    by (cases "UpdateKv demo_kit 2 1 (demo_req ''key'' ''c'') demo_end"; auto simp: st'_def is_ok_iff)+
  have l: "kv2_laws (Api demo_kit)" using list_api_laws by (simp add: demo_kit_def)
  from updated_value_is_read [OF demo_end_reachable l u(1)] u(2)
  obtain r' where "r' \<in> set (Kvs st')" "getKv demo_kit 2 1 (Version (kv_Spec r')) ''key'' st' = Inr (KvStr, ''c'')"
    by (auto simp: demo_req_def)
  then show ?thesis using u(1) by blast
qed

text \<open>
  Undoing the changes of a draft restores the value of the last release, in the type of the key,
  and marks the draft as unchanged; the memo and the visibility stay as they were edited.
\<close>

theorem undo_restores_released_value:
  assumes "kv_reachable st" "kv2_laws (Api kt)" "UndoKv kt biz app key st = (Inr (), st')"
  shows "\<exists>r \<in> set (Kvs st). \<exists>r' \<in> set (Kvs st'). \<exists>rel t val.
    kv_key r = (biz, app, key) \<and> kv_State r = KvStateRevise \<and> GetReleaseLately biz app st = Some rel
    \<and> GetReleasedKv kt biz app (r_ID rel) key st = Inr (t, val)
    \<and> kv_ID r' = kv_ID r \<and> kv_key r' = kv_key r \<and> kv_State r' = KvStateUnchange
    \<and> getKv kt biz app (Version (kv_Spec r')) key st' = Inr (KvType (kv_Spec r), val)
    \<and> k_Memo (kv_Spec r') = k_Memo (kv_Spec r) \<and> SecretHidden (kv_Spec r') = SecretHidden (kv_Spec r)"
proof -
  have inv: "kv_inv st" by (rule kvs.reach_inv [OF assms(1)])
  obtain r where g: "GetByKvState biz app key [KvStateRevise] st = Some r"
    using assms(3) by (auto simp: UndoKv_def split: option.splits)
  have r: "r \<in> set (Kvs st)" "kv_key r = (biz, app, key)" "kv_State r = KvStateRevise" using GetByKvState_Some [OF g] by auto
  have key: "Key (kv_Spec r) = key" using r(2) by (simp add: kv_key_def)
  obtain k st1 where l: "getLatestReleasedKV kt biz app r st = (Inr k, st1)" and u: "kv_Update (Now kt) k st1 = Inr st'"
    using assms(3) g by (auto simp: UndoKv_def res_simps)
  from l obtain rel rk t val n v where d: "GetReleaseLately biz app st = Some rel" "rkv_Get biz app (r_ID rel) key st = Some rk"
    "GetRKv (Api kt) biz app key (r_ID rel) (uint (Version (rkv_Spec rk))) (Vault st) = Inr (t, val)"
    "UpsertKv (Api kt) (Dec kt) biz app key (KvType (kv_Spec r)) val (Vault st) = Inr (n, v)" "st1 = st\<lparr>Vault := v\<rparr>"
    "k_ID k = kv_ID r" "k_Attachment k = Some \<lparr>ka_BizID = kv_BizID r, ka_AppID = kv_AppID r\<rparr>" "KvState k = KvStateUnchange"
    "k_Memo (the (k_Spec k)) = k_Memo (kv_Spec r)" "SecretHidden (the (k_Spec k)) = SecretHidden (kv_Spec r)"
    "Version (the (k_Spec k)) = word_of_int n"
    by (auto simp: getLatestReleasedKV_def key vault_put_ok slift_ok sbind_Inr_iff wrap_err_Inr_iff split: option.splits)
  have inv1: "kv_inv st1" using inv by (simp add: kv_inv_def d(5))
  let ?r' = "set_memo k (set_columns (Now kt) k r)"
  have st': "st' = st1\<lparr>Kvs := set_row r ?r' (Kvs st1)\<rparr>"
    using r(1) by (intro kv_Update_row [OF inv1 _ d(6,7) u]) (simp add: d(5))
  have row: "kv_Spec ?r' = (kv_Spec r)\<lparr>Version := word_of_int n, CertificateExpirationDate := CertificateExpirationDate (the (k_Spec k)),
      k_Memo := k_Memo (kv_Spec r), SecretHidden := SecretHidden (kv_Spec r)\<rparr>"
    by (simp add: set_memo_def set_columns_def d)
  have rd: "GetKvByVersion (Api kt) biz app key n v = Inr (KvType (kv_Spec r), val)" "1 \<le> n" "n < 2 ^ 32"
    using UpsertKv_read [OF assms(2) d(4)] by simp_all
  have rel: "GetReleasedKv kt biz app (r_ID rel) key st = Inr (t, val)" using d(2,3) by (simp add: GetReleasedKv_def)
  have "?r' \<in> set (Kvs st')" unfolding st' using r(1) by (simp add: set_set_row d(5))
  moreover have "getKv kt biz app (Version (kv_Spec ?r')) key st' = Inr (KvType (kv_Spec r), val)"
    unfolding getKv_def row st' using rd uint_of_version [OF rd(2,3)] by (simp add: d(5))
  ultimately show ?thesis
    by (intro bexI [OF _ r(1)] bexI [of _ ?r'] exI [of _ rel] exI [of _ t] exI [of _ val])
      (simp_all add: r d(1) rel row, simp_all add: d(8))
qed

definition demo_revised :: "vault kv_store" where
  "demo_revised = snd (run kv_run_op [OpCreate demo_kit 2 1 (demo_req ''key'' ''a''), OpRelease demo_kit 2 1 (demo_rel ''v1''),
     OpUpdate demo_kit 2 1 ((demo_req ''key'' ''b'')\<lparr>kq_Memo := ''note''\<rparr>)] demo_store)"

lemma demo_revised_reachable: "kv_reachable demo_revised"
  unfolding demo_revised_def by (rule run_reachable, rule reach.start) (simp add: kv_init_def demo_store_def)

theorem undo_restores_released_value_witness:
  "\<exists>st'. UndoKv demo_kit 2 1 ''key'' demo_revised = (Inr (), st')
    \<and> (\<exists>r' \<in> set (Kvs st'). getKv demo_kit 2 1 (Version (kv_Spec r')) ''key'' st' = Inr (KvStr, ''a'') \<and> k_Memo (kv_Spec r') = ''note'')"
proof -
  define st' where "st' = snd (UndoKv demo_kit 2 1 ''key'' demo_revised)"
  have "is_ok (fst (UndoKv demo_kit 2 1 ''key'' demo_revised))" by code_simp
  then have u: "UndoKv demo_kit 2 1 ''key'' demo_revised = (Inr (), st')"
    by (cases "UndoKv demo_kit 2 1 ''key'' demo_revised") (auto simp: st'_def is_ok_iff)
  have rows: "\<forall>r \<in> set (Kvs demo_revised). KvType (kv_Spec r) = KvStr \<and> k_Memo (kv_Spec r) = ''note''" by code_simp
  have rel: "map_option r_ID (GetReleaseLately 2 1 demo_revised) = Some 1" by code_simp
  have val: "GetReleasedKv demo_kit 2 1 1 ''key'' demo_revised = Inr (KvStr, ''a'')" by code_simp
  have l: "kv2_laws (Api demo_kit)" using list_api_laws by (simp add: demo_kit_def)
  from undo_restores_released_value [OF demo_revised_reachable l u] rows rel val
  obtain r' where "r' \<in> set (Kvs st')" "getKv demo_kit 2 1 (Version (kv_Spec r')) ''key'' st' = Inr (KvStr, ''a'')" "k_Memo (kv_Spec r') = ''note''"
    by auto
  then show ?thesis using u by blast
qed

section \<open>Releases\<close>

text \<open>What the steps of a release leave alone before the drafts are copied.\<close>

definition calm :: "'v kv_store \<Rightarrow> 'v tx \<Rightarrow> bool" where
  "calm st s \<longleftrightarrow> Kvs (fst s) = Kvs st \<and> Kvs (snd s) = Kvs st \<and> next_kv (fst s) = next_kv st \<and> next_kv (snd s) = next_kv st
     \<and> Vault (fst s) = Vault st \<and> Vault (snd s) = Vault st \<and> ReleasedKvs (snd s) = ReleasedKvs st"

lemma release_CreateWithTx_calm:
  "release_CreateWithTx kt biz app spec s = (Inr rel, s') \<Longrightarrow> calm st s \<Longrightarrow> calm st s' \<and> rel = next_release (snd s)"
  by (auto simp: release_CreateWithTx_def sbind_Inr_iff slift_ok Let_def in_tx_result out_tx_def calm_def)

lemma copy_hook_calm: "copy_hook biz app rel tp s = (Inr u, s') \<Longrightarrow> calm st s \<Longrightarrow> calm st s'"
  by (auto simp: copy_hook_def sbind_Inr_iff slift_ok Let_def in_tx_result out_tx_def calm_def split: option.splits)

lemma genCreateKv_reads:
  "genCreateKv kt biz app v rs = Inr kvs \<Longrightarrow> map fst kvs = rs
    \<and> (\<forall>(r, y) \<in> set kvs. \<exists>t. GetKvByVersion (Api kt) biz app (Key (kv_Spec r)) (uint (Version (kv_Spec r))) v = Inr (t, y))"
  by (induction rs arbitrary: kvs) (auto simp: rbind_Inr_iff wrap_err_Inr_iff)

lemma doBatchReleasedVault_frame:
  assumes "kv2_laws (Api kt)" "doBatchReleasedVault kt rel kvs st = (Inr m, st')" "\<forall>(r, y) \<in> set kvs. kv_where biz app r"
    "\<forall>(r, y) \<in> set kvs. path \<noteq> releasedKvPath biz app rel (Key (kv_Spec r))"
  shows "kv2_get (Api kt) (Vault st') path n = kv2_get (Api kt) (Vault st) path n"
  using assms(2-4)
proof (induction kvs arbitrary: st m)
  case (Cons x kvs)
  obtain r y where x: "x = (r, y)" by (cases x)
  from Cons.prems obtain k v m1 where
    c: "CreateRKv (Api kt) (Dec kt) (kv_BizID r) (kv_AppID r) rel (Key (kv_Spec r)) (KvType (kv_Spec r)) y (Vault st) = Inr (k, v)"
    and d: "doBatchReleasedVault kt rel kvs (st\<lparr>Vault := v\<rparr>) = (Inr m1, st')"
    by (auto simp: x sbind_Inr_iff vault_put_ok)
  have "kv2_get (Api kt) (Vault st') path n = kv2_get (Api kt) v path n" using Cons.IH [OF d] Cons.prems(2,3) by auto
  also have "\<dots> = kv2_get (Api kt) (Vault st) path n"
    using CreateRKv_read [OF assms(1) c] Cons.prems(2,3) by (auto simp: x kv_where_def)
  finally show ?case .
qed simp

lemma doBatchReleasedVault_keys:
  "doBatchReleasedVault kt rel kvs st = (Inr m, st') \<Longrightarrow> set (map fst m) = set (map (\<lambda>(r, y). Key (kv_Spec r)) kvs)"
proof (induction kvs arbitrary: st m)
  case (Cons x kvs)
  obtain r y where x: "x = (r, y)" by (cases x)
  from Cons.prems obtain k st1 m1 where "doBatchReleasedVault kt rel kvs st1 = (Inr m1, st')" "m = m1 @ [(Key (kv_Spec r), k)]"
    by (auto simp: x sbind_Inr_iff)
  then show ?case using Cons.IH by (simp add: x)
qed simp

lemma doBatchReleasedVault_reads:
  assumes "kv2_laws (Api kt)" "doBatchReleasedVault kt rel kvs st = (Inr m, st')" "\<forall>(r, y) \<in> set kvs. kv_where biz app r"
    "distinct (map (\<lambda>(r, y). Key (kv_Spec r)) kvs)" "(r, y) \<in> set kvs"
  shows "\<exists>n. map_of m (Key (kv_Spec r)) = Some n \<and> 1 \<le> n \<and> n < 2 ^ 32
    \<and> GetRKv (Api kt) biz app (Key (kv_Spec r)) rel n (Vault st') = Inr (KvType (kv_Spec r), y)"
  using assms(2-5)
proof (induction kvs arbitrary: st m)
  case (Cons x kvs)
  obtain q z where x: "x = (q, z)" by (cases x)
  from Cons.prems obtain k v m1 where
    c: "CreateRKv (Api kt) (Dec kt) (kv_BizID q) (kv_AppID q) rel (Key (kv_Spec q)) (KvType (kv_Spec q)) z (Vault st) = Inr (k, v)"
    and d: "doBatchReleasedVault kt rel kvs (st\<lparr>Vault := v\<rparr>) = (Inr m1, st')" and m: "m = m1 @ [(Key (kv_Spec q), k)]"
    by (auto simp: x sbind_Inr_iff vault_put_ok)
  show ?case
  proof (cases "(r, y) \<in> set kvs")
    case True
    then show ?thesis using Cons.IH [OF d] Cons.prems(2,3) m by (auto simp: map_add_def)
  next
    case False
    then have rq: "r = q" "y = z" using Cons.prems(4) by (auto simp: x)
    have bq: "kv_BizID q = biz" "kv_AppID q = app" using Cons.prems(2) by (auto simp: x kv_where_def)
    have new: "\<forall>(p, u) \<in> set kvs. Key (kv_Spec q) \<noteq> Key (kv_Spec p)" using Cons.prems(3) by (force simp: x)
    then have "\<forall>(p, u) \<in> set kvs. releasedKvPath biz app rel (Key (kv_Spec q)) \<noteq> releasedKvPath biz app rel (Key (kv_Spec p))"
      by (auto simp: releasedKvPath_def)
    then have f: "kv2_get (Api kt) (Vault st') (releasedKvPath biz app rel (Key (kv_Spec q))) n
        = kv2_get (Api kt) v (releasedKvPath biz app rel (Key (kv_Spec q))) n" for n
      using doBatchReleasedVault_frame [OF assms(1) d, of biz app "releasedKvPath biz app rel (Key (kv_Spec q))" n] Cons.prems(2) by auto
    have rd: "GetRKv (Api kt) biz app (Key (kv_Spec q)) rel k v = Inr (KvType (kv_Spec q), z)" "1 \<le> k" "k < 2 ^ 32"
      using CreateRKv_read [OF assms(1) c] bq by simp_all
    have "Key (kv_Spec q) \<notin> set (map fst m1)"
      unfolding doBatchReleasedVault_keys [OF d] using Cons.prems(3) by (simp add: x)
    then have "map_of m (Key (kv_Spec q)) = Some k" by (simp add: m map_add_def map_of_eq_None_iff [THEN iffD2])
    moreover have "GetRKv (Api kt) biz app (Key (kv_Spec q)) rel k (Vault st') = Inr (KvType (kv_Spec q), z)"
      using rd(1) f by (simp add: GetRKv_def)
    ultimately show ?thesis using rd by (simp add: rq)
  qed
qed simp

lemma live_keys_distinct:
  assumes "kv_inv st"
  shows "distinct (map (\<lambda>r. Key (kv_Spec r)) (filter (\<lambda>r. kv_where biz app r \<and> kv_State r \<in> set [KvStateAdd, KvStateRevise, KvStateUnchange]) (Kvs st)))"
    (is "distinct (map _ ?rs)")
proof -
  have "distinct (map kv_ID (Kvs st))" using assms skel_ok_parts(1) by (fastforce simp: kv_inv_def o_def skel_def)
  then have "distinct ?rs" by (simp add: distinct_map)
  moreover have "inj_on (\<lambda>r. Key (kv_Spec r)) (set ?rs)"
  proof (rule inj_onI)
    fix r q assume rq: "r \<in> set ?rs" "q \<in> set ?rs" "Key (kv_Spec r) = Key (kv_Spec q)"
    then have k: "kv_key r = kv_key q" "r \<in> set (Kvs st)" "q \<in> set (Kvs st)" by (auto simp: kv_key_def kv_where_def)
    show "r = q"
    proof (rule ccontr)
      assume "r \<noteq> q"
      then have "compat (kv_State r) (kv_State q)" using kv_inv_compat [OF assms k(2,3,1)] by simp
      then show False using rq(1,2) by (auto simp: compat_def)
    qed
  qed
  ultimately show ?thesis by (simp add: distinct_map)
qed

lemma find_append: "find P (xs @ ys) = (case find P xs of None \<Rightarrow> find P ys | Some x \<Rightarrow> Some x)"
  by (induction xs) auto

lemma find_unique:
  assumes "x \<in> set xs" "P x" "\<And>y. y \<in> set xs \<Longrightarrow> P y \<Longrightarrow> f y = f x"
  shows "\<exists>y. find P xs = Some y \<and> f y = f x"
proof (cases "find P xs")
  case None
  then show ?thesis using assms(1,2) by (auto simp: find_None_iff)
next
  case (Some y)
  then have "y \<in> set xs" "P y" by (auto simp: find_Some_iff)
  then show ?thesis using Some assms(3) by blast
qed

lemma outside_ok: "outside f s = (Inr x, s') \<longleftrightarrow> (\<exists>c. f (fst s) = (Inr x, c) \<and> s' = (c, (snd s)\<lparr>Vault := Vault c\<rparr>))"
  by (auto simp: outside_def split: prod.splits)

text \<open>The snapshot of the drafts that a release takes.\<close>

lemma doKvOperations_snapshot:
  assumes inv: "kv_inv st" and laws: "kv2_laws (Api kt)" and calm: "calm st s"
    and do: "doKvOperations kt app biz rel s = (Inr u, s')"
    and new: "\<forall>q \<in> set (ReleasedKvs st). rkv_ReleaseID q \<noteq> rel"
  shows "Kvs (snd s') = released_rows biz app (Kvs st)
    \<and> (\<forall>r \<in> set (Kvs st). kv_where biz app r \<longrightarrow> kv_State r \<noteq> KvStateDelete \<longrightarrow>
        (\<exists>t y. getKv kt biz app (Version (kv_Spec r)) (Key (kv_Spec r)) st = Inr (t, y)
          \<and> GetReleasedKv kt biz app rel (Key (kv_Spec r)) (snd s') = Inr (KvType (kv_Spec r), y)))"
proof -
  define details where "details = filter (\<lambda>r. kv_where biz app r \<and> kv_State r \<in> set [KvStateAdd, KvStateRevise, KvStateUnchange]) (Kvs st)"
  obtain c0 t0 where s: "s = (c0, t0)" by (cases s)
  from do obtain kvs m c1 s3 where
    g: "genCreateKv kt biz app (Vault c0) details = Inr kvs" and d: "doBatchReleasedVault kt rel kvs c0 = (Inr m, c1)"
    and b: "BulkCreateWithTx (RKvs kvs m rel) (c1, t0\<lparr>Vault := Vault c1\<rparr>) = (Inr (), s3)" and cl: "cleanUpKV biz app s3 = (Inr u, s')"
    using calm by (auto simp: doKvOperations_def sbind_Inr_iff slift_ok kv_ListAllByAppID_def details_def calm_def s outside_ok
        split: if_splits)
  have c0: "Vault c0 = Vault st" "Kvs c0 = Kvs st" using calm by (simp_all add: calm_def s)
  obtain v where v: "c1 = c0\<lparr>Vault := v\<rparr>" using doBatchReleasedVault_shape [OF d] by blast
  have s3: "Kvs (fst s3) = Kvs st" "Kvs (snd s3) = Kvs st" "next_kv (snd s3) = next_kv st" "Vault (snd s3) = Vault c1"
    "\<exists>f. ReleasedKvs (snd s3) = ReleasedKvs st @ map (\<lambda>(j, r). new_rkv (f + j) r) (enumerate 0 (RKvs kvs m rel))"
    using b calm unfolding BulkCreateWithTx_def v s
    by (auto simp: calm_def sbind_Inr_iff slift_ok Let_def in_tx_result out_tx_def split: if_splits)
  have "kv_inv (snd s3)" using inv s3(2,3) by (simp add: kv_inv_def)
  then have s': "snd s' = (snd s3)\<lparr>Kvs := released_rows biz app (Kvs (snd s3))\<rparr>"
    using cleanUpKV_effect [of s3 biz app "Inr u" s'] cl s3(1,2) by simp
  have kd: "distinct (map (\<lambda>(r, y). Key (kv_Spec r)) kvs)" "\<forall>(r, y) \<in> set kvs. kv_where biz app r"
  proof -
    have "map fst kvs = details" using genCreateKv_reads [OF g] by simp
    moreover have "map (\<lambda>(r, y). Key (kv_Spec r)) kvs = map (\<lambda>r. Key (kv_Spec r)) (map fst kvs)" by (simp add: case_prod_unfold)
    ultimately show "distinct (map (\<lambda>(r, y). Key (kv_Spec r)) kvs)" using live_keys_distinct [OF inv] by (simp only: details_def)
    have "set (map fst kvs) \<subseteq> {r. kv_where biz app r}" unfolding \<open>map fst kvs = details\<close> details_def by auto
    then show "\<forall>(r, y) \<in> set kvs. kv_where biz app r" by force
  qed
  have "\<exists>t y. getKv kt biz app (Version (kv_Spec r)) (Key (kv_Spec r)) st = Inr (t, y)
      \<and> GetReleasedKv kt biz app rel (Key (kv_Spec r)) (snd s') = Inr (KvType (kv_Spec r), y)"
    if r: "r \<in> set (Kvs st)" "kv_where biz app r" "kv_State r \<noteq> KvStateDelete" for r
  proof -
    have "r \<in> set details" using r kv_inv_state [OF inv r(1)] by (auto simp: details_def known_state_def)
    then have "r \<in> set (map fst kvs)" using genCreateKv_reads [OF g] by simp
    then obtain y where y: "(r, y) \<in> set kvs" by auto
    then obtain t where "GetKvByVersion (Api kt) biz app (Key (kv_Spec r)) (uint (Version (kv_Spec r))) (Vault st) = Inr (t, y)"
      using genCreateKv_reads [OF g] c0 by auto
    then have draft: "getKv kt biz app (Version (kv_Spec r)) (Key (kv_Spec r)) st = Inr (t, y)" by (simp add: getKv_def)
    obtain n where n: "map_of m (Key (kv_Spec r)) = Some n" "1 \<le> n" "n < 2 ^ 32"
      "GetRKv (Api kt) biz app (Key (kv_Spec r)) rel n (Vault c1) = Inr (KvType (kv_Spec r), y)"
      using doBatchReleasedVault_reads [OF laws d kd(2,1) y] by blast
    obtain f where f: "ReleasedKvs (snd s') = ReleasedKvs st @ map (\<lambda>(j, r). new_rkv (f + j) r) (enumerate 0 (RKvs kvs m rel))"
      using s3(5) s' by auto
    let ?news = "map (\<lambda>(j, r). new_rkv (f + j) r) (enumerate 0 (RKvs kvs m rel))"
    let ?P = "\<lambda>q. rkv_BizID q = biz \<and> rkv_AppID q = app \<and> rkv_ReleaseID q = rel \<and> Key (rkv_Spec q) = Key (kv_Spec r)"
    have shape: "\<exists>q z. (q, z) \<in> set kvs \<and> Key (rkv_Spec x) = Key (kv_Spec q) \<and> rkv_BizID x = kv_BizID q \<and> rkv_AppID x = kv_AppID q
        \<and> rkv_ReleaseID x = rel \<and> Version (rkv_Spec x) = word_of_int (case map_of m (Key (kv_Spec q)) of None \<Rightarrow> 0 | Some n \<Rightarrow> n)"
      if "x \<in> set ?news" for x
    proof -
      from that obtain j where j: "j < length (RKvs kvs m rel)" "x = new_rkv (f + j) (RKvs kvs m rel ! j)"
        by (auto simp: in_set_enumerate_eq)
      then obtain w where w: "w \<in> set (RKvs kvs m rel)" "x = new_rkv (f + j) w" using nth_mem by blast
      then show ?thesis by (auto simp: RKvs_def new_rkv_def)
    qed
    have ver: "Version (rkv_Spec x) = word_of_int n" if "x \<in> set ?news" "?P x" for x
      using shape [OF that(1)] that(2) n(1) by auto
    have "\<exists>x \<in> set ?news. ?P x"
    proof -
      from y obtain i where i: "i < length kvs" "kvs ! i = (r, y)" by (auto simp: in_set_conv_nth)
      then have l: "i < length (RKvs kvs m rel)" by (simp add: RKvs_def)
      then have "i < length ?news" by simp
      then have "?news ! i \<in> set ?news" by (rule nth_mem)
      moreover have "?news ! i = new_rkv (f + i) (RKvs kvs m rel ! i)" using l by (simp add: nth_enumerate_eq)
      moreover have "?P (new_rkv (f + i) (RKvs kvs m rel ! i))" using i r(2) by (simp add: RKvs_def new_rkv_def kv_where_def)
      ultimately show ?thesis by metis
    qed
    then obtain x where x: "x \<in> set ?news" "?P x" by blast
    obtain z where z: "find ?P ?news = Some z" "Version (rkv_Spec z) = word_of_int n"
      using find_unique [OF x(1), of ?P "\<lambda>q. Version (rkv_Spec q)"] x(2) ver [OF x] ver by auto
    have "find ?P (ReleasedKvs st) = None" using new by (auto simp: find_None_iff)
    then have "rkv_Get biz app rel (Key (kv_Spec r)) (snd s') = Some z"
      unfolding rkv_Get_def f find_append using z(1) by simp
    moreover have "Vault (snd s') = Vault c1" using s' s3(4) by simp
    ultimately show ?thesis using draft n(4) uint_of_version [OF n(2,3)] z(2) by (simp add: GetReleasedKv_def)
  qed
  then show ?thesis using s' s3(2) by simp
qed

text \<open>
  C5: A release of a key-value application is a snapshot: every draft that is not deleted can be read
  from the release with the value it had, and the table is left with these drafts, all unchanged.
\<close>

theorem release_is_snapshot:
  assumes "kv_reachable st" "kv2_laws (Api kt)" "is_kv_app app st"
    "CreateRelease kt file biz app req st = (Inr rel, st')" "\<forall>q \<in> set (ReleasedKvs st). rkv_ReleaseID q < next_release st"
  shows "Kvs st' = released_rows biz app (Kvs st)
    \<and> (\<forall>r \<in> set (Kvs st). kv_BizID r = biz \<longrightarrow> kv_AppID r = app \<longrightarrow> kv_State r \<noteq> KvStateDelete \<longrightarrow>
        (\<exists>t y. getKv kt biz app (Version (kv_Spec r)) (Key (kv_Spec r)) st = Inr (t, y)
          \<and> GetReleasedKv kt biz app rel (Key (kv_Spec r)) st' = Inr (KvType (kv_Spec r), y)))"
proof -
  have inv: "kv_inv st" by (rule kvs.reach_inv [OF assms(1)])
  obtain a where a: "find (\<lambda>a. ap_ID a = app) (KvApps st) = Some a" "ConfigType a = KV"
    using assms(3) by (auto simp: is_kv_app_def split: option.splits)
  have rt: "run_tx body st = (Inr x, st') \<longleftrightarrow> (\<exists>c. body (st, st) = (Inr x, c, st'))" for body :: "_ \<Rightarrow> (kv_err + nat) \<times> _" and x
    by (auto simp: run_tx_def split: prod.splits sum.splits)
  from assms(4) obtain s1 s2 s3 c where
    r: "release_CreateWithTx kt biz app req (st, st) = (Inr rel, s1)" "copy_hook biz app rel PreHook s1 = (Inr (), s2)"
      "copy_hook biz app rel PostHook s2 = (Inr (), s3)" "doKvOperations kt app biz rel s3 = (Inr (), c, st')"
    using a by (auto simp: CreateRelease_def rt sbind_Inr_iff split: if_splits)
  have "calm st (st, st)" by (simp add: calm_def)
  then have calm: "calm st s3" "rel = next_release st"
    using release_CreateWithTx_calm [OF r(1)] copy_hook_calm [OF r(2)] copy_hook_calm [OF r(3)] by auto
  have new: "\<forall>q \<in> set (ReleasedKvs st). rkv_ReleaseID q \<noteq> rel" using assms(5) calm(2) by auto
  show ?thesis using doKvOperations_snapshot [OF inv assms(2) calm(1) r(4) new] by (simp add: kv_where_def)
qed

theorem release_is_snapshot_witness:
  "\<exists>st'. CreateRelease demo_kit (\<lambda>_ s. (Inr (), s)) 2 1 (demo_rel ''v2'') demo_end = (Inr 2, st')
    \<and> GetReleasedKv demo_kit 2 1 2 ''key'' st' = Inr (KvStr, ''b'')"
proof -
  let ?r = "CreateRelease demo_kit (\<lambda>_ s. (Inr (), s)) 2 1 (demo_rel ''v2'') demo_end"
  define st' where "st' = snd ?r"
  have "case fst ?r of Inr i \<Rightarrow> i = 2 | Inl _ \<Rightarrow> False" by code_simp
  then have c: "?r = (Inr 2, st')" by (cases ?r) (auto simp: st'_def split: sum.splits)
  have l: "kv2_laws (Api demo_kit)" using list_api_laws by (simp add: demo_kit_def)
  have k: "is_kv_app 1 demo_end" by code_simp
  have n: "\<forall>q \<in> set (ReleasedKvs demo_end). rkv_ReleaseID q < next_release demo_end" by code_simp
  have "\<exists>r \<in> set (Kvs demo_end). kv_BizID r = 2 \<and> kv_AppID r = 1 \<and> kv_State r \<noteq> KvStateDelete
    \<and> getKv demo_kit 2 1 (Version (kv_Spec r)) (Key (kv_Spec r)) demo_end = Inr (KvStr, ''b'')
    \<and> Key (kv_Spec r) = ''key'' \<and> KvType (kv_Spec r) = KvStr" by code_simp
  then obtain r where r: "r \<in> set (Kvs demo_end)" "kv_BizID r = 2" "kv_AppID r = 1" "kv_State r \<noteq> KvStateDelete"
    "getKv demo_kit 2 1 (Version (kv_Spec r)) (Key (kv_Spec r)) demo_end = Inr (KvStr, ''b'')" "Key (kv_Spec r) = ''key''" "KvType (kv_Spec r) = KvStr"
    by blast
  from release_is_snapshot [OF demo_end_reachable l k c n] r show ?thesis using c by auto
qed

section \<open>Limits and failures of batch imports\<close>

lemma count_drafts: "CountNumberUnDeleted biz app st = length (filter (\<lambda>r. kv_where biz app r \<and> kv_State r \<noteq> KvStateDelete) (Kvs st))"
  by (simp add: CountNumberUnDeleted_def)

text \<open>
  Creating a key never leaves an application with more drafts than its limit.
\<close>

theorem create_keeps_limit:
  assumes "CreateKv kt biz app req st = (Inr i, st')"
  shows "CountNumberUnDeleted biz app st' \<le> getAppConfigCnt kt biz \<and> CountNumberUnDeleted biz app st' = CountNumberUnDeleted biz app st + 1"
proof -
  from assms obtain n v where
    l: "\<not> int (CountNumberUnDeleted biz app st) + 1 > int (getAppConfigCnt kt biz)"
    and c: "kv_Create (Now kt)
       \<lparr>k_ID = 0, KvState = KvStateAdd, k_Spec = Some ((KvSpec_of req)\<lparr>Version := word_of_int n\<rparr>),
        k_Attachment = Some \<lparr>ka_BizID = biz, ka_AppID = app\<rparr>,
        k_Revision = Some \<lparr>Creator = KvUser kt, Reviser = KvUser kt, CreatedAt = 0, RevUpdatedAt = 0\<rparr>,
        ContentSpec = Some (content_of kt (kq_Value req))\<rparr> (st\<lparr>Vault := v\<rparr>) = (Inr i, st')"
    by (auto simp: CreateKv_def sbind_Inr_iff slift_ok checkKVConfigItemExceedsAppLimit_def ensure_Inr_iff vault_put_ok)
  obtain k where k: "KvState k = KvStateAdd" "k_Attachment k = Some \<lparr>ka_BizID = biz, ka_AppID = app\<rparr>"
    and c: "kv_Create (Now kt) k (st\<lparr>Vault := v\<rparr>) = (Inr i, st')"
    by (rule that [OF _ _ c]) simp_all
  from c have "Kvs st' = Kvs st @ [new_row (Now kt) (next_kv st) k]"
    by (auto simp: kv_Create_def sbind_Inr_iff slift_ok Let_def sput_Inr_iff kv_write_def split: if_splits)
  then have "CountNumberUnDeleted biz app st' = CountNumberUnDeleted biz app st + 1"
    using k by (simp add: CountNumberUnDeleted_def kv_where_def new_row_def)
  then show ?thesis using l by simp
qed

theorem create_keeps_limit_witness:
  "CountNumberUnDeleted 2 1 (snd (CreateKv demo_kit 2 1 (demo_req ''other'' ''x'') demo_end)) = 2"
proof -
  let ?r = "CreateKv demo_kit 2 1 (demo_req ''other'' ''x'') demo_end"
  have "is_ok (fst ?r) \<and> CountNumberUnDeleted 2 1 demo_end = 1" by code_simp
  then obtain i where "?r = (Inr i, snd ?r)" "CountNumberUnDeleted 2 1 demo_end = 1" by (cases ?r) (auto simp: is_ok_iff)
  then show ?thesis using create_keeps_limit [of demo_kit 2 1 "demo_req ''other'' ''x''" demo_end i "snd ?r"] by simp
qed

text \<open>
  When the secret store fails during a batch import that replaces all drafts, the import fails
  but is not undone: the drafts of the application that were new are gone from the table, because they
  are deleted outside of the transaction.
\<close>

theorem failed_replacement_loses_new_drafts:
  assumes "kv_reachable st" "get_app biz app st = Inr a" "ConfigType a = KV" "0 < biz" "0 < app"
    "\<forall>q \<in> set reqs. checkKVTypeMatch (kq_KvType q) (DataType a)"
    "checkKVConfigItemTypes reqs (filter (\<lambda>r. kv_where biz app r \<and> kv_State r \<in> set live_states) (Kvs st)) = Inr ()"
    "put_all kt biz app order (Vault st) = (Some e, m, v)"
  shows "BatchUpsertKvs kt order biz app reqs True st
    = (Inl (KVault e), st\<lparr>Kvs := filter (\<lambda>r. \<not> (kv_where biz app r \<and> kv_State r = KvStateAdd)) (Kvs st), Vault := v\<rparr>)"
proof -
  have inv: "kv_inv st" by (rule kvs.reach_inv [OF assms(1)])
  define kvs where "kvs = filter (\<lambda>r. kv_where biz app r \<and> kv_State r \<in> set live_states) (Kvs st)"
  obtain res c t where cl: "clearDraftKVStore kt biz app True kvs (st, st) = (res, c, t)"
    by (cases "clearDraftKVStore kt biz app True kvs (st, st)")
  note e = clearDraft_effect [OF inv kvs_def cl]
  then have c: "res = Inr ()" "c = st\<lparr>Kvs := filter (\<lambda>r. \<not> (kv_where biz app r \<and> kv_State r = KvStateAdd)) (Kvs st)\<rparr>"
    by simp_all
  have d: "doBatchUpsertVault kt biz app order (c, t) = (Inl (KVault e), c\<lparr>Vault := v\<rparr>, t\<lparr>Vault := v\<rparr>)"
    using assms(8) by (simp add: doBatchUpsertVault_def c(2) out_tx_def)
  have ty: "check_all (\<lambda>q. ensure (checkKVTypeMatch (kq_KvType q) (DataType a)) KTypeMismatch) reqs = Inr ()"
    using assms(6) by (simp add: check_all_Inr_iff ensure_Inr_iff)
  have l: "kv_ListAllByAppID app biz live_states st = Inr kvs" using assms(4,5) by (simp add: kv_ListAllByAppID_def kvs_def)
  have k: "ensure (ConfigType a = KV) NotKvApp = Inr ()" using assms(3) by (simp add: ensure_def)
  show ?thesis
    unfolding BatchUpsertKvs_def slift_def assms(2) sbind_simps k ty l run_tx_def assms(7) [folded kvs_def] cl c(1) d
    by (simp add: c(2))
qed

text \<open>A store with a new draft, and a value that the secret store refuses.\<close>

definition demo_new :: "vault kv_store" where
  "demo_new = snd (run kv_run_op [OpCreate demo_kit 2 1 (demo_req ''key'' ''a'')] demo_store)"

theorem failed_replacement_loses_new_drafts_witness:
  "length (Kvs demo_new) = 1 \<and> \<not> is_ok (fst (BatchUpsertKvs demo_kit [demo_req ''other'' []] 2 1 [demo_req ''other'' []] True demo_new))
    \<and> Kvs (snd (BatchUpsertKvs demo_kit [demo_req ''other'' []] 2 1 [demo_req ''other'' []] True demo_new)) = []"
proof -
  have r: "kv_reachable demo_new"
    unfolding demo_new_def by (rule run_reachable, rule reach.start) (simp add: kv_init_def demo_store_def)
  define a where "a = \<lparr>ap_ID = 1, ap_BizID = 2, ConfigType = KV, DataType = KvAny\<rparr>"
  have a: "get_app 2 1 demo_new = Inr a" unfolding a_def by code_simp
  have t: "\<forall>q \<in> set [demo_req ''other'' []]. checkKVTypeMatch (kq_KvType q) (DataType a)" by (simp add: a_def checkKVTypeMatch_def)
  have c: "checkKVConfigItemTypes [demo_req ''other'' []] (filter (\<lambda>r. kv_where 2 1 r \<and> kv_State r \<in> set live_states) (Kvs demo_new)) = Inr ()"
    by code_simp
  have "fst (put_all demo_kit 2 1 [demo_req ''other'' []] (Vault demo_new)) \<noteq> None" by code_simp
  then obtain e m v where p: "put_all demo_kit 2 1 [demo_req ''other'' []] (Vault demo_new) = (Some e, m, v)"
    by (cases "put_all demo_kit 2 1 [demo_req ''other'' []] (Vault demo_new)") auto
  have f: "filter (\<lambda>r. \<not> (kv_where 2 1 r \<and> kv_State r = KvStateAdd)) (Kvs demo_new) = []" "length (Kvs demo_new) = 1" by code_simp+
  show ?thesis
    using failed_replacement_loses_new_drafts [OF r a _ _ _ t c p] f by (simp add: a_def)
qed

text \<open>
  A batch import can leave an application with more drafts than its limit, because the drafts it
  updates are subtracted before the new ones are added: with one draft and a limit of two, importing
  that key and two new ones succeeds and leaves three drafts.
\<close>

theorem batch_import_exceeds_limit:
  "(let reqs = [demo_req ''key'' ''b'', demo_req ''k2'' ''c'', demo_req ''k3'' ''d''];
        (res, st) = BatchUpsertKvs demo_kit reqs 2 1 reqs False demo_new
    in is_ok res \<and> getAppConfigCnt demo_kit 2 = 2 \<and> CountNumberUnDeleted 2 1 st = 3)"
  by code_simp

end
