(* ===== verification/GoPath.thy ===== *)
theory GoPath
  imports GoStrings "HOL-Library.Sublist"
begin

text \<open>
  The packages \<open>path\<close> and \<open>path/filepath\<close> of the standard library on a Unix system, as far as the
  program uses them: a path is cleaned part by part between its slashes.
\<close>

section \<open>Cleaning\<close>

text \<open>One part, with the parts before it on a stack.\<close>

definition clean_step :: "bool \<Rightarrow> string list \<Rightarrow> string \<Rightarrow> string list" where
  "clean_step rooted out p =
     (if p = [] \<or> p = ''.'' then out
      else if p = ''..'' then
        (case out of
           [] \<Rightarrow> if rooted then [] else [''..'']
         | q # rest \<Rightarrow> if q = ''..'' then ''..'' # out else rest)
      else p # out)"

definition rooted :: "string \<Rightarrow> bool" where
  "rooted s = hasPrefix s ''/''"

definition clean_parts :: "string \<Rightarrow> string list" where
  "clean_parts s = rev (foldl (clean_step (rooted s)) [] (splitOn CHR ''/'' s))"

definition render :: "bool \<Rightarrow> string list \<Rightarrow> string" where
  "render r ps = (if r then ''/'' @ joinWith ''/'' ps else if ps = [] then ''.'' else joinWith ''/'' ps)"

definition Clean :: "string \<Rightarrow> string" where
  "Clean s = render (rooted s) (clean_parts s)"

text \<open>\<open>path.Join\<close> and \<open>filepath.Join\<close> of two elements.\<close>

definition path_Join :: "string \<Rightarrow> string \<Rightarrow> string" where
  "path_Join a b = (if a = [] then (if b = [] then [] else Clean b) else Clean (a @ ''/'' @ b))"

definition filepath_Base :: "string \<Rightarrow> string" where
  "filepath_Base s =
     (if s = [] then ''.''
      else let t = rev (dropWhile (\<lambda>c. c = CHR ''/'') (rev s)) in
        if t = [] then ''/'' else rev (takeWhile (\<lambda>c. c \<noteq> CHR ''/'') (rev t)))"

text \<open>\<open>filepath.Abs\<close>; the working directory may be unknown.\<close>

definition filepath_Abs :: "string option \<Rightarrow> string \<Rightarrow> string option" where
  "filepath_Abs cwd s = (if rooted s then Some (Clean s) else map_option (\<lambda>d. path_Join d s) cwd)"

text \<open>\<open>filepath.Rel\<close> of two absolute paths: the parts they share are dropped, the others of the base go up.\<close>

fun strip_common :: "string list \<Rightarrow> string list \<Rightarrow> string list \<times> string list" where
  "strip_common (b # bs) (t # ts) = (if b = t then strip_common bs ts else (b # bs, t # ts))"
| "strip_common bs ts = (bs, ts)"

definition filepath_Rel :: "string \<Rightarrow> string \<Rightarrow> string" where
  "filepath_Rel base targ =
     (if Clean targ = Clean base then ''.''
      else case strip_common (clean_parts base) (clean_parts targ) of
        (bs, ts) \<Rightarrow> joinWith ''/'' (replicate (length bs) ''..'' @ ts))"

section \<open>Clean paths\<close>

definition plain_part :: "string \<Rightarrow> bool" where
  "plain_part p \<longleftrightarrow> p \<noteq> [] \<and> p \<noteq> ''.'' \<and> p \<noteq> ''..'' \<and> CHR ''/'' \<notin> set p"

lemma clean_step_plain:
  "list_all plain_part out \<Longrightarrow> CHR ''/'' \<notin> set p \<Longrightarrow> list_all plain_part (clean_step True out p)"
  by (auto simp: clean_step_def plain_part_def split: list.splits)

lemma foldl_clean_plain:
  "list_all plain_part out \<Longrightarrow> \<forall>p \<in> set ps. CHR ''/'' \<notin> set p \<Longrightarrow> list_all plain_part (foldl (clean_step True) out ps)"
  by (induction ps arbitrary: out) (auto simp: clean_step_plain)

lemma clean_parts_plain: "rooted s \<Longrightarrow> list_all plain_part (clean_parts s)"
  using foldl_clean_plain [of "[]" "splitOn CHR ''/'' s"] splitOn_parts
  by (auto simp: clean_parts_def list_all_iff)

lemma foldl_clean_id: "list_all plain_part ps \<Longrightarrow> foldl (clean_step r) out ps = rev ps @ out"
proof (induction ps arbitrary: out)
  case (Cons p ps)
  then have "clean_step r out p = p # out" by (auto simp: clean_step_def plain_part_def)
  then show ?case using Cons by simp
qed simp

lemma rooted_Cons [simp]: "rooted (CHR ''/'' # s)"
  by (simp add: rooted_def hasPrefix_iff)

text \<open>A clean absolute path is determined by its parts.\<close>

lemma clean_parts_render:
  assumes "list_all plain_part ps"
  shows "clean_parts (render True ps) = ps"
proof -
  have "splitOn CHR ''/'' (''/'' @ joinWith ''/'' ps) = [] # splitOn CHR ''/'' (joinWith ''/'' ps)"
    using splitOn_append [of "CHR ''/''" "[]"] by simp
  moreover have "splitOn CHR ''/'' (joinWith ''/'' ps) = (if ps = [] then [[]] else ps)"
    using assms splitOn_join [of ps "CHR ''/''"] by (auto simp: list_all_iff plain_part_def)
  moreover have "clean_step True [] [] = []" by (simp add: clean_step_def)
  ultimately show ?thesis
    using foldl_clean_id [OF assms, of True "[]"] by (simp add: clean_parts_def render_def)
qed

lemma render_rooted: "render True ps = CHR ''/'' # joinWith ''/'' ps"
  by (simp add: render_def)

lemma Clean_rooted: "rooted s \<Longrightarrow> Clean s = render True (clean_parts s)"
  by (simp add: Clean_def)

lemma rooted_Clean: "rooted s \<Longrightarrow> rooted (Clean s)"
  by (simp add: Clean_rooted render_rooted)

lemma clean_parts_Clean: "rooted s \<Longrightarrow> clean_parts (Clean s) = clean_parts s"
  by (simp add: Clean_rooted clean_parts_render clean_parts_plain)

lemma Clean_Clean: "rooted s \<Longrightarrow> Clean (Clean s) = Clean s"
  by (metis Clean_rooted clean_parts_Clean rooted_Clean)

lemma strip_common_shape:
  "strip_common b t = (b', t') \<Longrightarrow> \<exists>c. b = c @ b' \<and> t = c @ t'"
proof (induction b t rule: strip_common.induct)
  case (1 b bs t ts)
  then show ?case by (auto split: if_splits)
qed auto

lemma Abs_rooted:
  assumes "filepath_Abs cwd s = Some d" "\<And>w. cwd = Some w \<Longrightarrow> rooted w"
  shows "rooted d \<and> list_all plain_part (clean_parts d) \<and> d = render True (clean_parts d)"
proof -
  have *: "rooted (Clean x) \<and> list_all plain_part (clean_parts (Clean x)) \<and> Clean x = render True (clean_parts (Clean x))"
    if "rooted x" for x
    using that rooted_Clean clean_parts_plain clean_parts_Clean Clean_rooted by metis
  show ?thesis
  proof (cases "rooted s")
    case True
    then show ?thesis using assms(1) * by (auto simp: filepath_Abs_def)
  next
    case False
    then obtain w where w: "cwd = Some w" "d = path_Join w s" using assms(1) by (auto simp: filepath_Abs_def)
    then have r: "rooted w" using assms(2) by simp
    then have "w \<noteq> []" by (auto simp: rooted_def hasPrefix_iff)
    moreover have "rooted (w @ ''/'' @ s)" using r by (auto simp: rooted_def hasPrefix_iff)
    ultimately show ?thesis using * w by (simp add: path_Join_def)
  qed
qed

end
