(* ===== verification/PathTools.thy ===== *)
theory PathTools
  imports GoPath "HOL-Library.AList" "HOL-Library.Word"
begin

text \<open>
  The checks of file paths of \<open>pkg/tools\<close>: the tree of \<open>trie_node.go\<close> that finds paths in conflict,
  the pairwise tests of \<open>tools.go\<close>, and the joining of a directory with a name from a request in
  \<open>filepath.go\<close>.
\<close>

section \<open>pkg/tools/trie\_node.go\<close>

datatype trie = TrieNode (isEnd: bool) (children: "(string, trie) gomap")

definition newTrieNode :: trie where
  "newTrieNode = TrieNode False []"

text \<open>The loop of \<open>insertPath\<close> below a node: whether there is a conflict, and the node.\<close>

fun insert_parts :: "string list \<Rightarrow> trie \<Rightarrow> bool \<times> trie" where
  "insert_parts [] (TrieNode e cs) = (cs \<noteq> [], TrieNode True cs)"
| "insert_parts (p # ps) (TrieNode e cs) =
     (let c = (case map_of cs p of None \<Rightarrow> newTrieNode | Some c \<Rightarrow> c);
          (conflict, c') = insert_parts ps c
      in (isEnd c \<or> conflict, TrieNode e (AList.update p c' cs)))"

definition insertPath :: "trie \<Rightarrow> string \<Rightarrow> bool \<times> trie" where
  "insertPath node path = insert_parts (splitOn CHR ''/'' path) node"

fun check_paths :: "string list \<Rightarrow> trie \<Rightarrow> 32 word \<Rightarrow> (string, bool) gomap \<Rightarrow> 32 word \<times> (string, bool) gomap" where
  "check_paths [] node n m = (n, m)"
| "check_paths (p # ps) node n m =
     (case insertPath node p of (conflict, node') \<Rightarrow>
        if conflict then check_paths ps node' (n + 1) (AList.update p True m) else check_paths ps node' n m)"

definition CheckExistingPathConflict :: "string list \<Rightarrow> 32 word \<times> (string, bool) gomap" where
  "CheckExistingPathConflict existing = check_paths existing newTrieNode 0 []"

section \<open>pkg/tools/tools.go\<close>

definition with_slash :: "string \<Rightarrow> string" where
  "with_slash p = (if hasSuffix p ''/'' then p else p @ ''/'')"

definition CheckPathConflict :: "string \<Rightarrow> string list \<Rightarrow> bool" where
  "CheckPathConflict newPath existingPaths =
     (\<exists>path \<in> set existingPaths. hasPrefix (with_slash path) (with_slash newPath)
        \<or> hasPrefix (with_slash newPath) (with_slash path))"

record ci_key =
  ci_Name :: string
  ci_Path :: string

datatype conflict_err = PathConflict string string

text \<open>The first pair in conflict; equal paths are not in conflict.\<close>

definition DetectFilePathConflicts :: "ci_key list \<Rightarrow> ci_key list \<Rightarrow> conflict_err + unit" where
  "DetectFilePathConflicts a b =
     check_all (\<lambda>v1. let path1 = path_Join (ci_Path v1) (ci_Name v1) in
       check_all (\<lambda>v2. let path2 = path_Join (ci_Path v2) (ci_Name v2) in
         if path1 = path2 then Inr ()
         else ensure (\<not> (hasPrefix (path1 @ ''/'') (path2 @ ''/'') \<or> hasPrefix (path2 @ ''/'') (path1 @ ''/'')))
           (PathConflict path2 path1)) b) a"

definition SplitPathAndName :: "string \<Rightarrow> string \<times> string" where
  "SplitPathAndName remainingPath =
     (let r = (if hasPrefix remainingPath ''/'' then remainingPath else ''/'' @ remainingPath);
          name = rev (takeWhile (\<lambda>c. c \<noteq> CHR ''/'') (rev r))
      in if name \<noteq> [] then (take (length r - length name) r, name) else (r, []))"

definition ConvertBackslashes :: "string \<Rightarrow> string" where
  "ConvertBackslashes input = map (\<lambda>c. if c = CHR 92 then CHR ''/'' else c) input"

section \<open>pkg/tools/filepath.go\<close>

definition tools_ValidateFileName :: "string \<Rightarrow> bool" where
  "tools_ValidateFileName name =
     (if name = [] \<or> name = ''.'' then False
      else if name \<noteq> filepath_Base name then False
      else \<not> containsStr name [CHR 92])"

datatype join_err = InvalidBase | NoWorkingDirectory | InvalidFilePath

definition SecureJoin :: "string option \<Rightarrow> string \<Rightarrow> string \<Rightarrow> join_err + string" where
  "SecureJoin cwd baseDir unsafeName =
     (if baseDir = [] then Inl InvalidBase
      else let dstPath = path_Join baseDir (Clean unsafeName) in
        case filepath_Abs cwd baseDir of
          None \<Rightarrow> Inl NoWorkingDirectory
        | Some baseAbs \<Rightarrow>
            (case filepath_Abs cwd dstPath of
               None \<Rightarrow> Inl NoWorkingDirectory
             | Some dstAbs \<Rightarrow>
                 if hasPrefix (filepath_Rel baseAbs dstAbs) ''..'' then Inl InvalidFilePath else Inr dstAbs))"

section \<open>Paths in conflict\<close>

text \<open>Two paths are related if the parts of one begin with the parts of the other.\<close>

definition related :: "'a list \<Rightarrow> 'a list \<Rightarrow> bool" where
  "related p q \<longleftrightarrow> prefix p q \<or> prefix q p"

fun sub_trie :: "trie \<Rightarrow> string list \<Rightarrow> trie option" where
  "sub_trie t [] = Some t"
| "sub_trie (TrieNode e cs) (p # ps) = (case map_of cs p of None \<Rightarrow> None | Some c \<Rightarrow> sub_trie c ps)"

definition ends :: "trie \<Rightarrow> string list \<Rightarrow> bool" where
  "ends t ps = (case sub_trie t ps of None \<Rightarrow> False | Some c \<Rightarrow> isEnd c)"

text \<open>Below every node but the root a path ends.\<close>

definition alive :: "trie \<Rightarrow> bool" where
  "alive t \<longleftrightarrow> (\<forall>ps c. ps \<noteq> [] \<longrightarrow> sub_trie t ps = Some c \<longrightarrow> (\<exists>qs. ends c qs))"

lemma ends_simps [simp]:
  "ends (TrieNode e cs) [] = e"
  "ends (TrieNode e cs) (p # ps) = (case map_of cs p of None \<Rightarrow> False | Some c \<Rightarrow> ends c ps)"
  by (simp_all add: ends_def split: option.splits)

lemma not_ends_new: "\<not> ends newTrieNode ps"
  by (cases ps) (simp_all add: newTrieNode_def)

lemma alive_new: "alive newTrieNode"
proof -
  have "sub_trie newTrieNode ps = None" if "ps \<noteq> []" for ps
    using that by (cases ps) (simp_all add: newTrieNode_def)
  then show ?thesis by (auto simp: alive_def)
qed

lemma alive_child:
  assumes "alive (TrieNode e cs)" "map_of cs p = Some c"
  shows "alive c" "\<exists>qs. ends c qs"
proof -
  have s: "sub_trie (TrieNode e cs) (p # ps) = sub_trie c ps" for ps using assms(2) by simp
  show "\<exists>qs. ends c qs" using assms(1) s [of "[]"] unfolding alive_def by (metis list.distinct(1) sub_trie.simps(1))
  show "alive c" using assms(1) s unfolding alive_def by (metis list.distinct(1))
qed

lemma alive_update:
  assumes "alive (TrieNode e cs)" "alive c'" "ends c' qs"
  shows "alive (TrieNode e' (AList.update p c' cs))"
  unfolding alive_def
proof (intro allI impI)
  fix ps c assume ps: "ps \<noteq> []" "sub_trie (TrieNode e' (AList.update p c' cs)) ps = Some c"
  then obtain q rs where q: "ps = q # rs" by (cases ps) auto
  show "\<exists>qs. ends c qs"
  proof (cases "q = p")
    case True
    then have s: "sub_trie c' rs = Some c" using ps(2) by (simp add: q update_conv')
    then show ?thesis using assms(2,3) unfolding alive_def by (cases rs) auto
  next
    case False
    then have "sub_trie (TrieNode e cs) ps = Some c" using ps(2) by (simp add: q update_conv')
    then show ?thesis using assms(1) ps(1) unfolding alive_def by blast
  qed
qed

lemma insert_parts_correct:
  assumes "alive t" "insert_parts ps t = (conflict, t')"
  shows "(conflict \<longleftrightarrow> (\<exists>q. ends t q \<and> q \<noteq> [] \<and> related q ps)) \<and> alive t' \<and> (\<forall>q. ends t' q \<longleftrightarrow> ends t q \<or> q = ps)"
  using assms
proof (induction ps t arbitrary: conflict t' rule: insert_parts.induct)
  case (1 e cs)
  have "(\<exists>q. ends (TrieNode e cs) q \<and> q \<noteq> []) \<longleftrightarrow> cs \<noteq> []"
  proof
    assume "cs \<noteq> []"
    then obtain p c cs1 where "cs = (p, c) # cs1" by (metis neq_Nil_conv prod.collapse)
    then have "map_of cs p = Some c" by simp
    then obtain qs where "ends (TrieNode e cs) (p # qs)" using alive_child(2) [OF 1(1)] by auto
    then show "\<exists>q. ends (TrieNode e cs) q \<and> q \<noteq> []" by blast
  next
    assume "\<exists>q. ends (TrieNode e cs) q \<and> q \<noteq> []"
    then obtain p qs where "ends (TrieNode e cs) (p # qs)" by (metis neq_Nil_conv)
    then show "cs \<noteq> []" by auto
  qed
  moreover have "alive (TrieNode True cs)"
  proof -
    have "sub_trie (TrieNode True cs) qs = sub_trie (TrieNode e cs) qs" if "qs \<noteq> []" for qs using that by (cases qs) auto
    then show ?thesis using 1(1) by (simp add: alive_def)
  qed
  moreover have "ends (TrieNode True cs) q \<longleftrightarrow> ends (TrieNode e cs) q \<or> q = []" for q by (cases q) auto
  ultimately show ?case using 1(2) by (auto simp: related_def)
next
  case (2 p ps e cs)
  define c where "c = (case map_of cs p of None \<Rightarrow> newTrieNode | Some c \<Rightarrow> c)"
  obtain b c' where b: "insert_parts ps c = (b, c')" by fastforce
  have ac: "alive c" using alive_child(1) [OF 2(2)] alive_new by (auto simp: c_def split: option.splits)
  have IH: "(b \<longleftrightarrow> (\<exists>q. ends c q \<and> q \<noteq> [] \<and> related q ps)) \<and> alive c' \<and> (\<forall>q. ends c' q \<longleftrightarrow> ends c q \<or> q = ps)"
    by (rule 2(1) [OF c_def ac b])
  have t': "t' = TrieNode e (AList.update p c' cs)" "conflict \<longleftrightarrow> isEnd c \<or> b"
    using 2(3) b by (simp_all add: c_def [symmetric])
  have ec: "ends (TrieNode e cs) (p # qs) \<longleftrightarrow> ends c qs" for qs
    by (auto simp: c_def not_ends_new split: option.splits)
  have "conflict \<longleftrightarrow> (\<exists>q. ends c q \<and> related (p # q) (p # ps))"
  proof -
    have "isEnd c \<longleftrightarrow> ends c []" by (simp add: ends_def)
    then show ?thesis using IH t'(2) unfolding related_def by (metis Cons_prefix_Cons Nil_prefix)
  qed
  also have "\<dots> \<longleftrightarrow> (\<exists>q. ends (TrieNode e cs) q \<and> q \<noteq> [] \<and> related q (p # ps))"
  proof
    assume "\<exists>q. ends c q \<and> related (p # q) (p # ps)"
    then show "\<exists>q. ends (TrieNode e cs) q \<and> q \<noteq> [] \<and> related q (p # ps)" using ec by (metis list.distinct(1))
  next
    assume "\<exists>q. ends (TrieNode e cs) q \<and> q \<noteq> [] \<and> related q (p # ps)"
    then obtain a q where q: "ends (TrieNode e cs) (a # q)" "related (a # q) (p # ps)" by (metis neq_Nil_conv)
    then have "a = p" by (auto simp: related_def)
    then show "\<exists>q. ends c q \<and> related (p # q) (p # ps)" using q ec by blast
  qed
  finally have cf: "conflict \<longleftrightarrow> (\<exists>q. ends (TrieNode e cs) q \<and> q \<noteq> [] \<and> related q (p # ps))" .
  have "alive t'" using alive_update [OF 2(2), of c' ps] IH t'(1) by simp
  moreover have "ends t' q \<longleftrightarrow> ends (TrieNode e cs) q \<or> q = p # ps" for q
  proof (cases q)
    case Nil
    then show ?thesis by (simp add: t'(1))
  next
    case (Cons a qs)
    then show ?thesis using IH ec [of qs] by (auto simp: t'(1) update_conv' split: if_splits)
  qed
  ultimately show ?case using cf by blast
qed

section \<open>The tree and the pairwise tests\<close>

lemma slash_prefix: "hasPrefix (q @ ''/'') (p @ ''/'') \<longleftrightarrow> prefix (splitOn CHR ''/'' p) (splitOn CHR ''/'' q)"
proof (induction p arbitrary: q)
  case Nil
  show ?case
  proof (cases q)
    case (Cons c r)
    obtain x xs where "splitOn CHR ''/'' r = x # xs" by (cases "splitOn CHR ''/'' r") auto
    then show ?thesis by (auto simp: Cons hasPrefix_iff)
  qed (simp add: hasPrefix_iff)
next
  case (Cons c p)
  obtain x xs where x: "splitOn CHR ''/'' p = x # xs" by (cases "splitOn CHR ''/'' p") auto
  show ?case
  proof (cases q)
    case Nil
    then show ?thesis using x by (auto simp: hasPrefix_iff)
  next
    case (Cons d r)
    obtain y ys where y: "splitOn CHR ''/'' r = y # ys" by (cases "splitOn CHR ''/'' r") auto
    have "hasPrefix (q @ ''/'') ((c # p) @ ''/'') \<longleftrightarrow> c = d \<and> prefix (x # xs) (y # ys)"
      using Cons.IH [of r] by (auto simp: Cons hasPrefix_Cons x y)
    then show ?thesis using x y by (auto simp: Cons)
  qed
qed

abbreviation parts :: "string \<Rightarrow> string list" where
  "parts p \<equiv> splitOn CHR ''/'' p"

lemma CheckPathConflict_related:
  assumes "\<not> hasSuffix p ''/''" "\<forall>q \<in> set qs. \<not> hasSuffix q ''/''"
  shows "CheckPathConflict p qs \<longleftrightarrow> (\<exists>q \<in> set qs. related (parts p) (parts q))"
  using assms unfolding CheckPathConflict_def related_def with_slash_def by (auto simp: slash_prefix)

definition later_conflicts :: "string list \<Rightarrow> string list \<Rightarrow> nat set" where
  "later_conflicts seen ps = {i. i < length ps \<and> (\<exists>q \<in> set (seen @ take i ps). related (parts q) (parts (ps ! i)))}"

lemma later_conflicts_Cons:
  "later_conflicts seen (p # ps) =
     (if \<exists>q \<in> set seen. related (parts q) (parts p) then {0} else {}) \<union> Suc ` later_conflicts (seen @ [p]) ps"
  (is "?l = ?r")
proof (rule set_eqI)
  fix i
  show "i \<in> ?l \<longleftrightarrow> i \<in> ?r"
    by (cases i) (auto simp: later_conflicts_def)
qed

lemma check_paths_correct:
  assumes "alive t" "\<forall>q. ends t q \<longleftrightarrow> q \<in> parts ` set seen" "check_paths ps t n m = (n', m')"
  shows "n' = n + of_nat (card (later_conflicts seen ps))
    \<and> dom (map_of m') = dom (map_of m) \<union> (\<lambda>i. ps ! i) ` later_conflicts seen ps"
  using assms
proof (induction ps arbitrary: t seen n m)
  case Nil
  then show ?case by (simp add: later_conflicts_def)
next
  case (Cons p ps)
  obtain c t1 where ins: "insertPath t p = (c, t1)" by fastforce
  note i = insert_parts_correct [OF Cons.prems(1) ins [unfolded insertPath_def]]
  have c: "c \<longleftrightarrow> (\<exists>q \<in> set seen. related (parts q) (parts p))"
    using i Cons.prems(2) by (auto simp: image_iff)
  have e: "\<forall>q. ends t1 q \<longleftrightarrow> q \<in> parts ` set (seen @ [p])" using i Cons.prems(2) by auto
  have fin: "finite (later_conflicts (seen @ [p]) ps)" by (simp add: later_conflicts_def)
  have card: "card (later_conflicts seen (p # ps)) = (if c then 1 else 0) + card (later_conflicts (seen @ [p]) ps)"
  proof -
    have "0 \<notin> Suc ` later_conflicts (seen @ [p]) ps" by simp
    then show ?thesis unfolding later_conflicts_Cons c using fin
      by (auto simp: card_image card_insert_if)
  qed
  have im: "(\<lambda>i. (p # ps) ! i) ` later_conflicts seen (p # ps) = (if c then {p} else {}) \<union> (\<lambda>i. ps ! i) ` later_conflicts (seen @ [p]) ps"
    unfolding later_conflicts_Cons c by (auto simp: image_Un image_image)
  show ?case
  proof (cases c)
    case True
    then have r: "check_paths ps t1 (n + 1) (AList.update p True m) = (n', m')" using Cons.prems(3) by (simp add: ins)
    show ?thesis using Cons.IH [OF _ e r] i card im True by (auto simp: dom_update update_conv')
  next
    case False
    then have r: "check_paths ps t1 n m = (n', m')" using Cons.prems(3) by (simp add: ins)
    show ?thesis using Cons.IH [OF _ e r] i card im False by simp
  qed
qed

text \<open>
  The tree finds exactly the paths that are in conflict with an earlier one, in the sense of
  the pairwise test: the count is their number, modulo 2 to the 32nd, and the map has exactly these
  paths. Paths end without a slash.
\<close>

theorem trie_finds_conflicts:
  assumes "\<forall>p \<in> set ps. \<not> hasSuffix p ''/''" "CheckExistingPathConflict ps = (n, m)"
  shows "n = of_nat (card {i. i < length ps \<and> CheckPathConflict (ps ! i) (take i ps)})
    \<and> dom (map_of m) = {ps ! i | i. i < length ps \<and> CheckPathConflict (ps ! i) (take i ps)}"
proof -
  have eq: "later_conflicts [] ps = {i. i < length ps \<and> CheckPathConflict (ps ! i) (take i ps)}"
  proof -
    have "CheckPathConflict (ps ! i) (take i ps) \<longleftrightarrow> (\<exists>q \<in> set (take i ps). related (parts (ps ! i)) (parts q))" if "i < length ps" for i
      using assms(1) that by (intro CheckPathConflict_related) (auto dest: in_set_takeD)
    then show ?thesis by (auto simp: later_conflicts_def related_def)
  qed
  have "\<forall>q. ends newTrieNode q \<longleftrightarrow> q \<in> parts ` set []" by (simp add: not_ends_new)
  from check_paths_correct [OF alive_new this assms(2) [unfolded CheckExistingPathConflict_def]] show ?thesis
    unfolding eq by auto
qed

lemma indices_where: "{i. i < n \<and> P i} = set (filter P [0..<n])" for n :: nat
  by auto

theorem trie_finds_conflicts_witness:
  "fst (CheckExistingPathConflict [''/etc/a'', ''/etc'', ''/var'', ''/etc/a'']) = 2"
proof -
  let ?ps = "[''/etc/a'', ''/etc'', ''/var'', ''/etc/a'']"
  have "\<forall>p \<in> set ?ps. \<not> hasSuffix p ''/''" by code_simp
  from trie_finds_conflicts [OF this, of "fst (CheckExistingPathConflict ?ps)" "snd (CheckExistingPathConflict ?ps)"]
  have "fst (CheckExistingPathConflict ?ps) = of_nat (card {i. i < length ?ps \<and> CheckPathConflict (?ps ! i) (take i ?ps)})" by simp
  also have "{i. i < length ?ps \<and> CheckPathConflict (?ps ! i) (take i ?ps)}
      = set (filter (\<lambda>i. CheckPathConflict (?ps ! i) (take i ?ps)) [0..<length ?ps])" by (rule indices_where)
  also have "filter (\<lambda>i. CheckPathConflict (?ps ! i) (take i ?ps)) [0..<length ?ps] = [1, 3]" by code_simp
  finally show ?thesis by simp
qed

section \<open>Joining a directory and a name\<close>

text \<open>
  A path that \<open>SecureJoin\<close> returns is the directory or lies below it: it has the parts of the
  absolute directory and then only plain names.
\<close>

theorem secure_join_stays_inside:
  assumes "SecureJoin cwd baseDir name = Inr dst" "\<forall>w. cwd = Some w \<longrightarrow> rooted w"
  shows "\<exists>baseAbs rest. filepath_Abs cwd baseDir = Some baseAbs
    \<and> dst = render True (clean_parts baseAbs @ rest) \<and> list_all plain_part (clean_parts baseAbs @ rest)"
proof -
  obtain b where b: "filepath_Abs cwd baseDir = Some b" "filepath_Abs cwd (path_Join baseDir (Clean name)) = Some dst"
    and rel: "\<not> hasPrefix (filepath_Rel b dst) ''..''"
    using assms(1) by (auto simp: SecureJoin_def Let_def split: if_splits option.splits)
  have B: "rooted b" "list_all plain_part (clean_parts b)" "b = render True (clean_parts b)"
    using Abs_rooted [OF b(1)] assms(2) by auto
  have D: "rooted dst" "list_all plain_part (clean_parts dst)" "dst = render True (clean_parts dst)"
    using Abs_rooted [OF b(2)] assms(2) by auto
  obtain bs ts where s: "strip_common (clean_parts b) (clean_parts dst) = (bs, ts)" by fastforce
  then obtain c where c: "clean_parts b = c @ bs" "clean_parts dst = c @ ts" using strip_common_shape by blast
  have "\<exists>rest. clean_parts dst = clean_parts b @ rest"
  proof (cases "Clean dst = Clean b")
    case True
    then have "clean_parts dst = clean_parts b" using clean_parts_Clean B(1) D(1) by metis
    then show ?thesis by simp
  next
    case False
    then have r: "filepath_Rel b dst = joinWith ''/'' (replicate (length bs) ''..'' @ ts)"
      by (simp add: filepath_Rel_def s)
    have "bs = []"
    proof (rule ccontr)
      assume "bs \<noteq> []"
      then obtain n where "length bs = Suc n" by (cases bs) auto
      then have "hasPrefix (filepath_Rel b dst) ''..''"
        unfolding r by (cases "replicate n ''..'' @ ts") (auto simp: hasPrefix_iff)
      then show False using rel by simp
    qed
    then show ?thesis using c by simp
  qed
  then obtain rest where "clean_parts dst = clean_parts b @ rest" by blast
  then show ?thesis using b(1) D(2,3) by auto
qed

theorem secure_join_stays_inside_witness:
  "SecureJoin (Some ''/srv'') ''tmp'' ''a/../b/c'' = Inr ''/srv/tmp/b/c''
    \<and> (\<exists>rest. ''/srv/tmp/b/c'' = render True (clean_parts ''/srv/tmp'' @ rest))"
proof -
  have j: "SecureJoin (Some ''/srv'') ''tmp'' ''a/../b/c'' = Inr ''/srv/tmp/b/c''" by code_simp
  have a: "filepath_Abs (Some ''/srv'') ''tmp'' = Some ''/srv/tmp''" by code_simp
  have "\<forall>w. Some ''/srv'' = Some w \<longrightarrow> rooted w" by (simp add: rooted_def hasPrefix_def)
  from secure_join_stays_inside [OF j this] a have "\<exists>rest. ''/srv/tmp/b/c'' = render True (clean_parts ''/srv/tmp'' @ rest)" by auto
  then show ?thesis using j by blast
qed

text \<open>
  Two names the description treats otherwise: an absolute name is joined below the directory, and a
  name of the directory that begins with two dots is refused.
\<close>

lemma secure_join_absolute_name: "SecureJoin (Some ''/'') ''/srv'' ''/etc/passwd'' = Inr ''/srv/etc/passwd''"
  by code_simp

lemma secure_join_dotted_name: "SecureJoin (Some ''/'') ''/srv'' ''..data/a'' = Inl InvalidFilePath"
  by code_simp

text \<open>The name of the parent directory passes as a file name.\<close>

lemma tools_ValidateFileName_parent: "tools_ValidateFileName ''..''" "\<not> tools_ValidateFileName ''../a''"
  by code_simp+

end
