(* ===== verification/ToolsLib.thy ===== *)
theory ToolsLib
  imports GoPath "HOL-Library.Multiset" "HOL-Library.Word" "HOL-Library.List_Lexorder" "HOL-Library.Char_ord"
begin

text \<open>
  The small functions on slices, numbers and texts of \<open>pkg/tools/tools.go\<close>, \<open>convert.go\<close> and
  \<open>container.go\<close>. Go's maps used as sets are lists of the keys seen so far.
\<close>

section \<open>Lists of numbers in texts\<close>

fun atoi_all :: "string list \<Rightarrow> int list option" where
  "atoi_all [] = Some []"
| "atoi_all (s # ss) = (case atoi s of None \<Rightarrow> None | Some i \<Rightarrow> map_option ((#) i) (atoi_all ss))"

definition GetIntList :: "string \<Rightarrow> int list option" where
  "GetIntList input = (if input = [] then Some [] else atoi_all (splitOn CHR '','' input))"

definition GetUint32List :: "string \<Rightarrow> 32 word list option" where
  "GetUint32List input =
     (if input = [] then Some [] else map_option (map word_of_int) (atoi_all (splitOn CHR '','' input)))"

definition StrToUint32Slice :: "string \<Rightarrow> 32 word list option" where
  "StrToUint32Slice str = map_option (map word_of_int) (atoi_all (splitOn CHR '','' str))"

text \<open>The slice is made with its length and then appended to: the zeros it starts with stay.\<close>

definition StringSliceToUint32Slice :: "string list \<Rightarrow> 32 word list option" where
  "StringSliceToUint32Slice strs =
     map_option (\<lambda>is. replicate (length strs) 0 @ map word_of_int is) (atoi_all strs)"

definition uint_text :: "32 word \<Rightarrow> string" where
  "uint_text v = itoa_nat (unat v)"

definition JoinUint32 :: "32 word list \<Rightarrow> string \<Rightarrow> string" where
  "JoinUint32 vs sep = joinWith sep (map uint_text vs)"

section \<open>Slices as sets\<close>

definition SliceDiff :: "'a list \<Rightarrow> 'a list \<Rightarrow> 'a list" where
  "SliceDiff s1 s2 = filter (\<lambda>v. v \<notin> set s2) s1"

definition SliceIntersect :: "'a list \<Rightarrow> 'a list \<Rightarrow> 'a list" where
  "SliceIntersect s1 s2 = filter (\<lambda>v. v \<in> set s1) s2"

fun repeated_from :: "'a list \<Rightarrow> 'a list \<Rightarrow> 'a list \<Rightarrow> 'a list" where
  "repeated_from seen added [] = []"
| "repeated_from seen added (x # xs) =
     (if x \<in> set seen \<and> x \<notin> set added then x # repeated_from (x # seen) (x # added) xs
      else repeated_from (x # seen) added xs)"

definition SliceRepeatedElements :: "'a list \<Rightarrow> 'a list" where
  "SliceRepeatedElements xs = repeated_from [] [] xs"

definition RemoveDuplicates :: "'a list \<Rightarrow> 'a list" where
  "RemoveDuplicates input = dedup_from [] input"

definition Difference :: "'a list \<Rightarrow> 'a list \<Rightarrow> 'a list" where
  "Difference a b = filter (\<lambda>num. num \<notin> set b) a"

text \<open>Only the counts of the first slice are looked up in those of the second.\<close>

definition IsSameSlice :: "'a list \<Rightarrow> 'a list \<Rightarrow> bool" where
  "IsSameSlice s1 s2 =
     (if length s1 \<noteq> length s2 then False
      else \<forall>num \<in> set s1. num \<in> set s2 \<and> count_list s1 num = count_list s2 num)"

definition MergeDoubleStringSlice :: "string list list \<Rightarrow> string list" where
  "MergeDoubleStringSlice input = sort (remdups (concat input))"

definition tools_Contains :: "'a list \<Rightarrow> 'a \<Rightarrow> bool" where
  "tools_Contains xs v = (v \<in> set xs)"

section \<open>Texts\<close>

definition SplitContainerID :: "string \<Rightarrow> string" where
  "SplitContainerID input =
     (if input = [] then []
      else case indexOf input ''://'' of None \<Rightarrow> input | Some i \<Rightarrow> drop (i + 3) input)"

text \<open>The positions at which the code points of a text start, from a position on.\<close>

function rune_starts :: "nat \<Rightarrow> nat list \<Rightarrow> nat list" where
  "rune_starts i [] = []"
| "rune_starts i (b # bs) = (let w = snd (decode_rune (b # bs)) in i # rune_starts (i + w) (drop w (b # bs)))"
  by pat_completeness auto
termination
proof (relation "measure (length \<circ> snd)")
  fix i b :: nat and bs w
  assume "w = snd (decode_rune (b # bs))"
  then have "1 \<le> w" using decode_rune_width [of "b # bs"] by (simp del: decode_rune.simps)
  then show "((i + w, drop w (b # bs)), i, b # bs) \<in> measure (length \<circ> snd)" by simp
qed simp

fun last_valid :: "nat \<Rightarrow> nat \<Rightarrow> nat list \<Rightarrow> nat" where
  "last_valid lastValid maxBytes [] = lastValid"
| "last_valid lastValid maxBytes (i # is) = (if i > maxBytes then lastValid else last_valid i maxBytes is)"

definition safeTruncateUTF8 :: "string \<Rightarrow> nat \<Rightarrow> string" where
  "safeTruncateUTF8 s maxBytes = take (last_valid 0 maxBytes (rune_starts 0 (map of_char s))) s"

text \<open>\<open>human\<close> is the size as a text of the library \<open>go-humanize\<close>.\<close>

definition TruncateWithHumanize :: "(nat \<Rightarrow> string) \<Rightarrow> string \<Rightarrow> string" where
  "TruncateWithHumanize human s =
     (if length s \<le> 60 * 1024 then s
      else safeTruncateUTF8 s (60 * 1024) @ ''...(Truncated, Total '' @ human (length s) @ '')'')"

section \<open>Properties\<close>

lemma IsSameSlice_mset: "IsSameSlice s1 s2 \<longleftrightarrow> mset s1 = mset s2"
proof
  assume "mset s1 = mset s2"
  then have "length s1 = length s2" "set s1 = set s2" "\<And>x. count_list s1 x = count_list s2 x"
    by (metis size_mset, metis set_mset_mset, metis count_mset)
  then show "IsSameSlice s1 s2" by (simp add: IsSameSlice_def)
next
  assume s: "IsSameSlice s1 s2"
  have "mset s1 \<subseteq># mset s2"
  proof (rule mset_subset_eqI)
    fix x show "count (mset s1) x \<le> count (mset s2) x"
      using s by (cases "x \<in> set s1") (auto simp: IsSameSlice_def count_mset count_list_0_iff split: if_splits)
  qed
  moreover have "size (mset s1) = size (mset s2)" using s by (auto simp: IsSameSlice_def split: if_splits)
  ultimately show "mset s1 = mset s2" by (metis mset_subset_size subset_mset.less_le less_irrefl)
qed

lemma set_SliceDiff [simp]: "set (SliceDiff a b) = set a - set b"
  by (auto simp: SliceDiff_def)

lemma repeated_from_props:
  "set added \<subseteq> set seen \<Longrightarrow> distinct (repeated_from seen added xs)
    \<and> set (repeated_from seen added xs) = {x \<in> set xs. x \<notin> set added \<and> (x \<in> set seen \<or> 1 < count_list xs x)}"
proof (induction xs arbitrary: seen added)
  case (Cons y ys)
  have c: "1 < count_list (y # ys) x \<longleftrightarrow> (if x = y then y \<in> set ys else 1 < count_list ys x)" for x
    using count_list_0_iff [of ys y] by auto
  show ?case
  proof (cases "y \<in> set seen \<and> y \<notin> set added")
    case True
    then have "set (y # added) \<subseteq> set (y # seen)" using Cons.prems by auto
    from Cons.IH [OF this] show ?thesis using True unfolding c by (auto split: if_splits)
  next
    case False
    then have "set added \<subseteq> set (y # seen)" using Cons.prems by auto
    from Cons.IH [OF this] show ?thesis using False Cons.prems unfolding c by (auto split: if_splits)
  qed
qed simp

lemma SliceRepeatedElements_set: "distinct (SliceRepeatedElements xs) \<and> set (SliceRepeatedElements xs) = {x \<in> set xs. 1 < count_list xs x}"
  using repeated_from_props [of "[]" "[]" xs] by (simp add: SliceRepeatedElements_def)

lemma MergeDoubleStringSlice_props:
  "sorted (MergeDoubleStringSlice xss) \<and> distinct (MergeDoubleStringSlice xss) \<and> set (MergeDoubleStringSlice xss) = (\<Union>xs \<in> set xss. set xs)"
  by (simp add: MergeDoubleStringSlice_def)

lemma last_valid_bound: "v \<le> m \<Longrightarrow> last_valid v m is \<le> m"
  by (induction "is" arbitrary: v) auto

lemma safeTruncateUTF8_bound: "length (safeTruncateUTF8 s m) \<le> m"
  using last_valid_bound [of 0 m "rune_starts 0 (map of_char s)"] by (auto simp: safeTruncateUTF8_def min_def)

lemma Difference_keeps_repetitions: "Difference [1, 1, 2] [2] = [1::32 word, 1]"
  by (simp add: Difference_def)

lemma StringSliceToUint32Slice_leading_zeros: "StringSliceToUint32Slice [''7'', ''9''] = Some [0, 0, 7, 9]"
  by code_simp

end
