(* ===== verification/IamPolicy.thy ===== *)
theory IamPolicy
  imports GoStrings GoFloat
begin

text \<open>
  The policies of the permission centre, \<open>pkg/iam/sdk/operator\<close>: values as they come out of
  \<open>encoding/json\<close>, the operators with their \<open>Match\<close> functions, and the policy tree. A policy tree has no
  nil nodes; the codec itself (\<open>UnmarshalJSON\<close>, \<open>MarshalJSON\<close> of a policy) calls the library.
\<close>

section \<open>Values\<close>

datatype gval =
  VNil | VBool bool | VNum gofloat | VString string | VSlice "gval list" | VMap "(string \<times> gval) list"

datatype kind = KBool | KFloat64 | KString | KSlice | KMap

text \<open>\<open>reflect.TypeOf(v).Kind()\<close>; the type of nil has no kind, and asking for it panics.\<close>

fun kind_of :: "gval \<Rightarrow> kind option" where
  "kind_of VNil = None"
| "kind_of (VBool _) = Some KBool"
| "kind_of (VNum _) = Some KFloat64"
| "kind_of (VString _) = Some KString"
| "kind_of (VSlice _) = Some KSlice"
| "kind_of (VMap _) = Some KMap"

text \<open>\<open>reflect.DeepEqual\<close>.\<close>

fun deep_equal :: "gval \<Rightarrow> gval \<Rightarrow> bool"
  and deep_equals :: "gval list \<Rightarrow> gval list \<Rightarrow> bool"
  and deep_entries :: "(string \<times> gval) list \<Rightarrow> (string \<times> gval) list \<Rightarrow> bool" where
  "deep_equal VNil VNil = True"
| "deep_equal (VBool a) (VBool b) = (a = b)"
| "deep_equal (VNum a) (VNum b) = fl_eq a b"
| "deep_equal (VString a) (VString b) = (a = b)"
| "deep_equal (VSlice a) (VSlice b) = deep_equals a b"
| "deep_equal (VMap a) (VMap b) = (length a = length b \<and> deep_entries a b)"
| "deep_equal _ _ = False"
| "deep_equals [] [] = True"
| "deep_equals (a # as) (b # bs) = (deep_equal a b \<and> deep_equals as bs)"
| "deep_equals _ _ = False"
| "deep_entries [] m = True"
| "deep_entries ((k, v) # r) m =
     ((case map_of m k of None \<Rightarrow> False | Some w \<Rightarrow> deep_equal v w) \<and> deep_entries r m)"

definition isNumeric :: "gval \<Rightarrow> bool" where
  "isNumeric val = (case val of VNum _ \<Rightarrow> True | _ \<Rightarrow> False)"

text \<open>Called on numeric values only.\<close>

definition toFloat64 :: "gval \<Rightarrow> gofloat" where
  "toFloat64 val = (case val of VNum f \<Rightarrow> f | _ \<Rightarrow> FNaN)"

section \<open>Operators\<close>

text \<open>\<open>NilType\<close> is the panic of a method called on the type of nil; the others are error values.\<close>

datatype match_err = NilType | UnknownType | MismatchType | InvalidParameter | InvalidType | UnsupportedCompare

datatype operator =
    UnknownOp | EqualOp | NotEqualOp | InOp | NotInOp | ContainsOp | NotContainsOp | StartsWithOp
  | NotStartsWithOp | EndsWithOp | NotEndsWithOp | LessThanOp | LessThanEqualOp | GreaterThanOp
  | GreaterThanEqualOp | AnyOp

definition factory :: "(string, operator) gomap" where
  "factory =
    [(''eq'', EqualOp), (''not_eq'', NotEqualOp), (''in'', InOp), (''not_in'', NotInOp),
     (''contains'', ContainsOp), (''not_contains'', NotContainsOp), (''starts_with'', StartsWithOp),
     (''not_starts_with'', NotStartsWithOp), (''ends_with'', EndsWithOp),
     (''not_ends_with'', NotEndsWithOp), (''lt'', LessThanOp), (''lte'', LessThanEqualOp),
     (''gt'', GreaterThanOp), (''gte'', GreaterThanEqualOp), (''any'', AnyOp)]"

definition OpType_Operator :: "string \<Rightarrow> operator" where
  "OpType_Operator opr = (case map_of factory opr of None \<Rightarrow> UnknownOp | Some p \<Rightarrow> p)"

definition same_kind :: "gval \<Rightarrow> gval \<Rightarrow> match_err + unit" where
  "same_kind m w = (case (kind_of m, kind_of w) of
      (Some a, Some b) \<Rightarrow> ensure (a = b) MismatchType
    | _ \<Rightarrow> Inl NilType)"

definition EqualOp_Match :: "gval \<Rightarrow> gval \<Rightarrow> match_err + bool" where
  "EqualOp_Match m w = rbind (same_kind m w) (\<lambda>_. Inr (deep_equal m w))"

definition NotEqualOp_Match :: "gval \<Rightarrow> gval \<Rightarrow> match_err + bool" where
  "NotEqualOp_Match m w = rbind (same_kind m w) (\<lambda>_. Inr (\<not> deep_equal m w))"

text \<open>The loop over the slice: the type of an element is checked before it is compared.\<close>

fun in_loop :: "(gval \<Rightarrow> 'b option) \<Rightarrow> ('b \<Rightarrow> bool) \<Rightarrow> gval list \<Rightarrow> match_err + bool" where
  "in_loop as hit [] = Inr False"
| "in_loop as hit (v # vs) = (case as v of
      None \<Rightarrow> Inl UnsupportedCompare
    | Some b \<Rightarrow> if hit b then Inr True else in_loop as hit vs)"

definition as_string :: "gval \<Rightarrow> string option" where
  "as_string v = (case v of VString s \<Rightarrow> Some s | _ \<Rightarrow> None)"

definition as_bool :: "gval \<Rightarrow> bool option" where
  "as_bool v = (case v of VBool b \<Rightarrow> Some b | _ \<Rightarrow> None)"

definition as_num :: "gval \<Rightarrow> gofloat option" where
  "as_num v = (if isNumeric v then Some (toFloat64 v) else None)"

definition InOp_Match :: "gval \<Rightarrow> gval \<Rightarrow> match_err + bool" where
  "InOp_Match m w =
     (if m = VNil \<or> w = VNil then Inl InvalidParameter
      else if kind_of m = Some KSlice then Inl InvalidType
      else case w of
          VSlice vs \<Rightarrow> (case m of
              VString s \<Rightarrow> in_loop as_string ((=) s) vs
            | VBool b \<Rightarrow> in_loop as_bool ((=) b) vs
            | _ \<Rightarrow> if \<not> isNumeric m then Inl UnsupportedCompare else in_loop as_num (fl_eq (toFloat64 m)) vs)
        | _ \<Rightarrow> Inl InvalidType)"

definition NotInOp_Match :: "gval \<Rightarrow> gval \<Rightarrow> match_err + bool" where
  "NotInOp_Match m w = rbind (InOp_Match m w) (\<lambda>hit. Inr (\<not> hit))"

definition on_strings :: "(string \<Rightarrow> string \<Rightarrow> bool) \<Rightarrow> gval \<Rightarrow> gval \<Rightarrow> match_err + bool" where
  "on_strings f m w = (case (m, w) of (VString a, VString b) \<Rightarrow> Inr (f a b) | _ \<Rightarrow> Inl InvalidParameter)"

definition ContainsOp_Match :: "gval \<Rightarrow> gval \<Rightarrow> match_err + bool" where
  "ContainsOp_Match m w = on_strings containsStr m w"

definition NotContainsOp_Match :: "gval \<Rightarrow> gval \<Rightarrow> match_err + bool" where
  "NotContainsOp_Match m w = on_strings (\<lambda>a b. \<not> containsStr a b) m w"

definition StartsWithOp_Match :: "gval \<Rightarrow> gval \<Rightarrow> match_err + bool" where
  "StartsWithOp_Match m w = on_strings hasPrefix m w"

definition NotStartsWithOp_Match :: "gval \<Rightarrow> gval \<Rightarrow> match_err + bool" where
  "NotStartsWithOp_Match m w = on_strings (\<lambda>a b. \<not> hasPrefix a b) m w"

definition EndsWithOp_Match :: "gval \<Rightarrow> gval \<Rightarrow> match_err + bool" where
  "EndsWithOp_Match m w = on_strings hasSuffix m w"

definition NotEndsWithOp_Match :: "gval \<Rightarrow> gval \<Rightarrow> match_err + bool" where
  "NotEndsWithOp_Match m w = on_strings (\<lambda>a b. \<not> hasSuffix a b) m w"

definition on_numbers :: "(gofloat \<Rightarrow> gofloat \<Rightarrow> bool) \<Rightarrow> gval \<Rightarrow> gval \<Rightarrow> match_err + bool" where
  "on_numbers f m w =
     (if \<not> isNumeric m \<or> \<not> isNumeric w then Inl InvalidParameter
      else Inr (f (toFloat64 m) (toFloat64 w)))"

definition LessThanOp_Match :: "gval \<Rightarrow> gval \<Rightarrow> match_err + bool" where
  "LessThanOp_Match m w = on_numbers fl_less m w"

definition LessThanEqualOp_Match :: "gval \<Rightarrow> gval \<Rightarrow> match_err + bool" where
  "LessThanEqualOp_Match m w = on_numbers fl_le m w"

definition GreaterThanOp_Match :: "gval \<Rightarrow> gval \<Rightarrow> match_err + bool" where
  "GreaterThanOp_Match m w = on_numbers (\<lambda>a b. fl_less b a) m w"

text \<open>The code compares with \<open>>\<close> here, not with \<open>>=\<close>.\<close>

definition GreaterThanEqualOp_Match :: "gval \<Rightarrow> gval \<Rightarrow> match_err + bool" where
  "GreaterThanEqualOp_Match m w = on_numbers (\<lambda>a b. fl_less b a) m w"

definition AnyOp_Match :: "gval \<Rightarrow> gval \<Rightarrow> match_err + bool" where
  "AnyOp_Match m w = Inr True"

definition UnknownOp_Match :: "gval \<Rightarrow> gval \<Rightarrow> match_err + bool" where
  "UnknownOp_Match m w = Inl UnknownType"

fun Match :: "operator \<Rightarrow> gval \<Rightarrow> gval \<Rightarrow> match_err + bool" where
  "Match UnknownOp = UnknownOp_Match"
| "Match EqualOp = EqualOp_Match"
| "Match NotEqualOp = NotEqualOp_Match"
| "Match InOp = InOp_Match"
| "Match NotInOp = NotInOp_Match"
| "Match ContainsOp = ContainsOp_Match"
| "Match NotContainsOp = NotContainsOp_Match"
| "Match StartsWithOp = StartsWithOp_Match"
| "Match NotStartsWithOp = NotStartsWithOp_Match"
| "Match EndsWithOp = EndsWithOp_Match"
| "Match NotEndsWithOp = NotEndsWithOp_Match"
| "Match LessThanOp = LessThanOp_Match"
| "Match LessThanEqualOp = LessThanEqualOp_Match"
| "Match GreaterThanOp = GreaterThanOp_Match"
| "Match GreaterThanEqualOp = GreaterThanEqualOp_Match"
| "Match AnyOp = AnyOp_Match"

section \<open>Policies\<close>

record field =
  Resource :: string
  Attribute :: string

text \<open>A policy without an element is what \<open>{}\<close> decodes to.\<close>

datatype policy = Policy (Operator: string) (Element: element)
and element = NoElement | Content "policy list" | FieldValue field gval

definition trimRightChar :: "char \<Rightarrow> string \<Rightarrow> string" where
  "trimRightChar c s = rev (dropWhile ((=) c) (rev s))"

text \<open>The text of a field, with its quotation marks, is cut at its first dot.\<close>

definition Field_UnmarshalJSON :: "string \<Rightarrow> field option" where
  "Field_UnmarshalJSON i =
     (if i = [CHR 0x22, CHR 0x22] then Some \<lparr>Resource = [], Attribute = []\<rparr>
      else case indexOf i ''.'' of
          None \<Rightarrow> None
        | Some n \<Rightarrow>
            (let r = dropWhile ((=) CHR 0x22) (take n i); a = trimRightChar CHR 0x22 (drop (n + 1) i) in
             if r = [] \<or> a = [] then None else Some \<lparr>Resource = r, Attribute = a\<rparr>))"

definition Field_MarshalJSON :: "field \<Rightarrow> string" where
  "Field_MarshalJSON f = CHR 0x22 # Resource f @ ''.'' @ Attribute f @ [CHR 0x22]"

section \<open>Properties\<close>

lemma in_loop_strings:
  "in_loop as_string ((=) s) vs = Inr b \<Longrightarrow> b \<longleftrightarrow> VString s \<in> set vs"
  by (induction vs) (auto simp: as_string_def split: option.splits if_splits gval.splits)

lemma in_loop_all_strings:
  "in_loop as_string ((=) s) (map VString ss) = Inr (s \<in> set ss)"
  by (induction ss) (auto simp: as_string_def)

lemma gte_is_gt: "Match (OpType_Operator ''gte'') = Match (OpType_Operator ''gt'')"
  by (rule ext)+ (simp add: OpType_Operator_def factory_def GreaterThanEqualOp_Match_def GreaterThanOp_Match_def)

lemma Match_string:
  "Match EqualOp (VString s) (VString t) = Inr (s = t)"
  "Match InOp (VString s) (VSlice (map VString ss)) = Inr (s \<in> set ss)"
  "Match StartsWithOp (VString s) (VString t) = Inr (hasPrefix s t)"
  by (simp_all add: EqualOp_Match_def same_kind_def ensure_def InOp_Match_def in_loop_all_strings
      StartsWithOp_Match_def on_strings_def)

lemma eq_nil_panics: "Match EqualOp (VString s) VNil = Inl NilType"
  by (simp add: EqualOp_Match_def same_kind_def)

lemma field_roundtrip:
  assumes "CHR ''.'' \<notin> set (Resource f)" "Resource f \<noteq> []" "Attribute f \<noteq> []"
    and "hd (Resource f) \<noteq> CHR 0x22" "last (Attribute f) \<noteq> CHR 0x22"
  shows "Field_UnmarshalJSON (Field_MarshalJSON f) = Some f"
proof -
  obtain r rs where r: "Resource f = r # rs" using assms(2) by (cases "Resource f") auto
  obtain a as where a: "Attribute f = as @ [a]" using assms(3) by (cases "Attribute f" rule: rev_cases) auto
  have ix: "indexOf (xs @ CHR ''.'' # ys) ''.'' = Some (length xs)" if "CHR ''.'' \<notin> set xs" for xs ys
    using that by (induction xs) (auto simp: hasPrefix_def)
  have "indexOf (Field_MarshalJSON f) ''.'' = Some (length (CHR 0x22 # Resource f))"
    using ix [of "CHR 0x22 # Resource f" "Attribute f @ [CHR 0x22]"] assms(1) by (simp add: Field_MarshalJSON_def)
  then show ?thesis using assms(4,5) r a
    by (cases f) (auto simp: Field_UnmarshalJSON_def Field_MarshalJSON_def trimRightChar_def simp del: indexOf.simps)
qed

end
