(* ===== verification/IamAuth.thy ===== *)
theory IamAuth
  imports IamPolicy
begin

text \<open>
  The decisions of \<open>pkg/iam/sdk/auth\<close>: whether a policy authorises an operation on resources
  (\<open>calculate.go\<close>) and which instances it authorises (\<open>count.go\<close>). The fetcher, which lists the
  instances with given attributes, is the parameter \<open>fetch\<close>.
\<close>

section \<open>Resources\<close>

definition IamIDKey :: string where "IamIDKey = ''id''"
definition IamPathKey :: string where "IamPathKey = ''_bk_iam_path_''"

record resource =
  rs_System :: string
  rs_Type :: string
  rs_ID :: string
  rs_Attribute :: "(string, gval) gomap"

record list_with_attributes =
  la_Operator :: string
  la_IDList :: "string list"
  la_AttrPolicies :: "policy list"
  la_Type :: string

type_synonym fetcher = "list_with_attributes \<Rightarrow> string list option"

text \<open>\<open>Panicked\<close> is a runtime panic; the others are error values.\<close>

datatype policy_err =
    Panicked | NoResources | NotFieldValue | NotContent | BadContentOperator string
  | ResourceNotFound string | MatchFailed string match_err | UnsupportedAttribute string
  | DifferentResource | FetchFailed | PathIsNil | PathNotSlice | PathNotStrings
  | HasIamPath | NotString | NotSlice | UnsupportedIdOperator | DifferentFields | NilSets

definition match_result :: "string \<Rightarrow> match_err + bool \<Rightarrow> policy_err + bool" where
  "match_result opr r = (case r of
      Inl NilType \<Rightarrow> Inl Panicked | Inl e \<Rightarrow> Inl (MatchFailed opr e) | Inr b \<Rightarrow> Inr b)"

text \<open>The operator of a policy applied to a value of the resource.\<close>

definition op_match :: "string \<Rightarrow> gval \<Rightarrow> gval \<Rightarrow> policy_err + bool" where
  "op_match opr m w = match_result opr (Match (OpType_Operator opr) m w)"

fun all_strings :: "gval list \<Rightarrow> string list option" where
  "all_strings [] = Some []"
| "all_strings (v # vs) = (case v of VString s \<Rightarrow> map_option ((#) s) (all_strings vs) | _ \<Rightarrow> None)"

definition getIamPath :: "(string, gval) gomap \<Rightarrow> policy_err + string list" where
  "getIamPath attr = (case map_of attr IamPathKey of
      None \<Rightarrow> Inr []
    | Some VNil \<Rightarrow> Inl PathIsNil
    | Some (VSlice vs) \<Rightarrow> (case all_strings vs of None \<Rightarrow> Inl PathNotStrings | Some ps \<Rightarrow> Inr ps)
    | Some _ \<Rightarrow> Inl PathNotSlice)"

section \<open>Single conditions\<close>

definition authResourceAttribute :: "fetcher \<Rightarrow> string \<Rightarrow> policy list \<Rightarrow> resource \<Rightarrow> policy_err + bool" where
  "authResourceAttribute fetch opr attrPolicies rsc =
     (case fetch \<lparr>la_Operator = opr, la_IDList = (if rs_ID rsc \<noteq> [] then [rs_ID rsc] else []),
                  la_AttrPolicies = attrPolicies, la_Type = rs_Type rsc\<rparr> of
        None \<Rightarrow> Inl FetchFailed
      | Some idList \<Rightarrow> Inr (rs_ID rsc \<in> set idList))"

fun match_paths :: "string \<Rightarrow> gval \<Rightarrow> string list \<Rightarrow> policy_err + bool" where
  "match_paths opr w [] = Inr False"
| "match_paths opr w (path # rest) =
     rbind (op_match opr (VString path) w) (\<lambda>matched. if matched then Inr True else match_paths opr w rest)"

definition authWithPath :: "string \<Rightarrow> gval \<Rightarrow> string list \<Rightarrow> policy_err + bool" where
  "authWithPath opr w authPath = (if w = VNil \<and> authPath = [] then Inr False else match_paths opr w authPath)"

definition calculateAuthPath :: "string \<Rightarrow> gval \<Rightarrow> string list \<Rightarrow> policy_err + bool" where
  "calculateAuthPath opr w authPath = (if w = VNil \<and> authPath = [] then Inr False else match_paths opr w authPath)"

type_synonym rsc_map = "(string, resource) gomap"

definition authFieldValue :: "fetcher \<Rightarrow> policy \<Rightarrow> rsc_map \<Rightarrow> policy_err + bool" where
  "authFieldValue fetch p rscMap = (case Element p of
      FieldValue f w \<Rightarrow> (case map_of rscMap (Resource f) of
          None \<Rightarrow> Inl (ResourceNotFound (Resource f))
        | Some authRsc \<Rightarrow>
            if Attribute f = IamIDKey then op_match (Operator p) (VString (rs_ID authRsc)) w
            else if Attribute f = IamPathKey then
              rbind (getIamPath (rs_Attribute authRsc)) (\<lambda>authPath.
                if authPath = [] then authResourceAttribute fetch (Operator p) [p] authRsc
                else authWithPath (Operator p) w authPath)
            else authResourceAttribute fetch (Operator p) [p] authRsc)
    | _ \<Rightarrow> Inl NotFieldValue)"

text \<open>
  The result is whether the loop of the caller goes on to the next policy, and the decision. A
  condition on another attribute is appended to \<open>allAttrPolicies\<close>, but to the slice of this call:
  the slice of the caller stays as it is.
\<close>

definition authElement ::
  "fetcher \<Rightarrow> policy \<Rightarrow> rsc_map \<Rightarrow> policy list \<Rightarrow> string \<Rightarrow> policy_err + bool \<times> bool" where
  "authElement fetch p rscMap allAttrPolicies resource = (case Element p of
      FieldValue f w \<Rightarrow> (case map_of rscMap (Resource f) of
          None \<Rightarrow> Inl (ResourceNotFound (Resource f))
        | Some authRsc \<Rightarrow>
            if Attribute f = IamIDKey then
              rbind (op_match (Operator p) (VString (rs_ID authRsc)) w) (\<lambda>authorized. Inr (False, authorized))
            else if Attribute f = IamPathKey then
              rbind (getIamPath (rs_Attribute authRsc)) (\<lambda>authPath.
              rbind (if authPath = [] then authResourceAttribute fetch (Operator p) [p] authRsc
                     else calculateAuthPath (Operator p) w authPath) (\<lambda>authorized. Inr (False, authorized)))
            else if Operator p \<noteq> ''eq'' \<and> Operator p \<noteq> ''in'' then Inl (UnsupportedAttribute (Operator p))
            else if resource \<noteq> [] \<and> resource \<noteq> Resource f then Inl DifferentResource
            else Inr (True, False))
    | _ \<Rightarrow> Inl NotFieldValue)"

section \<open>Nested policies\<close>

text \<open>
  The loop over a content ends with a decision (\<open>Inl\<close>) or with the results of the policies
  (\<open>Inr\<close>).
\<close>

function (sequential) authContent :: "fetcher \<Rightarrow> policy \<Rightarrow> rsc_map \<Rightarrow> policy_err + bool"
  and content_loop :: "fetcher \<Rightarrow> string \<Rightarrow> policy list \<Rightarrow> rsc_map \<Rightarrow> policy list \<Rightarrow> string \<Rightarrow> bool list
    \<Rightarrow> policy_err + (bool + bool list)"
  and authPolicyContent :: "fetcher \<Rightarrow> policy \<Rightarrow> rsc_map \<Rightarrow> policy list \<Rightarrow> string \<Rightarrow> policy_err + bool \<times> bool" where
  "authContent fetch (Policy opr elem) rscMap = (case elem of
      Content policies \<Rightarrow>
        if opr \<noteq> ''AND'' \<and> opr \<noteq> ''OR'' then Inl (BadContentOperator opr)
        else
          (let allAttrPolicies = []; resource = [] in
           rbind (content_loop fetch opr policies rscMap allAttrPolicies resource []) (\<lambda>r. case r of
              Inl decided \<Rightarrow> Inr decided
            | Inr results \<Rightarrow>
                rbind (if allAttrPolicies = [] then Inr results
                       else (case map_of rscMap resource of
                           None \<Rightarrow> Inl Panicked
                         | Some rsc \<Rightarrow> rbind (authResourceAttribute fetch opr allAttrPolicies rsc)
                             (\<lambda>yes. Inr (results @ [yes])))) (\<lambda>results.
                if opr = ''AND'' then Inr (list_all id results) else Inr (list_ex id results))))
    | _ \<Rightarrow> Inl NotContent)"
| "content_loop fetch opr [] rscMap allAttrPolicies resource results = Inr (Inr results)"
| "content_loop fetch opr (p # ps) rscMap allAttrPolicies resource results =
     rbind (authPolicyContent fetch p rscMap allAttrPolicies resource) (\<lambda>(retry, authorized).
       if retry then content_loop fetch opr ps rscMap allAttrPolicies resource results
       else if opr = ''AND'' \<and> \<not> authorized then Inr (Inl False)
       else if opr = ''OR'' \<and> authorized then Inr (Inl True)
       else content_loop fetch opr ps rscMap allAttrPolicies resource (results @ [authorized]))"
| "authPolicyContent fetch (Policy opr elem) rscMap allAttrPolicies resource =
     (if opr = ''AND'' \<or> opr = ''OR'' then
        rbind (authContent fetch (Policy opr elem) rscMap) (\<lambda>authorized. Inr (False, authorized))
      else if opr = ''any'' then
        rbind (op_match opr (VString []) VNil) (\<lambda>authorized. Inr (False, authorized))
      else
        rbind (authElement fetch (Policy opr elem) rscMap allAttrPolicies resource) (\<lambda>(retry, authorized).
          if retry then Inr (True, False) else Inr (False, authorized)))"
  by pat_completeness auto
termination
  by (relation "measure (case_sum (\<lambda>(_, p, _). 3 * size p)
      (case_sum (\<lambda>(_, _, ps, _). 3 * size_list size ps + 2) (\<lambda>(_, p, _). 3 * size p + 1)))") auto

definition rsc_map_of :: "resource list \<Rightarrow> rsc_map" where
  "rsc_map_of resources = rev (map (\<lambda>r. (rs_Type r, r)) resources)"

definition calculatePolicy :: "fetcher \<Rightarrow> resource list \<Rightarrow> policy option \<Rightarrow> policy_err + bool" where
  "calculatePolicy fetch resources po = (case po of
      None \<Rightarrow> Inr False
    | Some p \<Rightarrow>
        if Operator p = [] then Inr False
        else if Operator p = ''any'' then Inr True
        else if resources = [] then Inl NoResources
        else if Operator p = ''AND'' \<or> Operator p = ''OR'' then authContent fetch p (rsc_map_of resources)
        else authFieldValue fetch p (rsc_map_of resources))"

definition calculateAnyPolicy :: "policy option \<Rightarrow> bool" where
  "calculateAnyPolicy po = (case po of None \<Rightarrow> False | Some p \<Rightarrow> Operator p \<noteq> [])"

section \<open>Counting the authorised instances\<close>

record authorize_list =
  Ids :: "string list"
  IsAny :: bool

fun hasIamPath :: "policy \<Rightarrow> bool" where
  "hasIamPath (Policy opr elem) =
     (if opr = ''AND'' \<or> opr = ''OR'' then (case elem of Content policies \<Rightarrow> list_ex hasIamPath policies | _ \<Rightarrow> False)
      else (case elem of FieldValue f w \<Rightarrow> Attribute f = IamPathKey | _ \<Rightarrow> False))"

definition countIamIDKey :: "string \<Rightarrow> gval \<Rightarrow> policy_err + string list" where
  "countIamIDKey opr w =
     (if opr = ''eq'' then (case w of VString s \<Rightarrow> Inr [s] | _ \<Rightarrow> Inl NotString)
      else if opr \<noteq> ''in'' then Inl UnsupportedIdOperator
      else case w of
          VSlice vs \<Rightarrow> (case all_strings vs of None \<Rightarrow> Inl NotString | Some ids \<Rightarrow> Inr ids)
        | _ \<Rightarrow> Inl NotSlice)"

fun field_names :: "policy list \<Rightarrow> policy_err + string list" where
  "field_names [] = Inr []"
| "field_names (p # ps) = (case Element p of
      FieldValue f w \<Rightarrow> rbind (field_names ps) (\<lambda>ns. Inr ((Resource f @ ''.'' @ Attribute f) # ns))
    | _ \<Rightarrow> Inl NotFieldValue)"

definition preAnalyzeContent :: "policy list \<Rightarrow> policy_err + unit" where
  "preAnalyzeContent policies =
     rbind (field_names policies) (\<lambda>ns. ensure (length (remdups (filter (\<lambda>n. n \<noteq> ''.'') ns)) \<le> 1) DifferentFields)"

definition any_list :: authorize_list where
  "any_list = \<lparr>Ids = [], IsAny = True\<rparr>"

text \<open>The first set that is not open to all is the base; every other set but the first is tested.\<close>

definition calculateSetForAnd :: "authorize_list list \<Rightarrow> authorize_list" where
  "calculateSetForAnd sets =
     (if length sets = 1 then hd sets
      else case find (\<lambda>s. \<not> IsAny s) sets of
          None \<Rightarrow> any_list
        | Some base \<Rightarrow>
            \<lparr>Ids = filter (\<lambda>b. \<forall>s \<in> set (tl sets). IsAny s \<or> b \<in> set (Ids s)) (Ids base), IsAny = False\<rparr>)"

text \<open>The identifiers are collected in a map, and come out of it in any order.\<close>

definition calculateSetForOr :: "authorize_list list \<Rightarrow> authorize_list" where
  "calculateSetForOr sets =
     (if length sets = 1 then hd sets
      else if list_ex IsAny sets then any_list
      else \<lparr>Ids = dedup_from [] (concat (map Ids sets)), IsAny = False\<rparr>)"

definition calculateSet :: "string \<Rightarrow> authorize_list list \<Rightarrow> policy_err + authorize_list" where
  "calculateSet opr sets =
     (if sets = [] then Inr \<lparr>Ids = [], IsAny = False\<rparr>
      else if opr = ''OR'' then Inr (calculateSetForOr sets)
      else if opr = ''AND'' then Inr (calculateSetForAnd sets)
      else Inl (BadContentOperator opr))"

function (sequential) countContent :: "fetcher \<Rightarrow> string \<Rightarrow> policy list \<Rightarrow> string \<Rightarrow> policy_err + authorize_list"
  and count_loop :: "fetcher \<Rightarrow> policy list \<Rightarrow> string \<Rightarrow> policy list \<Rightarrow> authorize_list list
    \<Rightarrow> policy_err + policy list \<times> authorize_list list"
  and count_one :: "fetcher \<Rightarrow> policy \<Rightarrow> string \<Rightarrow> policy_err + authorize_list option" where
  "countContent fetch opr policies resourceType =
     rbind (preAnalyzeContent policies) (\<lambda>_.
     rbind (count_loop fetch policies resourceType [] []) (\<lambda>(allAttrPolicies, allList).
     rbind (if allAttrPolicies = [] then Inr allList
            else case fetch \<lparr>la_Operator = opr, la_IDList = [], la_AttrPolicies = allAttrPolicies, la_Type = resourceType\<rparr> of
                None \<Rightarrow> Inl FetchFailed
              | Some ids \<Rightarrow> Inr (allList @ [\<lparr>Ids = ids, IsAny = False\<rparr>])) (\<lambda>allList.
     calculateSet opr allList)))"
| "count_loop fetch [] resourceType allAttrPolicies allList = Inr (allAttrPolicies, allList)"
| "count_loop fetch (p # ps) resourceType allAttrPolicies allList =
     rbind (count_one fetch p resourceType) (\<lambda>r. case r of
         Some l \<Rightarrow> count_loop fetch ps resourceType allAttrPolicies (allList @ [l])
       | None \<Rightarrow> count_loop fetch ps resourceType (allAttrPolicies @ [p]) allList)"
| "count_one fetch (Policy opr elem) resourceType =
     (if opr = ''AND'' \<or> opr = ''OR'' then
        (case elem of Content policies \<Rightarrow> rbind (countContent fetch opr policies resourceType) (\<lambda>l. Inr (Some l))
         | _ \<Rightarrow> Inl NotContent)
      else if opr = ''any'' then Inr (Some any_list)
      else case elem of
          FieldValue f w \<Rightarrow>
            if Attribute f = IamIDKey then rbind (countIamIDKey opr w) (\<lambda>ids. Inr (Some \<lparr>Ids = ids, IsAny = False\<rparr>))
            else Inr None
        | _ \<Rightarrow> Inl NotFieldValue)"
  by pat_completeness auto
termination
  by (relation "measure (case_sum (\<lambda>(_, _, ps, _). 3 * size_list size ps + 3)
      (case_sum (\<lambda>(_, ps, _). 3 * size_list size ps + 2) (\<lambda>(_, p, _). 3 * size p + 1)))") auto

definition countPolicy :: "fetcher \<Rightarrow> policy \<Rightarrow> string \<Rightarrow> policy_err + authorize_list" where
  "countPolicy fetch p resourceType =
     (if hasIamPath p then Inl HasIamPath
      else if Operator p = ''AND'' \<or> Operator p = ''OR'' then
        (case Element p of Content policies \<Rightarrow> countContent fetch (Operator p) policies resourceType | _ \<Rightarrow> Inl NotContent)
      else if Operator p = ''any'' then Inr any_list
      else case Element p of
          FieldValue f w \<Rightarrow>
            if Attribute f = IamIDKey then rbind (countIamIDKey (Operator p) w) (\<lambda>ids. Inr \<lparr>Ids = ids, IsAny = False\<rparr>)
            else (case fetch \<lparr>la_Operator = Operator p, la_IDList = [], la_AttrPolicies = [p], la_Type = resourceType\<rparr> of
                None \<Rightarrow> Inl FetchFailed
              | Some ids \<Rightarrow> Inr \<lparr>Ids = ids, IsAny = False\<rparr>)
        | _ \<Rightarrow> Inl NotFieldValue)"

text \<open>The client of the permission centre is a parameter: \<open>None\<close> is a failed request, \<open>Some None\<close> no policy.\<close>

definition ListAuthorizedInstances :: "policy option option \<Rightarrow> fetcher \<Rightarrow> string \<Rightarrow> policy_err option + authorize_list" where
  "ListAuthorizedInstances answer fetch resourceType = (case answer of
      None \<Rightarrow> Inl None
    | Some None \<Rightarrow> Inr \<lparr>Ids = [], IsAny = False\<rparr>
    | Some (Some p) \<Rightarrow>
        if Operator p = [] then Inr \<lparr>Ids = [], IsAny = False\<rparr>
        else wrap_err Some (countPolicy fetch p resourceType))"

end
