(* ===== verification/Progress.thy ===== *)
theory Progress
  imports Transition
begin

text \<open>
  State machines that come to an end: every step makes a measure smaller, and a state that is not
  final has a step. Then every run is short and can be completed to a final state.
\<close>

locale progress_system = transition_system init step inv
  for init :: "'s \<Rightarrow> bool" and step :: "'s \<Rightarrow> 's \<Rightarrow> bool" and inv :: "'s \<Rightarrow> bool" +
  fixes left :: "'s \<Rightarrow> nat"
    and final :: "'s \<Rightarrow> bool"
  assumes step_left: "inv s \<Longrightarrow> step s s' \<Longrightarrow> left s' < left s"
    and step_possible: "inv s \<Longrightarrow> \<not> final s \<Longrightarrow> \<exists>s'. step s s'"
begin

lemma relpow_inv: "(step ^^ k) s s' \<Longrightarrow> inv s \<Longrightarrow> inv s'"
  using steps_inv relpowp_imp_rtranclp by fast

lemma run_bound: "(step ^^ k) s s' \<Longrightarrow> inv s \<Longrightarrow> k + left s' \<le> left s"
proof (induction k arbitrary: s')
  case (Suc k)
  then obtain t where t: "(step ^^ k) s t" "step t s'" by auto
  show ?case using Suc.IH [OF t(1) Suc.prems(2)] step_left [OF relpow_inv [OF t(1) Suc.prems(2)] t(2)] by simp
qed simp

lemma finishes: "inv s \<Longrightarrow> \<exists>s'. step\<^sup>*\<^sup>* s s' \<and> final s'"
proof (induction "left s" arbitrary: s rule: less_induct)
  case less
  show ?case
  proof (cases "final s")
    case False
    then obtain t where t: "step s t" using step_possible less.prems by blast
    from less.hyps [OF step_left [OF less.prems t] step_inv [OF less.prems t]] t
    show ?thesis by (meson converse_rtranclp_into_rtranclp)
  qed auto
qed

lemma stuck_is_final: "inv s \<Longrightarrow> step\<^sup>*\<^sup>* s s' \<Longrightarrow> \<nexists>t. step s' t \<Longrightarrow> final s'"
  using steps_inv step_possible by blast

end

end
