(* ===== verification/IamBatch.thy ===== *)
theory IamBatch
  imports IamAuth Progress "HOL-Library.Word"
begin

text \<open>
  Authorising a batch, \<open>pkg/iam/sdk/auth/authorize.go\<close>: the policies of the user for the actions of
  the batch, and the goroutines that calculate the decisions, at most fifty at a time. The requests to
  the permission centre are parameters.
\<close>

section \<open>The policies of a batch\<close>

record auth_batch =
  ab_Action :: string
  ab_Resources :: "resource list"

record ext_resource =
  xr_System :: string
  xr_Type :: string
  xr_IDs :: "string list"

definition SystemIDBSCP :: string where "SystemIDBSCP = ''bk-bscp''"
definition SystemIDCMDB :: string where "SystemIDCMDB = ''bk_cmdb''"

text \<open>A Go map that is iterated: the entries in the order in which their keys came in.\<close>

fun put_entry :: "'k \<Rightarrow> 'v \<Rightarrow> ('k \<times> 'v) list \<Rightarrow> ('k \<times> 'v) list" where
  "put_entry k v [] = [(k, v)]"
| "put_entry k v ((k', v') # m) = (if k = k' then (k, v) # m else (k', v') # put_entry k v m)"

text \<open>The external resources of an action, by their identifier only.\<close>

definition action_resources :: "auth_batch list \<Rightarrow> string \<Rightarrow> resource list" where
  "action_resources batch action = map snd (fold (\<lambda>r m. put_entry (rs_ID r) r m)
     (filter (\<lambda>r. rs_System r \<noteq> SystemIDBSCP) (concat (map ab_Resources (filter (\<lambda>b. ab_Action b = action) batch)))) [])"

definition group_ext :: "resource list \<Rightarrow> ext_resource list" where
  "group_ext rs = map (\<lambda>(s, t). \<lparr>xr_System = s, xr_Type = t,
       xr_IDs = map rs_ID (filter (\<lambda>r. rs_System r = s \<and> rs_Type r = t) rs)\<rparr>)
     (dedup_from [] (map (\<lambda>r. (rs_System r, rs_Type r)) rs))"

text \<open>The request for an action fails (\<open>None\<close>) or returns its policy, if there is one.\<close>

type_synonym policy_client = "string \<Rightarrow> ext_resource list \<Rightarrow> policy option option"

fun action_policies :: "policy_client \<Rightarrow> auth_batch list \<Rightarrow> string list \<Rightarrow> (string, policy option) gomap option" where
  "action_policies cl batch [] = Some []"
| "action_policies cl batch (a # as) = (case cl a (group_ext (action_resources batch a)) of
      None \<Rightarrow> None
    | Some p \<Rightarrow> map_option ((#) (a, p)) (action_policies cl batch as))"

definition listUserPolicyBatchWithCompress :: "policy_client \<Rightarrow> auth_batch list \<Rightarrow> policy option list option" where
  "listUserPolicyBatchWithCompress cl batch =
     map_option (\<lambda>policyMap. map (\<lambda>b. case map_of policyMap (ab_Action b) of None \<Rightarrow> None | Some p \<Rightarrow> p) batch)
       (action_policies cl batch (dedup_from [] (map ab_Action batch)))"

section \<open>The goroutines\<close>

text \<open>
  The state of the function: the index of the next entry to start, the goroutines that run, the
  decisions and the shared error. A panic in a goroutine is not recovered and ends the process. The
  writes to the shared error are taken as atomic.
\<close>

record batch_state =
  bs_next :: nat
  bs_running :: "nat list"
  bs_decisions :: "bool option list"
  bs_hitError :: "policy_err option"
  bs_crashed :: bool

definition batch_init :: "nat \<Rightarrow> batch_state" where
  "batch_init n = \<lparr>bs_next = 0, bs_running = [], bs_decisions = replicate n None, bs_hitError = None, bs_crashed = False\<rparr>"

definition finish_task :: "nat \<Rightarrow> policy_err + bool \<Rightarrow> batch_state \<Rightarrow> batch_state" where
  "finish_task i r s =
     (let s' = s\<lparr>bs_running := remove1 i (bs_running s)\<rparr> in
      case r of
        Inl Panicked \<Rightarrow> s'\<lparr>bs_crashed := True\<rparr>
      | Inl e \<Rightarrow> s'\<lparr>bs_hitError := Some e\<rparr>
      | Inr b \<Rightarrow> s'\<lparr>bs_decisions := (bs_decisions s)[i := Some b]\<rparr>)"

inductive batch_step :: "(policy_err + bool) list \<Rightarrow> batch_state \<Rightarrow> batch_state \<Rightarrow> bool" for tasks where
  spawn: "\<not> bs_crashed s \<Longrightarrow> bs_next s < length tasks \<Longrightarrow> length (bs_running s) < 50 \<Longrightarrow>
    batch_step tasks s (s\<lparr>bs_next := Suc (bs_next s), bs_running := bs_next s # bs_running s\<rparr>)"
| finish: "\<not> bs_crashed s \<Longrightarrow> i \<in> set (bs_running s) \<Longrightarrow> batch_step tasks s (finish_task i (tasks ! i) s)"

text \<open>The function returns when all goroutines have been started and are done.\<close>

definition batch_done :: "nat \<Rightarrow> batch_state \<Rightarrow> bool" where
  "batch_done n s \<longleftrightarrow> bs_crashed s \<or> (bs_next s = n \<and> bs_running s = [])"

definition batch_outcome :: "batch_state \<Rightarrow> policy_err + bool option list" where
  "batch_outcome s = (case bs_hitError s of Some e \<Rightarrow> Inl e | None \<Rightarrow> Inr (bs_decisions s))"

text \<open>What the goroutines calculate.\<close>

definition batch_tasks :: "fetcher \<Rightarrow> bool \<Rightarrow> auth_batch list \<Rightarrow> policy option list \<Rightarrow> (policy_err + bool) list" where
  "batch_tasks fetch exact batch policies =
     map (\<lambda>(b, p). if exact then calculatePolicy fetch (ab_Resources b) p else Inr (calculateAnyPolicy p)) (zip batch policies)"

section \<open>Every run of the goroutines\<close>

definition batch_inv :: "(policy_err + bool) list \<Rightarrow> batch_state \<Rightarrow> bool" where
  "batch_inv tasks s \<longleftrightarrow>
     \<not> bs_crashed s \<and> bs_next s \<le> length tasks \<and> distinct (bs_running s) \<and> (\<forall>i \<in> set (bs_running s). i < bs_next s)
     \<and> length (bs_decisions s) = length tasks
     \<and> (\<forall>i < bs_next s. i \<notin> set (bs_running s) \<longrightarrow> (case tasks ! i of
          Inr b \<Rightarrow> bs_decisions s ! i = Some b | Inl e \<Rightarrow> bs_hitError s \<noteq> None))
     \<and> (\<forall>e. bs_hitError s = Some e \<longrightarrow> Inl e \<in> set tasks)"

definition batch_left :: "nat \<Rightarrow> batch_state \<Rightarrow> nat" where
  "batch_left n s = 2 * (n - bs_next s) + length (bs_running s)"

definition no_panic :: "(policy_err + bool) list \<Rightarrow> bool" where
  "no_panic tasks \<longleftrightarrow> Inl Panicked \<notin> set tasks"

lemma finish_task_simps:
  "bs_next (finish_task i r s) = bs_next s"
  "bs_running (finish_task i r s) = remove1 i (bs_running s)"
  "bs_crashed (finish_task i r s) \<longleftrightarrow> bs_crashed s \<or> r = Inl Panicked"
  "bs_decisions (finish_task i r s) = (case r of Inl _ \<Rightarrow> bs_decisions s | Inr b \<Rightarrow> (bs_decisions s)[i := Some b])"
  "bs_hitError (finish_task i r s) = (case r of Inl e \<Rightarrow> if e = Panicked then bs_hitError s else Some e | Inr b \<Rightarrow> bs_hitError s)"
  by (auto simp: finish_task_def Let_def split: sum.splits policy_err.splits)

lemma batch_step_keeps:
  assumes "\<not> bs_crashed s'" "batch_inv tasks s" "batch_step tasks s s'"
  shows "batch_inv tasks s'"
  using assms(3)
proof (cases rule: batch_step.cases)
  case spawn
  then show ?thesis using assms(2) by (auto simp: batch_inv_def less_Suc_eq split: sum.splits)
next
  case (finish i)
  have i: "i < length tasks" "i < bs_next s" using finish assms(2) by (auto simp: batch_inv_def)
  then have t: "tasks ! i \<in> set tasks" by simp
  have p: "tasks ! i \<noteq> Inl Panicked" using assms(1) by (auto simp: finish(1) finish_task_simps)
  have each: "case tasks ! j of Inr b \<Rightarrow> bs_decisions s' ! j = Some b | Inl e \<Rightarrow> bs_hitError s' \<noteq> None"
    if "j < bs_next s" "j \<noteq> i \<longrightarrow> j \<notin> set (bs_running s)" for j
    using assms(2) that t p i unfolding finish(1) finish_task_simps batch_inv_def
    by (cases "j = i"; cases "tasks ! i"; cases "tasks ! j") (auto split: sum.splits)
  have inv: "bs_next s \<le> length tasks" "distinct (bs_running s)" "\<forall>i \<in> set (bs_running s). i < bs_next s"
    "length (bs_decisions s) = length tasks" "\<forall>e. bs_hitError s = Some e \<longrightarrow> Inl e \<in> set tasks" "\<not> bs_crashed s"
    using assms(2) by (auto simp: batch_inv_def)
  have err: "\<forall>e. bs_hitError s' = Some e \<longrightarrow> Inl e \<in> set tasks"
    using inv(5) t by (cases "tasks ! i") (auto simp: finish(1) finish_task_simps)
  have "length (bs_decisions s') = length tasks" "\<not> bs_crashed s'"
    using inv(4,6) p by (auto simp: finish(1) finish_task_simps split: sum.splits)
  moreover have "bs_next s' = bs_next s" "bs_running s' = remove1 i (bs_running s)" by (simp_all add: finish(1) finish_task_simps)
  ultimately show ?thesis unfolding batch_inv_def using inv each err by auto
qed

lemma batch_step_crash:
  assumes "batch_inv tasks s" "batch_step tasks s s'" "bs_crashed s'"
  shows "Inl Panicked \<in> set tasks"
  using assms(2)
proof (cases rule: batch_step.cases)
  case (finish i)
  then have "i < length tasks" "tasks ! i = Inl Panicked"
    using assms(1,3) by (auto simp: batch_inv_def finish_task_simps)
  then show ?thesis by (metis nth_mem)
qed (use assms in auto)

lemma batch_step_inv: "no_panic tasks \<Longrightarrow> batch_inv tasks s \<Longrightarrow> batch_step tasks s s' \<Longrightarrow> batch_inv tasks s'"
  unfolding no_panic_def using batch_step_keeps batch_step_crash by blast

lemma batch_step_left:
  assumes "batch_inv tasks s" "batch_step tasks s s'"
  shows "Suc (batch_left (length tasks) s') = batch_left (length tasks) s"
  using assms(2)
proof (cases rule: batch_step.cases)
  case spawn
  then show ?thesis by (auto simp: batch_left_def)
next
  case (finish i)
  then have "Suc (length (remove1 i (bs_running s))) = length (bs_running s)"
    using length_pos_if_in_set [OF finish(3)] by (simp add: length_remove1)
  then show ?thesis by (simp add: finish(1) batch_left_def finish_task_simps)
qed

lemma batch_step_possible:
  assumes "batch_inv tasks s" "\<not> batch_done (length tasks) s"
  shows "\<exists>s'. batch_step tasks s s'"
proof (cases "bs_running s")
  case Nil
  then have "bs_next s < length tasks" "\<not> bs_crashed s" using assms by (auto simp: batch_inv_def batch_done_def)
  then show ?thesis using Nil batch_step.spawn [of s tasks] by auto
next
  case (Cons i rest)
  then show ?thesis using assms batch_step.finish [of s i tasks] by (auto simp: batch_inv_def)
qed

lemma batch_init_inv: "batch_inv tasks (batch_init (length tasks))"
  by (simp add: batch_inv_def batch_init_def)

lemma batch_init_left: "batch_left n (batch_init n) = 2 * n"
  by (simp add: batch_left_def batch_init_def)

interpretation batch: progress_system "\<lambda>s. no_panic tasks \<and> s = batch_init (length tasks)" "batch_step tasks"
  "\<lambda>s. no_panic tasks \<and> batch_inv tasks s" "batch_left (length tasks)" "batch_done (length tasks)"
  for tasks
proof unfold_locales
  fix s s'
  show "no_panic tasks \<and> batch_inv tasks s \<Longrightarrow> batch_step tasks s s' \<Longrightarrow> batch_left (length tasks) s' < batch_left (length tasks) s"
    using batch_step_left [of tasks s s'] by simp
qed (auto intro: batch_init_inv batch_step_inv batch_step_possible)

lemma batch_left_exact:
  "(batch_step tasks ^^ k) s s' \<Longrightarrow> no_panic tasks \<Longrightarrow> batch_inv tasks s \<Longrightarrow>
   k + batch_left (length tasks) s' = batch_left (length tasks) s"
proof (induction k arbitrary: s')
  case (Suc k)
  then obtain t where t: "(batch_step tasks ^^ k) s t" "batch_step tasks t s'" by auto
  have "batch_inv tasks t" using batch.relpow_inv [OF t(1)] Suc.prems by simp
  from batch_step_left [OF this t(2)] Suc.IH [OF t(1) Suc.prems(2,3)] show ?case by simp
qed simp

lemma batch_done_outcome:
  assumes "batch_inv tasks s" "batch_done (length tasks) s"
  shows "case batch_outcome s of
      Inr ds \<Rightarrow> map Inr (map the ds) = tasks \<and> None \<notin> set ds
    | Inl e \<Rightarrow> Inl e \<in> set tasks"
proof (cases "bs_hitError s")
  case None
  have d: "bs_next s = length tasks" "bs_running s = []" "length (bs_decisions s) = length tasks"
    using assms by (auto simp: batch_inv_def batch_done_def)
  have each: "\<exists>b. tasks ! i = Inr b \<and> bs_decisions s ! i = Some b" if "i < length tasks" for i
    using assms(1) that d None by (cases "tasks ! i") (auto simp: batch_inv_def)
  have "map Inr (map the (bs_decisions s)) = tasks"
    using each d(3) by (intro nth_equalityI) fastforce+
  moreover have "None \<notin> set (bs_decisions s)" using each d(3) by (auto simp: in_set_conv_nth)
  ultimately show ?thesis using None by (simp add: batch_outcome_def)
next
  case (Some e)
  then show ?thesis using assms(1) by (simp add: batch_outcome_def batch_inv_def)
qed

lemma batch_always_settles_parts:
  assumes "no_panic tasks" "(batch_step tasks ^^ k) (batch_init (length tasks)) s"
  shows "k \<le> 2 * length tasks"
    and "k < 2 * length tasks \<Longrightarrow> \<exists>s'. batch_step tasks s s'"
    and "k = 2 * length tasks \<Longrightarrow> batch_done (length tasks) s \<and> (case batch_outcome s of
        Inr ds \<Rightarrow> map Inr (map the ds) = tasks \<and> None \<notin> set ds
      | Inl e \<Rightarrow> Inl e \<in> set tasks)"
proof -
  have inv: "batch_inv tasks s" using batch.relpow_inv [OF assms(2)] assms(1) batch_init_inv by blast
  have left: "k + batch_left (length tasks) s = 2 * length tasks"
    using batch_left_exact [OF assms(2,1) batch_init_inv] by (simp add: batch_init_left)
  show "k \<le> 2 * length tasks" using left by simp
  show "\<exists>s'. batch_step tasks s s'" if "k < 2 * length tasks"
  proof (rule batch_step_possible [OF inv])
    show "\<not> batch_done (length tasks) s" using left that inv by (auto simp: batch_left_def batch_done_def batch_inv_def)
  qed
  assume "k = 2 * length tasks"
  then have "batch_done (length tasks) s" using left inv by (auto simp: batch_left_def batch_done_def batch_inv_def)
  then show "batch_done (length tasks) s \<and> (case batch_outcome s of
        Inr ds \<Rightarrow> map Inr (map the ds) = tasks \<and> None \<notin> set ds
      | Inl e \<Rightarrow> Inl e \<in> set tasks)" using batch_done_outcome [OF inv] by simp
qed

text \<open>
  C9: Whatever the order in which the goroutines run, a batch without panics comes to an end after
  two steps for each entry, and in no earlier state is it stuck. It then returns the decision of every
  entry, in the order of the entries, unless some calculation failed: then it returns the error of one
  that failed.
\<close>

theorem batch_always_settles:
  assumes "no_panic tasks" "(batch_step tasks ^^ k) (batch_init (length tasks)) s"
  shows "k \<le> 2 * length tasks \<and> (k < 2 * length tasks \<longrightarrow> (\<exists>s'. batch_step tasks s s'))
    \<and> (k = 2 * length tasks \<longrightarrow> batch_done (length tasks) s \<and> (case batch_outcome s of
        Inr ds \<Rightarrow> map Inr (map the ds) = tasks \<and> None \<notin> set ds
      | Inl e \<Rightarrow> Inl e \<in> set tasks))"
  using batch_always_settles_parts [OF assms] by blast

theorem batch_always_settles_witness:
  "\<exists>s. (batch_step [Inr True] ^^ 2) (batch_init 1) s \<and> batch_outcome s = Inr [Some True] \<and> batch_done 1 s"
proof -
  let ?t = "[Inr True :: policy_err + bool]"
  let ?s1 = "\<lparr>bs_next = 1, bs_running = [0], bs_decisions = [None], bs_hitError = None, bs_crashed = False\<rparr>"
  let ?s2 = "\<lparr>bs_next = 1, bs_running = [], bs_decisions = [Some True], bs_hitError = None, bs_crashed = False\<rparr>"
  have "batch_step ?t (batch_init 1) ?s1"
    using batch_step.spawn [of "batch_init 1" ?t] by (simp add: batch_init_def)
  moreover have "batch_step ?t ?s1 ?s2"
    using batch_step.finish [of ?s1 0 ?t] by (simp add: finish_task_def Let_def)
  ultimately have "(batch_step ?t OO batch_step ?t) (batch_init 1) ?s2" by blast
  then have run: "(batch_step ?t ^^ 2) (batch_init (length ?t)) ?s2"
    by (simp add: numeral_2_eq_2 relcompp.simps)
  have "no_panic ?t" by (simp add: no_panic_def)
  from batch_always_settles [OF this run] have "batch_done 1 ?s2" by simp
  then show ?thesis using run by (auto simp: batch_outcome_def)
qed

section \<open>The batch as a whole\<close>

datatype batch_failure =
    InvalidOptions string
  | NoInstances
  | PolicyQueryFailed
  | CalculationFailed policy_err
  | BatchCrashed

text \<open>\<open>user\<close> is the subject of the options; system and type of the subject are constants of the caller.\<close>

definition AuthBatchOptions_Validate :: "string \<Rightarrow> auth_batch list \<Rightarrow> batch_failure + unit" where
  "AuthBatchOptions_Validate user batch =
     (if user = [] then Inl (InvalidOptions ''subject.id is empty'')
      else if \<exists>b \<in> set batch. ab_Action b = [] then Inl (InvalidOptions ''empty action id'')
      else Inr ())"

text \<open>The decisions are pointers; those of a run that ends without an error are all set.\<close>

definition batch_result :: "batch_state \<Rightarrow> batch_failure + bool list" where
  "batch_result s =
     (if bs_crashed s then Inl BatchCrashed
      else case batch_outcome s of Inl e \<Rightarrow> Inl (CalculationFailed e) | Inr ds \<Rightarrow> Inr (map the ds))"

text \<open>What the function may return: the last rule leaves the order of the goroutines open.\<close>

inductive authorizeBatch ::
    "policy_client \<Rightarrow> fetcher \<Rightarrow> bool \<Rightarrow> string \<Rightarrow> auth_batch list \<Rightarrow> batch_failure + bool list \<Rightarrow> bool"
  for cl fetch exact user batch where
  invalid: "AuthBatchOptions_Validate user batch = Inl e \<Longrightarrow> authorizeBatch cl fetch exact user batch (Inl e)"
| nothing: "AuthBatchOptions_Validate user batch = Inr () \<Longrightarrow> batch = [] \<Longrightarrow>
    authorizeBatch cl fetch exact user batch (Inl NoInstances)"
| query_fails: "AuthBatchOptions_Validate user batch = Inr () \<Longrightarrow> batch \<noteq> [] \<Longrightarrow>
    listUserPolicyBatchWithCompress cl batch = None \<Longrightarrow>
    authorizeBatch cl fetch exact user batch (Inl PolicyQueryFailed)"
| runs: "AuthBatchOptions_Validate user batch = Inr () \<Longrightarrow> batch \<noteq> [] \<Longrightarrow>
    listUserPolicyBatchWithCompress cl batch = Some policies \<Longrightarrow>
    (batch_step (batch_tasks fetch exact batch policies))\<^sup>*\<^sup>* (batch_init (length batch)) s \<Longrightarrow>
    batch_done (length batch) s \<Longrightarrow> authorizeBatch cl fetch exact user batch (batch_result s)"

lemma batch_reach:
  "(batch_step tasks)\<^sup>*\<^sup>* (batch_init (length tasks)) s \<Longrightarrow>
     bs_crashed s \<and> Inl Panicked \<in> set tasks \<or> batch_inv tasks s"
proof (induction rule: rtranclp_induct)
  case (step s t)
  then have "batch_inv tasks s" by (auto elim: batch_step.cases)
  then show ?case using batch_step_keeps batch_step_crash step.hyps(2) by blast
qed (use batch_init_inv in blast)

text \<open>A run succeeds exactly when every calculation does, with its decisions in the order of the entries.\<close>

lemma batch_run_result:
  assumes "(batch_step tasks)\<^sup>*\<^sup>* (batch_init (length tasks)) s" "batch_done (length tasks) s"
  shows "batch_result s = Inr ds \<longleftrightarrow> tasks = map Inr ds"
  using batch_reach [OF assms(1)]
proof
  assume "bs_crashed s \<and> Inl Panicked \<in> set tasks"
  then show ?thesis by (auto simp: batch_result_def)
next
  assume inv: "batch_inv tasks s"
  then have nc: "\<not> bs_crashed s" by (simp add: batch_inv_def)
  show ?thesis
  proof (cases "batch_outcome s")
    case (Inl e)
    then have "Inl e \<in> set tasks" using batch_done_outcome [OF inv assms(2)] by simp
    then show ?thesis using Inl nc by (auto simp: batch_result_def)
  next
    case (Inr xs)
    then have t: "tasks = map Inr (map the xs)" using batch_done_outcome [OF inv assms(2)] by simp
    show ?thesis unfolding t inj_map_eq_map [OF inj_Inr] using Inr nc by (simp add: batch_result_def)
  qed
qed

lemma policies_length:
  "listUserPolicyBatchWithCompress cl batch = Some ps \<Longrightarrow> length ps = length batch"
  by (auto simp: listUserPolicyBatchWithCompress_def)

lemma authorizeBatch_Inr_iff:
  assumes "authorizeBatch cl fetch exact user batch r"
  shows "r = Inr ds \<longleftrightarrow> batch \<noteq> [] \<and> AuthBatchOptions_Validate user batch = Inr ()
    \<and> (\<exists>ps. listUserPolicyBatchWithCompress cl batch = Some ps \<and> batch_tasks fetch exact batch ps = map Inr ds)"
  using assms
proof cases
  case (runs ps s)
  have "length (batch_tasks fetch exact batch ps) = length batch"
    using policies_length [OF runs(4)] by (simp add: batch_tasks_def)
  then show ?thesis using batch_run_result [of "batch_tasks fetch exact batch ps" s ds] runs by simp
qed auto

text \<open>One order of the goroutines: each is done before the next one starts.\<close>

definition one_task :: "policy_err + bool \<Rightarrow> batch_state \<Rightarrow> batch_state" where
  "one_task r s = (if bs_crashed s then s
     else finish_task (bs_next s) r (s\<lparr>bs_next := Suc (bs_next s), bs_running := [bs_next s]\<rparr>))"

definition sequential :: "policy_client \<Rightarrow> fetcher \<Rightarrow> bool \<Rightarrow> string \<Rightarrow> auth_batch list \<Rightarrow> batch_failure + bool list" where
  "sequential cl fetch exact user batch =
     (case AuthBatchOptions_Validate user batch of
        Inl e \<Rightarrow> Inl e
      | Inr _ \<Rightarrow>
          if batch = [] then Inl NoInstances
          else case listUserPolicyBatchWithCompress cl batch of
            None \<Rightarrow> Inl PolicyQueryFailed
          | Some ps \<Rightarrow> batch_result (fold one_task (batch_tasks fetch exact batch ps) (batch_init (length batch))))"

lemma one_task_runs:
  assumes "\<not> bs_crashed s" "bs_next s < length tasks" "bs_running s = []"
  shows "(batch_step tasks)\<^sup>*\<^sup>* s (one_task (tasks ! bs_next s) s)"
proof -
  let ?m = "s\<lparr>bs_next := Suc (bs_next s), bs_running := [bs_next s]\<rparr>"
  have "batch_step tasks s ?m" using batch_step.spawn [of s tasks] assms by simp
  moreover have "batch_step tasks ?m (finish_task (bs_next s) (tasks ! bs_next s) ?m)"
    by (rule batch_step.finish) (use assms in simp_all)
  ultimately show ?thesis using assms(1) by (simp add: one_task_def)
qed

lemma fold_one_task_runs:
  assumes "tasks = pre @ rest" "bs_crashed s \<or> bs_next s = length pre \<and> bs_running s = []"
  shows "(batch_step tasks)\<^sup>*\<^sup>* s (fold one_task rest s) \<and> batch_done (length tasks) (fold one_task rest s)"
  using assms
proof (induction rest arbitrary: pre s)
  case (Cons r rest)
  have "(batch_step tasks)\<^sup>*\<^sup>* s (one_task r s)"
    using one_task_runs [of s tasks] Cons.prems by (cases "bs_crashed s") (auto simp: one_task_def)
  moreover have "bs_crashed (one_task r s) \<or> bs_next (one_task r s) = length (pre @ [r]) \<and> bs_running (one_task r s) = []"
    using Cons.prems by (auto simp: one_task_def finish_task_simps)
  ultimately show ?case
    using Cons.IH [of "pre @ [r]" "one_task r s"] Cons.prems(1) by (auto intro: rtranclp_trans)
qed (auto simp: batch_done_def)

lemma authorizeBatch_sequential: "authorizeBatch cl fetch exact user batch (sequential cl fetch exact user batch)"
proof (cases "AuthBatchOptions_Validate user batch")
  case (Inr u)
  show ?thesis
  proof (cases "batch = [] \<or> listUserPolicyBatchWithCompress cl batch = None")
    case False
    then obtain ps where ps: "batch \<noteq> []" "listUserPolicyBatchWithCompress cl batch = Some ps" by auto
    then have "length (batch_tasks fetch exact batch ps) = length batch"
      using policies_length by (simp add: batch_tasks_def)
    then show ?thesis
      using ps Inr fold_one_task_runs [of "batch_tasks fetch exact batch ps" "[]" _ "batch_init (length batch)"]
        authorizeBatch.runs by (simp add: sequential_def batch_init_def)
  qed (use Inr authorizeBatch.nothing authorizeBatch.query_fails in \<open>auto simp: sequential_def\<close>)
qed (simp add: sequential_def authorizeBatch.invalid)

text \<open>
  The documented answer of the permission centre to \<open>query_by_ext_resources\<close>: the expression is the
  policy the user has for the action, whatever resources are sent along to have their attributes
  returned. Then each entry is decided as the policy of its action decides it.
\<close>

definition policy_of_action :: "policy_client \<Rightarrow> bool" where
  "policy_of_action cl \<longleftrightarrow> (\<forall>a xs ys. cl a xs = cl a ys)"

definition entry_decided :: "policy_client \<Rightarrow> fetcher \<Rightarrow> auth_batch \<Rightarrow> bool \<Rightarrow> bool" where
  "entry_decided cl fetch b d \<longleftrightarrow> (\<exists>p. cl (ab_Action b) [] = Some p \<and> calculatePolicy fetch (ab_Resources b) p = Inr d)"

lemma policy_of_actionE:
  assumes "policy_of_action cl"
  obtains f where "cl = (\<lambda>a _. f a)"
  using assms that [of "\<lambda>a. cl a []"] by (simp add: policy_of_action_def fun_eq_iff)

lemma action_policies_iff:
  assumes "policy_of_action cl"
  shows "action_policies cl batch as = Some m \<longleftrightarrow>
    (\<forall>a \<in> set as. cl a [] \<noteq> None) \<and> m = map (\<lambda>a. (a, the (cl a []))) as"
proof -
  obtain f where f: "cl = (\<lambda>a _. f a)" using policy_of_actionE [OF assms] .
  show ?thesis unfolding f by (induction as arbitrary: m) (auto split: option.splits)
qed

lemma list_policies_iff:
  assumes "policy_of_action cl"
  shows "listUserPolicyBatchWithCompress cl batch = Some ps \<longleftrightarrow> list_all2 (\<lambda>b p. cl (ab_Action b) [] = Some p) batch ps"
proof -
  have "listUserPolicyBatchWithCompress cl batch = Some ps \<longleftrightarrow>
      (\<forall>b \<in> set batch. cl (ab_Action b) [] \<noteq> None) \<and> ps = map (\<lambda>b. the (cl (ab_Action b) [])) batch"
    by (auto simp: listUserPolicyBatchWithCompress_def action_policies_iff [OF assms] map_of_map_restrict
        restrict_map_def split: option.splits)
  also have "\<dots> \<longleftrightarrow> list_all2 (\<lambda>b p. cl (ab_Action b) [] = Some p) batch ps"
    by (auto simp: list_all2_conv_all_nth all_set_conv_all_nth intro!: nth_equalityI)
  finally show ?thesis .
qed

text \<open>The decisions of a batch: those of its entries.\<close>

lemma batch_tasks_iff:
  "(\<exists>ps. list_all2 (\<lambda>b p. cl (ab_Action b) [] = Some p) batch ps \<and> batch_tasks fetch True batch ps = map Inr ds)
     \<longleftrightarrow> list_all2 (entry_decided cl fetch) batch ds"
proof (induction batch arbitrary: ds)
  case (Cons b batch)
  have "batch_tasks fetch True (b # batch) (p # ps)
      = calculatePolicy fetch (ab_Resources b) p # batch_tasks fetch True batch ps" for p ps
    by (simp add: batch_tasks_def)
  then show ?case
    by (cases ds) (force simp: list_all2_Cons1 entry_decided_def [of cl fetch b] simp flip: Cons.IH)+
qed (auto simp: batch_tasks_def)

lemma authorizeBatch_decides:
  assumes "policy_of_action cl" "authorizeBatch cl fetch True user batch r"
  shows "r = Inr ds \<longleftrightarrow> batch \<noteq> [] \<and> AuthBatchOptions_Validate user batch = Inr ()
    \<and> list_all2 (entry_decided cl fetch) batch ds"
  using authorizeBatch_Inr_iff [OF assms(2)] batch_tasks_iff [of cl batch fetch ds] list_policies_iff [OF assms(1)]
  by auto

end
