(* ===== verification/IamClaims.thy ===== *)
theory IamClaims
  imports IamAuth
begin

text \<open>
  What the decisions of the permission policies mean: they are the boolean reading of the policy when
  it has no conditions on attributes, such conditions inside a content are ignored, and the instances
  that are counted are those that are authorised.
\<close>

section \<open>The boolean reading of a policy\<close>

fun holds :: "fetcher \<Rightarrow> rsc_map \<Rightarrow> policy \<Rightarrow> bool" where
  "holds fetch m (Policy opr elem) =
     (if opr = ''AND'' then (case elem of Content ps \<Rightarrow> list_all (holds fetch m) ps | _ \<Rightarrow> False)
      else if opr = ''OR'' then (case elem of Content ps \<Rightarrow> list_ex (holds fetch m) ps | _ \<Rightarrow> False)
      else if opr = ''any'' then True
      else authElement fetch (Policy opr elem) m [] [] = Inr (False, True))"

text \<open>No condition on another attribute than the identifier and the path.\<close>

fun attr_free :: "policy \<Rightarrow> bool" where
  "attr_free (Policy opr elem) = (case elem of
      Content ps \<Rightarrow> list_all attr_free ps
    | FieldValue f w \<Rightarrow> opr = ''any'' \<or> Attribute f \<in> {IamIDKey, IamPathKey}
    | NoElement \<Rightarrow> True)"

definition combine :: "string \<Rightarrow> bool + bool list \<Rightarrow> bool" where
  "combine opr r = (case r of Inl d \<Rightarrow> d | Inr rs \<Rightarrow> if opr = ''AND'' then list_all id rs else list_ex id rs)"

text \<open>No condition on an attribute ever reaches the list that the content collects.\<close>

lemma authContent_Content:
  "authContent fetch (Policy opr (Content ps)) m =
     (if opr \<noteq> ''AND'' \<and> opr \<noteq> ''OR'' then Inl (BadContentOperator opr)
      else rbind (content_loop fetch opr ps m [] [] []) (\<lambda>r. Inr (combine opr r)))"
  by (auto simp: combine_def Let_def split: sum.splits intro!: arg_cong [where f = "rbind _"])

lemma authContent_Inr:
  assumes "authContent fetch (Policy opr elem) m = Inr b"
  obtains ps r where "elem = Content ps" "opr \<in> {''AND'', ''OR''}"
    "content_loop fetch opr ps m [] [] [] = Inr r" "b = combine opr r"
proof (cases elem)
  case (Content ps)
  have "opr \<in> {''AND'', ''OR''}" "\<exists>r. content_loop fetch opr ps m [] [] [] = Inr r \<and> b = combine opr r"
    using assms unfolding Content authContent_Content by (auto simp: res_simps split: if_splits)
  then show ?thesis using that Content by blast
qed (use assms in simp_all)

lemma op_any: "op_match ''any'' m w = Inr True"
  by (simp add: op_match_def match_result_def OpType_Operator_def factory_def AnyOp_Match_def)

lemma authElement_no_retry:
  "authElement fetch p m as r = Inr (retry, b) \<Longrightarrow> attr_free p \<Longrightarrow> Operator p \<noteq> ''any'' \<Longrightarrow> \<not> retry"
  by (cases p) (auto simp: authElement_def IamIDKey_def IamPathKey_def res_simps
      split: element.splits option.splits if_splits)

lemma authFieldValue_element:
  assumes "Element p = FieldValue f w" "Attribute f \<in> {IamIDKey, IamPathKey}"
  shows "authElement fetch p m as r = rbind (authFieldValue fetch p m) (\<lambda>b. Inr (False, b))"
proof (cases "map_of m (Resource f)")
  case (Some rsc)
  show ?thesis
  proof (cases "Attribute f = IamIDKey")
    case False
    then have "Attribute f = IamPathKey" "IamPathKey \<noteq> IamIDKey" using assms by auto
    then show ?thesis using assms(1) Some
      by (cases "getIamPath (rs_Attribute rsc)")
        (auto simp: authFieldValue_def authElement_def authWithPath_def calculateAuthPath_def)
  qed (use assms Some in \<open>simp add: authFieldValue_def authElement_def\<close>)
qed (use assms in \<open>simp add: authFieldValue_def authElement_def\<close>)

lemma content_decisions:
  "authContent fetch p m = Inr b \<Longrightarrow> attr_free p \<Longrightarrow> b \<longleftrightarrow> holds fetch m p"
  "content_loop fetch opr ps m [] [] results = Inr r \<Longrightarrow> list_all attr_free ps \<Longrightarrow> opr \<in> {''AND'', ''OR''} \<Longrightarrow>
     (case r of Inl b \<Rightarrow> (b \<longleftrightarrow> opr = ''OR'') \<and> (\<exists>p \<in> set ps. holds fetch m p = b)
      | Inr rs \<Rightarrow> (\<forall>p \<in> set ps. holds fetch m p \<longleftrightarrow> opr = ''AND'') \<and> (\<forall>x \<in> set rs. x \<in> set results \<or> (x \<longleftrightarrow> opr = ''AND'')))"
  "authPolicyContent fetch p m [] [] = Inr (retry, b) \<Longrightarrow> attr_free p \<Longrightarrow> \<not> retry \<and> (b \<longleftrightarrow> holds fetch m p)"
proof (induction fetch p m and fetch opr ps m "[] :: policy list" "[] :: string" results and fetch p m "[] :: policy list" "[] :: string"
    arbitrary: b and r and retry b rule: authContent_content_loop_authPolicyContent.induct)
  case (1 fetch opr elem m)
  from 1(2) obtain ps r where ps: "elem = Content ps" "opr \<in> {''AND'', ''OR''}"
    and loop: "content_loop fetch opr ps m [] [] [] = Inr r"
    and b: "b = combine opr r"
    by (rule authContent_Inr)
  have "list_all attr_free ps" using 1(3) ps by simp
  from 1(1) [OF ps(1) _ refl refl loop this ps(2)] ps(2)
  have r: "case r of Inl d \<Rightarrow> (d \<longleftrightarrow> opr = ''OR'') \<and> (\<exists>p \<in> set ps. holds fetch m p = d)
      | Inr rs \<Rightarrow> (\<forall>p \<in> set ps. holds fetch m p \<longleftrightarrow> opr = ''AND'') \<and> (\<forall>x \<in> set rs. x \<longleftrightarrow> opr = ''AND'')"
    by (auto split: sum.splits)
  show ?case using r ps unfolding b by (auto simp: combine_def list_all_iff list_ex_iff split: sum.splits)
next
  case (2 fetch opr m results)
  then show ?case by auto
next
  case (3 fetch opr p ps m results)
  from 3(4) obtain retry a where one: "authPolicyContent fetch p m [] [] = Inr (retry, a)"
    and rest: "(if retry then content_loop fetch opr ps m [] [] results
       else if opr = ''AND'' \<and> \<not> a then Inr (Inl False)
       else if opr = ''OR'' \<and> a then Inr (Inl True)
       else content_loop fetch opr ps m [] [] (results @ [a])) = Inr r"
    by (auto simp: res_simps)
  have free: "attr_free p" "list_all attr_free ps" using 3(5) by auto
  from 3(1) [OF one free(1)] have a: "\<not> retry" "a \<longleftrightarrow> holds fetch m p" by auto
  show ?case
  proof (cases "a \<longleftrightarrow> opr = ''OR''")
    case True
    then show ?thesis using rest a 3(6) by (auto split: if_splits)
  next
    case False
    then have l: "content_loop fetch opr ps m [] [] (results @ [a]) = Inr r" using rest a(1) 3(6) by (auto split: if_splits)
    have "case r of Inl b \<Rightarrow> (b \<longleftrightarrow> opr = ''OR'') \<and> (\<exists>p \<in> set ps. holds fetch m p = b)
      | Inr rs \<Rightarrow> (\<forall>p \<in> set ps. holds fetch m p \<longleftrightarrow> opr = ''AND'')
          \<and> (\<forall>x \<in> set rs. x \<in> set (results @ [a]) \<or> (x \<longleftrightarrow> opr = ''AND''))"
    proof (rule 3(3) [OF one refl a(1) _ _ l free(2) 3(6)])
      show "\<not> (opr = ''AND'' \<and> \<not> a)" using False by auto
      show "\<not> (opr = ''OR'' \<and> a)" using False by simp
    qed
    moreover have "holds fetch m p \<longleftrightarrow> opr = ''AND''" "a \<longleftrightarrow> opr = ''AND''" using False a(2) 3(6) by auto
    ultimately show ?thesis by (simp split: sum.splits) blast
  qed
next
  case (4 fetch opr elem m)
  show ?case
  proof (cases "opr = ''AND'' \<or> opr = ''OR''")
    case True
    then obtain d where d: "authContent fetch (Policy opr elem) m = Inr d" "\<not> retry" "b = d"
      using 4(2) by (auto simp: res_simps)
    show ?thesis using 4(1) [OF True d(1) 4(3)] d by simp
  next
    case False
    then show ?thesis using 4(2,3) authElement_no_retry [of fetch "Policy opr elem" m "[]" "[]"]
      by (auto simp: res_simps op_any split: if_splits)
  qed
qed

text \<open>
  C6: When a policy has no conditions on attributes other than the identifier and the path, the
  decision is its boolean reading: all of the parts of an AND hold, some part of an OR holds, and a
  part that is a single condition holds when its operator matches the identifier, or one of the
  paths, of the resource it names. Leaving the loop early does not change the decision.
\<close>

theorem decision_is_boolean_reading:
  assumes "calculatePolicy fetch resources (Some p) = Inr b" "attr_free p" "Operator p \<noteq> []"
  shows "b \<longleftrightarrow> holds fetch (rsc_map_of resources) p"
proof (cases "Operator p = ''any''")
  case True
  then show ?thesis using assms(1) by (cases p) (auto simp: calculatePolicy_def)
next
  case False
  obtain opr elem where p: "p = Policy opr elem" by (cases p)
  show ?thesis
  proof (cases "opr = ''AND'' \<or> opr = ''OR''")
    case True
    then have "authContent fetch p (rsc_map_of resources) = Inr b"
      using assms(1,3) by (auto simp: p calculatePolicy_def split: if_splits)
    from content_decisions(1) [OF this assms(2)] show ?thesis .
  next
    case content: False
    then have f: "authFieldValue fetch p (rsc_map_of resources) = Inr b"
      using assms(1,3) False by (auto simp: p calculatePolicy_def split: if_splits)
    obtain g w where e: "elem = FieldValue g w" "Attribute g \<in> {IamIDKey, IamPathKey}"
      using f assms(2) False by (cases elem) (auto simp: p authFieldValue_def)
    have "authElement fetch p (rsc_map_of resources) [] [] = Inr (False, b)"
      using authFieldValue_element [of p g w] f e by (simp add: p)
    then show ?thesis using content False by (auto simp: p)
  qed
qed

definition biz_policy :: policy where
  "biz_policy = Policy ''AND'' (Content
     [Policy ''starts_with'' (FieldValue \<lparr>Resource = ''app'', Attribute = ''_bk_iam_path_''\<rparr> (VString ''/biz,2/'')),
      Policy ''OR'' (Content
        [Policy ''eq'' (FieldValue \<lparr>Resource = ''app'', Attribute = ''id''\<rparr> (VString ''7'')),
         Policy ''in'' (FieldValue \<lparr>Resource = ''app'', Attribute = ''id''\<rparr> (VSlice [VString ''8'', VString ''9'']))])])"

definition app_resource :: "string \<Rightarrow> resource" where
  "app_resource i = \<lparr>rs_System = ''bk-bscp'', rs_Type = ''app'', rs_ID = i,
     rs_Attribute = [(''_bk_iam_path_'', VSlice [VString ''/biz,2/''])]\<rparr>"

theorem decision_is_boolean_reading_witness:
  "holds (\<lambda>_. None) (rsc_map_of [app_resource ''9'']) biz_policy
   \<and> \<not> holds (\<lambda>_. None) (rsc_map_of [app_resource ''5'']) biz_policy"
proof -
  have "calculatePolicy (\<lambda>_. None) [app_resource ''9''] (Some biz_policy) = Inr True"
    "calculatePolicy (\<lambda>_. None) [app_resource ''5''] (Some biz_policy) = Inr False"
    "attr_free biz_policy" "Operator biz_policy \<noteq> []" by code_simp+
  from decision_is_boolean_reading [OF this(1,3,4)] decision_is_boolean_reading [OF this(2,3,4)]
  show ?thesis by simp
qed

section \<open>Conditions on attributes are ignored inside a content\<close>

definition attr_condition :: "rsc_map \<Rightarrow> policy \<Rightarrow> bool" where
  "attr_condition m p = (Operator p \<in> {''eq'', ''in''} \<and> (case Element p of
      FieldValue f w \<Rightarrow> Attribute f \<notin> {IamIDKey, IamPathKey} \<and> map_of m (Resource f) \<noteq> None
    | _ \<Rightarrow> False))"

lemma attr_condition_retry:
  "attr_condition m p \<Longrightarrow> authPolicyContent fetch p m [] [] = Inr (True, False)"
  by (cases p) (auto simp: attr_condition_def authElement_def split: element.splits)

lemma content_loop_filter:
  "content_loop fetch opr ps m [] [] rs = content_loop fetch opr (filter (\<lambda>p. \<not> attr_condition m p) ps) m [] [] rs"
proof (induction ps arbitrary: rs)
  case (Cons p ps)
  then show ?case
    by (cases "attr_condition m p")
      (auto simp: attr_condition_retry intro!: arg_cong [where f = "rbind _"] split: prod.splits)
qed simp

lemma calculatePolicy_Content:
  "opr = ''AND'' \<or> opr = ''OR'' \<Longrightarrow> resources \<noteq> [] \<Longrightarrow>
   calculatePolicy fetch resources (Some (Policy opr (Content ps))) =
     rbind (content_loop fetch opr ps (rsc_map_of resources) [] [] []) (\<lambda>r. Inr (combine opr r))"
  by (auto simp: calculatePolicy_def authContent_Content simp del: authContent.simps)

lemma attribute_conditions_ignored_parts:
  assumes "opr = ''AND'' \<or> opr = ''OR''" "resources \<noteq> []"
  shows "calculatePolicy fetch resources (Some (Policy opr (Content ps)))
      = calculatePolicy fetch resources
          (Some (Policy opr (Content (filter (\<lambda>p. \<not> attr_condition (rsc_map_of resources) p) ps))))"
    and "\<forall>p \<in> set ps. attr_condition (rsc_map_of resources) p \<Longrightarrow>
      calculatePolicy fetch resources (Some (Policy opr (Content ps))) = Inr (opr = ''AND'')"
proof -
  show f: "calculatePolicy fetch resources (Some (Policy opr (Content ps)))
      = calculatePolicy fetch resources
          (Some (Policy opr (Content (filter (\<lambda>p. \<not> attr_condition (rsc_map_of resources) p) ps))))"
    using assms by (simp add: calculatePolicy_Content content_loop_filter [of fetch opr ps])
  assume "\<forall>p \<in> set ps. attr_condition (rsc_map_of resources) p"
  then have "filter (\<lambda>p. \<not> attr_condition (rsc_map_of resources) p) ps = []" by (simp add: filter_empty_conv)
  then show "calculatePolicy fetch resources (Some (Policy opr (Content ps))) = Inr (opr = ''AND'')"
    using assms by (auto simp: f calculatePolicy_Content combine_def)
qed

text \<open>
  C7: Inside an AND or an OR, conditions on attributes other than the identifier and the path do not
  count: the decision is the one without them. In particular an AND of such conditions authorises
  everyone, whatever the attributes are, and an OR of them no one.
\<close>

theorem attribute_conditions_ignored:
  assumes "opr = ''AND'' \<or> opr = ''OR''" "resources \<noteq> []"
  shows "calculatePolicy fetch resources (Some (Policy opr (Content ps)))
      = calculatePolicy fetch resources
          (Some (Policy opr (Content (filter (\<lambda>p. \<not> attr_condition (rsc_map_of resources) p) ps))))
    \<and> ((\<forall>p \<in> set ps. attr_condition (rsc_map_of resources) p) \<longrightarrow>
      calculatePolicy fetch resources (Some (Policy opr (Content ps))) = Inr (opr = ''AND''))"
  using attribute_conditions_ignored_parts [OF assms] by blast

theorem attribute_conditions_ignored_witness:
  "calculatePolicy (\<lambda>_. Some []) [app_resource ''9'']
     (Some (Policy ''AND'' (Content [Policy ''eq'' (FieldValue \<lparr>Resource = ''app'', Attribute = ''owner''\<rparr> (VString ''bob''))])))
   = Inr True"
proof -
  have "\<forall>p \<in> set [Policy ''eq'' (FieldValue \<lparr>Resource = ''app'', Attribute = ''owner''\<rparr> (VString ''bob''))].
      attr_condition (rsc_map_of [app_resource ''9'']) p" by code_simp
  from conjunct2 [OF attribute_conditions_ignored [of "''AND''" "[app_resource ''9'']" "\<lambda>_. Some []"], THEN mp, OF _ _ this]
  show ?thesis by simp
qed

section \<open>Counting and authorising agree\<close>

definition member :: "string \<Rightarrow> authorize_list \<Rightarrow> bool" where
  "member i l \<longleftrightarrow> IsAny l \<or> i \<in> set (Ids l)"

text \<open>Conditions on the identifier of one resource type, at most in one content.\<close>

definition id_condition :: "string \<Rightarrow> policy \<Rightarrow> bool" where
  "id_condition rt p = (case Element p of FieldValue f w \<Rightarrow> Resource f = rt \<and> Attribute f = IamIDKey | _ \<Rightarrow> False)"

definition id_policy :: "string \<Rightarrow> policy \<Rightarrow> bool" where
  "id_policy rt p = (case Element p of
      Content ps \<Rightarrow> ps \<noteq> [] \<and> list_all (id_condition rt) ps
    | FieldValue f w \<Rightarrow> id_condition rt p | NoElement \<Rightarrow> False)"

lemma member_And:
  assumes "sets \<noteq> []"
  shows "member i (calculateSetForAnd sets) \<longleftrightarrow> (\<forall>s \<in> set sets. member i s)"
proof (cases "length sets = 1")
  case True
  then show ?thesis by (auto simp: calculateSetForAnd_def length_Suc_conv)
next
  case False
  obtain s0 r where s: "sets = s0 # r" using assms by (cases sets) auto
  show ?thesis
  proof (cases "find (\<lambda>s. \<not> IsAny s) sets")
    case None
    then show ?thesis using False None [unfolded find_None_iff]
      by (auto simp: calculateSetForAnd_def member_def any_list_def)
  next
    case (Some base)
    have base: "base \<in> set sets" "\<not> IsAny base" using Some by (auto simp: find_Some_iff)
    have "IsAny s0 \<or> base = s0" using Some s by (auto split: if_splits)
    then show ?thesis using False Some base unfolding s calculateSetForAnd_def member_def by auto
  qed
qed

lemma member_Or:
  assumes "sets \<noteq> []"
  shows "member i (calculateSetForOr sets) \<longleftrightarrow> (\<exists>s \<in> set sets. member i s)"
proof (cases "length sets = 1")
  case True
  then show ?thesis by (auto simp: calculateSetForOr_def length_Suc_conv)
next
  case False
  then show ?thesis by (auto simp: calculateSetForOr_def member_def any_list_def list_ex_iff)
qed

lemma all_strings_Some: "all_strings vs = Some ss \<Longrightarrow> vs = map VString ss"
  by (induction vs arbitrary: ss) (auto split: gval.splits)

lemma countIamIDKey_match:
  assumes "countIamIDKey opr w = Inr ids"
  shows "op_match opr (VString i) w = Inr (i \<in> set ids)"
proof (cases "opr = ''eq''")
  case True
  then obtain s where "w = VString s" "ids = [s]"
    using assms by (auto simp: countIamIDKey_def split: gval.splits)
  then show ?thesis using True Match_string(1) by (simp add: op_match_def OpType_Operator_def factory_def match_result_def)
next
  case False
  then have "opr = ''in''" using assms by (auto simp: countIamIDKey_def split: if_splits)
  moreover from this obtain vs where "w = VSlice vs" "all_strings vs = Some ids"
    using assms by (auto simp: countIamIDKey_def split: gval.splits option.splits)
  ultimately show ?thesis using Match_string(2) all_strings_Some [of vs ids]
    by (simp add: op_match_def OpType_Operator_def factory_def match_result_def)
qed

text \<open>One condition of a content: what is counted for it is what it authorises.\<close>

lemma count_one_agrees:
  assumes "count_one fetch p rt = Inr x" "id_condition rt p" "rs_Type rsc = rt"
  obtains l where "x = Some l" "authPolicyContent fetch p [(rt, rsc)] [] [] = Inr (False, member (rs_ID rsc) l)"
proof (cases "Operator p = ''any''")
  case True
  then have "x = Some any_list" "authPolicyContent fetch p [(rt, rsc)] [] [] = Inr (False, member (rs_ID rsc) any_list)"
    using assms(1) by (cases p, auto simp: op_any member_def any_list_def)+
  then show ?thesis by (rule that)
next
  case False
  obtain opr f w where p: "p = Policy opr (FieldValue f w)" "Resource f = rt" "Attribute f = IamIDKey"
    using assms(2) by (cases p) (auto simp: id_condition_def split: element.splits)
  have opr: "\<not> (opr = ''AND'' \<or> opr = ''OR'')" "opr \<noteq> ''any''" using assms(1) False by (auto simp: p split: if_splits)
  then obtain ids where ids: "countIamIDKey opr w = Inr ids" "x = Some \<lparr>Ids = ids, IsAny = False\<rparr>"
    using assms(1) p(3) by (auto simp: p(1) res_simps)
  have "authPolicyContent fetch p [(rt, rsc)] [] [] = Inr (False, member (rs_ID rsc) \<lparr>Ids = ids, IsAny = False\<rparr>)"
    using opr p assms(3) countIamIDKey_match [OF ids(1)] by (simp add: authElement_def member_def)
  then show ?thesis using ids(2) that by blast
qed

lemma content_loop_decides:
  assumes "\<forall>p \<in> set ps. authPolicyContent fetch p m [] [] = Inr (False, f p)" "opr = ''AND'' \<or> opr = ''OR''"
    and "\<forall>x \<in> set rs. x \<longleftrightarrow> opr = ''AND''"
  shows "rbind (content_loop fetch opr ps m [] [] rs) (\<lambda>r. Inr (combine opr r))
    = Inr (if opr = ''AND'' then \<forall>p \<in> set ps. f p else \<exists>p \<in> set ps. f p)"
  using assms(1,3)
proof (induction ps arbitrary: rs)
  case Nil
  then show ?case using assms(2) by (auto simp: combine_def list_all_iff list_ex_iff)
next
  case (Cons p ps)
  have one: "authPolicyContent fetch p m [] [] = Inr (False, f p)" using Cons.prems by simp
  show ?case
  proof (cases "f p \<longleftrightarrow> opr = ''AND''")
    case True
    then have "\<forall>x \<in> set (rs @ [f p]). x \<longleftrightarrow> opr = ''AND''" using Cons.prems by auto
    from Cons.IH [OF _ this] show ?thesis using True one assms(2) Cons.prems by auto
  next
    case False
    then show ?thesis using one assms(2) by (auto simp: combine_def)
  qed
qed

lemma count_loop_agrees:
  assumes "count_loop fetch ps rt [] ls = Inr (as, all)" "list_all (id_condition rt) ps" "rs_Type rsc = rt"
  shows "\<exists>new. as = [] \<and> all = ls @ new \<and> length new = length ps
    \<and> (\<forall>j < length ps. authPolicyContent fetch (ps ! j) [(rt, rsc)] [] [] = Inr (False, member (rs_ID rsc) (new ! j)))"
  using assms(1,2)
proof (induction ps arbitrary: ls)
  case (Cons p ps)
  then obtain x where x: "count_one fetch p rt = Inr x" by (auto simp: res_simps)
  have "id_condition rt p" using Cons.prems by auto
  from count_one_agrees [OF x this assms(3)] obtain l where
    l: "x = Some l" "authPolicyContent fetch p [(rt, rsc)] [] [] = Inr (False, member (rs_ID rsc) l)" .
  have "count_loop fetch ps rt [] (ls @ [l]) = Inr (as, all)" using Cons.prems(1) x l(1) by simp
  from Cons.IH [OF this] Cons.prems obtain new where "as = []" "all = (ls @ [l]) @ new" "length new = length ps"
    "\<forall>j < length ps. authPolicyContent fetch (ps ! j) [(rt, rsc)] [] [] = Inr (False, member (rs_ID rsc) (new ! j))"
    by auto
  then show ?case using l(2) by (intro exI [of _ "l # new"]) (auto simp: nth_Cons split: nat.splits)
qed auto

text \<open>
  C8: For a policy of conditions on the identifier of a resource type, alone or in one AND or OR, the
  instances that are listed as authorised are exactly those that are authorised one by one.
\<close>

theorem listed_iff_authorised:
  assumes "countPolicy fetch p rt = Inr l" "id_policy rt p" "rs_Type rsc = rt"
  shows "calculatePolicy fetch [rsc] (Some p) = Inr (member (rs_ID rsc) l)"
proof -
  obtain opr elem where p: "p = Policy opr elem" by (cases p)
  have m: "rsc_map_of [rsc] = [(rt, rsc)]" using assms(3) by (simp add: rsc_map_of_def)
  consider (content) ps where "opr = ''AND'' \<or> opr = ''OR''" "elem = Content ps"
    | (any) "opr = ''any''" | (single) "opr \<notin> {''AND'', ''OR'', ''any''}"
    using assms(1) by (auto simp: p countPolicy_def split: if_splits element.splits)
  then show ?thesis
  proof cases
    case content
    then have ps: "ps \<noteq> []" "list_all (id_condition rt) ps" using assms(2) by (auto simp: p id_policy_def)
    obtain as sets where loop: "count_loop fetch ps rt [] [] = Inr (as, sets)"
      and set: "as = [] \<Longrightarrow> calculateSet opr sets = Inr l"
      using assms(1) content by (auto simp: p countPolicy_def res_simps split: if_splits)
    from count_loop_agrees [OF loop ps(2) assms(3)] have new: "as = []" "length sets = length ps"
      and each: "\<forall>j < length ps. authPolicyContent fetch (ps ! j) [(rt, rsc)] [] [] = Inr (False, member (rs_ID rsc) (sets ! j))"
      by auto
    have "sets \<noteq> []" using new(2) ps(1) by auto
    then have l: "member (rs_ID rsc) l \<longleftrightarrow> (if opr = ''AND'' then \<forall>s \<in> set sets. member (rs_ID rsc) s else \<exists>s \<in> set sets. member (rs_ID rsc) s)"
      using set [OF new(1)] content(1) member_And [of sets] member_Or [of sets]
      by (cases "opr = ''AND''") (simp_all add: calculateSet_def)
    define f where "f q = (authPolicyContent fetch q [(rt, rsc)] [] [] = Inr (False, True))" for q
    have f: "f (ps ! j) \<longleftrightarrow> member (rs_ID rsc) (sets ! j)" if "j < length ps" for j using each that by (simp add: f_def)
    have "\<forall>q \<in> set ps. authPolicyContent fetch q [(rt, rsc)] [] [] = Inr (False, f q)"
      using each f by (auto simp: in_set_conv_nth)
    from content_loop_decides [OF this content(1), of "[]"]
    have "calculatePolicy fetch [rsc] (Some p) = Inr (if opr = ''AND'' then \<forall>q \<in> set ps. f q else \<exists>q \<in> set ps. f q)"
      using content by (simp add: p calculatePolicy_Content m)
    also have "(\<forall>q \<in> set ps. f q) \<longleftrightarrow> (\<forall>s \<in> set sets. member (rs_ID rsc) s)"
      using f new(2) by (auto simp: all_set_conv_all_nth)
    also have "(\<exists>q \<in> set ps. f q) \<longleftrightarrow> (\<exists>s \<in> set sets. member (rs_ID rsc) s)"
      using f new(2) by (auto simp: Bex_def in_set_conv_nth)
    finally show ?thesis by (simp add: l)
  next
    case any
    then show ?thesis using assms(1) by (auto simp: p countPolicy_def calculatePolicy_def any_list_def member_def split: if_splits)
  next
    case single
    obtain f w where e: "elem = FieldValue f w" "Resource f = rt" "Attribute f = IamIDKey"
      using single assms(1,2) by (cases elem) (auto simp: p countPolicy_def id_policy_def id_condition_def split: if_splits)
    then obtain ids where ids: "countIamIDKey opr w = Inr ids" "l = \<lparr>Ids = ids, IsAny = False\<rparr>"
      using single assms(1) by (auto simp: p countPolicy_def res_simps split: if_splits)
    then have "opr \<noteq> []" by (auto simp: countIamIDKey_def)
    then show ?thesis using single e ids countIamIDKey_match [OF ids(1)]
      by (simp add: p calculatePolicy_def authFieldValue_def m member_def)
  qed
qed

theorem listed_iff_authorised_witness:
  "calculatePolicy (\<lambda>_. None) [app_resource ''8'']
     (Some (Policy ''OR'' (Content
        [Policy ''eq'' (FieldValue \<lparr>Resource = ''app'', Attribute = ''id''\<rparr> (VString ''7'')),
         Policy ''in'' (FieldValue \<lparr>Resource = ''app'', Attribute = ''id''\<rparr> (VSlice [VString ''7'', VString ''8'']))])))
   = Inr (member ''8'' \<lparr>Ids = [''7'', ''8''], IsAny = False\<rparr>)"
proof -
  let ?p = "Policy ''OR'' (Content
        [Policy ''eq'' (FieldValue \<lparr>Resource = ''app'', Attribute = ''id''\<rparr> (VString ''7'')),
         Policy ''in'' (FieldValue \<lparr>Resource = ''app'', Attribute = ''id''\<rparr> (VSlice [VString ''7'', VString ''8'']))])"
  have "countPolicy (\<lambda>_. None) ?p ''app'' = Inr \<lparr>Ids = [''7'', ''8''], IsAny = False\<rparr>"
    "id_policy ''app'' ?p" by code_simp+
  from listed_iff_authorised [OF this, of "app_resource ''8''"] show ?thesis by (simp add: app_resource_def)
qed

text \<open>A policy whose value is null ends the process.\<close>

lemma null_value_panics:
  "calculatePolicy fetch [app_resource i] (Some (Policy ''eq'' (FieldValue \<lparr>Resource = ''app'', Attribute = ''id''\<rparr> VNil))) = Inl Panicked"
  by (simp add: calculatePolicy_def authFieldValue_def rsc_map_of_def app_resource_def IamIDKey_def op_match_def
      OpType_Operator_def factory_def eq_nil_panics [simplified] match_result_def)

end
