(* ===== verification/IamAdapt.thy ===== *)
theory IamAdapt
  imports IamBatch IamClaims
begin

text \<open>
  The authorisation of the auth server, \<open>cmd/auth-server/service/auth\<close>: the actions and resources of
  the permission centre that a request stands for (\<open>adaptor.go\<close>, \<open>gen_id.go\<close>) and the decisions for a
  batch of requests (\<open>auth.go\<close>).
\<close>

section \<open>Requests\<close>

record meta_resource =
  mr_Type :: string
  mr_Action :: string
  mr_ResourceID :: "32 word"
  mr_BizID :: "32 word"

definition Business :: string where "Business = ''biz''"
definition Application :: string where "Application = ''app''"

datatype adapt_err = UnsupportedAction string | UnsupportedType string

definition id_text :: "32 word \<Rightarrow> string" where
  "id_text n = itoa_nat (unat n)"

definition biz_res :: "meta_resource \<Rightarrow> resource" where
  "biz_res a = \<lparr>rs_System = SystemIDCMDB, rs_Type = Business, rs_ID = id_text (mr_BizID a), rs_Attribute = []\<rparr>"

definition biz_path :: "32 word \<Rightarrow> string" where
  "biz_path n = ''/'' @ Business @ '','' @ id_text n @ ''/''"

definition app_res :: "meta_resource \<Rightarrow> resource" where
  "app_res a = \<lparr>rs_System = SystemIDBSCP, rs_Type = Application, rs_ID = id_text (mr_ResourceID a),
     rs_Attribute = [(IamPathKey, VSlice [VString (biz_path (mr_BizID a))])]\<rparr>"

type_synonym adapted = "adapt_err + string \<times> resource list"

definition genSkipResource :: "meta_resource \<Rightarrow> adapted" where
  "genSkipResource a = Inr (''skip'', [])"

definition genBizResource :: "meta_resource \<Rightarrow> adapted" where
  "genBizResource a =
     (if mr_Action a = ''find_business_resource'' then Inr (''find_business_resource'', [biz_res a])
      else Inl (UnsupportedAction (mr_Action a)))"

definition genAppResource :: "meta_resource \<Rightarrow> adapted" where
  "genAppResource a =
     (if mr_Action a = ''create'' then Inr (''app_create'', [biz_res a])
      else if mr_Action a = ''update'' then Inr (''app_edit'', [app_res a])
      else if mr_Action a = ''delete'' then Inr (''app_delete'', [app_res a])
      else if mr_Action a = ''view'' then Inr (''app_view'', [app_res a])
      else if mr_Action a = ''generate_release'' then Inr (''release_generate'', [app_res a])
      else if mr_Action a = ''publish'' then Inr (''release_publish'', [app_res a])
      else if mr_Action a = ''find'' then Inr (''find_business_resource'', [biz_res a])
      else Inl (UnsupportedAction (mr_Action a)))"

definition genCredResource :: "meta_resource \<Rightarrow> adapted" where
  "genCredResource a =
     (if mr_Action a = ''view'' then Inr (''app_credential_view'', [biz_res a])
      else if mr_Action a = ''manage'' then Inr (''app_credential_manage'', [biz_res a])
      else Inl (UnsupportedAction (mr_Action a)))"

definition genAuditResource :: "meta_resource \<Rightarrow> adapted" where
  "genAuditResource a =
     (if mr_Action a = ''view'' then Inr (''audit_view'', [biz_res a]) else Inl (UnsupportedAction (mr_Action a)))"

definition genProcConfigMgmtResource :: "meta_resource \<Rightarrow> adapted" where
  "genProcConfigMgmtResource a =
     (if mr_Action a = ''view'' then Inr (''proc_config_mgmt_view'', [biz_res a])
      else if mr_Action a = ''process_operate'' then Inr (''process_operate'', [biz_res a])
      else if mr_Action a = ''release_config'' then Inr (''config_release'', [biz_res a])
      else if mr_Action a = ''generate_config'' then Inr (''config_generate'', [biz_res a])
      else if mr_Action a = ''create'' then Inr (''config_template_create'', [biz_res a])
      else if mr_Action a = ''update'' then Inr (''config_template_edit'', [biz_res a])
      else if mr_Action a = ''delete'' then Inr (''config_template_delete'', [biz_res a])
      else Inl (UnsupportedAction (mr_Action a)))"

definition skipped_types :: "string list" where
  "skipped_types = [''commit'', ''config_item'', ''content'', ''current_released_instance'', ''release'',
     ''released_config_item'', ''strategy'', ''strategy_set'', ''published_strategy_history'', ''repository'', ''sidecar'']"

definition AdaptAuthOptions :: "meta_resource \<Rightarrow> adapted" where
  "AdaptAuthOptions a =
     (if mr_Action a = ''skip'' then genSkipResource a
      else if mr_Type a = ''biz'' then genBizResource a
      else if mr_Type a = ''app'' then genAppResource a
      else if mr_Type a = ''credential'' then genCredResource a
      else if mr_Type a = ''audit'' then genAuditResource a
      else if mr_Type a \<in> set skipped_types then genSkipResource a
      else if mr_Type a = ''process_and_config_management'' then genProcConfigMgmtResource a
      else Inl (UnsupportedType (mr_Type a)))"

section \<open>Applying for permissions\<close>

text \<open>An action to apply for, with the path of nodes that leads to its resource.\<close>

record application_action =
  aa_ID :: string
  aa_SystemID :: string
  aa_Type :: string
  aa_Nodes :: "(string \<times> string) list"

definition biz_action :: "string \<Rightarrow> meta_resource \<Rightarrow> application_action" where
  "biz_action i a = \<lparr>aa_ID = i, aa_SystemID = SystemIDCMDB, aa_Type = Business, aa_Nodes = [(Business, id_text (mr_BizID a))]\<rparr>"

definition app_action :: "string \<Rightarrow> meta_resource \<Rightarrow> application_action" where
  "app_action i a = \<lparr>aa_ID = i, aa_SystemID = SystemIDBSCP, aa_Type = Application,
     aa_Nodes = [(Business, id_text (mr_BizID a)), (Application, id_text (mr_ResourceID a))]\<rparr>"

definition genBizIAMApplication :: "meta_resource \<Rightarrow> adapt_err + application_action" where
  "genBizIAMApplication a =
     (if mr_Action a = ''find_business_resource'' then Inr (biz_action ''find_business_resource'' a)
      else Inl (UnsupportedAction (mr_Action a)))"

definition genAppIAMApplication :: "meta_resource \<Rightarrow> adapt_err + application_action" where
  "genAppIAMApplication a =
     (if mr_Action a = ''create'' then Inr (biz_action ''app_create'' a)
      else if mr_Action a = ''view'' then Inr (app_action ''app_view'' a)
      else if mr_Action a = ''update'' then Inr (app_action ''app_edit'' a)
      else if mr_Action a = ''delete'' then Inr (app_action ''app_delete'' a)
      else if mr_Action a = ''publish'' then Inr (app_action ''release_publish'' a)
      else if mr_Action a = ''generate_release'' then Inr (app_action ''release_generate'' a)
      else Inl (UnsupportedAction (mr_Action a)))"

definition genCredIAMApplication :: "meta_resource \<Rightarrow> adapt_err + application_action" where
  "genCredIAMApplication a =
     (if mr_Action a = ''view'' then Inr (biz_action ''app_credential_view'' a)
      else if mr_Action a = ''manage'' then Inr (biz_action ''app_credential_manage'' a)
      else Inl (UnsupportedAction (mr_Action a)))"

definition genAuditIAMApplication :: "meta_resource \<Rightarrow> adapt_err + application_action" where
  "genAuditIAMApplication a =
     (if mr_Action a = ''view'' then Inr (biz_action ''audit_view'' a) else Inl (UnsupportedAction (mr_Action a)))"

definition genProcConfigMgmtApplication :: "meta_resource \<Rightarrow> adapt_err + application_action" where
  "genProcConfigMgmtApplication a =
     (if mr_Action a = ''view'' then Inr (biz_action ''proc_config_mgmt_view'' a)
      else if mr_Action a = ''process_operate'' then Inr (biz_action ''process_operate'' a)
      else if mr_Action a = ''release_config'' then Inr (biz_action ''config_release'' a)
      else if mr_Action a = ''generate_config'' then Inr (biz_action ''config_generate'' a)
      else if mr_Action a = ''create'' then Inr (biz_action ''config_template_create'' a)
      else if mr_Action a = ''update'' then Inr (biz_action ''config_template_edit'' a)
      else if mr_Action a = ''delete'' then Inr (biz_action ''config_template_delete'' a)
      else Inl (UnsupportedAction (mr_Action a)))"

definition application_of :: "meta_resource \<Rightarrow> adapt_err + application_action" where
  "application_of a =
     (if mr_Type a = ''biz'' then genBizIAMApplication a
      else if mr_Type a = ''app'' then genAppIAMApplication a
      else if mr_Type a = ''credential'' then genCredIAMApplication a
      else if mr_Type a = ''audit'' then genAuditIAMApplication a
      else if mr_Type a = ''process_and_config_management'' then genProcConfigMgmtApplication a
      else Inl (UnsupportedType (mr_Type a)))"

fun applications_of :: "meta_resource list \<Rightarrow> adapt_err + application_action list" where
  "applications_of [] = Inr []"
| "applications_of (a # as) = rbind (application_of a) (\<lambda>x. rbind (applications_of as) (\<lambda>xs. Inr (x # xs)))"

text \<open>\<open>None\<close> is the error for an empty request.\<close>

definition AdaptIAMApplicationOptions :: "meta_resource list \<Rightarrow> adapt_err option + application_action list" where
  "AdaptIAMApplicationOptions as = (if as = [] then Inl None else wrap_err Some (applications_of as))"

section \<open>The decisions for a batch of requests\<close>

record disable_option =
  do_IsDisabled :: bool
  do_IsAll :: bool
  do_BizIDs :: "32 word set"

datatype 'e auth_failure = WriteDisabled | AdaptFailed adapt_err | AuthFailed 'e

definition isWriteOperationDisabled :: "disable_option \<Rightarrow> meta_resource list \<Rightarrow> 'e auth_failure + unit" where
  "isWriteOperationDisabled opt resources =
     (if \<not> do_IsDisabled opt then Inr ()
      else check_all (\<lambda>r. if mr_Action r = ''find'' \<or> mr_Action r = ''skip'' then Inr ()
          else ensure (\<not> do_IsAll opt \<and> mr_BizID r \<notin> do_BizIDs opt) WriteDisabled) resources)"

fun parseAttributesToBatchOptions :: "meta_resource list \<Rightarrow> adapt_err + auth_batch list \<times> bool list" where
  "parseAttributesToBatchOptions [] = Inr ([], [])"
| "parseAttributesToBatchOptions (r # rs) =
     (if mr_Action r = ''skip'' then rbind (parseAttributesToBatchOptions rs) (\<lambda>(batch, ds). Inr (batch, True # ds))
      else rbind (AdaptAuthOptions r) (\<lambda>(action, iamResources).
        if action = ''skip'' then rbind (parseAttributesToBatchOptions rs) (\<lambda>(batch, ds). Inr (batch, True # ds))
        else rbind (parseAttributesToBatchOptions rs) (\<lambda>(batch, ds).
          Inr (\<lparr>ab_Action = action, ab_Resources = iamResources\<rparr> # batch, False # ds))))"

text \<open>The decisions of the permission centre go to the requests that are not decided yet, in order.\<close>

fun merge_decisions :: "bool list \<Rightarrow> bool list \<Rightarrow> bool list" where
  "merge_decisions ds [] = ds"
| "merge_decisions [] (a # as) = []"
| "merge_decisions (d # ds) (a # as) = (if d then True # merge_decisions ds (a # as) else a # merge_decisions ds as)"

definition Auth_AuthorizeBatch ::
  "(auth_batch list \<Rightarrow> 'e + bool list) \<Rightarrow> disable_option \<Rightarrow> meta_resource list \<Rightarrow> 'e auth_failure + bool list" where
  "Auth_AuthorizeBatch auth opt resources =
     (if resources = [] then Inr []
      else rbind (isWriteOperationDisabled opt resources) (\<lambda>_.
      rbind (wrap_err AdaptFailed (parseAttributesToBatchOptions resources)) (\<lambda>(batch, decisions).
        if batch = [] then Inr decisions
        else rbind (wrap_err AuthFailed (auth batch)) (\<lambda>authDecisions. Inr (merge_decisions decisions authDecisions)))))"

section \<open>Properties\<close>

text \<open>What decides a request: nothing for an operation without permission, else the policy of its action.\<close>

definition request_decided :: "policy_client \<Rightarrow> fetcher \<Rightarrow> string \<Rightarrow> meta_resource \<Rightarrow> bool \<Rightarrow> bool" where
  "request_decided cl fetch user r d = (case AdaptAuthOptions r of
      Inl _ \<Rightarrow> False
    | Inr (action, rs) \<Rightarrow> if action = ''skip'' then d
        else user \<noteq> [] \<and> action \<noteq> [] \<and> entry_decided cl fetch \<lparr>ab_Action = action, ab_Resources = rs\<rparr> d)"

definition batch_decided :: "policy_client \<Rightarrow> fetcher \<Rightarrow> string \<Rightarrow> auth_batch list \<Rightarrow> bool list \<Rightarrow> bool" where
  "batch_decided cl fetch user batch as \<longleftrightarrow>
     list_all2 (\<lambda>b d. user \<noteq> [] \<and> ab_Action b \<noteq> [] \<and> entry_decided cl fetch b d) batch as"

lemma parse_skip: "mr_Action r = ''skip'' \<Longrightarrow> AdaptAuthOptions r = Inr (''skip'', [])"
  by (simp add: AdaptAuthOptions_def genSkipResource_def)

lemma merge_True [simp]: "merge_decisions (True # ds) as = True # merge_decisions ds as"
  by (cases as) auto

lemma parse_error:
  "parseAttributesToBatchOptions rs = Inl e \<Longrightarrow> \<not> list_all2 (request_decided cl fetch user) rs ds"
proof (induction rs arbitrary: e ds)
  case (Cons r rs)
  then show ?case
    by (cases "AdaptAuthOptions r"; cases "parseAttributesToBatchOptions rs")
      (auto simp: list_all2_Cons1 request_decided_def [of _ _ _ r] parse_skip split: if_splits)
qed simp

lemma parse_decided:
  "parseAttributesToBatchOptions rs = Inr (batch, bs) \<Longrightarrow>
     (\<exists>as. batch_decided cl fetch user batch as \<and> ds = merge_decisions bs as)
       \<longleftrightarrow> list_all2 (request_decided cl fetch user) rs ds"
proof (induction rs arbitrary: batch bs ds)
  case (Cons r rs)
  then obtain action res where ad: "AdaptAuthOptions r = Inr (action, res)"
    by (cases "AdaptAuthOptions r") (auto simp: parse_skip split: if_splits)
  obtain batch' bs' where p: "parseAttributesToBatchOptions rs = Inr (batch', bs')"
    using Cons.prems by (cases "parseAttributesToBatchOptions rs") (auto simp: ad split: if_splits)
  note IH = Cons.IH [OF p]
  show ?case
  proof (cases "action = ''skip''")
    case True
    then have "batch = batch'" "bs = True # bs'" using Cons.prems ad p by (auto split: if_splits)
    then show ?thesis using True
      by (cases ds) (auto simp: request_decided_def [of _ _ _ r] ad simp flip: IH)
  next
    case False
    then have b: "batch = \<lparr>ab_Action = action, ab_Resources = res\<rparr> # batch'" "bs = False # bs'"
      using Cons.prems ad p parse_skip by (auto split: if_splits)
    have "(\<exists>as. batch_decided cl fetch user batch as \<and> ds = merge_decisions bs as) \<longleftrightarrow>
        (\<exists>d as. ds = d # merge_decisions bs' as \<and> request_decided cl fetch user r d \<and> batch_decided cl fetch user batch' as)"
      using False by (fastforce simp: b batch_decided_def list_all2_Cons1 request_decided_def ad)
    also have "\<dots> \<longleftrightarrow> list_all2 (request_decided cl fetch user) (r # rs) ds"
      by (cases ds) (auto simp flip: IH)
    finally show ?thesis .
  qed
qed (auto simp: batch_decided_def)

lemma check_all_iff: "check_all f xs = Inr () \<longleftrightarrow> (\<forall>x \<in> set xs. f x = Inr ())"
  by (induction xs) (auto simp: res_simps)

lemma write_check_each:
  "isWriteOperationDisabled opt rs = Inr () \<longleftrightarrow> (\<forall>r \<in> set rs. isWriteOperationDisabled opt [r] = Inr ())"
  by (auto simp: isWriteOperationDisabled_def check_all_iff res_simps)

lemma batch_decided_iff:
  "batch \<noteq> [] \<Longrightarrow> batch_decided cl fetch user batch as \<longleftrightarrow>
     AuthBatchOptions_Validate user batch = Inr () \<and> list_all2 (entry_decided cl fetch) batch as"
proof -
  have "batch_decided cl fetch user batch as \<longleftrightarrow> (batch \<noteq> [] \<longrightarrow> user \<noteq> [])
      \<and> (\<forall>b \<in> set batch. ab_Action b \<noteq> []) \<and> list_all2 (entry_decided cl fetch) batch as"
    by (induction batch arbitrary: as) (auto simp: batch_decided_def list_all2_Cons1)
  then show "batch \<noteq> [] \<Longrightarrow> ?thesis" by (auto simp: AuthBatchOptions_Validate_def)
qed

lemma AuthorizeBatch_decided:
  assumes cl: "policy_of_action cl" and auth: "\<And>batch. authorizeBatch cl fetch True user batch (auth batch)"
  shows "Auth_AuthorizeBatch auth opt rs = Inr ds \<longleftrightarrow>
    (\<forall>r \<in> set rs. isWriteOperationDisabled opt [r] = (Inr () :: batch_failure auth_failure + unit))
      \<and> list_all2 (request_decided cl fetch user) rs ds"
proof (cases "rs = []")
  case False
  show ?thesis
  proof (cases "parseAttributesToBatchOptions rs")
    case (Inl e)
    then show ?thesis using False parse_error [OF Inl] by (simp add: Auth_AuthorizeBatch_def res_simps)
  next
    case (Inr p)
    then obtain batch bs where p: "parseAttributesToBatchOptions rs = Inr (batch, bs)" by (cases p) auto
    have "(if batch = [] then Inr bs else rbind (wrap_err AuthFailed (auth batch)) (\<lambda>as. Inr (merge_decisions bs as))) = Inr ds
        \<longleftrightarrow> (\<exists>as. batch_decided cl fetch user batch as \<and> ds = merge_decisions bs as)"
    proof (cases "batch = []")
      case True
      then show ?thesis by (auto simp: batch_decided_def)
    next
      case ne: False
      show ?thesis
        using authorizeBatch_decides [OF cl auth] ne by (auto simp: res_simps batch_decided_iff [OF ne])
    qed
    then show ?thesis
      using False p parse_decided [OF p] write_check_each [of opt rs]
      by (auto simp: Auth_AuthorizeBatch_def res_simps)
  qed
qed (auto simp: Auth_AuthorizeBatch_def)

text \<open>
  C10: Requests that are authorised together are decided as each of them is on its own: a batch of
  requests succeeds with some decisions exactly when there is one for each request and every request
  alone succeeds with its own. This holds for every answer the concurrent calculation can give, in the
  batch and alone, provided that the policy the permission centre has for an action does not depend on
  the resources that are sent along.
\<close>

theorem batch_decides_each:
  assumes "policy_of_action cl"
    and "\<And>batch. authorizeBatch cl fetch True user batch (auth batch)"
    and "\<And>batch. authorizeBatch cl fetch True user batch (alone batch)"
  shows "Auth_AuthorizeBatch auth opt resources = Inr ds \<longleftrightarrow> length ds = length resources
    \<and> (\<forall>i < length resources. Auth_AuthorizeBatch alone opt [resources ! i] = Inr [ds ! i])"
  using AuthorizeBatch_decided [OF assms(1,2)] AuthorizeBatch_decided [OF assms(1,3)]
  by (auto simp: list_all2_conv_all_nth all_set_conv_all_nth)

definition requests_ex :: "meta_resource list" where
  "requests_ex =
    [\<lparr>mr_Type = ''app'', mr_Action = ''update'', mr_ResourceID = 7, mr_BizID = 2\<rparr>,
     \<lparr>mr_Type = ''release'', mr_Action = ''create'', mr_ResourceID = 1, mr_BizID = 2\<rparr>,
     \<lparr>mr_Type = ''app'', mr_Action = ''publish'', mr_ResourceID = 7, mr_BizID = 2\<rparr>]"

definition client_ex :: policy_client where
  "client_ex a xs = Some (if a = ''release_publish''
     then Some (Policy ''any'' (FieldValue \<lparr>Resource = [], Attribute = []\<rparr> (VString []))) else None)"

definition auth_ex :: "auth_batch list \<Rightarrow> batch_failure + bool list" where
  "auth_ex = sequential client_ex (\<lambda>_. None) True ''u''"

definition option_ex :: disable_option where
  "option_ex = \<lparr>do_IsDisabled = False, do_IsAll = False, do_BizIDs = {}\<rparr>"

theorem batch_decides_each_witness:
  "Auth_AuthorizeBatch auth_ex option_ex requests_ex = Inr [False, True, True]
    \<and> Auth_AuthorizeBatch auth_ex option_ex [requests_ex ! 2] = Inr [True]"
proof -
  have c: "policy_of_action client_ex" by (simp add: policy_of_action_def client_ex_def)
  have a: "authorizeBatch client_ex (\<lambda>_. None) True ''u'' batch (auth_ex batch)" for batch
    unfolding auth_ex_def by (rule authorizeBatch_sequential)
  have "Auth_AuthorizeBatch auth_ex option_ex requests_ex = Inr [False, True, True]"
    by code_simp
  then show ?thesis
    using batch_decides_each [OF c a a, of option_ex requests_ex "[False, True, True]"]
    by (auto simp: requests_ex_def dest!: spec [of _ 2])
qed

lemma id_text_inj: "id_text m = id_text n \<longleftrightarrow> m = n"
proof
  assume "id_text m = id_text n"
  then have "unat m = unat n" using itoa_nat_inj by (simp add: id_text_def)
  then show "m = n" by (simp add: word_eq_iff_unsigned [where ?'a = nat])
qed simp

lemma id_text_no_slash: "CHR ''/'' \<notin> set (id_text n)"
  using all_digits_itoa [of "unat n"] by (auto simp: id_text_def all_digits_def list_all_iff is_digit_char_def)

lemma prefix_to_slash:
  assumes "CHR ''/'' \<notin> set a" "CHR ''/'' \<notin> set b" "take (Suc (length b)) (a @ ''/'') = b @ ''/''"
  shows "a = b"
  using assms
proof (induction a arbitrary: b)
  case Nil
  then show ?case by (cases b) auto
next
  case (Cons x a)
  then show ?case by (cases b) auto
qed

lemma biz_path_prefix: "hasPrefix (biz_path m) (biz_path n) \<longleftrightarrow> m = n"
proof
  assume h: "hasPrefix (biz_path m) (biz_path n)"
  have "take (Suc (length (id_text n))) (id_text m @ ''/'') = id_text n @ ''/''"
    using h by (simp add: hasPrefix_def biz_path_def Business_def)
  then have "id_text m = id_text n" using prefix_to_slash id_text_no_slash by blast
  then show "m = n" using id_text_inj by simp
qed (simp add: hasPrefix_def)

text \<open>
  C11: A policy for the applications below a business, on the path, authorises an operation on an
  application exactly when it belongs to this business: no other business has a path that begins with
  the path of the policy.
\<close>

theorem business_scope_exact:
  assumes "AdaptAuthOptions r = Inr (action, [app_res r])"
  shows "calculatePolicy fetch [app_res r] (Some (Policy ''starts_with''
      (FieldValue \<lparr>Resource = Application, Attribute = IamPathKey\<rparr> (VString (biz_path n))))) = Inr (mr_BizID r = n)"
proof -
  have "op_match ''starts_with'' (VString (biz_path (mr_BizID r))) (VString (biz_path n)) = Inr (mr_BizID r = n)"
    by (simp add: op_match_def OpType_Operator_def factory_def Match_string(3) [simplified] biz_path_prefix match_result_def)
  then show ?thesis
    by (simp add: calculatePolicy_def authFieldValue_def rsc_map_of_def app_res_def IamPathKey_def IamIDKey_def
        getIamPath_def authWithPath_def)
qed

theorem business_scope_exact_witness:
  "calculatePolicy (\<lambda>_. None) [app_res (hd requests_ex)] (Some (Policy ''starts_with''
      (FieldValue \<lparr>Resource = Application, Attribute = IamPathKey\<rparr> (VString (biz_path 20))))) = Inr False"
proof -
  have "AdaptAuthOptions (hd requests_ex) = Inr (''app_edit'', [app_res (hd requests_ex)])"
    by (simp add: requests_ex_def AdaptAuthOptions_def genAppResource_def)
  from business_scope_exact [OF this] show ?thesis by (simp add: requests_ex_def)
qed

text \<open>
  The application for a permission asks for the action that was checked, on the resource it was
  checked on, except for the search of applications, for which no link can be made.
\<close>

theorem application_asks_for_action:
  assumes "AdaptAuthOptions r = Inr (action, rs)" "action \<noteq> ''skip''"
  shows "if mr_Type r = ''app'' \<and> mr_Action r = ''find'' then AdaptIAMApplicationOptions [r] = Inl (Some (UnsupportedAction ''find''))
    else \<exists>x rsc. AdaptIAMApplicationOptions [r] = Inr [x] \<and> rs = [rsc] \<and> aa_ID x = action
      \<and> aa_SystemID x = rs_System rsc \<and> aa_Type x = rs_Type rsc \<and> last (aa_Nodes x) = (rs_Type rsc, rs_ID rsc)"
proof -
  have a: "mr_Action r \<noteq> ''skip''" using assms by (auto simp: AdaptAuthOptions_def genSkipResource_def)
  note defs = AdaptIAMApplicationOptions_def application_of_def biz_action_def app_action_def biz_res_def app_res_def
  consider "mr_Type r = ''biz''" | "mr_Type r = ''app''" | "mr_Type r = ''credential''" | "mr_Type r = ''audit''"
    | "mr_Type r = ''process_and_config_management''"
    using assms a by (auto simp: AdaptAuthOptions_def genSkipResource_def split: if_splits)
  then show ?thesis
  proof cases
    case 1
    then show ?thesis using assms(1) a
      by (auto simp: AdaptAuthOptions_def defs genBizResource_def genBizIAMApplication_def split: if_splits)
  next
    case 2
    then show ?thesis using assms(1) a
      by (auto simp: AdaptAuthOptions_def defs genAppResource_def genAppIAMApplication_def split: if_splits)
  next
    case 3
    then show ?thesis using assms(1) a
      by (auto simp: AdaptAuthOptions_def defs genCredResource_def genCredIAMApplication_def split: if_splits)
  next
    case 4
    then show ?thesis using assms(1) a
      by (auto simp: AdaptAuthOptions_def defs genAuditResource_def genAuditIAMApplication_def split: if_splits)
  next
    case 5
    then show ?thesis using assms(1) a
      by (auto simp: AdaptAuthOptions_def skipped_types_def defs genProcConfigMgmtResource_def genProcConfigMgmtApplication_def split: if_splits)
  qed
qed

theorem application_asks_for_action_witness:
  "\<exists>x. AdaptIAMApplicationOptions [hd requests_ex] = Inr [x] \<and> aa_ID x = ''app_edit'' \<and> last (aa_Nodes x) = (''app'', ''7'')"
proof -
  let ?r = "hd requests_ex"
  have h: "AdaptAuthOptions ?r = Inr (''app_edit'', [app_res ?r])"
    by (simp add: requests_ex_def AdaptAuthOptions_def genAppResource_def)
  have "id_text 7 = ''7''" by code_simp
  then show ?thesis using application_asks_for_action [OF h] by (auto simp: requests_ex_def app_res_def Application_def)
qed

end
