(* ===== verification/ProcSync.thy ===== *)
theory ProcSync
  imports GoStrings
begin

text \<open>
  The synchronisation of the processes of a business with the configuration management database,
  \<open>internal/processor/cmdb/sync_cmdb.go\<close> on the tables of \<open>internal/dal/dao/process.go\<close> and
  \<open>process_instance.go\<close>. Identifiers and sequence numbers are natural numbers: they are only
  compared, and the sequence numbers count instances, which stay below 2 to the 32nd. The columns of
  the revision (times and users) are left out. A failing database call ends the function and rolls
  the transaction back; only the errors of the code's own checks are values here. A list of new
  processes names a process once, so that no row is changed through two pointers.
\<close>

section \<open>Tables\<close>

datatype sync_status = Sync | Synced | Deleted | Updated | Abnormal

record proc_attachment =
  pa_TenantID :: string
  pa_BizID :: nat
  pa_CcProcessID :: nat
  pa_SetID :: nat
  pa_ModuleID :: nat
  pa_ServiceInstanceID :: nat
  pa_HostID :: nat
  pa_CloudID :: nat
  pa_AgentID :: string
  pa_ProcessTemplateID :: nat
  pa_ServiceTemplateID :: nat

record proc_spec =
  ps_SetName :: string
  ps_ModuleName :: string
  ps_ServiceName :: string
  ps_Environment :: string
  ps_Alias :: string
  ps_InnerIP :: string
  ps_InnerIPV6 :: string
  ps_CcSyncStatus :: sync_status
  ps_ProcessStateSyncedAt :: "nat option"
  ps_SourceData :: string
  ps_PrevData :: string
  ps_ProcNum :: nat
  ps_FuncName :: string
  ps_NewAlias :: string
  ps_OsType :: string
  ps_AgentStatus :: string

record process =
  pr_ID :: nat
  pr_Attachment :: proc_attachment
  pr_Spec :: proc_spec

record proc_inst =
  in_ID :: nat
  in_TenantID :: string
  in_BizID :: nat
  in_ProcessID :: nat
  in_CcProcessID :: nat
  in_HostInstSeq :: nat
  in_ModuleInstSeq :: nat
  in_Status :: string
  in_ManagedStatus :: string

record proc_db =
  db_Processes :: "process list"
  db_Instances :: "proc_inst list"
  db_NextProcess :: nat
  db_NextInstance :: nat

abbreviation cc_id :: "process \<Rightarrow> nat" where "cc_id p \<equiv> pa_CcProcessID (pr_Attachment p)"
abbreviation biz_id :: "process \<Rightarrow> nat" where "biz_id p \<equiv> pa_BizID (pr_Attachment p)"
abbreviation alias_of :: "process \<Rightarrow> string" where "alias_of p \<equiv> ps_Alias (pr_Spec p)"
abbreviation sync_of :: "process \<Rightarrow> sync_status" where "sync_of p \<equiv> ps_CcSyncStatus (pr_Spec p)"

text \<open>A list of rows with an identifier, of which those with given identifiers are changed.\<close>

definition set_status :: "sync_status \<Rightarrow> process \<Rightarrow> process" where
  "set_status st p = p\<lparr>pr_Spec := (pr_Spec p)\<lparr>ps_CcSyncStatus := st\<rparr>\<rparr>"

section \<open>Queries\<close>

definition ListProcByBizIDWithTx :: "nat \<Rightarrow> proc_db \<Rightarrow> process list" where
  "ListProcByBizIDWithTx biz db = filter (\<lambda>p. biz_id p = biz) (db_Processes db)"

definition ListByModuleIDAndAliasWithTx :: "nat \<Rightarrow> nat \<Rightarrow> string \<Rightarrow> proc_db \<Rightarrow> nat list" where
  "ListByModuleIDAndAliasWithTx biz modid al db = map pr_ID (filter (\<lambda>p. biz_id p = biz
     \<and> pa_ModuleID (pr_Attachment p) = modid \<and> alias_of p = al \<and> sync_of p \<noteq> Deleted) (db_Processes db))"

definition GetByCcProcessIDAndAliasTx :: "nat \<Rightarrow> nat \<Rightarrow> string \<Rightarrow> proc_db \<Rightarrow> process option" where
  "GetByCcProcessIDAndAliasTx biz cc al db =
     find (\<lambda>p. biz_id p = biz \<and> cc_id p = cc \<and> alias_of p = al) (db_Processes db)"

definition GetProcByBizScvProc :: "nat \<Rightarrow> nat \<Rightarrow> nat \<Rightarrow> proc_db \<Rightarrow> process option" where
  "GetProcByBizScvProc biz svc cc db = find (\<lambda>p. biz_id p = biz
     \<and> pa_ServiceInstanceID (pr_Attachment p) = svc \<and> cc_id p = cc \<and> sync_of p \<noteq> Deleted) (db_Processes db)"

definition ListByProcessIDTx :: "nat \<Rightarrow> nat \<Rightarrow> proc_db \<Rightarrow> proc_inst list" where
  "ListByProcessIDTx biz pid db = filter (\<lambda>i. in_BizID i = biz \<and> in_ProcessID i = pid) (db_Instances db)"

text \<open>The maximum of no rows is NULL, which is read as 0.\<close>

definition max_of :: "nat list \<Rightarrow> nat" where
  "max_of ns = fold max ns 0"

definition GetMaxModuleInstSeqByProcessIDsWithTx :: "nat \<Rightarrow> nat list \<Rightarrow> proc_db \<Rightarrow> nat" where
  "GetMaxModuleInstSeqByProcessIDsWithTx biz pids db = max_of (map in_ModuleInstSeq
     (filter (\<lambda>i. in_BizID i = biz \<and> in_ProcessID i \<in> set pids) (db_Instances db)))"

definition GetMaxHostInstSeqTx :: "nat \<Rightarrow> nat list \<Rightarrow> proc_db \<Rightarrow> nat" where
  "GetMaxHostInstSeqTx biz pids db = max_of (map in_HostInstSeq
     (filter (\<lambda>i. in_BizID i = biz \<and> in_ProcessID i \<in> set pids) (db_Instances db)))"

text \<open>Neither running nor managed, nor in between.\<close>

definition inactive :: "proc_inst \<Rightarrow> bool" where
  "inactive i \<longleftrightarrow> in_Status i \<in> {''stopped'', []} \<and> in_ManagedStatus i \<in> {''unmanaged'', []}"

definition ListByProcessIDOrderBySeqDescTx :: "nat \<Rightarrow> nat \<Rightarrow> nat \<Rightarrow> proc_db \<Rightarrow> proc_inst list" where
  "ListByProcessIDOrderBySeqDescTx biz pid limit db =
     (if limit = 0 then []
      else take limit (sort_key (\<lambda>i. - int (in_ModuleInstSeq i))
        (filter (\<lambda>i. in_BizID i = biz \<and> in_ProcessID i = pid \<and> inactive i) (db_Instances db))))"

definition ListByProcessIDsWithTx :: "nat \<Rightarrow> nat list \<Rightarrow> proc_db \<Rightarrow> proc_inst list" where
  "ListByProcessIDsWithTx biz pids db =
     (if pids = [] then []
      else sort_key in_ProcessID (sort_key in_HostInstSeq
        (filter (\<lambda>i. in_BizID i = biz \<and> in_ProcessID i \<in> set pids) (db_Instances db))))"

definition ListDuplicateHostAliasWithTx :: "nat \<Rightarrow> proc_db \<Rightarrow> nat list" where
  "ListDuplicateHostAliasWithTx biz db =
     (let live = filter (\<lambda>p. biz_id p = biz \<and> sync_of p \<noteq> Deleted) (db_Processes db) in
      map pr_ID (filter (\<lambda>p. 1 < length (filter (\<lambda>q. pa_HostID (pr_Attachment q) = pa_HostID (pr_Attachment p)
          \<and> alias_of q = alias_of p) live)) live))"

section \<open>Changes\<close>

definition UpdateSyncStatusWithTx :: "sync_status \<Rightarrow> nat list \<Rightarrow> proc_db \<Rightarrow> proc_db" where
  "UpdateSyncStatusWithTx st ids db =
     db\<lparr>db_Processes := map (\<lambda>p. if pr_ID p \<in> set ids then set_status st p else p) (db_Processes db)\<rparr>"

definition UpdateSyncStatusAndAliasTx :: "process list \<Rightarrow> proc_db \<Rightarrow> proc_db" where
  "UpdateSyncStatusAndAliasTx data db = fold (\<lambda>v db. db\<lparr>db_Processes := map (\<lambda>p. if pr_ID p = pr_ID v
       then p\<lparr>pr_Spec := (pr_Spec p)\<lparr>ps_CcSyncStatus := Deleted, ps_NewAlias := ps_NewAlias (pr_Spec v)\<rparr>\<rparr> else p)
     (db_Processes db)\<rparr>) data db"

definition RestoreAbnormalWithTx :: "nat \<Rightarrow> nat list \<Rightarrow> proc_db \<Rightarrow> proc_db" where
  "RestoreAbnormalWithTx biz excludeIDs db =
     db\<lparr>db_Processes := map (\<lambda>p. if biz_id p = biz \<and> sync_of p = Abnormal \<and> pr_ID p \<notin> set excludeIDs
         then set_status Synced p else p) (db_Processes db)\<rparr>"

text \<open>\<open>Save\<close> writes all columns of a row, which is inserted when it is not there.\<close>

definition save_row :: "('r \<Rightarrow> nat) \<Rightarrow> 'r \<Rightarrow> 'r list \<Rightarrow> 'r list" where
  "save_row key r rows =
     (if key r \<in> key ` set rows then map (\<lambda>q. if key q = key r then r else q) rows else rows @ [r])"

definition proc_BatchUpdateWithTx :: "process list \<Rightarrow> proc_db \<Rightarrow> proc_db" where
  "proc_BatchUpdateWithTx data db = db\<lparr>db_Processes := fold (save_row pr_ID) data (db_Processes db)\<rparr>"

definition inst_BatchUpdateWithTx :: "proc_inst list \<Rightarrow> proc_db \<Rightarrow> proc_db" where
  "inst_BatchUpdateWithTx data db = db\<lparr>db_Instances := fold (save_row in_ID) data (db_Instances db)\<rparr>"

text \<open>New rows get the next identifiers; the rows with their identifiers are returned.\<close>

definition proc_BatchCreateWithTx :: "process list \<Rightarrow> proc_db \<Rightarrow> process list \<times> proc_db" where
  "proc_BatchCreateWithTx data db =
     (let rows = map (\<lambda>(k, p). p\<lparr>pr_ID := db_NextProcess db + k\<rparr>) (enumerate 0 data) in
      (rows, db\<lparr>db_Processes := db_Processes db @ rows, db_NextProcess := db_NextProcess db + length data\<rparr>))"

definition inst_BatchCreateWithTx :: "proc_inst list \<Rightarrow> proc_db \<Rightarrow> proc_inst list \<times> proc_db" where
  "inst_BatchCreateWithTx data db =
     (let rows = map (\<lambda>(k, i). i\<lparr>in_ID := db_NextInstance db + k\<rparr>) (enumerate 0 data) in
      (rows, db\<lparr>db_Instances := db_Instances db @ rows, db_NextInstance := db_NextInstance db + length data\<rparr>))"

definition BatchDeleteByIDsWithTx :: "nat list \<Rightarrow> proc_db \<Rightarrow> proc_db" where
  "BatchDeleteByIDsWithTx ids db = db\<lparr>db_Instances := filter (\<lambda>i. in_ID i \<notin> set ids) (db_Instances db)\<rparr>"

definition DeleteStoppedUnmanagedWithTx :: "nat \<Rightarrow> nat list \<Rightarrow> proc_db \<Rightarrow> proc_db" where
  "DeleteStoppedUnmanagedWithTx biz pids db = db\<lparr>db_Instances :=
     filter (\<lambda>i. \<not> (in_BizID i = biz \<and> in_ProcessID i \<in> set pids \<and> inactive i)) (db_Instances db)\<rparr>"

end
