(* ===== verification/ProcDiff.thy ===== *)
theory ProcDiff
  imports ProcSync
begin

text \<open>
  The difference between the processes of the database and those of the configuration management
  database, and its application: \<open>diffProcesses\<close>, \<open>BuildProcessChanges\<close> and \<open>SyncProcessData\<close> of
  \<open>internal/processor/cmdb/sync_cmdb.go\<close>. The decoder of the source data is the parameter \<open>unmarshal\<close>.
\<close>

section \<open>Small functions\<close>

definition mapOsType :: "string \<Rightarrow> string" where
  "mapOsType raw = (case map_of [(''1'', ''linux''), (''2'', ''win''), (''3'', ''aix'')] raw of None \<Rightarrow> [] | Some s \<Rightarrow> s)"

definition resolveOsType :: "string \<Rightarrow> string \<Rightarrow> string" where
  "resolveOsType newOsType oldOsType = (if newOsType \<noteq> [] then newOsType else oldOsType)"

definition resolveAgentStatus :: "string \<Rightarrow> string \<Rightarrow> string" where
  "resolveAgentStatus agentID status = (if agentID = [] then ''abnormal'' else status)"

datatype sync_err = BadSourceData

record process_info =
  pi_BkStartParamRegex :: string
  pi_WorkPath :: string
  pi_PidFile :: string
  pi_User :: string
  pi_ReloadCmd :: string
  pi_RestartCmd :: string
  pi_StartCmd :: string
  pi_StopCmd :: string
  pi_FaceStopCmd :: string
  pi_Timeout :: int
  pi_StartCheckSecs :: int

definition compareProcessInfo :: "(string \<Rightarrow> process_info option) \<Rightarrow> string \<Rightarrow> string \<Rightarrow> sync_err + bool" where
  "compareProcessInfo unmarshal a b = (case unmarshal a of
      None \<Rightarrow> Inl BadSourceData
    | Some oldInfo \<Rightarrow> (case unmarshal b of None \<Rightarrow> Inl BadSourceData | Some newInfo \<Rightarrow> Inr (oldInfo = newInfo)))"

section \<open>Sequence numbers of instances\<close>

text \<open>The first numbers from \<open>i\<close> to \<open>n\<close> that are not used, at most \<open>k\<close> of them.\<close>

function free_seqs :: "nat set \<Rightarrow> nat \<Rightarrow> nat \<Rightarrow> nat \<Rightarrow> nat list" where
  "free_seqs used i n k = (if i \<le> n \<and> 0 < k then
      (if i \<notin> used then i # free_seqs used (Suc i) n (k - 1) else free_seqs used (Suc i) n k)
    else [])"
  by pat_completeness auto
termination by (relation "measure (\<lambda>(_, i, n, _). Suc n - i)") auto

declare free_seqs.simps [simp del]

definition calcHostInstSeqs :: "nat list \<Rightarrow> nat \<Rightarrow> nat \<Rightarrow> nat list" where
  "calcHostInstSeqs usedSeqs maxHostInstSeq needAdd =
     (let maxUsed = fold max usedSeqs maxHostInstSeq;
          holes = free_seqs (set usedSeqs) 1 maxUsed needAdd in
      holes @ [maxUsed + 1..<maxUsed + 1 + (needAdd - length holes)])"

text \<open>The counters of one synchronisation, kept in the context.\<close>

record sync_ctx =
  cx_TenantID :: string
  cx_HostCounter :: "nat \<times> nat \<Rightarrow> nat"
  cx_ModuleCounter :: "nat \<times> string \<Rightarrow> nat"

record build_params =
  bp_BizID :: nat
  bp_HostID :: nat
  bp_ModuleID :: nat
  bp_CcProcessID :: nat
  bp_ProcNum :: nat
  bp_ExistCount :: nat
  bp_MaxModuleInstSeq :: nat
  bp_MaxHostInstSeq :: nat
  bp_Alias :: string
  bp_UsedHostInstSeqs :: "nat list"

definition buildInstances :: "sync_ctx \<Rightarrow> build_params \<Rightarrow> proc_inst list \<times> sync_ctx" where
  "buildInstances ctx params =
     (if bp_ProcNum params \<le> bp_ExistCount params then ([], ctx)
      else
        (let newCount = bp_ProcNum params - bp_ExistCount params;
             hostKey = (bp_CcProcessID params, bp_HostID params);
             modKey = (bp_ModuleID params, bp_Alias params);
             start = (if cx_ModuleCounter ctx modKey = 0 then bp_MaxModuleInstSeq params else cx_ModuleCounter ctx modKey);
             seqs = calcHostInstSeqs (bp_UsedHostInstSeqs params) (bp_MaxHostInstSeq params) newCount;
             tenant = (if cx_TenantID ctx = [] then ''default'' else cx_TenantID ctx) in
         (map (\<lambda>i. \<lparr>in_ID = 0, in_TenantID = tenant, in_BizID = bp_BizID params, in_ProcessID = 0,
                    in_CcProcessID = bp_CcProcessID params, in_HostInstSeq = seqs ! i,
                    in_ModuleInstSeq = start + i + 1, in_Status = [], in_ManagedStatus = []\<rparr>) [0..<newCount],
          ctx\<lparr>cx_ModuleCounter := (cx_ModuleCounter ctx)(modKey := start + newCount),
              cx_HostCounter := (cx_HostCounter ctx)(hostKey := last seqs)\<rparr>)))"

section \<open>Growing and shrinking\<close>

record reconcile_params =
  rp_BizID :: nat
  rp_ProcessID :: nat
  rp_HostID :: nat
  rp_ModuleID :: nat
  rp_CcProcessID :: nat
  rp_Alias :: string
  rp_OldNum :: nat
  rp_NewNum :: nat

record reconcile_result =
  rr_ToAdd :: "proc_inst list"
  rr_ToDelete :: "nat list"

definition max_module_seq :: "proc_db \<Rightarrow> nat \<Rightarrow> nat \<Rightarrow> string \<Rightarrow> nat" where
  "max_module_seq db biz modid al =
     (let sameAliasProcessIDs = ListByModuleIDAndAliasWithTx biz modid al db in
      if sameAliasProcessIDs \<noteq> [] then GetMaxModuleInstSeqByProcessIDsWithTx biz sameAliasProcessIDs db else 0)"

definition reconcileProcessInstances :: "proc_db \<Rightarrow> sync_ctx \<Rightarrow> reconcile_params \<Rightarrow> reconcile_result \<times> sync_ctx" where
  "reconcileProcessInstances db ctx params =
     (if rp_NewNum params = rp_OldNum params then (\<lparr>rr_ToAdd = [], rr_ToDelete = []\<rparr>, ctx)
      else if rp_NewNum params < rp_OldNum params then
        (\<lparr>rr_ToAdd = [], rr_ToDelete = map in_ID (ListByProcessIDOrderBySeqDescTx (rp_BizID params)
             (rp_ProcessID params) (rp_OldNum params - rp_NewNum params) db)\<rparr>, ctx)
      else
        (let maxHostSeq = GetMaxHostInstSeqTx (rp_BizID params) [rp_ProcessID params] db;
             existInsts = ListByProcessIDTx (rp_BizID params) (rp_ProcessID params) db;
             (insts, ctx') = buildInstances ctx
               \<lparr>bp_BizID = rp_BizID params, bp_HostID = rp_HostID params, bp_ModuleID = rp_ModuleID params,
                bp_CcProcessID = rp_CcProcessID params, bp_ProcNum = rp_NewNum params, bp_ExistCount = rp_OldNum params,
                bp_MaxModuleInstSeq = max_module_seq db (rp_BizID params) (rp_ModuleID params) (rp_Alias params),
                bp_MaxHostInstSeq = maxHostSeq, bp_Alias = rp_Alias params,
                bp_UsedHostInstSeqs = map in_HostInstSeq existInsts\<rparr> in
         (\<lparr>rr_ToAdd = insts, rr_ToDelete = []\<rparr>, ctx')))"

definition isSafeToUpdateProcess :: "proc_db \<Rightarrow> nat \<Rightarrow> nat \<Rightarrow> bool" where
  "isSafeToUpdateProcess db biz pid = list_all inactive (ListByProcessIDTx biz pid db)"

section \<open>The changes for one process\<close>

record process_changes =
  ch_ToAddProcess :: "process option"
  ch_ToUpdateProcess :: "process option"
  ch_ToDeleteProcess :: "process option"
  ch_ToAddInstances :: "proc_inst list"
  ch_ToDeleteInstanceIDs :: "nat list"
  ch_ModuleToReorder :: "(nat \<times> string) option"

definition no_changes :: process_changes where
  "no_changes = \<lparr>ch_ToAddProcess = None, ch_ToUpdateProcess = None, ch_ToDeleteProcess = None,
     ch_ToAddInstances = [], ch_ToDeleteInstanceIDs = [], ch_ModuleToReorder = None\<rparr>"

definition reorder_key :: "reconcile_result \<Rightarrow> nat \<Rightarrow> string \<Rightarrow> (nat \<times> string) option" where
  "reorder_key res modid al = (if rr_ToAdd res \<noteq> [] \<or> rr_ToDelete res \<noteq> [] then Some (modid, al) else None)"

text \<open>The fields that are taken over from the new process whatever happens next.\<close>

definition take_over :: "process \<Rightarrow> process \<Rightarrow> process" where
  "take_over newP oldP = oldP
     \<lparr>pr_Attachment := (pr_Attachment oldP)\<lparr>pa_AgentID := pa_AgentID (pr_Attachment newP)\<rparr>,
      pr_Spec := (pr_Spec oldP)
        \<lparr>ps_OsType := (if ps_OsType (pr_Spec newP) \<noteq> [] then ps_OsType (pr_Spec newP) else ps_OsType (pr_Spec oldP)),
         ps_ServiceName := ps_ServiceName (pr_Spec newP), ps_Environment := ps_Environment (pr_Spec newP),
         ps_AgentStatus := (if ps_AgentStatus (pr_Spec newP) \<noteq> [] then ps_AgentStatus (pr_Spec newP)
           else ps_AgentStatus (pr_Spec oldP))\<rparr>\<rparr>"

text \<open>A row with the new alias is there: it takes the place of the old one, which is deleted.\<close>

definition reuse_process :: "proc_db \<Rightarrow> sync_ctx \<Rightarrow> process \<Rightarrow> process \<Rightarrow> process \<Rightarrow> process_changes \<times> sync_ctx" where
  "reuse_process db ctx newP oldP r =
     (let r' = r\<lparr>pr_Spec := (pr_Spec r)
           \<lparr>ps_NewAlias := [], ps_PrevData := ps_SourceData (pr_Spec oldP), ps_SourceData := ps_SourceData (pr_Spec newP),
            ps_CcSyncStatus := Synced, ps_ProcNum := ps_ProcNum (pr_Spec newP),
            ps_OsType := resolveOsType (ps_OsType (pr_Spec newP)) (ps_OsType (pr_Spec oldP)),
            ps_AgentStatus := (if ps_AgentStatus (pr_Spec newP) \<noteq> [] then ps_AgentStatus (pr_Spec newP)
              else ps_AgentStatus (pr_Spec r)),
            ps_ServiceName := ps_ServiceName (pr_Spec newP), ps_Environment := ps_Environment (pr_Spec newP)\<rparr>,
          pr_Attachment := pr_Attachment newP\<rparr>;
          existingInsts = ListByProcessIDTx (biz_id r') (pr_ID r') db;
          (res, ctx') = reconcileProcessInstances db ctx
            \<lparr>rp_BizID = biz_id r', rp_ProcessID = pr_ID r', rp_HostID = pa_HostID (pr_Attachment r'),
             rp_ModuleID = pa_ModuleID (pr_Attachment r'), rp_CcProcessID = cc_id r', rp_Alias = alias_of newP,
             rp_OldNum = length existingInsts, rp_NewNum = ps_ProcNum (pr_Spec newP)\<rparr> in
      (no_changes\<lparr>ch_ToUpdateProcess := Some r', ch_ToDeleteProcess := Some oldP,
         ch_ToAddInstances := rr_ToAdd res, ch_ToDeleteInstanceIDs := rr_ToDelete res,
         ch_ModuleToReorder := reorder_key res (pa_ModuleID (pr_Attachment r')) (alias_of newP)\<rparr>, ctx'))"

text \<open>The old process still runs: a new row is added and the old one is deleted.\<close>

definition recreate_process :: "proc_db \<Rightarrow> sync_ctx \<Rightarrow> process \<Rightarrow> process \<Rightarrow> process_changes \<times> sync_ctx" where
  "recreate_process db ctx newP oldP =
     (let toAdd = \<lparr>pr_ID = 0, pr_Attachment = pr_Attachment newP, pr_Spec = (pr_Spec newP)
           \<lparr>ps_PrevData := ps_SourceData (pr_Spec oldP), ps_CcSyncStatus := Synced,
            ps_OsType := resolveOsType (ps_OsType (pr_Spec newP)) (ps_OsType (pr_Spec oldP))\<rparr>\<rparr>;
          (insts, ctx') = buildInstances ctx
            \<lparr>bp_BizID = biz_id toAdd, bp_HostID = pa_HostID (pr_Attachment toAdd), bp_ModuleID = pa_ModuleID (pr_Attachment toAdd),
             bp_CcProcessID = cc_id toAdd, bp_ProcNum = ps_ProcNum (pr_Spec newP), bp_ExistCount = 0,
             bp_MaxModuleInstSeq = max_module_seq db (biz_id toAdd) (pa_ModuleID (pr_Attachment toAdd)) (alias_of newP),
             bp_MaxHostInstSeq = 0, bp_Alias = alias_of newP, bp_UsedHostInstSeqs = []\<rparr> in
      (no_changes\<lparr>ch_ToAddProcess := Some toAdd, ch_ToDeleteProcess := Some oldP, ch_ToAddInstances := insts\<rparr>, ctx'))"

text \<open>The old row is kept and updated.\<close>

definition update_in_place ::
  "proc_db \<Rightarrow> sync_ctx \<Rightarrow> process \<Rightarrow> process \<Rightarrow> bool \<Rightarrow> bool \<Rightarrow> process_changes \<times> sync_ctx" where
  "update_in_place db ctx newP oldP infoChanged safe =
     (let oldP1 = (if infoChanged then oldP\<lparr>pr_Spec := (pr_Spec oldP)
            \<lparr>ps_PrevData := ps_SourceData (pr_Spec oldP), ps_SourceData := ps_SourceData (pr_Spec newP),
             ps_CcSyncStatus := (if safe then Synced else Updated)\<rparr>\<rparr> else oldP);
          oldP2 = oldP1\<lparr>pr_Spec := (pr_Spec oldP1)\<lparr>ps_ProcNum := ps_ProcNum (pr_Spec newP)\<rparr>\<rparr> in
      if ps_ProcNum (pr_Spec newP) \<noteq> ps_ProcNum (pr_Spec oldP) then
        (let allInsts = ListByProcessIDTx (biz_id oldP) (pr_ID oldP) db;
             (res, ctx') = reconcileProcessInstances db ctx
               \<lparr>rp_BizID = biz_id oldP, rp_ProcessID = pr_ID oldP, rp_HostID = pa_HostID (pr_Attachment oldP),
                rp_ModuleID = pa_ModuleID (pr_Attachment oldP), rp_CcProcessID = cc_id oldP, rp_Alias = alias_of oldP,
                rp_OldNum = length allInsts, rp_NewNum = ps_ProcNum (pr_Spec newP)\<rparr> in
         (no_changes\<lparr>ch_ToUpdateProcess := Some oldP2, ch_ToAddInstances := rr_ToAdd res,
            ch_ToDeleteInstanceIDs := rr_ToDelete res,
            ch_ModuleToReorder := reorder_key res (pa_ModuleID (pr_Attachment oldP)) (alias_of oldP)\<rparr>, ctx'))
      else (no_changes\<lparr>ch_ToUpdateProcess := Some oldP1\<rparr>, ctx))"

definition changed :: "process \<Rightarrow> process \<Rightarrow> bool" where
  "changed newP oldP \<longleftrightarrow>
     ps_Alias (pr_Spec newP) \<noteq> ps_Alias (pr_Spec oldP)
     \<or> ps_ProcNum (pr_Spec newP) \<noteq> ps_ProcNum (pr_Spec oldP)
     \<or> (ps_OsType (pr_Spec newP) \<noteq> [] \<and> ps_OsType (pr_Spec newP) \<noteq> ps_OsType (pr_Spec oldP))
     \<or> (ps_AgentStatus (pr_Spec newP) \<noteq> [] \<and> ps_AgentStatus (pr_Spec newP) \<noteq> ps_AgentStatus (pr_Spec oldP))
     \<or> pa_AgentID (pr_Attachment newP) \<noteq> pa_AgentID (pr_Attachment oldP)
     \<or> ps_ServiceName (pr_Spec newP) \<noteq> ps_ServiceName (pr_Spec oldP)
     \<or> ps_Environment (pr_Spec newP) \<noteq> ps_Environment (pr_Spec oldP)"

definition with_agent_status :: "process \<Rightarrow> process" where
  "with_agent_status p = p\<lparr>pr_Spec := (pr_Spec p)
     \<lparr>ps_AgentStatus := resolveAgentStatus (pa_AgentID (pr_Attachment p)) (ps_AgentStatus (pr_Spec p))\<rparr>\<rparr>"

definition BuildProcessChanges ::
  "(string \<Rightarrow> process_info option) \<Rightarrow> proc_db \<Rightarrow> sync_ctx \<Rightarrow> process \<Rightarrow> process \<Rightarrow> sync_err + process_changes \<times> sync_ctx" where
  "BuildProcessChanges unmarshal db ctx new oldP =
     rbind (compareProcessInfo unmarshal (ps_SourceData (pr_Spec new)) (ps_SourceData (pr_Spec oldP))) (\<lambda>same.
       (let newP = with_agent_status new in
        if same \<and> \<not> changed newP oldP then Inr (no_changes, ctx)
        else
          (let old1 = take_over newP oldP;
               safe = isSafeToUpdateProcess db (biz_id oldP) (pr_ID oldP) in
           Inr (if alias_of newP = alias_of oldP then update_in_place db ctx newP old1 (\<not> same) safe
            else
              (let old2 = old1\<lparr>pr_Spec := (pr_Spec old1)\<lparr>ps_NewAlias := alias_of newP\<rparr>\<rparr> in
               case GetByCcProcessIDAndAliasTx (biz_id oldP) (cc_id oldP) (alias_of newP) db of
                 Some r \<Rightarrow> reuse_process db ctx newP old2 r
               | None \<Rightarrow>
                   if \<not> safe then recreate_process db ctx newP old2
                   else update_in_place db ctx newP
                     (old2\<lparr>pr_Spec := (pr_Spec old2)\<lparr>ps_Alias := alias_of newP\<rparr>\<rparr>) (\<not> same) safe)))))"

section \<open>The difference of two lists of processes\<close>

record process_diff =
  df_ToAddProcesses :: "process list"
  df_ToUpdateProcesses :: "process list"
  df_ToDeleteProcesses :: "process list"
  df_ToAddInstances :: "proc_inst list"
  df_ToDeleteInstanceIDs :: "nat list"
  df_ModulesToReorder :: "(nat \<times> string) list"

definition empty_diff :: process_diff where
  "empty_diff = \<lparr>df_ToAddProcesses = [], df_ToUpdateProcesses = [], df_ToDeleteProcesses = [],
     df_ToAddInstances = [], df_ToDeleteInstanceIDs = [], df_ModulesToReorder = []\<rparr>"

definition add_changes :: "process_changes \<Rightarrow> process_diff \<Rightarrow> process_diff" where
  "add_changes ch d =
    \<lparr>df_ToAddProcesses = df_ToAddProcesses d @ List.map_filter id [ch_ToAddProcess ch],
     df_ToUpdateProcesses = df_ToUpdateProcesses d @ List.map_filter id [ch_ToUpdateProcess ch],
     df_ToDeleteProcesses = df_ToDeleteProcesses d @ List.map_filter id [ch_ToDeleteProcess ch],
     df_ToAddInstances = df_ToAddInstances d @ ch_ToAddInstances ch,
     df_ToDeleteInstanceIDs = df_ToDeleteInstanceIDs d @ ch_ToDeleteInstanceIDs ch,
     df_ModulesToReorder = (case ch_ModuleToReorder ch of None \<Rightarrow> df_ModulesToReorder d
       | Some k \<Rightarrow> if k \<in> set (df_ModulesToReorder d) then df_ModulesToReorder d else df_ModulesToReorder d @ [k])\<rparr>"

text \<open>The index of the rows of the database by the identifier: of equal ones the last row is kept.\<close>

definition index_by_cc :: "process list \<Rightarrow> nat \<Rightarrow> process option" where
  "index_by_cc ps cc = find (\<lambda>p. cc_id p = cc) (rev ps)"

definition new_changes :: "proc_db \<Rightarrow> sync_ctx \<Rightarrow> process \<Rightarrow> process_changes \<times> sync_ctx" where
  "new_changes db ctx newP =
     (let (insts, ctx') = buildInstances ctx
        \<lparr>bp_BizID = biz_id newP, bp_HostID = pa_HostID (pr_Attachment newP), bp_ModuleID = pa_ModuleID (pr_Attachment newP),
         bp_CcProcessID = cc_id newP, bp_ProcNum = ps_ProcNum (pr_Spec newP), bp_ExistCount = 0,
         bp_MaxModuleInstSeq = max_module_seq db (biz_id newP) (pa_ModuleID (pr_Attachment newP)) (alias_of newP),
         bp_MaxHostInstSeq = 0, bp_Alias = alias_of newP, bp_UsedHostInstSeqs = []\<rparr> in
      (no_changes\<lparr>ch_ToAddProcess := Some newP, ch_ToAddInstances := insts\<rparr>, ctx'))"

fun diff_loop ::
  "(string \<Rightarrow> process_info option) \<Rightarrow> proc_db \<Rightarrow> process list \<Rightarrow> process list \<Rightarrow> sync_ctx \<Rightarrow> process_diff
    \<Rightarrow> sync_err + process_diff \<times> sync_ctx" where
  "diff_loop unmarshal db dbProcesses [] ctx d = Inr (d, ctx)"
| "diff_loop unmarshal db dbProcesses (newP # rest) ctx d =
     rbind (case index_by_cc dbProcesses (cc_id newP) of
         None \<Rightarrow> Inr (new_changes db ctx newP)
       | Some oldP \<Rightarrow> BuildProcessChanges unmarshal db ctx newP oldP) (\<lambda>(ch, ctx').
       diff_loop unmarshal db dbProcesses rest ctx' (add_changes ch d))"

definition diffProcesses ::
  "(string \<Rightarrow> process_info option) \<Rightarrow> proc_db \<Rightarrow> sync_ctx \<Rightarrow> process list \<Rightarrow> process list \<Rightarrow> sync_err + process_diff" where
  "diffProcesses unmarshal db ctx dbProcesses newProcesses =
     rbind (diff_loop unmarshal db dbProcesses newProcesses ctx empty_diff) (\<lambda>(d, _).
       Inr (d\<lparr>df_ToDeleteProcesses := df_ToDeleteProcesses d @
         filter (\<lambda>p. cc_id p \<notin> cc_id ` set newProcesses) dbProcesses\<rparr>))"

section \<open>Applying the difference\<close>

definition replaceProcessAndCleanInstancesTx :: "nat \<Rightarrow> process list \<Rightarrow> proc_db \<Rightarrow> proc_db" where
  "replaceProcessAndCleanInstancesTx biz ps db =
     DeleteStoppedUnmanagedWithTx biz (map pr_ID ps) (UpdateSyncStatusAndAliasTx ps db)"

text \<open>The identifiers of the rows by tenant and process; of equal keys the last is kept.\<close>

definition fill_process_id :: "process list \<Rightarrow> proc_inst \<Rightarrow> proc_inst" where
  "fill_process_id ps i =
     (case find (\<lambda>p. pa_TenantID (pr_Attachment p) = in_TenantID i \<and> cc_id p = in_CcProcessID i) (rev ps) of
        Some p \<Rightarrow> if pr_ID p \<noteq> 0 then i\<lparr>in_ProcessID := pr_ID p\<rparr> else i
      | None \<Rightarrow> i)"

fun collect_from :: "nat \<Rightarrow> proc_inst list \<Rightarrow> proc_inst list" where
  "collect_from i [] = []"
| "collect_from i (x # xs) =
     (if in_ModuleInstSeq x \<noteq> i + 1 then x\<lparr>in_ModuleInstSeq := i + 1\<rparr> # collect_from (i + 1) xs
      else collect_from (i + 1) xs)"

definition collectSeqUpdates :: "proc_inst list \<Rightarrow> proc_inst list" where
  "collectSeqUpdates insts = collect_from 0 insts"

text \<open>The instances of a module and alias in the order in which they are numbered.\<close>

definition module_instances :: "nat \<Rightarrow> nat \<Rightarrow> string \<Rightarrow> proc_db \<Rightarrow> proc_inst list" where
  "module_instances biz modid al db =
     sort_key in_CcProcessID (sort_key in_HostInstSeq
       (ListByProcessIDsWithTx biz (ListByModuleIDAndAliasWithTx biz modid al db) db))"

definition calcModuleInstSeqUpdatesTx :: "nat \<Rightarrow> nat \<Rightarrow> string \<Rightarrow> proc_db \<Rightarrow> proc_inst list" where
  "calcModuleInstSeqUpdatesTx biz modid al db =
     (if ListByModuleIDAndAliasWithTx biz modid al db = [] then []
      else collectSeqUpdates (module_instances biz modid al db))"

definition reorder_module :: "nat \<Rightarrow> nat \<times> string \<Rightarrow> proc_db \<Rightarrow> proc_db" where
  "reorder_module biz k db = inst_BatchUpdateWithTx (calcModuleInstSeqUpdatesTx biz (fst k) (snd k) db) db"

definition apply_diff :: "nat \<Rightarrow> process_diff \<Rightarrow> proc_db \<Rightarrow> proc_db" where
  "apply_diff biz d db =
     (let db1 = BatchDeleteByIDsWithTx (df_ToDeleteInstanceIDs d) db;
          db2 = (if df_ToDeleteProcesses d = [] then db1
                 else replaceProcessAndCleanInstancesTx biz (df_ToDeleteProcesses d) db1);
          (added, db3) = proc_BatchCreateWithTx (df_ToAddProcesses d) db2;
          db4 = proc_BatchUpdateWithTx (df_ToUpdateProcesses d) db3;
          insts = map (fill_process_id (added @ df_ToUpdateProcesses d)) (df_ToAddInstances d);
          (_, db5) = inst_BatchCreateWithTx insts db4 in
      fold (reorder_module biz) (df_ModulesToReorder d) db5)"

definition SyncProcessData ::
  "(string \<Rightarrow> process_info option) \<Rightarrow> string \<Rightarrow> nat \<Rightarrow> process list \<Rightarrow> process list \<Rightarrow> proc_db \<Rightarrow> sync_err + proc_db" where
  "SyncProcessData unmarshal tenant biz oldProcesses newProcesses db =
     (if newProcesses = [] then Inr db
      else rbind (diffProcesses unmarshal db
          \<lparr>cx_TenantID = tenant, cx_HostCounter = (\<lambda>_. 0), cx_ModuleCounter = (\<lambda>_. 0)\<rparr> oldProcesses newProcesses) (\<lambda>d.
        Inr (apply_diff biz d db)))"

definition CheckAndMarkHostAliasConflicts :: "nat \<Rightarrow> proc_db \<Rightarrow> proc_db" where
  "CheckAndMarkHostAliasConflicts biz db =
     (let conflictIDs = ListDuplicateHostAliasWithTx biz db;
          db1 = (if conflictIDs = [] then db else UpdateSyncStatusWithTx Abnormal conflictIDs db) in
      RestoreAbnormalWithTx biz conflictIDs db1)"

text \<open>
  The synchronisation of a business in one transaction. \<open>tenantID\<close> is the tenant of the service and
  \<open>kitTenant\<close> that of the request.
\<close>

definition syncProcessesWithTx ::
  "(string \<Rightarrow> process_info option) \<Rightarrow> string \<Rightarrow> string \<Rightarrow> nat \<Rightarrow> process list \<Rightarrow> proc_db \<Rightarrow> sync_err + proc_db" where
  "syncProcessesWithTx unmarshal kitTenant tenantID biz newProcesses db =
     (let oldProcesses = ListProcByBizIDWithTx biz db;
          old = (if tenantID \<noteq> [] then filter (\<lambda>p. pa_TenantID (pr_Attachment p) = tenantID) oldProcesses else oldProcesses) in
      rbind (SyncProcessData unmarshal kitTenant biz old newProcesses db) (\<lambda>db'.
        Inr (CheckAndMarkHostAliasConflicts biz db')))"

text \<open>
  The two entries: \<open>fetch\<close> lists the processes of the business, all of them or those with given
  identifiers, as entities built from the answers of the configuration management database.
\<close>

definition SyncBizProcesses ::
  "(string \<Rightarrow> process_info option) \<Rightarrow> string \<Rightarrow> string \<Rightarrow> nat \<Rightarrow> process list \<Rightarrow> proc_db \<Rightarrow> sync_err + proc_db" where
  "SyncBizProcesses unmarshal kitTenant tenantID biz cmdb db =
     (if cmdb = [] then Inr db else syncProcessesWithTx unmarshal kitTenant tenantID biz cmdb db)"

definition SyncBizProcessesByIDs ::
  "(string \<Rightarrow> process_info option) \<Rightarrow> string \<Rightarrow> string \<Rightarrow> nat \<Rightarrow> process list \<Rightarrow> nat list \<Rightarrow> proc_db \<Rightarrow> sync_err + proc_db" where
  "SyncBizProcessesByIDs unmarshal kitTenant tenantID biz cmdb processIDs db =
     (let processes = filter (\<lambda>p. cc_id p \<in> set processIDs) cmdb in
      if processIDs = [] \<or> processes = [] then Inr db
      else syncProcessesWithTx unmarshal kitTenant tenantID biz processes db)"

section \<open>Pages\<close>

text \<open>
  \<open>PageFetcher\<close>: \<open>fetch start\<close> is the page of at most 500 items from \<open>start\<close> on with the number of all
  items, or an error. The loop ends when it has as many items as the last answer counts.
\<close>

partial_function (option) page_loop ::
  "(nat \<Rightarrow> 'e + 'a list \<times> nat) \<Rightarrow> nat \<Rightarrow> 'a list \<Rightarrow> ('e + 'a list) option" where
  "page_loop fetch start acc = (case fetch start of
      Inl e \<Rightarrow> Some (Inl e)
    | Inr (data, count) \<Rightarrow>
        if count \<le> length (acc @ data) then Some (Inr (acc @ data))
        else page_loop fetch (start + 500) (acc @ data))"

definition PageFetcher :: "(nat \<Rightarrow> 'e + 'a list \<times> nat) \<Rightarrow> ('e + 'a list) option" where
  "PageFetcher fetch = page_loop fetch 0 []"

text \<open>
  The modules of a set. The request has no page: \<open>SearchModule\<close> is asked the same for every page.
\<close>

definition fetchAllModules :: "(nat \<Rightarrow> 'e + 'a list \<times> nat) \<Rightarrow> nat \<Rightarrow> ('e + 'a list) option" where
  "fetchAllModules SearchModule setID = PageFetcher (\<lambda>start. SearchModule setID)"

end
