(* ===== verification/ProcStatus.thy ===== *)
theory ProcStatus
  imports ProcDiff
begin

text \<open>
  The states of the processes and of their instances: the statuses and operations of
  \<open>pkg/dal/table/process.go\<close> and \<open>process_instance.go\<close>, and \<open>pkg/protocol/core/process/convert.go\<close>,
  which decides whether an operation is allowed, aggregates the states of the instances of a process
  and offers the operations of a process and of its surplus instances. Statuses are texts, as the
  columns of a row are.
\<close>

section \<open>Operations and statuses\<close>

text \<open>An operation is a text of the request, of which the code knows eleven.\<close>

datatype operate_type =
    StartOp | StopOp | QueryStatusOp | RegisterOp | UnregisterOp | RestartOp | ReloadOp | KillOp
  | PullOp | UpdateRegisterOp | DeleteOp | OtherOp string

fun op_text :: "operate_type \<Rightarrow> string" where
  "op_text StartOp = ''start''"
| "op_text StopOp = ''stop''"
| "op_text QueryStatusOp = ''query_status''"
| "op_text RegisterOp = ''register''"
| "op_text UnregisterOp = ''unregister''"
| "op_text RestartOp = ''restart''"
| "op_text ReloadOp = ''reload''"
| "op_text KillOp = ''kill''"
| "op_text PullOp = ''pull''"
| "op_text UpdateRegisterOp = ''update_register''"
| "op_text DeleteOp = ''delete''"
| "op_text (OtherOp s) = s"

definition known_ops :: "operate_type list" where
  "known_ops = [StartOp, StopOp, QueryStatusOp, RegisterOp, UnregisterOp, RestartOp, ReloadOp, KillOp,
     PullOp, UpdateRegisterOp, DeleteOp]"

definition op_of_text :: "string \<Rightarrow> operate_type" where
  "op_of_text s = (case find (\<lambda>op. op_text op = s) known_ops of Some op \<Rightarrow> op | None \<Rightarrow> OtherOp s)"

definition ValidateOperateType :: "operate_type \<Rightarrow> bool" where
  "ValidateOperateType op = (case op of
      OtherOp _ \<Rightarrow> False
    | PullOp \<Rightarrow> False
    | _ \<Rightarrow> True)"

definition ProcessStatus_Validate :: "string \<Rightarrow> bool" where
  "ProcessStatus_Validate p \<longleftrightarrow> p \<in> {''running'', ''stopped'', ''partly_running'', ''starting'', ''restarting'',
     ''stopping'', ''reloading''}"

definition ProcessManagedStatus_Validate :: "string \<Rightarrow> bool" where
  "ProcessManagedStatus_Validate p \<longleftrightarrow> p \<in> {''starting'', ''stopping'', ''managed'', ''unmanaged'', ''partly_managed''}"

definition CCSyncStatus_Validate :: "sync_status \<Rightarrow> bool" where
  "CCSyncStatus_Validate p \<longleftrightarrow> p \<in> {Synced, Deleted, Updated, Abnormal}"

definition AgentStatus_Validate :: "string \<Rightarrow> bool" where
  "AgentStatus_Validate p \<longleftrightarrow> p \<in> {''abnormal'', ''normal''}"

definition GetProcessManagedStatusByOpType :: "operate_type \<Rightarrow> string \<Rightarrow> string" where
  "GetProcessManagedStatusByOpType op originalManagedStatus =
     (if op \<in> {RegisterOp, StartOp, RestartOp, ReloadOp} then
        (if originalManagedStatus = ''managed'' then ''managed'' else ''starting'')
      else if op = UnregisterOp then ''stopping''
      else if op \<in> {StopOp, KillOp} then
        (if originalManagedStatus = ''stopping'' then ''managed'' else ''stopping'')
      else if op = UpdateRegisterOp then ''starting''
      else [])"

definition GetProcessStatusByOpType :: "operate_type \<Rightarrow> string \<Rightarrow> bool \<Rightarrow> string" where
  "GetProcessStatusByOpType op originalStatus enableProcessRestart = (case op of
      StartOp \<Rightarrow> ''starting''
    | StopOp \<Rightarrow> ''stopping''
    | RestartOp \<Rightarrow> ''restarting''
    | ReloadOp \<Rightarrow> ''reloading''
    | KillOp \<Rightarrow> ''stopping''
    | RegisterOp \<Rightarrow> originalStatus
    | UnregisterOp \<Rightarrow> originalStatus
    | UpdateRegisterOp \<Rightarrow> (if \<not> enableProcessRestart then originalStatus else ''starting'')
    | _ \<Rightarrow> originalStatus)"

section \<open>Whether an operation is allowed\<close>

datatype disable_reason =
    DisableReasonNone | DisableReasonTaskRunning | DisableReasonCmdNotConfigured
  | DisableReasonUnknownProcessState | DisableReasonNoRegisterUpdate | DisableReasonNoNeedOperate
  | DisableReasonProcessDeleted | DisableReasonProcessAbnormal

definition hasBaseRuntimeInfo :: "process_info \<Rightarrow> bool" where
  "hasBaseRuntimeInfo info \<longleftrightarrow> pi_WorkPath info \<noteq> [] \<and> pi_PidFile info \<noteq> [] \<and> pi_User info \<noteq> []"

definition HasOperateCommand :: "operate_type \<Rightarrow> process_info \<Rightarrow> bool" where
  "HasOperateCommand op info = (case op of
      StartOp \<Rightarrow> pi_StartCmd info \<noteq> []
    | StopOp \<Rightarrow> pi_StopCmd info \<noteq> []
    | RestartOp \<Rightarrow> pi_RestartCmd info \<noteq> []
    | ReloadOp \<Rightarrow> pi_ReloadCmd info \<noteq> []
    | KillOp \<Rightarrow> pi_FaceStopCmd info \<noteq> []
    | _ \<Rightarrow> True)"

definition isProcessInProgress :: "string \<Rightarrow> bool" where
  "isProcessInProgress state \<longleftrightarrow> state \<in> {''starting'', ''stopping'', ''reloading'', ''restarting''}"

definition isManagedInProgress :: "string \<Rightarrow> bool" where
  "isManagedInProgress state \<longleftrightarrow> state \<in> {''starting'', ''stopping''}"

definition operateNeedCommand :: "operate_type \<Rightarrow> bool" where
  "operateNeedCommand op \<longleftrightarrow> op \<in> {StartOp, StopOp, KillOp, RestartOp, ReloadOp}"

type_synonym decision = "bool \<times> string \<times> disable_reason"

definition allow :: decision where "allow = (True, [], DisableReasonNone)"

definition CanProcessOperate :: "operate_type \<Rightarrow> process_info \<Rightarrow> string \<Rightarrow> string \<Rightarrow> sync_status \<Rightarrow> decision" where
  "CanProcessOperate op info processState managedState syncStatus =
     (let isRunning = (processState = ''running'');
          isStopped = (processState = ''stopped'');
          isPartlyRunning = (processState = ''partly_running'');
          isManaged = (managedState = ''managed'');
          isUnmanaged = (managedState = ''unmanaged'');
          isPartlyManaged = (managedState = ''partly_managed'')
      in
      if processState = [] \<or> managedState = [] then
        (False, ''original process status or managed status is empty, cannot operate'', DisableReasonUnknownProcessState)
      else if \<not> hasBaseRuntimeInfo info then
        (False, ''workPath, PidFile, and User cannot be empty, cannot operate'', DisableReasonCmdNotConfigured)
      else if isProcessInProgress processState \<or> isManagedInProgress managedState then
        (False, ''process is in intermediate state, cannot operate'', DisableReasonTaskRunning)
      else if operateNeedCommand op \<and> \<not> HasOperateCommand op info then
        (False, ''the '' @ op_text op @ '' command does not exist'', DisableReasonCmdNotConfigured)
      else if syncStatus = Deleted then
        (if op \<in> {StopOp, KillOp} then
           (if isRunning \<or> isPartlyRunning then allow
            else (False, ''process is already stopped, no need to stop'', DisableReasonNoNeedOperate))
         else if op = UnregisterOp then
           (if isManaged \<or> isPartlyManaged then allow
            else (False, ''process is already unregistered, no need to unregister'', DisableReasonNoNeedOperate))
         else (False, ''process is deleted, cannot operate'', DisableReasonProcessDeleted))
      else if syncStatus = Abnormal then
        (if op \<in> {StopOp, KillOp} then
           (if isRunning \<or> isPartlyRunning then allow
            else (False, ''process is already stopped, no need to stop'', DisableReasonNoNeedOperate))
         else if op = UnregisterOp then
           (if isManaged \<or> isPartlyManaged then allow
            else (False, ''process is already unmanaged, no need to unregister'', DisableReasonNoNeedOperate))
         else (False, ''process is abnormal, only stop or unregister is allowed'', DisableReasonProcessAbnormal))
      else if syncStatus = Updated then
        (if op = UpdateRegisterOp \<or> op = PullOp then allow
         else (False, ''process has updated register info, only update register or pull operation is allowed'',
               DisableReasonNoRegisterUpdate))
      else (case op of
          RegisterOp \<Rightarrow> (if isUnmanaged \<or> isPartlyManaged then allow
            else (False, ''process is already managed, no need to register'', DisableReasonNoNeedOperate))
        | UnregisterOp \<Rightarrow> (if isManaged \<or> isPartlyManaged then allow
            else (False, ''process is already unmanaged, no need to unregister'', DisableReasonNoNeedOperate))
        | StartOp \<Rightarrow> (if isStopped \<or> isPartlyRunning then allow
            else (False, ''process is already started, no need to start'', DisableReasonNoNeedOperate))
        | RestartOp \<Rightarrow> allow
        | ReloadOp \<Rightarrow> allow
        | StopOp \<Rightarrow> (if isRunning \<or> isPartlyRunning then allow
            else (False, ''process is already stopped, no need to stop or kill'', DisableReasonNoNeedOperate))
        | KillOp \<Rightarrow> (if isRunning \<or> isPartlyRunning then allow
            else (False, ''process is already stopped, no need to stop or kill'', DisableReasonNoNeedOperate))
        | PullOp \<Rightarrow> allow
        | UpdateRegisterOp \<Rightarrow> (if syncStatus = Updated then allow
            else (False, ''process is not updated, cannot update register info'', DisableReasonNoNeedOperate))
        | _ \<Rightarrow> (False, ''process cannot operate'', DisableReasonUnknownProcessState)))"

section \<open>The process of many instances\<close>

record agg_state =
  ag_procStatus :: string
  ag_managedStatus :: string
  ag_hasUnknown :: bool

text \<open>The set of a Go map, of which only its size and its only element are used.\<close>

definition deriveUnifiedOrPartly :: "string list \<Rightarrow> bool \<Rightarrow> string \<Rightarrow> string" where
  "deriveUnifiedOrPartly st hasUnknown partlyStatus =
     (if hasUnknown then [] else case remdups st of [k] \<Rightarrow> k | _ \<Rightarrow> partlyStatus)"

definition aggregateInstanceState :: "proc_inst list \<Rightarrow> agg_state" where
  "aggregateInstanceState insts =
     (if insts = [] then \<lparr>ag_procStatus = [], ag_managedStatus = [], ag_hasUnknown = True\<rparr>
      else
        let procSet = filter (\<lambda>s. s \<noteq> []) (map in_Status insts);
            managedSet = filter (\<lambda>s. s \<noteq> []) (map in_ManagedStatus insts);
            unknown = list_ex (\<lambda>i. in_Status i = [] \<or> in_ManagedStatus i = []) insts
        in \<lparr>ag_procStatus = deriveUnifiedOrPartly procSet unknown ''partly_running'',
            ag_managedStatus = deriveUnifiedOrPartly managedSet unknown ''partly_managed'',
            ag_hasUnknown = unknown\<rparr>)"

record action_availability =
  aa_Enabled :: bool
  aa_Reason :: disable_reason

definition process_ops :: "operate_type list" where
  "process_ops = [RegisterOp, UnregisterOp, StartOp, StopOp, RestartOp, ReloadOp, KillOp, PullOp, UpdateRegisterOp]"

definition buildProcessActions ::
  "string \<Rightarrow> string \<Rightarrow> sync_status \<Rightarrow> process_info \<Rightarrow> bool \<Rightarrow> (operate_type \<times> action_availability) list" where
  "buildProcessActions processState managedState syncStatus info hasUnknownInstance =
     map (\<lambda>op. (op,
        (case CanProcessOperate op info processState managedState syncStatus of (allowed, _, reason) \<Rightarrow>
           if hasUnknownInstance then \<lparr>aa_Enabled = False, aa_Reason = DisableReasonUnknownProcessState\<rparr>
           else \<lparr>aa_Enabled = allowed, aa_Reason = reason\<rparr>))) process_ops"

definition buildInstanceActions :: "process_info \<Rightarrow> string \<Rightarrow> string \<Rightarrow> sync_status \<Rightarrow> (string \<times> bool) list" where
  "buildInstanceActions info instStatus instManagedStatus syncStatus =
     [(''stop'', fst (CanProcessOperate StopOp info instStatus instManagedStatus syncStatus)),
      (''unregister'', fst (CanProcessOperate UnregisterOp info instStatus instManagedStatus syncStatus))]"

text \<open>The instances as they are shown, with the actions offered for each.\<close>

record pb_inst =
  pb_Inst :: proc_inst
  pb_Actions :: "(string \<times> bool) list"

definition buildProcessInstanceActions :: "process \<Rightarrow> pb_inst list \<Rightarrow> process_info \<Rightarrow> pb_inst list" where
  "buildProcessInstanceActions proc insts info =
     (if length insts \<le> ps_ProcNum (pr_Spec proc) then insts
      else take (ps_ProcNum (pr_Spec proc)) insts
        @ map (\<lambda>p. let s = in_Status (pb_Inst p); m = in_ManagedStatus (pb_Inst p) in
             if s = [] \<or> m = [] \<or> isProcessInProgress s \<or> isManagedInProgress m then p
             else p\<lparr>pb_Actions := buildInstanceActions info s m (sync_of proc)\<rparr>)
            (drop (ps_ProcNum (pr_Spec proc)) insts))"

definition PbProcInsts :: "proc_inst list \<Rightarrow> pb_inst list" where
  "PbProcInsts insts = map (\<lambda>i. \<lparr>pb_Inst = i, pb_Actions = []\<rparr>) insts"

record pb_process =
  pb_Process :: process
  pb_Status :: string
  pb_ManagedStatus :: string
  pb_ProcActions :: "(operate_type \<times> action_availability) list"
  pb_ProcInst :: "pb_inst list"

text \<open>A process with source data that does not decode is left out.\<close>

definition PbProcessesWithInstances ::
  "(string \<Rightarrow> process_info option) \<Rightarrow> process list \<Rightarrow> (nat \<Rightarrow> proc_inst list) \<Rightarrow> pb_process list" where
  "PbProcessesWithInstances unmarshal procs procInstMap =
     concat (map (\<lambda>p. case unmarshal (ps_SourceData (pr_Spec p)) of
         None \<Rightarrow> []
       | Some info \<Rightarrow>
           (let insts = procInstMap (pr_ID p); agg = aggregateInstanceState insts in
            [\<lparr>pb_Process = p, pb_Status = ag_procStatus agg, pb_ManagedStatus = ag_managedStatus agg,
              pb_ProcActions = buildProcessActions (ag_procStatus agg) (ag_managedStatus agg) (sync_of p) info
                (ag_hasUnknown agg),
              pb_ProcInst = buildProcessInstanceActions p (PbProcInsts insts) info\<rparr>])) procs)"

end
