(* ===== verification/GseProc.thy ===== *)
theory GseProc
  imports ProcStatus
begin

text \<open>
  The requests to the agent service: \<open>internal/components/gse/type.go\<close>, the building of a process
  operation in \<open>internal/processor/gse/gse.go\<close>, and the polling for its result in
  \<open>internal/task/executor/common/common.go\<close>. The renderer of templates, the service itself and the
  decoder of the contents of a result are parameters.
\<close>

section \<open>Types of the service\<close>

datatype op_type =
    OpTypeStart | OpTypeStop | OpTypeQuery | OpTypeRegister | OpTypeUnregister | OpTypeRestart
  | OpTypeReload | OpTypeKill

definition ErrCodeSuccess :: int where "ErrCodeSuccess = 0"
definition ErrCodeInProgress :: int where "ErrCodeInProgress = 115"
definition ErrCodeAlreadyRunning :: int where "ErrCodeAlreadyRunning = 828"
definition ErrCodeNoNeedStop :: int where "ErrCodeNoNeedStop = 829"
definition ErrCodeStopping :: int where "ErrCodeStopping = 1015012"

definition BuildNamespace :: "nat \<Rightarrow> string" where
  "BuildNamespace bizID = ''GSEKIT_BIZ_'' @ itoa_nat bizID"

definition BuildProcessName :: "string \<Rightarrow> nat \<Rightarrow> string" where
  "BuildProcessName al hostInstSeq = al @ ''_'' @ itoa_nat hostInstSeq"

definition BuildResultKey :: "string \<Rightarrow> nat \<Rightarrow> string \<Rightarrow> nat \<Rightarrow> string" where
  "BuildResultKey agentID bizID al hostInstSeq =
     agentID @ '':'' @ BuildNamespace bizID @ '':'' @ BuildProcessName al hostInstSeq"

text \<open>What can go wrong in a step of a task.\<close>

datatype task_err =
    UnsupportedOperation string | MissingParam string | RenderFailed string | BadConfigData
  | SubmitFailed string | ResultFailed string | ResultMissing | WaitTimedOut | GseFailed int
  | NotInGse | CannotOperate string | NotInCMDB | CmdbFailed string | ConfigMismatch | OperationInvalid string
  | ProcessNotFound | InstanceNotFound | NoPayload | CommandMissing string
  | RegisterStepFailed task_err | StepFailed operate_type task_err

definition ConvertProcessOperateTypeToOpType :: "operate_type \<Rightarrow> task_err + op_type" where
  "ConvertProcessOperateTypeToOpType op = (case op of
      StartOp \<Rightarrow> Inr OpTypeStart
    | StopOp \<Rightarrow> Inr OpTypeStop
    | QueryStatusOp \<Rightarrow> Inr OpTypeQuery
    | RegisterOp \<Rightarrow> Inr OpTypeRegister
    | UnregisterOp \<Rightarrow> Inr OpTypeUnregister
    | RestartOp \<Rightarrow> Inr OpTypeRestart
    | ReloadOp \<Rightarrow> Inr OpTypeReload
    | KillOp \<Rightarrow> Inr OpTypeKill
    | _ \<Rightarrow> Inl (UnsupportedOperation (op_text op)))"

definition IsSuccess :: "int \<Rightarrow> bool" where "IsSuccess errorCode \<longleftrightarrow> errorCode = ErrCodeSuccess"
definition IsInProgress :: "int \<Rightarrow> bool" where "IsInProgress errorCode \<longleftrightarrow> errorCode = ErrCodeInProgress"
definition IsAlreadyRunning :: "int \<Rightarrow> bool" where "IsAlreadyRunning errorCode \<longleftrightarrow> errorCode = ErrCodeAlreadyRunning"
definition IsNoNeedStop :: "int \<Rightarrow> bool" where "IsNoNeedStop errorCode \<longleftrightarrow> errorCode = ErrCodeNoNeedStop"

record process_operate =
  po_Namespace :: string
  po_Name :: string
  po_AgentIDList :: "string list"
  po_OpType :: op_type
  po_ProcName :: string
  po_SetupPath :: string
  po_PidPath :: string
  po_User :: string
  po_StartCmd :: string
  po_StopCmd :: string
  po_RestartCmd :: string
  po_ReloadCmd :: string
  po_KillCmd :: string
  po_AutoType :: int
  po_StartCheckSecs :: int
  po_OpTimeout :: int

record proc_result =
  re_ErrorCode :: int
  re_ErrorMsg :: string
  re_Content :: string

text \<open>The decoded contents of a result: the processes with their instances, or those being stopped.\<close>

record gse_instance =
  gi_PID :: int
  gi_IsAuto :: bool

type_synonym status_content = "gse_instance list list"

section \<open>Building a request\<close>

record build_operate_params =
  bo_BizID :: nat
  bo_Alias :: string
  bo_FuncName :: string
  bo_HostInstSeq :: nat
  bo_ModuleInstSeq :: nat
  bo_SetName :: string
  bo_ModuleName :: string
  bo_AgentID :: "string list"
  bo_GseOpType :: op_type
  bo_ProcessInfo :: process_info

datatype render_value = RNum nat | RText string

definition validateBuildProcessOperateParams :: "build_operate_params \<Rightarrow> task_err + unit" where
  "validateBuildProcessOperateParams p =
     (if bo_BizID p = 0 then Inl (MissingParam ''bizID'')
      else if bo_Alias p = [] then Inl (MissingParam ''alias'')
      else if bo_HostInstSeq p = 0 then Inl (MissingParam ''hostInstSeq'')
      else if bo_ModuleInstSeq p = 0 then Inl (MissingParam ''moduleInstSeq'')
      else Inr ())"

definition buildRenderContext :: "build_operate_params \<Rightarrow> (string \<times> render_value) list" where
  "buildRenderContext p =
     (let moduleInstSeq = bo_ModuleInstSeq p; hostInstSeq = bo_HostInstSeq p in
      [(''module_inst_seq'', RNum moduleInstSeq), (''module_inst_seq_0'', RNum (moduleInstSeq - 1)),
       (''host_inst_seq'', RNum hostInstSeq), (''host_inst_seq_0'', RNum (hostInstSeq - 1)),
       (''inst_id'', RNum moduleInstSeq), (''inst_id_0'', RNum (moduleInstSeq - 1)),
       (''local_inst_id'', RNum hostInstSeq), (''local_inst_id0'', RNum (hostInstSeq - 1)),
       (''bk_set_name'', RText (bo_SetName p)), (''bk_module_name'', RText (bo_ModuleName p)),
       (''bk_process_name'', RText (bo_Alias p)),
       (''InstID'', RNum moduleInstSeq), (''InstID0'', RNum (moduleInstSeq - 1)),
       (''LocalInstID'', RNum hostInstSeq), (''LocalInstID0'', RNum (hostInstSeq - 1)),
       (''SetName'', RText (bo_SetName p)), (''ModuleName'', RText (bo_ModuleName p)),
       (''FuncID'', RText (bo_Alias p))])"

type_synonym renderer = "string \<Rightarrow> (string \<times> render_value) list \<Rightarrow> string option"

definition renderField :: "renderer \<Rightarrow> string \<Rightarrow> (string \<times> render_value) list \<Rightarrow> task_err + string" where
  "renderField render template context =
     (if template = [] then Inr []
      else case render template context of None \<Rightarrow> Inl (RenderFailed template) | Some s \<Rightarrow> Inr s)"

definition BuildProcessOperate :: "renderer \<Rightarrow> build_operate_params \<Rightarrow> task_err + process_operate" where
  "BuildProcessOperate render p =
     rbind (validateBuildProcessOperateParams p) (\<lambda>_.
     let ctx = buildRenderContext p; info = bo_ProcessInfo p in
     rbind (renderField render (pi_WorkPath info) ctx) (\<lambda>workPath.
     rbind (renderField render (pi_PidFile info) ctx) (\<lambda>pidFile.
     rbind (renderField render (pi_StartCmd info) ctx) (\<lambda>startCmd.
     rbind (renderField render (pi_StopCmd info) ctx) (\<lambda>stopCmd.
     rbind (renderField render (pi_RestartCmd info) ctx) (\<lambda>restartCmd.
     rbind (renderField render (pi_ReloadCmd info) ctx) (\<lambda>reloadCmd.
     rbind (renderField render (pi_FaceStopCmd info) ctx) (\<lambda>killCmd.
     Inr \<lparr>po_Namespace = BuildNamespace (bo_BizID p),
          po_Name = BuildProcessName (bo_Alias p) (bo_HostInstSeq p),
          po_AgentIDList = bo_AgentID p, po_OpType = bo_GseOpType p,
          po_ProcName = bo_FuncName p, po_SetupPath = workPath, po_PidPath = pidFile, po_User = pi_User info,
          po_StartCmd = startCmd, po_StopCmd = stopCmd, po_RestartCmd = restartCmd,
          po_ReloadCmd = reloadCmd, po_KillCmd = killCmd,
          po_AutoType = 1,
          po_StartCheckSecs = (if pi_StartCheckSecs info = 0 then 5 else pi_StartCheckSecs info),
          po_OpTimeout = (if pi_Timeout info = 0 then 60 else pi_Timeout info)\<rparr>))))))))"

section \<open>Waiting for the result\<close>

text \<open>
  The answer to one poll: a failed call, an answer with an error code of the service, one whose data
  does not decode, or the results by their keys.
\<close>

datatype poll_answer = PollFailed | PollCode int string | PollUndecodable | PollResult "(string \<times> proc_result) list"

text \<open>
  The loop of the task library calls the function at every interval until it returns an error. The
  answers are a stream of which a prefix is given: a loop that has not ended with it is \<open>None\<close>. A
  call that fails is tried again without a limit, only answers in progress are counted. The results
  are decoded into one map, in which those of earlier answers stay.
\<close>

fun wait_loop :: "nat \<Rightarrow> string \<Rightarrow> nat \<Rightarrow> (string \<times> proc_result) list \<Rightarrow> poll_answer list
    \<Rightarrow> (task_err + (string \<times> proc_result) list) option" where
  "wait_loop maxRetries key n acc [] = None"
| "wait_loop maxRetries key n acc (a # as) = (case a of
      PollFailed \<Rightarrow> wait_loop maxRetries key n acc as
    | PollCode c m \<Rightarrow> Some (Inl (ResultFailed m))
    | PollUndecodable \<Rightarrow> Some (Inl (ResultFailed ''decode''))
    | PollResult r \<Rightarrow> (let result = r @ acc in case map_of result key of
          None \<Rightarrow> Some (Inl ResultMissing)
        | Some v \<Rightarrow>
            if IsInProgress (re_ErrorCode v) then
              (if maxRetries \<le> Suc n then Some (Inr result) else wait_loop maxRetries key (Suc n) result as)
            else Some (Inr result)))"

text \<open>
  The agent service with its clock: submitting a request gives a task, whose polls give the answers.
  A step that waits longer than its answers last is ended by the time limit of the step.
\<close>

record gse_service =
  gs_Submit :: "process_operate \<Rightarrow> string + string"
  gs_Polls :: "string \<Rightarrow> poll_answer list"
  gs_MaxRetries :: nat
  gs_Render :: renderer
  gs_Unmarshal :: "string \<Rightarrow> process_info option"
  gs_Content :: "string \<Rightarrow> status_content option"
  gs_Stopping :: "string \<Rightarrow> bool list option"

definition WaitProcOperateTaskFinish ::
  "gse_service \<Rightarrow> string \<Rightarrow> nat \<Rightarrow> nat \<Rightarrow> string \<Rightarrow> string \<Rightarrow> task_err + (string \<times> proc_result) list" where
  "WaitProcOperateTaskFinish gs taskID bizID hostInstSeq al agentID =
     (case wait_loop (gs_MaxRetries gs) (BuildResultKey agentID bizID al hostInstSeq) 0 [] (gs_Polls gs taskID) of
        None \<Rightarrow> Inl WaitTimedOut | Some r \<Rightarrow> r)"

section \<open>The state a query returns\<close>

text \<open>\<open>parseGSEProcResult\<close> of the periodic synchronisation.\<close>

definition parseGSEProcResult :: "gse_service \<Rightarrow> proc_result \<Rightarrow> string \<times> string" where
  "parseGSEProcResult gs v =
     (if re_ErrorCode v = ErrCodeSuccess then
        (case gs_Content gs (re_Content v) of
           None \<Rightarrow> (''stopped'', ''unmanaged'')
         | Some procs \<Rightarrow> fold (\<lambda>i (status, managed).
               (if gi_PID i < 0 then ''stopped'' else if 0 < gi_PID i then ''running'' else status,
                if gi_IsAuto i then ''managed'' else managed))
             (concat procs) (''starting'', ''unmanaged''))
      else if re_ErrorCode v = ErrCodeStopping then
        (case gs_Stopping gs (re_Content v) of
           None \<Rightarrow> (''stopped'', ''unmanaged'')
         | Some autos \<Rightarrow> (''stopping'', if list_ex id autos then ''managed'' else ''unmanaged''))
      else (''stopped'', ''unmanaged''))"

text \<open>The first instance of the first process, as the steps of a task read it.\<close>

definition instance_state :: "gse_instance \<Rightarrow> string \<times> string" where
  "instance_state i = (if 0 < gi_PID i then ''running'' else ''stopped'', if gi_IsAuto i then ''managed'' else ''unmanaged'')"

end
