(* ===== verification/TaskBatch.thy ===== *)
theory TaskBatch
  imports Effects GoStrings
begin

text \<open>
  The batches of tasks: \<open>pkg/dal/table/task_batch.go\<close> and \<open>internal/dal/dao/task_batch.go\<close>. A batch
  counts the tasks that have ended, and its status is set when the last one ends. Counts are natural
  numbers; the columns are unsigned, so that a count below zero is an error of the database. The task
  data and the extra data are kept as the structures that the code encodes.
\<close>

section \<open>Tables\<close>

datatype batch_status = BatchRunning | BatchFailed | BatchSucceed | BatchPartlyFailed | BatchStatusUnset

record operate_range =
  or_SetName :: string
  or_ModuleName :: string
  or_ServiceName :: string
  or_ProcessAlias :: string
  or_ProcessID :: string

record task_data =
  td_Environment :: string
  td_OperateRange :: operate_range
  td_ConfigTemplateIDs :: "nat list"

record task_batch =
  tb_ID :: nat
  tb_BizID :: nat
  tb_TaskObject :: string
  tb_TaskAction :: string
  tb_TaskData :: task_data
  tb_Status :: batch_status
  tb_StartAt :: nat
  tb_EndAt :: "nat option"
  tb_TotalCount :: nat
  tb_CompletedCount :: nat
  tb_SuccessCount :: nat
  tb_FailedCount :: nat
  tb_RegisterSuccess :: "nat option"
  tb_Creator :: string

record batch_store =
  bs_Batches :: "task_batch list"
  bs_Next :: nat

datatype batch_err =
    TaskObjectNotSet | StatusNotSet | BizIDNotSet | IdShouldNotBeSet | CreatorNotSet | BatchNotFound
  | CountOutOfRange

definition TaskBatch_ValidateCreate :: "task_batch \<Rightarrow> batch_err + unit" where
  "TaskBatch_ValidateCreate t =
     (if 0 < tb_ID t then Inl IdShouldNotBeSet
      else if tb_TaskObject t = [] then Inl TaskObjectNotSet
      else if tb_Status t = BatchStatusUnset then Inl StatusNotSet
      else if tb_BizID t = 0 then Inl BizIDNotSet
      else if tb_Creator t = [] then Inl CreatorNotSet
      else Inr ())"

section \<open>The data access object\<close>

definition find_batch :: "nat \<Rightarrow> batch_store \<Rightarrow> task_batch option" where
  "find_batch bid bs = find (\<lambda>t. tb_ID t = bid) (bs_Batches bs)"

definition update_batch :: "nat \<Rightarrow> (task_batch \<Rightarrow> task_batch) \<Rightarrow> batch_store \<Rightarrow> batch_store" where
  "update_batch bid f bs = bs\<lparr>bs_Batches := map (\<lambda>t. if tb_ID t = bid then f t else t) (bs_Batches bs)\<rparr>"

definition TaskBatch_Create :: "task_batch \<Rightarrow> batch_store \<Rightarrow> batch_err + nat \<times> batch_store" where
  "TaskBatch_Create t bs =
     rbind (TaskBatch_ValidateCreate t) (\<lambda>_.
       Inr (bs_Next bs, \<lparr>bs_Batches = bs_Batches bs @ [t\<lparr>tb_ID := bs_Next bs\<rparr>], bs_Next = Suc (bs_Next bs)\<rparr>))"

definition TaskBatch_GetByID :: "nat \<Rightarrow> nat \<Rightarrow> batch_store \<Rightarrow> batch_err + task_batch" where
  "TaskBatch_GetByID biz bid bs =
     (case find (\<lambda>t. tb_ID t = bid \<and> tb_BizID t = biz) (bs_Batches bs) of
        None \<Rightarrow> Inl BatchNotFound | Some t \<Rightarrow> Inr t)"

definition UpdateStatus :: "nat \<Rightarrow> nat \<Rightarrow> batch_status \<Rightarrow> batch_store \<Rightarrow> batch_store" where
  "UpdateStatus now bid st = update_batch bid (\<lambda>t.
     if st \<in> {BatchSucceed, BatchFailed, BatchPartlyFailed} then t\<lparr>tb_Status := st, tb_EndAt := Some now\<rparr>
     else t\<lparr>tb_Status := st\<rparr>)"

definition UpdateExtraData :: "nat \<Rightarrow> nat option \<Rightarrow> batch_store \<Rightarrow> batch_store" where
  "UpdateExtraData bid n = update_batch bid (\<lambda>t. t\<lparr>tb_RegisterSuccess := n\<rparr>)"

definition ListExecutors :: "nat \<Rightarrow> batch_store \<Rightarrow> string list" where
  "ListExecutors biz bs = remdups (map tb_Creator (filter (\<lambda>t. tb_BizID t = biz) (bs_Batches bs)))"

text \<open>The status of a batch all of whose tasks have ended.\<close>

definition ended_status :: "task_batch \<Rightarrow> batch_status" where
  "ended_status t = (if tb_FailedCount t = 0 then BatchSucceed
     else if tb_SuccessCount t = 0 then BatchFailed else BatchPartlyFailed)"

definition all_completed :: "task_batch \<Rightarrow> bool" where
  "all_completed t \<longleftrightarrow> tb_TotalCount t \<le> tb_CompletedCount t \<and> 0 < tb_TotalCount t"

definition end_batch :: "nat \<Rightarrow> task_batch \<Rightarrow> task_batch" where
  "end_batch now t = t\<lparr>tb_Status := ended_status t, tb_EndAt := Some now\<rparr>"

text \<open>
  The transaction changes the counts, reads the row again and sets its status. An unknown batch is
  found when it is read, and the transaction is rolled back.
\<close>

definition count_batch :: "nat \<Rightarrow> nat \<Rightarrow> (task_batch \<Rightarrow> task_batch) \<Rightarrow> batch_store \<Rightarrow> batch_err + bool \<times> batch_store" where
  "count_batch now bid f bs =
     (let bs = update_batch bid f bs in
      case find_batch bid bs of
        None \<Rightarrow> Inl BatchNotFound
      | Some t \<Rightarrow> if all_completed t then Inr (True, update_batch bid (end_batch now) bs) else Inr (False, bs))"

definition IncrementCompletedCount :: "nat \<Rightarrow> nat \<Rightarrow> bool \<Rightarrow> batch_store \<Rightarrow> batch_err + bool \<times> batch_store" where
  "IncrementCompletedCount now bid isSuccess = count_batch now bid (\<lambda>t.
     if isSuccess then t\<lparr>tb_CompletedCount := tb_CompletedCount t + 1, tb_SuccessCount := tb_SuccessCount t + 1\<rparr>
     else t\<lparr>tb_CompletedCount := tb_CompletedCount t + 1, tb_FailedCount := tb_FailedCount t + 1\<rparr>)"

definition AddFailedCount :: "nat \<Rightarrow> nat \<Rightarrow> nat \<Rightarrow> batch_store \<Rightarrow> batch_err + unit \<times> batch_store" where
  "AddFailedCount now bid n bs =
     rbind (count_batch now bid (\<lambda>t.
       t\<lparr>tb_CompletedCount := tb_CompletedCount t + n, tb_FailedCount := tb_FailedCount t + n\<rparr>) bs)
       (\<lambda>(_, bs). Inr ((), bs))"

definition ResetCountsForRetry :: "nat \<Rightarrow> nat \<Rightarrow> batch_store \<Rightarrow> batch_err + batch_store" where
  "ResetCountsForRetry bid n bs =
     (if list_ex (\<lambda>t. tb_ID t = bid \<and> (tb_CompletedCount t < n \<or> tb_FailedCount t < n)) (bs_Batches bs)
      then Inl CountOutOfRange
      else Inr (update_batch bid (\<lambda>t. t\<lparr>tb_CompletedCount := tb_CompletedCount t - n,
        tb_FailedCount := tb_FailedCount t - n, tb_Status := BatchRunning, tb_EndAt := None\<rparr>) bs))"

definition HasRunningConfigPushTasks :: "nat \<Rightarrow> nat list \<Rightarrow> batch_store \<Rightarrow> bool" where
  "HasRunningConfigPushTasks biz ids bs \<longleftrightarrow> ids \<noteq> [] \<and>
     list_ex (\<lambda>t. tb_BizID t = biz \<and> tb_TaskAction t = ''config_publish'' \<and> tb_Status t = BatchRunning
       \<and> list_ex (\<lambda>i. i \<in> set ids) (td_ConfigTemplateIDs (tb_TaskData t))) (bs_Batches bs)"

record batch_filter =
  bf_TaskObjects :: "string list"
  bf_TaskActions :: "string list"
  bf_Statuses :: "batch_status list"
  bf_Executors :: "string list"
  bf_TimeRangeStart :: "nat option"
  bf_TimeRangeEnd :: "nat option"

text \<open>A batch without an end is NULL in the column, which no comparison holds for.\<close>

definition buildFilterConditions :: "batch_filter \<Rightarrow> task_batch \<Rightarrow> bool" where
  "buildFilterConditions f t \<longleftrightarrow>
     (bf_TaskObjects f = [] \<or> tb_TaskObject t \<in> set (bf_TaskObjects f))
     \<and> (bf_TaskActions f = [] \<or> tb_TaskAction t \<in> set (bf_TaskActions f))
     \<and> (bf_Statuses f = [] \<or> tb_Status t \<in> set (bf_Statuses f))
     \<and> (bf_Executors f = [] \<or> tb_Creator t \<in> set (bf_Executors f))
     \<and> (case bf_TimeRangeStart f of None \<Rightarrow> True
        | Some a \<Rightarrow> (case tb_EndAt t of None \<Rightarrow> False | Some e \<Rightarrow> a \<le> e))
     \<and> (case bf_TimeRangeEnd f of None \<Rightarrow> True | Some z \<Rightarrow> tb_StartAt t \<le> z)"

text \<open>The default order, newest first, and a page of it; the total is the number before paging.\<close>

definition TaskBatch_List :: "nat \<Rightarrow> batch_filter \<Rightarrow> nat \<Rightarrow> nat \<Rightarrow> batch_store \<Rightarrow> task_batch list \<times> nat" where
  "TaskBatch_List biz f start limit bs =
     (let rows = rev (sort_key tb_ID (filter (\<lambda>t. tb_BizID t = biz \<and> buildFilterConditions f t) (bs_Batches bs))) in
      (take limit (drop start rows), length rows))"

section \<open>What the counts mean\<close>

lemma update_batch_ids [simp]:
  assumes "\<And>t. tb_ID (f t) = tb_ID t"
  shows "map tb_ID (bs_Batches (update_batch bid f bs)) = map tb_ID (bs_Batches bs)"
  using assms by (simp add: update_batch_def)

lemma bs_Next_update [simp]: "bs_Next (update_batch bid f bs) = bs_Next bs"
  by (simp add: update_batch_def)

lemma find_map_id:
  assumes "\<And>t. tb_ID (f t) = tb_ID t"
  shows "find (\<lambda>t. tb_ID t = bid) (map (\<lambda>t. if tb_ID t = bid' then f t else t) ts)
    = map_option (\<lambda>t. if bid = bid' then f t else t) (find (\<lambda>t. tb_ID t = bid) ts)"
  by (induction ts) (auto simp: assms)

lemma find_update_batch:
  assumes "\<And>t. tb_ID (f t) = tb_ID t"
  shows "find_batch bid (update_batch bid' f bs) = map_option (\<lambda>t. if bid = bid' then f t else t) (find_batch bid bs)"
  using find_map_id [OF assms] by (simp add: find_batch_def update_batch_def)

end
