(* ===== verification/ProcTask.thy ===== *)
theory ProcTask
  imports GseProc TaskBatch
begin

text \<open>
  The tasks that operate an instance of a process: their steps as \<open>internal/task/builder/process\<close> and
  \<open>internal/task/step/process\<close> build them, and the executors of \<open>internal/task/executor/process\<close>.
  The library that runs the tasks is not part of the repository: it runs the steps in their order,
  stops at the first one that fails, and then calls the callback with that error, or with none. A
  step sees the answers of the agent service and of the configuration management database that its
  environment holds. Every task has the payload of its process, which the builder sets.
\<close>

section \<open>State and environment\<close>

record op_store =
  os_Db :: proc_db
  os_Tb :: batch_store

record op_env =
  oe_now :: nat
  oe_gse :: gse_service
  oe_cmdb :: "nat \<Rightarrow> nat \<Rightarrow> string + process_info list"
  oe_marshal :: "process_info \<Rightarrow> string"

record proc_payload =
  pp_SetName :: string
  pp_ModuleName :: string
  pp_ServiceName :: string
  pp_Environment :: string
  pp_Alias :: string
  pp_FuncName :: string
  pp_InnerIP :: string
  pp_AgentID :: string
  pp_CloudID :: nat
  pp_CcProcessID :: nat
  pp_HostInstSeq :: nat
  pp_ModuleInstSeq :: nat
  pp_ConfigData :: string

record task_payload =
  tp_Process :: proc_payload
  tp_Gse :: "(int \<times> string) option"

record operate_payload =
  op_TenantID :: string
  op_BizID :: nat
  op_BatchID :: nat
  op_OperateType :: operate_type
  op_OperateUser :: string
  op_ProcessID :: nat
  op_InstanceID :: nat
  op_NeedCompareCMDB :: bool
  op_OriginalManaged :: string
  op_OriginalStatus :: string
  op_EnableProcessRestart :: bool
  op_CCSyncStatus :: sync_status

section \<open>Rows of processes and instances\<close>

definition proc_GetByID :: "nat \<Rightarrow> nat \<Rightarrow> proc_db \<Rightarrow> task_err + process" where
  "proc_GetByID biz i db = (case find (\<lambda>p. biz_id p = biz \<and> pr_ID p = i) (db_Processes db) of
     None \<Rightarrow> Inl ProcessNotFound | Some p \<Rightarrow> Inr p)"

definition inst_GetByID :: "nat \<Rightarrow> nat \<Rightarrow> proc_db \<Rightarrow> task_err + proc_inst" where
  "inst_GetByID biz i db = (case find (\<lambda>v. in_BizID v = biz \<and> in_ID v = i) (db_Instances db) of
     None \<Rightarrow> Inl InstanceNotFound | Some v \<Rightarrow> Inr v)"

definition proc_GetByIDs :: "nat \<Rightarrow> nat list \<Rightarrow> proc_db \<Rightarrow> process list" where
  "proc_GetByIDs biz ids db = filter (\<lambda>p. pr_ID p \<in> set ids \<and> biz_id p = biz) (db_Processes db)"

definition inst_GetByIDs :: "nat \<Rightarrow> nat list \<Rightarrow> proc_db \<Rightarrow> proc_inst list" where
  "inst_GetByIDs biz ids db = filter (\<lambda>v. in_BizID v = biz \<and> in_ID v \<in> set ids) (db_Instances db)"

definition GetByProcessIDs :: "nat \<Rightarrow> nat list \<Rightarrow> proc_db \<Rightarrow> proc_inst list" where
  "GetByProcessIDs biz pids db =
     sort_key in_HostInstSeq (filter (\<lambda>v. in_BizID v = biz \<and> in_ProcessID v \<in> set pids) (db_Instances db))"

definition inst_Delete :: "nat \<Rightarrow> nat \<Rightarrow> proc_db \<Rightarrow> proc_db" where
  "inst_Delete biz i db = db\<lparr>db_Instances := filter (\<lambda>v. \<not> (in_BizID v = biz \<and> in_ID v = i)) (db_Instances db)\<rparr>"

text \<open>\<open>UpdateSelectedFields\<close> with the two statuses, on the instance of an id.\<close>

definition inst_UpdateSelectedFields :: "nat \<Rightarrow> nat \<Rightarrow> string \<Rightarrow> string \<Rightarrow> proc_db \<Rightarrow> proc_db" where
  "inst_UpdateSelectedFields biz i status managed db = db\<lparr>db_Instances :=
     map (\<lambda>v. if in_BizID v = biz \<and> in_ID v = i then v\<lparr>in_Status := status, in_ManagedStatus := managed\<rparr> else v)
       (db_Instances db)\<rparr>"

text \<open>\<open>UpdateSelectedFields\<close> of a process with a synchronisation status and its data.\<close>

definition proc_UpdateSelectedFields :: "nat \<Rightarrow> nat \<Rightarrow> sync_status \<Rightarrow> string \<Rightarrow> string \<Rightarrow> proc_db \<Rightarrow> proc_db" where
  "proc_UpdateSelectedFields biz i st prev source db = db\<lparr>db_Processes :=
     map (\<lambda>p. if biz_id p = biz \<and> pr_ID p = i
       then p\<lparr>pr_Spec := (pr_Spec p)\<lparr>ps_CcSyncStatus := st, ps_PrevData := prev, ps_SourceData := source\<rparr>\<rparr> else p)
       (db_Processes db)\<rparr>"

definition MarkProcessDeletedAndCleanInstancesTx :: "nat \<Rightarrow> nat list \<Rightarrow> proc_db \<Rightarrow> proc_db" where
  "MarkProcessDeletedAndCleanInstancesTx biz pids db =
     DeleteStoppedUnmanagedWithTx biz pids (UpdateSyncStatusWithTx Deleted pids db)"

definition ComputeModuleInstSeqUpdates :: "nat \<Rightarrow> nat \<Rightarrow> proc_db \<Rightarrow> task_err + proc_db" where
  "ComputeModuleInstSeqUpdates biz pid db =
     rbind (proc_GetByID biz pid db) (\<lambda>p.
       let updates = calcModuleInstSeqUpdatesTx biz (pa_ModuleID (pr_Attachment p)) (alias_of p) db in
       Inr (if updates = [] then db else inst_BatchUpdateWithTx updates db))"

section \<open>Building tasks\<close>

definition CommonProcessFinalize :: "nat \<Rightarrow> nat \<Rightarrow> nat \<Rightarrow> proc_db \<Rightarrow> task_err + task_payload" where
  "CommonProcessFinalize biz pid iid db =
     rbind (proc_GetByID biz pid db) (\<lambda>p. rbind (inst_GetByID biz iid db) (\<lambda>v.
       let s = pr_Spec p; a = pr_Attachment p in
       Inr \<lparr>tp_Process = \<lparr>pp_SetName = ps_SetName s, pp_ModuleName = ps_ModuleName s, pp_ServiceName = ps_ServiceName s,
              pp_Environment = ps_Environment s, pp_Alias = ps_Alias s, pp_FuncName = ps_FuncName s,
              pp_InnerIP = ps_InnerIP s, pp_AgentID = pa_AgentID a, pp_CloudID = pa_CloudID a,
              pp_CcProcessID = pa_CcProcessID a, pp_HostInstSeq = in_HostInstSeq v,
              pp_ModuleInstSeq = in_ModuleInstSeq v, pp_ConfigData = ps_SourceData s\<rparr>,
            tp_Gse = None\<rparr>))"

datatype step_name =
    ValidateOperateProcess | CompareWithCMDB | CompareWithGSEStatus | CompareWithGSEConfig
  | OperateProcessStep | FinalizeOperateProcess
  | UR_ValidateOperate | UR_RegisterProcess | UR_StopProcess | UR_StartProcess | UR_OperationCompleted

text \<open>
  The payload of a step: what all steps get, then the operation, the user and the flags that only
  some of the steps get. A field that is not set has its zero value.
\<close>

definition base_payload :: "operate_payload \<Rightarrow> operate_payload" where
  "base_payload t = t\<lparr>op_OperateType := OtherOp [], op_OperateUser := [], op_NeedCompareCMDB := False,
     op_EnableProcessRestart := False\<rparr>"

definition step_ValidateOperateProcess :: "operate_payload \<Rightarrow> step_name \<times> operate_payload" where
  "step_ValidateOperateProcess t = (ValidateOperateProcess,
     (base_payload t)\<lparr>op_OperateType := op_OperateType t, op_OperateUser := op_OperateUser t\<rparr>)"

definition step_CompareWithCMDBProcessInfo :: "operate_payload \<Rightarrow> step_name \<times> operate_payload" where
  "step_CompareWithCMDBProcessInfo t = (CompareWithCMDB, (base_payload t)\<lparr>op_NeedCompareCMDB := op_NeedCompareCMDB t\<rparr>)"

definition step_CompareWithGSEProcessStatus :: "operate_payload \<Rightarrow> step_name \<times> operate_payload" where
  "step_CompareWithGSEProcessStatus t = (CompareWithGSEStatus, (base_payload t)\<lparr>op_OperateType := op_OperateType t\<rparr>)"

definition step_CompareWithGSEProcessConfig :: "operate_payload \<Rightarrow> step_name \<times> operate_payload" where
  "step_CompareWithGSEProcessConfig t = (CompareWithGSEConfig, base_payload t)"

definition step_OperateProcess :: "operate_payload \<Rightarrow> step_name \<times> operate_payload" where
  "step_OperateProcess t = (OperateProcessStep, (base_payload t)\<lparr>op_OperateType := op_OperateType t\<rparr>)"

definition step_FinalizeOperateProcess :: "operate_payload \<Rightarrow> step_name \<times> operate_payload" where
  "step_FinalizeOperateProcess t = (FinalizeOperateProcess, (base_payload t)\<lparr>op_OperateType := op_OperateType t\<rparr>)"

definition OperateTask_Steps :: "operate_payload \<Rightarrow> (step_name \<times> operate_payload) list" where
  "OperateTask_Steps t = [step_ValidateOperateProcess t, step_CompareWithCMDBProcessInfo t,
     step_CompareWithGSEProcessStatus t, step_CompareWithGSEProcessConfig t, step_OperateProcess t,
     step_FinalizeOperateProcess t]"

definition step_UR_ValidateOperate :: "operate_payload \<Rightarrow> step_name \<times> operate_payload" where
  "step_UR_ValidateOperate t = (UR_ValidateOperate,
     (base_payload t)\<lparr>op_OperateType := op_OperateType t, op_OperateUser := op_OperateUser t,
        op_EnableProcessRestart := op_EnableProcessRestart t\<rparr>)"

definition step_UR_StopProcess :: "operate_payload \<Rightarrow> step_name \<times> operate_payload" where
  "step_UR_StopProcess t = (UR_StopProcess, base_payload t)"

definition step_UR_RegisterProcess :: "operate_payload \<Rightarrow> step_name \<times> operate_payload" where
  "step_UR_RegisterProcess t = (UR_RegisterProcess, base_payload t)"

definition step_UR_StartProcess :: "operate_payload \<Rightarrow> step_name \<times> operate_payload" where
  "step_UR_StartProcess t = (UR_StartProcess, base_payload t)"

definition step_UR_OperationCompleted :: "operate_payload \<Rightarrow> step_name \<times> operate_payload" where
  "step_UR_OperationCompleted t = (UR_OperationCompleted, base_payload t)"

definition UpdateRegisterTask_Steps :: "operate_payload \<Rightarrow> (step_name \<times> operate_payload) list" where
  "UpdateRegisterTask_Steps t = [step_UR_ValidateOperate t, step_UR_RegisterProcess t]
     @ (if op_EnableProcessRestart t then [step_UR_StopProcess t] else [])
     @ (if op_EnableProcessRestart t then [step_UR_StartProcess t] else [])
     @ [step_UR_OperationCompleted t]"

end
