(* ===== verification/ProcExec.thy ===== *)
theory ProcExec
  imports ProcTask
begin

text \<open>
  The executors of the tasks on processes: \<open>internal/task/executor/process/process.go\<close> for the
  operations and \<open>update_register.go\<close> for a change of the registered data. A step gets its payload and
  changes the payload of the task, which all steps share, and the store. The notification of users
  and the logs are left out.
\<close>

section \<open>Requests to the agent service\<close>

text \<open>The parameters of a request, and the part that all requests share: send, wait, look up.\<close>

definition operate_params :: "nat \<Rightarrow> proc_payload \<Rightarrow> op_type \<Rightarrow> process_info \<Rightarrow> build_operate_params" where
  "operate_params biz p opType info = \<lparr>bo_BizID = biz, bo_Alias = pp_Alias p, bo_FuncName = pp_FuncName p,
     bo_HostInstSeq = pp_HostInstSeq p, bo_ModuleInstSeq = pp_ModuleInstSeq p, bo_SetName = pp_SetName p,
     bo_ModuleName = pp_ModuleName p, bo_AgentID = [pp_AgentID p], bo_GseOpType = opType, bo_ProcessInfo = info\<rparr>"

definition gse_call :: "gse_service \<Rightarrow> nat \<Rightarrow> proc_payload \<Rightarrow> op_type \<Rightarrow> process_info \<Rightarrow> task_err + proc_result" where
  "gse_call gs biz p opType info =
     rbind (BuildProcessOperate (gs_Render gs) (operate_params biz p opType info)) (\<lambda>req.
     rbind (case gs_Submit gs req of Inl m \<Rightarrow> Inl (SubmitFailed m) | Inr t \<Rightarrow> Inr t) (\<lambda>taskID.
     rbind (WaitProcOperateTaskFinish gs taskID biz (pp_HostInstSeq p) (pp_Alias p) (pp_AgentID p)) (\<lambda>result.
       case map_of result (BuildResultKey (pp_AgentID p) biz (pp_Alias p) (pp_HostInstSeq p)) of
         None \<Rightarrow> Inl ResultMissing
       | Some r \<Rightarrow> Inr r)))"

definition gse_query :: "gse_service \<Rightarrow> nat \<Rightarrow> proc_payload \<Rightarrow> process_info \<Rightarrow> task_err + status_content" where
  "gse_query gs biz p info =
     rbind (gse_call gs biz p OpTypeQuery info) (\<lambda>r.
       if \<not> IsSuccess (re_ErrorCode r) then Inl (GseFailed (re_ErrorCode r))
       else case gs_Content gs (re_Content r) of None \<Rightarrow> Inl BadConfigData | Some c \<Rightarrow> Inr c)"

definition decode_info :: "op_env \<Rightarrow> string \<Rightarrow> task_err + process_info" where
  "decode_info env s = (case gs_Unmarshal (oe_gse env) s of None \<Rightarrow> Inl BadConfigData | Some i \<Rightarrow> Inr i)"

text \<open>The state that the service has, with the data of the process as it is now in its row.\<close>

definition getGSEProcessStatus :: "op_env \<Rightarrow> operate_payload \<Rightarrow> task_payload \<Rightarrow> proc_db \<Rightarrow> task_err + string \<times> string" where
  "getGSEProcessStatus env pl cp db =
     rbind (proc_GetByID (op_BizID pl) (op_ProcessID pl) db) (\<lambda>p.
     rbind (decode_info env (ps_SourceData (pr_Spec p))) (\<lambda>info.
     rbind (gse_query (oe_gse env) (op_BizID pl) (tp_Process cp) info) (\<lambda>content.
       case content of
         (i # _) # _ \<Rightarrow> Inr (instance_state i)
       | _ \<Rightarrow> Inl NotInGse)))"

section \<open>The steps of an operation\<close>

type_synonym step_result = "(task_err + unit) \<times> task_payload \<times> op_store"

definition duplicateOperateIgnoreCode :: "operate_type \<Rightarrow> int" where
  "duplicateOperateIgnoreCode op = (case op of
      StartOp \<Rightarrow> ErrCodeAlreadyRunning
    | StopOp \<Rightarrow> ErrCodeNoNeedStop
    | KillOp \<Rightarrow> ErrCodeNoNeedStop
    | _ \<Rightarrow> 0)"

definition validateOperateIgnoreErrCode :: "disable_reason \<Rightarrow> operate_type \<Rightarrow> int" where
  "validateOperateIgnoreErrCode reason op =
     (if reason \<noteq> DisableReasonNoNeedOperate then 0 else duplicateOperateIgnoreCode op)"

text \<open>A code other than 0 is kept in the payload, where queries can ignore it.\<close>

definition keep_code :: "int \<Rightarrow> string \<Rightarrow> task_payload \<Rightarrow> task_payload" where
  "keep_code code message cp = (if code \<noteq> 0 then cp\<lparr>tp_Gse := Some (code, message)\<rparr> else cp)"

definition ValidateOperate :: "op_env \<Rightarrow> operate_payload \<Rightarrow> task_payload \<Rightarrow> op_store \<Rightarrow> step_result" where
  "ValidateOperate env pl cp st =
     (case decode_info env (pp_ConfigData (tp_Process cp)) of
        Inl e \<Rightarrow> (Inl e, cp, st)
      | Inr info \<Rightarrow>
         (case CanProcessOperate (op_OperateType pl) info (op_OriginalStatus pl) (op_OriginalManaged pl) (op_CCSyncStatus pl) of
            (canOperate, message, reason) \<Rightarrow>
              if \<not> canOperate then
                (Inl (CannotOperate message),
                 keep_code (validateOperateIgnoreErrCode reason (op_OperateType pl)) message cp, st)
              else (Inr (), cp, st)))"

definition CompareWithCMDBProcessInfo :: "op_env \<Rightarrow> operate_payload \<Rightarrow> task_payload \<Rightarrow> op_store \<Rightarrow> step_result" where
  "CompareWithCMDBProcessInfo env pl cp st =
     (if \<not> op_NeedCompareCMDB pl then (Inr (), cp, st)
      else case decode_info env (pp_ConfigData (tp_Process cp)) of
        Inl e \<Rightarrow> (Inl e, cp, st)
      | Inr dbProcessInfo \<Rightarrow>
         (case oe_cmdb env (op_BizID pl) (pp_CcProcessID (tp_Process cp)) of
            Inl m \<Rightarrow> (Inl (CmdbFailed m), cp, st)
          | Inr [] \<Rightarrow> (Inl NotInCMDB, cp,
              st\<lparr>os_Db := MarkProcessDeletedAndCleanInstancesTx (op_BizID pl) [op_ProcessID pl] (os_Db st)\<rparr>)
          | Inr (latest # _) \<Rightarrow>
              if dbProcessInfo \<noteq> latest then (Inl ConfigMismatch, cp, st) else (Inr (), cp, st)))"

definition isOperationValid :: "operate_type \<Rightarrow> status_content \<Rightarrow> string \<Rightarrow> string \<Rightarrow> bool \<times> int \<times> string" where
  "isOperationValid op content originalProcStatus originalProcManagedStatus =
     (case content of
        [] \<Rightarrow> (False, 0, ''process not found in gse'')
      | [] # _ \<Rightarrow> (False, 0, ''process instance not found in gse'')
      | (i # _) # _ \<Rightarrow>
        (case instance_state i of (gseStatus, gseManagedStatus) \<Rightarrow>
          let code = (if (op = StartOp \<and> gseStatus = ''running'') \<or> (op \<in> {StopOp, KillOp} \<and> gseStatus = ''stopped'')
                      then duplicateOperateIgnoreCode op else 0) in
          if originalProcStatus \<noteq> gseStatus then 
            (False, code, ''process status is '' @ originalProcStatus @ '' in bscp, but '' @ gseStatus @ '' in gse'')
          else if originalProcManagedStatus \<noteq> gseManagedStatus then 
            (False, code, ''process managed status is '' @ originalProcManagedStatus @ '' in bscp, but '' @ gseManagedStatus @ '' in gse'')
          else if op = StartOp \<and> gseStatus = ''running'' then (False, code, ''process status is running in gse'')
          else if op \<in> {StopOp, KillOp} \<and> gseStatus = ''stopped'' then (False, code, ''process already stopped in gse'')
          else if op = RegisterOp \<and> gseManagedStatus = ''managed'' then (False, 0, ''process already managed in gse'')
          else if op = UnregisterOp \<and> gseManagedStatus = ''unmanaged'' then (False, 0, ''process already unmanaged in gse'')
          else (True, 0, [])))"

definition CompareWithGSEProcessStatus :: "op_env \<Rightarrow> operate_payload \<Rightarrow> task_payload \<Rightarrow> op_store \<Rightarrow> step_result" where
  "CompareWithGSEProcessStatus env pl cp st =
     (case rbind (decode_info env (pp_ConfigData (tp_Process cp))) (\<lambda>info.
             gse_query (oe_gse env) (op_BizID pl) (tp_Process cp) info) of
        Inl e \<Rightarrow> (Inl e, cp, st)
      | Inr content \<Rightarrow>
         (case isOperationValid (op_OperateType pl) content (op_OriginalStatus pl) (op_OriginalManaged pl) of
            (isValid, ignoreErrCode, message) \<Rightarrow>
              if \<not> isValid then (Inl (OperationInvalid message), keep_code ignoreErrCode message cp, st)
              else (Inr (), cp, st)))"

definition CompareWithGSEProcessConfig :: "op_env \<Rightarrow> operate_payload \<Rightarrow> task_payload \<Rightarrow> op_store \<Rightarrow> step_result" where
  "CompareWithGSEProcessConfig env pl cp st = (Inr (), cp, st)"

definition Operate :: "op_env \<Rightarrow> operate_payload \<Rightarrow> task_payload \<Rightarrow> op_store \<Rightarrow> step_result" where
  "Operate env pl cp st =
     (case rbind (decode_info env (pp_ConfigData (tp_Process cp))) (\<lambda>info.
           rbind (ConvertProcessOperateTypeToOpType (op_OperateType pl)) (\<lambda>gseOpType.
             gse_call (oe_gse env) (op_BizID pl) (tp_Process cp) gseOpType info)) of
        Inl e \<Rightarrow> (Inl e, cp, st)
      | Inr r \<Rightarrow>
          if \<not> IsSuccess (re_ErrorCode r) then
            (Inl (GseFailed (re_ErrorCode r)), cp\<lparr>tp_Gse := Some (re_ErrorCode r, re_ErrorMsg r)\<rparr>, st)
          else (Inr (), cp, st))"

text \<open>The state of the service is written into the row of the instance.\<close>

definition write_state :: "operate_payload \<Rightarrow> string \<times> string \<Rightarrow> op_store \<Rightarrow> op_store" where
  "write_state pl sm st =
     st\<lparr>os_Db := inst_UpdateSelectedFields (op_BizID pl) (op_InstanceID pl) (fst sm) (snd sm) (os_Db st)\<rparr>"

definition Finalize :: "op_env \<Rightarrow> operate_payload \<Rightarrow> task_payload \<Rightarrow> op_store \<Rightarrow> step_result" where
  "Finalize env pl cp st =
     (case decode_info env (pp_ConfigData (tp_Process cp)) of
        Inl e \<Rightarrow> (Inl e, cp, st)
      | Inr _ \<Rightarrow> (case getGSEProcessStatus env pl cp (os_Db st) of
          Inl e \<Rightarrow> (Inl e, cp, st)
        | Inr sm \<Rightarrow> (Inr (), cp, write_state pl sm st)))"

section \<open>The callback of an operation\<close>

definition count_task :: "op_env \<Rightarrow> operate_payload \<Rightarrow> bool \<Rightarrow> op_store \<Rightarrow> bool \<times> op_store" where
  "count_task env pl isSuccess st =
     (if 0 < op_BatchID pl then
        (case IncrementCompletedCount (oe_now env) (op_BatchID pl) isSuccess (os_Tb st) of
           Inl _ \<Rightarrow> (False, st)
         | Inr (allCompleted, tb) \<Rightarrow> (allCompleted, st\<lparr>os_Tb := tb\<rparr>))
      else (False, st))"

text \<open>After a stop or an unregistration the instance is deleted while there are more than wanted.\<close>

definition scale_down :: "operate_payload \<Rightarrow> op_store \<Rightarrow> (task_err + unit) \<times> op_store" where
  "scale_down pl st =
     (if op_OperateType pl \<in> {UnregisterOp, StopOp} then
        (case proc_GetByID (op_BizID pl) (op_ProcessID pl) (os_Db st) of
           Inl e \<Rightarrow> (Inl e, st)
         | Inr p \<Rightarrow>
             if ps_ProcNum (pr_Spec p) < length (GetByProcessIDs (op_BizID pl) [op_ProcessID pl] (os_Db st)) then
               (Inr (), st\<lparr>os_Db := inst_Delete (op_BizID pl) (op_InstanceID pl) (os_Db st)\<rparr>)
             else (Inr (), st))
      else (Inr (), st))"

text \<open>After a failure the state of the service is written, or else the state before the operation.\<close>

definition roll_back :: "op_env \<Rightarrow> operate_payload \<Rightarrow> task_payload \<Rightarrow> op_store \<Rightarrow> op_store" where
  "roll_back env pl cp st =
     write_state pl (case getGSEProcessStatus env pl cp (os_Db st) of
       Inl _ \<Rightarrow> (op_OriginalStatus pl, op_OriginalManaged pl) | Inr sm \<Rightarrow> sm) st"

definition renumber_when :: "bool \<Rightarrow> operate_payload \<Rightarrow> op_store \<Rightarrow> op_store" where
  "renumber_when allCompleted pl st =
     (if allCompleted then
        (case ComputeModuleInstSeqUpdates (op_BizID pl) (op_ProcessID pl) (os_Db st) of
           Inl _ \<Rightarrow> st | Inr db \<Rightarrow> st\<lparr>os_Db := db\<rparr>)
      else st)"

definition Callback ::
  "op_env \<Rightarrow> operate_payload \<Rightarrow> task_payload \<Rightarrow> task_err option \<Rightarrow> op_store \<Rightarrow> (task_err + unit) \<times> op_store" where
  "Callback env pl cp cbErr st =
     (case count_task env pl (cbErr = None) st of (allCompleted, st) \<Rightarrow>
        (case (if cbErr = None then scale_down pl st else (Inr (), roll_back env pl cp st)) of
           (r, st) \<Rightarrow> (r, renumber_when allCompleted pl st)))"

section \<open>The steps of an update of the registered data\<close>

definition UR_ValidateOperateStep :: "op_env \<Rightarrow> operate_payload \<Rightarrow> task_payload \<Rightarrow> op_store \<Rightarrow> step_result" where
  "UR_ValidateOperateStep env pl cp st =
     (case oe_cmdb env (op_BizID pl) (pp_CcProcessID (tp_Process cp)) of
        Inl m \<Rightarrow> (Inl (CmdbFailed m), cp, st)
      | Inr [] \<Rightarrow> (Inl NotInCMDB, cp,
          st\<lparr>os_Db := MarkProcessDeletedAndCleanInstancesTx (op_BizID pl) [op_ProcessID pl] (os_Db st)\<rparr>)
      | Inr (latest # _) \<Rightarrow>
          if op_EnableProcessRestart pl \<and> \<not> HasOperateCommand StopOp latest then (Inl (CommandMissing ''stop''), cp, st)
          else if op_EnableProcessRestart pl \<and> \<not> HasOperateCommand StartOp latest then (Inl (CommandMissing ''start''), cp, st)
          else
            (case CanProcessOperate (op_OperateType pl) latest (op_OriginalStatus pl) (op_OriginalManaged pl) (op_CCSyncStatus pl) of
               (canOperate, message, _) \<Rightarrow>
                 if \<not> canOperate then (Inl (CannotOperate message), cp, st)
                 else (Inr (), cp\<lparr>tp_Process := (tp_Process cp)\<lparr>pp_ConfigData := oe_marshal env latest\<rparr>\<rparr>, st)))"

definition needStopProcess :: "status_content \<Rightarrow> bool" where
  "needStopProcess status \<longleftrightarrow> list_ex (list_ex (\<lambda>i. 0 < gi_PID i)) status"

definition queryGSEProcessStatus :: "op_env \<Rightarrow> operate_payload \<Rightarrow> task_payload \<Rightarrow> process_info \<Rightarrow> task_err + status_content" where
  "queryGSEProcessStatus env pl cp info = gse_query (oe_gse env) (op_BizID pl) (tp_Process cp) info"

definition executeGSEOperate :: "op_env \<Rightarrow> operate_payload \<Rightarrow> task_payload \<Rightarrow> operate_type \<Rightarrow> task_err + unit" where
  "executeGSEOperate env pl cp op =
     rbind (decode_info env (pp_ConfigData (tp_Process cp))) (\<lambda>info.
     rbind (ConvertProcessOperateTypeToOpType op) (\<lambda>opType.
     rbind (gse_call (oe_gse env) (op_BizID pl) (tp_Process cp) opType info) (\<lambda>r.
       if \<not> IsSuccess (re_ErrorCode r) then Inl (GseFailed (re_ErrorCode r)) else Inr ())))"

definition UR_StopProcessStep :: "op_env \<Rightarrow> operate_payload \<Rightarrow> task_payload \<Rightarrow> op_store \<Rightarrow> step_result" where
  "UR_StopProcessStep env pl cp st =
     (rbind (decode_info env (pp_ConfigData (tp_Process cp))) (\<lambda>info.
      rbind (queryGSEProcessStatus env pl cp info) (\<lambda>status.
        if \<not> needStopProcess status then Inr ()
        else case executeGSEOperate env pl cp StopOp of
          Inl e \<Rightarrow> Inl (StepFailed StopOp e) | Inr u \<Rightarrow> Inr u)), cp, st)"

definition UR_RegisterProcessStep :: "op_env \<Rightarrow> operate_payload \<Rightarrow> task_payload \<Rightarrow> op_store \<Rightarrow> step_result" where
  "UR_RegisterProcessStep env pl cp st =
     (case executeGSEOperate env pl cp RegisterOp of
        Inl e \<Rightarrow> (Inl (RegisterStepFailed e), cp, st) | Inr u \<Rightarrow> (Inr u, cp, st))"

definition UR_StartProcessStep :: "op_env \<Rightarrow> operate_payload \<Rightarrow> task_payload \<Rightarrow> op_store \<Rightarrow> step_result" where
  "UR_StartProcessStep env pl cp st =
     (case executeGSEOperate env pl cp StartOp of
        Inl e \<Rightarrow> (Inl (StepFailed StartOp e), cp, st) | Inr u \<Rightarrow> (Inr u, cp, st))"

text \<open>The same function as that of the other executor, on the same payload.\<close>

definition UR_getGSEProcessStatus :: "op_env \<Rightarrow> operate_payload \<Rightarrow> task_payload \<Rightarrow> proc_db \<Rightarrow> task_err + string \<times> string" where
  "UR_getGSEProcessStatus env pl cp db =
     rbind (proc_GetByID (op_BizID pl) (op_ProcessID pl) db) (\<lambda>p.
     rbind (decode_info env (ps_SourceData (pr_Spec p))) (\<lambda>info.
     rbind (gse_query (oe_gse env) (op_BizID pl) (tp_Process cp) info) (\<lambda>content.
       case content of
         (i # _) # _ \<Rightarrow> Inr (instance_state i)
       | _ \<Rightarrow> Inl NotInGse)))"

definition UR_OperationCompletedStep :: "op_env \<Rightarrow> operate_payload \<Rightarrow> task_payload \<Rightarrow> op_store \<Rightarrow> step_result" where
  "UR_OperationCompletedStep env pl cp st =
     (case decode_info env (pp_ConfigData (tp_Process cp)) of
        Inl e \<Rightarrow> (Inl e, cp, st)
      | Inr _ \<Rightarrow> (case UR_getGSEProcessStatus env pl cp (os_Db st) of
          Inl e \<Rightarrow> (Inl e, cp, st)
        | Inr sm \<Rightarrow> (Inr (), cp, write_state pl sm st)))"

section \<open>The callback of an update\<close>

text \<open>\<open>errors.Is\<close> looks through the wrapping of the error of the step that registers.\<close>

definition registerProcessSuccessDelta :: "task_err option \<Rightarrow> nat" where
  "registerProcessSuccessDelta err = (case err of Some (RegisterStepFailed _) \<Rightarrow> 0 | _ \<Rightarrow> 1)"

record batch_snapshot =
  sn_Status :: batch_status
  sn_TotalCount :: nat
  sn_RegisterSuccess :: nat

definition updateBatchExtraDataWithLock :: "nat \<Rightarrow> nat \<Rightarrow> nat \<Rightarrow> batch_store \<Rightarrow> batch_snapshot option \<times> batch_store" where
  "updateBatchExtraDataWithLock biz bid delta tb =
     (if delta = 0 then (None, tb)
      else case TaskBatch_GetByID biz bid tb of
        Inl _ \<Rightarrow> (None, tb)
      | Inr t \<Rightarrow>
          let n = (case tb_RegisterSuccess t of None \<Rightarrow> 0 | Some k \<Rightarrow> k) + delta in
          (Some \<lparr>sn_Status = tb_Status t, sn_TotalCount = tb_TotalCount t, sn_RegisterSuccess = n\<rparr>,
           UpdateExtraData bid (Some n) tb))"

definition UR_Callback ::
  "op_env \<Rightarrow> operate_payload \<Rightarrow> task_payload \<Rightarrow> task_err option \<Rightarrow> op_store \<Rightarrow> (task_err + unit) \<times> op_store" where
  "UR_Callback env pl cp cbErr st =
     (let st1 =
        (if 0 < op_BatchID pl then
           let st0 = snd (count_task env pl (cbErr = None) st) in
           (case updateBatchExtraDataWithLock (op_BizID pl) (op_BatchID pl) (registerProcessSuccessDelta cbErr) (os_Tb st0) of
              (None, tb) \<Rightarrow> st0\<lparr>os_Tb := tb\<rparr>
            | (Some sn, tb) \<Rightarrow>
                if sn_RegisterSuccess sn = sn_TotalCount sn then
                  st0\<lparr>os_Tb := tb, os_Db := proc_UpdateSelectedFields (op_BizID pl) (op_ProcessID pl) Synced
                    (pp_ConfigData (tp_Process cp)) (pp_ConfigData (tp_Process cp)) (os_Db st0)\<rparr>
                else st0\<lparr>os_Tb := tb\<rparr>)
         else st) in
      if cbErr = None then (Inr (), st1)
      else (Inr (), write_state pl (case UR_getGSEProcessStatus env pl cp (os_Db st1) of
              Inl _ \<Rightarrow> (op_OriginalStatus pl, op_OriginalManaged pl) | Inr sm \<Rightarrow> sm) st1))"

section \<open>Running a task\<close>

fun run_step :: "step_name \<Rightarrow> op_env \<Rightarrow> operate_payload \<Rightarrow> task_payload \<Rightarrow> op_store \<Rightarrow> step_result" where
  "run_step ValidateOperateProcess = ValidateOperate"
| "run_step CompareWithCMDB = CompareWithCMDBProcessInfo"
| "run_step CompareWithGSEStatus = CompareWithGSEProcessStatus"
| "run_step CompareWithGSEConfig = CompareWithGSEProcessConfig"
| "run_step OperateProcessStep = Operate"
| "run_step FinalizeOperateProcess = Finalize"
| "run_step UR_ValidateOperate = UR_ValidateOperateStep"
| "run_step UR_RegisterProcess = UR_RegisterProcessStep"
| "run_step UR_StopProcess = UR_StopProcessStep"
| "run_step UR_StartProcess = UR_StartProcessStep"
| "run_step UR_OperationCompleted = UR_OperationCompletedStep"

text \<open>
  The library's loop over the steps, each with its own environment; the payload of the last step that
  ran is that of the callback.
\<close>

fun run_steps :: "(step_name \<times> operate_payload) list \<Rightarrow> op_env list \<Rightarrow> operate_payload \<Rightarrow> task_payload \<Rightarrow> op_store
    \<Rightarrow> task_err option \<times> operate_payload \<times> task_payload \<times> op_store" where
  "run_steps [] envs pl cp st = (None, pl, cp, st)"
| "run_steps _ [] pl cp st = (Some WaitTimedOut, pl, cp, st)"
| "run_steps ((n, pl') # ss) (env # envs) pl cp st =
     (case run_step n env pl' cp st of
        (Inl e, cp', st') \<Rightarrow> (Some e, pl', cp', st')
      | (Inr _, cp', st') \<Rightarrow> run_steps ss envs pl' cp' st')"

end
