(* ===== verification/ProcOperate.thy ===== *)
theory ProcOperate
  imports ProcExec ProcExpr
begin

text \<open>
  The handlers that operate processes, \<open>cmd/data-service/service/process.go\<close>, with the selection of
  processes by expressions in \<open>internal/dal/dao/process_expression.go\<close>, and the retry and the state
  of a batch in \<open>task_batch.go\<close>. A request gives the tasks it hands to the task library, in
  order. Selecting processes by an expression can run forever, which is the value \<open>None\<close>.
\<close>

section \<open>Requests\<close>

record kit =
  kt_TenantID :: string
  kt_BizID :: nat
  kt_User :: string

record operate_req =
  rq_BizID :: nat
  rq_ProcessIds :: "nat list"
  rq_ProcessInstanceIds :: "nat list"
  rq_OperateType :: string
  rq_OperateRange :: "(string \<times> scope option) option"
  rq_EnableProcessRestart :: bool

datatype op_err =
    OnlyOneProcess | OperateTypeUnsupported string | QueryNotSupported | ScopeRequired | EnvironmentRequired
  | InvalidScope expr_err | NoProcesses | NoInstances | ProcessNotInMap nat | UnsupportedManaged string
  | UnsupportedState string string | BatchFailure batch_err | TaskFailure task_err | StepNotFound

definition validateOperateRequest :: "operate_req \<Rightarrow> op_err + unit" where
  "validateOperateRequest req =
     (if 1 < length (rq_ProcessIds req) \<and> rq_ProcessInstanceIds req \<noteq> [] then Inl OnlyOneProcess
      else if \<not> ValidateOperateType (op_of_text (rq_OperateType req)) then Inl (OperateTypeUnsupported (rq_OperateType req))
      else if rq_OperateType req = ''query_status'' then Inl QueryNotSupported
      else Inr ())"

section \<open>Selecting processes and instances\<close>

definition loadExpressionCandidates :: "nat \<Rightarrow> string \<Rightarrow> proc_db \<Rightarrow> process list" where
  "loadExpressionCandidates biz env db = filter (\<lambda>p. biz_id p = biz \<and> sync_of p \<noteq> Deleted
     \<and> (env \<noteq> [] \<longrightarrow> ps_Environment (pr_Spec p) = env)) (db_Processes db)"

definition proc_candidate :: "process \<Rightarrow> candidate" where
  "proc_candidate p = \<lparr>Expression = JoinProcessExpression (ps_SetName (pr_Spec p)) (ps_ModuleName (pr_Spec p))
       (ps_ServiceName (pr_Spec p)) (alias_of p) (itoa_nat (cc_id p)),
     CcProcessID = of_nat (cc_id p)\<rparr>"

definition filterProcessesByExpressionScope :: "process list \<Rightarrow> scope \<Rightarrow> (op_err + process list) option" where
  "filterProcessesByExpressionScope procs es =
     (let sorted = sort_key cc_id procs in
      map_option (\<lambda>r. case r of
          Inl e \<Rightarrow> Inl (InvalidScope e)
        | Inr ids \<Rightarrow> Inr (List.map_filter (\<lambda>i. find (\<lambda>p. of_nat (cc_id p) = i) sorted) ids))
        (ScopeToCcIDs es (map proc_candidate sorted)))"

definition getByExpressionScope :: "nat \<Rightarrow> string \<Rightarrow> scope \<Rightarrow> proc_db \<Rightarrow> (op_err + process list) option" where
  "getByExpressionScope biz env es db =
     (if env = [] then Some (Inl EnvironmentRequired)
      else filterProcessesByExpressionScope (loadExpressionCandidates biz env db) es)"

definition GetByOperateRange :: "nat \<Rightarrow> string \<times> scope option \<Rightarrow> proc_db \<Rightarrow> (op_err + process list) option" where
  "GetByOperateRange biz r db = (case snd r of
      None \<Rightarrow> Some (Inl ScopeRequired) | Some es \<Rightarrow> getByExpressionScope biz (fst r) es db)"

text \<open>The instances of the processes that were found; none is an error.\<close>

definition with_instances :: "nat \<Rightarrow> nat list \<Rightarrow> process list \<Rightarrow> proc_db \<Rightarrow> op_err + process list \<times> proc_inst list" where
  "with_instances biz pids procs db =
     (if procs = [] then Inl NoProcesses
      else let insts = GetByProcessIDs biz pids db in if insts = [] then Inl NoInstances else Inr (procs, insts))"

definition getByOperateRanges :: "nat \<Rightarrow> string \<times> scope option \<Rightarrow> proc_db
    \<Rightarrow> (op_err + process list \<times> proc_inst list) option" where
  "getByOperateRanges biz r db =
     map_option (\<lambda>res. rbind res (\<lambda>procs. with_instances biz (map pr_ID procs) procs db)) (GetByOperateRange biz r db)"

definition getByProcessInstanceIDs :: "nat \<Rightarrow> nat list \<Rightarrow> proc_db \<Rightarrow> op_err + process list \<times> proc_inst list" where
  "getByProcessInstanceIDs biz ids db =
     (case inst_GetByIDs biz ids db of
        [] \<Rightarrow> Inl NoInstances
      | i # is \<Rightarrow> (case proc_GetByID biz (in_ProcessID i) db of
            Inl e \<Rightarrow> Inl (TaskFailure e) | Inr p \<Rightarrow> Inr ([p], i # is)))"

definition getByProcessIDs :: "nat \<Rightarrow> nat list \<Rightarrow> proc_db \<Rightarrow> op_err + process list \<times> proc_inst list" where
  "getByProcessIDs biz pids db = with_instances biz pids (proc_GetByIDs biz pids db) db"

definition getProcessesAndInstances :: "operate_req \<Rightarrow> proc_db \<Rightarrow> (op_err + process list \<times> proc_inst list) option" where
  "getProcessesAndInstances req db =
     (if rq_ProcessInstanceIds req \<noteq> [] then Some (getByProcessInstanceIDs (rq_BizID req) (rq_ProcessInstanceIds req) db)
      else case rq_OperateRange req of
        Some r \<Rightarrow> getByOperateRanges (rq_BizID req) r db
      | None \<Rightarrow> Some (getByProcessIDs (rq_BizID req) (rq_ProcessIds req) db))"

definition isStartSemantic :: "operate_type \<Rightarrow> bool" where
  "isStartSemantic op \<longleftrightarrow> op \<in> {RegisterOp, StartOp, RestartOp, ReloadOp}"

text \<open>Instances of equal sequence numbers are in an order of their own, here that of the list.\<close>

definition start_instances :: "proc_inst list \<Rightarrow> process \<Rightarrow> proc_inst list" where
  "start_instances insts p =
     (let is = filter (\<lambda>i. in_ProcessID i = pr_ID p) insts in
      if length is \<le> ps_ProcNum (pr_Spec p) then is
      else take (ps_ProcNum (pr_Spec p)) (sort_key in_ModuleInstSeq is))"

definition filterInstancesForStart :: "process list \<Rightarrow> proc_inst list \<Rightarrow> process list \<times> proc_inst list" where
  "filterInstancesForStart procs insts =
     (let ps = filter (\<lambda>p. filter (\<lambda>i. in_ProcessID i = pr_ID p) insts \<noteq> []) procs in
      (ps, concat (map (start_instances insts) ps)))"

section \<open>The operation of each instance\<close>

definition getDeleteProcessOperateType :: "string \<Rightarrow> string \<Rightarrow> op_err + operate_type" where
  "getDeleteProcessOperateType status managedStatus =
     (if status = ''running'' then Inr StopOp
      else if status = ''stopped'' then
        (if managedStatus = ''managed'' then Inr UnregisterOp
         else if managedStatus = ''unmanaged'' then Inr DeleteOp
         else Inl (UnsupportedManaged managedStatus))
      else Inl (UnsupportedState status managedStatus))"

definition resolveOperateType :: "operate_type \<Rightarrow> string \<Rightarrow> string \<Rightarrow> op_err + operate_type" where
  "resolveOperateType op status managed =
     (if op \<noteq> DeleteOp then Inr op else getDeleteProcessOperateType status managed)"

record resolved_instance =
  ri_instance :: proc_inst
  ri_finalOpType :: operate_type
  ri_proc :: process
  ri_originalStatus :: string
  ri_originalManaged :: string

fun preResolveInstances :: "process list \<Rightarrow> operate_type \<Rightarrow> proc_inst list
    \<Rightarrow> op_err + resolved_instance list \<times> proc_inst list" where
  "preResolveInstances procs op [] = Inr ([], [])"
| "preResolveInstances procs op (i # is) =
     (case find (\<lambda>p. pr_ID p = in_ProcessID i) procs of
        None \<Rightarrow> Inl (ProcessNotInMap (in_ProcessID i))
      | Some p \<Rightarrow>
          rbind (resolveOperateType op (in_Status i) (in_ManagedStatus i)) (\<lambda>f.
          rbind (preResolveInstances procs op is) (\<lambda>(toDispatch, toDelete).
            if f = DeleteOp then Inr (toDispatch, i # toDelete)
            else Inr (\<lparr>ri_instance = i, ri_finalOpType = f, ri_proc = p, ri_originalStatus = in_Status i,
                       ri_originalManaged = in_ManagedStatus i\<rparr> # toDispatch, toDelete))))"

definition batchDeleteProcessInstances :: "nat \<Rightarrow> proc_inst list \<Rightarrow> proc_db \<Rightarrow> proc_db" where
  "batchDeleteProcessInstances biz insts db = fold (\<lambda>i. inst_Delete biz (in_ID i)) insts db"

definition needCMDBCompare :: "sync_status \<Rightarrow> operate_type \<Rightarrow> bool" where
  "needCMDBCompare st op \<longleftrightarrow> st \<noteq> Deleted"

definition updateProcessInstanceStatus :: "operate_type \<Rightarrow> proc_inst \<Rightarrow> bool \<Rightarrow> op_store \<Rightarrow> op_store" where
  "updateProcessInstanceStatus op i enableProcessRestart st =
     st\<lparr>os_Db := inst_UpdateSelectedFields (in_BizID i) (in_ID i)
       (GetProcessStatusByOpType op (in_Status i) enableProcessRestart)
       (GetProcessManagedStatusByOpType op (in_ManagedStatus i)) (os_Db st)\<rparr>"

section \<open>Tasks\<close>

record proc_task =
  tk_BatchID :: nat
  tk_TaskType :: string
  tk_Updates :: bool
  tk_Steps :: "(step_name \<times> operate_payload) list"
  tk_Payload :: operate_payload
  tk_Common :: task_payload

definition NewOperateTask :: "operate_payload \<Rightarrow> string \<Rightarrow> proc_db \<Rightarrow> task_err + proc_task" where
  "NewOperateTask pl taskType db =
     rbind (CommonProcessFinalize (op_BizID pl) (op_ProcessID pl) (op_InstanceID pl) db) (\<lambda>cp.
       Inr \<lparr>tk_BatchID = op_BatchID pl, tk_TaskType = taskType, tk_Updates = False,
            tk_Steps = OperateTask_Steps pl, tk_Payload = pl, tk_Common = cp\<rparr>)"

definition NewUpdateRegisterTask :: "operate_payload \<Rightarrow> proc_db \<Rightarrow> task_err + proc_task" where
  "NewUpdateRegisterTask pl db =
     rbind (CommonProcessFinalize (op_BizID pl) (op_ProcessID pl) (op_InstanceID pl) db) (\<lambda>cp.
       Inr \<lparr>tk_BatchID = op_BatchID pl, tk_TaskType = op_text UpdateRegisterOp, tk_Updates = True,
            tk_Steps = UpdateRegisterTask_Steps pl, tk_Payload = pl, tk_Common = cp\<rparr>)"

definition buildProcessTask :: "operate_payload \<Rightarrow> string \<Rightarrow> proc_db \<Rightarrow> task_err + proc_task" where
  "buildProcessTask pl taskType db =
     (if op_OperateType pl = UpdateRegisterOp then NewUpdateRegisterTask pl db
      else NewOperateTask (pl\<lparr>op_NeedCompareCMDB := needCMDBCompare (op_CCSyncStatus pl) (op_OperateType pl),
             op_EnableProcessRestart := False\<rparr>) taskType db)"

definition item_payload :: "kit \<Rightarrow> nat \<Rightarrow> nat \<Rightarrow> resolved_instance \<Rightarrow> bool \<Rightarrow> operate_payload" where
  "item_payload kt biz bid it enable = \<lparr>op_TenantID = kt_TenantID kt, op_BizID = biz, op_BatchID = bid,
     op_OperateType = ri_finalOpType it, op_OperateUser = kt_User kt,
     op_ProcessID = in_ProcessID (ri_instance it), op_InstanceID = in_ID (ri_instance it),
     op_NeedCompareCMDB = False, op_OriginalManaged = ri_originalManaged it, op_OriginalStatus = ri_originalStatus it,
     op_EnableProcessRestart = enable, op_CCSyncStatus = sync_of (ri_proc it)\<rparr>"

text \<open>The tasks that were handed over, the error that ended the loop, and the store.\<close>

fun dispatchProcessTasks :: "kit \<Rightarrow> nat \<Rightarrow> nat \<Rightarrow> string \<Rightarrow> bool \<Rightarrow> resolved_instance list \<Rightarrow> op_store
    \<Rightarrow> (op_err + unit) \<times> proc_task list \<times> op_store" where
  "dispatchProcessTasks kt biz bid taskType enable [] st = (Inr (), [], st)"
| "dispatchProcessTasks kt biz bid taskType enable (it # its) st =
     (let st1 = updateProcessInstanceStatus (ri_finalOpType it) (ri_instance it) enable st in
      case buildProcessTask (item_payload kt biz bid it enable) taskType (os_Db st1) of
        Inl e \<Rightarrow> (Inl (TaskFailure e), [], st1)
      | Inr t \<Rightarrow> (case dispatchProcessTasks kt biz bid taskType enable its st1 of
          (r, ts, st2) \<Rightarrow> (r, t # ts, st2)))"

section \<open>The handler\<close>

definition orWildcard :: "string \<Rightarrow> string" where
  "orWildcard seg = (if seg = [] then ''*'' else seg)"

definition buildOperateRange :: "process list \<Rightarrow> operate_req \<Rightarrow> operate_range" where
  "buildOperateRange procs req = (case rq_OperateRange req of
      Some (_, Some es) \<Rightarrow> \<lparr>or_SetName = orWildcard (SetName es), or_ModuleName = orWildcard (ModuleName es),
        or_ServiceName = orWildcard (ServiceName es), or_ProcessAlias = orWildcard (ProcessAlias es),
        or_ProcessID = orWildcard (ProcessID es)\<rparr>
    | Some (_, None) \<Rightarrow> \<lparr>or_SetName = ''*'', or_ModuleName = ''*'', or_ServiceName = ''*'', or_ProcessAlias = ''*'',
        or_ProcessID = ''*''\<rparr>
    | None \<Rightarrow> \<lparr>or_SetName = ''*'', or_ModuleName = ''*'', or_ServiceName = ''*'', or_ProcessAlias = ''*'',
        or_ProcessID = IDsToExpr (map (\<lambda>p. of_nat (cc_id p)) procs)\<rparr>)"

definition createTaskBatch :: "nat \<Rightarrow> kit \<Rightarrow> string \<Rightarrow> string \<Rightarrow> operate_range \<Rightarrow> nat \<Rightarrow> batch_store
    \<Rightarrow> op_err + nat \<times> batch_store" where
  "createTaskBatch now kt op environment rng totalCount tb =
     (case TaskBatch_Create \<lparr>tb_ID = 0, tb_BizID = kt_BizID kt, tb_TaskObject = ''process'', tb_TaskAction = op,
          tb_TaskData = \<lparr>td_Environment = environment, td_OperateRange = rng, td_ConfigTemplateIDs = []\<rparr>,
          tb_Status = BatchRunning, tb_StartAt = now, tb_EndAt = None, tb_TotalCount = totalCount,
          tb_CompletedCount = 0, tb_SuccessCount = 0, tb_FailedCount = 0, tb_RegisterSuccess = None,
          tb_Creator = kt_User kt\<rparr> tb of
        Inl e \<Rightarrow> Inl (BatchFailure e) | Inr r \<Rightarrow> Inr r)"

text \<open>What is left of the request once a batch is created: the tasks, and the count of those that were not.\<close>

definition dispatch_batch :: "nat \<Rightarrow> kit \<Rightarrow> nat \<Rightarrow> string \<Rightarrow> bool \<Rightarrow> resolved_instance list \<Rightarrow> op_store
    \<Rightarrow> (op_err + nat) \<times> proc_task list \<times> op_store" where
  "dispatch_batch now kt bid op enable toDispatch st =
     (case dispatchProcessTasks kt (kt_BizID kt) bid op enable toDispatch st of
        (r, ts, st1) \<Rightarrow>
          (case r of Inl e \<Rightarrow> Inl e | Inr _ \<Rightarrow> Inr bid, ts,
           if length ts = length toDispatch then st1
           else case AddFailedCount now bid (length toDispatch - length ts) (os_Tb st1) of
             Inl _ \<Rightarrow> st1 | Inr (_, tb) \<Rightarrow> st1\<lparr>os_Tb := tb\<rparr>))"

definition operate_found :: "nat \<Rightarrow> kit \<Rightarrow> operate_req \<Rightarrow> process list \<times> proc_inst list \<Rightarrow> op_store
    \<Rightarrow> (op_err + nat) \<times> proc_task list \<times> op_store" where
  "operate_found now kt req found st =
     (let op = op_of_text (rq_OperateType req);
          (procs, insts) = (if isStartSemantic op then filterInstancesForStart (fst found) (snd found) else found) in
      case preResolveInstances procs op insts of
        Inl e \<Rightarrow> (Inl e, [], st)
      | Inr (toDispatch, toDelete) \<Rightarrow>
          let st1 = st\<lparr>os_Db := batchDeleteProcessInstances (kt_BizID kt) toDelete (os_Db st)\<rparr> in
          if toDispatch = [] then (Inr 0, [], st1)
          else
            let environment = (case rq_OperateRange req of
                  Some (e, _) \<Rightarrow> e | None \<Rightarrow> ps_Environment (pr_Spec (hd procs))) in
            (case createTaskBatch now kt (rq_OperateType req) environment (buildOperateRange procs req)
                 (length toDispatch) (os_Tb st1) of
               Inl e \<Rightarrow> (Inl e, [], st1)
             | Inr (bid, tb) \<Rightarrow>
                 dispatch_batch now kt bid (rq_OperateType req) (rq_EnableProcessRestart req) toDispatch
                   (st1\<lparr>os_Tb := tb\<rparr>)))"

definition OperateProcess :: "nat \<Rightarrow> kit \<Rightarrow> operate_req \<Rightarrow> op_store
    \<Rightarrow> ((op_err + nat) \<times> proc_task list \<times> op_store) option" where
  "OperateProcess now kt req st =
     (case validateOperateRequest req of
        Inl e \<Rightarrow> Some (Inl e, [], st)
      | Inr _ \<Rightarrow> map_option (\<lambda>res. case res of
            Inl e \<Rightarrow> (Inl e, [], st)
          | Inr found \<Rightarrow> operate_found now kt req found st) (getProcessesAndInstances req (os_Db st)))"

end
