(* ===== verification/ProcRetry.thy ===== *)
theory ProcRetry
  imports ProcOperate
begin

text \<open>
  The tasks of a batch as they are stored, \<open>cmd/data-service/service/task_batch.go\<close>: the retry of the
  failed tasks of an operation, and the status of a batch that is shown when error codes are ignored.
  The storage of the task library is a list of tasks with their status, in a fixed order; its query
  returns a page of those with given statuses.
\<close>

datatype task_status =
    TaskInit | TaskRunning | TaskRevoked | TaskNotStarted | TaskSuccess | TaskFailed | TaskTimeout | TaskOther string

record stored_task =
  so_Status :: task_status
  so_Task :: proc_task

definition ListTask :: "stored_task list \<Rightarrow> nat \<Rightarrow> string \<Rightarrow> task_status list \<Rightarrow> nat \<Rightarrow> nat \<Rightarrow> stored_task list" where
  "ListTask store bid taskType statuses offset limit =
     take limit (drop offset (filter (\<lambda>t. tk_BatchID (so_Task t) = bid \<and> tk_TaskType (so_Task t) = taskType
       \<and> so_Status t \<in> set statuses) store))"

section \<open>Statuses\<close>

definition convertTaskStatus :: "task_status \<Rightarrow> task_status" where
  "convertTaskStatus s = (case s of
      TaskInit \<Rightarrow> TaskInit
    | TaskRunning \<Rightarrow> TaskRunning
    | TaskRevoked \<Rightarrow> TaskRunning
    | TaskNotStarted \<Rightarrow> TaskRunning
    | TaskSuccess \<Rightarrow> TaskSuccess
    | TaskFailed \<Rightarrow> TaskFailed
    | TaskTimeout \<Rightarrow> TaskFailed
    | TaskOther _ \<Rightarrow> TaskFailed)"

definition expandTaskStatusForQuery :: "task_status \<Rightarrow> task_status list" where
  "expandTaskStatusForQuery s = (case s of
      TaskRunning \<Rightarrow> [TaskRunning, TaskRevoked, TaskNotStarted]
    | TaskFailed \<Rightarrow> [TaskFailed, TaskTimeout]
    | _ \<Rightarrow> [s])"

definition getTaskStatusStatistics :: "stored_task list \<Rightarrow> nat \<Rightarrow> string \<Rightarrow> task_status \<Rightarrow> nat" where
  "getTaskStatusStatistics store bid taskType s =
     length (filter (\<lambda>t. tk_BatchID (so_Task t) = bid \<and> tk_TaskType (so_Task t) = taskType
       \<and> so_Status t \<in> set (expandTaskStatusForQuery s)) store)"

section \<open>Ignoring error codes\<close>

text \<open>The conversion of an int to an int32.\<close>

definition to_int32 :: "int \<Rightarrow> int" where
  "to_int32 n = (n + 2 ^ 31) mod 2 ^ 32 - 2 ^ 31"

definition isIgnorableFailedTask :: "task_payload \<Rightarrow> int list \<Rightarrow> bool" where
  "isIgnorableFailedTask cp ignoreSet = (case tp_Gse cp of
      None \<Rightarrow> False | Some (code, _) \<Rightarrow> to_int32 code \<in> set ignoreSet)"

definition countIgnoredFailedTasks :: "stored_task list \<Rightarrow> nat \<Rightarrow> string \<Rightarrow> nat \<Rightarrow> int list \<Rightarrow> nat" where
  "countIgnoredFailedTasks store bid taskType failureCount ignoreSet =
     length (filter (\<lambda>t. isIgnorableFailedTask (tk_Common (so_Task t)) ignoreSet)
       (ListTask store bid taskType [TaskFailed, TaskTimeout] 0 failureCount))"

definition overrideTaskBatchStatusForIgnore :: "stored_task list \<Rightarrow> task_batch \<Rightarrow> int list \<Rightarrow> batch_status" where
  "overrideTaskBatchStatusForIgnore store t ignoreSet =
     (let stat = getTaskStatusStatistics store (tb_ID t) (tb_TaskAction t);
          success = stat TaskSuccess; failure = stat TaskFailed in
      if ignoreSet = [] then tb_Status t
      else if tb_Status t \<noteq> BatchFailed \<and> tb_Status t \<noteq> BatchPartlyFailed then tb_Status t
      else if 0 < stat TaskRunning \<or> 0 < stat TaskInit then tb_Status t
      else if failure = 0 then tb_Status t
      else
        let ignored = countIgnoredFailedTasks store (tb_ID t) (tb_TaskAction t) failure ignoreSet in
        if ignored = 0 then tb_Status t
        else if failure - ignored = 0 then BatchSucceed
        else if success + ignored = 0 then BatchFailed
        else BatchPartlyFailed)"

section \<open>Retrying\<close>

text \<open>The loop over the pages of 1000 tasks ends with the first page that is not full.\<close>

partial_function (option) query_pages :: "(nat \<Rightarrow> nat \<Rightarrow> 't list) \<Rightarrow> nat \<Rightarrow> 't list \<Rightarrow> 't list option" where
  "query_pages page offset acc =
     (let items = page offset 1000 in
      if length items < 1000 then Some (acc @ items)
      else query_pages page (offset + 1000) (acc @ items))"

definition queryFailedTasks :: "stored_task list \<Rightarrow> nat \<Rightarrow> string \<Rightarrow> stored_task list option" where
  "queryFailedTasks store bid taskType =
     query_pages (\<lambda>offset limit. ListTask store bid taskType [TaskFailed] offset limit) 0 []"

text \<open>One failed task: its instance is set to the state of the operation and the task runs again.\<close>

definition retry_one :: "nat \<Rightarrow> string \<Rightarrow> stored_task \<Rightarrow> op_store \<Rightarrow> (op_err + proc_task) \<times> op_store" where
  "retry_one biz action t st =
     (case map_of (tk_Steps (so_Task t)) FinalizeOperateProcess of
        None \<Rightarrow> (Inl StepNotFound, st)
      | Some pl \<Rightarrow> (case inst_GetByID biz (op_InstanceID pl) (os_Db st) of
            Inl e \<Rightarrow> (Inl (TaskFailure e), st)
          | Inr i \<Rightarrow> (Inr (so_Task t), updateProcessInstanceStatus (op_of_text action) i True st)))"

fun retry_tasks :: "nat \<Rightarrow> string \<Rightarrow> stored_task list \<Rightarrow> op_store \<Rightarrow> (op_err + unit) \<times> proc_task list \<times> op_store" where
  "retry_tasks biz action [] st = (Inr (), [], st)"
| "retry_tasks biz action (t # ts) st =
     (case retry_one biz action t st of
        (Inl e, st1) \<Rightarrow> (Inl e, [], st1)
      | (Inr tk, st1) \<Rightarrow> (case retry_tasks biz action ts st1 of (r, tks, st2) \<Rightarrow> (r, tk # tks, st2)))"

definition retryProcessTask :: "stored_task list \<Rightarrow> nat \<Rightarrow> task_batch \<Rightarrow> op_store
    \<Rightarrow> ((op_err + nat) \<times> proc_task list \<times> op_store) option" where
  "retryProcessTask store biz t st =
     (if tb_Status t = BatchSucceed then Some (Inr 0, [], st)
      else map_option (\<lambda>failed.
        if failed = [] then (Inr 0, [], st)
        else case ResetCountsForRetry (tb_ID t) (length failed) (os_Tb st) of
          Inl e \<Rightarrow> (Inl (BatchFailure e), [], st)
        | Inr tb \<Rightarrow>
            (case retry_tasks biz (tb_TaskAction t) failed (st\<lparr>os_Tb := tb\<rparr>) of
               (Inl e, tks, st1) \<Rightarrow> (Inl e, tks, st1)
             | (Inr _, tks, st1) \<Rightarrow> (Inr (length failed), tks, st1)))
        (queryFailedTasks store (tb_ID t) (tb_TaskAction t)))"

text \<open>The handler, for batches of operations on processes.\<close>

definition RetryTasks :: "stored_task list \<Rightarrow> nat \<Rightarrow> nat \<Rightarrow> op_store \<Rightarrow> ((op_err + nat) \<times> proc_task list \<times> op_store) option" where
  "RetryTasks store biz bid st =
     (case TaskBatch_GetByID biz bid (os_Tb st) of
        Inl e \<Rightarrow> Some (Inl (BatchFailure e), [], st)
      | Inr t \<Rightarrow> retryProcessTask store biz t st)"

section \<open>The pages hold all failed tasks\<close>

lemma query_pages_all:
  assumes "\<And>o' l. page o' l = take l (drop o' xs)"
  shows "query_pages page n acc = Some (acc @ drop n xs)"
proof (induction "length xs - n" arbitrary: n acc rule: less_induct)
  case less
  show ?case
  proof (cases "length (drop n xs) < 1000")
    case True
    then show ?thesis by (subst query_pages.simps) (simp add: assms Let_def)
  next
    case False
    then have "length xs - (n + 1000) < length xs - n" by simp
    from less [OF this, of "acc @ take 1000 (drop n xs)"]
    have "query_pages page (n + 1000) (acc @ take 1000 (drop n xs)) = Some (acc @ drop n xs)"
      by (simp add: drop_drop[symmetric] add.commute del: drop_drop) (metis append_take_drop_id drop_drop add.commute)
    with False show ?thesis by (subst query_pages.simps) (simp add: assms Let_def)
  qed
qed

lemma queryFailedTasks_all:
  "queryFailedTasks store bid ty = Some (filter (\<lambda>t. tk_BatchID (so_Task t) = bid \<and> tk_TaskType (so_Task t) = ty
     \<and> so_Status t = TaskFailed) store)"
  unfolding queryFailedTasks_def ListTask_def by (subst query_pages_all [OF refl]) simp

end
