(* ===== verification/ProcOpsProps.thy ===== *)
theory ProcOpsProps
  imports ProcRetry Progress
begin

text \<open>
  What operating processes guarantees: the operations that are offered are those that some instance
  accepts, a task leaves its instance in a settled state, stopping scales a process down, and where
  repeated requests, retries and updates of the registered data leave rows behind.
\<close>

section \<open>Offered operations\<close>

definition inst_settled :: "string \<times> string \<Rightarrow> bool" where
  "inst_settled sm \<longleftrightarrow> fst sm \<in> {''running'', ''stopped''} \<and> snd sm \<in> {''managed'', ''unmanaged''}"

abbreviation state_of :: "proc_inst \<Rightarrow> string \<times> string" where
  "state_of i \<equiv> (in_Status i, in_ManagedStatus i)"

text \<open>What an operation needs of the status and of the managed status, when both are known and settled.\<close>

definition wants_status :: "operate_type \<Rightarrow> string \<Rightarrow> bool" where
  "wants_status op s = (case op of
      StartOp \<Rightarrow> s = ''stopped''
    | StopOp \<Rightarrow> s = ''running''
    | KillOp \<Rightarrow> s = ''running''
    | _ \<Rightarrow> True)"

definition wants_managed :: "operate_type \<Rightarrow> string \<Rightarrow> bool" where
  "wants_managed op m = (case op of
      RegisterOp \<Rightarrow> m = ''unmanaged''
    | UnregisterOp \<Rightarrow> m = ''managed''
    | _ \<Rightarrow> True)"

text \<open>What it needs of the process.\<close>

definition wants_process :: "operate_type \<Rightarrow> process_info \<Rightarrow> sync_status \<Rightarrow> bool" where
  "wants_process op info st \<longleftrightarrow> hasBaseRuntimeInfo info \<and> (operateNeedCommand op \<longrightarrow> HasOperateCommand op info) \<and>
     (case st of
        Deleted \<Rightarrow> op \<in> {StopOp, KillOp, UnregisterOp}
      | Abnormal \<Rightarrow> op \<in> {StopOp, KillOp, UnregisterOp}
      | Updated \<Rightarrow> op \<in> {UpdateRegisterOp, PullOp}
      | _ \<Rightarrow> op \<in> set process_ops - {UpdateRegisterOp})"

lemmas can_defs = CanProcessOperate_def allow_def Let_def isProcessInProgress_def isManagedInProgress_def
  operateNeedCommand_def wants_status_def wants_managed_def wants_process_def process_ops_def

lemma can_operate_settled:
  assumes "inst_settled (s, m)"
  shows "fst (CanProcessOperate op info s m st) \<longleftrightarrow> wants_process op info st \<and> wants_status op s \<and> wants_managed op m"
  using assms by (cases op; cases st) (auto simp: inst_settled_def can_defs)

lemma can_operate_partly:
  assumes "s \<in> {''running'', ''stopped'', ''partly_running''}" "m \<in> {''managed'', ''unmanaged'', ''partly_managed''}"
  shows "fst (CanProcessOperate op info s m st) \<longleftrightarrow> wants_process op info st
    \<and> (s = ''partly_running'' \<or> wants_status op s) \<and> (m = ''partly_managed'' \<or> wants_managed op m)"
  using assms by (cases op; cases st) (auto simp: can_defs)

lemma remdups_single: "xs \<noteq> [] \<Longrightarrow> (\<exists>k. remdups xs = [k]) \<longleftrightarrow> (\<forall>x \<in> set xs. x = hd xs)"
proof -
  assume ne: "xs \<noteq> []"
  have "(\<exists>k. remdups xs = [k]) \<longleftrightarrow> card (set xs) = 1"
    by (metis One_nat_def length_0_conv length_Suc_conv length_remdups_card_conv)
  also have "\<dots> \<longleftrightarrow> (\<exists>x. set xs = {x})" by (simp add: card_1_singleton_iff)
  also have "\<dots> \<longleftrightarrow> (\<forall>x \<in> set xs. x = hd xs)"
  proof
    assume "\<exists>x. set xs = {x}"
    then show "\<forall>x \<in> set xs. x = hd xs" using hd_in_set [OF ne] by force
  next
    assume "\<forall>x \<in> set xs. x = hd xs"
    then have "set xs = {hd xs}" using hd_in_set [OF ne] by blast
    then show "\<exists>x. set xs = {x}" ..
  qed
  finally show ?thesis .
qed

lemma derive_unified:
  assumes "xs \<noteq> []"
  shows "deriveUnifiedOrPartly xs False p = (if \<forall>x \<in> set xs. x = hd xs then hd xs else p)"
proof (cases "\<exists>k. remdups xs = [k]")
  case True
  then obtain k where k: "remdups xs = [k]" ..
  then have "set xs = {k}" by (metis empty_set list.simps(15) set_remdups)
  moreover have "hd xs \<in> set xs" using assms by simp
  ultimately have "hd xs = k" "\<forall>x \<in> set xs. x = hd xs" by auto
  then show ?thesis using k by (simp add: deriveUnifiedOrPartly_def)
next
  case False
  then show ?thesis using remdups_single [OF assms]
    by (auto simp: deriveUnifiedOrPartly_def split: list.splits)
qed

text \<open>An operation that an aggregated status allows is allowed by the status of some instance.\<close>

lemma derived_wants:
  assumes "xs \<noteq> []" "\<forall>x \<in> set xs. x = a \<or> x = b" "p \<noteq> a" "p \<noteq> b"
    and P: "\<And>x. x = a \<or> x = b \<Longrightarrow> P x \<longleftrightarrow> c \<or> x = w" and "w = a \<or> w = b"
  shows "(deriveUnifiedOrPartly xs False p = p \<or> P (deriveUnifiedOrPartly xs False p)) \<longleftrightarrow> (\<exists>x \<in> set xs. P x)"
proof (cases "\<forall>x \<in> set xs. x = hd xs")
  case True
  have h: "hd xs \<in> set xs" using assms(1) by simp
  then have "hd xs = a \<or> hd xs = b" using assms(2) by blast
  then have "hd xs \<noteq> p" using assms(3,4) by blast
  moreover have "deriveUnifiedOrPartly xs False p = hd xs" using True by (simp add: derive_unified [OF assms(1)])
  moreover have "(\<exists>x \<in> set xs. P x) \<longleftrightarrow> P (hd xs)" using True h by metis
  ultimately show ?thesis by simp
next
  case False
  then obtain x where x: "x \<in> set xs" "x \<noteq> hd xs" by blast
  have h: "hd xs \<in> set xs" using assms(1) by simp
  have "x = a \<or> x = b" "hd xs = a \<or> hd xs = b" using assms(2) x(1) h by blast+
  then have "a \<in> set xs \<and> b \<in> set xs" using x h by auto
  moreover have "P w" using P [of w] assms(6) by blast
  moreover have "deriveUnifiedOrPartly xs False p = p" using False by (simp only: derive_unified [OF assms(1)] if_False)
  ultimately show ?thesis using assms(6) by blast
qed

lemma derived_values:
  assumes "xs \<noteq> []" "\<forall>x \<in> set xs. x = a \<or> x = b"
  shows "deriveUnifiedOrPartly xs False p \<in> {a, b, p}"
  using assms hd_in_set [OF assms(1)] by (auto simp: derive_unified)

lemma settled_unknown: "\<forall>i \<in> set insts. inst_settled (state_of i) \<Longrightarrow>
  \<not> list_ex (\<lambda>i. in_Status i = [] \<or> in_ManagedStatus i = []) insts"
  by (auto simp: list_ex_iff inst_settled_def)

lemma aggregate_settled:
  assumes "insts \<noteq> []" "\<forall>i \<in> set insts. inst_settled (state_of i)"
  shows "ag_procStatus (aggregateInstanceState insts) = deriveUnifiedOrPartly (map in_Status insts) False ''partly_running''"
    and "ag_managedStatus (aggregateInstanceState insts) = deriveUnifiedOrPartly (map in_ManagedStatus insts) False ''partly_managed''"
    and "\<not> ag_hasUnknown (aggregateInstanceState insts)"
proof -
  have f: "filter (\<lambda>s. s \<noteq> []) (map in_Status insts) = map in_Status insts"
    "filter (\<lambda>s. s \<noteq> []) (map in_ManagedStatus insts) = map in_ManagedStatus insts"
    by (rule filter_True, use assms(2) in \<open>force simp: inst_settled_def\<close>)+
  show "ag_procStatus (aggregateInstanceState insts) = deriveUnifiedOrPartly (map in_Status insts) False ''partly_running''"
    "ag_managedStatus (aggregateInstanceState insts) = deriveUnifiedOrPartly (map in_ManagedStatus insts) False ''partly_managed''"
    "\<not> ag_hasUnknown (aggregateInstanceState insts)"
    unfolding aggregateInstanceState_def f Let_def using assms settled_unknown [OF assms(2)] by simp_all
qed

lemma status_wanted_by_some:
  assumes "insts \<noteq> []" "\<forall>i \<in> set insts. inst_settled (state_of i)"
  defines "s \<equiv> deriveUnifiedOrPartly (map in_Status insts) False ''partly_running''"
  shows "s = ''partly_running'' \<or> wants_status op s \<longleftrightarrow> (\<exists>i \<in> set insts. wants_status op (in_Status i))"
    and "s \<in> {''running'', ''stopped'', ''partly_running''}"
proof -
  have two: "\<forall>x \<in> set (map in_Status insts). x = ''running'' \<or> x = ''stopped''"
    using assms(2) by (auto simp: inst_settled_def)
  show "s \<in> {''running'', ''stopped'', ''partly_running''}"
    using derived_values [OF _ two, of "''partly_running''"] assms(1) by (simp add: s_def)
  have w: "\<exists>c w. (w = ''running'' \<or> w = ''stopped'') \<and> (\<forall>x. x = ''running'' \<or> x = ''stopped'' \<longrightarrow> (wants_status op x \<longleftrightarrow> c \<or> x = w))"
    by (cases op) (auto simp: wants_status_def intro: exI [of _ False] exI [of _ True])
  then obtain c w where "w = ''running'' \<or> w = ''stopped''"
    "\<And>x. x = ''running'' \<or> x = ''stopped'' \<Longrightarrow> wants_status op x \<longleftrightarrow> c \<or> x = w" by blast
  from derived_wants [of "map in_Status insts" "''running''" "''stopped''" "''partly_running''", OF _ two _ _ this(2) this(1)]
  show "s = ''partly_running'' \<or> wants_status op s \<longleftrightarrow> (\<exists>i \<in> set insts. wants_status op (in_Status i))"
    using assms(1) by (simp add: s_def)
qed


lemma managed_wanted_by_some:
  assumes "insts \<noteq> []" "\<forall>i \<in> set insts. inst_settled (state_of i)"
  defines "m \<equiv> deriveUnifiedOrPartly (map in_ManagedStatus insts) False ''partly_managed''"
  shows "m = ''partly_managed'' \<or> wants_managed op m \<longleftrightarrow> (\<exists>i \<in> set insts. wants_managed op (in_ManagedStatus i))"
    and "m \<in> {''managed'', ''unmanaged'', ''partly_managed''}"
proof -
  have two: "\<forall>x \<in> set (map in_ManagedStatus insts). x = ''managed'' \<or> x = ''unmanaged''"
    using assms(2) by (auto simp: inst_settled_def)
  show "m \<in> {''managed'', ''unmanaged'', ''partly_managed''}"
    using derived_values [OF _ two, of "''partly_managed''"] assms(1) by (simp add: m_def)
  have w: "\<exists>c w. (w = ''managed'' \<or> w = ''unmanaged'') \<and> (\<forall>x. x = ''managed'' \<or> x = ''unmanaged'' \<longrightarrow> (wants_managed op x \<longleftrightarrow> c \<or> x = w))"
    by (cases op) (auto simp: wants_managed_def intro: exI [of _ False] exI [of _ True])
  then obtain c w where "w = ''managed'' \<or> w = ''unmanaged''"
    "\<And>x. x = ''managed'' \<or> x = ''unmanaged'' \<Longrightarrow> wants_managed op x \<longleftrightarrow> c \<or> x = w" by blast
  from derived_wants [of "map in_ManagedStatus insts" "''managed''" "''unmanaged''" "''partly_managed''", OF _ two _ _ this(2) this(1)]
  show "m = ''partly_managed'' \<or> wants_managed op m \<longleftrightarrow> (\<exists>i \<in> set insts. wants_managed op (in_ManagedStatus i))"
    using assms(1) by (simp add: m_def)
qed

text \<open>An operation looks at one of the two statuses only.\<close>

lemma wants_one: "(\<forall>s. wants_status op s) \<or> (\<forall>m. wants_managed op m)"
  by (cases op) (simp_all add: wants_status_def wants_managed_def)

lemma shown_actions:
  assumes "op \<in> set process_ops"
  shows "map_of (buildProcessActions s m st info u) op =
    Some (if u then \<lparr>aa_Enabled = False, aa_Reason = DisableReasonUnknownProcessState\<rparr>
      else case CanProcessOperate op info s m st of (a, _, r) \<Rightarrow> \<lparr>aa_Enabled = a, aa_Reason = r\<rparr>)"
  using assms by (auto simp: buildProcessActions_def process_ops_def split: prod.splits)

lemma shown_process:
  assumes "pb \<in> set (PbProcessesWithInstances unmarshal procs insts_of)"
    and "unmarshal (ps_SourceData (pr_Spec (pb_Process pb))) = Some info"
  defines "agg \<equiv> aggregateInstanceState (insts_of (pr_ID (pb_Process pb)))"
  shows "pb_ProcActions pb = buildProcessActions (ag_procStatus agg) (ag_managedStatus agg) (sync_of (pb_Process pb)) info
    (ag_hasUnknown agg)"
  using assms(1,2) unfolding PbProcessesWithInstances_def set_concat set_map agg_def
  by (clarsimp simp: Let_def split: option.splits)

text \<open>
  C18: When the instances of a process are all settled, running or stopped and managed or not, an
  operation is offered for the process exactly when the check that its tasks make would allow it for
  at least one of the instances: the aggregated state hides no operation and promises none.
\<close>

theorem offered_iff_some_instance:
  assumes "pb \<in> set (PbProcessesWithInstances unmarshal procs insts_of)"
    and "unmarshal (ps_SourceData (pr_Spec (pb_Process pb))) = Some info"
    and "insts_of (pr_ID (pb_Process pb)) = insts" "insts \<noteq> []" "\<forall>i \<in> set insts. inst_settled (state_of i)"
    and op: "op \<in> set process_ops"
  shows "(\<exists>a. map_of (pb_ProcActions pb) op = Some a \<and> aa_Enabled a) \<longleftrightarrow>
    (\<exists>i \<in> set insts. fst (CanProcessOperate op info (in_Status i) (in_ManagedStatus i) (sync_of (pb_Process pb))))"
proof -
  define st where "st = sync_of (pb_Process pb)"
  let ?agg = "aggregateInstanceState insts"
  have "pb_ProcActions pb = buildProcessActions (ag_procStatus ?agg) (ag_managedStatus ?agg) st info (ag_hasUnknown ?agg)"
    using shown_process [OF assms(1,2)] assms(3) by (simp add: st_def)
  then have "(\<exists>a. map_of (pb_ProcActions pb) op = Some a \<and> aa_Enabled a) \<longleftrightarrow>
    fst (CanProcessOperate op info (ag_procStatus ?agg) (ag_managedStatus ?agg) st)"
    using aggregate_settled(3) [OF assms(4,5)] by (simp only: shown_actions [OF op] if_False)
      (simp add: case_prod_unfold)
  also have "\<dots> \<longleftrightarrow> wants_process op info st \<and> (\<exists>i \<in> set insts. wants_status op (in_Status i))
      \<and> (\<exists>i \<in> set insts. wants_managed op (in_ManagedStatus i))"
    unfolding aggregate_settled(1,2) [OF assms(4,5)]
      can_operate_partly [OF status_wanted_by_some(2) [OF assms(4,5)] managed_wanted_by_some(2) [OF assms(4,5)]]
      status_wanted_by_some(1) [OF assms(4,5)] managed_wanted_by_some(1) [OF assms(4,5)] ..
  also have "\<dots> \<longleftrightarrow> (\<exists>i \<in> set insts. wants_process op info st \<and> wants_status op (in_Status i)
      \<and> wants_managed op (in_ManagedStatus i))"
    using wants_one [of op] assms(4) by blast
  also have "\<dots> \<longleftrightarrow> (\<exists>i \<in> set insts. fst (CanProcessOperate op info (in_Status i) (in_ManagedStatus i) st))"
    using assms(5) can_operate_settled by blast
  finally show ?thesis unfolding st_def .
qed

text \<open>
  As soon as an instance is in between, the aggregated state is partly running, so that starting is
  offered although every instance refuses it: the rule that nothing is allowed meanwhile is lost.
\<close>

theorem offered_while_in_between:
  assumes "set (map in_Status insts) = {''running'', ''starting''}" "\<forall>i \<in> set insts. in_ManagedStatus i = ''managed''"
    and "hasBaseRuntimeInfo info" "HasOperateCommand StartOp info"
  shows "fst (CanProcessOperate StartOp info (ag_procStatus (aggregateInstanceState insts))
      (ag_managedStatus (aggregateInstanceState insts)) Synced)
    \<and> (\<forall>i \<in> set insts. \<not> fst (CanProcessOperate StartOp info (in_Status i) (in_ManagedStatus i) Synced))"
proof
  have st: "in_Status i = ''running'' \<or> in_Status i = ''starting''" if "i \<in> set insts" for i
  proof -
    have "in_Status i \<in> set (map in_Status insts)" using that by simp
    then show ?thesis unfolding assms(1) by blast
  qed
  have ne: "insts \<noteq> []" using assms(1) by (cases insts) simp_all
  have m: "map in_ManagedStatus insts = replicate (length insts) ''managed''"
    using assms(2) by (simp add: map_replicate_const [symmetric])
  have f: "filter (\<lambda>s. s \<noteq> []) (map in_Status insts) = map in_Status insts"
    by (rule filter_True) (use st in force)
  have fm: "filter (\<lambda>s. s \<noteq> []) (map in_ManagedStatus insts) = map in_ManagedStatus insts" by (simp add: m)
  have nu: "\<not> list_ex (\<lambda>i. in_Status i = [] \<or> in_ManagedStatus i = []) insts"
    using st assms(2) by (force simp: list_ex_iff)
  have "\<not> (\<forall>x \<in> set (map in_Status insts). x = hd (map in_Status insts))" 
  proof
    assume "\<forall>x \<in> set (map in_Status insts). x = hd (map in_Status insts)"
    then have "''running'' = hd (map in_Status insts)" "''starting'' = hd (map in_Status insts)"
      unfolding assms(1) by blast+
    then have "''running'' = ''starting''" by (rule trans [OF _ sym])
    then show False by simp
  qed
  then have s: "deriveUnifiedOrPartly (map in_Status insts) False ''partly_running'' = ''partly_running''"
    using ne by (subst derive_unified) (simp, metis)
  have "deriveUnifiedOrPartly (map in_ManagedStatus insts) False ''partly_managed'' = ''managed''"
    using ne m by (subst derive_unified) (cases insts, simp_all)+
  with s show "fst (CanProcessOperate StartOp info (ag_procStatus (aggregateInstanceState insts))
      (ag_managedStatus (aggregateInstanceState insts)) Synced)"
    unfolding aggregateInstanceState_def f fm Let_def using ne nu assms(3,4)
    by (simp add: can_operate_partly wants_process_def wants_managed_def process_ops_def)
  show "\<forall>i \<in> set insts. \<not> fst (CanProcessOperate StartOp info (in_Status i) (in_ManagedStatus i) Synced)"
  proof
    fix i assume i: "i \<in> set insts"
    then have "in_ManagedStatus i = ''managed''" using assms(2) by blast
    with st [OF i] show "\<not> fst (CanProcessOperate StartOp info (in_Status i) (in_ManagedStatus i) Synced)"
      using assms(3,4) by (elim disjE) (simp_all add: can_defs)
  qed
qed

end
