(* ===== verification/ProcSyncProps.thy ===== *)
theory ProcSyncProps
  imports ProcDiff
begin

text \<open>
  What a synchronisation of processes guarantees: the numbers given to instances, the states of the
  rows after it, and that it changes nothing more when it is repeated.
\<close>

section \<open>Sequence numbers on a host\<close>

lemma free_seqs_props:
  "set (free_seqs used i n k) \<subseteq> {i..n} - used \<and> sorted_wrt (<) (free_seqs used i n k) \<and> length (free_seqs used i n k) \<le> k
    \<and> (\<forall>x \<in> {i..n} - used. x \<in> set (free_seqs used i n k)
        \<or> (length (free_seqs used i n k) = k \<and> (\<forall>y \<in> set (free_seqs used i n k). y < x)))"
proof (induction used i n k rule: free_seqs.induct)
  case (1 used i n k)
  show ?case
  proof (cases "i \<le> n \<and> 0 < k")
    case True
    show ?thesis
    proof (cases "i \<in> used")
      case False
      let ?r = "free_seqs used (Suc i) n (k - 1)"
      have e: "free_seqs used i n k = i # ?r" using True False by (simp add: free_seqs.simps [of used i n k])
      have IH: "set ?r \<subseteq> {Suc i..n} - used" "sorted_wrt (<) ?r" "length ?r \<le> k - 1"
        "\<forall>x \<in> {Suc i..n} - used. x \<in> set ?r \<or> (length ?r = k - 1 \<and> (\<forall>y \<in> set ?r. y < x))"
        using 1(1) [OF True False] by auto
      have "x \<in> set (i # ?r) \<or> (length (i # ?r) = k \<and> (\<forall>y \<in> set (i # ?r). y < x))" if "x \<in> {i..n} - used" for x
        using that IH(4) True by (cases "x = i") auto
      then show ?thesis unfolding e using IH(1-3) True False by fastforce
    next
      case used: True
      then have e: "free_seqs used i n k = free_seqs used (Suc i) n k" using True by (simp add: free_seqs.simps [of used i n k])
      have "{i..n} - used = {Suc i..n} - used" using used by (auto simp: le_eq_less_or_eq)
      then show ?thesis using 1(2) [OF True] used unfolding e by simp
    qed
  next
    case False
    then have e: "free_seqs used i n k = []" by (subst free_seqs.simps) (simp only: if_False)
    show ?thesis using False unfolding e by auto
  qed
qed

lemma fold_max_bound: "m \<le> fold max ns (m::nat) \<and> (\<forall>x \<in> set ns. x \<le> fold max ns m)"
proof (induction ns arbitrary: m)
  case (Cons a ns)
  from Cons.IH [of "max a m"] show ?case by auto
qed simp

lemma host_seqs_are_smallest_free_parts:
  shows "length (calcHostInstSeqs used m k) = k"
    and "sorted_wrt (<) (calcHostInstSeqs used m k)"
    and "set (calcHostInstSeqs used m k) \<inter> set used = {} \<and> 0 \<notin> set (calcHostInstSeqs used m k)"
    and "\<not> (\<exists>n. 0 < n \<and> n \<notin> set used \<and> n \<notin> set (calcHostInstSeqs used m k) \<and> (\<exists>x \<in> set (calcHostInstSeqs used m k). n < x))"
proof -
  define M where "M = fold max used m"
  define h where "h = free_seqs (set used) 1 M k"
  have r: "calcHostInstSeqs used m k = h @ [M + 1..<M + 1 + (k - length h)]"
    by (simp add: calcHostInstSeqs_def M_def h_def Let_def)
  have h: "set h \<subseteq> {1..M} - set used" "sorted_wrt (<) h" "length h \<le> k"
    "\<forall>x \<in> {1..M} - set used. x \<in> set h \<or> (length h = k \<and> (\<forall>y \<in> set h. y < x))"
    using free_seqs_props [where used = "set used" and i = 1 and n = M and k = k] unfolding h_def by blast+
  have used: "x \<le> M" if "x \<in> set used" for x using fold_max_bound [of m used] that by (auto simp: M_def)
  have sr: "set (calcHostInstSeqs used m k) = set h \<union> {M + 1..<M + 1 + (k - length h)}" by (simp add: r del: upt_Suc)
  show "length (calcHostInstSeqs used m k) = k" using h(3) by (simp add: r del: upt_Suc)
  show "sorted_wrt (<) (calcHostInstSeqs used m k)"
    using h(1,2) by (auto simp: r sorted_wrt_append) fastforce
  show "set (calcHostInstSeqs used m k) \<inter> set used = {} \<and> 0 \<notin> set (calcHostInstSeqs used m k)"
    using h(1) used by (fastforce simp: r)
  show "\<not> (\<exists>n. 0 < n \<and> n \<notin> set used \<and> n \<notin> set (calcHostInstSeqs used m k) \<and> (\<exists>x \<in> set (calcHostInstSeqs used m k). n < x))"
  proof
    assume "\<exists>n. 0 < n \<and> n \<notin> set used \<and> n \<notin> set (calcHostInstSeqs used m k) \<and> (\<exists>x \<in> set (calcHostInstSeqs used m k). n < x)"
    then obtain n x where n: "0 < n" "n \<notin> set used" "n \<notin> set h" "n \<notin> {M + 1..<M + 1 + (k - length h)}"
      and x: "x \<in> set h \<or> x \<in> {M + 1..<M + 1 + (k - length h)}" "n < x" unfolding sr by blast
    have "n \<le> M" using n(4) x h(1) by (cases "x \<in> set h") auto
    then have "length h = k" "\<forall>y \<in> set h. y < n" using h(4) n by auto
    then show False using x by auto
  qed
qed

text \<open>
  C28: The host sequence numbers for \<open>k\<close> new instances of a process are the \<open>k\<close> smallest positive
  numbers that its instances on the host do not have, in ascending order.
\<close>

theorem host_seqs_are_smallest_free:
  "length (calcHostInstSeqs used m k) = k
    \<and> sorted_wrt (<) (calcHostInstSeqs used m k)
    \<and> set (calcHostInstSeqs used m k) \<inter> set used = {} \<and> 0 \<notin> set (calcHostInstSeqs used m k)
    \<and> \<not> (\<exists>n. 0 < n \<and> n \<notin> set used \<and> n \<notin> set (calcHostInstSeqs used m k) \<and> (\<exists>x \<in> set (calcHostInstSeqs used m k). n < x))"
  using host_seqs_are_smallest_free_parts [of used m k] by blast


section \<open>Sequence numbers in a module\<close>

lemma insort_key_map: "(\<And>x. k (f x) = k x) \<Longrightarrow> insort_key k (f x) (map f xs) = map f (insort_key k x xs)"
  by (induction xs) auto

lemma sort_key_map_same: "(\<And>x. k (f x) = k x) \<Longrightarrow> sort_key k (map f xs) = map f (sort_key k xs)"
  by (induction xs) (auto simp: insort_key_map)

lemma save_rows:
  "distinct (map key us) \<Longrightarrow> key ` set us \<subseteq> key ` set rows \<Longrightarrow>
   fold (save_row key) us rows = map (\<lambda>q. case find (\<lambda>u. key u = key q) us of Some u \<Rightarrow> u | None \<Rightarrow> q) rows"
proof (induction us arbitrary: rows)
  case (Cons u us)
  let ?rows = "map (\<lambda>q. if key q = key u then u else q) rows"
  have s: "save_row key u rows = ?rows" using Cons.prems(2) by (simp add: save_row_def)
  have "map key ?rows = map key rows" by simp
  then have keys: "key ` set ?rows = key ` set rows" by (metis image_set)
  have none: "find (\<lambda>v. key v = key u) us = None" 
    unfolding find_None_iff using Cons.prems(1) by (auto simp: image_iff)
  have "fold (save_row key) us ?rows = map (\<lambda>q. case find (\<lambda>v. key v = key q) us of Some v \<Rightarrow> v | None \<Rightarrow> q) ?rows"
    using Cons.IH [of ?rows] Cons.prems keys by auto
  then show ?case using none by (auto simp: s split: option.splits)
qed simp

lemma collect_from_ids: "in_ID u \<in> in_ID ` set xs" if "u \<in> set (collect_from i xs)"
  using that by (induction xs arbitrary: i) (auto split: if_splits)

lemma collect_from_none: "d \<notin> in_ID ` set xs \<Longrightarrow> find (\<lambda>u. in_ID u = d) (collect_from i xs) = None"
  unfolding find_None_iff using collect_from_ids by fastforce

lemma collect_from_find:
  "distinct (map in_ID xs) \<Longrightarrow> j < length xs \<Longrightarrow>
   find (\<lambda>u. in_ID u = in_ID (xs ! j)) (collect_from i xs)
     = (if in_ModuleInstSeq (xs ! j) = i + j + 1 then None else Some ((xs ! j)\<lparr>in_ModuleInstSeq := i + j + 1\<rparr>))"
proof (induction xs arbitrary: i j)
  case (Cons x xs)
  show ?case
  proof (cases j)
    case 0
    have "find (\<lambda>u. in_ID u = in_ID x) (collect_from (i + 1) xs) = None"
      using Cons.prems(1) by (intro collect_from_none) auto
    then show ?thesis using 0 by simp
  next
    case (Suc n)
    then have "xs ! n \<in> set xs" using Cons.prems by simp
    then have "in_ID x \<noteq> in_ID (xs ! n)" using Cons.prems(1) by auto
    then show ?thesis using Suc Cons.IH [of n "i + 1"] Cons.prems by simp
  qed
qed simp

lemma distinct_collect_from: "distinct (map in_ID xs) \<Longrightarrow> distinct (map in_ID (collect_from i xs))"
  using collect_from_ids by (induction xs arbitrary: i) fastforce+

lemma set_module_instances: "set (module_instances biz m al db) \<subseteq> set (db_Instances db)"
  by (auto simp: module_instances_def ListByProcessIDsWithTx_def)

lemma distinct_sort_ids: "distinct (map in_ID xs) \<Longrightarrow> distinct (map in_ID (sort_key k xs))"
  by (simp add: distinct_map)

lemma distinct_module_instances:
  "distinct (map in_ID (db_Instances db)) \<Longrightarrow> distinct (map in_ID (module_instances biz m al db))"
  by (auto simp: module_instances_def ListByProcessIDsWithTx_def intro!: distinct_sort_ids distinct_map_filter)

text \<open>The renumbering sets one column of the rows of the module.\<close>

lemma reorder_module_rows:
  assumes "distinct (map in_ID (db_Instances db))"
  obtains g where "db_Instances (reorder_module biz (m, al) db) = map (\<lambda>q. q\<lparr>in_ModuleInstSeq := g q\<rparr>) (db_Instances db)"
    and "\<forall>j < length (module_instances biz m al db). g (module_instances biz m al db ! j) = j + 1"
    and "\<forall>q \<in> set (db_Instances db). q \<notin> set (module_instances biz m al db) \<longrightarrow> g q = in_ModuleInstSeq q"
proof -
  let ?xs = "module_instances biz m al db"
  let ?us = "calcModuleInstSeqUpdatesTx biz m al db"
  have us: "?us = collect_from 0 ?xs"
    by (simp add: calcModuleInstSeqUpdatesTx_def collectSeqUpdates_def module_instances_def ListByProcessIDsWithTx_def)
  have dxs: "distinct (map in_ID ?xs)" by (rule distinct_module_instances [OF assms])
  define f where "f q = (case find (\<lambda>u. in_ID u = in_ID q) ?us of Some u \<Rightarrow> u | None \<Rightarrow> q)" for q
  define g where "g q = in_ModuleInstSeq (f q)" for q
  have sub: "in_ID ` set ?us \<subseteq> in_ID ` set (db_Instances db)"
    using collect_from_ids [of _ 0 ?xs] set_module_instances [of biz m al db] unfolding us by fast
  have rows: "db_Instances (reorder_module biz (m, al) db) = map f (db_Instances db)"
    using save_rows [OF distinct_collect_from [OF dxs, of 0, folded us] sub]
    by (simp add: reorder_module_def inst_BatchUpdateWithTx_def f_def)
  have in_xs: "f (?xs ! j) = (?xs ! j)\<lparr>in_ModuleInstSeq := j + 1\<rparr>" if "j < length ?xs" for j
    using collect_from_find [OF dxs that, of 0] by (auto simp: f_def us)
  have out: "f q = q" if "q \<in> set (db_Instances db)" "q \<notin> set ?xs" for q
  proof -
    have "in_ID q \<notin> in_ID ` set ?xs"
    proof
      assume "in_ID q \<in> in_ID ` set ?xs"
      then obtain x where "x \<in> set ?xs" "in_ID x = in_ID q" by auto
      then have "x = q" using assms that(1) set_module_instances [of biz m al db] by (auto simp: distinct_map inj_on_def)
      then show False using \<open>x \<in> set ?xs\<close> that(2) by simp
    qed
    then have "find (\<lambda>u. in_ID u = in_ID q) ?us = None" unfolding us by (rule collect_from_none)
    then show ?thesis by (simp add: f_def)
  qed
  have "f q = q\<lparr>in_ModuleInstSeq := g q\<rparr>" if "q \<in> set (db_Instances db)" for q
  proof (cases "q \<in> set ?xs")
    case True
    then obtain j where "j < length ?xs" "q = ?xs ! j" by (auto simp: in_set_conv_nth)
    then show ?thesis using in_xs by (simp add: g_def)
  qed (simp add: out that g_def)
  then have "db_Instances (reorder_module biz (m, al) db) = map (\<lambda>q. q\<lparr>in_ModuleInstSeq := g q\<rparr>) (db_Instances db)"
    using rows by simp
  moreover have "\<forall>j < length ?xs. g (?xs ! j) = j + 1" using in_xs by (simp add: g_def)
  moreover have "\<forall>q \<in> set (db_Instances db). q \<notin> set ?xs \<longrightarrow> g q = in_ModuleInstSeq q" using out by (simp add: g_def)
  ultimately show thesis by (rule that)
qed

lemma renumbering_is_contiguous_parts:
  assumes "distinct (map in_ID (db_Instances db))"
  shows "map in_ModuleInstSeq (module_instances biz m al (reorder_module biz (m, al) db))
      = [1..<length (module_instances biz m al db) + 1]"
    and "map (\<lambda>q. q\<lparr>in_ModuleInstSeq := 0\<rparr>) (db_Instances (reorder_module biz (m, al) db))
      = map (\<lambda>q. q\<lparr>in_ModuleInstSeq := 0\<rparr>) (db_Instances db)"
    and "calcModuleInstSeqUpdatesTx biz m al (reorder_module biz (m, al) db) = []"
proof -
  let ?db = "reorder_module biz (m, al) db"
  let ?xs = "module_instances biz m al db"
  obtain g where g: "db_Instances ?db = map (\<lambda>q. q\<lparr>in_ModuleInstSeq := g q\<rparr>) (db_Instances db)"
    "\<forall>j < length ?xs. g (?xs ! j) = j + 1" by (rule reorder_module_rows [OF assms])
  have p: "db_Processes ?db = db_Processes db" by (simp add: reorder_module_def inst_BatchUpdateWithTx_def)
  then have ids: "ListByModuleIDAndAliasWithTx biz m al ?db = ListByModuleIDAndAliasWithTx biz m al db"
    by (simp add: ListByModuleIDAndAliasWithTx_def)
  have xs: "module_instances biz m al ?db = map (\<lambda>q. q\<lparr>in_ModuleInstSeq := g q\<rparr>) ?xs"
  proof -
    let ?f = "\<lambda>q. q\<lparr>in_ModuleInstSeq := g q\<rparr>"
    let ?ids = "ListByModuleIDAndAliasWithTx biz m al db"
    have s1: "sort_key in_HostInstSeq (map ?f ys) = map ?f (sort_key in_HostInstSeq ys)" for ys
      by (rule sort_key_map_same) simp
    have s2: "sort_key in_ProcessID (map ?f ys) = map ?f (sort_key in_ProcessID ys)" for ys
      by (rule sort_key_map_same) simp
    have s3: "sort_key in_CcProcessID (map ?f ys) = map ?f (sort_key in_CcProcessID ys)" for ys
      by (rule sort_key_map_same) simp
    have fl: "filter (\<lambda>i. in_BizID i = biz \<and> in_ProcessID i \<in> set ?ids) (map ?f ys)
        = map ?f (filter (\<lambda>i. in_BizID i = biz \<and> in_ProcessID i \<in> set ?ids) ys)" for ys
      by (induction ys) auto
    have "ListByProcessIDsWithTx biz ?ids ?db = map ?f (ListByProcessIDsWithTx biz ?ids db)"
      unfolding ListByProcessIDsWithTx_def g(1) fl s1 s2 by simp
    then show ?thesis unfolding module_instances_def ids s1 s3 by (simp only: s1 s3)
  qed
  show seq: "map in_ModuleInstSeq (module_instances biz m al ?db) = [1..<length ?xs + 1]"
    using g(2) by (intro nth_equalityI) (auto simp: xs simp del: upt_Suc)
  show "map (\<lambda>q. q\<lparr>in_ModuleInstSeq := 0\<rparr>) (db_Instances ?db) = map (\<lambda>q. q\<lparr>in_ModuleInstSeq := 0\<rparr>) (db_Instances db)"
    by (simp add: g(1))
  have "collect_from i ys = []" if "map in_ModuleInstSeq ys = [i + 1..<length ys + i + 1]" for i ys
    using that by (induction ys arbitrary: i) (auto simp: upt_conv_Cons simp del: upt_Suc)
  from this [of _ 0] show "calcModuleInstSeqUpdatesTx biz m al ?db = []"
    using seq by (simp add: calcModuleInstSeqUpdatesTx_def collectSeqUpdates_def xs del: upt_Suc)
qed

text \<open>
  C27: Renumbering the instances of a module and alias gives them the numbers from 1 on, without gaps,
  in the order of their processes and of their numbers on the host. It changes nothing else, and
  renumbering again has nothing to change.
\<close>

theorem renumbering_is_contiguous:
  assumes "distinct (map in_ID (db_Instances db))"
  shows "map in_ModuleInstSeq (module_instances biz m al (reorder_module biz (m, al) db))
      = [1..<length (module_instances biz m al db) + 1]
    \<and> map (\<lambda>q. q\<lparr>in_ModuleInstSeq := 0\<rparr>) (db_Instances (reorder_module biz (m, al) db))
      = map (\<lambda>q. q\<lparr>in_ModuleInstSeq := 0\<rparr>) (db_Instances db)
    \<and> calcModuleInstSeqUpdatesTx biz m al (reorder_module biz (m, al) db) = []"
  by (intro conjI renumbering_is_contiguous_parts assms)


section \<open>Conflicting aliases\<close>

definition live :: "nat \<Rightarrow> process \<Rightarrow> bool" where
  "live biz p \<longleftrightarrow> biz_id p = biz \<and> sync_of p \<noteq> Deleted"

definition conflicting :: "process \<Rightarrow> process \<Rightarrow> bool" where
  "conflicting p q \<longleftrightarrow> pr_ID p \<noteq> pr_ID q \<and> pa_HostID (pr_Attachment p) = pa_HostID (pr_Attachment q) \<and> alias_of p = alias_of q"

lemma two_in_filter:
  assumes "distinct (map k xs)" "p \<in> set xs" "P p"
  shows "1 < length (filter P xs) \<longleftrightarrow> (\<exists>q \<in> set xs. k q \<noteq> k p \<and> P q)"
proof -
  have d: "distinct (map k (filter P xs))" using assms(1) by (rule distinct_map_filter)
  have p: "p \<in> set (filter P xs)" using assms(2,3) by simp
  show ?thesis
  proof (cases "filter P xs")
    case (Cons a as)
    show ?thesis
    proof (cases as)
      case Nil
      then have "set (filter P xs) = {p}" using Cons p by auto
      then have "q = p" if "q \<in> set xs" "P q" for q using that by auto
      then show ?thesis using Cons Nil by auto
    next
      case (Cons b bs)
      then have ab: "{a, b} \<subseteq> set (filter P xs)" "k a \<noteq> k b" using \<open>filter P xs = a # as\<close> d by auto
      then obtain q where "q \<in> {a, b}" "k q \<noteq> k p" by (metis insertI1 insertI2)
      then have "\<exists>q \<in> set xs. k q \<noteq> k p \<and> P q" using ab by auto
      then show ?thesis using Cons \<open>filter P xs = a # as\<close> by simp
    qed
  qed (use p in simp)
qed

lemma set_status_simps [simp]:
  "pr_ID (set_status st p) = pr_ID p" "pr_Attachment (set_status st p) = pr_Attachment p"
  "alias_of (set_status st p) = alias_of p" "sync_of (set_status st p) = st"
  by (simp_all add: set_status_def)

lemma duplicate_ids:
  assumes "distinct (map pr_ID (db_Processes db))" "p \<in> set (db_Processes db)"
  shows "pr_ID p \<in> set (ListDuplicateHostAliasWithTx biz db)
    \<longleftrightarrow> live biz p \<and> (\<exists>q \<in> set (db_Processes db). live biz q \<and> conflicting p q)"
proof -
  let ?l = "filter (live biz) (db_Processes db)"
  have d: "distinct (map pr_ID ?l)" using assms(1) by (rule distinct_map_filter)
  have same: "r = p" if "r \<in> set (db_Processes db)" "pr_ID r = pr_ID p" for r
    using assms that by (auto simp: distinct_map inj_on_def)
  have dup: "ListDuplicateHostAliasWithTx biz db = map pr_ID (filter (\<lambda>p. 1 < length (filter (\<lambda>q.
      pa_HostID (pr_Attachment q) = pa_HostID (pr_Attachment p) \<and> alias_of q = alias_of p) ?l)) ?l)"
    by (simp add: ListDuplicateHostAliasWithTx_def Let_def live_def [abs_def])
  show ?thesis
  proof (cases "live biz p")
    case True
    then have p: "p \<in> set ?l" using assms(2) by simp
    have "1 < length (filter (\<lambda>q. pa_HostID (pr_Attachment q) = pa_HostID (pr_Attachment p) \<and> alias_of q = alias_of p) ?l)
      \<longleftrightarrow> (\<exists>q \<in> set ?l. pr_ID q \<noteq> pr_ID p \<and> pa_HostID (pr_Attachment q) = pa_HostID (pr_Attachment p) \<and> alias_of q = alias_of p)"
      by (rule two_in_filter [OF d p]) simp
    then show ?thesis using p same by (auto simp: dup conflicting_def)
  next
    case False
    then show ?thesis using same by (auto simp: dup)
  qed
qed

text \<open>
  C26: After the check for conflicts, a live process of the business is marked as abnormal exactly when
  another live process of the business has its host and its alias.
\<close>

theorem abnormal_iff_conflict:
  assumes "distinct (map pr_ID (db_Processes db))"
    and "p \<in> set (db_Processes (CheckAndMarkHostAliasConflicts biz db))" "live biz p"
  shows "sync_of p = Abnormal
    \<longleftrightarrow> (\<exists>q \<in> set (db_Processes (CheckAndMarkHostAliasConflicts biz db)). live biz q \<and> conflicting p q)"
proof -
  define f where "f r = (if pr_ID r \<in> set (ListDuplicateHostAliasWithTx biz db) then set_status Abnormal r
    else if biz_id r = biz \<and> sync_of r = Abnormal then set_status Synced r else r)" for r
  have rows: "db_Processes (CheckAndMarkHostAliasConflicts biz db) = map f (db_Processes db)"
    by (auto simp: CheckAndMarkHostAliasConflicts_def Let_def RestoreAbnormalWithTx_def UpdateSyncStatusWithTx_def f_def)
  have live: "live biz (f r) \<longleftrightarrow> live biz r" if "r \<in> set (db_Processes db)" for r
    using duplicate_ids [OF assms(1) that, of biz] by (auto simp: f_def live_def)
  have conf: "conflicting (f r) (f q) \<longleftrightarrow> conflicting r q" for r q by (auto simp: f_def conflicting_def)
  obtain r where r: "r \<in> set (db_Processes db)" "p = f r" using assms(2) by (auto simp: rows)
  have lr: "live biz r" using live [OF r(1)] assms(3) r(2) by simp
  have "sync_of p = Abnormal \<longleftrightarrow> pr_ID r \<in> set (ListDuplicateHostAliasWithTx biz db)"
    using lr by (auto simp: r(2) f_def live_def)
  also have "\<dots> \<longleftrightarrow> (\<exists>q \<in> set (db_Processes db). live biz q \<and> conflicting r q)"
    using duplicate_ids [OF assms(1) r(1), of biz] lr by simp
  also have "\<dots> \<longleftrightarrow> (\<exists>q \<in> set (db_Processes (CheckAndMarkHostAliasConflicts biz db)). live biz q \<and> conflicting p q)"
    using live conf by (auto simp: rows r(2))
  finally show ?thesis .
qed

section \<open>Repeating a synchronisation\<close>

definition settled :: "(string \<Rightarrow> process_info option) \<Rightarrow> process \<Rightarrow> process \<Rightarrow> bool" where
  "settled unmarshal new p \<longleftrightarrow>
     compareProcessInfo unmarshal (ps_SourceData (pr_Spec new)) (ps_SourceData (pr_Spec p)) = Inr True
     \<and> \<not> changed (with_agent_status new) p"

lemma settled_no_changes: "settled unmarshal new p \<Longrightarrow> BuildProcessChanges unmarshal db ctx new p = Inr (no_changes, ctx)"
  by (simp add: settled_def BuildProcessChanges_def Let_def)

lemma compare_same: "compareProcessInfo unmarshal a b = Inr x \<Longrightarrow> compareProcessInfo unmarshal a a = Inr True"
  by (auto simp: compareProcessInfo_def split: option.splits)

text \<open>What is written for a process, by its way through the function.\<close>

lemma BuildProcessChanges_cases:
  assumes "BuildProcessChanges unmarshal db ctx new old = Inr (ch, ctx')"
  obtains (none) "ch = no_changes" "ctx' = ctx"
  | (in_place) same base where "compareProcessInfo unmarshal (ps_SourceData (pr_Spec new)) (ps_SourceData (pr_Spec old)) = Inr same"
      "base = take_over (with_agent_status new) old \<or>
       base = (take_over (with_agent_status new) old)\<lparr>pr_Spec := (pr_Spec (take_over (with_agent_status new) old))
         \<lparr>ps_NewAlias := alias_of new, ps_Alias := alias_of new\<rparr>\<rparr>"
      "alias_of base = alias_of new"
      "update_in_place db ctx (with_agent_status new) base (\<not> same) (isSafeToUpdateProcess db (biz_id old) (pr_ID old)) = (ch, ctx')"
  | (reuse) same base r where "compareProcessInfo unmarshal (ps_SourceData (pr_Spec new)) (ps_SourceData (pr_Spec old)) = Inr same"
      "pr_ID base = pr_ID old" "GetByCcProcessIDAndAliasTx (biz_id old) (cc_id old) (alias_of new) db = Some r"
      "reuse_process db ctx (with_agent_status new) base r = (ch, ctx')"
  | (recreate) same base where "compareProcessInfo unmarshal (ps_SourceData (pr_Spec new)) (ps_SourceData (pr_Spec old)) = Inr same"
      "pr_ID base = pr_ID old" "recreate_process db ctx (with_agent_status new) base = (ch, ctx')"
proof -
  obtain same where same: "compareProcessInfo unmarshal (ps_SourceData (pr_Spec new)) (ps_SourceData (pr_Spec old)) = Inr same"
    using assms by (auto simp: BuildProcessChanges_def res_simps)
  have a: "alias_of (with_agent_status new) = alias_of new" by (simp add: with_agent_status_def)
  have t: "alias_of (take_over n old) = alias_of old" "pr_ID (take_over n old) = pr_ID old" for n
    by (simp_all add: take_over_def)
  show thesis
  proof (cases "same \<and> \<not> changed (with_agent_status new) old")
    case True
    then show ?thesis using assms same by (intro none) (auto simp: BuildProcessChanges_def Let_def)
  next
    case nochange: False
    show ?thesis
    proof (cases "alias_of new = alias_of old")
      case True
      then show ?thesis using assms same nochange
        by (intro in_place [OF same, of "take_over (with_agent_status new) old"]) (auto simp: BuildProcessChanges_def Let_def a t)
    next
      case False
      show ?thesis
      proof (cases "GetByCcProcessIDAndAliasTx (biz_id old) (cc_id old) (alias_of new) db")
        case (Some r)
        let ?b = "(take_over (with_agent_status new) old)\<lparr>pr_Spec := (pr_Spec (take_over (with_agent_status new) old))
            \<lparr>ps_NewAlias := alias_of new\<rparr>\<rparr>"
        show ?thesis using assms same nochange False Some
          by (intro reuse [OF same, of ?b, OF _ Some]) (auto simp: BuildProcessChanges_def Let_def a t)
      next
        case None
        show ?thesis
        proof (cases "isSafeToUpdateProcess db (biz_id old) (pr_ID old)")
          case True
          show ?thesis using assms same nochange False None True
            by (intro in_place [OF same disjI2 [OF refl]]) (auto simp: BuildProcessChanges_def Let_def a t)
        next
          case unsafe: False
          let ?b = "(take_over (with_agent_status new) old)\<lparr>pr_Spec := (pr_Spec (take_over (with_agent_status new) old))
            \<lparr>ps_NewAlias := alias_of new\<rparr>\<rparr>"
          show ?thesis using assms same nochange False None unsafe
            by (intro recreate [OF same, of ?b]) (auto simp: BuildProcessChanges_def Let_def a t)
        qed
      qed
    qed
  qed
qed

lemma update_in_place_row:
  assumes "update_in_place db ctx newP base infoChanged safe = (ch, ctx')"
  shows "ch_ToAddProcess ch = None" "ch_ToDeleteProcess ch = None"
    and "\<exists>p. ch_ToUpdateProcess ch = Some p \<and> pr_ID p = pr_ID base \<and> pr_Attachment p = pr_Attachment base
      \<and> ps_SourceData (pr_Spec p) = (if infoChanged then ps_SourceData (pr_Spec newP) else ps_SourceData (pr_Spec base))
      \<and> ps_ProcNum (pr_Spec p) = ps_ProcNum (pr_Spec newP) \<and> alias_of p = alias_of base
      \<and> ps_OsType (pr_Spec p) = ps_OsType (pr_Spec base) \<and> ps_AgentStatus (pr_Spec p) = ps_AgentStatus (pr_Spec base)
      \<and> ps_ServiceName (pr_Spec p) = ps_ServiceName (pr_Spec base) \<and> ps_Environment (pr_Spec p) = ps_Environment (pr_Spec base)"
  using assms by (auto simp: update_in_place_def Let_def no_changes_def split: prod.splits if_splits)

lemma reuse_process_row:
  assumes "reuse_process db ctx newP base r = (ch, ctx')"
  shows "ch_ToAddProcess ch = None" "ch_ToDeleteProcess ch = Some base"
    and "\<exists>p. ch_ToUpdateProcess ch = Some p \<and> pr_ID p = pr_ID r \<and> pr_Attachment p = pr_Attachment newP
      \<and> ps_SourceData (pr_Spec p) = ps_SourceData (pr_Spec newP)
      \<and> ps_ProcNum (pr_Spec p) = ps_ProcNum (pr_Spec newP) \<and> alias_of p = alias_of r
      \<and> (ps_OsType (pr_Spec newP) \<noteq> [] \<longrightarrow> ps_OsType (pr_Spec p) = ps_OsType (pr_Spec newP))
      \<and> (ps_AgentStatus (pr_Spec newP) \<noteq> [] \<longrightarrow> ps_AgentStatus (pr_Spec p) = ps_AgentStatus (pr_Spec newP))
      \<and> ps_ServiceName (pr_Spec p) = ps_ServiceName (pr_Spec newP) \<and> ps_Environment (pr_Spec p) = ps_Environment (pr_Spec newP)
      \<and> sync_of p = Synced"
  using assms by (auto simp: reuse_process_def Let_def no_changes_def resolveOsType_def split: prod.splits if_splits)

lemma recreate_process_row:
  assumes "recreate_process db ctx newP base = (ch, ctx')"
  shows "ch_ToUpdateProcess ch = None" "ch_ToDeleteProcess ch = Some base"
    and "\<exists>p. ch_ToAddProcess ch = Some p \<and> pr_Attachment p = pr_Attachment newP
      \<and> ps_SourceData (pr_Spec p) = ps_SourceData (pr_Spec newP)
      \<and> ps_ProcNum (pr_Spec p) = ps_ProcNum (pr_Spec newP) \<and> alias_of p = alias_of newP
      \<and> (ps_OsType (pr_Spec newP) \<noteq> [] \<longrightarrow> ps_OsType (pr_Spec p) = ps_OsType (pr_Spec newP))
      \<and> ps_AgentStatus (pr_Spec p) = ps_AgentStatus (pr_Spec newP)
      \<and> ps_ServiceName (pr_Spec p) = ps_ServiceName (pr_Spec newP) \<and> ps_Environment (pr_Spec p) = ps_Environment (pr_Spec newP)
      \<and> sync_of p = Synced"
  using assms by (auto simp: recreate_process_def Let_def no_changes_def resolveOsType_def split: prod.splits if_splits)

lemma GetByCc_row:
  "GetByCcProcessIDAndAliasTx biz cc al db = Some r \<Longrightarrow> r \<in> set (db_Processes db) \<and> biz_id r = biz \<and> cc_id r = cc \<and> alias_of r = al"
  by (auto simp: GetByCcProcessIDAndAliasTx_def find_Some_iff)

lemma with_agent_status_simps [simp]:
  "pr_Attachment (with_agent_status new) = pr_Attachment new" "alias_of (with_agent_status new) = alias_of new"
  "ps_SourceData (pr_Spec (with_agent_status new)) = ps_SourceData (pr_Spec new)"
  "ps_ProcNum (pr_Spec (with_agent_status new)) = ps_ProcNum (pr_Spec new)"
  by (simp_all add: with_agent_status_def)

text \<open>
  C25: What a synchronisation writes for a process, whether it updates its row, takes up a deleted one
  or adds a new one, is settled: compared again with the same data there is nothing to change. The
  identifier that a new row gets, and the mark of a conflict, make no difference.
\<close>

theorem written_process_is_settled:
  assumes "BuildProcessChanges unmarshal db ctx new old = Inr (ch, ctx')"
    and "ch_ToUpdateProcess ch = Some p \<or> ch_ToAddProcess ch = Some p"
  shows "BuildProcessChanges unmarshal db2 ctx2 new (set_status st (p\<lparr>pr_ID := i\<rparr>)) = Inr (no_changes, ctx2)"
proof -
  have "settled unmarshal new p"
    using assms(1)
  proof (cases rule: BuildProcessChanges_cases)
    case none
    then show ?thesis using assms(2) by (simp add: no_changes_def)
  next
    case (in_place same base)
    note u = update_in_place_row [OF in_place(4)]
    have p: "ch_ToUpdateProcess ch = Some p" using u(1) assms(2) by simp
    have "compareProcessInfo unmarshal (ps_SourceData (pr_Spec new)) (ps_SourceData (pr_Spec p)) = Inr True"
      using u(3) p in_place(1,2) compare_same [OF in_place(1)] by (cases same) (auto simp: take_over_def)
    moreover have "\<not> changed (with_agent_status new) p"
      using u(3) p in_place(2,3) by (auto simp: changed_def take_over_def split: if_splits)
    ultimately show ?thesis by (simp add: settled_def)
  next
    case (reuse same base r)
    note u = reuse_process_row [OF reuse(4)]
    have p: "ch_ToUpdateProcess ch = Some p" using u(1) assms(2) by simp
    show ?thesis using u(3) p compare_same [OF reuse(1)] GetByCc_row [OF reuse(3)]
      by (auto simp: settled_def changed_def)
  next
    case (recreate same base)
    note u = recreate_process_row [OF recreate(3)]
    have p: "ch_ToAddProcess ch = Some p" using u(1) assms(2) by simp
    show ?thesis using u(3) p compare_same [OF recreate(1)] by (auto simp: settled_def changed_def)
  qed
  then have "settled unmarshal new (set_status st (p\<lparr>pr_ID := i\<rparr>))"
    by (simp add: settled_def changed_def set_status_def)
  then show ?thesis by (rule settled_no_changes)
qed

section \<open>Rows that are deleted, and rows that stay\<close>

lemma index_by_cc_row: "index_by_cc ps cc = Some p \<Longrightarrow> p \<in> set ps \<and> cc_id p = cc"
  by (auto simp: index_by_cc_def find_Some_iff) (metis length_rev nth_mem set_rev)

lemma build_rows:
  assumes "BuildProcessChanges unmarshal db ctx new old = Inr (ch, ctx')"
  shows "ch_ToUpdateProcess ch = Some p \<Longrightarrow> pr_ID p = pr_ID old \<or> (\<exists>r \<in> set (db_Processes db). pr_ID p = pr_ID r \<and> cc_id r = cc_id old)"
    and "ch_ToDeleteProcess ch = Some p \<Longrightarrow> pr_ID p = pr_ID old"
  using assms
proof (atomize (full), cases rule: BuildProcessChanges_cases)
  case none
  then show "(ch_ToUpdateProcess ch = Some p \<longrightarrow> pr_ID p = pr_ID old \<or> (\<exists>r \<in> set (db_Processes db). pr_ID p = pr_ID r \<and> cc_id r = cc_id old))
    \<and> (ch_ToDeleteProcess ch = Some p \<longrightarrow> pr_ID p = pr_ID old)" by (simp add: no_changes_def)
next
  case (in_place same base)
  then have "pr_ID base = pr_ID old" by (auto simp: take_over_def)
  then show "(ch_ToUpdateProcess ch = Some p \<longrightarrow> pr_ID p = pr_ID old \<or> (\<exists>r \<in> set (db_Processes db). pr_ID p = pr_ID r \<and> cc_id r = cc_id old))
    \<and> (ch_ToDeleteProcess ch = Some p \<longrightarrow> pr_ID p = pr_ID old)"
    using update_in_place_row [OF in_place(4)] by auto
next
  case (reuse same base r)
  then show "(ch_ToUpdateProcess ch = Some p \<longrightarrow> pr_ID p = pr_ID old \<or> (\<exists>r \<in> set (db_Processes db). pr_ID p = pr_ID r \<and> cc_id r = cc_id old))
    \<and> (ch_ToDeleteProcess ch = Some p \<longrightarrow> pr_ID p = pr_ID old)"
    using reuse_process_row [OF reuse(4)] GetByCc_row [OF reuse(3)] by auto
next
  case (recreate same base)
  then show "(ch_ToUpdateProcess ch = Some p \<longrightarrow> pr_ID p = pr_ID old \<or> (\<exists>r \<in> set (db_Processes db). pr_ID p = pr_ID r \<and> cc_id r = cc_id old))
    \<and> (ch_ToDeleteProcess ch = Some p \<longrightarrow> pr_ID p = pr_ID old)"
    using recreate_process_row [OF recreate(3)] by auto
qed

text \<open>A row of the new list that has something to change for its process.\<close>

definition touches :: "(string \<Rightarrow> process_info option) \<Rightarrow> proc_db \<Rightarrow> process list \<Rightarrow> process \<Rightarrow> nat \<Rightarrow> bool" where
  "touches unmarshal db dbs new i \<longleftrightarrow> (\<exists>old. index_by_cc dbs (cc_id new) = Some old \<and> \<not> settled unmarshal new old
     \<and> (pr_ID old = i \<or> (\<exists>r \<in> set (db_Processes db). pr_ID r = i \<and> cc_id r = cc_id old)))"

lemma diff_loop_rows:
  "diff_loop unmarshal db dbs news ctx d = Inr (d', ctx') \<Longrightarrow>
    (\<forall>p \<in> set (df_ToUpdateProcesses d'). p \<in> set (df_ToUpdateProcesses d)
       \<or> (\<exists>new \<in> set news. touches unmarshal db dbs new (pr_ID p)))
    \<and> (\<forall>p \<in> set (df_ToDeleteProcesses d'). p \<in> set (df_ToDeleteProcesses d)
       \<or> (\<exists>new \<in> set news. touches unmarshal db dbs new (pr_ID p)))"
proof (induction news arbitrary: ctx d)
  case (Cons new news)
  obtain ch c where one: "(case index_by_cc dbs (cc_id new) of
        None \<Rightarrow> Inr (new_changes db ctx new)
      | Some oldP \<Rightarrow> BuildProcessChanges unmarshal db ctx new oldP) = Inr (ch, c)"
    and rest: "diff_loop unmarshal db dbs news c (add_changes ch d) = Inr (d', ctx')"
    using Cons.prems by (auto simp: res_simps)
  have t: "touches unmarshal db dbs new (pr_ID p)" if "ch_ToUpdateProcess ch = Some p \<or> ch_ToDeleteProcess ch = Some p" for p
  proof (cases "index_by_cc dbs (cc_id new)")
    case None
    then show ?thesis using one that by (auto simp: new_changes_def Let_def no_changes_def split: prod.splits)
  next
    case (Some old)
    then have b: "BuildProcessChanges unmarshal db ctx new old = Inr (ch, c)" using one by simp
    have ns: "\<not> settled unmarshal new old"
      using settled_no_changes [of unmarshal new old db ctx] b that by (auto simp: no_changes_def)
    have "pr_ID p = pr_ID old \<or> (\<exists>r \<in> set (db_Processes db). pr_ID p = pr_ID r \<and> cc_id r = cc_id old)"
      using build_rows(1) [OF b, of p] build_rows(2) [OF b, of p] that by blast
    then have "pr_ID old = pr_ID p \<or> (\<exists>r \<in> set (db_Processes db). pr_ID r = pr_ID p \<and> cc_id r = cc_id old)"
      by (simp only: eq_commute [of "pr_ID p"])
    with Some ns show ?thesis unfolding touches_def by blast
  qed
  have u: "p \<in> set (df_ToUpdateProcesses (add_changes ch d)) \<longleftrightarrow> p \<in> set (df_ToUpdateProcesses d) \<or> ch_ToUpdateProcess ch = Some p"
    "p \<in> set (df_ToDeleteProcesses (add_changes ch d)) \<longleftrightarrow> p \<in> set (df_ToDeleteProcesses d) \<or> ch_ToDeleteProcess ch = Some p" for p
    by (auto simp: add_changes_def map_filter_simps split: option.splits)
  note ih = Cons.IH [OF rest, unfolded u]
  show ?case
  proof (intro conjI ballI)
    fix p assume "p \<in> set (df_ToUpdateProcesses d')"
    then have "(p \<in> set (df_ToUpdateProcesses d) \<or> ch_ToUpdateProcess ch = Some p) \<or> (\<exists>new \<in> set news. touches unmarshal db dbs new (pr_ID p))"
      using ih by blast
    then show "p \<in> set (df_ToUpdateProcesses d) \<or> (\<exists>new \<in> set (new # news). touches unmarshal db dbs new (pr_ID p))"
      using t [of p] by auto
  next
    fix p assume "p \<in> set (df_ToDeleteProcesses d')"
    then have "(p \<in> set (df_ToDeleteProcesses d) \<or> ch_ToDeleteProcess ch = Some p) \<or> (\<exists>new \<in> set news. touches unmarshal db dbs new (pr_ID p))"
      using ih by blast
    then show "p \<in> set (df_ToDeleteProcesses d) \<or> (\<exists>new \<in> set (new # news). touches unmarshal db dbs new (pr_ID p))"
      using t [of p] by auto
  qed
qed auto

text \<open>The rows of processes after the difference has been applied.\<close>

lemma mark_deleted:
  "\<exists>g. db_Processes (UpdateSyncStatusAndAliasTx ps db) = map g (db_Processes db) \<and> (\<forall>p. pr_ID (g p) = pr_ID p)
    \<and> (\<forall>p. pr_ID p \<notin> pr_ID ` set ps \<longrightarrow> g p = p)
    \<and> (\<forall>p. pr_ID p \<in> pr_ID ` set ps \<or> sync_of p = Deleted \<longrightarrow> sync_of (g p) = Deleted)"
proof (induction ps arbitrary: db)
  case Nil
  then show ?case by (intro exI [of _ id]) (simp add: UpdateSyncStatusAndAliasTx_def)
next
  case (Cons v ps)
  let ?m = "\<lambda>p. if pr_ID p = pr_ID v
     then p\<lparr>pr_Spec := (pr_Spec p)\<lparr>ps_CcSyncStatus := Deleted, ps_NewAlias := ps_NewAlias (pr_Spec v)\<rparr>\<rparr> else p"
  let ?db = "db\<lparr>db_Processes := map ?m (db_Processes db)\<rparr>"
  have step: "UpdateSyncStatusAndAliasTx (v # ps) db = UpdateSyncStatusAndAliasTx ps ?db"
    by (simp add: UpdateSyncStatusAndAliasTx_def)
  obtain g where g: "db_Processes (UpdateSyncStatusAndAliasTx ps ?db) = map g (db_Processes ?db)"
    "\<forall>p. pr_ID (g p) = pr_ID p" "\<forall>p. pr_ID p \<notin> pr_ID ` set ps \<longrightarrow> g p = p"
    "\<forall>p. pr_ID p \<in> pr_ID ` set ps \<or> sync_of p = Deleted \<longrightarrow> sync_of (g p) = Deleted" using Cons.IH [of ?db] by blast
  have id: "pr_ID (?m p) = pr_ID p" for p by simp
  show ?case
  proof (rule exI [of _ "g \<circ> ?m"], intro conjI allI impI)
    show "db_Processes (UpdateSyncStatusAndAliasTx (v # ps) db) = map (g \<circ> ?m) (db_Processes db)"
      unfolding step g(1) by simp
    show "pr_ID ((g \<circ> ?m) p) = pr_ID p" for p using g(2) id by simp
    show "(g \<circ> ?m) p = p" if "pr_ID p \<notin> pr_ID ` set (v # ps)" for p using g(3) that by simp
    show "sync_of ((g \<circ> ?m) p) = Deleted" if p: "pr_ID p \<in> pr_ID ` set (v # ps) \<or> sync_of p = Deleted" for p
    proof -
      have "pr_ID (?m p) \<in> pr_ID ` set ps \<or> sync_of (?m p) = Deleted" using p by (cases "pr_ID p = pr_ID v") auto
      then show ?thesis using g(4) by (simp only: comp_apply)
    qed
  qed
qed

lemma saved_keys: "pr_ID ` set us \<subseteq> pr_ID ` set rows \<Longrightarrow> map pr_ID (fold (save_row pr_ID) us rows) = map pr_ID rows"
proof (induction us arbitrary: rows)
  case (Cons u us)
  let ?rows = "save_row pr_ID u rows"
  have "map pr_ID ?rows = map pr_ID rows" using Cons.prems by (auto simp: save_row_def)
  moreover from this have "pr_ID ` set ?rows = pr_ID ` set rows" by (metis image_set)
  ultimately show ?case using Cons.IH [of ?rows] Cons.prems by simp
qed simp

lemma saved_others: "q \<in> set rows \<Longrightarrow> pr_ID q \<notin> pr_ID ` set us \<Longrightarrow> q \<in> set (fold (save_row pr_ID) us rows)"
  by (induction us arbitrary: rows) (auto simp: save_row_def)

lemma reorder_processes: "db_Processes (fold (reorder_module biz) ks db) = db_Processes db"
  by (induction ks arbitrary: db) (auto simp: reorder_module_def inst_BatchUpdateWithTx_def)

lemma apply_diff_processes:
  obtains g added where "db_Processes (apply_diff biz d db) = fold (save_row pr_ID) (df_ToUpdateProcesses d) (map g (db_Processes db) @ added)"
    and "map pr_ID added = map (\<lambda>k. db_NextProcess db + k) [0..<length (df_ToAddProcesses d)]"
    and "\<And>p. pr_ID (g p) = pr_ID p" and "\<And>p. pr_ID p \<notin> pr_ID ` set (df_ToDeleteProcesses d) \<Longrightarrow> g p = p"
    and "\<And>p. pr_ID p \<in> pr_ID ` set (df_ToDeleteProcesses d) \<Longrightarrow> sync_of (g p) = Deleted"
proof -
  let ?db1 = "BatchDeleteByIDsWithTx (df_ToDeleteInstanceIDs d) db"
  obtain g where g: "db_Processes (UpdateSyncStatusAndAliasTx (df_ToDeleteProcesses d) ?db1) = map g (db_Processes ?db1)"
    "\<And>p. pr_ID (g p) = pr_ID p" "\<And>p. pr_ID p \<notin> pr_ID ` set (df_ToDeleteProcesses d) \<Longrightarrow> g p = p"
    "\<And>p. pr_ID p \<in> pr_ID ` set (df_ToDeleteProcesses d) \<Longrightarrow> sync_of (g p) = Deleted"
    using mark_deleted [of "df_ToDeleteProcesses d" ?db1] by blast
  let ?added = "map (\<lambda>(k, p). p\<lparr>pr_ID := db_NextProcess db + k\<rparr>) (enumerate 0 (df_ToAddProcesses d))"
  have n: "db_NextProcess (UpdateSyncStatusAndAliasTx ps x) = db_NextProcess x" for ps x
    unfolding UpdateSyncStatusAndAliasTx_def by (induction ps arbitrary: x) auto
  have "db_Processes (apply_diff biz d db)
      = fold (save_row pr_ID) (df_ToUpdateProcesses d) (map g (db_Processes db) @ ?added)"
  proof (cases "df_ToDeleteProcesses d = []")
    case True
    then have "map g (db_Processes db) = db_Processes db" using g(3) by (simp add: map_idI)
    then show ?thesis using True
      by (simp add: apply_diff_def Let_def reorder_processes proc_BatchCreateWithTx_def proc_BatchUpdateWithTx_def
          inst_BatchCreateWithTx_def BatchDeleteByIDsWithTx_def split: prod.splits)
  next
    case False
    then show ?thesis using g(1)
      by (simp add: apply_diff_def Let_def reorder_processes proc_BatchCreateWithTx_def proc_BatchUpdateWithTx_def
          inst_BatchCreateWithTx_def BatchDeleteByIDsWithTx_def replaceProcessAndCleanInstancesTx_def
          DeleteStoppedUnmanagedWithTx_def n split: prod.splits)
  qed
  moreover have "map pr_ID ?added = map (\<lambda>k. db_NextProcess db + k) [0..<length (df_ToAddProcesses d)]"
    by (auto simp: enumerate_eq_zip intro!: nth_equalityI)
  ultimately show thesis using g(2-4) by (rule that)
qed

text \<open>The rows a synchronisation compares with, and those that none of its new processes touches.\<close>

definition compared :: "string \<Rightarrow> nat \<Rightarrow> proc_db \<Rightarrow> process list" where
  "compared tenantID biz db = filter (\<lambda>p. biz_id p = biz \<and> (tenantID = [] \<or> pa_TenantID (pr_Attachment p) = tenantID)) (db_Processes db)"

lemma syncProcessesWithTx_cases:
  assumes "syncProcessesWithTx unmarshal kitTenant tenantID biz news db = Inr db'" "news \<noteq> []"
  obtains d ctx ctx' dd where "diff_loop unmarshal db (compared tenantID biz db) news ctx empty_diff = Inr (d, ctx')"
    and "dd = d\<lparr>df_ToDeleteProcesses := df_ToDeleteProcesses d @ filter (\<lambda>p. cc_id p \<notin> cc_id ` set news) (compared tenantID biz db)\<rparr>"
    and "db' = CheckAndMarkHostAliasConflicts biz (apply_diff biz dd db)"
proof -
  have old: "(if tenantID \<noteq> [] then filter (\<lambda>p. pa_TenantID (pr_Attachment p) = tenantID) (ListProcByBizIDWithTx biz db)
      else ListProcByBizIDWithTx biz db) = compared tenantID biz db"
    by (auto simp: compared_def ListProcByBizIDWithTx_def intro: filter_cong)
  show thesis
    using assms that by (auto simp: syncProcessesWithTx_def SyncProcessData_def diffProcesses_def Let_def old res_simps split: sum.splits)
qed

lemma conflict_check_rows:
  assumes "distinct (map pr_ID (db_Processes db))" "q \<in> set (db_Processes db)" "sync_of q = Deleted"
  shows "q \<in> set (db_Processes (CheckAndMarkHostAliasConflicts biz db))"
proof -
  have n: "pr_ID q \<notin> set (ListDuplicateHostAliasWithTx biz db)"
    using duplicate_ids [OF assms(1,2), of biz] assms(3) by (simp add: live_def)
  show ?thesis using n assms(2,3)
    by (auto simp: CheckAndMarkHostAliasConflicts_def Let_def RestoreAbnormalWithTx_def UpdateSyncStatusWithTx_def image_iff
        intro!: bexI [of _ q])
qed

lemma sync_untouched_row:
  assumes "syncProcessesWithTx unmarshal kitTenant tenantID biz news db = Inr db'" "news \<noteq> []"
    and d: "distinct (map pr_ID (db_Processes db))" and n: "\<forall>q \<in> set (db_Processes db). pr_ID q < db_NextProcess db"
    and r: "r \<in> set (db_Processes db)" and u: "\<And>new. new \<in> set news \<Longrightarrow> \<not> touches unmarshal db (compared tenantID biz db) new (pr_ID r)"
  shows "r \<in> set (compared tenantID biz db) \<Longrightarrow> cc_id r \<notin> cc_id ` set news
      \<Longrightarrow> \<exists>q \<in> set (db_Processes db'). pr_ID q = pr_ID r \<and> sync_of q = Deleted"
    and "cc_id r \<in> cc_id ` set news \<Longrightarrow> sync_of r = Deleted \<Longrightarrow> r \<in> set (db_Processes db')"
proof -
  let ?old = "compared tenantID biz db"
  obtain dd ctx ctx' dl where l: "diff_loop unmarshal db ?old news ctx empty_diff = Inr (dl, ctx')"
    and dd: "dd = dl\<lparr>df_ToDeleteProcesses := df_ToDeleteProcesses dl @ filter (\<lambda>p. cc_id p \<notin> cc_id ` set news) ?old\<rparr>"
    and db': "db' = CheckAndMarkHostAliasConflicts biz (apply_diff biz dd db)"
    by (rule syncProcessesWithTx_cases [OF assms(1,2)])
  note rows = diff_loop_rows [OF l]
  have e: "df_ToUpdateProcesses empty_diff = []" "df_ToDeleteProcesses empty_diff = []" by (simp_all add: empty_diff_def)
  have upd: "\<exists>new \<in> set news. touches unmarshal db ?old new (pr_ID p)" if "p \<in> set (df_ToUpdateProcesses dd)" for p
    using rows that by (auto simp: dd e)
  have del: "(\<exists>new \<in> set news. touches unmarshal db ?old new (pr_ID p)) \<or> (p \<in> set ?old \<and> cc_id p \<notin> cc_id ` set news)"
    if "p \<in> set (df_ToDeleteProcesses dd)" for p
    using rows that by (auto simp: dd e)
  have same: "q = r" if "q \<in> set (db_Processes db)" "pr_ID q = pr_ID r" for q
    using d r that by (auto simp: distinct_map inj_on_def)
  have old: "set ?old \<subseteq> set (db_Processes db)" by (auto simp: compared_def)
  obtain g added where g: "db_Processes (apply_diff biz dd db) = fold (save_row pr_ID) (df_ToUpdateProcesses dd) (map g (db_Processes db) @ added)"
    and a: "map pr_ID added = map (\<lambda>k. db_NextProcess db + k) [0..<length (df_ToAddProcesses dd)]"
    and gi: "\<And>p. pr_ID (g p) = pr_ID p" and gk: "\<And>p. pr_ID p \<notin> pr_ID ` set (df_ToDeleteProcesses dd) \<Longrightarrow> g p = p"
    and gd: "\<And>p. pr_ID p \<in> pr_ID ` set (df_ToDeleteProcesses dd) \<Longrightarrow> sync_of (g p) = Deleted"
    by (rule apply_diff_processes [of biz dd db]) (rule that)
  let ?rows = "map g (db_Processes db) @ added"
  have ids: "map pr_ID ?rows = map pr_ID (db_Processes db) @ map (\<lambda>k. db_NextProcess db + k) [0..<length (df_ToAddProcesses dd)]"
    using a gi by (simp add: comp_def)
  have "pr_ID ` set (df_ToUpdateProcesses dd) \<subseteq> pr_ID ` set (db_Processes db)"
  proof
    fix i assume "i \<in> pr_ID ` set (df_ToUpdateProcesses dd)"
    then obtain p where "p \<in> set (df_ToUpdateProcesses dd)" "i = pr_ID p" by blast
    then obtain new where "touches unmarshal db ?old new i" using upd by blast
    then show "i \<in> pr_ID ` set (db_Processes db)" using index_by_cc_row old by (fastforce simp: touches_def)
  qed
  then have "pr_ID ` set (df_ToUpdateProcesses dd) \<subseteq> pr_ID ` set ?rows"
    using arg_cong [OF ids, of set] by (simp only: set_map set_append) blast
  then have "map pr_ID (db_Processes (apply_diff biz dd db)) = map pr_ID ?rows" unfolding g by (rule saved_keys)
  moreover have "distinct (map pr_ID ?rows)"
    unfolding ids using d n by (auto simp: distinct_map intro!: inj_onI)
  ultimately have d': "distinct (map pr_ID (db_Processes (apply_diff biz dd db)))" by simp
  have "pr_ID (g r) \<notin> pr_ID ` set (df_ToUpdateProcesses dd)"
  proof
    assume "pr_ID (g r) \<in> pr_ID ` set (df_ToUpdateProcesses dd)"
    then obtain p where "p \<in> set (df_ToUpdateProcesses dd)" "pr_ID p = pr_ID r" using gi by auto
    then show False using upd u by metis
  qed
  then have gr: "g r \<in> set (db_Processes (apply_diff biz dd db))" unfolding g using r by (intro saved_others) auto
  show "\<exists>q \<in> set (db_Processes db'). pr_ID q = pr_ID r \<and> sync_of q = Deleted"
    if "r \<in> set ?old" "cc_id r \<notin> cc_id ` set news"
  proof -
    have "r \<in> set (df_ToDeleteProcesses dd)" using that by (simp add: dd)
    then have "sync_of (g r) = Deleted" by (intro gd) simp
    then show ?thesis using conflict_check_rows [OF d' gr] gi db' by blast
  qed
  show "r \<in> set (db_Processes db')" if c: "cc_id r \<in> cc_id ` set news" and s: "sync_of r = Deleted"
  proof -
    have "pr_ID r \<notin> pr_ID ` set (df_ToDeleteProcesses dd)"
    proof
      assume "pr_ID r \<in> pr_ID ` set (df_ToDeleteProcesses dd)"
      then obtain p where p: "p \<in> set (df_ToDeleteProcesses dd)" "pr_ID p = pr_ID r" by auto
      then have "p \<in> set ?old \<and> cc_id p \<notin> cc_id ` set news" using del [OF p(1)] u by metis
      then show False using same [of p] p(2) old c by auto
    qed
    then have "g r = r" by (rule gk)
    then show ?thesis using conflict_check_rows [OF d'] gr s db' by simp
  qed
qed

text \<open>
  C24: The synchronisation of given processes, which the watcher of the configuration management
  database starts for a single changed process, marks every other process of the business (of the
  tenant, where there is one) as deleted: the list of old processes is not narrowed to the given ones.
\<close>

theorem incremental_sync_deletes_others:
  assumes "SyncBizProcessesByIDs unmarshal kitTenant tenantID biz cmdb ids db = Inr db'"
    and "n \<in> set cmdb" "cc_id n \<in> set ids"
    and "distinct (map pr_ID (db_Processes db))" "\<forall>q \<in> set (db_Processes db). pr_ID q < db_NextProcess db"
    and "p \<in> set (db_Processes db)" "biz_id p = biz" "tenantID = [] \<or> pa_TenantID (pr_Attachment p) = tenantID"
    and "cc_id p \<notin> set ids"
  shows "\<exists>q \<in> set (db_Processes db'). pr_ID q = pr_ID p \<and> sync_of q = Deleted"
proof -
  let ?news = "filter (\<lambda>p. cc_id p \<in> set ids) cmdb"
  have ne: "?news \<noteq> []" "ids \<noteq> []" using assms(2,3) by (auto simp: filter_empty_conv)
  then have s: "syncProcessesWithTx unmarshal kitTenant tenantID biz ?news db = Inr db'"
    using assms(1) by (simp add: SyncBizProcessesByIDs_def Let_def)
  have same: "q = p" if "q \<in> set (db_Processes db)" "pr_ID q = pr_ID p" for q
    using assms(4,6) that by (auto simp: distinct_map inj_on_def)
  have "\<not> touches unmarshal db (compared tenantID biz db) new (pr_ID p)" if "new \<in> set ?news" for new
  proof
    assume "touches unmarshal db (compared tenantID biz db) new (pr_ID p)"
    then obtain old where old: "index_by_cc (compared tenantID biz db) (cc_id new) = Some old"
      "pr_ID old = pr_ID p \<or> (\<exists>r \<in> set (db_Processes db). pr_ID r = pr_ID p \<and> cc_id r = cc_id old)"
      by (auto simp: touches_def)
    have "old \<in> set (db_Processes db)" "cc_id old = cc_id new"
      using index_by_cc_row [OF old(1)] by (auto simp: compared_def)
    then have "cc_id p = cc_id new" using old(2) same by metis
    then show False using that assms(9) by simp
  qed
  then show ?thesis
    using assms(7,8,9) by (intro sync_untouched_row(1) [OF s ne(1) assms(4,5,6)]) (auto simp: compared_def assms(6))
qed

text \<open>
  A process marked as deleted that the configuration management database lists again with the data
  the row already has stays deleted: when nothing but the mark differs there is nothing to update.
\<close>

theorem full_sync_does_not_restore:
  assumes "SyncBizProcesses unmarshal kitTenant tenantID biz cmdb db = Inr db'"
    and "new \<in> set cmdb" "distinct (map cc_id cmdb)"
    and "distinct (map pr_ID (db_Processes db))" "\<forall>q \<in> set (db_Processes db). pr_ID q < db_NextProcess db"
    and "index_by_cc (compared tenantID biz db) (cc_id new) = Some p" "sync_of p = Deleted" "settled unmarshal new p"
  shows "p \<in> set (db_Processes db')"
proof -
  have ne: "cmdb \<noteq> []" using assms(2) by auto
  then have s: "syncProcessesWithTx unmarshal kitTenant tenantID biz cmdb db = Inr db'"
    using assms(1) by (simp add: SyncBizProcesses_def)
  have p: "p \<in> set (db_Processes db)" "cc_id p = cc_id new" using index_by_cc_row [OF assms(6)] by (auto simp: compared_def)
  have same: "q = p" if "q \<in> set (db_Processes db)" "pr_ID q = pr_ID p" for q
    using assms(4) p(1) that by (auto simp: distinct_map inj_on_def)
  have "\<not> touches unmarshal db (compared tenantID biz db) n (pr_ID p)" if n: "n \<in> set cmdb" for n
  proof
    assume "touches unmarshal db (compared tenantID biz db) n (pr_ID p)"
    then obtain old where old: "index_by_cc (compared tenantID biz db) (cc_id n) = Some old" "\<not> settled unmarshal n old"
      "pr_ID old = pr_ID p \<or> (\<exists>r \<in> set (db_Processes db). pr_ID r = pr_ID p \<and> cc_id r = cc_id old)"
      by (auto simp: touches_def)
    have "old \<in> set (db_Processes db)" "cc_id old = cc_id n"
      using index_by_cc_row [OF old(1)] by (auto simp: compared_def)
    then have "cc_id n = cc_id new" using old(3) same p(2) by metis
    then have "n = new" using n assms(2,3) by (auto simp: distinct_map inj_on_def)
    then show False using old(1,2) assms(6,8) by simp
  qed
  then show ?thesis using p(2) assms(2)
    by (intro sync_untouched_row(2) [OF s ne assms(4,5) p(1)]) (auto simp: assms(7) image_iff)
qed

section \<open>Fetching all pages\<close>

text \<open>A server that pages the items \<open>xs\<close> and counts \<open>c\<close> of them.\<close>

definition paged :: "'a list \<Rightarrow> nat \<Rightarrow> nat \<Rightarrow> 'e + 'a list \<times> nat" where
  "paged xs c start = Inr (take 500 (drop start xs), c)"

lemma page_step: "take s xs @ take 500 (drop s xs) = take (s + 500) xs"
  by (metis take_add)

lemma page_loop_returns:
  assumes "c \<le> length xs"
  shows "page_loop (paged xs c) s (take s xs) = Some (Inr (take (s + 500 * max 1 ((c - s + 499) div 500)) xs))"
  using assms
proof (induction "c - s" arbitrary: s rule: less_induct)
  case less
  show ?case
  proof (cases "c \<le> s + 500")
    case True
    then have "(c - s + 499) div 500 \<le> (1::nat)" by simp
    then have "max 1 ((c - s + 499) div 500) = (1::nat)" by (rule max_absorb1)
    then show ?thesis using True less.prems
      by (subst page_loop.simps) (simp add: paged_def page_step del: length_append)
  next
    case False
    then have lt: "c - (s + 500) < c - s" by simp
    obtain m where m: "c - s = 500 + m" "0 < m" using False by (metis add.commute le_diff_conv less_imp_add_positive not_le)
    have m2: "c - (s + 500) = m" using m by simp
    have d: "(c - s + 499) div 500 = Suc ((m + 499) div 500)" "1 \<le> (m + 499) div 500"
      using m by (simp_all add: div_add_self1 add.assoc less_eq_div_iff_mult_less_eq)
    have n: "s + 500 + 500 * max 1 ((c - (s + 500) + 499) div 500) = s + 500 * max 1 ((c - s + 499) div 500)"
      using d(2) unfolding d(1) m2 by (simp only: max_absorb2 le_SucI) simp
    have "page_loop (paged xs c) s (take s xs) = page_loop (paged xs c) (s + 500) (take (s + 500) xs)"
      using False less.prems by (subst page_loop.simps) (simp add: paged_def page_step del: length_append)
    also note less.hyps [OF lt less.prems]
    finally show ?thesis unfolding n .
  qed
qed

lemma page_loop_counts:
  assumes "page_loop (paged xs c :: nat \<Rightarrow> 'e + 'a list \<times> nat) s (take s xs) = Some r"
  shows "c \<le> length xs"
proof -
  have "f = paged xs c \<longrightarrow> acc = take s xs \<longrightarrow> c \<le> length xs"
    if "page_loop f s acc = Some r" for f :: "nat \<Rightarrow> 'e + 'a list \<times> nat" and s acc r
    using that
  proof (rule page_loop.raw_induct [where P = "\<lambda>f s acc r. f = paged xs c \<longrightarrow> acc = take s xs \<longrightarrow> c \<le> length xs", rotated], intro impI)
    fix rec :: "(nat \<Rightarrow> 'e + 'a list \<times> nat) \<Rightarrow> nat \<Rightarrow> 'a list \<Rightarrow> ('e + 'a list) option" and f s acc r
    assume ih: "\<And>f s acc r. rec f s acc = Some r \<Longrightarrow> f = paged xs c \<longrightarrow> acc = take s xs \<longrightarrow> c \<le> length xs"
      and run: "(case f s of Inl e \<Rightarrow> Some (Inl e) | Inr (data, count) \<Rightarrow>
        if count \<le> length (acc @ data) then Some (Inr (acc @ data)) else rec f (s + 500) (acc @ data)) = Some r"
      and f: "f = paged xs c" and acc: "acc = take s xs"
    show "c \<le> length xs"
    proof (cases "c \<le> length (take (s + 500) xs)")
      case False
      then have "rec f (s + 500) (take (s + 500) xs) = Some r"
        using run by (simp add: f acc paged_def page_step del: length_append split: if_splits)
      then show ?thesis using ih f by blast
    qed simp
  qed
  then show ?thesis using assms by blast
qed

text \<open>
  Fetching all pages returns exactly when the server counts no more items than it delivers, and then
  it returns the items of all the pages that the count asks for, each once and in order. A server whose
  count includes items it does not deliver keeps the loop asking for pages forever.
\<close>

theorem pages_returned_iff_counted:
  "PageFetcher (paged xs c :: nat \<Rightarrow> 'e + 'a list \<times> nat) =
    (if c \<le> length xs then Some (Inr (take (500 * max 1 ((c + 499) div 500)) xs)) else None)"
proof (cases "c \<le> length xs")
  case True
  then show ?thesis using page_loop_returns [OF True, of 0] by (simp add: PageFetcher_def)
next
  case False
  then have "page_loop (paged xs c :: nat \<Rightarrow> 'e + 'a list \<times> nat) 0 [] \<noteq> Some r" for r
    using page_loop_counts [of xs c 0 r] by auto
  then have "page_loop (paged xs c :: nat \<Rightarrow> 'e + 'a list \<times> nat) 0 [] = None" by (meson not_None_eq)
  then show ?thesis using False by (simp add: PageFetcher_def)
qed

lemma same_page_again:
  assumes "0 < length xs"
  shows "page_loop (\<lambda>start. Inr (xs, c)) s (concat (replicate k xs))
    = Some (Inr (concat (replicate (max (k + 1) ((c + length xs - 1) div length xs)) xs)))"
proof (induction "c - k * length xs" arbitrary: k s rule: less_induct)
  case less
  have more: "concat (replicate k xs) @ xs = concat (replicate (k + 1) xs)"
    by (induction k) simp_all
  have len: "length (concat (replicate n xs)) = n * length xs" for n by (induction n) simp_all
  show ?case
  proof (cases "c \<le> (k + 1) * length xs")
    case True
    have "c + length xs - 1 < c + length xs" using assms by simp
    also have "\<dots> \<le> (k + 2) * length xs" using True by (simp add: algebra_simps)
    finally have "c + length xs - 1 < (k + 2) * length xs" .
    then have "(c + length xs - 1) div length xs < k + 2" using assms by (simp only: div_less_iff_less_mult)
    then have "(c + length xs - 1) div length xs \<le> k + 1" by simp
    then show ?thesis using True by (subst page_loop.simps) (simp only: more len sum.case prod.case if_True max_absorb1)
  next
    case False
    then have lt: "c - (k + 1) * length xs < c - k * length xs" using assms by (intro diff_less_mono2) auto
    have "k + 2 \<le> (c + length xs - 1) div length xs"
      using False assms by (simp add: less_eq_div_iff_mult_less_eq)
    then have m: "max (k + 1) ((c + length xs - 1) div length xs) = max (k + 1 + 1) ((c + length xs - 1) div length xs)" by simp
    show ?thesis using less.hyps [OF lt, of "s + 500"] False m
      by (subst page_loop.simps) (simp only: more len sum.case prod.case if_False)
  qed
qed

text \<open>
  The modules of a set are asked for without a page: a set with more modules than one answer holds
  has the modules of that answer repeated until the count is reached, and the others never appear.
\<close>

theorem modules_are_repeated:
  assumes "SearchModule setID = Inr (xs, c)" "0 < length xs" "length xs < c"
  shows "\<exists>n > 1. fetchAllModules SearchModule setID = Some (Inr (concat (replicate n xs)))"
proof -
  have "length xs * 2 \<le> c + length xs - 1" using assms(2,3) by simp
  then have "2 \<le> (c + length xs - 1) div length xs" using assms(2) by (simp add: less_eq_div_iff_mult_less_eq)
  then show ?thesis using same_page_again [OF assms(2), of c 0 0] assms(1)
    by (intro exI [of _ "(c + length xs - 1) div length xs"]) (simp add: fetchAllModules_def PageFetcher_def)
qed

section \<open>Concrete runs\<close>

text \<open>A business with processes on one host, and an instance of each.\<close>

definition ex_proc :: "nat \<Rightarrow> nat \<Rightarrow> string \<Rightarrow> nat \<Rightarrow> sync_status \<Rightarrow> process" where
  "ex_proc i cc al num st = \<lparr>pr_ID = i,
     pr_Attachment = \<lparr>pa_TenantID = ''default'', pa_BizID = 2, pa_CcProcessID = cc, pa_SetID = 1, pa_ModuleID = 3,
       pa_ServiceInstanceID = 1, pa_HostID = 7, pa_CloudID = 0, pa_AgentID = ''a'', pa_ProcessTemplateID = 0, pa_ServiceTemplateID = 0\<rparr>,
     pr_Spec = \<lparr>ps_SetName = ''s'', ps_ModuleName = ''m'', ps_ServiceName = ''svc'', ps_Environment = ''3'', ps_Alias = al,
       ps_InnerIP = [], ps_InnerIPV6 = [], ps_CcSyncStatus = st, ps_ProcessStateSyncedAt = None, ps_SourceData = ''{}'',
       ps_PrevData = ''{}'', ps_ProcNum = num, ps_FuncName = ''f'', ps_NewAlias = [], ps_OsType = ''linux'', ps_AgentStatus = ''normal''\<rparr>\<rparr>"

definition ex_inst :: "nat \<Rightarrow> nat \<Rightarrow> nat \<Rightarrow> nat \<Rightarrow> nat \<Rightarrow> proc_inst" where
  "ex_inst i p cc h m = \<lparr>in_ID = i, in_TenantID = ''default'', in_BizID = 2, in_ProcessID = p, in_CcProcessID = cc,
     in_HostInstSeq = h, in_ModuleInstSeq = m, in_Status = ''running'', in_ManagedStatus = ''managed''\<rparr>"

definition ex_info :: "string \<Rightarrow> process_info option" where
  "ex_info s = Some \<lparr>pi_BkStartParamRegex = [], pi_WorkPath = [], pi_PidFile = [], pi_User = s, pi_ReloadCmd = [],
     pi_RestartCmd = [], pi_StartCmd = [], pi_StopCmd = [], pi_FaceStopCmd = [], pi_Timeout = 0, pi_StartCheckSecs = 0\<rparr>"

definition ex_db :: proc_db where
  "ex_db = \<lparr>db_Processes = [ex_proc 1 10 ''nginx'' 1 Synced, ex_proc 2 20 ''redis'' 1 Synced, ex_proc 3 30 ''nginx'' 1 Deleted],
     db_Instances = [ex_inst 1 1 10 1 4, ex_inst 2 2 20 1 1], db_NextProcess = 4, db_NextInstance = 3\<rparr>"

lemmas ex_defs = ex_proc_def ex_inst_def ex_info_def ex_db_def

lemma renumbering_is_contiguous_witness:
  "map in_ModuleInstSeq (module_instances 2 3 ''nginx'' (reorder_module 2 (3, ''nginx'') ex_db)) = [1]"
  using renumbering_is_contiguous [of ex_db 2 3 "''nginx''"]
  by (simp add: ex_defs module_instances_def ListByModuleIDAndAliasWithTx_def ListByProcessIDsWithTx_def)

lemma abnormal_iff_conflict_witness:
  "sync_of (ex_proc 2 20 ''redis'' 1 Synced) \<noteq> Abnormal \<and>
    \<not> (\<exists>q \<in> set (db_Processes (CheckAndMarkHostAliasConflicts 2 ex_db)). live 2 q \<and> conflicting (ex_proc 2 20 ''redis'' 1 Synced) q)"
  using abnormal_iff_conflict [of ex_db "ex_proc 2 20 ''redis'' 1 Synced" 2]
  by (simp add: ex_defs CheckAndMarkHostAliasConflicts_def RestoreAbnormalWithTx_def ListDuplicateHostAliasWithTx_def Let_def live_def)

lemma run_returns: "\<not> isl r \<Longrightarrow> \<exists>x. r = Inr x"
  by (cases r) auto

lemma incremental_sync_deletes_others_witness:
  "\<exists>db'. SyncBizProcessesByIDs ex_info ''default'' [] 2 [ex_proc 0 10 ''nginx'' 1 Synced] [10] ex_db = Inr db'
    \<and> (\<exists>q \<in> set (db_Processes db'). pr_ID q = 2 \<and> sync_of q = Deleted)"
proof -
  have "\<not> isl (SyncBizProcessesByIDs ex_info ''default'' [] 2 [ex_proc 0 10 ''nginx'' 1 Synced] [10] ex_db)" by code_simp
  then obtain db' where d: "SyncBizProcessesByIDs ex_info ''default'' [] 2 [ex_proc 0 10 ''nginx'' 1 Synced] [10] ex_db = Inr db'"
    using run_returns by blast
  then show ?thesis
    using incremental_sync_deletes_others [OF d, of "ex_proc 0 10 ''nginx'' 1 Synced" "ex_proc 2 20 ''redis'' 1 Synced"]
    by (simp add: ex_defs)
qed

lemma full_sync_does_not_restore_witness:
  "\<exists>db'. SyncBizProcesses ex_info ''default'' [] 2 [ex_proc 0 30 ''nginx'' 1 Synced] ex_db = Inr db'
    \<and> ex_proc 3 30 ''nginx'' 1 Deleted \<in> set (db_Processes db')"
proof -
  have "\<not> isl (SyncBizProcesses ex_info ''default'' [] 2 [ex_proc 0 30 ''nginx'' 1 Synced] ex_db)" by code_simp
  then obtain db' where d: "SyncBizProcesses ex_info ''default'' [] 2 [ex_proc 0 30 ''nginx'' 1 Synced] ex_db = Inr db'"
    using run_returns by blast
  then show ?thesis
    using full_sync_does_not_restore [OF d, of "ex_proc 0 30 ''nginx'' 1 Synced" "ex_proc 3 30 ''nginx'' 1 Deleted"]
    by (simp add: ex_defs compared_def index_by_cc_def settled_def compareProcessInfo_def changed_def with_agent_status_def
        resolveAgentStatus_def)
qed

lemma written_process_is_settled_witness:
  "\<exists>ch ctx' p. BuildProcessChanges ex_info ex_db \<lparr>cx_TenantID = [], cx_HostCounter = (\<lambda>_. 0), cx_ModuleCounter = (\<lambda>_. 0)\<rparr>
      (ex_proc 0 10 ''apache'' 1 Synced) (ex_proc 1 10 ''nginx'' 1 Synced) = Inr (ch, ctx') \<and> ch_ToAddProcess ch = Some p
    \<and> BuildProcessChanges ex_info ex_db ctx' (ex_proc 0 10 ''apache'' 1 Synced) (set_status Synced (p\<lparr>pr_ID := 4\<rparr>)) = Inr (no_changes, ctx')"
proof -
  let ?r = "BuildProcessChanges ex_info ex_db \<lparr>cx_TenantID = [], cx_HostCounter = (\<lambda>_. 0), cx_ModuleCounter = (\<lambda>_. 0)\<rparr>
      (ex_proc 0 10 ''apache'' 1 Synced) (ex_proc 1 10 ''nginx'' 1 Synced)"
  have "\<not> isl ?r \<and> \<not> Option.is_none (ch_ToAddProcess (fst (projr ?r)))" by code_simp
  then obtain ch ctx' p where r: "?r = Inr (ch, ctx')" "ch_ToAddProcess ch = Some p"
    using run_returns [of ?r] by (auto simp: Option.is_none_def)
  show ?thesis using r written_process_is_settled [OF r(1), of p ex_db ctx' Synced 4] by blast
qed

lemma modules_are_repeated_witness:
  "\<exists>n > 1. fetchAllModules (\<lambda>m. Inr ([m], 3) :: unit + nat list \<times> nat) 5 = Some (Inr (concat (replicate n [5])))"
  using modules_are_repeated [of "\<lambda>m. Inr ([m], 3) :: unit + nat list \<times> nat" 5 "[5]" 3] by simp

end
