(* ===== verification/ProcTaskProps.thy ===== *)
theory ProcTaskProps
  imports ProcOpsProps ProcSyncProps
begin

text \<open>
  What a task does to its instance and to the batch: the instance ends in a settled state, stopping
  scales a process down to the number that is wanted, and what a repeated request, a retry of an
  update and a failed update leave behind.
\<close>

section \<open>Rows through the steps of a task\<close>

definition ids_ok :: "op_store \<Rightarrow> bool" where
  "ids_ok st \<longleftrightarrow> distinct (map in_ID (db_Instances (os_Db st)))"

text \<open>A task as the library runs it: its steps, then the callback.\<close>

definition run_operate_task ::
  "op_env list \<Rightarrow> op_env \<Rightarrow> operate_payload \<Rightarrow> task_payload \<Rightarrow> op_store \<Rightarrow> task_err option \<times> op_store" where
  "run_operate_task envs env pl cp st =
     (case run_steps (OperateTask_Steps pl) envs pl cp st of
        (err, pl', cp', st') \<Rightarrow> (err, snd (Callback env pl' cp' err st')))"

definition run_update_task ::
  "op_env list \<Rightarrow> op_env \<Rightarrow> operate_payload \<Rightarrow> task_payload \<Rightarrow> op_store \<Rightarrow> task_err option \<times> op_store" where
  "run_update_task envs env pl cp st =
     (case run_steps (UpdateRegisterTask_Steps pl) envs pl cp st of
        (err, pl', cp', st') \<Rightarrow> (err, snd (UR_Callback env pl' cp' err st')))"

text \<open>The fields that every step and the callback have in common.\<close>

definition same_task :: "operate_payload \<Rightarrow> operate_payload \<Rightarrow> bool" where
  "same_task a b \<longleftrightarrow> op_BizID a = op_BizID b \<and> op_BatchID a = op_BatchID b \<and> op_ProcessID a = op_ProcessID b
     \<and> op_InstanceID a = op_InstanceID b \<and> op_OriginalStatus a = op_OriginalStatus b
     \<and> op_OriginalManaged a = op_OriginalManaged b \<and> op_CCSyncStatus a = op_CCSyncStatus b"

lemmas step_payload_defs = OperateTask_Steps_def UpdateRegisterTask_Steps_def step_ValidateOperateProcess_def
  step_CompareWithCMDBProcessInfo_def step_CompareWithGSEProcessStatus_def step_CompareWithGSEProcessConfig_def
  step_OperateProcess_def step_FinalizeOperateProcess_def step_UR_ValidateOperate_def step_UR_StopProcess_def
  step_UR_RegisterProcess_def step_UR_StartProcess_def step_UR_OperationCompleted_def base_payload_def

lemma steps_same_task:
  "(n, p) \<in> set (OperateTask_Steps pl) \<Longrightarrow> same_task p pl"
  "(n, p) \<in> set (UpdateRegisterTask_Steps pl) \<Longrightarrow> same_task p pl"
  by (auto simp: step_payload_defs same_task_def split: if_splits)

text \<open>Instances are only removed, or get other statuses.\<close>

lemmas row_defs = MarkProcessDeletedAndCleanInstancesTx_def DeleteStoppedUnmanagedWithTx_def UpdateSyncStatusWithTx_def
  inst_UpdateSelectedFields_def write_state_def inst_Delete_def proc_UpdateSelectedFields_def

lemma map_ids_update [simp]:
  "map in_ID (db_Instances (inst_UpdateSelectedFields biz i s m db)) = map in_ID (db_Instances db)"
  by (simp add: inst_UpdateSelectedFields_def)

lemma ids_ok_write [simp]: "ids_ok (write_state pl sm st) = ids_ok st"
  by (simp add: ids_ok_def write_state_def)

lemma ids_ok_mark:
  "ids_ok st \<Longrightarrow> ids_ok (st\<lparr>os_Db := MarkProcessDeletedAndCleanInstancesTx biz pids (os_Db st)\<rparr>)"
  by (simp add: ids_ok_def MarkProcessDeletedAndCleanInstancesTx_def DeleteStoppedUnmanagedWithTx_def
      UpdateSyncStatusWithTx_def distinct_map_filter)

lemmas step_defs = ValidateOperate_def CompareWithCMDBProcessInfo_def CompareWithGSEProcessStatus_def
  CompareWithGSEProcessConfig_def Operate_def Finalize_def UR_ValidateOperateStep_def UR_StopProcessStep_def
  UR_RegisterProcessStep_def UR_StartProcessStep_def UR_OperationCompletedStep_def

lemma read_state_settled:
  "getGSEProcessStatus env pl cp db = Inr sm \<Longrightarrow> inst_settled sm"
  "UR_getGSEProcessStatus env pl cp db = Inr sm \<Longrightarrow> inst_settled sm"
  unfolding getGSEProcessStatus_def UR_getGSEProcessStatus_def
  by (auto simp: rbind_def instance_state_def inst_settled_def split: sum.splits list.splits if_splits)

text \<open>A step leaves the store, marks the process as deleted, or writes the state of the service.\<close>

lemma run_step_store:
  assumes "run_step n env pl cp st = (r, cp', st')"
  shows "st' = st \<or> st' = st\<lparr>os_Db := MarkProcessDeletedAndCleanInstancesTx (op_BizID pl) [op_ProcessID pl] (os_Db st)\<rparr>
    \<or> (\<exists>sm. inst_settled sm \<and> st' = write_state pl sm st \<and> r = Inr ())"
  using assms
  by (cases n) (auto simp: step_defs dest: read_state_settled split: sum.splits list.splits prod.splits if_splits)

lemma run_step_ids: "run_step n env pl cp st = (r, cp', st') \<Longrightarrow> ids_ok st \<Longrightarrow> ids_ok st'"
  using run_step_store [of n env pl cp st r cp' st'] ids_ok_mark by fastforce

lemma run_steps_ids: "run_steps ss envs pl cp st = (err, pl', cp', st') \<Longrightarrow> ids_ok st \<Longrightarrow> ids_ok st'"
proof (induction ss envs pl cp st rule: run_steps.induct)
  case (3 n p ss env envs pl cp st)
  obtain r c s where r: "run_step n env p cp st = (r, c, s)" by (metis prod_cases3)
  show ?case using 3 r run_step_ids [OF r] by (cases r) auto
qed auto

lemma run_steps_task:
  "run_steps ss envs pl cp st = (err, pl', cp', st') \<Longrightarrow> pl' = pl \<or> pl' \<in> snd ` set ss"
proof (induction ss envs pl cp st rule: run_steps.induct)
  case (3 n p ss env envs pl cp st)
  obtain r c s where r: "run_step n env p cp st = (r, c, s)" by (metis prod_cases3)
  show ?case using 3 r by (cases r) auto
qed auto

lemma run_steps_last:
  "run_steps (ss @ [(n, p)]) envs pl cp st = (None, pl', cp', st') \<Longrightarrow>
    pl' = p \<and> (\<exists>env cp0 st0. run_step n env p cp0 st0 = (Inr (), cp', st'))"
proof (induction ss envs pl cp st rule: run_steps.induct)
  case (1 envs pl cp st)
  then obtain e es where es: "envs = e # es" by (cases envs) auto
  obtain r c s where r: "run_step n e p cp st = (r, c, s)" by (metis prod_cases3)
  with 1 es show ?case by (cases r) auto
next
  case (3 m q ss env envs pl cp st)
  obtain r c s where r: "run_step m env q cp st = (r, c, s)" by (metis prod_cases3)
  show ?case using 3 r by (cases r) auto
qed auto

lemma written_state:
  assumes "v \<in> set (db_Instances (os_Db (write_state pl sm st)))" "in_BizID v = op_BizID pl" "in_ID v = op_InstanceID pl"
  shows "state_of v = sm"
  using assms by (auto simp: write_state_def inst_UpdateSelectedFields_def split: if_splits)

text \<open>The renumbering at the end of a batch changes one column.\<close>

lemma renumber_rows:
  assumes "ids_ok st"
  obtains g where "db_Instances (os_Db (renumber_when b pl st)) = map (\<lambda>q. q\<lparr>in_ModuleInstSeq := g q\<rparr>) (db_Instances (os_Db st))"
    and "db_Processes (os_Db (renumber_when b pl st)) = db_Processes (os_Db st)"
    and "os_Tb (renumber_when b pl st) = os_Tb st"
proof (cases "b \<and> \<not> isl (ComputeModuleInstSeqUpdates (op_BizID pl) (op_ProcessID pl) (os_Db st))")
  case True
  then obtain db where db: "ComputeModuleInstSeqUpdates (op_BizID pl) (op_ProcessID pl) (os_Db st) = Inr db" "b"
    by (cases "ComputeModuleInstSeqUpdates (op_BizID pl) (op_ProcessID pl) (os_Db st)") auto
  then obtain p where p: "proc_GetByID (op_BizID pl) (op_ProcessID pl) (os_Db st) = Inr p"
    by (cases "proc_GetByID (op_BizID pl) (op_ProcessID pl) (os_Db st)") (auto simp: ComputeModuleInstSeqUpdates_def)
  have "db = reorder_module (op_BizID pl) (pa_ModuleID (pr_Attachment p), alias_of p) (os_Db st)"
    using db(1) p by (auto simp: ComputeModuleInstSeqUpdates_def Let_def reorder_module_def inst_BatchUpdateWithTx_def
        split: if_splits)
  then obtain m al where r: "db = reorder_module (op_BizID pl) (m, al) (os_Db st)" by blast
  obtain g where "db_Instances db = map (\<lambda>q. q\<lparr>in_ModuleInstSeq := g q\<rparr>) (db_Instances (os_Db st))"
    using reorder_module_rows [of "os_Db st" "op_BizID pl" m al] assms unfolding r ids_ok_def by blast
  moreover have "db_Processes db = db_Processes (os_Db st)"
    unfolding r by (simp add: reorder_module_def inst_BatchUpdateWithTx_def)
  ultimately show thesis using that [of g] db by (simp add: renumber_when_def)
next
  case False
  then have "renumber_when b pl st = st" by (auto simp: renumber_when_def split: sum.splits)
  then show thesis using that [of in_ModuleInstSeq] by (simp add: map_idI)
qed

lemma scale_down_rows:
  "set (db_Instances (os_Db (snd (scale_down pl st)))) \<subseteq> set (db_Instances (os_Db st))"
  "ids_ok st \<Longrightarrow> ids_ok (snd (scale_down pl st))"
  by (auto simp: scale_down_def inst_Delete_def ids_ok_def distinct_map_filter split: sum.splits)

lemma count_task_db: "os_Db (snd (count_task env pl b st)) = os_Db st"
  by (auto simp: count_task_def split: sum.splits prod.splits)

lemma roll_back_state:
  assumes "v \<in> set (db_Instances (os_Db (roll_back env pl cp st)))" "in_BizID v = op_BizID pl" "in_ID v = op_InstanceID pl"
  shows "state_of v = (op_OriginalStatus pl, op_OriginalManaged pl) \<or> inst_settled (state_of v)"
proof -
  show ?thesis using read_state_settled(1) written_state [OF assms(1) [unfolded roll_back_def] assms(2,3)]
    by (auto split: sum.splits)
qed

text \<open>
  C16: Whatever the agent service and the configuration management database answer, and wherever the
  task fails, the instance of a task is in a settled state when the task has ended, or has the state
  it had when the operation was requested, or is deleted.
\<close>

theorem operated_instance_settles:
  assumes ids: "ids_ok st" and run: "run_operate_task envs env pl cp st = (err, st')"
    and v: "v \<in> set (db_Instances (os_Db st'))" "in_BizID v = op_BizID pl" "in_ID v = op_InstanceID pl"
  shows "inst_settled (state_of v) \<or> err \<noteq> None \<and> state_of v = (op_OriginalStatus pl, op_OriginalManaged pl)"
proof -
  obtain pl' cp' st1 where s: "run_steps (OperateTask_Steps pl) envs pl cp st = (err, pl', cp', st1)"
    and cb: "st' = snd (Callback env pl' cp' err st1)"
    using run by (auto simp: run_operate_task_def split: prod.splits)
  have same: "same_task pl' pl"
    using run_steps_task [OF s] steps_same_task(1) by (auto simp: same_task_def)
  obtain all st2 where c: "count_task env pl' (err = None) st1 = (all, st2)" by fastforce
  have db2: "os_Db st2 = os_Db st1" using count_task_db [of env pl' "err = None" st1] c by simp
  have ids1: "ids_ok st1" by (rule run_steps_ids [OF s ids])
  define st3 where "st3 = (if err = None then snd (scale_down pl' st2) else roll_back env pl' cp' st2)"
  have st': "st' = renumber_when all pl' st3"
    using cb c by (auto simp: Callback_def st3_def split: prod.splits)
  have "ids_ok st2" using ids1 db2 by (simp add: ids_ok_def)
  then have "ids_ok st3" by (simp add: st3_def roll_back_def scale_down_rows(2))
  from renumber_rows [OF this, of all pl'] obtain g where
    "db_Instances (os_Db st') = map (\<lambda>q. q\<lparr>in_ModuleInstSeq := g q\<rparr>) (db_Instances (os_Db st3))"
    unfolding st' by blast
  then obtain w where w: "w \<in> set (db_Instances (os_Db st3))" "in_BizID w = in_BizID v"
    "in_ID w = in_ID v" "state_of w = state_of v"
    using v(1) by auto
  show ?thesis
  proof (cases err)
    case None
    define p where "p = snd (step_FinalizeOperateProcess pl)"
    have "run_steps ([step_ValidateOperateProcess pl, step_CompareWithCMDBProcessInfo pl,
        step_CompareWithGSEProcessStatus pl, step_CompareWithGSEProcessConfig pl, step_OperateProcess pl]
        @ [(FinalizeOperateProcess, p)]) envs pl cp st = (None, pl', cp', st1)"
      using s None by (simp add: OperateTask_Steps_def step_FinalizeOperateProcess_def p_def)
    from run_steps_last [OF this] obtain e cp0 st0 where p: "pl' = p"
      and l: "run_step FinalizeOperateProcess e p cp0 st0 = (Inr (), cp', st1)" by blast
    have fin: "Finalize e p cp0 st0 = (Inr (), cp', st1)" using l by simp
    then obtain sm where sm: "inst_settled sm" "st1 = write_state p sm st0"
      by (auto simp: Finalize_def dest: read_state_settled split: sum.splits)
    have "w \<in> set (db_Instances (os_Db st1))"
      using w(1) scale_down_rows(1) [of pl' st2] None db2 by (auto simp: st3_def)
    then show ?thesis using written_state [of w p sm st0] sm w p v same by (simp add: same_task_def)
  next
    case (Some e)
    then have "w \<in> set (db_Instances (os_Db (roll_back env pl' cp' st2)))" using w(1) by (simp add: st3_def)
    from roll_back_state [OF this] show ?thesis using w v same Some by (auto simp: same_task_def)
  qed
qed

section \<open>A request while the instance is in between\<close>

lemma in_between_refused:
  "isProcessInProgress s \<or> isManagedInProgress m \<Longrightarrow> \<not> fst (CanProcessOperate op info s m sy)"
  by (auto simp: CanProcessOperate_def Let_def)

lemma no_answer:
  assumes "\<forall>r. isl (gs_Submit (oe_gse env) r)"
  shows "isl (getGSEProcessStatus env pl cp db)"
proof -
  have c: "isl (gse_call (oe_gse env) biz p t info)" for biz p t info
    using assms by (auto simp: gse_call_def rbind_def isl_def split: sum.splits) (metis sum.distinct(1))
  have "isl (gse_query (oe_gse env) biz p info)" for biz p info
    using c [of biz p OpTypeQuery info] by (auto simp: gse_query_def rbind_def isl_def)
  then show ?thesis
    by (auto simp: getGSEProcessStatus_def rbind_def isl_def split: sum.splits) (metis sum.distinct(1))
qed

lemma validate_in_between:
  assumes "isProcessInProgress (op_OriginalStatus pl) \<or> isManagedInProgress (op_OriginalManaged pl)"
  shows "\<exists>e cp'. ValidateOperate env (snd (step_ValidateOperateProcess pl)) cp st = (Inl e, cp', st)
    \<and> tp_Process cp' = tp_Process cp"
proof (cases "decode_info env (pp_ConfigData (tp_Process cp))")
  case (Inr info)
  obtain b m r where c: "CanProcessOperate (op_OperateType pl) info (op_OriginalStatus pl) (op_OriginalManaged pl)
    (op_CCSyncStatus pl) = (b, m, r)" by (metis prod_cases3)
  then have "\<not> b" using in_between_refused [OF assms, of "op_OperateType pl" info "op_CCSyncStatus pl"] by simp
  then show ?thesis using Inr c
    by (simp add: ValidateOperate_def step_ValidateOperateProcess_def base_payload_def keep_code_def)
qed (simp add: ValidateOperate_def)

text \<open>
  C19: A task of an operation that was requested while its instance was in between is refused by its
  first step and sends nothing. If the agent service does not answer its callback either, it writes
  the state in between back, although the operation that caused it may have ended long before. While
  the row has this state, that is until something else writes it, such as the periodic
  synchronisation with the agent service, every operation is refused for the instance.
\<close>

theorem request_in_between_written_back:
  assumes "ids_ok st"
    and mid: "isProcessInProgress (op_OriginalStatus pl) \<or> isManagedInProgress (op_OriginalManaged pl)"
    and silent: "\<forall>r. isl (gs_Submit (oe_gse env) r)"
  shows "\<exists>e st'. run_operate_task (e0 # envs) env pl cp st = (Some e, st') \<and>
    (\<forall>v \<in> set (db_Instances (os_Db st')). in_BizID v = op_BizID pl \<and> in_ID v = op_InstanceID pl \<longrightarrow>
      state_of v = (op_OriginalStatus pl, op_OriginalManaged pl)
      \<and> (\<forall>op info sy. \<not> fst (CanProcessOperate op info (in_Status v) (in_ManagedStatus v) sy)))"
proof -
  let ?p = "snd (step_ValidateOperateProcess pl)"
  have same: "same_task ?p pl" by (simp add: step_ValidateOperateProcess_def base_payload_def same_task_def)
  obtain e cp' where v: "ValidateOperate e0 ?p cp st = (Inl e, cp', st)"
    using validate_in_between [OF mid, of e0 cp st] by blast
  then have "run_steps (OperateTask_Steps pl) (e0 # envs) pl cp st = (Some e, ?p, cp', st)"
    by (simp add: OperateTask_Steps_def step_ValidateOperateProcess_def)
  then have run: "run_operate_task (e0 # envs) env pl cp st = (Some e, snd (Callback env ?p cp' (Some e) st))"
    by (simp add: run_operate_task_def)
  obtain all st2 where c: "count_task env ?p False st = (all, st2)" by fastforce
  have "ids_ok st2" using count_task_db [of env ?p False st] c assms(1) by (simp add: ids_ok_def)
  then have ids3: "ids_ok (roll_back env ?p cp' st2)" by (simp add: roll_back_def)
  define st' where "st' = snd (Callback env ?p cp' (Some e) st)"
  have st': "st' = renumber_when all ?p (roll_back env ?p cp' st2)"
    using c by (auto simp: st'_def Callback_def)
  from renumber_rows [OF ids3, of all ?p] obtain g where
    g: "db_Instances (os_Db st') = map (\<lambda>q. q\<lparr>in_ModuleInstSeq := g q\<rparr>) (db_Instances (os_Db (roll_back env ?p cp' st2)))"
    unfolding st' by blast
  have "isl (getGSEProcessStatus env ?p cp' (os_Db st2))" by (rule no_answer [OF silent])
  then have rb: "roll_back env ?p cp' st2 = write_state ?p (op_OriginalStatus pl, op_OriginalManaged pl) st2"
    using same by (auto simp: roll_back_def same_task_def split: sum.splits)
  have state: "state_of v = (op_OriginalStatus pl, op_OriginalManaged pl)"
    if v: "v \<in> set (db_Instances (os_Db st'))" "in_BizID v = op_BizID pl" "in_ID v = op_InstanceID pl" for v
  proof -
    obtain w where w: "w \<in> set (db_Instances (os_Db (roll_back env ?p cp' st2)))" "in_BizID w = in_BizID v"
      "in_ID w = in_ID v" "state_of w = state_of v" using v(1) g by auto
    show ?thesis using written_state [OF w(1) [unfolded rb]] w(2-4) v(2,3) same by (simp add: same_task_def)
  qed
  then have "state_of v = (op_OriginalStatus pl, op_OriginalManaged pl)
      \<and> (\<forall>op info sy. \<not> fst (CanProcessOperate op info (in_Status v) (in_ManagedStatus v) sy))"
    if "v \<in> set (db_Instances (os_Db st'))" "in_BizID v = op_BizID pl \<and> in_ID v = op_InstanceID pl" for v
    using that in_between_refused [OF mid] by simp
  then show ?thesis using run st'_def by blast
qed

section \<open>Scaling down\<close>

definition inst_ids :: "nat \<Rightarrow> nat \<Rightarrow> proc_db \<Rightarrow> nat set" where
  "inst_ids biz pid db = in_ID ` {v \<in> set (db_Instances db). in_BizID v = biz \<and> in_ProcessID v = pid}"

lemma count_instances:
  assumes "distinct (map in_ID (db_Instances db))"
  shows "length (GetByProcessIDs biz [pid] db) = card (inst_ids biz pid db)"
proof -
  let ?vs = "filter (\<lambda>v. in_BizID v = biz \<and> in_ProcessID v = pid) (db_Instances db)"
  have "distinct (map in_ID ?vs)" using assms by (rule distinct_map_filter)
  from distinct_card [OF this] show ?thesis by (simp add: GetByProcessIDs_def inst_ids_def)
qed

text \<open>The callbacks of successful operations, in the order in which these end.\<close>

definition call_inst :: "op_env \<times> operate_payload \<times> task_payload \<Rightarrow> nat" where
  "call_inst c = op_InstanceID (fst (snd c))"

definition ended_well :: "(op_env \<times> operate_payload \<times> task_payload) list \<Rightarrow> op_store \<Rightarrow> op_store" where
  "ended_well calls st = fold (\<lambda>(env, pl, cp) st. snd (Callback env pl cp None st)) calls st"

lemma renumber_ids:
  assumes "ids_ok st"
  shows "inst_ids biz pid (os_Db (renumber_when b pl st)) = inst_ids biz pid (os_Db st)"
    and "db_Processes (os_Db (renumber_when b pl st)) = db_Processes (os_Db st)"
    and "ids_ok (renumber_when b pl st)"
proof -
  from renumber_rows [OF assms, of b pl] obtain g where
    g: "db_Instances (os_Db (renumber_when b pl st)) = map (\<lambda>q. q\<lparr>in_ModuleInstSeq := g q\<rparr>) (db_Instances (os_Db st))"
    "db_Processes (os_Db (renumber_when b pl st)) = db_Processes (os_Db st)" by blast
  show "inst_ids biz pid (os_Db (renumber_when b pl st)) = inst_ids biz pid (os_Db st)"
  proof -
    have "{v \<in> set (map (\<lambda>q. q\<lparr>in_ModuleInstSeq := g q\<rparr>) xs). in_BizID v = biz \<and> in_ProcessID v = pid}
      = (\<lambda>q. q\<lparr>in_ModuleInstSeq := g q\<rparr>) ` {v \<in> set xs. in_BizID v = biz \<and> in_ProcessID v = pid}" for xs by auto
    then show ?thesis unfolding inst_ids_def g(1) by (simp only: image_image) simp
  qed
  show "db_Processes (os_Db (renumber_when b pl st)) = db_Processes (os_Db st)" by (rule g(2))
  have "map in_ID (db_Instances (os_Db (renumber_when b pl st))) = map in_ID (db_Instances (os_Db st))"
    by (simp add: g(1))
  then show "ids_ok (renumber_when b pl st)" using assms by (simp only: ids_ok_def)
qed

lemma delete_ids:
  assumes "distinct (map in_ID (db_Instances db))" "i \<in> inst_ids biz pid db"
  shows "inst_ids biz pid (inst_Delete biz i db) = inst_ids biz pid db - {i}"
  by (auto simp: inst_ids_def inst_Delete_def)

lemma callback_scales:
  assumes "ids_ok st" "proc_GetByID biz pid (os_Db st) = Inr p"
    and "op_OperateType pl \<in> {StopOp, UnregisterOp}" "op_BizID pl = biz" "op_ProcessID pl = pid"
    and "op_InstanceID pl \<in> inst_ids biz pid (os_Db st)"
    and st'_def: "st' = snd (Callback env pl cp None st)"
  shows "ids_ok st'" "proc_GetByID biz pid (os_Db st') = Inr p"
    and "inst_ids biz pid (os_Db st') = (if ps_ProcNum (pr_Spec p) < card (inst_ids biz pid (os_Db st))
      then inst_ids biz pid (os_Db st) - {op_InstanceID pl} else inst_ids biz pid (os_Db st))"
proof -
  obtain all st2 where c: "count_task env pl True st = (all, st2)" by fastforce
  have db2: "os_Db st2 = os_Db st" using count_task_db [of env pl True st] c by simp
  let ?st3 = "snd (scale_down pl st2)"
  have st': "st' = renumber_when all pl ?st3"
    using c by (auto simp: st'_def Callback_def split: prod.splits)
  have dist: "distinct (map in_ID (db_Instances (os_Db st)))" using assms(1) by (simp add: ids_ok_def)
  have "ids_ok st2" using assms(1) db2 by (simp add: ids_ok_def)
  then have ids3: "ids_ok ?st3" by (rule scale_down_rows(2))
  have procs: "db_Processes (os_Db ?st3) = db_Processes (os_Db st)"
    by (auto simp: scale_down_def inst_Delete_def db2 split: sum.splits)
  have "inst_ids biz pid (os_Db ?st3) = (if ps_ProcNum (pr_Spec p) < card (inst_ids biz pid (os_Db st))
      then inst_ids biz pid (os_Db st) - {op_InstanceID pl} else inst_ids biz pid (os_Db st))"
    using assms(2-5) delete_ids [OF dist assms(6)] count_instances [OF dist, of biz pid]
    by (auto simp: scale_down_def db2)
  then show "inst_ids biz pid (os_Db st') = (if ps_ProcNum (pr_Spec p) < card (inst_ids biz pid (os_Db st))
      then inst_ids biz pid (os_Db st) - {op_InstanceID pl} else inst_ids biz pid (os_Db st))"
    unfolding st' renumber_ids(1) [OF ids3] .
  show "ids_ok st'" unfolding st' by (rule renumber_ids(3) [OF ids3])
  show "proc_GetByID biz pid (os_Db st') = Inr p"
    using assms(2) unfolding st' proc_GetByID_def renumber_ids(2) [OF ids3] procs .
qed

text \<open>
  C17: When instances of a process are stopped or unregistered, with the tasks ending in any order, the
  instances that are deleted are those whose tasks end first, as many as the process has above the
  number that is wanted, and no others: the process never falls below that number.
\<close>

theorem stops_scale_down:
  assumes "ids_ok st" "proc_GetByID biz pid (os_Db st) = Inr p"
    and "\<forall>(env, pl, cp) \<in> set calls. op_OperateType pl \<in> {StopOp, UnregisterOp} \<and> op_BizID pl = biz \<and> op_ProcessID pl = pid"
    and "distinct (map call_inst calls)"
    and "set (map call_inst calls) \<subseteq> inst_ids biz pid (os_Db st)"
  shows "inst_ids biz pid (os_Db (ended_well calls st)) = inst_ids biz pid (os_Db st)
    - set (take (card (inst_ids biz pid (os_Db st)) - ps_ProcNum (pr_Spec p)) (map call_inst calls))"
  using assms
proof (induction calls arbitrary: st)
  case (Cons call calls)
  obtain env pl cp where call: "call = (env, pl, cp)" by (metis prod_cases3)
  let ?st = "snd (Callback env pl cp None st)" and ?n = "card (inst_ids biz pid (os_Db st))"
    and ?m = "ps_ProcNum (pr_Spec p)" and ?is = "map call_inst calls"
  have i: "op_InstanceID pl \<in> inst_ids biz pid (os_Db st)" using Cons.prems(5) call by (simp add: call_inst_def)
  have pl: "op_OperateType pl \<in> {StopOp, UnregisterOp}" "op_BizID pl = biz" "op_ProcessID pl = pid"
    using Cons.prems(3) call by auto
  note s = callback_scales [OF Cons.prems(1,2) pl i refl, of env cp]
  have fin: "finite (inst_ids biz pid (os_Db st))" by (simp add: inst_ids_def)
  have IH: "inst_ids biz pid (os_Db (ended_well calls ?st)) = inst_ids biz pid (os_Db ?st)
    - set (take (card (inst_ids biz pid (os_Db ?st)) - ?m) ?is)"
  proof (intro Cons.IH s(1,2))
    show "set (map call_inst calls) \<subseteq> inst_ids biz pid (os_Db ?st)"
    proof -
      have "op_InstanceID pl \<notin> set (map call_inst calls)" using Cons.prems(4) call by (simp add: call_inst_def)
      then show ?thesis using Cons.prems(5) by (simp add: s(3)) blast
    qed
  qed (use Cons.prems(3,4) in auto)
  show ?case
  proof (cases "?m < ?n")
    case True
    then have ids: "inst_ids biz pid (os_Db ?st) = inst_ids biz pid (os_Db st) - {op_InstanceID pl}" by (simp add: s(3))
    have "card (inst_ids biz pid (os_Db ?st)) = ?n - 1" unfolding ids using i fin by simp
    then have "inst_ids biz pid (os_Db (ended_well (call # calls) st)) =
      inst_ids biz pid (os_Db st) - {op_InstanceID pl} - set (take (?n - 1 - ?m) (map call_inst calls))"
      using IH unfolding ids by (simp add: ended_well_def call)
    moreover have "take (?n - ?m) (map call_inst (call # calls)) = op_InstanceID pl # take (?n - 1 - ?m) (map call_inst calls)"
      using True by (simp add: call_inst_def call take_Cons')
    ultimately show ?thesis by (simp only: list.set(2)) blast
  next
    case False
    then show ?thesis using IH s(3) call by (simp add: ended_well_def)
  qed
qed (simp add: ended_well_def)

section \<open>Retrying and failing updates of the registered data\<close>

lemma no_finalize_step: "map_of (UpdateRegisterTask_Steps pl) FinalizeOperateProcess = None"
  by (simp add: step_payload_defs)

text \<open>
  C21: Retrying a batch that updates registered data never runs a task: the handler looks for a step
  that these tasks do not have. It has counted the failed tasks as open before, so that the batch is
  running again, for tasks that nobody will end.
\<close>

theorem retry_of_update_fails:
  assumes t: "TaskBatch_GetByID biz bid (os_Tb st) = Inr t" "tb_Status t \<noteq> BatchSucceed"
    and uniq: "distinct (map tb_ID (bs_Batches (os_Tb st)))"
    and steps: "\<forall>s \<in> set store. tk_BatchID (so_Task s) = bid \<longrightarrow> (\<exists>pl. tk_Steps (so_Task s) = UpdateRegisterTask_Steps pl)"
    and k: "k = length (filter (\<lambda>s. tk_BatchID (so_Task s) = bid \<and> tk_TaskType (so_Task s) = tb_TaskAction t
        \<and> so_Status s = TaskFailed) store)" "0 < k"
    and counts: "k \<le> tb_FailedCount t" "k \<le> tb_CompletedCount t"
  shows "\<exists>st'. RetryTasks store biz bid st = Some (Inl StepNotFound, [], st') \<and> os_Db st' = os_Db st
    \<and> find_batch bid (os_Tb st') = Some (t\<lparr>tb_CompletedCount := tb_CompletedCount t - k,
        tb_FailedCount := tb_FailedCount t - k, tb_Status := BatchRunning, tb_EndAt := None\<rparr>)"
proof -
  have id: "tb_ID t = bid" "t \<in> set (bs_Batches (os_Tb st))"
    using t(1) by (auto simp: TaskBatch_GetByID_def find_Some_iff split: option.splits)
  have other: "u = t" if "u \<in> set (bs_Batches (os_Tb st))" "tb_ID u = bid" for u
    using that id uniq by (auto simp: distinct_map inj_on_def)
  have f: "find_batch bid (os_Tb st) = Some t"
  proof -
    obtain u where u: "find_batch bid (os_Tb st) = Some u"
      using id by (cases "find_batch bid (os_Tb st)") (auto simp: find_batch_def find_None_iff)
    then have "u \<in> set (bs_Batches (os_Tb st))" "tb_ID u = bid" by (auto simp: find_batch_def find_Some_iff)
    with other u show ?thesis by simp
  qed
  let ?failed = "filter (\<lambda>s. tk_BatchID (so_Task s) = bid \<and> tk_TaskType (so_Task s) = tb_TaskAction t
      \<and> so_Status s = TaskFailed) store"
  let ?reset = "\<lambda>t. t\<lparr>tb_CompletedCount := tb_CompletedCount t - k, tb_FailedCount := tb_FailedCount t - k,
      tb_Status := BatchRunning, tb_EndAt := None\<rparr>"
  obtain s ss where failed: "?failed = s # ss" using k by (cases ?failed) auto
  then have "s \<in> set ?failed" by (metis list.set_intros(1))
  then obtain pl where pl: "tk_Steps (so_Task s) = UpdateRegisterTask_Steps pl" using steps by auto
  have "ResetCountsForRetry bid k (os_Tb st) = Inr (update_batch bid ?reset (os_Tb st))"
    using other counts by (auto simp: ResetCountsForRetry_def list_ex_iff)
  moreover have "retry_tasks biz (tb_TaskAction t) (s # ss) u = (Inl StepNotFound, [], u)" for u
    using no_finalize_step by (simp add: retry_one_def pl)
  ultimately have "RetryTasks store biz bid st = Some (Inl StepNotFound, [], st\<lparr>os_Tb := update_batch bid ?reset (os_Tb st)\<rparr>)"
    using t(1) t(2) k(1) failed
    by (simp add: RetryTasks_def retryProcessTask_def queryFailedTasks_all id del: retry_tasks.simps)
  moreover have "find_batch bid (update_batch bid ?reset (os_Tb st)) = Some (?reset t)"
    using f by (simp add: find_update_batch)
  ultimately show ?thesis by simp
qed

lemma batch_by_id_update:
  assumes "\<And>t. tb_ID (f t) = tb_ID t \<and> tb_BizID (f t) = tb_BizID t"
  shows "TaskBatch_GetByID biz bid (update_batch bid' f bs) =
    map_sum id (\<lambda>t. if tb_ID t = bid' then f t else t) (TaskBatch_GetByID biz bid bs)"
proof -
  have "find (\<lambda>t. tb_ID t = bid \<and> tb_BizID t = biz) (map (\<lambda>t. if tb_ID t = bid' then f t else t) ts)
    = map_option (\<lambda>t. if tb_ID t = bid' then f t else t) (find (\<lambda>t. tb_ID t = bid \<and> tb_BizID t = biz) ts)" for ts
    using assms by (induction ts) auto
  then show ?thesis by (simp add: TaskBatch_GetByID_def update_batch_def split: option.splits)
qed

lemma counted_batch:
  assumes "TaskBatch_GetByID biz bid (os_Tb st) = Inr t"
  obtains t' where "TaskBatch_GetByID biz bid (os_Tb (snd (count_task env pl b st))) = Inr t'"
    "tb_TotalCount t' = tb_TotalCount t" "tb_RegisterSuccess t' = tb_RegisterSuccess t"
proof -
  have "os_Tb (snd (count_task env pl b st)) = os_Tb st \<or>
    (\<exists>f. os_Tb (snd (count_task env pl b st)) = update_batch (op_BatchID pl) f (os_Tb st)
      \<and> (\<forall>t. tb_ID (f t) = tb_ID t \<and> tb_BizID (f t) = tb_BizID t \<and> tb_TotalCount (f t) = tb_TotalCount t
        \<and> tb_RegisterSuccess (f t) = tb_RegisterSuccess t)) \<or>
    (\<exists>f g. os_Tb (snd (count_task env pl b st)) = update_batch (op_BatchID pl) g (update_batch (op_BatchID pl) f (os_Tb st))
      \<and> (\<forall>t. tb_ID (f t) = tb_ID t \<and> tb_BizID (f t) = tb_BizID t \<and> tb_TotalCount (f t) = tb_TotalCount t
        \<and> tb_RegisterSuccess (f t) = tb_RegisterSuccess t)
      \<and> (\<forall>t. tb_ID (g t) = tb_ID t \<and> tb_BizID (g t) = tb_BizID t \<and> tb_TotalCount (g t) = tb_TotalCount t
        \<and> tb_RegisterSuccess (g t) = tb_RegisterSuccess t))"
    by (auto simp: count_task_def IncrementCompletedCount_def count_batch_def Let_def end_batch_def
        split: option.splits prod.splits sum.splits if_splits intro!: exI) 
  then show thesis
    using assms that by (elim disjE exE conjE) (force simp: batch_by_id_update)+
qed

text \<open>
  C20: An update of the registered data whose process has vanished from the configuration management
  database registers nothing, and its first step marks the process as deleted. Its callback counts it
  as registered all the same, since its error is not the one of the registering step: when it is the
  last of its batch, the process is marked as synchronised again.
\<close>

theorem failed_update_marks_synced:
  assumes batch: "0 < op_BatchID pl" "TaskBatch_GetByID (op_BizID pl) (op_BatchID pl) (os_Tb st) = Inr t"
    and last: "(case tb_RegisterSuccess t of None \<Rightarrow> 0 | Some k \<Rightarrow> k) + 1 = tb_TotalCount t"
    and gone: "oe_cmdb e0 (op_BizID pl) (pp_CcProcessID (tp_Process cp)) = Inr []"
  shows "\<exists>st'. run_update_task (e0 # envs) env pl cp st = (Some NotInCMDB, st') \<and>
    (\<forall>p \<in> set (db_Processes (os_Db st')). biz_id p = op_BizID pl \<and> pr_ID p = op_ProcessID pl \<longrightarrow>
      sync_of p = Synced \<and> ps_SourceData (pr_Spec p) = pp_ConfigData (tp_Process cp))"
proof -
  let ?p = "snd (step_UR_ValidateOperate pl)"
  have same: "same_task ?p pl" by (simp add: step_UR_ValidateOperate_def base_payload_def same_task_def)
  define st1 where "st1 = st\<lparr>os_Db := MarkProcessDeletedAndCleanInstancesTx (op_BizID pl) [op_ProcessID pl] (os_Db st)\<rparr>"
  have v: "UR_ValidateOperateStep e0 ?p cp st = (Inl NotInCMDB, cp, st1)"
    using gone same by (simp add: UR_ValidateOperateStep_def same_task_def st1_def)
  then have run: "run_update_task (e0 # envs) env pl cp st = (Some NotInCMDB, snd (UR_Callback env ?p cp (Some NotInCMDB) st1))"
    by (simp add: run_update_task_def UpdateRegisterTask_Steps_def step_UR_ValidateOperate_def)
  define st2 where "st2 = snd (count_task env ?p False st1)"
  have "TaskBatch_GetByID (op_BizID pl) (op_BatchID pl) (os_Tb st1) = Inr t" using batch by (simp add: st1_def)
  from counted_batch [OF this, of env ?p False] obtain t' where
    t': "TaskBatch_GetByID (op_BizID pl) (op_BatchID pl) (os_Tb st2) = Inr t'"
    "tb_TotalCount t' = tb_TotalCount t" "tb_RegisterSuccess t' = tb_RegisterSuccess t"
    unfolding st2_def by blast
  define tb where "tb = UpdateExtraData (op_BatchID pl) (Some (tb_TotalCount t)) (os_Tb st2)"
  have snap: "updateBatchExtraDataWithLock (op_BizID ?p) (op_BatchID ?p) (registerProcessSuccessDelta (Some NotInCMDB)) (os_Tb st2)
    = (Some \<lparr>sn_Status = tb_Status t', sn_TotalCount = tb_TotalCount t', sn_RegisterSuccess = tb_TotalCount t'\<rparr>, tb)"
    using t' last same
    by (simp add: updateBatchExtraDataWithLock_def registerProcessSuccessDelta_def Let_def same_task_def tb_def)
  define st3 where "st3 = st2\<lparr>os_Tb := tb, os_Db := proc_UpdateSelectedFields (op_BizID pl) (op_ProcessID pl) Synced
    (pp_ConfigData (tp_Process cp)) (pp_ConfigData (tp_Process cp)) (os_Db st2)\<rparr>"
  have "snd (UR_Callback env ?p cp (Some NotInCMDB) st1) = write_state ?p
      (case UR_getGSEProcessStatus env ?p cp (os_Db st3) of
         Inl _ \<Rightarrow> (op_OriginalStatus ?p, op_OriginalManaged ?p) | Inr sm \<Rightarrow> sm) st3"
    using batch(1) same snap by (auto simp: UR_Callback_def st2_def [symmetric] st3_def same_task_def Let_def)
  then obtain sm where st': "snd (UR_Callback env ?p cp (Some NotInCMDB) st1) = write_state ?p sm st3" by blast
  have "sync_of p = Synced \<and> ps_SourceData (pr_Spec p) = pp_ConfigData (tp_Process cp)"
    if "p \<in> set (db_Processes (os_Db (write_state ?p sm st3)))" "biz_id p = op_BizID pl \<and> pr_ID p = op_ProcessID pl" for p
    using that by (auto simp: write_state_def inst_UpdateSelectedFields_def st3_def proc_UpdateSelectedFields_def split: if_splits)
  then show ?thesis using run st' by auto
qed

section \<open>Instances that are started\<close>

text \<open>
  Starting, registering, restarting and reloading act on at most the wanted number of instances of a
  process, and on those with the smallest numbers.
\<close>

theorem started_instances_are_lowest:
  assumes "length (filter (\<lambda>i. in_ProcessID i = pr_ID p) insts) = n"
  shows "length (start_instances insts p) = min n (ps_ProcNum (pr_Spec p))
    \<and> set (start_instances insts p) \<subseteq> {i \<in> set insts. in_ProcessID i = pr_ID p}
    \<and> (\<forall>i \<in> set (start_instances insts p). \<forall>j \<in> set insts. in_ProcessID j = pr_ID p
         \<and> j \<notin> set (start_instances insts p) \<longrightarrow> in_ModuleInstSeq i \<le> in_ModuleInstSeq j)"
proof -
  let ?is = "filter (\<lambda>i. in_ProcessID i = pr_ID p) insts" and ?m = "ps_ProcNum (pr_Spec p)"
  show ?thesis
  proof (cases "length ?is \<le> ?m")
    case True
    then have "start_instances insts p = ?is" by (simp add: start_instances_def)
    then show ?thesis using True assms by auto
  next
    case False
    let ?s = "sort_key in_ModuleInstSeq ?is"
    have st: "start_instances insts p = take ?m ?s" using False by (simp add: start_instances_def)
    have "in_ModuleInstSeq i \<le> in_ModuleInstSeq j" if "i \<in> set (take ?m ?s)" "j \<in> set ?is" "j \<notin> set (take ?m ?s)" for i j
    proof -
      have "j \<in> set (take ?m ?s @ drop ?m ?s)" using that(2) by simp
      then have j: "j \<in> set (drop ?m ?s)" using that(3) unfolding set_append by blast
      have "sorted (map in_ModuleInstSeq (take ?m ?s @ drop ?m ?s))" by (simp only: append_take_drop_id sorted_sort_key)
      then have "\<forall>x \<in> set (map in_ModuleInstSeq (take ?m ?s)). \<forall>y \<in> set (map in_ModuleInstSeq (drop ?m ?s)). x \<le> y"
        unfolding map_append sorted_append by blast
      then show ?thesis using that(1) j unfolding set_map by blast
    qed
    note low = this
    have sub: "set (take ?m ?s) \<subseteq> set ?is" by (metis set_sort set_take_subset)
    show ?thesis unfolding st
    proof (intro conjI ballI impI)
      show "length (take ?m ?s) = min n ?m" using False assms by simp
      show "set (take ?m ?s) \<subseteq> {i \<in> set insts. in_ProcessID i = pr_ID p}" using sub by (simp only: set_filter)
    qed (rule low, simp_all)
  qed
qed

end
