(* ===== verification/BatchFlow.thy ===== *)
theory BatchFlow
  imports ProcTaskProps
begin

text \<open>
  The histories of operations on processes: requests, retries, the steps of tasks and their callbacks
  in any order, between changes of the rows of processes by the synchronisation. In all of them a
  batch accounts for its tasks, and when no more requests come every batch ends, but for those that a
  failed retry has left with tasks counted back and not started.
\<close>

section \<open>Histories\<close>

record run_task =
  rt_Task :: proc_task
  rt_Left :: "(step_name \<times> operate_payload) list"
  rt_Last :: operate_payload
  rt_Err :: "task_err option"

text \<open>
  The store, the tasks that run and those that have ended, as the storage of the task library has them.
  The last field is not in the program: it says for each batch how many of its failed tasks a retry
  has counted back and not started.
\<close>

record ops_state =
  ow_Store :: op_store
  ow_Open :: "run_task list"
  ow_Ended :: "stored_task list"
  ow_Lost :: "nat \<Rightarrow> nat"

definition start_task :: "proc_task \<Rightarrow> run_task" where
  "start_task t = \<lparr>rt_Task = t, rt_Left = tk_Steps t, rt_Last = tk_Payload t, rt_Err = None\<rparr>"

text \<open>One step of a task; an error ends it.\<close>

definition work_on :: "op_env \<Rightarrow> run_task \<Rightarrow> op_store \<Rightarrow> run_task \<times> op_store" where
  "work_on env x st = (case rt_Left x of
      [] \<Rightarrow> (x, st)
    | (n, p) # ss \<Rightarrow> (case run_step n env p (tk_Common (rt_Task x)) st of (r, cp, st') \<Rightarrow>
        (x\<lparr>rt_Task := (rt_Task x)\<lparr>tk_Common := cp\<rparr>, rt_Left := ss, rt_Last := p,
           rt_Err := (case r of Inl e \<Rightarrow> Some e | Inr _ \<Rightarrow> None)\<rparr>, st')))"

definition call_back :: "op_env \<Rightarrow> run_task \<Rightarrow> op_store \<Rightarrow> op_store" where
  "call_back env x st =
     snd ((if tk_Updates (rt_Task x) then UR_Callback else Callback) env (rt_Last x) (tk_Common (rt_Task x)) (rt_Err x) st)"

definition stored :: "run_task \<Rightarrow> stored_task" where
  "stored x = \<lparr>so_Status = (if rt_Err x = None then TaskSuccess else TaskFailed), so_Task = rt_Task x\<rparr>"

inductive work_step :: "ops_state \<Rightarrow> ops_state \<Rightarrow> bool" where
  work: "ow_Open s = a @ x # b \<Longrightarrow> rt_Err x = None \<Longrightarrow> rt_Left x \<noteq> [] \<Longrightarrow>
    work_on env x (ow_Store s) = (x', st') \<Longrightarrow> work_step s (s\<lparr>ow_Store := st', ow_Open := a @ x' # b\<rparr>)"
| callback: "ow_Open s = a @ x # b \<Longrightarrow> rt_Err x \<noteq> None \<or> rt_Left x = [] \<Longrightarrow>
    work_step s (s\<lparr>ow_Store := call_back env x (ow_Store s), ow_Open := a @ b, ow_Ended := ow_Ended s @ [stored x]\<rparr>)"

text \<open>The failed tasks of a batch.\<close>

definition failed_of :: "task_batch \<Rightarrow> stored_task \<Rightarrow> bool" where
  "failed_of t e \<longleftrightarrow> tk_BatchID (so_Task e) = tb_ID t \<and> tk_TaskType (so_Task e) = tb_TaskAction t \<and> so_Status e = TaskFailed"

text \<open>The tasks that a retry starts are its first failed ones; they run again and are no longer failed.\<close>

fun remove_first :: "('a \<Rightarrow> bool) \<Rightarrow> nat \<Rightarrow> 'a list \<Rightarrow> 'a list" where
  "remove_first P 0 xs = xs"
| "remove_first P (Suc k) [] = []"
| "remove_first P (Suc k) (x # xs) = (if P x then remove_first P k xs else x # remove_first P (Suc k) xs)"

lemma remove_first_subset: "set (remove_first P k xs) \<subseteq> set xs"
  by (induction P k xs rule: remove_first.induct) auto

text \<open>How many failed tasks a retry takes back in the counts of the batch, before it starts the first.\<close>

definition counted_back :: "stored_task list \<Rightarrow> task_batch \<Rightarrow> batch_store \<Rightarrow> nat" where
  "counted_back es t tb = (let n = length (filter (failed_of t) es) in
     if tb_Status t = BatchSucceed \<or> isl (ResetCountsForRetry (tb_ID t) n tb) then 0 else n)"

inductive ops_step :: "ops_state \<Rightarrow> ops_state \<Rightarrow> bool" where
  request: "OperateProcess now kt req (ow_Store s) = Some (r, ts, st') \<Longrightarrow>
    ops_step s (s\<lparr>ow_Store := st', ow_Open := ow_Open s @ map start_task ts\<rparr>)"
| retry: "TaskBatch_GetByID biz bid (os_Tb (ow_Store s)) = Inr t \<Longrightarrow>
    RetryTasks (ow_Ended s) biz bid (ow_Store s) = Some (r, ts, st') \<Longrightarrow>
    ops_step s (s\<lparr>ow_Store := st', ow_Open := ow_Open s @ map start_task ts,
      ow_Ended := remove_first (failed_of t) (length ts) (ow_Ended s),
      ow_Lost := (ow_Lost s)(tb_ID t := ow_Lost s (tb_ID t) + (counted_back (ow_Ended s) t (os_Tb (ow_Store s)) - length ts))\<rparr>)"
| task: "work_step s s' \<Longrightarrow> ops_step s s'"
| sync: "ops_step s (s\<lparr>ow_Store := (ow_Store s)\<lparr>os_Db := db\<rparr>\<rparr>)"

definition ops_init :: "ops_state \<Rightarrow> bool" where
  "ops_init s \<longleftrightarrow> bs_Batches (os_Tb (ow_Store s)) = [] \<and> 0 < bs_Next (os_Tb (ow_Store s)) \<and> ow_Open s = []
     \<and> ow_Ended s = [] \<and> ow_Lost s = (\<lambda>_. 0)"

inductive_cases work_stepE: "work_step s s'"
inductive_cases ops_stepE: "ops_step s s'"

section \<open>The invariant\<close>

definition open_of :: "run_task list \<Rightarrow> nat \<Rightarrow> nat" where
  "open_of xs bid = length (filter (\<lambda>x. tk_BatchID (rt_Task x) = bid) xs)"

lemma open_of_simps [simp]:
  "open_of [] bid = 0"
  "open_of (x # xs) bid = (if tk_BatchID (rt_Task x) = bid then 1 else 0) + open_of xs bid"
  "open_of (xs @ ys) bid = open_of xs bid + open_of ys bid"
  by (simp_all add: open_of_def)

text \<open>A batch of which so many tasks have not ended.\<close>

definition batch_ok :: "nat \<Rightarrow> task_batch \<Rightarrow> bool" where
  "batch_ok waiting t \<longleftrightarrow> tb_CompletedCount t = tb_SuccessCount t + tb_FailedCount t
     \<and> tb_CompletedCount t + waiting = tb_TotalCount t \<and> 0 < tb_TotalCount t
     \<and> tb_Status t = (if waiting = 0 then ended_status t else BatchRunning)"

definition task_ok :: "proc_task \<Rightarrow> bool" where
  "task_ok t \<longleftrightarrow> op_BatchID (tk_Payload t) = tk_BatchID t \<and> (\<forall>(n, p) \<in> set (tk_Steps t). op_BatchID p = tk_BatchID t)"

definition run_ok :: "run_task \<Rightarrow> bool" where
  "run_ok x \<longleftrightarrow> task_ok (rt_Task x) \<and> op_BatchID (rt_Last x) = tk_BatchID (rt_Task x)
     \<and> (\<forall>(n, p) \<in> set (rt_Left x). op_BatchID p = tk_BatchID (rt_Task x))"

definition batch_ids :: "batch_store \<Rightarrow> nat set" where
  "batch_ids tb = set (map tb_ID (bs_Batches tb))"

definition batches_ok :: "batch_store \<Rightarrow> bool" where
  "batches_ok tb \<longleftrightarrow> distinct (map tb_ID (bs_Batches tb)) \<and> 0 < bs_Next tb
     \<and> (\<forall>i \<in> batch_ids tb. 0 < i \<and> i < bs_Next tb)"

definition accounts :: "batch_store \<Rightarrow> (nat \<Rightarrow> nat) \<Rightarrow> bool" where
  "accounts tb waiting \<longleftrightarrow> (\<forall>t \<in> set (bs_Batches tb). batch_ok (waiting (tb_ID t)) t)"

definition tasks_ok :: "nat set \<Rightarrow> run_task list \<Rightarrow> stored_task list \<Rightarrow> bool" where
  "tasks_ok ids xs es \<longleftrightarrow> (\<forall>x \<in> set xs. run_ok x \<and> tk_BatchID (rt_Task x) \<in> ids)
     \<and> (\<forall>e \<in> set es. task_ok (so_Task e) \<and> tk_BatchID (so_Task e) \<in> ids)"

text \<open>The tasks of a batch that have not ended: those that run and those that are lost.\<close>

definition not_ended :: "ops_state \<Rightarrow> nat \<Rightarrow> nat" where
  "not_ended s bid = open_of (ow_Open s) bid + ow_Lost s bid"

definition ops_inv :: "ops_state \<Rightarrow> bool" where
  "ops_inv s \<longleftrightarrow> batches_ok (os_Tb (ow_Store s)) \<and> accounts (os_Tb (ow_Store s)) (not_ended s)
     \<and> tasks_ok (batch_ids (os_Tb (ow_Store s))) (ow_Open s) (ow_Ended s)
     \<and> (\<forall>i. i \<notin> batch_ids (os_Tb (ow_Store s)) \<longrightarrow> ow_Lost s i = 0)"

section \<open>Counting\<close>

text \<open>What a change of the counts does to a row: the status follows.\<close>

definition counted :: "nat \<Rightarrow> (task_batch \<Rightarrow> task_batch) \<Rightarrow> task_batch \<Rightarrow> task_batch" where
  "counted now f t = (let u = f t in if all_completed u then end_batch now u else u)"

lemma update_update_batch:
  assumes "\<And>t. tb_ID (f t) = tb_ID t"
  shows "update_batch bid g (update_batch bid f bs) = update_batch bid (g \<circ> f) bs"
  using assms by (simp add: update_batch_def)

lemma unique_batch:
  assumes "distinct (map tb_ID (bs_Batches bs))" "t \<in> set (bs_Batches bs)"
  shows "find_batch (tb_ID t) bs = Some t"
proof -
  have "find (\<lambda>u. tb_ID u = tb_ID t) ts = Some t" if "distinct (map tb_ID ts)" "t \<in> set ts" for ts
    using that by (induction ts) (auto simp: image_iff)
  then show ?thesis using assms by (simp add: find_batch_def)
qed

lemma count_batch_row:
  assumes "distinct (map tb_ID (bs_Batches bs))" "t \<in> set (bs_Batches bs)" "\<And>t. tb_ID (f t) = tb_ID t"
  shows "count_batch now (tb_ID t) f bs = Inr (all_completed (f t), update_batch (tb_ID t) (counted now f) bs)"
proof -
  have f: "find_batch (tb_ID t) (update_batch (tb_ID t) f bs) = Some (f t)"
    using unique_batch [OF assms(1,2)] by (simp add: find_update_batch assms(3))
  have "update_batch (tb_ID t) (counted now f) bs =
    (if all_completed (f t) then update_batch (tb_ID t) (end_batch now) (update_batch (tb_ID t) f bs) else update_batch (tb_ID t) f bs)"
  proof -
    have u: "u = t" if "u \<in> set (bs_Batches bs)" "tb_ID u = tb_ID t" for u
      using that assms(1,2) by (auto simp: distinct_map inj_on_def)
    have "map (\<lambda>u. if tb_ID u = tb_ID t then counted now f u else u) (bs_Batches bs) =
      map (\<lambda>u. if tb_ID u = tb_ID t then (if all_completed (f t) then end_batch now (f u) else f u) else u) (bs_Batches bs)"
      by (rule map_cong [OF refl]) (use u in \<open>auto simp: counted_def Let_def\<close>)
    then show ?thesis by (cases "all_completed (f t)") (simp_all add: update_batch_def assms(3) cong: if_cong)
  qed
  then show ?thesis using f by (simp add: count_batch_def Let_def)
qed

lemma batch_ok_count:
  assumes "batch_ok (w + k) t" "f t = t\<lparr>tb_CompletedCount := tb_CompletedCount t + k, tb_SuccessCount := tb_SuccessCount t + a,
      tb_FailedCount := tb_FailedCount t + b\<rparr>" "a + b = k" "0 < k"
  shows "batch_ok w (counted now f t)"
  using assms
  by (auto simp: batch_ok_def counted_def Let_def all_completed_def end_batch_def ended_status_def)

lemma batch_ids_update [simp]:
  assumes "\<And>t. tb_ID (f t) = tb_ID t"
  shows "batch_ids (update_batch b f tb) = batch_ids tb"
  unfolding batch_ids_def using assms by (subst update_batch_ids) auto

lemma batches_ok_update [simp]:
  assumes "\<And>t. tb_ID (f t) = tb_ID t"
  shows "batches_ok (update_batch b f tb) = batches_ok tb"
proof -
  have "map tb_ID (bs_Batches (update_batch b f tb)) = map tb_ID (bs_Batches tb)" by (rule update_batch_ids) (rule assms)
  then show ?thesis by (simp only: batches_ok_def batch_ids_update [OF assms] bs_Next_update)
qed

lemma counted_ID [simp]: "(\<And>t. tb_ID (f t) = tb_ID t) \<Longrightarrow> tb_ID (counted now f t) = tb_ID t"
  by (simp add: counted_def Let_def end_batch_def)

text \<open>A change of one row and of its tasks keeps the accounts.\<close>

lemma accounts_update:
  assumes "batches_ok tb" "t \<in> set (bs_Batches tb)" "accounts tb w" "\<And>t. tb_ID (f t) = tb_ID t"
    and "batch_ok (w' (tb_ID t)) (f t)" "\<And>b. b \<noteq> tb_ID t \<Longrightarrow> w' b = w b"
  shows "accounts (update_batch (tb_ID t) f tb) w'"
proof -
  have u: "u = t" if "u \<in> set (bs_Batches tb)" "tb_ID u = tb_ID t" for u
    using that assms(1,2) by (auto simp: batches_ok_def distinct_map inj_on_def)
  have "batch_ok (w' (tb_ID v)) v"
    if "v = (if tb_ID u = tb_ID t then f u else u)" "u \<in> set (bs_Batches tb)" for u v
  proof (cases "tb_ID u = tb_ID t")
    case True
    then show ?thesis using u [OF that(2)] that(1) assms(4,5) by simp
  next
    case False
    then show ?thesis using that assms(3,6) by (simp add: accounts_def)
  qed
  then show ?thesis unfolding accounts_def update_batch_def by fastforce
qed

section \<open>Callbacks\<close>

text \<open>A callback changes the row of its batch as the end of one task should.\<close>

definition count_row :: "nat \<Rightarrow> bool \<Rightarrow> task_batch \<Rightarrow> task_batch" where
  "count_row now ok = counted now (\<lambda>t.
     if ok then t\<lparr>tb_CompletedCount := tb_CompletedCount t + 1, tb_SuccessCount := tb_SuccessCount t + 1\<rparr>
     else t\<lparr>tb_CompletedCount := tb_CompletedCount t + 1, tb_FailedCount := tb_FailedCount t + 1\<rparr>)"

lemma count_row_ID [simp]: "tb_ID (count_row now ok t) = tb_ID t"
  by (simp add: count_row_def)

lemma batch_ok_count_row:
  assumes "batch_ok (Suc w) t"
  shows "batch_ok w (count_row now ok t)"
  unfolding count_row_def
  by (rule batch_ok_count [where k = 1 and a = "if ok then 1 else 0" and b = "if ok then 0 else 1"])
    (use assms in \<open>auto split: if_splits\<close>)

lemma count_task_row:
  assumes "batches_ok (os_Tb st)" "op_BatchID pl \<in> batch_ids (os_Tb st)"
  shows "os_Tb (snd (count_task env pl ok st)) = update_batch (op_BatchID pl) (count_row (oe_now env) ok) (os_Tb st)"
proof -
  obtain t where t: "t \<in> set (bs_Batches (os_Tb st))" "op_BatchID pl = tb_ID t"
    using assms(2) by (auto simp: batch_ids_def)
  then have "0 < tb_ID t" "distinct (map tb_ID (bs_Batches (os_Tb st)))"
    using assms t(2) by (simp_all add: batches_ok_def)
  then show ?thesis
    using count_batch_row [OF _ t(1)] by (simp add: count_task_def t(2) IncrementCompletedCount_def count_row_def)
qed

lemma row_changes_keep_batches [simp]:
  "os_Tb (write_state pl sm st) = os_Tb st" "os_Tb (roll_back env pl cp st) = os_Tb st"
  "os_Tb (renumber_when b pl st) = os_Tb st" "os_Tb (snd (scale_down pl st)) = os_Tb st"
  by (auto simp: write_state_def roll_back_def renumber_when_def scale_down_def split: sum.splits)

lemma Callback_batches: "os_Tb (snd (Callback env pl cp err st)) = os_Tb (snd (count_task env pl (err = None) st))"
  by (simp add: Callback_def split: prod.split)
    (metis row_changes_keep_batches(2,4) snd_conv)

lemma UR_Callback_batches:
  "os_Tb (snd (UR_Callback env pl cp err st)) = os_Tb (snd (count_task env pl (err = None) st))
   \<or> (\<exists>n. os_Tb (snd (UR_Callback env pl cp err st)) = UpdateExtraData (op_BatchID pl) n (os_Tb (snd (count_task env pl (err = None) st))))"
  by (auto simp: UR_Callback_def updateBatchExtraDataWithLock_def Let_def count_task_def split: sum.splits prod.splits if_splits)

lemma call_back_row:
  assumes "batches_ok (os_Tb st)" "run_ok x" "tk_BatchID (rt_Task x) \<in> batch_ids (os_Tb st)"
  shows "\<exists>f. os_Tb (call_back env x st) = update_batch (tk_BatchID (rt_Task x)) f (os_Tb st) \<and> (\<forall>t. tb_ID (f t) = tb_ID t)
    \<and> (\<forall>w t. batch_ok (Suc w) t \<longrightarrow> batch_ok w (f t))"
proof -
  let ?b = "tk_BatchID (rt_Task x)" let ?g = "count_row (oe_now env) (rt_Err x = None)"
  have b: "op_BatchID (rt_Last x) = ?b" using assms(2) by (simp add: run_ok_def)
  have c: "os_Tb (snd (count_task env (rt_Last x) (rt_Err x = None) st)) = update_batch ?b ?g (os_Tb st)"
    using count_task_row [OF assms(1), of "rt_Last x"] assms(3) by (simp add: b)
  have "os_Tb (call_back env x st) = update_batch ?b ?g (os_Tb st)
    \<or> (\<exists>k. os_Tb (call_back env x st) = update_batch ?b ((\<lambda>t. t\<lparr>tb_RegisterSuccess := k\<rparr>) \<circ> ?g) (os_Tb st))"
    using UR_Callback_batches [of env "rt_Last x" "tk_Common (rt_Task x)" "rt_Err x" st]
    by (auto simp: call_back_def Callback_batches c b UpdateExtraData_def update_update_batch)
  then show ?thesis
  proof (elim disjE exE)
    assume "os_Tb (call_back env x st) = update_batch ?b ?g (os_Tb st)"
    then show ?thesis using batch_ok_count_row by (intro exI [of _ ?g]) simp
  next
    fix k assume "os_Tb (call_back env x st) = update_batch ?b ((\<lambda>t. t\<lparr>tb_RegisterSuccess := k\<rparr>) \<circ> ?g) (os_Tb st)"
    moreover have "batch_ok w (t\<lparr>tb_RegisterSuccess := k\<rparr>) = batch_ok w t" for w t
      by (simp add: batch_ok_def ended_status_def)
    ultimately show ?thesis using batch_ok_count_row by (intro exI [of _ "(\<lambda>t. t\<lparr>tb_RegisterSuccess := k\<rparr>) \<circ> ?g"]) simp
  qed
qed

section \<open>Requests\<close>

lemma build_task_ok:
  assumes "buildProcessTask pl ty db = Inr t"
  shows "task_ok t" "tk_BatchID t = op_BatchID pl"
proof -
  have "task_ok t \<and> tk_BatchID t = op_BatchID pl"
    using assms
    by (auto simp: buildProcessTask_def NewOperateTask_def NewUpdateRegisterTask_def rbind_def task_ok_def
        dest!: steps_same_task simp: same_task_def split: if_splits sum.splits)
  then show "task_ok t" "tk_BatchID t = op_BatchID pl" by simp_all
qed

lemma dispatch_batches:
  "dispatchProcessTasks kt biz bid ty enable its st = (r, ts, st') \<Longrightarrow> os_Tb st' = os_Tb st \<and> length ts \<le> length its
    \<and> (\<forall>t \<in> set ts. task_ok t \<and> tk_BatchID t = bid)"
proof (induction its arbitrary: r ts st st')
  case (Cons it its)
  define st1 where "st1 = updateProcessInstanceStatus (ri_finalOpType it) (ri_instance it) enable st"
  have tb: "os_Tb st1 = os_Tb st" by (simp add: st1_def updateProcessInstanceStatus_def)
  show ?case
  proof (cases "buildProcessTask (item_payload kt biz bid it enable) ty (os_Db st1)")
    case (Inl e)
    then show ?thesis using Cons.prems tb by (simp add: Let_def flip: st1_def)
  next
    case (Inr t)
    obtain r2 ts2 st2 where d: "dispatchProcessTasks kt biz bid ty enable its st1 = (r2, ts2, st2)" by (metis prod_cases3)
    have "tk_BatchID t = bid" "task_ok t" using build_task_ok [OF Inr] by (simp_all add: item_payload_def)
    then show ?thesis using Cons.prems Cons.IH [OF d] tb Inr d by (auto simp: Let_def simp flip: st1_def)
  qed
qed simp

lemma run_ok_start [simp]: "task_ok t \<Longrightarrow> run_ok (start_task t)"
  by (simp add: run_ok_def start_task_def task_ok_def)

lemma start_task_simps [simp]: "rt_Task (start_task t) = t"
  by (simp add: start_task_def)

lemma open_of_started:
  "(\<forall>t \<in> set ts. tk_BatchID t = bid) \<Longrightarrow> open_of (map start_task ts) b = (if b = bid then length ts else 0)"
  by (induction ts) auto

text \<open>A request leaves the batches or adds one, all of whose tasks are dispatched or counted as failed.\<close>

definition add_batch :: "task_batch \<Rightarrow> batch_store \<Rightarrow> batch_store" where
  "add_batch t tb = \<lparr>bs_Batches = bs_Batches tb @ [t\<lparr>tb_ID := bs_Next tb\<rparr>], bs_Next = Suc (bs_Next tb)\<rparr>"

definition new_batch :: "task_batch \<Rightarrow> nat \<Rightarrow> bool" where
  "new_batch t n \<longleftrightarrow> tb_TotalCount t = n \<and> 0 < n \<and> tb_CompletedCount t = 0 \<and> tb_SuccessCount t = 0
     \<and> tb_FailedCount t = 0 \<and> tb_Status t = BatchRunning"

definition add_failed :: "nat \<Rightarrow> nat \<Rightarrow> task_batch \<Rightarrow> task_batch" where
  "add_failed now n = counted now (\<lambda>t. t\<lparr>tb_CompletedCount := tb_CompletedCount t + n, tb_FailedCount := tb_FailedCount t + n\<rparr>)"

lemma add_failed_ID [simp]: "tb_ID (add_failed now n t) = tb_ID t"
  by (simp add: add_failed_def)

lemma createTaskBatch_adds:
  assumes "createTaskBatch now kt op e rng n tb = Inr (bid, tb')" "0 < n"
  shows "\<exists>t. new_batch t n \<and> bid = bs_Next tb \<and> tb' = add_batch t tb"
proof -
  let ?t = "\<lparr>tb_ID = 0, tb_BizID = kt_BizID kt, tb_TaskObject = ''process'', tb_TaskAction = op,
          tb_TaskData = \<lparr>td_Environment = e, td_OperateRange = rng, td_ConfigTemplateIDs = []\<rparr>,
          tb_Status = BatchRunning, tb_StartAt = now, tb_EndAt = None, tb_TotalCount = n,
          tb_CompletedCount = 0, tb_SuccessCount = 0, tb_FailedCount = 0, tb_RegisterSuccess = None,
          tb_Creator = kt_User kt\<rparr>"
  have "bid = bs_Next tb" "tb' = add_batch ?t tb"
    using assms(1) by (auto simp: createTaskBatch_def TaskBatch_Create_def rbind_def add_batch_def split: sum.splits)
  moreover have "new_batch ?t n" using assms(2) by (simp add: new_batch_def)
  ultimately show ?thesis by blast
qed

lemma batches_ok_add:
  assumes "batches_ok tb"
  shows "batches_ok (add_batch t tb)" "batch_ids (add_batch t tb) = insert (bs_Next tb) (batch_ids tb)" "bs_Next tb \<notin> batch_ids tb"
  using assms by (auto simp: batches_ok_def batch_ids_def add_batch_def less_Suc_eq)

definition grown :: "nat \<Rightarrow> batch_store \<Rightarrow> proc_task list \<Rightarrow> batch_store \<Rightarrow> bool" where
  "grown now tb ts tb' \<longleftrightarrow> tb' = tb \<and> ts = [] \<or> (\<exists>t n. new_batch t n \<and> length ts \<le> n
    \<and> (\<forall>x \<in> set ts. task_ok x \<and> tk_BatchID x = bs_Next tb)
    \<and> tb' = (if length ts = n then add_batch t tb
        else update_batch (bs_Next tb) (add_failed now (n - length ts)) (add_batch t tb)))"

lemma dispatch_batch_counts:
  assumes "dispatch_batch now kt bid op enable its st = (r, ts, st')" "batches_ok (os_Tb st)" "bid \<in> batch_ids (os_Tb st)"
  shows "length ts \<le> length its \<and> (\<forall>t \<in> set ts. task_ok t \<and> tk_BatchID t = bid) \<and>
    os_Tb st' = (if length ts = length its then os_Tb st else update_batch bid (add_failed now (length its - length ts)) (os_Tb st))"
proof -
  obtain r1 ts1 st1 where d: "dispatchProcessTasks kt (kt_BizID kt) bid op enable its st = (r1, ts1, st1)" by (metis prod_cases3)
  note D = dispatch_batches [OF d]
  obtain t where t: "t \<in> set (bs_Batches (os_Tb st))" "bid = tb_ID t" using assms(3) by (auto simp: batch_ids_def)
  have "AddFailedCount now bid n (os_Tb st) = Inr ((), update_batch bid (add_failed now n) (os_Tb st))" for n
    using count_batch_row [OF _ t(1)] assms(2)
    by (simp add: AddFailedCount_def t(2) add_failed_def rbind_def batches_ok_def)
  then show ?thesis using assms(1) D d by (auto simp: dispatch_batch_def split: if_splits)
qed

lemma operate_found_batches:
  assumes "operate_found now kt req found st = (r, ts, st')" "batches_ok (os_Tb st)"
  shows "grown now (os_Tb st) ts (os_Tb st')"
proof -
  define op where "op = op_of_text (rq_OperateType req)"
  obtain procs insts where f: "(if isStartSemantic op then filterInstancesForStart (fst found) (snd found) else found) = (procs, insts)"
    by fastforce
  show ?thesis
  proof (cases "preResolveInstances procs op insts")
    case (Inl e)
    then show ?thesis using assms(1) f by (simp add: operate_found_def grown_def Let_def flip: op_def)
  next
    case (Inr p)
    obtain toDispatch toDelete where p: "p = (toDispatch, toDelete)" by fastforce
    define env where "env = (case rq_OperateRange req of Some (e, _) \<Rightarrow> e | None \<Rightarrow> ps_Environment (pr_Spec (hd procs)))"
    define st1 where "st1 = st\<lparr>os_Db := batchDeleteProcessInstances (kt_BizID kt) toDelete (os_Db st)\<rparr>"
    have st1: "os_Tb st1 = os_Tb st" by (simp add: st1_def)
    have eq: "(r, ts, st') = (if toDispatch = [] then (Inr 0, [], st1)
      else (case createTaskBatch now kt (rq_OperateType req) env (buildOperateRange procs req) (length toDispatch) (os_Tb st1) of
               Inl e \<Rightarrow> (Inl e, [], st1)
             | Inr (bid, tb) \<Rightarrow> dispatch_batch now kt bid (rq_OperateType req) (rq_EnableProcessRestart req) toDispatch (st1\<lparr>os_Tb := tb\<rparr>)))"
      using assms(1) f Inr unfolding operate_found_def Let_def env_def st1_def op_def p by simp
    show ?thesis
    proof (cases "toDispatch = [] \<or> isl (createTaskBatch now kt (rq_OperateType req) env (buildOperateRange procs req) (length toDispatch) (os_Tb st1))")
      case True
      then show ?thesis using eq st1 by (auto simp: grown_def split: if_splits sum.splits)
    next
      case False
      then obtain bid tb where c: "createTaskBatch now kt (rq_OperateType req) env (buildOperateRange procs req)
        (length toDispatch) (os_Tb st1) = Inr (bid, tb)" and ne: "toDispatch \<noteq> []"
        by (cases "createTaskBatch now kt (rq_OperateType req) env (buildOperateRange procs req) (length toDispatch) (os_Tb st1)") auto
      from createTaskBatch_adds [OF c] ne st1 obtain t where
        t: "new_batch t (length toDispatch)" "bid = bs_Next (os_Tb st)" "tb = add_batch t (os_Tb st)" by auto
      have "dispatch_batch now kt bid (rq_OperateType req) (rq_EnableProcessRestart req) toDispatch (st1\<lparr>os_Tb := tb\<rparr>) = (r, ts, st')"
        using eq ne c by simp
      from dispatch_batch_counts [OF this] batches_ok_add(1,2) [OF assms(2), of t] t
      show ?thesis unfolding grown_def by (intro disjI2 exI [of _ t] exI [of _ "length toDispatch"]) simp
    qed
  qed
qed

lemma OperateProcess_batches:
  assumes "OperateProcess now kt req st = Some (r, ts, st')" "batches_ok (os_Tb st)"
  shows "grown now (os_Tb st) ts (os_Tb st')"
proof (cases "(\<exists>e. validateOperateRequest req = Inl e) \<or> (\<exists>e. getProcessesAndInstances req (os_Db st) = Some (Inl e))")
  case True
  then have "ts = [] \<and> st' = st"
  proof (elim disjE exE)
    fix e assume "validateOperateRequest req = Inl e"
    then show ?thesis using assms(1) by (simp add: OperateProcess_def)
  next
    fix e assume "getProcessesAndInstances req (os_Db st) = Some (Inl e)"
    then show ?thesis using assms(1) by (simp add: OperateProcess_def split: sum.splits)
  qed
  then show ?thesis by (simp add: grown_def)
next
  case False
  then have v: "validateOperateRequest req = Inr ()" by (cases "validateOperateRequest req") auto
  from False v assms(1) obtain found where "getProcessesAndInstances req (os_Db st) = Some (Inr found)"
    by (cases "getProcessesAndInstances req (os_Db st)") (auto simp: OperateProcess_def split: sum.splits)
  then have "operate_found now kt req found st = (r, ts, st')" using assms(1) v by (simp add: OperateProcess_def)
  then show ?thesis by (rule operate_found_batches [OF _ assms(2)])
qed

lemma unused_batch:
  assumes "ops_inv s" "b \<notin> batch_ids (os_Tb (ow_Store s))"
  shows "not_ended s b = 0"
  using assms unfolding ops_inv_def tasks_ok_def not_ended_def open_of_def
  by (simp add: filter_empty_conv) blast

lemma accounts_add:
  assumes "batches_ok tb" "accounts tb w" "batch_ok k (t\<lparr>tb_ID := bs_Next tb\<rparr>)" "w' (bs_Next tb) = k"
    and "\<And>b. b \<noteq> bs_Next tb \<Longrightarrow> w' b = w b"
  shows "accounts (add_batch t tb) w'"
proof -
  have "batch_ok (w' (tb_ID u)) u" if "u \<in> set (bs_Batches tb)" for u
  proof -
    have "tb_ID u \<in> batch_ids tb" using that by (simp add: batch_ids_def)
    then have "tb_ID u \<noteq> bs_Next tb" using batches_ok_add(3) [OF assms(1)] by metis
    then show ?thesis using that assms(2,5) by (simp add: accounts_def)
  qed
  then show ?thesis using assms(3,4) by (simp add: accounts_def add_batch_def)
qed

lemma ops_request_inv:
  assumes inv: "ops_inv s" and op: "OperateProcess now kt req (ow_Store s) = Some (r, ts, st')"
  shows "ops_inv (s\<lparr>ow_Store := st', ow_Open := ow_Open s @ map start_task ts\<rparr>)"
proof -
  let ?tb = "os_Tb (ow_Store s)" and ?s = "s\<lparr>ow_Store := st', ow_Open := ow_Open s @ map start_task ts\<rparr>"
  have ok: "batches_ok ?tb" and acc: "accounts ?tb (not_ended s)"
    and tasks: "tasks_ok (batch_ids ?tb) (ow_Open s) (ow_Ended s)" using inv by (simp_all add: ops_inv_def)
  from OperateProcess_batches [OF op ok, unfolded grown_def] show ?thesis
  proof (elim disjE exE conjE)
    assume "os_Tb st' = ?tb" "ts = []"
    then show ?thesis using inv by (simp add: ops_inv_def not_ended_def [abs_def])
  next
    fix t n assume n: "new_batch t n" "length ts \<le> n" and xs: "\<forall>x \<in> set ts. task_ok x \<and> tk_BatchID x = bs_Next ?tb"
      and st': "os_Tb st' = (if length ts = n then add_batch t ?tb
        else update_batch (bs_Next ?tb) (add_failed now (n - length ts)) (add_batch t ?tb))"
    let ?t = "t\<lparr>tb_ID := bs_Next ?tb\<rparr>"
    note add = batches_ok_add(1,2) [OF ok, of t] batches_ok_add(3) [OF ok]
    have new: "not_ended ?s (bs_Next ?tb) = length ts"
      using unused_batch [OF inv add(3)] open_of_started [of ts "bs_Next ?tb"] xs by (simp add: not_ended_def)
    have old: "not_ended ?s b = not_ended s b" if "b \<noteq> bs_Next ?tb" for b
      using that open_of_started [of ts "bs_Next ?tb" b] xs by (simp add: not_ended_def)
    have fresh: "batch_ok n ?t" using n(1) by (auto simp: batch_ok_def new_batch_def)
    let ?w = "(not_ended ?s)(bs_Next ?tb := n)"
    have added: "accounts (add_batch t ?tb) ?w" by (rule accounts_add [OF ok acc fresh]) (simp_all add: old)
    have "accounts (os_Tb st') (not_ended ?s)"
    proof (cases "length ts = n")
      case True
      then have "?w = not_ended ?s" using new by auto
      then show ?thesis using added True st' by simp
    next
      case False
      have "batch_ok (length ts) (add_failed now (n - length ts) ?t)" unfolding add_failed_def
        by (intro batch_ok_count [where k = "n - length ts" and a = 0 and b = "n - length ts"]) (use n(2) False fresh in auto)
      then have "accounts (update_batch (tb_ID ?t) (add_failed now (n - length ts)) (add_batch t ?tb)) (not_ended ?s)"
        by (intro accounts_update [OF add(1) _ added]) (simp_all add: new, simp add: add_batch_def)
      then show ?thesis using False st' by simp
    qed
    moreover have "batches_ok (os_Tb st')" "batch_ids (os_Tb st') = insert (bs_Next ?tb) (batch_ids ?tb)"
      using st' add(1,2) by simp_all
    moreover have "tasks_ok (insert (bs_Next ?tb) (batch_ids ?tb)) (ow_Open ?s) (ow_Ended s)"
      using tasks xs by (auto simp: tasks_ok_def)
    ultimately show ?thesis using inv by (simp add: ops_inv_def)
  qed
qed

section \<open>Retries\<close>

text \<open>A retry starts the first of the failed tasks, and all of them if it does not fail.\<close>

lemma retry_tasks_run:
  "retry_tasks biz action es st = (r, ts, st') \<Longrightarrow>
     os_Tb st' = os_Tb st \<and> length ts \<le> length es \<and> set ts \<subseteq> so_Task ` set es \<and> (isl r \<or> length ts = length es)"
proof (induction es arbitrary: r st ts st')
  case (Cons e es)
  show ?case
  proof (cases "retry_one biz action e st")
    case (Pair o1 st1)
    have st1: "os_Tb st1 = os_Tb st" "isl o1 \<or> o1 = Inr (so_Task e)" using Pair
      by (auto simp: retry_one_def updateProcessInstanceStatus_def split: option.splits sum.splits prod.splits)
    obtain r2 ts2 st2 where rest: "retry_tasks biz action es st1 = (r2, ts2, st2)" by (metis prod_cases3)
    show ?thesis using Cons.prems Cons.IH [OF rest] rest st1 Pair by (cases o1) auto
  qed
qed simp

lemma retry_batches:
  assumes "TaskBatch_GetByID biz bid (os_Tb st) = Inr t" "RetryTasks es biz bid st = Some (r, ts, st')"
  shows "length ts \<le> counted_back es t (os_Tb st)" "set ts \<subseteq> so_Task ` set (filter (failed_of t) es)"
    and "os_Tb st' = os_Tb st \<and> counted_back es t (os_Tb st) = 0
      \<or> ResetCountsForRetry (tb_ID t) (counted_back es t (os_Tb st)) (os_Tb st) = Inr (os_Tb st') \<and> 0 < counted_back es t (os_Tb st)"
    and "isl r \<or> length ts = counted_back es t (os_Tb st)"
proof -
  let ?fs = "filter (failed_of t) es" and ?k = "counted_back es t (os_Tb st)"
  have q: "queryFailedTasks es (tb_ID t) (tb_TaskAction t) = Some ?fs"
    by (simp add: queryFailedTasks_all failed_of_def [abs_def])
  have "retryProcessTask es biz t st = Some (r, ts, st')" using assms by (simp add: RetryTasks_def)
  note run = this [unfolded retryProcessTask_def q]
  have "length ts \<le> ?k \<and> set ts \<subseteq> so_Task ` set ?fs \<and>
    (os_Tb st' = os_Tb st \<and> ?k = 0 \<or> ResetCountsForRetry (tb_ID t) ?k (os_Tb st) = Inr (os_Tb st') \<and> 0 < ?k) \<and> (isl r \<or> length ts = ?k)"
  proof (cases "tb_Status t = BatchSucceed \<or> ?fs = []")
    case True
    then show ?thesis using run by (auto simp: counted_back_def split: if_splits)
  next
    case False
    show ?thesis
    proof (cases "ResetCountsForRetry (tb_ID t) (length ?fs) (os_Tb st)")
      case (Inl e)
      then show ?thesis using run False by (auto simp: counted_back_def Let_def)
    next
      case (Inr tb)
      then have k: "?k = length ?fs" using False by (simp add: counted_back_def)
      obtain r2 st2 where r2: "retry_tasks biz (tb_TaskAction t) ?fs (st\<lparr>os_Tb := tb\<rparr>) = (r2, ts, st2)"
        "st' = st2" "isl r2 \<longleftrightarrow> isl r"
        using run False Inr by (auto split: sum.splits prod.splits)
      from retry_tasks_run [OF r2(1)] r2 k False Inr show ?thesis by simp
    qed
  qed
  then show "length ts \<le> ?k" "set ts \<subseteq> so_Task ` set ?fs" "isl r \<or> length ts = ?k"
    "os_Tb st' = os_Tb st \<and> ?k = 0 \<or> ResetCountsForRetry (tb_ID t) ?k (os_Tb st) = Inr (os_Tb st') \<and> 0 < ?k" by blast+
qed

lemma ops_retry_inv:
  assumes inv: "ops_inv s" and t: "TaskBatch_GetByID biz bid (os_Tb (ow_Store s)) = Inr t"
    and run: "RetryTasks (ow_Ended s) biz bid (ow_Store s) = Some (r, ts, st')"
  shows "ops_inv (s\<lparr>ow_Store := st', ow_Open := ow_Open s @ map start_task ts,
      ow_Ended := remove_first (failed_of t) (length ts) (ow_Ended s),
      ow_Lost := (ow_Lost s)(tb_ID t := ow_Lost s (tb_ID t) + (counted_back (ow_Ended s) t (os_Tb (ow_Store s)) - length ts))\<rparr>)"
    (is "ops_inv ?s")
proof -
  let ?tb = "os_Tb (ow_Store s)" let ?k = "counted_back (ow_Ended s) t ?tb"
  have ok: "batches_ok ?tb" and acc: "accounts ?tb (not_ended s)"
    and tasks: "tasks_ok (batch_ids ?tb) (ow_Open s) (ow_Ended s)" using inv by (simp_all add: ops_inv_def)
  note R = retry_batches [OF t run]
  have ids: "\<forall>x \<in> set ts. tk_BatchID x = tb_ID t \<and> task_ok x"
    using R(2) tasks by (auto simp: failed_of_def tasks_ok_def)
  have mem: "t \<in> set (bs_Batches ?tb)"
    using t by (auto simp: TaskBatch_GetByID_def find_Some_iff split: option.splits)
  then have id: "tb_ID t \<in> batch_ids ?tb" by (simp add: batch_ids_def)
  have w: "not_ended ?s b = not_ended s b + (if b = tb_ID t then ?k else 0)" for b
    using open_of_started [of ts "tb_ID t" b] ids R(1) by (simp add: not_ended_def)
  have tb: "accounts (os_Tb st') (not_ended ?s) \<and> batches_ok (os_Tb st') \<and> batch_ids (os_Tb st') = batch_ids ?tb"
    using R(3)
  proof (elim disjE conjE)
    assume same: "os_Tb st' = ?tb" "?k = 0"
    have "not_ended ?s = not_ended s" by (intro ext trans [OF w]) (simp add: same(2))
    then show ?thesis using same(1) acc ok by simp
  next
    assume reset: "ResetCountsForRetry (tb_ID t) ?k ?tb = Inr (os_Tb st')" and pos: "0 < ?k"
    let ?f = "\<lambda>u. u\<lparr>tb_CompletedCount := tb_CompletedCount u - ?k,
        tb_FailedCount := tb_FailedCount u - ?k, tb_Status := BatchRunning, tb_EndAt := None\<rparr>"
    have st': "os_Tb st' = update_batch (tb_ID t) ?f ?tb" and enough: "?k \<le> tb_FailedCount t"
      using reset mem by (auto simp: ResetCountsForRetry_def list_ex_iff not_less split: if_splits)
    have "batch_ok (not_ended s (tb_ID t)) t" using acc mem by (simp add: accounts_def)
    then have "batch_ok (not_ended s (tb_ID t) + ?k) (?f t)" using pos enough by (auto simp: batch_ok_def)
    then have "accounts (update_batch (tb_ID t) ?f ?tb) (not_ended ?s)"
      using w by (intro accounts_update [OF ok mem acc]) simp_all
    then show ?thesis using ok by (simp add: st')
  qed
  have "tasks_ok (batch_ids ?tb) (ow_Open ?s) (ow_Ended ?s)"
    using tasks ids id remove_first_subset [of "failed_of t" "length ts" "ow_Ended s"] by (auto simp: tasks_ok_def)
  then show ?thesis using tb inv id by (simp add: ops_inv_def)
qed

text \<open>Only a retry that fails loses tasks.\<close>

lemma lost_by_failed_retry:
  assumes "ops_step s s'" "ow_Lost s' \<noteq> ow_Lost s"
  shows "\<exists>biz bid e ts st'. RetryTasks (ow_Ended s) biz bid (ow_Store s) = Some (Inl e, ts, st')"
  using assms(1)
proof (cases rule: ops_step.cases)
  case (retry biz bid t r ts st')
  have "isl r"
  proof (rule ccontr)
    assume "\<not> isl r"
    then have "ow_Lost s' = ow_Lost s" using retry_batches(4) [OF retry(2,3)] by (simp add: retry(1))
    then show False using assms(2) by simp
  qed
  then obtain e where "r = Inl e" by (cases r) auto
  then show ?thesis using retry(3) by blast
next
  case task
  then show ?thesis using assms(2) by (auto elim: work_stepE)
qed (use assms(2) in auto)

section \<open>Steps and callbacks\<close>

lemma work_on_keeps:
  assumes "work_on env x st = (x', st')" "run_ok x"
  shows "os_Tb st' = os_Tb st" "run_ok x'" "tk_BatchID (rt_Task x') = tk_BatchID (rt_Task x)"
proof -
  have "os_Tb st' = os_Tb st \<and> run_ok x' \<and> tk_BatchID (rt_Task x') = tk_BatchID (rt_Task x)"
  proof (cases "rt_Left x")
    case Nil
    then show ?thesis using assms by (simp add: work_on_def)
  next
    case (Cons np ss)
    obtain m p where np: "np = (m, p)" by fastforce
    obtain r cp st1 where run: "run_step m env p (tk_Common (rt_Task x)) (st) = (r, cp, st1)" by (metis prod_cases3)
    have "os_Tb st1 = os_Tb st" using run_step_store [OF run] by auto
    then show ?thesis using assms run Cons np by (auto simp: work_on_def run_ok_def task_ok_def)
  qed
  then show "os_Tb st' = os_Tb st" "run_ok x'" "tk_BatchID (rt_Task x') = tk_BatchID (rt_Task x)" by simp_all
qed

lemma work_step_inv:
  assumes "work_step s s'" "ops_inv s"
  shows "ops_inv s'"
  using assms(1)
proof (cases rule: work_step.cases)
  case (work a x b env x' st')
  have x: "run_ok x" "tk_BatchID (rt_Task x) \<in> batch_ids (os_Tb (ow_Store s))"
    using assms(2) work(2) by (simp_all add: ops_inv_def tasks_ok_def)
  note k = work_on_keeps [OF work(5) x(1)]
  have "not_ended s' = not_ended s" using k(3) by (simp add: not_ended_def fun_eq_iff work(1,2))
  moreover have "tasks_ok ids (a @ x' # b) es" if "tasks_ok ids (a @ x # b) es" for ids es
    using that k(2,3) by (simp add: tasks_ok_def)
  ultimately show ?thesis using assms(2) k(1) by (simp add: ops_inv_def work(1,2))
next
  case (callback a x b env)
  let ?tb = "os_Tb (ow_Store s)" let ?es = "ow_Ended s @ [stored x]"
  have ok: "batches_ok ?tb" and acc: "accounts ?tb (not_ended s)"
    and tasks: "tasks_ok (batch_ids ?tb) (ow_Open s) (ow_Ended s)" using assms(2) by (simp_all add: ops_inv_def)
  have x: "run_ok x" "tk_BatchID (rt_Task x) \<in> batch_ids ?tb"
    using tasks callback(2) by (simp_all add: tasks_ok_def)
  then obtain t where t: "t \<in> set (bs_Batches ?tb)" "tk_BatchID (rt_Task x) = tb_ID t" by (auto simp: batch_ids_def)
  from call_back_row [OF ok x, of env] obtain f where
    f: "os_Tb (call_back env x (ow_Store s)) = update_batch (tb_ID t) f ?tb" "\<And>u. tb_ID (f u) = tb_ID u"
    "\<And>w u. batch_ok (Suc w) u \<Longrightarrow> batch_ok w (f u)"
    unfolding t(2) by blast
  have w: "not_ended s b = not_ended s' b + (if b = tb_ID t then 1 else 0)" for b
    by (simp add: not_ended_def callback(1,2) t(2))
  have "batch_ok (not_ended s (tb_ID t)) t" using acc t(1) by (simp add: accounts_def)
  then have "batch_ok (Suc (not_ended s' (tb_ID t))) t" by (simp only: w) simp
  then have "accounts (update_batch (tb_ID t) f ?tb) (not_ended s')"
    using w by (intro accounts_update [OF ok t(1) acc f(2)] f(3)) simp_all
  moreover have "tasks_ok (batch_ids ?tb) (a @ b) ?es"
    using tasks x callback(2) by (auto simp: tasks_ok_def stored_def run_ok_def)
  ultimately show ?thesis using ok f(1,2) assms(2) by (simp add: ops_inv_def callback(1))
qed

interpretation ops: transition_system ops_init ops_step ops_inv
proof
  fix s assume "ops_init s"
  then show "ops_inv s" by (simp add: ops_init_def ops_inv_def batches_ok_def batch_ids_def accounts_def tasks_ok_def)
next
  fix s s' assume "ops_inv s" "ops_step s s'"
  from this(2,1) show "ops_inv s'"
  proof (cases rule: ops_step.cases)
    case (sync db)
    then show ?thesis using \<open>ops_inv s\<close> by (simp add: ops_inv_def not_ended_def [abs_def])
  qed (simp_all add: ops_request_inv ops_retry_inv work_step_inv)
qed

definition work_left :: "ops_state \<Rightarrow> nat" where
  "work_left s = sum_list (map (\<lambda>x. if rt_Err x = None then length (rt_Left x) + 1 else 1) (ow_Open s))"

lemma work_steps_lost: "work_step\<^sup>*\<^sup>* s s' \<Longrightarrow> ow_Lost s' = ow_Lost s"
  by (induction rule: rtranclp_induct) (auto elim: work_stepE)

lemma ended_status_running [simp]: "ended_status t \<noteq> BatchRunning"
  by (simp add: ended_status_def)

definition all_ended :: "ops_state \<Rightarrow> bool" where
  "all_ended s \<longleftrightarrow> ow_Open s = []"

interpretation work: progress_system ops_inv work_step ops_inv work_left all_ended
proof
  fix s s' assume "ops_inv s" "work_step s s'"
  then show "ops_inv s'" by (simp add: work_step_inv)
next
  fix s s' assume "work_step s s'"
  then show "work_left s' < work_left s"
  proof (cases rule: work_step.cases)
    case (work a x b env x' st')
    then have "(if rt_Err x' = None then length (rt_Left x') + 1 else 1) < length (rt_Left x) + 1"
      by (cases "rt_Left x") (auto simp: work_on_def split: prod.splits sum.splits)
    then show ?thesis using work by (simp add: work_left_def)
  qed (simp add: work_left_def)
next
  fix s assume "\<not> all_ended s"
  then obtain x b where x: "ow_Open s = [] @ x # b" by (cases "ow_Open s") (auto simp: all_ended_def)
  show "\<exists>s'. work_step s s'"
  proof (cases "rt_Err x \<noteq> None \<or> rt_Left x = []")
    case True
    from work_step.callback [OF x True] show ?thesis by blast
  next
    case False
    obtain x' st' where "work_on undefined x (ow_Store s) = (x', st')" by fastforce
    from work_step.work [OF x _ _ this] False show ?thesis by blast
  qed
qed simp

section \<open>Claims\<close>

text \<open>
  C14: In every history of requests, retries that succeed or fail, steps and callbacks in any order,
  from a table without batches, a batch of operations on processes accounts for its tasks: those that
  have ended are the successes and the failures; with those that run, and those that failed retries
  have counted back without starting them, they are all; the batch is running exactly while there
  are such tasks, and after that its status tells how they ended. Only a retry that fails leaves
  tasks that are counted back and not started.
\<close>

theorem reachable_batches_account:
  assumes "reach ops_init ops_step s" "t \<in> set (bs_Batches (os_Tb (ow_Store s)))"
  shows "tb_CompletedCount t = tb_SuccessCount t + tb_FailedCount t
    \<and> tb_CompletedCount t + open_of (ow_Open s) (tb_ID t) + ow_Lost s (tb_ID t) = tb_TotalCount t
    \<and> tb_Status t = (if open_of (ow_Open s) (tb_ID t) + ow_Lost s (tb_ID t) = 0 then ended_status t else BatchRunning)
    \<and> (\<forall>s'. ops_step s s' \<and> ow_Lost s' \<noteq> ow_Lost s \<longrightarrow>
         (\<exists>biz bid e ts st'. RetryTasks (ow_Ended s) biz bid (ow_Store s) = Some (Inl e, ts, st')))"
proof -
  have "batch_ok (not_ended s (tb_ID t)) t"
    using ops.reach_inv [OF assms(1)] assms(2) by (simp add: ops_inv_def accounts_def)
  then have "tb_CompletedCount t = tb_SuccessCount t + tb_FailedCount t
    \<and> tb_CompletedCount t + open_of (ow_Open s) (tb_ID t) + ow_Lost s (tb_ID t) = tb_TotalCount t
    \<and> tb_Status t = (if open_of (ow_Open s) (tb_ID t) + ow_Lost s (tb_ID t) = 0 then ended_status t else BatchRunning)"
    by (simp add: batch_ok_def not_ended_def)
  then show ?thesis using lost_by_failed_retry [of s] by blast
qed

text \<open>
  C15: When no requests and retries come any more, the tasks end after a bounded number of steps, whatever
  the services answer and in whatever order the tasks run. Then a batch is still running if and only
  if failed retries have counted back tasks of it without starting them; every other batch has ended,
  with all its tasks counted and the status of its counts.
\<close>

theorem work_ends_batches:
  assumes "reach ops_init ops_step s"
  shows "(\<forall>k s'. (work_step ^^ k) s s' \<longrightarrow> k \<le> work_left s)
    \<and> (\<forall>s'. work_step\<^sup>*\<^sup>* s s' \<and> (\<nexists>s''. work_step s' s'') \<longrightarrow>
         ow_Open s' = [] \<and> (\<forall>t \<in> set (bs_Batches (os_Tb (ow_Store s'))).
           (tb_Status t = BatchRunning \<longleftrightarrow> ow_Lost s (tb_ID t) \<noteq> 0)
           \<and> (ow_Lost s (tb_ID t) = 0 \<longrightarrow> tb_CompletedCount t = tb_TotalCount t \<and> tb_Status t = ended_status t)))"
proof (intro conjI allI impI)
  have inv: "ops_inv s" by (rule ops.reach_inv [OF assms])
  show "k \<le> work_left s" if "(work_step ^^ k) s s'" for k s' using work.run_bound [OF that inv] by simp
  fix s' assume s': "work_step\<^sup>*\<^sup>* s s' \<and> (\<nexists>s''. work_step s' s'')"
  then show e: "ow_Open s' = []" using work.stuck_is_final [OF inv] by (simp add: all_ended_def)
  have "ops_inv s'" using s' work.steps_inv inv by blast
  moreover have "ow_Lost s' = ow_Lost s" using s' work_steps_lost by blast
  ultimately have ok: "batch_ok (ow_Lost s (tb_ID t)) t" if "t \<in> set (bs_Batches (os_Tb (ow_Store s')))" for t
    using that e by (simp add: ops_inv_def accounts_def not_ended_def)
  show "\<forall>t \<in> set (bs_Batches (os_Tb (ow_Store s'))).
     (tb_Status t = BatchRunning \<longleftrightarrow> ow_Lost s (tb_ID t) \<noteq> 0)
     \<and> (ow_Lost s (tb_ID t) = 0 \<longrightarrow> tb_CompletedCount t = tb_TotalCount t \<and> tb_Status t = ended_status t)"
  proof
    fix t assume "t \<in> set (bs_Batches (os_Tb (ow_Store s')))"
    from ok [OF this] show "(tb_Status t = BatchRunning \<longleftrightarrow> ow_Lost s (tb_ID t) \<noteq> 0)
       \<and> (ow_Lost s (tb_ID t) = 0 \<longrightarrow> tb_CompletedCount t = tb_TotalCount t \<and> tb_Status t = ended_status t)"
      by (simp add: batch_ok_def ended_status_running)
  qed
qed

end
