(* ===== verification/ProcOpsExamples.thy ===== *)
theory ProcOpsExamples
  imports BatchFlow
begin

text \<open>
  Concrete runs of the operations on processes: a process with an instance more than is wanted, an
  agent service that answers, one that does not, and the statements of the properties there.
\<close>

section \<open>A store and two services\<close>

definition ex_cmd :: "string \<Rightarrow> process_info option" where
  "ex_cmd s = Some \<lparr>pi_BkStartParamRegex = [], pi_WorkPath = ''/w'', pi_PidFile = ''/p'', pi_User = ''u'', pi_ReloadCmd = [],
     pi_RestartCmd = [], pi_StartCmd = ''start'', pi_StopCmd = ''stop'', pi_FaceStopCmd = ''kill'', pi_Timeout = 0,
     pi_StartCheckSecs = 0\<rparr>"

definition ex_batch :: "string \<Rightarrow> nat \<Rightarrow> nat \<Rightarrow> batch_status \<Rightarrow> task_batch" where
  "ex_batch act tot failed st = \<lparr>tb_ID = 5, tb_BizID = 2, tb_TaskObject = ''process'', tb_TaskAction = act,
     tb_TaskData = \<lparr>td_Environment = ''3'', td_OperateRange = \<lparr>or_SetName = ''*'', or_ModuleName = ''*'', or_ServiceName = ''*'',
       or_ProcessAlias = ''*'', or_ProcessID = ''*''\<rparr>, td_ConfigTemplateIDs = []\<rparr>,
     tb_Status = st, tb_StartAt = 1, tb_EndAt = None, tb_TotalCount = tot, tb_CompletedCount = failed,
     tb_SuccessCount = 0, tb_FailedCount = failed, tb_RegisterSuccess = None, tb_Creator = ''u''\<rparr>"

definition ex_store :: "task_batch list \<Rightarrow> op_store" where
  "ex_store bs = \<lparr>os_Db = \<lparr>db_Processes = [ex_proc 1 10 ''nginx'' 1 Synced],
       db_Instances = [ex_inst 1 1 10 1 1, ex_inst 2 1 10 2 2], db_NextProcess = 2, db_NextInstance = 3\<rparr>,
     os_Tb = \<lparr>bs_Batches = bs, bs_Next = 6\<rparr>\<rparr>"

definition ex_service :: "bool \<Rightarrow> int \<Rightarrow> gse_service" where
  "ex_service answers pid = \<lparr>gs_Submit = (\<lambda>r. if answers then Inr (po_Name r) else Inl ''timeout''),
     gs_Polls = (\<lambda>t. [PollFailed, PollResult [(''a:GSEKIT_BIZ_2:'' @ t, \<lparr>re_ErrorCode = 0, re_ErrorMsg = [], re_Content = []\<rparr>)]]),
     gs_MaxRetries = 3, gs_Render = (\<lambda>s _. Some s), gs_Unmarshal = ex_cmd,
     gs_Content = (\<lambda>_. Some [[\<lparr>gi_PID = pid, gi_IsAuto = True\<rparr>]]), gs_Stopping = (\<lambda>_. None)\<rparr>"

definition ex_env :: "bool \<Rightarrow> int \<Rightarrow> op_env" where
  "ex_env answers pid = \<lparr>oe_now = 9, oe_gse = ex_service answers pid, oe_cmdb = (\<lambda>_ _. Inr []), oe_marshal = (\<lambda>i. pi_User i)\<rparr>"

definition ex_payload :: "operate_type \<Rightarrow> nat \<Rightarrow> string \<Rightarrow> operate_payload" where
  "ex_payload op inst status = \<lparr>op_TenantID = [], op_BizID = 2, op_BatchID = 5, op_OperateType = op, op_OperateUser = ''u'',
     op_ProcessID = 1, op_InstanceID = inst, op_NeedCompareCMDB = False, op_OriginalManaged = ''managed'',
     op_OriginalStatus = status, op_EnableProcessRestart = False, op_CCSyncStatus = Synced\<rparr>"

definition ex_common :: "nat \<Rightarrow> task_payload" where
  "ex_common inst = (case CommonProcessFinalize 2 1 inst (os_Db (ex_store [])) of Inr cp \<Rightarrow> cp)"

lemmas ex_op_defs = ex_cmd_def ex_batch_def ex_store_def ex_service_def ex_env_def ex_payload_def ex_common_def
  ex_proc_def ex_inst_def

section \<open>Tasks\<close>

text \<open>Instance 1 is started: the service says that it is stopped and at the end that it runs.\<close>

lemma operated_instance_settles_witness:
  "\<exists>st' v. run_operate_task (replicate 5 (ex_env True 0) @ [ex_env True 4]) (ex_env True 4) (ex_payload StartOp 1 ''stopped'')
      (ex_common 1) (ex_store [ex_batch ''start'' 1 0 BatchRunning]) = (None, st')
    \<and> v \<in> set (db_Instances (os_Db st')) \<and> in_ID v = 1 \<and> inst_settled (state_of v)"
proof -
  let ?st = "ex_store [ex_batch ''start'' 1 0 BatchRunning]"
  let ?r = "run_operate_task (replicate 5 (ex_env True 0) @ [ex_env True 4]) (ex_env True 4) (ex_payload StartOp 1 ''stopped'')
      (ex_common 1) ?st"
  have "fst ?r = None \<and> list_ex (\<lambda>v. in_BizID v = 2 \<and> in_ID v = 1) (db_Instances (os_Db (snd ?r)))" by code_simp
  then obtain st' v where r: "?r = (None, st')" "v \<in> set (db_Instances (os_Db st'))" "in_BizID v = 2" "in_ID v = 1"
    unfolding list_ex_iff by (metis prod.collapse)
  have "ids_ok ?st" by (simp add: ids_ok_def ex_op_defs)
  from operated_instance_settles [OF this r(1,2)] r show ?thesis by (auto simp: ex_payload_def)
qed

lemma request_in_between_written_back_witness:
  "\<exists>e st' v. run_operate_task [ex_env True 4] (ex_env False 4) (ex_payload StopOp 1 ''starting'') (ex_common 1) (ex_store []) = (Some e, st')
    \<and> v \<in> set (db_Instances (os_Db st')) \<and> in_ID v = 1 \<and> in_Status v = ''starting''"
proof -
  let ?r = "run_operate_task [ex_env True 4] (ex_env False 4) (ex_payload StopOp 1 ''starting'') (ex_common 1) (ex_store [])"
  have "list_ex (\<lambda>v. in_BizID v = 2 \<and> in_ID v = 1) (db_Instances (os_Db (snd ?r)))" by code_simp
  moreover have "ids_ok (ex_store [])" by (simp add: ids_ok_def ex_op_defs)
  moreover have "isProcessInProgress (op_OriginalStatus (ex_payload StopOp 1 ''starting''))" by code_simp
  moreover have "\<forall>r. isl (gs_Submit (oe_gse (ex_env False 4)) r)" by (simp add: ex_env_def ex_service_def)
  ultimately show ?thesis
    using request_in_between_written_back [of "ex_store []" "ex_payload StopOp 1 ''starting''" "ex_env False 4" "ex_env True 4" "[]" "ex_common 1"]
    by (fastforce simp: list_ex_iff ex_payload_def)
qed

text \<open>Both instances of the process are stopped, the second one first: it is the one that is deleted.\<close>

lemma stops_scale_down_witness:
  "inst_ids 2 1 (os_Db (ended_well [(ex_env True 0, ex_payload StopOp 2 ''running'', ex_common 2),
     (ex_env True 0, ex_payload StopOp 1 ''running'', ex_common 1)] (ex_store [ex_batch ''stop'' 2 0 BatchRunning]))) = {1}"
proof -
  let ?st = "ex_store [ex_batch ''stop'' 2 0 BatchRunning]"
  have "inst_ids 2 1 (os_Db ?st) = set (map in_ID (filter (\<lambda>v. in_BizID v = 2 \<and> in_ProcessID v = 1) (db_Instances (os_Db ?st))))"
    by (auto simp: inst_ids_def)
  then have ids: "inst_ids 2 1 (os_Db ?st) = {1, 2}" by (simp add: ex_op_defs)
  let ?p = "ex_proc 1 10 ''nginx'' 1 Synced"
  let ?calls = "[(ex_env True 0, ex_payload StopOp 2 ''running'', ex_common 2), (ex_env True 0, ex_payload StopOp 1 ''running'', ex_common 1)]"
  have calls: "map call_inst ?calls = [2, 1]" by (simp add: call_inst_def ex_payload_def)
  have "inst_ids 2 1 (os_Db (ended_well ?calls ?st)) = inst_ids 2 1 (os_Db ?st)
    - set (take (card (inst_ids 2 1 (os_Db ?st)) - ps_ProcNum (pr_Spec ?p)) (map call_inst ?calls))"
  proof (rule stops_scale_down)
    show "proc_GetByID 2 1 (os_Db ?st) = Inr ?p" by (simp add: proc_GetByID_def ex_op_defs)
    show "ids_ok ?st" by (simp add: ids_ok_def ex_op_defs)
    show "distinct (map call_inst ?calls)" "set (map call_inst ?calls) \<subseteq> inst_ids 2 1 (os_Db ?st)"
      by (simp_all only: calls ids) auto
  qed (simp add: ex_payload_def)
  also have "\<dots> = {1}" unfolding calls ids by (simp add: ex_proc_def insert_Diff_if)
  finally show ?thesis .
qed

section \<open>Retries and updates\<close>

definition ex_failed :: stored_task where
  "ex_failed = \<lparr>so_Status = TaskFailed, so_Task = \<lparr>tk_BatchID = 5, tk_TaskType = ''update_register'', tk_Updates = True,
     tk_Steps = UpdateRegisterTask_Steps (ex_payload UpdateRegisterOp 1 ''running''), tk_Payload = ex_payload UpdateRegisterOp 1 ''running'',
     tk_Common = ex_common 1\<rparr>\<rparr>"

lemma retry_of_update_fails_witness:
  "\<exists>st'. RetryTasks [ex_failed] 2 5 (ex_store [ex_batch ''update_register'' 1 1 BatchFailed]) = Some (Inl StepNotFound, [], st')
    \<and> (\<exists>t. find_batch 5 (os_Tb st') = Some t \<and> tb_Status t = BatchRunning)"
proof -
  let ?t = "ex_batch ''update_register'' 1 1 BatchFailed"
  have "TaskBatch_GetByID 2 5 (os_Tb (ex_store [?t])) = Inr ?t" "distinct (map tb_ID (bs_Batches (os_Tb (ex_store [?t]))))"
    by (simp_all add: TaskBatch_GetByID_def ex_batch_def ex_store_def)
  moreover have "\<forall>s \<in> set [ex_failed]. tk_BatchID (so_Task s) = 5 \<longrightarrow> (\<exists>pl. tk_Steps (so_Task s) = UpdateRegisterTask_Steps pl)"
    by (auto simp: ex_failed_def)
  ultimately have "\<exists>st'. RetryTasks [ex_failed] 2 5 (ex_store [?t]) = Some (Inl StepNotFound, [], st') \<and> os_Db st' = os_Db (ex_store [?t])
      \<and> find_batch 5 (os_Tb st') = Some (?t\<lparr>tb_CompletedCount := tb_CompletedCount ?t - 1, tb_FailedCount := tb_FailedCount ?t - 1,
          tb_Status := BatchRunning, tb_EndAt := None\<rparr>)"
    by (intro retry_of_update_fails) (simp_all add: ex_failed_def ex_batch_def)
  then show ?thesis by fastforce
qed

lemma failed_update_marks_synced_witness:
  "\<exists>st' p. run_update_task [ex_env True 4] (ex_env True 4) (ex_payload UpdateRegisterOp 1 ''running'') (ex_common 1)
      (ex_store [ex_batch ''update_register'' 1 0 BatchRunning]) = (Some NotInCMDB, st')
    \<and> p \<in> set (db_Processes (os_Db st')) \<and> pr_ID p = 1 \<and> sync_of p = Synced"
proof -
  let ?t = "ex_batch ''update_register'' 1 0 BatchRunning" and ?pl = "ex_payload UpdateRegisterOp 1 ''running''"
  let ?r = "run_update_task [ex_env True 4] (ex_env True 4) ?pl (ex_common 1) (ex_store [?t])"
  have "TaskBatch_GetByID 2 5 (os_Tb (ex_store [?t])) = Inr ?t"
    by (simp add: TaskBatch_GetByID_def ex_batch_def ex_store_def)
  with failed_update_marks_synced [of ?pl "ex_store [?t]" ?t "ex_env True 4" "ex_common 1" "[]" "ex_env True 4"]
  obtain st' where st': "?r = (Some NotInCMDB, st')"
    "\<forall>p \<in> set (db_Processes (os_Db st')). biz_id p = 2 \<and> pr_ID p = 1 \<longrightarrow> sync_of p = Synced"
    by (fastforce simp: ex_payload_def ex_batch_def ex_env_def)
  have "list_ex (\<lambda>p. biz_id p = 2 \<and> pr_ID p = 1) (db_Processes (os_Db (snd ?r)))" by code_simp
  with st' show ?thesis by (auto simp: list_ex_iff)
qed

section \<open>What is offered\<close>

definition ex_shown :: pb_process where
  "ex_shown = hd (PbProcessesWithInstances ex_cmd [ex_proc 1 10 ''nginx'' 2 Synced] (\<lambda>_. [ex_inst 1 1 10 1 1, ex_inst 2 1 10 2 2]))"

lemma offered_iff_some_instance_witness:
  "(\<exists>a. map_of (pb_ProcActions ex_shown) StopOp = Some a \<and> aa_Enabled a) \<and>
   \<not> (\<exists>a. map_of (pb_ProcActions ex_shown) StartOp = Some a \<and> aa_Enabled a)"
proof -
  let ?insts = "[ex_inst 1 1 10 1 1, ex_inst 2 1 10 2 2]"
  have mem: "ex_shown \<in> set (PbProcessesWithInstances ex_cmd [ex_proc 1 10 ''nginx'' 2 Synced] (\<lambda>_. ?insts))"
    by (simp add: ex_shown_def PbProcessesWithInstances_def ex_cmd_def ex_proc_def Let_def)
  have src: "ex_cmd (ps_SourceData (pr_Spec (pb_Process ex_shown))) = Some (the (ex_cmd ''{}''))" by (simp add: ex_cmd_def)
  have sync: "sync_of (pb_Process ex_shown) = Synced" by code_simp
  have st: "\<forall>i \<in> set ?insts. inst_settled (state_of i)" by (simp add: ex_inst_def inst_settled_def)
  have ops: "StopOp \<in> set process_ops" "StartOp \<in> set process_ops" by code_simp+
  have can: "fst (CanProcessOperate StopOp (the (ex_cmd ''{}'')) ''running'' ''managed'' Synced)"
    "\<not> fst (CanProcessOperate StartOp (the (ex_cmd ''{}'')) ''running'' ''managed'' Synced)" by code_simp+
  note iff = offered_iff_some_instance [OF mem src refl _ st, unfolded sync]
  show ?thesis using iff [OF _ ops(1)] iff [OF _ ops(2)] can by (auto simp: ex_inst_def)
qed

section \<open>A history\<close>

definition ex_kit :: kit where
  "ex_kit = \<lparr>kt_TenantID = [], kt_BizID = 2, kt_User = ''u''\<rparr>"

definition ex_req :: operate_req where
  "ex_req = \<lparr>rq_BizID = 2, rq_ProcessIds = [1], rq_ProcessInstanceIds = [], rq_OperateType = ''stop'', rq_OperateRange = None,
     rq_EnableProcessRestart = False\<rparr>"

definition ex_found :: "(op_err + nat) \<times> proc_task list \<times> op_store" where
  "ex_found = operate_found 9 ex_kit ex_req ([ex_proc 1 10 ''nginx'' 1 Synced], [ex_inst 1 1 10 1 1, ex_inst 2 1 10 2 2]) (ex_store [])"

definition ex_start :: ops_state where
  "ex_start = \<lparr>ow_Store = ex_store [], ow_Open = [], ow_Ended = [], ow_Lost = (\<lambda>_. 0)\<rparr>"

definition ex_requested :: ops_state where
  "ex_requested = ex_start\<lparr>ow_Store := snd (snd ex_found), ow_Open := map start_task (fst (snd ex_found))\<rparr>"

lemma ex_reach: "reach ops_init ops_step ex_requested"
proof -
  have "validateOperateRequest ex_req = Inr ()" by code_simp
  moreover have "getByProcessIDs 2 [1] (os_Db (ex_store [])) = Inr ([ex_proc 1 10 ''nginx'' 1 Synced], [ex_inst 1 1 10 1 1, ex_inst 2 1 10 2 2])"
    by code_simp
  ultimately have "OperateProcess 9 ex_kit ex_req (ow_Store ex_start) = Some (fst ex_found, fst (snd ex_found), snd (snd ex_found))"
    by (simp add: OperateProcess_def getProcessesAndInstances_def ex_found_def ex_req_def ex_start_def)
  from ops_step.request [OF this] have "ops_step ex_start ex_requested" by (simp add: ex_requested_def ex_start_def)
  moreover have "ops_init ex_start" by (simp add: ops_init_def ex_start_def ex_store_def)
  ultimately show ?thesis using reach.start reach.step by metis
qed

text \<open>
  An update of the registrations is requested; the task of the first instance fails, and the retry of
  it fails as well and does not start it. One task runs then and one is lost.
\<close>

definition upd_req :: operate_req where
  "upd_req = ex_req\<lparr>rq_OperateType := ''update_register''\<rparr>"

definition upd_found :: "(op_err + nat) \<times> proc_task list \<times> op_store" where
  "upd_found = operate_found 9 ex_kit upd_req ([ex_proc 1 10 ''nginx'' 1 Synced], [ex_inst 1 1 10 1 1, ex_inst 2 1 10 2 2]) (ex_store [])"

definition upd_tasks :: "run_task list" where
  "upd_tasks = map start_task (fst (snd upd_found))"

definition upd_worked :: "run_task \<times> op_store" where
  "upd_worked = work_on (ex_env True 4) (hd upd_tasks) (snd (snd upd_found))"

definition upd_store :: op_store where
  "upd_store = call_back (ex_env True 4) (fst upd_worked) (snd upd_worked)"

lemma upd_retry:
  "TaskBatch_GetByID 2 6 (os_Tb upd_store) = Inr (hd (bs_Batches (os_Tb upd_store)))"
  "counted_back [stored (fst upd_worked)] (hd (bs_Batches (os_Tb upd_store))) (os_Tb upd_store) = 1"
  "\<exists>st. RetryTasks [stored (fst upd_worked)] 2 6 upd_store = Some (Inl StepNotFound, [], st)"
proof -
  let ?x = "stored (fst upd_worked)" and ?t = "hd (bs_Batches (os_Tb upd_store))"
  show t: "TaskBatch_GetByID 2 6 (os_Tb upd_store) = Inr ?t" by code_simp
  show "counted_back [?x] ?t (os_Tb upd_store) = 1" by code_simp
  have x: "tb_Status ?t = BatchRunning" "tb_ID ?t = 6" "tk_BatchID (so_Task ?x) = 6"
    "tk_TaskType (so_Task ?x) = tb_TaskAction ?t" "so_Status ?x = TaskFailed" by code_simp+
  have none: "map_of (tk_Steps (so_Task ?x)) FinalizeOperateProcess = None" by code_simp
  have "\<not> isl (ResetCountsForRetry 6 (Suc 0) (os_Tb upd_store))" by code_simp
  then obtain tb where "ResetCountsForRetry 6 (Suc 0) (os_Tb upd_store) = Inr tb"
    by (cases "ResetCountsForRetry 6 (Suc 0) (os_Tb upd_store)") auto
  then show "\<exists>st. RetryTasks [?x] 2 6 upd_store = Some (Inl StepNotFound, [], st)"
    by (simp add: RetryTasks_def t retryProcessTask_def queryFailedTasks_all x retry_one_def none)
qed

lemma upd_reach:
  "\<exists>s. reach ops_init ops_step s \<and> 6 \<in> batch_ids (os_Tb (ow_Store s)) \<and> ow_Lost s 6 = 1 \<and> open_of (ow_Open s) 6 = 1"
proof -
  let ?u = "upd_tasks" and ?w = upd_worked
  define s1 where "s1 = ex_start\<lparr>ow_Store := snd (snd upd_found), ow_Open := ?u\<rparr>"
  define s2 where "s2 = s1\<lparr>ow_Store := snd ?w, ow_Open := [] @ fst ?w # tl ?u\<rparr>"
  define s3 where "s3 = s2\<lparr>ow_Store := upd_store, ow_Open := [] @ tl ?u, ow_Ended := [stored (fst ?w)]\<rparr>"
  have "validateOperateRequest upd_req = Inr ()" by code_simp
  moreover have "getByProcessIDs 2 [1] (os_Db (ex_store [])) = Inr ([ex_proc 1 10 ''nginx'' 1 Synced], [ex_inst 1 1 10 1 1, ex_inst 2 1 10 2 2])"
    by code_simp
  ultimately have "OperateProcess 9 ex_kit upd_req (ow_Store ex_start) = Some (fst upd_found, fst (snd upd_found), snd (snd upd_found))"
    by (simp add: OperateProcess_def getProcessesAndInstances_def upd_found_def upd_req_def ex_req_def ex_start_def)
  from ops_step.request [OF this] have one: "ops_step ex_start s1" by (simp add: s1_def upd_tasks_def ex_start_def)
  have ne: "?u \<noteq> []" by code_simp
  have left: "rt_Err (hd ?u) = None" "rt_Left (hd ?u) \<noteq> []" by code_simp+
  have "ow_Open s1 = [] @ hd ?u # tl ?u" using ne by (simp add: s1_def)
  from work_step.work [OF this left, of "ex_env True 4" "fst ?w" "snd ?w"]
  have two: "ops_step s1 s2" by (intro ops_step.task) (simp add: s2_def s1_def upd_worked_def)
  have "rt_Err (fst ?w) \<noteq> None" by code_simp
  moreover have "ow_Open s2 = [] @ fst ?w # tl ?u" by (simp add: s2_def)
  ultimately have three: "ops_step s2 s3"
    using work_step.callback [of s2 "[]" "fst ?w" "tl ?u" "ex_env True 4"]
    by (intro ops_step.task) (simp add: s3_def s2_def s1_def upd_store_def ex_start_def)
  define t where "t = hd (bs_Batches (os_Tb upd_store))"
  obtain st where run: "RetryTasks (ow_Ended s3) 2 6 (ow_Store s3) = Some (Inl StepNotFound, [], st)"
    using upd_retry(3) by (auto simp: s3_def)
  have t: "TaskBatch_GetByID 2 6 (os_Tb (ow_Store s3)) = Inr t" using upd_retry(1) by (simp add: s3_def t_def)
  obtain s4 where s4: "ops_step s3 s4" "ow_Open s4 = ow_Open s3"
    "ow_Lost s4 = (ow_Lost s3)(tb_ID t := ow_Lost s3 (tb_ID t) + counted_back (ow_Ended s3) t (os_Tb (ow_Store s3)))"
    using ops_step.retry [OF t run] by simp
  have "tb_ID t = 6" unfolding t_def by code_simp
  moreover have "ow_Lost s3 i = 0" for i by (simp add: s3_def s2_def s1_def ex_start_def)
  moreover have "counted_back (ow_Ended s3) t (os_Tb (ow_Store s3)) = 1" using upd_retry(2) by (simp add: s3_def t_def)
  ultimately have lost: "ow_Lost s4 6 = 1" using s4(3) by simp
  have "open_of (tl ?u) 6 = 1" by code_simp
  moreover have "ow_Open s3 = tl ?u" by (simp add: s3_def)
  ultimately have opened: "open_of (ow_Open s4) 6 = 1" using s4(2) by simp
  have "ops_init ex_start" by (simp add: ops_init_def ex_start_def ex_store_def)
  then have r: "reach ops_init ops_step s4" using one two three s4(1) reach.start reach.step by metis
  have "6 \<in> batch_ids (os_Tb (ow_Store s4))" using ops.reach_inv [OF r] lost by (auto simp: ops_inv_def)
  with r lost opened show ?thesis by blast
qed

lemma reachable_batches_account_witness:
  "\<exists>s t. reach ops_init ops_step s \<and> t \<in> set (bs_Batches (os_Tb (ow_Store s)))
    \<and> ow_Lost s (tb_ID t) = 1 \<and> open_of (ow_Open s) (tb_ID t) = 1
    \<and> tb_CompletedCount t + 2 = tb_TotalCount t \<and> tb_Status t = BatchRunning"
proof -
  obtain s where s: "reach ops_init ops_step s" "6 \<in> batch_ids (os_Tb (ow_Store s))" "ow_Lost s 6 = 1" "open_of (ow_Open s) 6 = 1"
    using upd_reach by blast
  then obtain t where t: "t \<in> set (bs_Batches (os_Tb (ow_Store s)))" "tb_ID t = 6" by (auto simp: batch_ids_def)
  from reachable_batches_account [OF s(1) t(1)] s t show ?thesis by (intro exI [of _ s] exI [of _ t]) simp
qed

text \<open>The two tasks of the request can be run to their end, and then the batch has ended.\<close>

lemma work_ends_batches_witness:
  "\<exists>s'. work_step\<^sup>*\<^sup>* ex_requested s' \<and> ow_Open s' = []
    \<and> list_all (\<lambda>t. tb_CompletedCount t = tb_TotalCount t \<and> tb_Status t = ended_status t) (bs_Batches (os_Tb (ow_Store s')))"
proof -
  obtain s' where s': "work_step\<^sup>*\<^sup>* ex_requested s'" "all_ended s'"
    using work.finishes [OF ops.reach_inv [OF ex_reach]] by blast
  then have stuck: "\<nexists>s''. work_step s' s''" by (auto simp: all_ended_def elim: work_stepE)
  have "ow_Lost ex_requested i = 0" for i by (simp add: ex_requested_def ex_start_def)
  with work_ends_batches [OF ex_reach] s'(1) stuck have "ow_Open s' = []
    \<and> (\<forall>t \<in> set (bs_Batches (os_Tb (ow_Store s'))). tb_CompletedCount t = tb_TotalCount t \<and> tb_Status t = ended_status t)" by blast
  with s'(1) show ?thesis by (auto simp: list_all_iff)
qed

end
