(* ===== verification/AsyncStore.thy ===== *)
theory AsyncStore
  imports GoPath "HOL-Library.AList" "HOL-Library.Multiset"
begin

text \<open>
  The store of the asynchronous downloads, \<open>cmd/feed-server/bll/asyncdownload/v2/store.go\<close> and
  \<open>keys.go\<close>, with the records of \<open>bll/types/types.go\<close> and the configuration of \<open>pkg/cc/types.go\<close>.
  A family of redis keys is an association list: the prefixes of the families differ, so that no key
  of one is a key of another. The commands of redis succeed; a key that is not there reads as the
  empty string. The time to live of a key is not kept: a key that expires is removed by a step of the
  environment. Points in time are nanoseconds, the zero time is \<open>None\<close>.
\<close>

section \<open>Records\<close>

datatype ad_batch_state = BCollecting | BDispatching | BDone | BPartial | BFailed
datatype ad_job_state = JPending | JRunning | JSuccess | JFailed | JTimeout

record ad_batch =
  ab_BatchID :: string
  ab_TenantID :: string
  ab_BizID :: nat
  ab_AppID :: nat
  ab_FilePath :: string
  ab_FileName :: string
  ab_FileSignature :: string
  ab_TargetUser :: string
  ab_TargetFileDir :: string
  ab_State :: ad_batch_state
  ab_OpenUntil :: "nat option"
  ab_CreatedAt :: nat
  ab_DispatchStartedAt :: "nat option"
  ab_DispatchOwner :: string
  ab_DispatchLeaseUntil :: "nat option"
  ab_DispatchHeartbeatAt :: "nat option"
  ab_DispatchAttempt :: nat
  ab_TargetCount :: nat
  ab_SuccessCount :: nat
  ab_FailedCount :: nat
  ab_TimeoutCount :: nat
  ab_ShardCount :: nat
  ab_FinalReason :: string

record ad_task =
  at_TaskID :: string
  at_BatchID :: string
  at_TargetID :: string
  at_BizID :: nat
  at_AppID :: nat
  at_TenantID :: string
  at_FilePath :: string
  at_FileName :: string
  at_FileSignature :: string
  at_TargetUser :: string
  at_TargetFileDir :: string
  at_State :: ad_job_state
  at_CreatedAt :: nat
  at_UpdatedAt :: nat
  at_ErrMsg :: string

record ad_config =
  ac_CollectWindowSeconds :: int
  ac_MaxTargetsPerBatch :: int
  ac_ShardSize :: int
  ac_DispatchHeartbeatSeconds :: int
  ac_DispatchLeaseSeconds :: int
  ac_MaxDispatchAttempts :: int
  ac_MaxDueBatchesPerTick :: int
  ac_TaskTTLSeconds :: int
  ac_BatchTTLSeconds :: int

definition or_default :: "int \<Rightarrow> int \<Rightarrow> int" where
  "or_default d n = (if n = 0 then d else n)"

definition trySetDefault :: "ad_config \<Rightarrow> ad_config" where
  "trySetDefault v = v
    \<lparr>ac_CollectWindowSeconds := or_default 10 (ac_CollectWindowSeconds v),
     ac_MaxTargetsPerBatch := or_default 5000 (ac_MaxTargetsPerBatch v),
     ac_ShardSize := or_default 500 (ac_ShardSize v),
     ac_DispatchHeartbeatSeconds := or_default 15 (ac_DispatchHeartbeatSeconds v),
     ac_DispatchLeaseSeconds := or_default 60 (ac_DispatchLeaseSeconds v),
     ac_MaxDispatchAttempts := or_default 3 (ac_MaxDispatchAttempts v),
     ac_MaxDueBatchesPerTick := or_default 100 (ac_MaxDueBatchesPerTick v),
     ac_TaskTTLSeconds := or_default 86400 (ac_TaskTTLSeconds v),
     ac_BatchTTLSeconds := or_default 86400 (ac_BatchTTLSeconds v)\<rparr>"

definition AsyncDownloadV2_validate :: "ad_config \<Rightarrow> bool" where
  "AsyncDownloadV2_validate v \<longleftrightarrow> 0 < ac_CollectWindowSeconds v \<and> 0 < ac_MaxTargetsPerBatch v \<and> 0 < ac_ShardSize v
     \<and> 0 < ac_DispatchHeartbeatSeconds v \<and> 0 < ac_DispatchLeaseSeconds v \<and> 0 < ac_MaxDispatchAttempts v
     \<and> 0 < ac_MaxDueBatchesPerTick v \<and> 0 < ac_TaskTTLSeconds v \<and> 0 < ac_BatchTTLSeconds v"

section \<open>Keys\<close>

definition BuildFileVersionKey :: "nat \<Rightarrow> nat \<Rightarrow> string \<Rightarrow> string \<Rightarrow> string \<Rightarrow> string" where
  "BuildFileVersionKey bizID appID filePath fileName signature =
     itoa_nat bizID @ '':'' @ itoa_nat appID @ '':'' @ path_Join filePath fileName @ '':'' @ signature"

definition BuildTargetID :: "string \<Rightarrow> string \<Rightarrow> string" where
  "BuildTargetID agentID containerID = agentID @ '':'' @ containerID"

definition BuildBatchScopeKey :: "string \<Rightarrow> string \<Rightarrow> string \<Rightarrow> string" where
  "BuildBatchScopeKey fileVersionKey targetUser targetDir = fileVersionKey @ ''|'' @ targetUser @ ''|'' @ targetDir"

definition BuildInflightTargetKey :: "string \<Rightarrow> string \<Rightarrow> string \<Rightarrow> string" where
  "BuildInflightTargetKey targetID targetUser targetDir = targetID @ ''|'' @ targetUser @ ''|'' @ targetDir"

definition inflightKey :: "string \<Rightarrow> string \<Rightarrow> string" where
  "inflightKey fileVersionKey inflightTargetKey = fileVersionKey @ '':'' @ inflightTargetKey"

definition ParseTargetID :: "string \<Rightarrow> string \<times> string" where
  "ParseTargetID targetID = (case splitN2 CHR '':'' targetID of
      [] \<Rightarrow> ([], []) | [a] \<Rightarrow> (a, []) | a # b # _ \<Rightarrow> (a, b))"

section \<open>Store\<close>

record ad_store =
  ad_Batches :: "(string \<times> ad_batch) list"
  ad_Tasks :: "(string \<times> ad_task) list"
  ad_Targets :: "(string \<times> (string \<times> string) list) list"
  ad_TaskTargets :: "(string \<times> (string \<times> string) list) list"
  ad_Dispatched :: "(string \<times> (string \<times> string) list) list"
  ad_Inflight :: "(string \<times> string) list"
  ad_Open :: "(string \<times> string) list"
  ad_Due :: "(string \<times> nat) list"

definition empty_store :: ad_store where
  "empty_store = \<lparr>ad_Batches = [], ad_Tasks = [], ad_Targets = [], ad_TaskTargets = [], ad_Dispatched = [],
     ad_Inflight = [], ad_Open = [], ad_Due = []\<rparr>"

definition HGetAll :: "(string \<times> (string \<times> string) list) list \<Rightarrow> string \<Rightarrow> (string \<times> string) list" where
  "HGetAll h k = (case map_of h k of None \<Rightarrow> [] | Some fs \<Rightarrow> fs)"

definition HSets ::
  "string \<Rightarrow> (string \<times> string) list \<Rightarrow> (string \<times> (string \<times> string) list) list \<Rightarrow> (string \<times> (string \<times> string) list) list" where
  "HSets k fs h = AList.update k (fold (\<lambda>(f, v). AList.update f v) fs (HGetAll h k)) h"

definition get_string :: "(string \<times> string) list \<Rightarrow> string \<Rightarrow> string" where
  "get_string m k = (case map_of m k of None \<Rightarrow> [] | Some v \<Rightarrow> v)"

definition unix_seconds :: "nat \<Rightarrow> nat" where
  "unix_seconds t = t div 1000000000"

definition seconds :: "int \<Rightarrow> nat" where
  "seconds n = nat n * 1000000000"

definition SaveBatch :: "ad_batch \<Rightarrow> ad_store \<Rightarrow> ad_store" where
  "SaveBatch batch st = st
    \<lparr>ad_Batches := AList.update (ab_BatchID batch) batch (ad_Batches st),
     ad_Due := (case ab_OpenUntil batch of
         Some t \<Rightarrow> (if ab_State batch = BCollecting then AList.update (ab_BatchID batch) (unix_seconds t) (ad_Due st)
           else AList.delete (ab_BatchID batch) (ad_Due st))
       | None \<Rightarrow> AList.delete (ab_BatchID batch) (ad_Due st))\<rparr>"

definition SaveTask :: "ad_task \<Rightarrow> ad_store \<Rightarrow> ad_store" where
  "SaveTask task st = st\<lparr>ad_Tasks := AList.update (at_TaskID task) task (ad_Tasks st)\<rparr>"

definition AddTaskToBatch :: "string \<Rightarrow> string \<Rightarrow> string \<Rightarrow> string \<Rightarrow> ad_task \<Rightarrow> ad_store \<Rightarrow> ad_store" where
  "AddTaskToBatch batchID fileVersionKey targetID taskID task st =
     (let st1 = SaveTask task st in
      st1\<lparr>ad_Targets := HSets batchID [(targetID, taskID)] (ad_Targets st1),
          ad_TaskTargets := HSets batchID [(taskID, targetID)] (ad_TaskTargets st1),
          ad_Inflight := AList.update (inflightKey fileVersionKey
            (BuildInflightTargetKey targetID (at_TargetUser task) (at_TargetFileDir task))) taskID (ad_Inflight st1)\<rparr>)"

definition CreateBatchAndTask ::
  "string \<Rightarrow> string \<Rightarrow> string \<Rightarrow> string \<Rightarrow> ad_batch \<Rightarrow> ad_task \<Rightarrow> ad_store \<Rightarrow> ad_store" where
  "CreateBatchAndTask fileVersionKey batchID targetID taskID batch task st =
     (let st1 = SaveTask task (SaveBatch batch st) in
      st1\<lparr>ad_Targets := HSets batchID [(targetID, taskID)] (ad_Targets st1),
          ad_TaskTargets := HSets batchID [(taskID, targetID)] (ad_TaskTargets st1),
          ad_Inflight := AList.update (inflightKey fileVersionKey
            (BuildInflightTargetKey targetID (at_TargetUser task) (at_TargetFileDir task))) taskID (ad_Inflight st1),
          ad_Open := AList.update (BuildBatchScopeKey fileVersionKey (ab_TargetUser batch) (ab_TargetFileDir batch))
            batchID (ad_Open st1)\<rparr>)"

definition GetInflightTaskID :: "string \<Rightarrow> string \<Rightarrow> ad_store \<Rightarrow> string" where
  "GetInflightTaskID fileVersionKey inflightTargetKey st =
     get_string (ad_Inflight st) (inflightKey fileVersionKey inflightTargetKey)"

definition ClearInflightTaskID :: "string \<Rightarrow> string \<Rightarrow> ad_store \<Rightarrow> ad_store" where
  "ClearInflightTaskID fileVersionKey inflightTargetKey st =
     st\<lparr>ad_Inflight := AList.delete (inflightKey fileVersionKey inflightTargetKey) (ad_Inflight st)\<rparr>"

definition GetOpenBatchID :: "string \<Rightarrow> ad_store \<Rightarrow> string" where
  "GetOpenBatchID batchScopeKey st = get_string (ad_Open st) batchScopeKey"

definition ClearOpenBatchID :: "string \<Rightarrow> ad_store \<Rightarrow> ad_store" where
  "ClearOpenBatchID batchScopeKey st = st\<lparr>ad_Open := AList.delete batchScopeKey (ad_Open st)\<rparr>"

datatype ad_err = BatchNotExists string | TaskNotExists string | TransferFailed string

definition GetBatch :: "string \<Rightarrow> ad_store \<Rightarrow> ad_err + ad_batch" where
  "GetBatch batchID st = (case map_of (ad_Batches st) batchID of
      None \<Rightarrow> Inl (BatchNotExists batchID) | Some b \<Rightarrow> Inr b)"

definition GetTask :: "string \<Rightarrow> ad_store \<Rightarrow> ad_err + ad_task" where
  "GetTask taskID st = (case map_of (ad_Tasks st) taskID of
      None \<Rightarrow> Inl (TaskNotExists taskID) | Some t \<Rightarrow> Inr t)"

definition GetBatchTaskID :: "string \<Rightarrow> string \<Rightarrow> ad_store \<Rightarrow> string" where
  "GetBatchTaskID batchID targetID st = get_string (HGetAll (ad_Targets st) batchID) targetID"

text \<open>The order of strings is that of their bytes.\<close>

fun string_le :: "string \<Rightarrow> string \<Rightarrow> bool" where
  "string_le [] t = True"
| "string_le (c # s) [] = False"
| "string_le (c # s) (d # t) = (of_char c < (of_char d :: nat) \<or> (c = d \<and> string_le s t))"

fun insert_string :: "string \<Rightarrow> string list \<Rightarrow> string list" where
  "insert_string s [] = [s]"
| "insert_string s (t # ts) = (if string_le s t then s # t # ts else t # insert_string s ts)"

definition sort_strings :: "string list \<Rightarrow> string list" where
  "sort_strings ss = foldr insert_string ss []"

definition ListBatchTargets :: "string \<Rightarrow> ad_store \<Rightarrow> string list" where
  "ListBatchTargets batchID st = sort_strings (map fst (HGetAll (ad_Targets st) batchID))"

definition ListBatchTasks :: "string \<Rightarrow> ad_store \<Rightarrow> string list" where
  "ListBatchTasks batchID st = sort_strings (map fst (HGetAll (ad_TaskTargets st) batchID))"

definition ListBatchTargetTasks :: "string \<Rightarrow> ad_store \<Rightarrow> (string \<times> string) list" where
  "ListBatchTargetTasks batchID st = HGetAll (ad_Targets st) batchID"

text \<open>The members of the set of due batches with a score up to \<open>now\<close>, by score and then by name.\<close>

definition ListDueBatchIDs :: "nat \<Rightarrow> int \<Rightarrow> ad_store \<Rightarrow> string list" where
  "ListDueBatchIDs now limit st =
     (if limit \<le> 0 then []
      else
        (let members = sort_strings (map fst (filter (\<lambda>(m, score). score \<le> unix_seconds now) (ad_Due st)));
             ranked = sort_key (\<lambda>m. the (map_of (ad_Due st) m)) members in
         filter (\<lambda>m. m \<noteq> []) (take (nat limit) ranked)))"

definition RemoveDueBatchID :: "string \<Rightarrow> ad_store \<Rightarrow> ad_store" where
  "RemoveDueBatchID batchID st = st\<lparr>ad_Due := AList.delete batchID (ad_Due st)\<rparr>"

definition ListDispatchingBatchIDs :: "ad_store \<Rightarrow> string list" where
  "ListDispatchingBatchIDs st =
     sort_strings (List.map_filter (\<lambda>k. case map_of (ad_Batches st) k of
         None \<Rightarrow> None
       | Some batch \<Rightarrow> if ab_State batch = BDispatching then Some (ab_BatchID batch) else None) (map fst (ad_Batches st)))"

definition RecordBatchDispatch :: "string \<Rightarrow> (string \<times> string) list \<Rightarrow> ad_store \<Rightarrow> ad_store" where
  "RecordBatchDispatch batchID mapping st =
     (if mapping = [] then st else st\<lparr>ad_Dispatched := HSets batchID mapping (ad_Dispatched st)\<rparr>)"

definition ListBatchDispatchState :: "string \<Rightarrow> ad_store \<Rightarrow> (string \<times> string) list" where
  "ListBatchDispatchState batchID st = HGetAll (ad_Dispatched st) batchID"

definition BatchTTL :: "ad_config \<Rightarrow> int" where
  "BatchTTL cfg = (if 0 < ac_BatchTTLSeconds cfg then ac_BatchTTLSeconds cfg else 86400)"

definition TaskTTL :: "ad_config \<Rightarrow> int" where
  "TaskTTL cfg = (if 0 < ac_TaskTTLSeconds cfg then ac_TaskTTLSeconds cfg else 86400)"

section \<open>Facts on the store\<close>

lemma mset_insert_string: "mset (insert_string s ts) = {#s#} + mset ts"
  by (induction ts) auto

lemma mset_sort_strings [simp]: "mset (sort_strings ss) = mset ss"
  unfolding sort_strings_def by (induction ss) (simp_all add: mset_insert_string)

lemma set_sort_strings [simp]: "set (sort_strings ss) = set ss"
  by (rule mset_eq_setD) simp

lemma distinct_sort_strings [simp]: "distinct (sort_strings ss) = distinct ss"
  by (rule mset_eq_imp_distinct_iff) simp

lemma length_sort_strings [simp]: "length (sort_strings ss) = length ss"
  by (rule mset_eq_length) simp

lemma map_of_update [simp]: "map_of (AList.update k v al) = (map_of al)(k \<mapsto> v)"
  by (rule update_conv')

lemma map_of_delete [simp]: "map_of (AList.delete k al) = (map_of al)(k := None)"
  by (rule delete_conv')

lemma HGetAll_HSets_one:
  "HGetAll (HSets k [(f, v)] h) k' = (if k' = k then AList.update f v (HGetAll h k) else HGetAll h k')"
  by (simp add: HGetAll_def HSets_def)

lemma ParseTargetID_BuildTargetID: "CHR '':'' \<notin> set agentID \<Longrightarrow> ParseTargetID (BuildTargetID agentID containerID) = (agentID, containerID)"
proof -
  have "splitN2 CHR '':'' (a @ CHR '':'' # c) = [a, c]" if "CHR '':'' \<notin> set a" for a c
    using that by (induction a) auto
  then show "CHR '':'' \<notin> set agentID \<Longrightarrow> ?thesis" by (simp add: ParseTargetID_def BuildTargetID_def)
qed

end
