(* ===== verification/AsyncSched.thy ===== *)
theory AsyncSched
  imports AsyncStore Effects
begin

text \<open>
  The asynchronous downloads: creating tasks, which collect in a batch for each file, user and
  directory (\<open>service.go\<close>), and the scheduler that dispatches a batch when its window is over, follows
  its transfers and ends it (\<open>scheduler.go\<close>, \<open>repair.go\<close>). The transfer service, the source of the
  files and the random parts of identifiers are parameters. Metrics and logs are left out, and the
  times read within one call are the same.
\<close>

section \<open>Creating tasks\<close>

record ad_request =
  rq_TenantID :: string
  rq_BizID :: nat
  rq_AppID :: nat
  rq_FilePath :: string
  rq_FileName :: string
  rq_AgentID :: string
  rq_ContainerID :: string
  rq_User :: string
  rq_Dir :: string
  rq_Signature :: string

definition file_version :: "ad_request \<Rightarrow> string" where
  "file_version rq = BuildFileVersionKey (rq_BizID rq) (rq_AppID rq) (rq_FilePath rq) (rq_FileName rq) (rq_Signature rq)"

definition target_of :: "ad_request \<Rightarrow> string" where
  "target_of rq = BuildTargetID (rq_AgentID rq) (rq_ContainerID rq)"

definition isFinalTaskState :: "ad_job_state \<Rightarrow> bool" where
  "isFinalTaskState s \<longleftrightarrow> s \<in> {JSuccess, JFailed, JTimeout}"

definition newV2Batch :: "ad_request \<Rightarrow> string \<Rightarrow> nat \<Rightarrow> nat \<Rightarrow> ad_batch" where
  "newV2Batch rq uuid now collectWindow =
    \<lparr>ab_BatchID = ''AsyncDownloadBatchV2:'' @ uuid, ab_TenantID = rq_TenantID rq, ab_BizID = rq_BizID rq,
     ab_AppID = rq_AppID rq, ab_FilePath = rq_FilePath rq, ab_FileName = rq_FileName rq,
     ab_FileSignature = rq_Signature rq, ab_TargetUser = rq_User rq, ab_TargetFileDir = rq_Dir rq,
     ab_State = BCollecting, ab_OpenUntil = Some (now + collectWindow), ab_CreatedAt = now,
     ab_DispatchStartedAt = None, ab_DispatchOwner = [], ab_DispatchLeaseUntil = None, ab_DispatchHeartbeatAt = None,
     ab_DispatchAttempt = 0, ab_TargetCount = 1, ab_SuccessCount = 0, ab_FailedCount = 0, ab_TimeoutCount = 0,
     ab_ShardCount = 0, ab_FinalReason = []\<rparr>"

definition newV2Task :: "ad_request \<Rightarrow> string \<Rightarrow> string \<Rightarrow> string \<Rightarrow> nat \<Rightarrow> ad_task" where
  "newV2Task rq uuid batchID targetID now =
    \<lparr>at_TaskID = ''AsyncDownloadTaskV2:'' @ uuid, at_BatchID = batchID, at_TargetID = targetID, at_BizID = rq_BizID rq,
     at_AppID = rq_AppID rq, at_TenantID = rq_TenantID rq, at_FilePath = rq_FilePath rq, at_FileName = rq_FileName rq,
     at_FileSignature = rq_Signature rq, at_TargetUser = rq_User rq, at_TargetFileDir = rq_Dir rq,
     at_State = JPending, at_CreatedAt = now, at_UpdatedAt = now, at_ErrMsg = []\<rparr>"

definition tryReuseInflightTask :: "string \<Rightarrow> string \<Rightarrow> ad_store \<Rightarrow> string \<times> ad_store" where
  "tryReuseInflightTask fileVersionKey inflightTargetKey st =
     (let taskID = GetInflightTaskID fileVersionKey inflightTargetKey st in
      if taskID = [] then ([], st)
      else (case GetTask taskID st of
          Inl _ \<Rightarrow> ([], ClearInflightTaskID fileVersionKey inflightTargetKey st)
        | Inr task \<Rightarrow>
            if isFinalTaskState (at_State task) then ([], ClearInflightTaskID fileVersionKey inflightTargetKey st)
            else (taskID, st)))"

text \<open>The open batch of a scope, if it still collects.\<close>

definition collecting_batch :: "nat \<Rightarrow> string \<Rightarrow> ad_store \<Rightarrow> ad_batch option" where
  "collecting_batch now openBatchID st =
     (if openBatchID = [] then None
      else (case GetBatch openBatchID st of
          Inl _ \<Rightarrow> None
        | Inr batch \<Rightarrow>
            if ab_State batch = BCollecting \<and> (case ab_OpenUntil batch of None \<Rightarrow> False | Some t \<Rightarrow> now < t)
            then Some batch else None))"

text \<open>The batch as it was read, with a task more, and the writes of a task that joins it.\<close>

definition joined_batch :: "ad_config \<Rightarrow> nat \<Rightarrow> ad_batch \<Rightarrow> ad_batch" where
  "joined_batch cfg now batch = batch\<lparr>ab_TargetCount := ab_TargetCount batch + 1,
     ab_OpenUntil := Some (now + seconds (ac_CollectWindowSeconds cfg))\<rparr>"

definition join_batch :: "ad_config \<Rightarrow> nat \<Rightarrow> string \<Rightarrow> ad_request \<Rightarrow> ad_batch \<Rightarrow> ad_store \<Rightarrow> string \<times> ad_store" where
  "join_batch cfg now tuuid rq batch st =
     (let task = newV2Task rq tuuid (ab_BatchID batch) (target_of rq) now;
          batch' = joined_batch cfg now batch;
          st1 = AddTaskToBatch (ab_BatchID batch) (file_version rq) (target_of rq) (at_TaskID task) task (SaveBatch batch' st) in
      (at_TaskID task,
       if ac_MaxTargetsPerBatch cfg \<le> int (ab_TargetCount batch')
       then ClearOpenBatchID (BuildBatchScopeKey (file_version rq) (rq_User rq) (rq_Dir rq)) st1 else st1))"

definition create_batch :: "ad_config \<Rightarrow> nat \<Rightarrow> string \<Rightarrow> string \<Rightarrow> ad_request \<Rightarrow> ad_store \<Rightarrow> string \<times> ad_store" where
  "create_batch cfg now buuid tuuid rq st =
     (let batch = newV2Batch rq buuid now (seconds (ac_CollectWindowSeconds cfg));
          task = newV2Task rq tuuid (ab_BatchID batch) (target_of rq) now in
      (at_TaskID task,
       CreateBatchAndTask (file_version rq) (ab_BatchID batch) (target_of rq) (at_TaskID task) batch task st))"

definition createOrJoinBatch :: "ad_config \<Rightarrow> nat \<Rightarrow> string \<Rightarrow> string \<Rightarrow> ad_request \<Rightarrow> ad_store \<Rightarrow> string \<times> ad_store" where
  "createOrJoinBatch cfg now buuid tuuid rq st =
     (let scope = BuildBatchScopeKey (file_version rq) (rq_User rq) (rq_Dir rq);
          (taskID, st1) = tryReuseInflightTask (file_version rq)
            (BuildInflightTargetKey (target_of rq) (rq_User rq) (rq_Dir rq)) st;
          openBatchID = GetOpenBatchID scope st1 in
      if taskID \<noteq> [] then (taskID, st1)
      else (case collecting_batch now openBatchID st1 of
          None \<Rightarrow> create_batch cfg now buuid tuuid rq st1
        | Some batch \<Rightarrow>
            if GetBatchTaskID openBatchID (target_of rq) st1 \<noteq> [] then (GetBatchTaskID openBatchID (target_of rq) st1, st1)
            else if ac_MaxTargetsPerBatch cfg \<le> 0 \<or> int (ab_TargetCount batch) < ac_MaxTargetsPerBatch cfg
            then join_batch cfg now tuuid rq batch st1
            else create_batch cfg now buuid tuuid rq (ClearOpenBatchID scope st1)))"

definition CreateTask :: "ad_config \<Rightarrow> nat \<Rightarrow> string \<Rightarrow> string \<Rightarrow> ad_request \<Rightarrow> ad_store \<Rightarrow> string \<times> ad_store" where
  "CreateTask cfg now buuid tuuid rq st =
     (let (taskID, st1) = tryReuseInflightTask (file_version rq)
        (BuildInflightTargetKey (target_of rq) (rq_User rq) (rq_Dir rq)) st in
      if taskID \<noteq> [] then (taskID, st1) else createOrJoinBatch cfg now buuid tuuid rq st1)"

definition GetTaskStatus :: "string \<Rightarrow> ad_store \<Rightarrow> ad_err + ad_job_state" where
  "GetTaskStatus taskID st = rbind (GetTask taskID st) (\<lambda>task. Inr (at_State task))"

section \<open>States of tasks\<close>

definition updateTaskStateByTarget ::
  "nat \<Rightarrow> string \<Rightarrow> string \<Rightarrow> ad_job_state \<Rightarrow> string \<Rightarrow> ad_store \<Rightarrow> (ad_err + bool) \<times> ad_store" where
  "updateTaskStateByTarget now batchID targetID state errMsg st =
     (let taskID = GetBatchTaskID batchID targetID st in
      if taskID = [] then (Inr False, st)
      else (case GetTask taskID st of
          Inl e \<Rightarrow> (Inl e, st)
        | Inr task \<Rightarrow>
            if at_State task = state \<and> at_ErrMsg task = errMsg then (Inr False, st)
            else (Inr (at_State task \<noteq> state),
              SaveTask (task\<lparr>at_State := state, at_ErrMsg := errMsg, at_UpdatedAt := now\<rparr>) st)))"

definition set_task_state :: "nat \<Rightarrow> string \<Rightarrow> ad_job_state \<Rightarrow> string \<Rightarrow> string \<Rightarrow> ad_store \<Rightarrow> (ad_err + unit) \<times> ad_store" where
  "set_task_state now batchID state errMsg targetID st =
     sbind (updateTaskStateByTarget now batchID targetID state errMsg st) (\<lambda>_ st. (Inr (), st))"

record task_counts =
  tc_Success :: nat
  tc_Failed :: nat
  tc_Timeout :: nat
  tc_Running :: nat
  tc_Pending :: nat

fun count_states :: "string list \<Rightarrow> ad_store \<Rightarrow> task_counts \<Rightarrow> ad_err + task_counts" where
  "count_states [] st c = Inr c"
| "count_states (taskID # rest) st c = rbind (GetTask taskID st) (\<lambda>task. count_states rest st (case at_State task of
      JSuccess \<Rightarrow> c\<lparr>tc_Success := tc_Success c + 1\<rparr>
    | JFailed \<Rightarrow> c\<lparr>tc_Failed := tc_Failed c + 1\<rparr>
    | JTimeout \<Rightarrow> c\<lparr>tc_Timeout := tc_Timeout c + 1\<rparr>
    | JRunning \<Rightarrow> c\<lparr>tc_Running := tc_Running c + 1\<rparr>
    | JPending \<Rightarrow> c\<lparr>tc_Pending := tc_Pending c + 1\<rparr>))"

definition countBatchTaskStates :: "string \<Rightarrow> ad_store \<Rightarrow> ad_err + task_counts" where
  "countBatchTaskStates batchID st = count_states (ListBatchTasks batchID st) st
     \<lparr>tc_Success = 0, tc_Failed = 0, tc_Timeout = 0, tc_Running = 0, tc_Pending = 0\<rparr>"

definition deriveTerminalBatchState :: "nat \<Rightarrow> nat \<Rightarrow> nat \<Rightarrow> ad_batch_state" where
  "deriveTerminalBatchState successCount failedCount timeoutCount =
     (if failedCount = 0 \<and> timeoutCount = 0 then BDone else if 0 < successCount then BPartial else BFailed)"

section \<open>Ending a batch\<close>

definition with_counts :: "task_counts \<Rightarrow> ad_batch \<Rightarrow> ad_batch" where
  "with_counts c b = b\<lparr>ab_SuccessCount := tc_Success c, ab_FailedCount := tc_Failed c, ab_TimeoutCount := tc_Timeout c\<rparr>"

definition batch_scope :: "ad_batch \<Rightarrow> string" where
  "batch_scope b = BuildBatchScopeKey (BuildFileVersionKey (ab_BizID b) (ab_AppID b) (ab_FilePath b) (ab_FileName b)
     (ab_FileSignature b)) (ab_TargetUser b) (ab_TargetFileDir b)"

definition clear_inflight :: "string \<Rightarrow> ad_store \<Rightarrow> (ad_err + unit) \<times> ad_store" where
  "clear_inflight taskID st = sbind (slift (GetTask taskID st) st) (\<lambda>task st.
     (Inr (), if \<not> isFinalTaskState (at_State task) then st
       else ClearInflightTaskID (BuildFileVersionKey (at_BizID task) (at_AppID task) (at_FilePath task) (at_FileName task)
         (at_FileSignature task)) (BuildInflightTargetKey (at_TargetID task) (at_TargetUser task) (at_TargetFileDir task)) st))"

definition finalizeCompletedBatch :: "ad_batch \<Rightarrow> ad_store \<Rightarrow> (ad_err + unit) \<times> ad_store" where
  "finalizeCompletedBatch batch st =
     sbind (sfor clear_inflight (ListBatchTasks (ab_BatchID batch) st) st) (\<lambda>_ st.
       (Inr (), ClearOpenBatchID (batch_scope batch) (RemoveDueBatchID (ab_BatchID batch) st)))"

definition finalize_task :: "nat \<Rightarrow> ad_job_state \<Rightarrow> string \<Rightarrow> string \<Rightarrow> ad_store \<Rightarrow> (ad_err + unit) \<times> ad_store" where
  "finalize_task now taskState errMsg taskID st = (case GetTask taskID st of
      Inl _ \<Rightarrow> (Inr (), st)
    | Inr task \<Rightarrow> if isFinalTaskState (at_State task) then (Inr (), st)
        else (Inr (), SaveTask (task\<lparr>at_State := taskState, at_ErrMsg := errMsg, at_UpdatedAt := now\<rparr>) st))"

definition finalizeBatchTasks :: "nat \<Rightarrow> string \<Rightarrow> ad_job_state \<Rightarrow> string \<Rightarrow> ad_store \<Rightarrow> (ad_err + unit) \<times> ad_store" where
  "finalizeBatchTasks now batchID taskState errMsg st =
     sfor (finalize_task now taskState errMsg) (ListBatchTasks batchID st) st"

definition FinalizeBatchTasks :: "nat \<Rightarrow> string \<Rightarrow> ad_batch_state \<Rightarrow> ad_store \<Rightarrow> (ad_err + unit) \<times> ad_store" where
  "FinalizeBatchTasks now batchID batchState st =
     (if batchState = BFailed then finalizeBatchTasks now batchID JFailed ''batch_failed'' st
      else finalizeBatchTasks now batchID JFailed ''orphan_after_dispatch_cutoff'' st)"

definition FinalizeTimeoutBatchTasks :: "nat \<Rightarrow> string \<Rightarrow> ad_store \<Rightarrow> (ad_err + unit) \<times> ad_store" where
  "FinalizeTimeoutBatchTasks now batchID st = finalizeBatchTasks now batchID JTimeout ''dispatch_timeout'' st"

definition RepairTerminalBatch :: "nat \<Rightarrow> string \<Rightarrow> ad_batch_state \<Rightarrow> ad_store \<Rightarrow> (ad_err + unit) \<times> ad_store" where
  "RepairTerminalBatch now batchID batchState st =
     sbind (slift (GetBatch batchID st) st) (\<lambda>batch st.
     sbind (FinalizeBatchTasks now batchID batchState st) (\<lambda>_ st.
     sbind (slift (countBatchTaskStates batchID st) st) (\<lambda>c st.
       (let batch' = with_counts c (batch\<lparr>ab_State := batchState,
              ab_FinalReason := (if batchState = BFailed then ''batch_failed'' else ''orphan_after_dispatch_cutoff'')\<rparr>) in
        finalizeCompletedBatch batch' (SaveBatch batch' st)))))"

definition timed_out_batch :: "task_counts \<Rightarrow> ad_batch \<Rightarrow> ad_batch" where
  "timed_out_batch c batch = with_counts c (batch
     \<lparr>ab_State := deriveTerminalBatchState (tc_Success c) (tc_Failed c) (tc_Timeout c), ab_FinalReason := ''dispatch_timeout''\<rparr>)"

definition RepairTimeoutBatch :: "nat \<Rightarrow> string \<Rightarrow> ad_store \<Rightarrow> (ad_err + unit) \<times> ad_store" where
  "RepairTimeoutBatch now batchID st =
     sbind (slift (GetBatch batchID st) st) (\<lambda>batch st.
     sbind (FinalizeTimeoutBatchTasks now batchID st) (\<lambda>_ st.
     sbind (slift (countBatchTaskStates batchID st) st) (\<lambda>c st.
       (let batch' = timed_out_batch c batch in finalizeCompletedBatch batch' (SaveBatch batch' st)))))"

text \<open>The requests to end the transfers of the targets that are not finished, by transfer.\<close>

definition terminateBatchDispatches :: "bool \<Rightarrow> ad_batch \<Rightarrow> ad_store \<Rightarrow> (string \<times> (string \<times> string \<times> string) list) list" where
  "terminateBatchDispatches hasService batch st =
     (if \<not> hasService then []
      else fold (\<lambda>(targetID, gseTaskID) groups.
        (if gseTaskID = [] \<or> gseTaskID = ''local'' then groups
         else
           (let taskID = get_string (ListBatchTargetTasks (ab_BatchID batch) st) targetID in
            if taskID = [] then groups
            else (case GetTask taskID st of
                Inl _ \<Rightarrow> groups
              | Inr task \<Rightarrow>
                  if isFinalTaskState (at_State task) then groups
                  else (let (agentID, containerID) = ParseTargetID targetID;
                            agents = (case map_of groups gseTaskID of None \<Rightarrow> [] | Some l \<Rightarrow> l) in
                    AList.update gseTaskID (agents @ [(at_TargetUser task, agentID, containerID)]) groups)))))
       (ListBatchDispatchState (ab_BatchID batch) st) [])"

section \<open>Dispatching a batch\<close>

record gse_result =
  gr_Type :: string
  gr_DestAgentID :: string
  gr_DestContainerID :: string
  gr_ErrorCode :: int
  gr_ErrorMsg :: string

text \<open>
  The surroundings of the scheduler: \<open>ge_Prepare\<close> tells whether the source file of a batch is there,
  \<open>ge_Transfer\<close> starts a transfer to targets, \<open>ge_Result\<close> asks for the results of one.
\<close>

record gse_env =
  ge_Service :: bool
  ge_Source :: bool
  ge_Instance :: string
  ge_Prepare :: "ad_batch \<Rightarrow> bool"
  ge_Transfer :: "ad_batch \<Rightarrow> string list \<Rightarrow> string + string"
  ge_Result :: "string \<Rightarrow> gse_result list option"

function splitTargets :: "string list \<Rightarrow> int \<Rightarrow> string list list" where
  "splitTargets targets shardSize =
     (if targets = [] then []
      else (let n = (if shardSize \<le> 0 then length targets else nat shardSize) in
        take n targets # splitTargets (drop n targets) (int n)))"
  by pat_completeness auto
termination by (relation "measure (\<lambda>(targets, _). length targets)") (auto simp: Let_def)

declare splitTargets.simps [simp del]

definition dispatchShard ::
  "gse_env \<Rightarrow> nat \<Rightarrow> ad_batch \<Rightarrow> string list \<Rightarrow> ad_store \<Rightarrow> (string \<times> string) list \<times> ad_store" where
  "dispatchShard env now batch targetIDs st =
     (let run = (\<lambda>state err mapping. case sfor (set_task_state now (ab_BatchID batch) state err) targetIDs st of
            (Inl _, st') \<Rightarrow> ([], st') | (Inr _, st') \<Rightarrow> (mapping, st')) in
      if targetIDs = [] then ([], st)
      else if \<not> ge_Service env \<or> \<not> ge_Source env then run JRunning [] (map (\<lambda>t. (t, ''local'')) targetIDs)
      else if \<not> ge_Prepare env batch then ([], st)
      else (case ge_Transfer env batch targetIDs of
          Inl msg \<Rightarrow> run JFailed msg []
        | Inr gseTaskID \<Rightarrow> run JRunning [] (map (\<lambda>t. (t, gseTaskID)) targetIDs)))"

fun dispatch_shards :: "gse_env \<Rightarrow> nat \<Rightarrow> ad_batch \<Rightarrow> string list list \<Rightarrow> ad_store \<Rightarrow> ad_store" where
  "dispatch_shards env now batch [] st = st"
| "dispatch_shards env now batch (shard # rest) st =
     (let (mapping, st1) = dispatchShard env now batch shard st in
      dispatch_shards env now batch rest (RecordBatchDispatch (ab_BatchID batch) mapping st1))"

text \<open>The batch when its dispatch begins.\<close>

definition dispatched_batch :: "ad_config \<Rightarrow> gse_env \<Rightarrow> nat \<Rightarrow> ad_batch \<Rightarrow> ad_batch" where
  "dispatched_batch cfg env now batch =
     batch\<lparr>ab_State := BDispatching, ab_DispatchStartedAt := Some now, ab_DispatchOwner := ge_Instance env,
       ab_DispatchHeartbeatAt := Some now, ab_DispatchLeaseUntil := Some (now + seconds (ac_DispatchLeaseSeconds cfg)),
       ab_DispatchAttempt := ab_DispatchAttempt batch + 1, ab_OpenUntil := None\<rparr>"

definition ProcessBatch :: "ad_config \<Rightarrow> gse_env \<Rightarrow> nat \<Rightarrow> string \<Rightarrow> ad_store \<Rightarrow> (ad_err + unit) \<times> ad_store" where
  "ProcessBatch cfg env now batchID st = (case GetBatch batchID st of
      Inl e \<Rightarrow> (Inl e, st)
    | Inr batch \<Rightarrow>
        if ab_State batch \<noteq> BCollecting then (Inr (), st)
        else
          (let batch1 = dispatched_batch cfg env now batch;
               st1 = ClearOpenBatchID (batch_scope batch1) (SaveBatch batch1 st);
               shards = splitTargets (ListBatchTargets batchID st1) (ac_ShardSize cfg);
               batch2 = batch1\<lparr>ab_ShardCount := length shards\<rparr> in
           (Inr (), dispatch_shards env now batch2 shards (SaveBatch batch2 st1))))"

section \<open>Following the transfers\<close>

text \<open>Whether a task changed its state, and whether a transfer is still running.\<close>

type_synonym refresh_signal = "bool \<times> bool"

fun gather :: "('a \<Rightarrow> ad_store \<Rightarrow> (ad_err + refresh_signal) \<times> ad_store) \<Rightarrow> 'a list \<Rightarrow> refresh_signal \<Rightarrow> ad_store
    \<Rightarrow> (ad_err + refresh_signal) \<times> ad_store" where
  "gather f [] sig st = (Inr sig, st)"
| "gather f (x # xs) sig st = sbind (f x st) (\<lambda>s. gather f xs (fst sig \<or> fst s, snd sig \<or> snd s))"

definition collectDispatchTaskIDs :: "(string \<times> string) list \<Rightarrow> string list" where
  "collectDispatchTaskIDs dispatchState =
     sort_strings (dedup_from [] (filter (\<lambda>g. g \<noteq> [] \<and> g \<noteq> ''local'') (map snd dispatchState)))"

definition applyUploadDispatchResult ::
  "nat \<Rightarrow> string \<Rightarrow> (string \<times> string) list \<Rightarrow> string \<Rightarrow> gse_result \<Rightarrow> ad_store \<Rightarrow> (ad_err + refresh_signal) \<times> ad_store" where
  "applyUploadDispatchResult now batchID dispatchState gseTaskID result st =
     (if gr_ErrorCode result = 0 \<or> gr_ErrorCode result = 115 then (Inr (False, gr_ErrorCode result = 115), st)
      else gather (\<lambda>(targetID, mappedTaskID) st.
        if mappedTaskID \<noteq> gseTaskID then (Inr (False, False), st)
        else sbind (updateTaskStateByTarget now batchID targetID JFailed (gr_ErrorMsg result) st)
          (\<lambda>changed st. (Inr (changed, False), st))) dispatchState (False, False) st)"

definition applyDispatchResult ::
  "nat \<Rightarrow> string \<Rightarrow> (string \<times> string) list \<Rightarrow> string \<Rightarrow> gse_result \<Rightarrow> ad_store \<Rightarrow> (ad_err + refresh_signal) \<times> ad_store" where
  "applyDispatchResult now batchID dispatchState gseTaskID result st =
     (if gr_Type result = ''upload'' then applyUploadDispatchResult now batchID dispatchState gseTaskID result st
      else
        (let targetID = BuildTargetID (gr_DestAgentID result) (gr_DestContainerID result) in
         if get_string dispatchState targetID \<noteq> gseTaskID then (Inr (False, False), st)
         else if gr_ErrorCode result = 0 then
           sbind (updateTaskStateByTarget now batchID targetID JSuccess [] st) (\<lambda>changed st. (Inr (changed, False), st))
         else if gr_ErrorCode result = 115 then
           sbind (updateTaskStateByTarget now batchID targetID JRunning [] st) (\<lambda>changed st. (Inr (changed, True), st))
         else sbind (updateTaskStateByTarget now batchID targetID JFailed (gr_ErrorMsg result) st)
           (\<lambda>changed st. (Inr (changed, False), st))))"

definition refreshGSETaskProgress ::
  "gse_env \<Rightarrow> nat \<Rightarrow> string \<Rightarrow> (string \<times> string) list \<Rightarrow> string \<Rightarrow> ad_store \<Rightarrow> (ad_err + refresh_signal) \<times> ad_store" where
  "refreshGSETaskProgress env now batchID dispatchState gseTaskID st = (case ge_Result env gseTaskID of
      None \<Rightarrow> (Inr (False, False), st)
    | Some results \<Rightarrow> gather (applyDispatchResult now batchID dispatchState gseTaskID) results (False, False) st)"

definition renewed_batch :: "ad_config \<Rightarrow> nat \<Rightarrow> ad_batch \<Rightarrow> ad_batch" where
  "renewed_batch cfg now batch = batch\<lparr>ab_DispatchHeartbeatAt := Some now,
     ab_DispatchLeaseUntil := Some (now + seconds (ac_DispatchLeaseSeconds cfg))\<rparr>"

definition refreshDispatchProgress ::
  "ad_config \<Rightarrow> gse_env \<Rightarrow> nat \<Rightarrow> ad_batch \<Rightarrow> (string \<times> string) list \<Rightarrow> ad_store \<Rightarrow> (ad_err + ad_batch) \<times> ad_store" where
  "refreshDispatchProgress cfg env now batch dispatchState st =
     (if \<not> ge_Service env then (Inr batch, st)
      else sbind (gather (refreshGSETaskProgress env now (ab_BatchID batch) dispatchState)
          (collectDispatchTaskIDs dispatchState) (False, False) st) (\<lambda>sig st.
        (Inr (if fst sig \<or> snd sig then renewed_batch cfg now batch else batch), st)))"

definition hasDispatchExceededMaxDuration :: "nat \<Rightarrow> ad_batch \<Rightarrow> bool" where
  "hasDispatchExceededMaxDuration now batch =
     (case ab_DispatchStartedAt batch of None \<Rightarrow> False | Some t \<Rightarrow> seconds (20 * 60) < now - t)"

definition completed_batch :: "task_counts \<Rightarrow> ad_batch \<Rightarrow> ad_batch" where
  "completed_batch c batch = (with_counts c batch)
     \<lparr>ab_State := deriveTerminalBatchState (tc_Success c) (tc_Failed c) (tc_Timeout c)\<rparr>"

definition refreshDispatchingBatch :: "ad_config \<Rightarrow> gse_env \<Rightarrow> nat \<Rightarrow> string \<Rightarrow> ad_store \<Rightarrow> (ad_err + unit) \<times> ad_store" where
  "refreshDispatchingBatch cfg env now batchID st =
     sbind (slift (GetBatch batchID st) st) (\<lambda>batch st.
     if ab_State batch \<noteq> BDispatching then (Inr (), st)
     else
       sbind (refreshDispatchProgress cfg env now batch (ListBatchDispatchState batchID st) st) (\<lambda>batch st.
       sbind (slift (countBatchTaskStates batchID st) st) (\<lambda>c st.
         (let batch1 = with_counts c batch in
          if tc_Running c = 0 \<and> tc_Pending c = 0 then
            (let batch2 = completed_batch c batch in finalizeCompletedBatch batch2 (SaveBatch batch2 st))
          else if hasDispatchExceededMaxDuration now batch1 then RepairTimeoutBatch now batchID st
          else if (case ab_DispatchLeaseUntil batch of None \<Rightarrow> False | Some t \<Rightarrow> t < now) then RepairTimeoutBatch now batchID st
          else (Inr (), SaveBatch batch1 st)))))"

definition refreshDispatchingBatches :: "ad_config \<Rightarrow> gse_env \<Rightarrow> nat \<Rightarrow> ad_store \<Rightarrow> (ad_err + unit) \<times> ad_store" where
  "refreshDispatchingBatches cfg env now st = sfor (refreshDispatchingBatch cfg env now) (ListDispatchingBatchIDs st) st"

definition ProcessDueBatches :: "ad_config \<Rightarrow> gse_env \<Rightarrow> nat \<Rightarrow> ad_store \<Rightarrow> (ad_err + unit) \<times> ad_store" where
  "ProcessDueBatches cfg env now st =
     refreshDispatchingBatches cfg env now
       (fold (\<lambda>batchID st. snd (ProcessBatch cfg env now batchID st))
         (ListDueBatchIDs now (ac_MaxDueBatchesPerTick cfg) st) st)"

end
