(* ===== verification/AsyncProps.thy ===== *)
theory AsyncProps
  imports AsyncSched Transition
begin

text \<open>
  What the asynchronous downloads guarantee: the bookkeeping of batches and tasks in every reachable
  store, the end of every dispatched batch, and where concurrent or lost data break them.
\<close>

section \<open>Changing the states of tasks\<close>

definition keyed :: "ad_store \<Rightarrow> bool" where
  "keyed st \<longleftrightarrow> (\<forall>k t. map_of (ad_Tasks st) k = Some t \<longrightarrow> at_TaskID t = k)
     \<and> (\<forall>k b. map_of (ad_Batches st) k = Some b \<longrightarrow> ab_BatchID b = k)"

definition targets :: "ad_store \<Rightarrow> string \<Rightarrow> (string \<times> string) list" where
  "targets st B = HGetAll (ad_Targets st) B"

definition moved :: "ad_task \<Rightarrow> ad_task \<Rightarrow> bool" where
  "moved t t' \<longleftrightarrow> t' = t\<lparr>at_State := at_State t', at_ErrMsg := at_ErrMsg t', at_UpdatedAt := at_UpdatedAt t'\<rparr>"

lemma moved_refl [simp]: "moved t t"
  by (simp add: moved_def)

lemma moved_trans: "moved a b \<Longrightarrow> moved b c \<Longrightarrow> moved a c"
  unfolding moved_def by (cases a; cases b; cases c) simp

lemma moved_simps:
  "moved t t' \<Longrightarrow> at_TaskID t' = at_TaskID t" "moved t t' \<Longrightarrow> at_BatchID t' = at_BatchID t"
  "moved t t' \<Longrightarrow> at_TargetID t' = at_TargetID t"
  unfolding moved_def by (cases t; cases t'; simp)+

text \<open>Nothing but the states of tasks of one batch, and what was dispatched, is changed.\<close>

definition touch :: "string \<Rightarrow> ad_store \<Rightarrow> ad_store \<Rightarrow> bool" where
  "touch B st st' \<longleftrightarrow> ad_Batches st' = ad_Batches st \<and> ad_Targets st' = ad_Targets st \<and> ad_TaskTargets st' = ad_TaskTargets st
     \<and> ad_Inflight st' = ad_Inflight st \<and> ad_Open st' = ad_Open st \<and> ad_Due st' = ad_Due st
     \<and> (\<forall>k. case map_of (ad_Tasks st) k of None \<Rightarrow> map_of (ad_Tasks st') k = None
          | Some t \<Rightarrow> (\<exists>t'. map_of (ad_Tasks st') k = Some t' \<and> moved t t' \<and> (k \<in> snd ` set (targets st B) \<or> t' = t)))"

lemma touch_refl [simp]: "touch B st st"
  by (auto simp: touch_def split: option.splits)

lemma touch_at: "touch B st st' \<Longrightarrow> case map_of (ad_Tasks st) k of None \<Rightarrow> map_of (ad_Tasks st') k = None
    | Some t \<Rightarrow> (\<exists>t'. map_of (ad_Tasks st') k = Some t' \<and> moved t t' \<and> (k \<in> snd ` set (targets st B) \<or> t' = t))"
  by (simp only: touch_def)

lemma touch_task:
  assumes "touch B st st'" "map_of (ad_Tasks st) k = Some t"
  obtains t' where "map_of (ad_Tasks st') k = Some t'" "moved t t'" "k \<in> snd ` set (targets st B) \<or> t' = t"
  using touch_at [OF assms(1), of k] assms(2) that by auto

lemma touch_none: "touch B st st' \<Longrightarrow> map_of (ad_Tasks st) k = None \<Longrightarrow> map_of (ad_Tasks st') k = None"
  using touch_at [of B st st' k] by simp

lemma touch_trans: "touch B st st' \<Longrightarrow> touch B st' st'' \<Longrightarrow> touch B st st''"
proof -
  assume a: "touch B st st'" and b: "touch B st' st''"
  have tg: "targets st' B = targets st B" using a by (simp add: touch_def targets_def)
  have "case map_of (ad_Tasks st) k of None \<Rightarrow> map_of (ad_Tasks st'') k = None
      | Some t \<Rightarrow> (\<exists>t'. map_of (ad_Tasks st'') k = Some t' \<and> moved t t' \<and> (k \<in> snd ` set (targets st B) \<or> t' = t))" for k
  proof (cases "map_of (ad_Tasks st) k")
    case None
    then show ?thesis using touch_none [OF b touch_none [OF a None]] by simp
  next
    case (Some t)
    obtain t' where t': "map_of (ad_Tasks st') k = Some t'" "moved t t'" "k \<in> snd ` set (targets st B) \<or> t' = t"
      by (rule touch_task [OF a Some])
    obtain t'' where t'': "map_of (ad_Tasks st'') k = Some t''" "moved t' t''" "k \<in> snd ` set (targets st' B) \<or> t'' = t'"
      by (rule touch_task [OF b t'(1)])
    show ?thesis using Some t' t'' tg moved_trans [OF t'(2) t''(2)] by auto
  qed
  then show ?thesis using a b by (simp add: touch_def)
qed

lemma touch_keyed: "touch B st st' \<Longrightarrow> keyed st \<Longrightarrow> keyed st'"
proof -
  assume a: "touch B st st'" and k: "keyed st"
  have "at_TaskID t' = i" if "map_of (ad_Tasks st') i = Some t'" for i t'
  proof (cases "map_of (ad_Tasks st) i")
    case None
    then show ?thesis using touch_none [OF a None] that by simp
  next
    case (Some t)
    then obtain t2 where "map_of (ad_Tasks st') i = Some t2" "moved t t2" by (rule touch_task [OF a])
    then show ?thesis using that Some k moved_simps(1) by (auto simp: keyed_def)
  qed
  then show ?thesis using a k by (simp add: keyed_def touch_def)
qed

lemma save_moved:
  assumes "keyed st" "map_of (ad_Tasks st) k = Some t" "k \<in> snd ` set (targets st B)" "moved t t'"
  shows "touch B st (SaveTask t' st)"
proof -
  have "at_TaskID t' = k" using assms moved_simps(1) by (auto simp: keyed_def)
  then show ?thesis using assms by (auto simp: touch_def SaveTask_def targets_def split: option.splits)
qed

lemma get_string_in: "get_string m k \<noteq> [] \<Longrightarrow> (k, get_string m k) \<in> set m"
  by (auto simp: get_string_def split: option.splits dest: map_of_SomeD)

lemma update_touch: "keyed st \<Longrightarrow> touch B st (snd (updateTaskStateByTarget now B tg s e st))"
proof (cases "GetBatchTaskID B tg st = []")
  case False
  assume k: "keyed st"
  have i: "GetBatchTaskID B tg st \<in> snd ` set (targets st B)"
    using get_string_in [of "HGetAll (ad_Targets st) B" tg] False by (force simp: GetBatchTaskID_def targets_def)
  show ?thesis
  proof (cases "map_of (ad_Tasks st) (GetBatchTaskID B tg st)")
    case (Some t)
    have "moved t (t\<lparr>at_State := s, at_ErrMsg := e, at_UpdatedAt := now\<rparr>)" by (simp add: moved_def)
    from save_moved [OF k Some i this] show ?thesis
      by (simp add: updateTaskStateByTarget_def Let_def GetTask_def Some)
  qed (simp add: updateTaskStateByTarget_def Let_def GetTask_def)
qed (simp add: updateTaskStateByTarget_def Let_def)

lemma sbind_snd: "snd (sbind r k) = (case fst r of Inl _ \<Rightarrow> snd r | Inr x \<Rightarrow> snd (k x (snd r)))"
  by (cases r) (simp add: sbind_def split: sum.splits)

lemma set_state_touch: "keyed st \<Longrightarrow> touch B st (snd (set_task_state now B s e tg st))"
  using update_touch by (simp add: set_task_state_def sbind_snd split: sum.splits)

lemma sfor_touch:
  assumes "\<And>x st. keyed st \<Longrightarrow> x \<in> set xs \<Longrightarrow> touch B st (snd (f x st))" "keyed st"
  shows "touch B st (snd (sfor f xs st))"
proof -
  have "keyed (snd (sfor f xs st)) \<and> touch B st (snd (sfor f xs st))"
  proof (rule sfor_inv)
    show "keyed st \<and> touch B st st" using assms(2) by simp
    fix x s assume "x \<in> set xs" "keyed s \<and> touch B st s"
    then show "keyed (snd (f x s)) \<and> touch B st (snd (f x s))"
      using assms(1) [of s x] touch_keyed touch_trans by blast
  qed
  then show ?thesis ..
qed

lemma gather_touch:
  assumes "\<And>x st. keyed st \<Longrightarrow> touch B st (snd (f x st))" "keyed st"
  shows "touch B st (snd (gather f xs sig st))"
  using assms(2)
proof (induction xs arbitrary: sig st)
  case (Cons x xs)
  obtain r st1 where f: "f x st = (r, st1)" by fastforce
  have t: "touch B st st1" using assms(1) [OF Cons.prems, of x] f by simp
  show ?case using f t touch_trans [OF t Cons.IH [OF touch_keyed [OF t Cons.prems]]] by (cases r) auto
qed simp

lemma dispatched_touch: "touch B st st' \<Longrightarrow> touch B st (st'\<lparr>ad_Dispatched := d\<rparr>)"
  by (simp add: touch_def cong: option.case_cong)

lemma dispatchShard_touch: "keyed st \<Longrightarrow> touch (ab_BatchID b) st (snd (dispatchShard env now b tgs st))"
  using sfor_touch [where f = "set_task_state now (ab_BatchID b) s e" for s e, OF set_state_touch]
  by (auto simp: dispatchShard_def Let_def split: prod.splits sum.splits) (metis snd_conv)+

lemma dispatch_shards_touch: "keyed st \<Longrightarrow> touch (ab_BatchID b) st (dispatch_shards env now b shards st)"
proof (induction shards arbitrary: st)
  case (Cons shard rest)
  obtain m st1 where d: "dispatchShard env now b shard st = (m, st1)" by fastforce
  have "touch (ab_BatchID b) st st1" using dispatchShard_touch [OF Cons.prems, of b env now shard] d by simp
  then have t: "touch (ab_BatchID b) st (RecordBatchDispatch (ab_BatchID b) m st1)"
    by (simp add: RecordBatchDispatch_def dispatched_touch)
  show ?case using d touch_trans [OF t Cons.IH [OF touch_keyed [OF t Cons.prems]]] by simp
qed simp

lemma applyUpload_touch: "keyed st \<Longrightarrow> touch B st (snd (applyUploadDispatchResult now B ds g r st))"
  unfolding applyUploadDispatchResult_def
  by (auto intro!: gather_touch simp: sbind_snd update_touch split: sum.splits prod.splits)

lemma applyResult_touch: "keyed st \<Longrightarrow> touch B st (snd (applyDispatchResult now B ds g r st))"
  unfolding applyDispatchResult_def
  by (auto simp: Let_def sbind_snd applyUpload_touch update_touch split: sum.splits)

lemma refreshGSE_touch: "keyed st \<Longrightarrow> touch B st (snd (refreshGSETaskProgress env now B ds g st))"
  unfolding refreshGSETaskProgress_def by (auto intro!: gather_touch simp: applyResult_touch split: option.splits)

lemma refreshProgress_touch: "keyed st \<Longrightarrow> touch (ab_BatchID b) st (snd (refreshDispatchProgress cfg env now b ds st))"
  unfolding refreshDispatchProgress_def renewed_batch_def
  by (auto simp: sbind_snd split: sum.splits intro!: gather_touch refreshGSE_touch)

section \<open>A join that writes late\<close>

text \<open>
  C22: A task that joins a batch writes the batch as it read it. When the scheduler dispatches the batch
  between this read and the write, the write makes the batch collect again, in the list of due batches
  and with the attempt not counted: it is dispatched a second time with the targets it already had.
\<close>

theorem stale_join_reopens_batch:
  assumes "keyed st" "collecting_batch now B st = Some b"
    and "ProcessBatch cfg env now' B st = (r, st1)" "join_batch cfg now tuuid rq b st1 = (taskID, st2)"
  shows "\<exists>b2. GetBatch B st2 = Inr b2 \<and> ab_State b2 = BCollecting \<and> ab_DispatchAttempt b2 = ab_DispatchAttempt b
    \<and> map_of (ad_Due st2) B = Some (unix_seconds (now + seconds (ac_CollectWindowSeconds cfg)))
    \<and> set (ListBatchTargets B st2) = insert (target_of rq) (set (ListBatchTargets B st))"
proof -
  have gb: "GetBatch B st = Inr b" "ab_State b = BCollecting"
    using assms(2) by (auto simp: collecting_batch_def split: if_splits sum.splits)
  have id: "ab_BatchID b = B" using gb(1) assms(1) by (auto simp: GetBatch_def keyed_def split: option.splits)
  obtain b1 shards s1 where st1: "st1 = dispatch_shards env now' b1 shards s1" and k: "keyed s1" "ad_Targets s1 = ad_Targets st" "ab_BatchID b1 = B"
  proof -
    let ?b = "b\<lparr>ab_State := BDispatching, ab_DispatchStartedAt := Some now', ab_DispatchOwner := ge_Instance env,
      ab_DispatchHeartbeatAt := Some now', ab_DispatchLeaseUntil := Some (now' + seconds (ac_DispatchLeaseSeconds cfg)),
      ab_DispatchAttempt := ab_DispatchAttempt b + 1, ab_OpenUntil := None\<rparr>"
    let ?s = "ClearOpenBatchID (batch_scope ?b) (SaveBatch ?b st)"
    let ?sh = "splitTargets (ListBatchTargets B ?s) (ac_ShardSize cfg)"
    let ?b2 = "?b\<lparr>ab_ShardCount := length ?sh\<rparr>"
    have "st1 = dispatch_shards env now' ?b2 ?sh (SaveBatch ?b2 ?s)"
      using assms(3) gb by (simp add: ProcessBatch_def dispatched_batch_def Let_def)
    moreover have "keyed (SaveBatch ?b2 ?s)"
      using assms(1) id by (simp add: keyed_def SaveBatch_def ClearOpenBatchID_def)
    moreover have "ad_Targets (SaveBatch ?b2 ?s) = ad_Targets st" by (simp add: SaveBatch_def ClearOpenBatchID_def)
    ultimately show thesis using that id by simp
  qed
  have "touch B s1 st1" using dispatch_shards_touch [OF k(1), of b1 env now' shards] st1 k(3) by simp
  then have tg: "ad_Targets st1 = ad_Targets st" using k(2) by (simp add: touch_def)
  show ?thesis using assms(4) gb(2) id tg
    by (auto simp: join_batch_def joined_batch_def Let_def AddTaskToBatch_def SaveTask_def SaveBatch_def ClearOpenBatchID_def GetBatch_def
        ListBatchTargets_def HGetAll_HSets_one dom_update split: if_splits)
qed

section \<open>Requests that are repeated\<close>

text \<open>
  A request that created a task gets the same task again, at any later time and whatever else it
  would create, as long as the task is not finished; nothing is written then.
\<close>

theorem repeated_request_same_task:
  assumes "CreateTask cfg now buuid tuuid rq st = (taskID, st1)" "taskID = ''AsyncDownloadTaskV2:'' @ tuuid"
    and "map_of (ad_Tasks st) taskID = None" "\<forall>B tg. GetBatchTaskID B tg st \<noteq> taskID"
  shows "CreateTask cfg' now' buuid' tuuid' rq st1 = (taskID, st1)"
proof -
  let ?it = "BuildInflightTargetKey (target_of rq) (rq_User rq) (rq_Dir rq)"
  have none: "tryReuseInflightTask (file_version rq) ?it s = (t, s') \<Longrightarrow> ad_Tasks s = ad_Tasks st
      \<Longrightarrow> t \<noteq> taskID \<and> ad_Tasks s' = ad_Tasks st \<and> ad_Targets s' = ad_Targets s" for s t s'
    using assms(2,3) by (auto simp: tryReuseInflightTask_def Let_def GetTask_def ClearInflightTaskID_def split: if_splits option.splits sum.splits)
  have new: "tryReuseInflightTask (file_version rq) ?it st1 = (taskID, st1)"
    if "GetInflightTaskID (file_version rq) ?it st1 = taskID" "\<exists>t. GetTask taskID st1 = Inr t \<and> at_State t = JPending"
    using that assms(2) by (auto simp: tryReuseInflightTask_def Let_def isFinalTaskState_def)
  have jn: "join_batch cfg now tuuid rq b s = (taskID, st1) \<Longrightarrow> ?thesis" for b s
    using assms(2) new by (auto simp: CreateTask_def join_batch_def joined_batch_def Let_def AddTaskToBatch_def SaveTask_def newV2Task_def ClearOpenBatchID_def
        GetInflightTaskID_def get_string_def GetTask_def split: if_splits)
  have cr: "create_batch cfg now buuid tuuid rq s = (taskID, st1) \<Longrightarrow> ?thesis" for s
    using assms(2) new by (auto simp: CreateTask_def create_batch_def Let_def CreateBatchAndTask_def SaveTask_def newV2Task_def
        GetInflightTaskID_def get_string_def GetTask_def)
  obtain t1 s1 where r1: "tryReuseInflightTask (file_version rq) ?it st = (t1, s1)" by fastforce
  obtain t2 s2 where r2: "tryReuseInflightTask (file_version rq) ?it s1 = (t2, s2)" by fastforce
  have s1: "t1 \<noteq> taskID" "ad_Tasks s1 = ad_Tasks st" "ad_Targets s1 = ad_Targets st" using none [OF r1] by auto
  then have s2: "t2 \<noteq> taskID" "ad_Tasks s2 = ad_Tasks st" "ad_Targets s2 = ad_Targets st" using none [OF r2] by auto
  have "GetBatchTaskID B tg s2 \<noteq> taskID" for B tg using assms(4) s2(3) by (simp add: GetBatchTaskID_def)
  with s1 s2 show ?thesis
    using assms(1) r1 r2 jn cr
    by (auto simp: CreateTask_def createOrJoinBatch_def Let_def split: if_splits option.splits)
qed

section \<open>The end of a batch\<close>

definition task_ids :: "ad_store \<Rightarrow> string \<Rightarrow> string list" where
  "task_ids st B = map fst (HGetAll (ad_TaskTargets st) B)"

text \<open>All tasks of the batch are in the store.\<close>

definition present :: "ad_store \<Rightarrow> string \<Rightarrow> bool" where
  "present st B \<longleftrightarrow> (\<forall>k \<in> snd ` set (targets st B). map_of (ad_Tasks st) k \<noteq> None)
     \<and> set (task_ids st B) \<subseteq> snd ` set (targets st B)"

definition final_task :: "ad_store \<Rightarrow> string \<Rightarrow> bool" where
  "final_task st k \<longleftrightarrow> (\<exists>t. map_of (ad_Tasks st) k = Some t \<and> isFinalTaskState (at_State t))"

lemma set_ListBatchTasks: "set (ListBatchTasks B st) = set (task_ids st B)"
  by (simp add: ListBatchTasks_def task_ids_def)

lemma touch_present: "touch B st st' \<Longrightarrow> present st B \<Longrightarrow> present st' B"
proof -
  assume a: "touch B st st'" and p: "present st B"
  have "map_of (ad_Tasks st') k \<noteq> None" if "map_of (ad_Tasks st) k = Some t" for k t
    by (rule touch_task [OF a that]) simp
  moreover have "targets st' B = targets st B" "task_ids st' B = task_ids st B" using a by (simp_all add: touch_def targets_def task_ids_def)
  ultimately show ?thesis using p unfolding present_def by (metis option.exhaust)
qed

lemma present_task: "present st B \<Longrightarrow> k \<in> set (task_ids st B) \<Longrightarrow> \<exists>t. map_of (ad_Tasks st) k = Some t"
  by (auto simp: present_def)

lemma update_ok: "present st B \<Longrightarrow> is_ok (fst (updateTaskStateByTarget now B tg s e st))"
proof (cases "GetBatchTaskID B tg st = []")
  case False
  assume "present st B"
  moreover have "GetBatchTaskID B tg st \<in> snd ` set (targets st B)"
    using get_string_in [of "HGetAll (ad_Targets st) B" tg] False by (force simp: GetBatchTaskID_def targets_def)
  ultimately have "map_of (ad_Tasks st) (GetBatchTaskID B tg st) \<noteq> None" by (auto simp: present_def)
  then show ?thesis by (auto simp: updateTaskStateByTarget_def Let_def GetTask_def split: if_splits)
qed (simp add: updateTaskStateByTarget_def)

lemma sbind_ok: "is_ok (fst r) \<Longrightarrow> (\<And>x. is_ok (fst (k x (snd r)))) \<Longrightarrow> is_ok (fst (sbind r k))"
  by (cases r; cases "fst r") (auto simp: sbind_def)

lemma gather_ok:
  assumes "\<And>x st. keyed st \<Longrightarrow> present st B \<Longrightarrow> is_ok (fst (f x st)) \<and> touch B st (snd (f x st))" "keyed st" "present st B"
  shows "is_ok (fst (gather f xs sig st))"
  using assms(2,3)
proof (induction xs arbitrary: sig st)
  case (Cons x xs)
  have s: "is_ok (fst (f x st))" "touch B st (snd (f x st))" using assms(1) [OF Cons.prems, of x] by auto
  have "keyed (snd (f x st))" "present (snd (f x st)) B" using touch_keyed [OF s(2)] touch_present [OF s(2)] Cons.prems by auto
  then show ?case using s(1) Cons.IH by (simp add: sbind_ok)
qed simp

lemma applyUpload_ok:
  assumes "keyed st" "present st B"
  shows "is_ok (fst (applyUploadDispatchResult now B ds g r st))"
  unfolding applyUploadDispatchResult_def using assms
  by (auto intro!: gather_ok [where B = B] sbind_ok simp: update_ok sbind_snd update_touch split: prod.splits sum.splits)

lemma applyResult_ok:
  assumes "keyed st" "present st B"
  shows "is_ok (fst (applyDispatchResult now B ds g r st))"
  unfolding applyDispatchResult_def using assms by (auto simp: Let_def intro!: applyUpload_ok sbind_ok update_ok)

lemma refreshGSE_ok:
  assumes "keyed st" "present st B"
  shows "is_ok (fst (refreshGSETaskProgress env now B ds g st))"
  unfolding refreshGSETaskProgress_def using assms
  by (auto intro!: gather_ok [where B = B] simp: applyResult_ok applyResult_touch split: option.splits)

lemma refreshProgress_ok:
  assumes "keyed st" "present st (ab_BatchID b)"
  obtains b' st' where "refreshDispatchProgress cfg env now b ds st = (Inr b', st')"
    and "b' = b\<lparr>ab_DispatchHeartbeatAt := ab_DispatchHeartbeatAt b', ab_DispatchLeaseUntil := ab_DispatchLeaseUntil b'\<rparr>"
proof -
  let ?g = "gather (refreshGSETaskProgress env now (ab_BatchID b) ds) (collectDispatchTaskIDs ds) (False, False) st"
  have "is_ok (fst ?g)" using assms by (auto intro!: gather_ok [where B = "ab_BatchID b"] simp: refreshGSE_ok refreshGSE_touch)
  then obtain sig st1 where g: "?g = (Inr sig, st1)" by (cases ?g; cases "fst ?g") auto
  show thesis
    using that by (cases "ge_Service env") (auto simp: refreshDispatchProgress_def renewed_batch_def g)
qed

section \<open>Counting and ending tasks\<close>

definition in_state :: "ad_store \<Rightarrow> ad_job_state \<Rightarrow> string list \<Rightarrow> nat" where
  "in_state st s ks = length (filter (\<lambda>k. map_option at_State (map_of (ad_Tasks st) k) = Some s) ks)"

lemma count_states_ok:
  assumes "\<And>k. k \<in> set ks \<Longrightarrow> map_of (ad_Tasks st) k \<noteq> None"
  shows "count_states ks st c = Inr \<lparr>tc_Success = tc_Success c + in_state st JSuccess ks, tc_Failed = tc_Failed c + in_state st JFailed ks,
    tc_Timeout = tc_Timeout c + in_state st JTimeout ks, tc_Running = tc_Running c + in_state st JRunning ks,
    tc_Pending = tc_Pending c + in_state st JPending ks\<rparr>"
  using assms
proof (induction ks arbitrary: c)
  case (Cons k ks)
  obtain t where t: "map_of (ad_Tasks st) k = Some t" using Cons.prems [of k] by auto
  have ih: "count_states ks st d = Inr \<lparr>tc_Success = tc_Success d + in_state st JSuccess ks, tc_Failed = tc_Failed d + in_state st JFailed ks,
    tc_Timeout = tc_Timeout d + in_state st JTimeout ks, tc_Running = tc_Running d + in_state st JRunning ks,
    tc_Pending = tc_Pending d + in_state st JPending ks\<rparr>" for d using Cons by simp
  show ?case by (cases "at_State t") (simp_all add: GetTask_def t ih in_state_def)
qed (simp add: in_state_def)

lemma in_state_total:
  assumes "\<And>k. k \<in> set ks \<Longrightarrow> map_of (ad_Tasks st) k \<noteq> None"
  shows "in_state st JSuccess ks + in_state st JFailed ks + in_state st JTimeout ks + in_state st JRunning ks + in_state st JPending ks
    = length ks"
  using assms
proof (induction ks)
  case (Cons k ks)
  obtain t where t: "map_of (ad_Tasks st) k = Some t" using Cons.prems [of k] by auto
  have "in_state st JSuccess ks + in_state st JFailed ks + in_state st JTimeout ks + in_state st JRunning ks + in_state st JPending ks
    = length ks" using Cons by simp
  then show ?case by (cases "at_State t") (simp_all add: in_state_def t)
qed (simp add: in_state_def)

lemma all_final:
  assumes "\<And>k. k \<in> set ks \<Longrightarrow> map_of (ad_Tasks st) k \<noteq> None"
  shows "in_state st JRunning ks = 0 \<and> in_state st JPending ks = 0 \<longleftrightarrow> (\<forall>k \<in> set ks. final_task st k)"
proof -
  have "final_task st k \<longleftrightarrow> map_option at_State (map_of (ad_Tasks st) k) \<noteq> Some JRunning \<and> map_option at_State (map_of (ad_Tasks st) k) \<noteq> Some JPending"
    if "k \<in> set ks" for k
    using assms [OF that] by (auto simp: final_task_def isFinalTaskState_def) (metis ad_job_state.exhaust)
  then show ?thesis by (auto simp: in_state_def filter_empty_conv)
qed

lemma finalize_one:
  assumes "keyed st" "map_of (ad_Tasks st) k \<noteq> None" "k \<in> snd ` set (targets st B)" "isFinalTaskState s"
  shows "fst (finalize_task now s e k st) = Inr ()" "touch B st (snd (finalize_task now s e k st))"
    and "final_task (snd (finalize_task now s e k st)) k"
    and "final_task st j \<Longrightarrow> final_task (snd (finalize_task now s e k st)) j"
proof -
  obtain t where t: "map_of (ad_Tasks st) k = Some t" "at_TaskID t = k" using assms(1,2) by (auto simp: keyed_def)
  have "moved t (t\<lparr>at_State := s, at_ErrMsg := e, at_UpdatedAt := now\<rparr>)" by (simp add: moved_def)
  note m = save_moved [OF assms(1) t(1) assms(3) this]
  show "fst (finalize_task now s e k st) = Inr ()" by (simp add: finalize_task_def GetTask_def t)
  show "touch B st (snd (finalize_task now s e k st))" using m by (simp add: finalize_task_def GetTask_def t)
  show "final_task (snd (finalize_task now s e k st)) k"
    using assms(4) t by (simp add: finalize_task_def GetTask_def final_task_def SaveTask_def)
  show "final_task st j \<Longrightarrow> final_task (snd (finalize_task now s e k st)) j"
    using assms(4) t by (auto simp: finalize_task_def GetTask_def final_task_def SaveTask_def)
qed

lemma finalize_all:
  assumes "keyed st" "set ks \<subseteq> snd ` set (targets st B)" "present st B" "isFinalTaskState s"
  shows "\<exists>st'. sfor (finalize_task now s e) ks st = (Inr (), st') \<and> touch B st st' \<and> (\<forall>k \<in> set ks. final_task st' k)
    \<and> (\<forall>j. final_task st j \<longrightarrow> final_task st' j)"
  using assms(1,2,3)
proof (induction ks arbitrary: st)
  case (Cons k ks)
  have p: "map_of (ad_Tasks st) k \<noteq> None" "k \<in> snd ` set (targets st B)" using Cons.prems(2,3) by (auto simp: present_def)
  note one = finalize_one [OF Cons.prems(1) p assms(4)]
  let ?st = "snd (finalize_task now s e k st)"
  note one = one [where now = now and e = e]
  have tg: "targets ?st B = targets st B" using one(2) by (simp add: touch_def targets_def)
  obtain st' where st': "sfor (finalize_task now s e) ks ?st = (Inr (), st')" "touch B ?st st'" "\<forall>k \<in> set ks. final_task st' k"
    "\<forall>j. final_task ?st j \<longrightarrow> final_task st' j"
    using Cons.IH [of ?st] touch_keyed [OF one(2) Cons.prems(1)] touch_present [OF one(2) Cons.prems(3)] Cons.prems(2) tg by auto
  have "sfor (finalize_task now s e) (k # ks) st = (Inr (), st')" using st'(1) one(1) by (simp add: sbind_def case_prod_unfold)
  then show ?case using st' touch_trans [OF one(2) st'(2)] one(3,4) by auto
qed auto

lemma clear_inflight_ok:
  assumes "map_of (ad_Tasks st) k \<noteq> None"
  shows "\<exists>st'. clear_inflight k st = (Inr (), st') \<and> ad_Tasks st' = ad_Tasks st \<and> ad_Batches st' = ad_Batches st
    \<and> ad_Targets st' = ad_Targets st \<and> ad_TaskTargets st' = ad_TaskTargets st \<and> ad_Due st' = ad_Due st \<and> ad_Open st' = ad_Open st"
proof -
  obtain t where "map_of (ad_Tasks st) k = Some t" using assms by blast
  then show ?thesis by (auto simp: clear_inflight_def slift_def GetTask_def ClearInflightTaskID_def)
qed

lemma clear_all_ok:
  assumes "\<forall>k \<in> set ks. map_of (ad_Tasks st) k \<noteq> None"
  shows "\<exists>st'. sfor clear_inflight ks st = (Inr (), st') \<and> ad_Tasks st' = ad_Tasks st \<and> ad_Batches st' = ad_Batches st
    \<and> ad_Targets st' = ad_Targets st \<and> ad_TaskTargets st' = ad_TaskTargets st \<and> ad_Due st' = ad_Due st \<and> ad_Open st' = ad_Open st"
  using assms
proof (induction ks arbitrary: st)
  case (Cons k ks)
  obtain s1 where s1: "clear_inflight k st = (Inr (), s1)" "ad_Tasks s1 = ad_Tasks st" "ad_Batches s1 = ad_Batches st"
    "ad_Targets s1 = ad_Targets st" "ad_TaskTargets s1 = ad_TaskTargets st" "ad_Due s1 = ad_Due st" "ad_Open s1 = ad_Open st"
    using clear_inflight_ok [of st k] Cons.prems by auto
  then have "\<forall>k \<in> set ks. map_of (ad_Tasks s1) k \<noteq> None" using Cons.prems by simp
  from Cons.IH [OF this] s1 show ?case by auto
qed auto

text \<open>
  What is written when a batch ends: its record, in a final state that its counts give, and the keys
  that led to it.
\<close>

definition ended :: "string \<Rightarrow> ad_batch \<Rightarrow> ad_store \<Rightarrow> ad_store \<Rightarrow> bool" where
  "ended B b st st' \<longleftrightarrow> ad_Batches st' = AList.update B b (ad_Batches st) \<and> ad_Tasks st' = ad_Tasks st
     \<and> ad_Targets st' = ad_Targets st \<and> ad_TaskTargets st' = ad_TaskTargets st \<and> ad_Due st' = AList.delete B (ad_Due st)"

lemma end_batch_ok:
  assumes "present st B" "ab_BatchID b = B" "ab_State b \<noteq> BCollecting"
  shows "\<exists>st'. finalizeCompletedBatch b (SaveBatch b st) = (Inr (), st') \<and> ended B b st st'"
proof -
  have due: "ad_Due (SaveBatch b st) = AList.delete B (ad_Due st)" using assms(2,3) by (simp add: SaveBatch_def split: option.splits)
  have sv: "ad_Batches (SaveBatch b st) = AList.update B b (ad_Batches st)" "ad_Tasks (SaveBatch b st) = ad_Tasks st"
    "ad_Targets (SaveBatch b st) = ad_Targets st" "ad_TaskTargets (SaveBatch b st) = ad_TaskTargets st"
    using assms(2) by (simp_all add: SaveBatch_def)
  have "\<forall>k \<in> set (ListBatchTasks B (SaveBatch b st)). map_of (ad_Tasks (SaveBatch b st)) k \<noteq> None"
    using present_task [OF assms(1)] by (simp add: set_ListBatchTasks task_ids_def sv)
  from clear_all_ok [OF this] show ?thesis
    using assms(2) due sv by (auto simp: finalizeCompletedBatch_def ended_def RemoveDueBatchID_def ClearOpenBatchID_def delete_idem)
qed

definition end_state :: "ad_store \<Rightarrow> string \<Rightarrow> ad_batch \<Rightarrow> bool" where
  "end_state st B b \<longleftrightarrow> (\<forall>k \<in> set (task_ids st B). final_task st k)
     \<and> ab_SuccessCount b = in_state st JSuccess (ListBatchTasks B st) \<and> ab_FailedCount b = in_state st JFailed (ListBatchTasks B st)
     \<and> ab_TimeoutCount b = in_state st JTimeout (ListBatchTasks B st)
     \<and> ab_State b = deriveTerminalBatchState (ab_SuccessCount b) (ab_FailedCount b) (ab_TimeoutCount b)"

lemma count_ok:
  assumes "present st B"
  obtains c where "countBatchTaskStates B st = Inr c" "tc_Success c = in_state st JSuccess (ListBatchTasks B st)"
    "tc_Failed c = in_state st JFailed (ListBatchTasks B st)" "tc_Timeout c = in_state st JTimeout (ListBatchTasks B st)"
    "tc_Running c = 0 \<and> tc_Pending c = 0 \<longleftrightarrow> (\<forall>k \<in> set (task_ids st B). final_task st k)"
proof -
  have p: "map_of (ad_Tasks st) k \<noteq> None" if "k \<in> set (ListBatchTasks B st)" for k
    using assms that by (auto simp: set_ListBatchTasks present_def subset_iff)
  note c = count_states_ok [OF p, of "ListBatchTasks B st"]
  show thesis
    using that c all_final [OF p, of "ListBatchTasks B st"] by (simp add: countBatchTaskStates_def set_ListBatchTasks)
qed

lemma derive_terminal: "deriveTerminalBatchState a b c \<in> {BDone, BPartial, BFailed}"
  by (simp add: deriveTerminalBatchState_def)

text \<open>What a batch keeps for its whole life.\<close>

definition same_origin :: "ad_batch \<Rightarrow> ad_batch \<Rightarrow> bool" where
  "same_origin b b' \<longleftrightarrow> ab_BatchID b' = ab_BatchID b \<and> ab_TargetCount b' = ab_TargetCount b \<and> ab_DispatchAttempt b' = ab_DispatchAttempt b
     \<and> ab_DispatchStartedAt b' = ab_DispatchStartedAt b \<and> ab_OpenUntil b' = ab_OpenUntil b"

lemma repair_timeout_ok:
  assumes "keyed st" "present st B" "GetBatch B st = Inr b"
  shows "\<exists>b' st1 st'. RepairTimeoutBatch now B st = (Inr (), st') \<and> touch B st st1 \<and> ended B b' st1 st' \<and> end_state st1 B b' \<and> same_origin b b'"
proof -
  have id: "ab_BatchID b = B" using assms(1,3) by (auto simp: GetBatch_def keyed_def split: option.splits)
  have sub: "set (ListBatchTasks B st) \<subseteq> snd ` set (targets st B)" using assms(2) by (simp add: set_ListBatchTasks present_def)
  obtain st1 where st1: "sfor (finalize_task now JTimeout ''dispatch_timeout'') (ListBatchTasks B st) st = (Inr (), st1)" "touch B st st1"
    "\<forall>k \<in> set (ListBatchTasks B st). final_task st1 k"
    using finalize_all [OF assms(1) sub assms(2), of JTimeout now "''dispatch_timeout''"] by (auto simp: isFinalTaskState_def)
  have p1: "present st1 B" using touch_present [OF st1(2) assms(2)] .
  obtain c where c: "countBatchTaskStates B st1 = Inr c" "tc_Success c = in_state st1 JSuccess (ListBatchTasks B st1)"
    "tc_Failed c = in_state st1 JFailed (ListBatchTasks B st1)" "tc_Timeout c = in_state st1 JTimeout (ListBatchTasks B st1)"
    by (rule count_ok [OF p1])
  let ?b = "with_counts c (b\<lparr>ab_State := deriveTerminalBatchState (tc_Success c) (tc_Failed c) (tc_Timeout c), ab_FinalReason := ''dispatch_timeout''\<rparr>)"
  have "ab_BatchID ?b = B" "ab_State ?b \<noteq> BCollecting" using id derive_terminal [of "tc_Success c" "tc_Failed c" "tc_Timeout c"]
    by (auto simp: with_counts_def)
  then obtain st' where st': "finalizeCompletedBatch ?b (SaveBatch ?b st1) = (Inr (), st')" "ended B ?b st1 st'"
    using end_batch_ok [OF p1, of ?b] by blast
  have "RepairTimeoutBatch now B st = (Inr (), st')"
    using st1(1) c(1) st'(1) assms(3) by (simp add: RepairTimeoutBatch_def timed_out_batch_def slift_def FinalizeTimeoutBatchTasks_def finalizeBatchTasks_def Let_def)
  moreover have "task_ids st1 B = task_ids st B" using st1(2) by (simp add: touch_def task_ids_def)
  then have "end_state st1 B ?b" using c st1(3) by (simp add: end_state_def with_counts_def set_ListBatchTasks)
  moreover have "same_origin b ?b" by (simp add: same_origin_def with_counts_def)
  ultimately show ?thesis using st1(2) st'(2) by blast
qed

lemma refresh_ok:
  assumes "keyed st" "present st B" "GetBatch B st = Inr b" "ab_State b = BDispatching"
  shows "\<exists>st1 b' st'. refreshDispatchingBatch cfg env now B st = (Inr (), st') \<and> touch B st st1 \<and> same_origin b b'
    \<and> ((ended B b' st1 st' \<and> end_state st1 B b')
      \<or> (st' = SaveBatch b' st1 \<and> ab_State b' = BDispatching \<and> \<not> hasDispatchExceededMaxDuration now b))"
proof -
  have id: "ab_BatchID b = B" using assms(1,3) by (auto simp: GetBatch_def keyed_def split: option.splits)
  let ?ds = "ListBatchDispatchState B st"
  obtain b1 st1 where p: "refreshDispatchProgress cfg env now b ?ds st = (Inr b1, st1)"
    "b1 = b\<lparr>ab_DispatchHeartbeatAt := ab_DispatchHeartbeatAt b1, ab_DispatchLeaseUntil := ab_DispatchLeaseUntil b1\<rparr>"
    using refreshProgress_ok [of st b cfg env now ?ds] assms(1,2) id by metis
  have so: "same_origin b b1" "ab_State b1 = BDispatching" "ab_BatchID b1 = B"
    by (subst p(2), simp add: same_origin_def assms(4) id)+
  have t: "touch B st st1" using refreshProgress_touch [OF assms(1), of b cfg env now ?ds] p(1) id by simp
  note k1 = touch_keyed [OF t assms(1)] and p1 = touch_present [OF t assms(2)]
  obtain c where c: "countBatchTaskStates B st1 = Inr c" "tc_Success c = in_state st1 JSuccess (ListBatchTasks B st1)"
    "tc_Failed c = in_state st1 JFailed (ListBatchTasks B st1)" "tc_Timeout c = in_state st1 JTimeout (ListBatchTasks B st1)"
    "tc_Running c = 0 \<and> tc_Pending c = 0 \<longleftrightarrow> (\<forall>k \<in> set (task_ids st1 B). final_task st1 k)"
    by (rule count_ok [OF p1])
  let ?b = "with_counts c b1"
  have w: "same_origin b ?b" "ab_BatchID ?b = B" "ab_State ?b = BDispatching"
    "hasDispatchExceededMaxDuration now ?b = hasDispatchExceededMaxDuration now b"
    using so by (simp_all add: with_counts_def same_origin_def hasDispatchExceededMaxDuration_def)
  have run: "refreshDispatchingBatch cfg env now B st =
      (if tc_Running c = 0 \<and> tc_Pending c = 0 then
        (let b2 = ?b\<lparr>ab_State := deriveTerminalBatchState (tc_Success c) (tc_Failed c) (tc_Timeout c)\<rparr> in
         finalizeCompletedBatch b2 (SaveBatch b2 st1))
       else if hasDispatchExceededMaxDuration now b then RepairTimeoutBatch now B st1
       else if (case ab_DispatchLeaseUntil b1 of None \<Rightarrow> False | Some t \<Rightarrow> t < now) then RepairTimeoutBatch now B st1
       else (Inr (), SaveBatch ?b st1))"
    using assms(3,4) p(1) c(1) w(4) by (simp add: refreshDispatchingBatch_def completed_batch_def slift_def Let_def)
  have g1: "GetBatch B st1 = Inr b" using assms(3) t by (simp add: GetBatch_def touch_def)
  obtain b' st2 st' where rep: "RepairTimeoutBatch now B st1 = (Inr (), st')" "touch B st1 st2" "ended B b' st2 st'"
    "end_state st2 B b'" "same_origin b b'" using repair_timeout_ok [OF k1 p1 g1] by blast
  note t2 = touch_trans [OF t rep(2)]
  show ?thesis
  proof (cases "tc_Running c = 0 \<and> tc_Pending c = 0")
    case True
    let ?b2 = "?b\<lparr>ab_State := deriveTerminalBatchState (tc_Success c) (tc_Failed c) (tc_Timeout c)\<rparr>"
    have b2: "ab_BatchID ?b2 = B" "ab_State ?b2 \<noteq> BCollecting" using w(2) derive_terminal [of "tc_Success c" "tc_Failed c" "tc_Timeout c"] by auto
    obtain s where s: "finalizeCompletedBatch ?b2 (SaveBatch ?b2 st1) = (Inr (), s)" "ended B ?b2 st1 s"
      using end_batch_ok [OF p1 b2] by blast
    have "refreshDispatchingBatch cfg env now B st = (Inr (), s)" using run True s(1) by (simp add: Let_def)
    moreover have "end_state st1 B ?b2" using c True by (simp add: end_state_def with_counts_def)
    moreover have "same_origin b ?b2" using w(1) by (simp add: same_origin_def)
    ultimately show ?thesis using t s(2) by blast
  next
    case False
    show ?thesis
    proof (cases "hasDispatchExceededMaxDuration now b \<or> (case ab_DispatchLeaseUntil b1 of None \<Rightarrow> False | Some t \<Rightarrow> t < now)")
      case True
      then have "refreshDispatchingBatch cfg env now B st = (Inr (), st')" using run False rep(1) by auto
      then show ?thesis using t2 rep(3-5) by blast
    next
      case c: False
      then have "refreshDispatchingBatch cfg env now B st = (Inr (), SaveBatch ?b st1)" using run False by auto
      then show ?thesis using t w(1,3) c by blast
    qed
  qed
qed

text \<open>
  A batch whose dispatch began more than twenty minutes ago is ended by the next refresh, whatever
  the transfer service answers: all its tasks are then finished, its counts are those of its tasks,
  and its state is the one the counts give.
\<close>

theorem old_dispatch_is_ended:
  assumes "keyed st" "present st B" "GetBatch B st = Inr b" "ab_State b = BDispatching"
    and "ab_DispatchStartedAt b = Some t" "t + seconds (20 * 60) < now"
  shows "\<exists>b' st'. refreshDispatchingBatch cfg env now B st = (Inr (), st') \<and> GetBatch B st' = Inr b'
    \<and> ab_State b' \<in> {BDone, BPartial, BFailed} \<and> (\<forall>k \<in> set (ListBatchTasks B st'). final_task st' k)
    \<and> ab_SuccessCount b' + ab_FailedCount b' + ab_TimeoutCount b' = length (ListBatchTasks B st')
    \<and> (ab_State b' = BDone \<longleftrightarrow> ab_SuccessCount b' = length (ListBatchTasks B st'))"
proof -
  have "hasDispatchExceededMaxDuration now b" using assms(5,6) by (simp add: hasDispatchExceededMaxDuration_def)
  then obtain st1 b' st' where r: "refreshDispatchingBatch cfg env now B st = (Inr (), st')" "touch B st st1"
    "ended B b' st1 st'" "end_state st1 B b'" using refresh_ok [OF assms(1-4), of cfg env now] by blast
  have same: "final_task st' k = final_task st1 k" "in_state st' s ks = in_state st1 s ks" "task_ids st' B = task_ids st1 B"
    "ListBatchTasks B st' = ListBatchTasks B st1" for k s ks
    using r(3) by (simp_all add: ended_def final_task_def in_state_def task_ids_def ListBatchTasks_def)
  let ?ks = "ListBatchTasks B st1"
  have p: "map_of (ad_Tasks st1) k \<noteq> None" if "k \<in> set ?ks" for k
    using present_task [OF touch_present [OF r(2) assms(2)]] that by (auto simp: set_ListBatchTasks)
  have fin: "\<forall>k \<in> set ?ks. final_task st1 k" using r(4) by (simp add: end_state_def set_ListBatchTasks)
  then have "in_state st1 JRunning ?ks = 0" "in_state st1 JPending ?ks = 0" using all_final [OF p] by auto
  then have sum: "ab_SuccessCount b' + ab_FailedCount b' + ab_TimeoutCount b' = length ?ks"
    using in_state_total [of ?ks st1, OF p] r(4) by (simp add: end_state_def)
  have "GetBatch B st' = Inr b'" using r(3) by (simp add: ended_def GetBatch_def)
  moreover have "ab_State b' \<in> {BDone, BPartial, BFailed}" using r(4) derive_terminal by (auto simp: end_state_def)
  moreover have "ab_State b' = BDone \<longleftrightarrow> ab_SuccessCount b' = length ?ks"
    using r(4) sum by (auto simp: end_state_def deriveTerminalBatchState_def)
  ultimately show ?thesis using r(1) fin sum by (auto simp: same)
qed

section \<open>A task that is lost\<close>

text \<open>
  C23: When a task of a dispatched batch is lost from the store, the refresh of this batch fails each
  time, however old it is, and ends the round: the batches after it are not looked at, and no batch
  is changed.
\<close>

theorem lost_task_blocks_refresh:
  assumes "keyed st" "ListDispatchingBatchIDs st = B # rest" "GetBatch B st = Inr b" "ab_State b = BDispatching"
    and "k \<in> set (ListBatchTasks B st)" "map_of (ad_Tasks st) k = None"
  shows "\<not> is_ok (fst (refreshDispatchingBatches cfg env now st))
    \<and> ad_Batches (snd (refreshDispatchingBatches cfg env now st)) = ad_Batches st"
proof -
  have id: "ab_BatchID b = B" using assms(1,3) by (auto simp: GetBatch_def keyed_def split: option.splits)
  obtain r st1 where p: "refreshDispatchProgress cfg env now b (ListBatchDispatchState B st) st = (r, st1)" by fastforce
  have t: "touch B st st1" using refreshProgress_touch [OF assms(1), of b cfg env now "ListBatchDispatchState B st"] p id by simp
  have "\<not> is_ok (count_states ks st1 c)" if "k \<in> set ks" for ks c
    using that touch_none [OF t assms(6)]
    by (induction ks arbitrary: c) (auto simp: GetTask_def res_simps split: option.splits)
  then have "\<not> is_ok (countBatchTaskStates B st1)"
    using assms(5) t by (simp add: countBatchTaskStates_def ListBatchTasks_def touch_def)
  then obtain e where e: "countBatchTaskStates B st1 = Inl e" by (cases "countBatchTaskStates B st1") auto
  have "\<exists>e. refreshDispatchingBatch cfg env now B st = (Inl e, st1)"
    using assms(3,4) p e by (cases r) (auto simp: refreshDispatchingBatch_def slift_def)
  then show ?thesis using assms(2) t by (auto simp: refreshDispatchingBatches_def touch_def)
qed

end
