(* ===== verification/AsyncInv.thy ===== *)
theory AsyncInv
  imports AsyncProps
begin

text \<open>
  The stores that requests and rounds of the scheduler lead to, one after the other and without keys
  that expire, and what holds in all of them. \<open>AsyncRaces\<close> has the histories with races and expiry.
\<close>

section \<open>Steps\<close>

inductive ad_step :: "ad_config \<Rightarrow> ad_store \<Rightarrow> ad_store \<Rightarrow> bool" for cfg where
  request: "map_of (ad_Batches st) (''AsyncDownloadBatchV2:'' @ buuid) = None
    \<Longrightarrow> map_of (ad_Tasks st) (''AsyncDownloadTaskV2:'' @ tuuid) = None
    \<Longrightarrow> ad_step cfg st (snd (CreateTask cfg now buuid tuuid rq st))"
| round: "ad_step cfg st (snd (ProcessDueBatches cfg env now st))"

section \<open>The invariant\<close>

definition struct_ok :: "ad_config \<Rightarrow> ad_store \<Rightarrow> string \<Rightarrow> ad_batch \<Rightarrow> bool" where
  "struct_ok cfg st B b \<longleftrightarrow> HGetAll (ad_TaskTargets st) B = map (\<lambda>(tg, k). (k, tg)) (targets st B)
     \<and> distinct (map fst (targets st B)) \<and> distinct (map snd (targets st B))
     \<and> ab_TargetCount b = length (targets st B) \<and> 0 < length (targets st B) \<and> int (length (targets st B)) \<le> ac_MaxTargetsPerBatch cfg
     \<and> (\<forall>(tg, k) \<in> set (targets st B). \<exists>t. map_of (ad_Tasks st) k = Some t \<and> at_BatchID t = B \<and> at_TargetID t = tg)"

definition phase_ok :: "ad_store \<Rightarrow> string \<Rightarrow> ad_batch \<Rightarrow> bool" where
  "phase_ok st B b \<longleftrightarrow> (case ab_State b of
      BCollecting \<Rightarrow> ab_DispatchAttempt b = 0 \<and> (\<exists>u. ab_OpenUntil b = Some u \<and> map_of (ad_Due st) B = Some (unix_seconds u))
        \<and> (\<forall>k \<in> snd ` set (targets st B). map_option at_State (map_of (ad_Tasks st) k) = Some JPending)
    | BDispatching \<Rightarrow> ab_DispatchAttempt b = 1 \<and> ab_DispatchStartedAt b \<noteq> None \<and> map_of (ad_Due st) B = None
    | _ \<Rightarrow> ab_DispatchAttempt b = 1 \<and> map_of (ad_Due st) B = None \<and> end_state st B b)"

definition ad_inv :: "ad_config \<Rightarrow> ad_store \<Rightarrow> bool" where
  "ad_inv cfg st \<longleftrightarrow> keyed st \<and> (\<forall>k. map_of (ad_Tasks st) k \<noteq> None \<longrightarrow> k \<noteq> [])
     \<and> (\<forall>B b. map_of (ad_Batches st) B = Some b \<longrightarrow> struct_ok cfg st B b \<and> phase_ok st B b)
     \<and> (\<forall>B. map_of (ad_Batches st) B = None \<longrightarrow> targets st B = [] \<and> HGetAll (ad_TaskTargets st) B = [] \<and> map_of (ad_Due st) B = None)"

lemma task_ids_targets: "struct_ok cfg st B b \<Longrightarrow> task_ids st B = map snd (targets st B)"
  by (auto simp: struct_ok_def task_ids_def)

lemma struct_present: "struct_ok cfg st B b \<Longrightarrow> present st B"
  using task_ids_targets [of cfg st B b] by (auto simp: present_def struct_ok_def)

text \<open>A batch does not depend on what belongs to others.\<close>

lemma batch_frame:
  assumes "struct_ok cfg st B b" "phase_ok st B b"
    and "targets st' B = targets st B" "HGetAll (ad_TaskTargets st') B = HGetAll (ad_TaskTargets st) B"
    and "map_of (ad_Due st') B = map_of (ad_Due st) B"
    and "\<And>k. k \<in> snd ` set (targets st B) \<Longrightarrow> map_of (ad_Tasks st') k = map_of (ad_Tasks st) k"
  shows "struct_ok cfg st' B b \<and> phase_ok st' B b"
proof -
  have ids: "task_ids st B = map snd (targets st B)" by (rule task_ids_targets [OF assms(1)])
  have t': "task_ids st' B = task_ids st B" using assms(4) by (simp add: task_ids_def)
  have l: "ListBatchTasks B st' = ListBatchTasks B st" using assms(4) by (simp add: ListBatchTasks_def)
  have ls: "set (ListBatchTasks B st) = snd ` set (targets st B)" by (simp add: set_ListBatchTasks ids)
  have "in_state st' s (ListBatchTasks B st) = in_state st s (ListBatchTasks B st)" for s
    unfolding in_state_def using assms(6) ls by (metis (mono_tags, lifting) filter_cong)
  moreover have "final_task st' k = final_task st k" if "k \<in> set (task_ids st B)" for k
    using assms(6) that ids by (simp add: final_task_def)
  ultimately have e: "end_state st' B b = end_state st B b" by (simp add: end_state_def t' l)
  have "struct_ok cfg st' B b" using assms(1,3,4,6) unfolding struct_ok_def by (fastforce simp: split_beta)
  moreover have "phase_ok st' B b" using assms(2,3,5,6) e unfolding phase_ok_def by (simp split: ad_batch_state.splits)
  ultimately show ?thesis ..
qed

lemma other_targets:
  assumes "ad_inv cfg st" "map_of (ad_Batches st) B' = Some b'" "B' \<noteq> B" "k \<in> snd ` set (targets st B')"
  shows "k \<notin> snd ` set (targets st B)"
proof
  assume k: "k \<in> snd ` set (targets st B)"
  then obtain b where b: "map_of (ad_Batches st) B = Some b" using assms(1) by (cases "map_of (ad_Batches st) B") (auto simp: ad_inv_def)
  have "\<exists>t. map_of (ad_Tasks st) k = Some t \<and> at_BatchID t = B" "\<exists>t. map_of (ad_Tasks st) k = Some t \<and> at_BatchID t = B'"
    using assms(1,2,4) b k unfolding ad_inv_def struct_ok_def by fastforce+
  then show False using assms(3) by auto
qed

text \<open>The step of one batch.\<close>

lemma inv_step:
  assumes i: "ad_inv cfg st" and b: "map_of (ad_Batches st) B = Some b" "map_of (ad_Batches st') B = Some b'"
    and c: "ab_TargetCount b' = ab_TargetCount b" and p: "phase_ok st' B b'"
    and t: "touch B st s1" and s: "ad_Tasks st' = ad_Tasks s1" "ad_Targets st' = ad_Targets st" "ad_TaskTargets st' = ad_TaskTargets st"
    and o: "\<And>B'. B' \<noteq> B \<Longrightarrow> map_of (ad_Batches st') B' = map_of (ad_Batches st) B' \<and> map_of (ad_Due st') B' = map_of (ad_Due st) B'"
    and id: "ab_BatchID b' = B"
  shows "ad_inv cfg st'"
proof -
  have k: "keyed st" using i by (simp add: ad_inv_def)
  have tg: "targets st' B' = targets st B'" for B' using s(2) by (simp add: targets_def)
  have "keyed st'" unfolding keyed_def
  proof (intro conjI allI impI)
    show "at_TaskID x = i" if "map_of (ad_Tasks st') i = Some x" for i x
      using that touch_keyed [OF t k] by (simp add: s(1) keyed_def)
    show "ab_BatchID x = i" if "map_of (ad_Batches st') i = Some x" for i x
      using that b(2) id o [of i] k by (cases "i = B") (auto simp: keyed_def)
  qed
  moreover have "i \<noteq> []" if "map_of (ad_Tasks st') i \<noteq> None" for i
  proof -
    have "map_of (ad_Tasks st) i = None \<Longrightarrow> False" using that touch_none [OF t, of i] unfolding s(1) by simp
    then show ?thesis using i unfolding ad_inv_def by blast
  qed
  moreover have "struct_ok cfg st' x y \<and> phase_ok st' x y" if "map_of (ad_Batches st') x = Some y" for x y
  proof (cases "x = B")
    case True
    have so: "struct_ok cfg st B b" using i b(1) by (simp add: ad_inv_def)
    have "\<exists>t'. map_of (ad_Tasks st') k = Some t' \<and> at_BatchID t' = B \<and> at_TargetID t' = tg" if kt: "(tg, k) \<in> set (targets st B)" for tg k
    proof -
      obtain u where u: "map_of (ad_Tasks st) k = Some u" "at_BatchID u = B" "at_TargetID u = tg"
        using so kt unfolding struct_ok_def by fastforce
      obtain u' where "map_of (ad_Tasks s1) k = Some u'" "moved u u'" by (rule touch_task [OF t u(1)])
      then show ?thesis using u moved_simps by (auto simp: s(1))
    qed
    then have "struct_ok cfg st' B b'" using so c unfolding struct_ok_def by (auto simp: tg s(3))
    then show ?thesis using True that b(2) p by simp
  next
    case False
    then have y: "map_of (ad_Batches st) x = Some y" using that o by simp
    have "map_of (ad_Tasks st') k = map_of (ad_Tasks st) k" if kt: "k \<in> snd ` set (targets st x)" for k
    proof -
      obtain u where u: "map_of (ad_Tasks st) k = Some u" using struct_present [of cfg st x y] i y kt by (auto simp: ad_inv_def present_def)
      obtain u' where "map_of (ad_Tasks s1) k = Some u'" "k \<in> snd ` set (targets st B) \<or> u' = u" by (rule touch_task [OF t u])
      then show ?thesis using other_targets [OF i y False kt] u by (simp add: s(1))
    qed
    then show ?thesis using i y False o
      by (intro batch_frame [of cfg st]) (auto simp: ad_inv_def tg s(3))
  qed
  moreover have "targets st' x = [] \<and> HGetAll (ad_TaskTargets st') x = [] \<and> map_of (ad_Due st') x = None"
    if "map_of (ad_Batches st') x = None" for x
    using that i b(2) o [of x] by (cases "x = B") (auto simp: ad_inv_def tg s(3))
  ultimately show ?thesis unfolding ad_inv_def by blast
qed

section \<open>The scheduler\<close>

lemma process_writes:
  assumes "keyed st" "GetBatch B st = Inr b" "ab_State b = BCollecting"
  obtains b2 shards s2 where "snd (ProcessBatch cfg env now B st) = dispatch_shards env now b2 shards s2"
    and "b2 = b\<lparr>ab_State := BDispatching, ab_DispatchStartedAt := Some now, ab_DispatchOwner := ge_Instance env,
      ab_DispatchHeartbeatAt := Some now, ab_DispatchLeaseUntil := Some (now + seconds (ac_DispatchLeaseSeconds cfg)),
      ab_DispatchAttempt := ab_DispatchAttempt b + 1, ab_OpenUntil := None, ab_ShardCount := length shards\<rparr>"
    and "ad_Tasks s2 = ad_Tasks st" "ad_Targets s2 = ad_Targets st" "ad_TaskTargets s2 = ad_TaskTargets st"
    and "map_of (ad_Batches s2) = (map_of (ad_Batches st))(B \<mapsto> b2)" "map_of (ad_Due s2) = (map_of (ad_Due st))(B := None)"
proof -
  have id: "ab_BatchID b = B" using assms(1,2) by (auto simp: GetBatch_def keyed_def split: option.splits)
  let ?b = "b\<lparr>ab_State := BDispatching, ab_DispatchStartedAt := Some now, ab_DispatchOwner := ge_Instance env,
    ab_DispatchHeartbeatAt := Some now, ab_DispatchLeaseUntil := Some (now + seconds (ac_DispatchLeaseSeconds cfg)),
    ab_DispatchAttempt := ab_DispatchAttempt b + 1, ab_OpenUntil := None\<rparr>"
  let ?s = "ClearOpenBatchID (batch_scope ?b) (SaveBatch ?b st)"
  let ?sh = "splitTargets (ListBatchTargets B ?s) (ac_ShardSize cfg)"
  let ?b2 = "?b\<lparr>ab_ShardCount := length ?sh\<rparr>"
  show thesis
  proof (rule that [of ?b2 ?sh "SaveBatch ?b2 ?s"])
    show "snd (ProcessBatch cfg env now B st) = dispatch_shards env now ?b2 ?sh (SaveBatch ?b2 ?s)"
      using assms(2,3) by (simp add: ProcessBatch_def dispatched_batch_def Let_def)
  qed (use id in \<open>simp_all add: SaveBatch_def ClearOpenBatchID_def\<close>)
qed

lemma process_inv:
  assumes i: "ad_inv cfg st"
  shows "ad_inv cfg (snd (ProcessBatch cfg env now B st))"
proof (cases "\<exists>b. GetBatch B st = Inr b \<and> ab_State b = BCollecting")
  case True
  then obtain b where b: "GetBatch B st = Inr b" "ab_State b = BCollecting" by blast
  then have m: "map_of (ad_Batches st) B = Some b" by (simp add: GetBatch_def split: option.splits)
  have k: "keyed st" and ph: "phase_ok st B b" using i m by (auto simp: ad_inv_def)
  have id: "ab_BatchID b = B" using k m by (simp add: keyed_def)
  have att: "ab_DispatchAttempt b = 0" using ph b(2) by (simp add: phase_ok_def)
  obtain b2 sh s2 where w: "snd (ProcessBatch cfg env now B st) = dispatch_shards env now b2 sh s2"
    and b2: "b2 = b\<lparr>ab_State := BDispatching, ab_DispatchStartedAt := Some now, ab_DispatchOwner := ge_Instance env,
      ab_DispatchHeartbeatAt := Some now, ab_DispatchLeaseUntil := Some (now + seconds (ac_DispatchLeaseSeconds cfg)),
      ab_DispatchAttempt := ab_DispatchAttempt b + 1, ab_OpenUntil := None, ab_ShardCount := length sh\<rparr>"
    and f: "ad_Tasks s2 = ad_Tasks st" "ad_Targets s2 = ad_Targets st" "ad_TaskTargets s2 = ad_TaskTargets st"
      "map_of (ad_Batches s2) = (map_of (ad_Batches st))(B \<mapsto> b2)" "map_of (ad_Due s2) = (map_of (ad_Due st))(B := None)"
    by (rule process_writes [OF k b, of cfg env now]) (rule that)
  have o: "ab_BatchID b2 = B" "ab_State b2 = BDispatching" "ab_DispatchAttempt b2 = 1" "ab_DispatchStartedAt b2 \<noteq> None"
    "ab_TargetCount b2 = ab_TargetCount b" using id att by (simp_all add: b2)
  have k2: "keyed s2" using k o(1) by (auto simp: keyed_def f)
  let ?st = "dispatch_shards env now b2 sh s2"
  have t2: "touch B s2 ?st" using dispatch_shards_touch [OF k2, of b2 env now sh] o(1) by simp
  define s1 where "s1 = ?st\<lparr>ad_Batches := ad_Batches st, ad_Inflight := ad_Inflight st, ad_Open := ad_Open st, ad_Due := ad_Due st\<rparr>"
  have t: "touch B st s1"
    using t2 f(1-3) by (simp add: touch_def s1_def targets_def cong: option.case_cong)
  have g: "ad_Batches ?st = ad_Batches s2" "ad_Due ?st = ad_Due s2" "ad_Targets ?st = ad_Targets st" "ad_TaskTargets ?st = ad_TaskTargets st"
    using t2 f(2,3) by (simp_all add: touch_def)
  show ?thesis unfolding w
    by (rule inv_step [OF i m _ o(5) _ t]) (simp_all add: g f o phase_ok_def s1_def)
next
  case False
  then have "snd (ProcessBatch cfg env now B st) = st" by (auto simp: ProcessBatch_def split: sum.splits)
  then show ?thesis using i by simp
qed

lemma refresh_inv:
  assumes i: "ad_inv cfg st"
  shows "ad_inv cfg (snd (refreshDispatchingBatch cfg env now B st))"
proof (cases "\<exists>b. GetBatch B st = Inr b \<and> ab_State b = BDispatching")
  case True
  then obtain b where b: "GetBatch B st = Inr b" "ab_State b = BDispatching" by blast
  then have m: "map_of (ad_Batches st) B = Some b" by (simp add: GetBatch_def split: option.splits)
  have k: "keyed st" and so: "struct_ok cfg st B b" and ph: "phase_ok st B b" using i m by (auto simp: ad_inv_def)
  have id: "ab_BatchID b = B" using k m by (simp add: keyed_def)
  have p: "present st B" using so by (rule struct_present)
  have att: "ab_DispatchAttempt b = 1" "ab_DispatchStartedAt b \<noteq> None" "map_of (ad_Due st) B = None" using ph b(2) by (simp_all add: phase_ok_def)
  obtain st1 b' st' where r: "refreshDispatchingBatch cfg env now B st = (Inr (), st')" "touch B st st1" "same_origin b b'"
    "(ended B b' st1 st' \<and> end_state st1 B b') \<or> (st' = SaveBatch b' st1 \<and> ab_State b' = BDispatching)"
    using refresh_ok [OF k p b, of cfg env now] by blast
  have o: "ab_BatchID b' = B" "ab_TargetCount b' = ab_TargetCount b" "ab_DispatchAttempt b' = 1" "ab_DispatchStartedAt b' \<noteq> None"
    using r(3) att id by (simp_all add: same_origin_def)
  have f: "ad_Tasks st' = ad_Tasks st1" "ad_Targets st' = ad_Targets st1" "ad_TaskTargets st' = ad_TaskTargets st1"
    "ad_Batches st' = AList.update B b' (ad_Batches st1)" "ad_Due st' = AList.delete B (ad_Due st1)"
    using r(4) o(1) by (auto simp: ended_def SaveBatch_def split: option.splits)
  have t: "ad_Targets st1 = ad_Targets st" "ad_TaskTargets st1 = ad_TaskTargets st" "ad_Batches st1 = ad_Batches st" "ad_Due st1 = ad_Due st"
    using r(2) by (simp_all add: touch_def)
  have e: "end_state st' B b' = end_state st1 B b'"
    using f(1,3) by (simp add: end_state_def final_task_def in_state_def task_ids_def ListBatchTasks_def)
  have "phase_ok st' B b'"
    using r(4)
  proof
    assume "ended B b' st1 st' \<and> end_state st1 B b'"
    then show ?thesis using o f e t derive_terminal [of "ab_SuccessCount b'" "ab_FailedCount b'" "ab_TimeoutCount b'"]
      by (auto simp: phase_ok_def end_state_def split: ad_batch_state.splits)
  qed (use o f t in \<open>simp add: phase_ok_def\<close>)
  then have "ad_inv cfg st'"
    by (intro inv_step [OF i m _ o(2) _ r(2)]) (use f t o(1) in simp_all)
  then show ?thesis by (simp add: r(1))
next
  case False
  then have "snd (refreshDispatchingBatch cfg env now B st) = st"
    by (cases "GetBatch B st") (auto simp: refreshDispatchingBatch_def slift_def)
  then show ?thesis using i by simp
qed

lemma round_inv:
  assumes "ad_inv cfg st"
  shows "ad_inv cfg (snd (ProcessDueBatches cfg env now st))"
proof -
  have "ad_inv cfg (fold (\<lambda>B st. snd (ProcessBatch cfg env now B st)) Bs st)" for Bs
    using assms by (induction Bs arbitrary: st) (simp_all add: process_inv)
  then show ?thesis unfolding ProcessDueBatches_def refreshDispatchingBatches_def
    by (intro sfor_inv [where P = "ad_inv cfg"] refresh_inv)
qed

section \<open>Requests\<close>

lemma inv_cong:
  assumes "ad_inv cfg st" "ad_Batches st' = ad_Batches st" "ad_Tasks st' = ad_Tasks st" "ad_Targets st' = ad_Targets st"
    and "ad_TaskTargets st' = ad_TaskTargets st" "ad_Due st' = ad_Due st"
  shows "ad_inv cfg st'"
proof -
  have "struct_ok cfg st' B b = struct_ok cfg st B b" "phase_ok st' B b = phase_ok st B b" "keyed st' = keyed st" "targets st' B = targets st B" for B b
    using assms(2-6) by (simp_all add: struct_ok_def phase_ok_def keyed_def targets_def end_state_def final_task_def in_state_def
        task_ids_def ListBatchTasks_def split: ad_batch_state.splits)
  then show ?thesis using assms by (simp add: ad_inv_def)
qed

lemma update_new: "map_of al k = None \<Longrightarrow> AList.update k v al = al @ [(k, v)]"
  by (induction al) (auto split: if_splits)

lemma add_task:
  assumes i: "ad_inv cfg st" and k: "map_of (ad_Tasks st) k = None" "k \<noteq> []"
    and t: "at_TaskID t = k" "at_BatchID t = B" "at_TargetID t = tg" "at_State t = JPending"
    and tg: "map_of (targets st B) tg = None"
    and pend: "\<forall>j \<in> snd ` set (targets st B). map_option at_State (map_of (ad_Tasks st) j) = Some JPending"
    and b: "ab_BatchID b' = B" "ab_State b' = BCollecting" "ab_DispatchAttempt b' = 0" "ab_OpenUntil b' = Some u"
      "ab_TargetCount b' = length (targets st B) + 1" "int (length (targets st B)) < ac_MaxTargetsPerBatch cfg"
    and s: "map_of (ad_Batches st') = (map_of (ad_Batches st))(B \<mapsto> b')" "map_of (ad_Tasks st') = (map_of (ad_Tasks st))(k \<mapsto> t)"
      "ad_Targets st' = HSets B [(tg, k)] (ad_Targets st)" "ad_TaskTargets st' = HSets B [(k, tg)] (ad_TaskTargets st)"
      "map_of (ad_Due st') = (map_of (ad_Due st))(B \<mapsto> unix_seconds u)"
  shows "ad_inv cfg st'"
proof -
  have fresh: "k \<notin> snd ` set (targets st x)" for x
  proof
    assume a: "k \<in> snd ` set (targets st x)"
    show False
    proof (cases "map_of (ad_Batches st) x")
      case None
      then show False using a i by (simp add: ad_inv_def)
    next
      case (Some y)
      then have "struct_ok cfg st x y" using i by (simp add: ad_inv_def)
      from struct_present [OF this] show False using a k(1) unfolding present_def by blast
    qed
  qed
  have tt: "HGetAll (ad_TaskTargets st) B = map (\<lambda>(tg, k). (k, tg)) (targets st B)"
    using i by (cases "map_of (ad_Batches st) B") (auto simp: ad_inv_def struct_ok_def)
  have "map_of (HGetAll (ad_TaskTargets st) B) k = None" using fresh [of B] by (force simp: tt map_of_eq_None_iff)
  then have tt': "HGetAll (ad_TaskTargets st') B = map (\<lambda>(tg, k). (k, tg)) (targets st B) @ [(k, tg)]"
    by (simp add: s(4) HGetAll_HSets_one update_new tt)
  have ts': "targets st' B = targets st B @ [(tg, k)]" using tg by (simp add: targets_def s(3) HGetAll_HSets_one update_new)
  have oth: "targets st' x = targets st x" "HGetAll (ad_TaskTargets st') x = HGetAll (ad_TaskTargets st) x" if "x \<noteq> B" for x
    using that by (simp_all add: targets_def s(3,4) HGetAll_HSets_one)
  have kd: "keyed st" using i by (simp add: ad_inv_def)
  have "keyed st'" using kd t(1) b(1) by (auto simp: keyed_def s(1,2))
  moreover have "\<forall>j. map_of (ad_Tasks st') j \<noteq> None \<longrightarrow> j \<noteq> []" using i k(2) by (auto simp: ad_inv_def s(2))
  moreover have "struct_ok cfg st' x y \<and> phase_ok st' x y" if "map_of (ad_Batches st') x = Some y" for x y
  proof (cases "x = B")
    case True
    have old: "\<exists>t. map_of (ad_Tasks st) j = Some t \<and> at_BatchID t = B \<and> at_TargetID t = g" if "(g, j) \<in> set (targets st B)" for g j
      using i that unfolding ad_inv_def struct_ok_def by (cases "map_of (ad_Batches st) B") fastforce+
    have d: "distinct (map fst (targets st B))" "distinct (map snd (targets st B))"
      using i by (cases "map_of (ad_Batches st) B"; auto simp: ad_inv_def struct_ok_def)+
    have "tg \<notin> fst ` set (targets st B)" using tg by (simp add: map_of_eq_None_iff)
    then have "struct_ok cfg st' B b'" unfolding struct_ok_def ts' tt'
      using d fresh [of B] b(5,6) t old k(1) by (force simp: s(2))
    moreover have "phase_ok st' B b'" unfolding phase_ok_def ts' using b t pend fresh [of B] by (auto simp: s(2,5))
    ultimately show ?thesis using True that by (simp add: s(1))
  next
    case False
    then have y: "map_of (ad_Batches st) x = Some y" using that by (simp add: s(1))
    have "map_of (ad_Tasks st') j = map_of (ad_Tasks st) j" if "j \<in> snd ` set (targets st x)" for j
      using that fresh [of x] by (auto simp: s(2))
    then show ?thesis using i y False oth by (intro batch_frame [of cfg st]) (auto simp: ad_inv_def s(5))
  qed
  moreover have "targets st' x = [] \<and> HGetAll (ad_TaskTargets st') x = [] \<and> map_of (ad_Due st') x = None"
    if "map_of (ad_Batches st') x = None" for x
    using that i oth by (cases "x = B") (auto simp: ad_inv_def s(1,5))
  ultimately show ?thesis unfolding ad_inv_def by blast
qed

lemma reuse_inv:
  assumes "tryReuseInflightTask fv it st = (taskID, st')"
  shows "ad_Batches st' = ad_Batches st" "ad_Tasks st' = ad_Tasks st" "ad_Targets st' = ad_Targets st"
    "ad_TaskTargets st' = ad_TaskTargets st" "ad_Due st' = ad_Due st"
  using assms by (auto simp: tryReuseInflightTask_def Let_def ClearInflightTaskID_def split: if_splits sum.splits)

lemma create_batch_inv:
  assumes i: "ad_inv cfg st" and m: "0 < ac_MaxTargetsPerBatch cfg"
    and f: "map_of (ad_Batches st) (''AsyncDownloadBatchV2:'' @ buuid) = None" "map_of (ad_Tasks st) (''AsyncDownloadTaskV2:'' @ tuuid) = None"
  shows "ad_inv cfg (snd (create_batch cfg now buuid tuuid rq st))"
proof -
  let ?B = "''AsyncDownloadBatchV2:'' @ buuid"
  have "targets st ?B = []" using i f(1) by (simp add: ad_inv_def)
  then show ?thesis
    by (intro add_task [OF i f(2), where B = ?B and tg = "target_of rq" and t = "newV2Task rq tuuid ?B (target_of rq) now"
          and b' = "newV2Batch rq buuid now (seconds (ac_CollectWindowSeconds cfg))" and u = "now + seconds (ac_CollectWindowSeconds cfg)"])
      (use m in \<open>simp_all add: newV2Task_def newV2Batch_def create_batch_def Let_def CreateBatchAndTask_def SaveTask_def SaveBatch_def\<close>)
qed

lemma join_batch_inv:
  assumes i: "ad_inv cfg st" and b: "collecting_batch now B st = Some b" and tg: "GetBatchTaskID B (target_of rq) st = []"
    and c: "int (ab_TargetCount b) < ac_MaxTargetsPerBatch cfg" and f: "map_of (ad_Tasks st) (''AsyncDownloadTaskV2:'' @ tuuid) = None"
  shows "ad_inv cfg (snd (join_batch cfg now tuuid rq b st))"
proof -
  have gb: "map_of (ad_Batches st) B = Some b" "ab_State b = BCollecting"
    using b by (auto simp: collecting_batch_def GetBatch_def split: if_splits option.splits sum.splits)
  have so: "struct_ok cfg st B b" and ph: "phase_ok st B b" and k: "keyed st" using i gb(1) by (auto simp: ad_inv_def)
  have id: "ab_BatchID b = B" using k gb(1) by (simp add: keyed_def)
  have "map_of (targets st B) (target_of rq) = None"
  proof (rule ccontr)
    assume "map_of (targets st B) (target_of rq) \<noteq> None"
    then obtain j where j: "map_of (targets st B) (target_of rq) = Some j" by blast
    then have "(target_of rq, j) \<in> set (targets st B)" by (rule map_of_SomeD)
    then have "map_of (ad_Tasks st) j \<noteq> None" using so unfolding struct_ok_def by fastforce
    then have "j \<noteq> []" using i unfolding ad_inv_def by blast
    then show False using tg j by (simp add: GetBatchTaskID_def get_string_def targets_def)
  qed
  then show ?thesis using so ph gb(2) c id
    by (intro add_task [OF i f, where B = B and tg = "target_of rq" and t = "newV2Task rq tuuid B (target_of rq) now"
          and b' = "b\<lparr>ab_TargetCount := ab_TargetCount b + 1, ab_OpenUntil := Some (now + seconds (ac_CollectWindowSeconds cfg))\<rparr>"
          and u = "now + seconds (ac_CollectWindowSeconds cfg)"])
      (simp_all add: newV2Task_def join_batch_def joined_batch_def Let_def AddTaskToBatch_def SaveTask_def SaveBatch_def ClearOpenBatchID_def
        phase_ok_def struct_ok_def)
qed

lemma request_inv:
  assumes i: "ad_inv cfg st" and m: "0 < ac_MaxTargetsPerBatch cfg"
    and f: "map_of (ad_Batches st) (''AsyncDownloadBatchV2:'' @ buuid) = None" "map_of (ad_Tasks st) (''AsyncDownloadTaskV2:'' @ tuuid) = None"
  shows "ad_inv cfg (snd (CreateTask cfg now buuid tuuid rq st))"
proof -
  let ?it = "BuildInflightTargetKey (target_of rq) (rq_User rq) (rq_Dir rq)"
  let ?sc = "BuildBatchScopeKey (file_version rq) (rq_User rq) (rq_Dir rq)"
  obtain t1 s1 where r1: "tryReuseInflightTask (file_version rq) ?it st = (t1, s1)" by fastforce
  obtain t2 s2 where r2: "tryReuseInflightTask (file_version rq) ?it s1 = (t2, s2)" by fastforce
  have i1: "ad_inv cfg s1" using inv_cong [OF i] reuse_inv [OF r1] by blast
  have i2: "ad_inv cfg s2" using inv_cong [OF i1] reuse_inv [OF r2] by blast
  have i3: "ad_inv cfg (ClearOpenBatchID ?sc s2)" by (rule inv_cong [OF i2]) (simp_all add: ClearOpenBatchID_def)
  have f2: "map_of (ad_Batches s2) (''AsyncDownloadBatchV2:'' @ buuid) = None" "map_of (ad_Tasks s2) (''AsyncDownloadTaskV2:'' @ tuuid) = None"
    using f reuse_inv [OF r1] reuse_inv [OF r2] by simp_all
  have f3: "map_of (ad_Batches (ClearOpenBatchID ?sc s2)) (''AsyncDownloadBatchV2:'' @ buuid) = None"
    "map_of (ad_Tasks (ClearOpenBatchID ?sc s2)) (''AsyncDownloadTaskV2:'' @ tuuid) = None" using f2 by (simp_all add: ClearOpenBatchID_def)
  note c2 = create_batch_inv [OF i2 m f2, of now rq] and c3 = create_batch_inv [OF i3 m f3, of now rq]
  show ?thesis
  proof (cases "t1 = [] \<and> t2 = []")
    case False
    then show ?thesis using i1 i2 by (auto simp: CreateTask_def createOrJoinBatch_def Let_def r1 r2)
  next
    case True
    let ?o = "GetOpenBatchID ?sc s2"
    have run: "CreateTask cfg now buuid tuuid rq st = (case collecting_batch now ?o s2 of
          None \<Rightarrow> create_batch cfg now buuid tuuid rq s2
        | Some batch \<Rightarrow>
            if GetBatchTaskID ?o (target_of rq) s2 \<noteq> [] then (GetBatchTaskID ?o (target_of rq) s2, s2)
            else if ac_MaxTargetsPerBatch cfg \<le> 0 \<or> int (ab_TargetCount batch) < ac_MaxTargetsPerBatch cfg
            then join_batch cfg now tuuid rq batch s2
            else create_batch cfg now buuid tuuid rq (ClearOpenBatchID ?sc s2))"
      using True by (simp add: CreateTask_def createOrJoinBatch_def Let_def r1 r2)
    show ?thesis
    proof (cases "collecting_batch now ?o s2")
      case None
      then show ?thesis using c2 by (simp add: run)
    next
      case (Some b)
      show ?thesis using join_batch_inv [OF i2 Some _ _ f2(2)] c3 i2 m by (simp add: run Some)
    qed
  qed
qed

section \<open>Reachable stores\<close>

definition ad_init :: "ad_store \<Rightarrow> bool" where
  "ad_init st \<longleftrightarrow> st = empty_store"

definition ad_next :: "ad_config \<Rightarrow> ad_store \<Rightarrow> ad_store \<Rightarrow> bool" where
  "ad_next cfg st st' \<longleftrightarrow> AsyncDownloadV2_validate cfg \<and> ad_step cfg st st'"

lemma init_inv: "ad_init st \<Longrightarrow> ad_inv cfg st"
  by (auto simp: ad_init_def empty_store_def ad_inv_def keyed_def targets_def HGetAll_def)

lemma next_inv: "ad_inv cfg st \<Longrightarrow> ad_next cfg st st' \<Longrightarrow> ad_inv cfg st'"
  unfolding ad_next_def AsyncDownloadV2_validate_def
  by (auto elim!: ad_step.cases intro: request_inv round_inv)

interpretation downloads: transition_system ad_init "ad_next cfg" "ad_inv cfg" for cfg
  by unfold_locales (auto intro: init_inv next_inv)

text \<open>
  In every store that requests and rounds of the scheduler lead to, one after the other, a batch has
  as many targets as it counts, each once and no more than configured; it waits in the list of due
  batches exactly while it collects, is dispatched exactly once, and when it has ended all its tasks
  are finished and its counts add up to its targets.
\<close>

theorem serial_batches_consistent:
  assumes "reach ad_init (ad_next cfg) st" "GetBatch B st = Inr b"
  shows "ab_TargetCount b = length (ListBatchTargets B st) \<and> distinct (ListBatchTargets B st)
    \<and> int (ab_TargetCount b) \<le> ac_MaxTargetsPerBatch cfg
    \<and> (map_of (ad_Due st) B \<noteq> None \<longleftrightarrow> ab_State b = BCollecting)
    \<and> ab_DispatchAttempt b = (if ab_State b = BCollecting then 0 else 1)
    \<and> (ab_State b \<in> {BDone, BPartial, BFailed} \<longrightarrow> (\<forall>k \<in> set (ListBatchTasks B st). final_task st k)
        \<and> ab_SuccessCount b + ab_FailedCount b + ab_TimeoutCount b = ab_TargetCount b)"
proof -
  have i: "ad_inv cfg st" by (rule downloads.reach_inv [OF assms(1)])
  have m: "map_of (ad_Batches st) B = Some b" using assms(2) by (simp add: GetBatch_def split: option.splits)
  have so: "struct_ok cfg st B b" and ph: "phase_ok st B b" using i m by (auto simp: ad_inv_def)
  have l: "length (ListBatchTargets B st) = length (targets st B)" by (simp add: ListBatchTargets_def targets_def)
  have n: "length (ListBatchTasks B st) = length (targets st B)"
    using task_ids_targets [OF so] by (simp add: ListBatchTasks_def task_ids_def)
  have d: "distinct (ListBatchTargets B st)" using so by (simp add: struct_ok_def ListBatchTargets_def targets_def)
  have e: "(\<forall>k \<in> set (ListBatchTasks B st). final_task st k) \<and> ab_SuccessCount b + ab_FailedCount b + ab_TimeoutCount b = ab_TargetCount b"
    if "end_state st B b"
  proof -
    have p: "map_of (ad_Tasks st) k \<noteq> None" if "k \<in> set (ListBatchTasks B st)" for k
      using present_task [OF struct_present [OF so]] that by (auto simp: set_ListBatchTasks)
    have fin: "\<forall>k \<in> set (ListBatchTasks B st). final_task st k" using that by (simp add: end_state_def set_ListBatchTasks)
    then show ?thesis using all_final [of "ListBatchTasks B st", OF p] in_state_total [of "ListBatchTasks B st", OF p] that so n
      by (simp add: end_state_def struct_ok_def)
  qed
  show ?thesis using so ph e l d by (cases "ab_State b") (auto simp: struct_ok_def phase_ok_def)
qed

section \<open>No dispatch is left behind\<close>

lemma refresh_round:
  assumes "ad_inv cfg st" "\<And>B. B \<in> set Bs \<Longrightarrow> map_of (ad_Batches st) B \<noteq> None"
    and "\<And>B b. map_of (ad_Batches st) B = Some b \<Longrightarrow> ab_State b = BDispatching \<Longrightarrow> B \<in> set Bs \<or> \<not> hasDispatchExceededMaxDuration now b"
  shows "\<exists>st'. sfor (refreshDispatchingBatch cfg env now) Bs st = (Inr (), st')
    \<and> (\<forall>B b. map_of (ad_Batches st') B = Some b \<longrightarrow> ab_State b = BDispatching \<longrightarrow> \<not> hasDispatchExceededMaxDuration now b)"
  using assms
proof (induction Bs arbitrary: st)
  case (Cons B Bs)
  let ?r = "refreshDispatchingBatch cfg env now B st"
  have i': "ad_inv cfg (snd ?r)" by (rule refresh_inv [OF Cons.prems(1)])
  have p: "map_of (ad_Batches st) B \<noteq> None" using Cons.prems(2) by simp
  have step: "\<exists>st'. ?r = (Inr (), st') \<and> dom (map_of (ad_Batches st)) \<subseteq> dom (map_of (ad_Batches st')) \<and> (\<forall>B' b'. map_of (ad_Batches st') B' = Some b' \<longrightarrow> ab_State b' = BDispatching
      \<longrightarrow> B' \<in> set Bs \<or> \<not> hasDispatchExceededMaxDuration now b')"
  proof (cases "\<exists>b. GetBatch B st = Inr b \<and> ab_State b = BDispatching")
    case True
    then obtain b where b: "GetBatch B st = Inr b" "ab_State b = BDispatching" by blast
    then have m: "map_of (ad_Batches st) B = Some b" by (simp add: GetBatch_def split: option.splits)
    have k: "keyed st" and so: "struct_ok cfg st B b" using Cons.prems(1) m by (auto simp: ad_inv_def)
    have pr: "present st B" by (rule struct_present [OF so])
    obtain st1 b' st' where r: "?r = (Inr (), st')" "touch B st st1" "same_origin b b'"
      "(ended B b' st1 st' \<and> end_state st1 B b') \<or> (st' = SaveBatch b' st1 \<and> ab_State b' = BDispatching \<and> \<not> hasDispatchExceededMaxDuration now b)"
      using refresh_ok [OF k pr b, of cfg env now] by blast
    have id: "ab_BatchID b' = B" using r(3) k m by (simp add: same_origin_def keyed_def)
    have f: "map_of (ad_Batches st') = (map_of (ad_Batches st))(B \<mapsto> b')"
      using r(2,4) id by (auto simp: ended_def SaveBatch_def touch_def)
    have own: "ab_State b' = BDispatching \<longrightarrow> \<not> hasDispatchExceededMaxDuration now b'"
      using r(3,4) derive_terminal [of "ab_SuccessCount b'" "ab_FailedCount b'" "ab_TimeoutCount b'"]
      by (auto simp: end_state_def same_origin_def hasDispatchExceededMaxDuration_def)
    show ?thesis using r(1) f own Cons.prems(3) by auto
  next
    case False
    then have "?r = (Inr (), st)" using p by (auto simp: refreshDispatchingBatch_def slift_def GetBatch_def)
    moreover have "map_of (ad_Batches st) B = Some b \<Longrightarrow> ab_State b \<noteq> BDispatching" for b using False by (auto simp: GetBatch_def)
    ultimately show ?thesis using Cons.prems(3) by fastforce
  qed
  then obtain st' where st': "?r = (Inr (), st')" "dom (map_of (ad_Batches st)) \<subseteq> dom (map_of (ad_Batches st'))"
    "\<forall>B' b'. map_of (ad_Batches st') B' = Some b' \<longrightarrow> ab_State b' = BDispatching
      \<longrightarrow> B' \<in> set Bs \<or> \<not> hasDispatchExceededMaxDuration now b'" by blast
  have "map_of (ad_Batches st') B' \<noteq> None" if "B' \<in> set Bs" for B'
    using subsetD [OF st'(2), of B'] Cons.prems(2) [of B'] that by (simp add: domIff)
  then show ?case using Cons.IH [of st'] i' st' by auto
qed auto

text \<open>
  After every round of the scheduler on such a store no batch is left whose dispatch began more
  than twenty minutes before, whatever the transfer service answers, and the round itself does not fail:
  every dispatched batch ends.
\<close>

theorem serial_round_succeeds:
  assumes "reach ad_init (ad_next cfg) st" "ProcessDueBatches cfg env now st = (r, st')"
  shows "r = Inr () \<and> (\<forall>B b t. GetBatch B st' = Inr b \<longrightarrow> ab_State b = BDispatching
    \<longrightarrow> ab_DispatchStartedAt b = Some t \<longrightarrow> now \<le> t + seconds (20 * 60))"
proof -
  let ?s = "fold (\<lambda>B st. snd (ProcessBatch cfg env now B st)) (ListDueBatchIDs now (ac_MaxDueBatchesPerTick cfg) st) st"
  have "ad_inv cfg (fold (\<lambda>B st. snd (ProcessBatch cfg env now B st)) Bs s)" if "ad_inv cfg s" for Bs s
    using that by (induction Bs arbitrary: s) (simp_all add: process_inv)
  then have i: "ad_inv cfg ?s" using downloads.reach_inv [OF assms(1)] by blast
  then have k: "keyed ?s" by (simp add: ad_inv_def)
  have m: "B \<in> set (ListDispatchingBatchIDs ?s) \<longleftrightarrow> (\<exists>b. map_of (ad_Batches ?s) B = Some b \<and> ab_State b = BDispatching)" for B
  proof
    assume "B \<in> set (ListDispatchingBatchIDs ?s)"
    then show "\<exists>b. map_of (ad_Batches ?s) B = Some b \<and> ab_State b = BDispatching"
      using k by (auto simp: ListDispatchingBatchIDs_def map_filter_def keyed_def split: option.splits if_splits)
  next
    assume "\<exists>b. map_of (ad_Batches ?s) B = Some b \<and> ab_State b = BDispatching"
    then obtain b where b: "map_of (ad_Batches ?s) B = Some b" "ab_State b = BDispatching" by blast
    have "(B, b) \<in> set (ad_Batches ?s)" using b(1) by (rule map_of_SomeD)
    then show "B \<in> set (ListDispatchingBatchIDs ?s)"
      using b k by (force simp: ListDispatchingBatchIDs_def map_filter_def keyed_def)
  qed
  have "\<exists>s. sfor (refreshDispatchingBatch cfg env now) (ListDispatchingBatchIDs ?s) ?s = (Inr (), s)
    \<and> (\<forall>B b. map_of (ad_Batches s) B = Some b \<longrightarrow> ab_State b = BDispatching \<longrightarrow> \<not> hasDispatchExceededMaxDuration now b)"
    by (rule refresh_round [OF i]) (use m in blast)+
  then have "r = Inr ()" and n: "\<And>B b. map_of (ad_Batches st') B = Some b \<Longrightarrow> ab_State b = BDispatching \<Longrightarrow> \<not> hasDispatchExceededMaxDuration now b"
    using assms(2) by (auto simp: ProcessDueBatches_def refreshDispatchingBatches_def)
  moreover have "now \<le> t + seconds (20 * 60)"
    if "\<not> hasDispatchExceededMaxDuration now b" "ab_DispatchStartedAt b = Some t" for b t
    using that unfolding hasDispatchExceededMaxDuration_def by simp
  ultimately show ?thesis by (auto simp: GetBatch_def split: option.splits)
qed


section \<open>Concrete runs\<close>

definition ex_cfg :: ad_config where
  "ex_cfg = trySetDefault \<lparr>ac_CollectWindowSeconds = 0, ac_MaxTargetsPerBatch = 0, ac_ShardSize = 0, ac_DispatchHeartbeatSeconds = 0,
     ac_DispatchLeaseSeconds = 0, ac_MaxDispatchAttempts = 0, ac_MaxDueBatchesPerTick = 0, ac_TaskTTLSeconds = 0, ac_BatchTTLSeconds = 0\<rparr>"

definition ex_rq :: "string \<Rightarrow> ad_request" where
  "ex_rq agent = \<lparr>rq_TenantID = ''default'', rq_BizID = 2, rq_AppID = 5, rq_FilePath = ''/etc'', rq_FileName = ''a.conf'',
     rq_AgentID = agent, rq_ContainerID = [], rq_User = ''root'', rq_Dir = ''/data'', rq_Signature = ''f0''\<rparr>"

text \<open>A transfer service that never has a result.\<close>

definition ex_env :: gse_env where
  "ex_env = \<lparr>ge_Service = True, ge_Source = True, ge_Instance = ''s'', ge_Prepare = (\<lambda>_. True),
     ge_Transfer = (\<lambda>_ _. Inr ''gse1''), ge_Result = (\<lambda>_. None)\<rparr>"

definition ex_created :: ad_store where
  "ex_created = snd (CreateTask ex_cfg 0 ''b1'' ''t1'' (ex_rq ''h1'') empty_store)"

definition ex_sent :: ad_store where
  "ex_sent = snd (ProcessDueBatches ex_cfg ex_env (seconds 10) ex_created)"

lemma ex_reachable: "reach ad_init (ad_next ex_cfg) ex_created" "reach ad_init (ad_next ex_cfg) ex_sent"
proof -
  have v: "AsyncDownloadV2_validate ex_cfg" by code_simp
  have "ad_step ex_cfg empty_store ex_created"
    unfolding ex_created_def by (rule ad_step.request) (simp_all add: empty_store_def)
  then show c: "reach ad_init (ad_next ex_cfg) ex_created"
    using reach.step [OF reach.start, of ad_init empty_store "ad_next ex_cfg"] v by (auto simp: ad_init_def ad_next_def)
  have "ad_step ex_cfg ex_created ex_sent" unfolding ex_sent_def by (rule ad_step.round)
  then show "reach ad_init (ad_next ex_cfg) ex_sent" using reach.step [OF c] v by (auto simp: ad_next_def)
qed

lemma is_ok_Inr: "is_ok r \<Longrightarrow> \<exists>x. r = Inr x"
  by (cases r) auto

lemma stale_join_reopens_batch_witness:
  "\<exists>b2. GetBatch ''AsyncDownloadBatchV2:b1'' (snd (join_batch ex_cfg 1 ''t2'' (ex_rq ''h2'')
      (projr (GetBatch ''AsyncDownloadBatchV2:b1'' ex_created)) (snd (ProcessBatch ex_cfg ex_env (seconds 10) ''AsyncDownloadBatchV2:b1'' ex_created))))
      = Inr b2 \<and> ab_State b2 = BCollecting"
proof -
  let ?B = "''AsyncDownloadBatchV2:b1''"
  have "collecting_batch 1 ?B ex_created = Some (projr (GetBatch ?B ex_created))" by code_simp
  moreover have "keyed ex_created" using downloads.reach_inv [OF ex_reachable(1)] by (simp add: ad_inv_def)
  ultimately show ?thesis
    using stale_join_reopens_batch [of ex_created 1 ?B "projr (GetBatch ?B ex_created)" ex_cfg ex_env "seconds 10" _ _ "''t2''" "ex_rq ''h2''"]
    by (metis prod.collapse)
qed

lemma repeated_request_same_task_witness:
  "CreateTask ex_cfg (seconds 5) ''b2'' ''t2'' (ex_rq ''h1'') ex_created = (''AsyncDownloadTaskV2:t1'', ex_created)"
proof -
  have "CreateTask ex_cfg 0 ''b1'' ''t1'' (ex_rq ''h1'') empty_store = (''AsyncDownloadTaskV2:t1'', ex_created)"
    unfolding ex_created_def by (rule prod_eqI) (code_simp, simp)
  from repeated_request_same_task [OF this] show ?thesis
    by (simp add: empty_store_def GetBatchTaskID_def get_string_def HGetAll_def)
qed

lemma lost_task_blocks_refresh_witness:
  "\<not> is_ok (fst (refreshDispatchingBatches ex_cfg ex_env (seconds 2000) (ex_sent\<lparr>ad_Tasks := []\<rparr>)))"
proof -
  let ?B = "''AsyncDownloadBatchV2:b1''" and ?s = "ex_sent\<lparr>ad_Tasks := []\<rparr>"
  have k: "keyed ?s" using downloads.reach_inv [OF ex_reachable(2)] by (simp add: ad_inv_def keyed_def)
  have "ListDispatchingBatchIDs ?s = [?B] \<and> is_ok (GetBatch ?B ?s) \<and> ab_State (projr (GetBatch ?B ?s)) = BDispatching
    \<and> ''AsyncDownloadTaskV2:t1'' \<in> set (ListBatchTasks ?B ?s)" by code_simp
  then obtain b where "ListDispatchingBatchIDs ?s = [?B]" "GetBatch ?B ?s = Inr b" "ab_State b = BDispatching"
    "''AsyncDownloadTaskV2:t1'' \<in> set (ListBatchTasks ?B ?s)" using is_ok_Inr by fastforce
  then show ?thesis using lost_task_blocks_refresh [OF k] by simp
qed

end
