(* ===== verification/AsyncRaces.thy ===== *)
theory AsyncRaces
  imports AsyncInv
begin

text \<open>
  The asynchronous downloads with several feed servers and with keys that expire: a process may write
  a batch that it read long ago, and between two commands of a process any others may run. What holds
  then of every record of a batch, and what a round of the scheduler achieves.
\<close>

section \<open>Operations that write no batch\<close>

text \<open>
  An operation on the tasks of a batch leaves the batches alone and loses no task; it fails only
  because a task of the batch is not in the store.
\<close>

definition batch_keys :: "ad_store \<Rightarrow> string \<Rightarrow> string set" where
  "batch_keys st B = set (ListBatchTasks B st) \<union> snd ` set (ListBatchTargetTasks B st)"

definition kept :: "ad_store \<Rightarrow> ad_store \<Rightarrow> bool" where
  "kept st st' \<longleftrightarrow> ad_Batches st' = ad_Batches st \<and> ad_Targets st' = ad_Targets st
     \<and> ad_TaskTargets st' = ad_TaskTargets st \<and> dom (map_of (ad_Tasks st)) \<subseteq> dom (map_of (ad_Tasks st'))"

definition lost_task :: "ad_store \<Rightarrow> string \<Rightarrow> ad_err \<Rightarrow> bool" where
  "lost_task st B e \<longleftrightarrow> (\<exists>k \<in> batch_keys st B. e = TaskNotExists k \<and> GetTask k st = Inl e)"

definition works :: "string \<Rightarrow> ad_store \<Rightarrow> (ad_err + 'a) \<times> ad_store \<Rightarrow> bool" where
  "works B st r \<longleftrightarrow> kept st (snd r) \<and> (\<forall>e. fst r = Inl e \<longrightarrow> lost_task st B e)"

lemma kept_refl [simp]: "kept st st"
  by (simp add: kept_def)

lemma kept_trans: "kept st st1 \<Longrightarrow> kept st1 st2 \<Longrightarrow> kept st st2"
  by (auto simp: kept_def)

lemma batch_keys_kept: "kept st st' \<Longrightarrow> batch_keys st' B = batch_keys st B"
  by (simp add: kept_def batch_keys_def ListBatchTasks_def ListBatchTargetTasks_def)

lemma GetTask_lost: "GetTask k st = Inl e \<longleftrightarrow> e = TaskNotExists k \<and> k \<notin> dom (map_of (ad_Tasks st))"
  by (auto simp: GetTask_def split: option.splits)

text \<open>Nothing that leads to the tasks of a batch is lost.\<close>

definition grown :: "ad_store \<Rightarrow> ad_store \<Rightarrow> bool" where
  "grown st st' \<longleftrightarrow> ad_Targets st' = ad_Targets st \<and> ad_TaskTargets st' = ad_TaskTargets st
     \<and> dom (map_of (ad_Tasks st)) \<subseteq> dom (map_of (ad_Tasks st'))
     \<and> dom (map_of (ad_Batches st)) \<subseteq> dom (map_of (ad_Batches st'))"

lemma kept_grown: "kept st st' \<Longrightarrow> grown st st'"
  by (simp add: kept_def grown_def)

lemma grown_trans: "grown st st1 \<Longrightarrow> grown st1 st2 \<Longrightarrow> grown st st2"
  unfolding grown_def by (metis order_trans)

lemma batch_keys_grown: "grown st st' \<Longrightarrow> batch_keys st' B = batch_keys st B"
  by (simp add: grown_def batch_keys_def ListBatchTasks_def ListBatchTargetTasks_def)

lemma lost_task_grown:
  assumes "grown st st'" "lost_task st' B e"
  shows "lost_task st B e"
  using assms(2) assms(1) unfolding lost_task_def GetTask_lost batch_keys_grown [OF assms(1)] grown_def by blast

lemmas lost_task_kept = lost_task_grown [OF kept_grown]

lemma works_ok [simp]: "works B st (Inr x, st)"
  by (simp add: works_def)

lemma works_slift: "(\<And>e. r = Inl e \<Longrightarrow> lost_task st B e) \<Longrightarrow> works B st (slift r st)"
  by (simp add: works_def slift_def)

lemma works_sbind:
  assumes "works B st r" "\<And>x. works B (snd r) (k x (snd r))"
  shows "works B st (sbind r k)"
proof (cases r)
  case (Pair a s)
  then show ?thesis
    using assms kept_trans lost_task_kept by (cases a) (fastforce simp: works_def)+
qed

lemma works_sfor:
  assumes "\<And>x s. x \<in> set xs \<Longrightarrow> kept st s \<Longrightarrow> works B s (f x s)"
  shows "works B st (sfor f xs st)"
proof -
  have "kept st s \<Longrightarrow> works B s (sfor f xs s)" for s
    using assms
  proof (induction xs arbitrary: s)
    case (Cons x xs)
    have x: "works B s (f x s)" using Cons.prems by simp
    then have "kept st (snd (f x s))" using Cons.prems(1) by (auto simp: works_def intro: kept_trans)
    then have "works B (snd (f x s)) (sfor f xs (snd (f x s)))" using Cons by simp
    then show ?case by (simp add: works_sbind [OF x])
  qed simp
  then show ?thesis by simp
qed

lemma works_gather:
  assumes "\<And>x s. works B s (f x s)"
  shows "works B st (gather f xs sig st)"
  by (induction xs arbitrary: sig st) (auto intro: works_sbind assms)

lemma kept_SaveTask: "kept st (SaveTask t st)"
  by (auto simp: kept_def SaveTask_def)

lemma target_key: "GetBatchTaskID B tg st \<noteq> [] \<Longrightarrow> GetBatchTaskID B tg st \<in> batch_keys st B"
  using get_string_in [of "HGetAll (ad_Targets st) B" tg]
  by (force simp: GetBatchTaskID_def batch_keys_def ListBatchTargetTasks_def)

lemma works_update: "works B st (updateTaskStateByTarget now B tg s e st)"
  using target_key [of B tg st]
  by (auto simp: updateTaskStateByTarget_def Let_def works_def lost_task_def GetTask_lost kept_SaveTask split: sum.splits)

lemma works_set_task_state: "works B st (set_task_state now B s e tg st)"
  unfolding set_task_state_def by (rule works_sbind [OF works_update]) simp

lemma works_applyUpload: "works B st (applyUploadDispatchResult now B ds g r st)"
  unfolding applyUploadDispatchResult_def
  by (auto intro!: works_gather works_sbind works_update split: prod.splits)

lemma works_applyResult: "works B st (applyDispatchResult now B ds g r st)"
  unfolding applyDispatchResult_def
  by (auto simp: Let_def intro!: works_applyUpload works_sbind works_update)

lemma works_refreshGSE: "works B st (refreshGSETaskProgress env now B ds g st)"
  unfolding refreshGSETaskProgress_def by (auto intro!: works_gather works_applyResult split: option.splits)

lemma works_refreshProgress: "works (ab_BatchID b) st (refreshDispatchProgress cfg env now b ds st)"
  unfolding refreshDispatchProgress_def by (auto intro!: works_sbind works_gather works_refreshGSE)

lemma count_states_lost: "count_states ks st c = Inl e \<Longrightarrow> \<exists>k \<in> set ks. GetTask k st = Inl e"
proof (induction ks arbitrary: c)
  case (Cons k ks)
  then show ?case by (cases "GetTask k st") fastforce+
qed simp

lemma works_count: "works B st (slift (countBatchTaskStates B st) st)"
  by (rule works_slift) (auto simp: countBatchTaskStates_def lost_task_def batch_keys_def GetTask_lost dest!: count_states_lost)

lemma works_finalize: "works B st (finalizeBatchTasks now B s e st)"
  unfolding finalizeBatchTasks_def
  by (rule works_sfor) (auto simp: finalize_task_def works_def kept_SaveTask split: sum.splits)

lemma works_clear: "k \<in> batch_keys st B \<Longrightarrow> works B st (clear_inflight k st)"
  unfolding clear_inflight_def
  by (rule works_sbind) (auto intro!: works_slift simp: lost_task_def GetTask_lost slift_def works_def kept_def ClearInflightTaskID_def)

lemma works_finalizeCompleted: "works (ab_BatchID b) st (finalizeCompletedBatch b st)"
  unfolding finalizeCompletedBatch_def
proof (rule works_sbind)
  show "works (ab_BatchID b) st (sfor clear_inflight (ListBatchTasks (ab_BatchID b) st) st)"
    by (rule works_sfor) (auto intro!: works_clear simp: batch_keys_kept, simp add: batch_keys_def)
qed (simp add: works_def kept_def ClearOpenBatchID_def RemoveDueBatchID_def)

lemma kept_dispatchShard: "kept st (snd (dispatchShard env now b tgs st))"
proof -
  have "kept st (snd (sfor (set_task_state now (ab_BatchID b) s e) tgs st))" for s e
    using works_sfor [where f = "set_task_state now (ab_BatchID b) s e" and xs = tgs and st = st and B = "ab_BatchID b",
        OF works_set_task_state] by (simp add: works_def)
  then show ?thesis
    by (auto simp: dispatchShard_def Let_def split: prod.splits sum.splits) (metis snd_conv)+
qed

lemma kept_dispatch_shards: "kept st (dispatch_shards env now b shards st)"
proof (induction shards arbitrary: st)
  case (Cons shard rest)
  have "kept st (RecordBatchDispatch B m (snd (dispatchShard env now b shard st)))" for B m
    using kept_dispatchShard [of st env now b shard] by (simp add: kept_def RecordBatchDispatch_def)
  from kept_trans [OF this Cons.IH] show ?case by (simp add: case_prod_unfold Let_def)
qed simp

section \<open>The records of the batches\<close>

definition record_ok :: "ad_config \<Rightarrow> ad_batch \<Rightarrow> bool" where
  "record_ok cfg b \<longleftrightarrow> 0 < ab_TargetCount b \<and> int (ab_TargetCount b) \<le> ac_MaxTargetsPerBatch cfg
     \<and> (case ab_State b of
          BCollecting \<Rightarrow> ab_DispatchAttempt b = 0 \<and> ab_DispatchStartedAt b = None \<and> ab_OpenUntil b \<noteq> None
        | BDispatching \<Rightarrow> ab_DispatchAttempt b = 1 \<and> ab_DispatchStartedAt b \<noteq> None \<and> ab_OpenUntil b = None
        | _ \<Rightarrow> ab_DispatchAttempt b \<le> 1
            \<and> ab_State b = deriveTerminalBatchState (ab_SuccessCount b) (ab_FailedCount b) (ab_TimeoutCount b))"

definition records_ok :: "ad_config \<Rightarrow> ad_store \<Rightarrow> bool" where
  "records_ok cfg st \<longleftrightarrow> (\<forall>B b. map_of (ad_Batches st) B = Some b \<longrightarrow> ab_BatchID b = B \<and> record_ok cfg b)"

text \<open>What a process writes for a batch that it read at some time before.\<close>

inductive writes :: "ad_config \<Rightarrow> ad_batch \<Rightarrow> ad_batch \<Rightarrow> bool" for cfg where
  joins: "ab_State b = BCollecting \<Longrightarrow> ac_MaxTargetsPerBatch cfg \<le> 0 \<or> int (ab_TargetCount b) < ac_MaxTargetsPerBatch cfg
    \<Longrightarrow> writes cfg b (joined_batch cfg now b)"
| dispatches: "ab_State b = BCollecting \<Longrightarrow> writes cfg b (dispatched_batch cfg env now b)"
| splits: "ab_State b = BDispatching \<Longrightarrow> writes cfg b (b\<lparr>ab_ShardCount := n\<rparr>)"
| renews: "ab_State b = BDispatching \<Longrightarrow> writes cfg b (renewed_batch cfg now b)"
| counts: "ab_State b = BDispatching \<Longrightarrow> writes cfg b (with_counts c b)"
| completes: "ab_State b = BDispatching \<Longrightarrow> writes cfg b (completed_batch c b)"
| times_out: "writes cfg b (timed_out_batch c b)"

lemma derive_cases:
  "deriveTerminalBatchState a b c \<noteq> BCollecting" "deriveTerminalBatchState a b c \<noteq> BDispatching"
  by (simp_all add: deriveTerminalBatchState_def)

lemma writes_ok:
  assumes "writes cfg b b'" "record_ok cfg b" "AsyncDownloadV2_validate cfg"
  shows "record_ok cfg b' \<and> ab_BatchID b' = ab_BatchID b"
  using assms(1)
proof cases
  case (completes c)
  then show ?thesis using assms(2) derive_cases [of "tc_Success c" "tc_Failed c" "tc_Timeout c"]
    by (auto simp: record_ok_def completed_batch_def with_counts_def split: ad_batch_state.splits)
next
  case (times_out c)
  then show ?thesis using assms(2) derive_cases [of "tc_Success c" "tc_Failed c" "tc_Timeout c"]
    by (auto simp: record_ok_def timed_out_batch_def with_counts_def split: ad_batch_state.splits)
qed (use assms(2,3) in \<open>auto simp: record_ok_def joined_batch_def dispatched_batch_def renewed_batch_def with_counts_def
      AsyncDownloadV2_validate_def\<close>)

lemma new_batch_ok: "AsyncDownloadV2_validate cfg \<Longrightarrow> record_ok cfg (newV2Batch rq uuid now window)"
  by (simp add: record_ok_def newV2Batch_def AsyncDownloadV2_validate_def)

lemma records_ok_SaveBatch: "records_ok cfg st \<Longrightarrow> record_ok cfg b \<Longrightarrow> records_ok cfg (SaveBatch b st)"
  by (simp add: records_ok_def SaveBatch_def)

lemma records_ok_cong: "ad_Batches st' = ad_Batches st \<Longrightarrow> records_ok cfg st' = records_ok cfg st"
  by (simp add: records_ok_def)

lemma records_ok_kept: "kept st st' \<Longrightarrow> records_ok cfg st \<Longrightarrow> records_ok cfg st'"
  by (simp add: records_ok_def kept_def)

lemma GetBatch_ok: "records_ok cfg st \<Longrightarrow> GetBatch B st = Inr b \<Longrightarrow> ab_BatchID b = B \<and> record_ok cfg b"
  by (auto simp: records_ok_def GetBatch_def split: option.splits)

section \<open>Whole requests and rounds\<close>

lemma request_records:
  assumes v: "AsyncDownloadV2_validate cfg" and r: "records_ok cfg st"
  shows "records_ok cfg (snd (CreateTask cfg now buuid tuuid rq st))"
proof -
  have reuse: "records_ok cfg s'" if "tryReuseInflightTask fv it s = (t, s')" "records_ok cfg s" for fv it s t s'
    using that(2) reuse_inv(1) [OF that(1)] by (simp add: records_ok_def)
  have create: "records_ok cfg (snd (create_batch cfg now buuid tuuid rq s))" if "records_ok cfg s" for s
    using records_ok_SaveBatch [OF that new_batch_ok [OF v]]
    by (simp add: create_batch_def Let_def CreateBatchAndTask_def SaveTask_def records_ok_def)
  have join: "records_ok cfg (snd (join_batch cfg now tuuid rq b s))"
    if "records_ok cfg s" "record_ok cfg b" "ab_State b = BCollecting"
      "ac_MaxTargetsPerBatch cfg \<le> 0 \<or> int (ab_TargetCount b) < ac_MaxTargetsPerBatch cfg" for s b
    using records_ok_SaveBatch [OF that(1), of "joined_batch cfg now b"] writes_ok [OF writes.joins that(2) v] that(3,4)
    by (simp add: join_batch_def Let_def AddTaskToBatch_def SaveTask_def ClearOpenBatchID_def records_ok_def)
  have coll: "record_ok cfg b \<and> ab_State b = BCollecting" if "collecting_batch now B s = Some b" "records_ok cfg s" for B s b
    using that GetBatch_ok by (auto simp: collecting_batch_def split: if_splits sum.splits)
  have clear: "records_ok cfg (ClearOpenBatchID k s) = records_ok cfg s" for k s
    by (simp add: records_ok_def ClearOpenBatchID_def)
  obtain t1 s1 where r1: "tryReuseInflightTask (file_version rq) (BuildInflightTargetKey (target_of rq) (rq_User rq) (rq_Dir rq)) st = (t1, s1)"
    by fastforce
  obtain t2 s2 where r2: "tryReuseInflightTask (file_version rq) (BuildInflightTargetKey (target_of rq) (rq_User rq) (rq_Dir rq)) s1 = (t2, s2)"
    by fastforce
  note o1 = reuse [OF r1 r] and o2 = reuse [OF r2 reuse [OF r1 r]]
  show ?thesis
    using o1 o2 create clear join coll
    by (auto simp: CreateTask_def createOrJoinBatch_def Let_def r1 r2 split: option.splits)
qed

lemma process_records:
  assumes v: "AsyncDownloadV2_validate cfg" and r: "records_ok cfg st"
  shows "records_ok cfg (snd (ProcessBatch cfg env now B st))"
proof (cases "\<exists>b. GetBatch B st = Inr b \<and> ab_State b = BCollecting")
  case True
  then obtain b where b: "GetBatch B st = Inr b" "ab_State b = BCollecting" by blast
  let ?b1 = "dispatched_batch cfg env now b"
  have o1: "record_ok cfg ?b1" using writes_ok [OF writes.dispatches [OF b(2)] _ v] GetBatch_ok [OF r b(1)] by blast
  moreover have "ab_State ?b1 = BDispatching" by (simp add: dispatched_batch_def)
  ultimately have o2: "record_ok cfg (?b1\<lparr>ab_ShardCount := n\<rparr>)" for n using writes_ok [OF writes.splits _ v] by blast
  have "records_ok cfg (ClearOpenBatchID k (SaveBatch ?b1 st))" for k
    using records_ok_SaveBatch [OF r o1] by (simp add: records_ok_def ClearOpenBatchID_def)
  then show ?thesis
    using b records_ok_kept [OF kept_dispatch_shards records_ok_SaveBatch [OF _ o2]] by (simp add: ProcessBatch_def Let_def)
next
  case False
  then show ?thesis using r by (auto simp: ProcessBatch_def split: sum.splits)
qed

text \<open>What the refresh of one batch achieves.\<close>

definition refreshed :: "ad_config \<Rightarrow> nat \<Rightarrow> string \<Rightarrow> ad_store \<Rightarrow> (ad_err + unit) \<times> ad_store \<Rightarrow> bool" where
  "refreshed cfg now B st r \<longleftrightarrow> records_ok cfg (snd r) \<and> grown st (snd r)
     \<and> (\<forall>B'. B' \<noteq> B \<longrightarrow> map_of (ad_Batches (snd r)) B' = map_of (ad_Batches st) B')
     \<and> (fst r = Inr () \<longrightarrow> (\<forall>b'. map_of (ad_Batches (snd r)) B = Some b' \<longrightarrow> ab_State b' = BDispatching
          \<longrightarrow> \<not> hasDispatchExceededMaxDuration now b'))
     \<and> (\<forall>e. fst r = Inl e \<longrightarrow> lost_task st B e)"

lemma refreshed_kept: "kept st st1 \<Longrightarrow> refreshed cfg now B st1 r \<Longrightarrow> refreshed cfg now B st r"
  using grown_trans [OF kept_grown] lost_task_kept by (auto simp: refreshed_def kept_def)

lemma refreshed_sbind:
  assumes "records_ok cfg st" "works B st r"
    and "\<And>x s. r = (Inr x, s) \<Longrightarrow> kept st s \<Longrightarrow> records_ok cfg s \<Longrightarrow> refreshed cfg now B s (k x s)"
  shows "refreshed cfg now B st (sbind r k)"
proof (cases r)
  case (Pair a s)
  then have s: "kept st s" "records_ok cfg s" using assms(1,2) records_ok_kept by (auto simp: works_def)
  show ?thesis
  proof (cases a)
    case (Inl e)
    then show ?thesis using Pair s assms(2) kept_grown [OF s(1)] by (auto simp: refreshed_def works_def kept_def)
  next
    case (Inr x)
    then show ?thesis using Pair s assms(3) refreshed_kept by auto
  qed
qed

lemma ending_refreshed:
  assumes "records_ok cfg st" "record_ok cfg b" "ab_BatchID b = B" "ab_State b \<noteq> BDispatching"
  shows "refreshed cfg now B st (finalizeCompletedBatch b (SaveBatch b st))"
proof -
  let ?s = "SaveBatch b st" and ?r = "finalizeCompletedBatch b (SaveBatch b st)"
  have w: "works B ?s ?r" using works_finalizeCompleted [of b ?s] assms(3) by simp
  have g: "grown st ?s" by (auto simp: grown_def SaveBatch_def)
  have "map_of (ad_Batches (snd ?r)) = (map_of (ad_Batches st))(B \<mapsto> b)"
    using w assms(3) by (simp add: works_def kept_def SaveBatch_def)
  moreover have "records_ok cfg (snd ?r)"
    using w records_ok_kept records_ok_SaveBatch [OF assms(1,2)] by (auto simp: works_def)
  moreover have "grown st (snd ?r)" using w grown_trans [OF g kept_grown] by (simp add: works_def)
  moreover have "\<forall>e. fst ?r = Inl e \<longrightarrow> lost_task st B e" using w lost_task_grown [OF g] by (simp add: works_def)
  ultimately show ?thesis using assms(4) by (simp add: refreshed_def)
qed

lemma refreshProgress_batch:
  "refreshDispatchProgress cfg env now b ds st = (Inr b1, st1) \<Longrightarrow> b1 = b \<or> b1 = renewed_batch cfg now b"
  by (auto simp: refreshDispatchProgress_def res_simps split: if_splits)

lemma refresh_refreshed:
  assumes v: "AsyncDownloadV2_validate cfg" and r: "records_ok cfg st"
    and b: "GetBatch B st = Inr b" "ab_State b = BDispatching"
  shows "refreshed cfg now B st (refreshDispatchingBatch cfg env now B st)"
proof -
  have id: "ab_BatchID b = B" and ok: "record_ok cfg b" using GetBatch_ok [OF r b(1)] by auto
  have repair: "refreshed cfg now B s (RepairTimeoutBatch now B s)" if "kept st s" "records_ok cfg s" for s
  proof -
    have g: "GetBatch B s = Inr b" using b(1) that(1) by (simp add: GetBatch_def kept_def)
    have fin: "refreshed cfg now B s' (finalizeCompletedBatch (timed_out_batch c b) (SaveBatch (timed_out_batch c b) s'))"
      if "records_ok cfg s'" for c s'
      using ending_refreshed [OF that, of "timed_out_batch c b"] writes_ok [OF writes.times_out ok v, of c] id
        derive_cases(2) [of "tc_Success c" "tc_Failed c" "tc_Timeout c"]
      by (simp add: timed_out_batch_def with_counts_def)
    show ?thesis
      unfolding RepairTimeoutBatch_def FinalizeTimeoutBatchTasks_def
      by (intro refreshed_sbind that(2) works_finalize works_count works_slift)
        (auto simp: slift_def g Let_def intro!: fin)
  qed
  have count: "refreshed cfg now B s (sbind (slift (countBatchTaskStates B s) s) k)"
    if "records_ok cfg s" "\<And>c. refreshed cfg now B s (k c s)" for s k
    by (rule refreshed_sbind [OF that(1) works_count]) (use that(2) in \<open>auto simp: slift_def\<close>)
  let ?k = "\<lambda>b1 s. sbind (slift (countBatchTaskStates B s) s) (\<lambda>c s. (let batch1 = with_counts c b1 in
      if tc_Running c = 0 \<and> tc_Pending c = 0 then
        (let batch2 = completed_batch c b1 in finalizeCompletedBatch batch2 (SaveBatch batch2 s))
      else if hasDispatchExceededMaxDuration now batch1 then RepairTimeoutBatch now B s
      else if (case ab_DispatchLeaseUntil b1 of None \<Rightarrow> False | Some t \<Rightarrow> t < now) then RepairTimeoutBatch now B s
      else (Inr (), SaveBatch batch1 s)))"
  have k: "refreshed cfg now B s (?k b1 s)"
    if b1: "b1 = b \<or> b1 = renewed_batch cfg now b" and s: "kept st s" "records_ok cfg s" for b1 s
  proof (rule count [OF s(2)])
    fix c
    have o1: "record_ok cfg b1" "ab_BatchID b1 = B" "ab_State b1 = BDispatching"
      using b1 writes_ok [OF writes.renews [OF b(2)] ok v, of now] ok id b(2) by (auto simp: renewed_batch_def)
    have oc: "record_ok cfg (completed_batch c b1) \<and> ab_BatchID (completed_batch c b1) = B"
      "record_ok cfg (with_counts c b1) \<and> ab_BatchID (with_counts c b1) = B"
      using writes_ok [OF writes.completes [OF o1(3)] o1(1) v, of c] writes_ok [OF writes.counts [OF o1(3)] o1(1) v, of c] o1(2) by auto
    have "refreshed cfg now B s (finalizeCompletedBatch (completed_batch c b1) (SaveBatch (completed_batch c b1) s))"
      using ending_refreshed [OF s(2)] oc(1) derive_cases(2) [of "tc_Success c" "tc_Failed c" "tc_Timeout c"]
      by (simp add: completed_batch_def)
    moreover have "refreshed cfg now B s (Inr (), SaveBatch (with_counts c b1) s)"
      if "\<not> hasDispatchExceededMaxDuration now (with_counts c b1)"
      using that oc(2) records_ok_SaveBatch [OF s(2)] by (auto simp: refreshed_def grown_def SaveBatch_def)
    ultimately show "refreshed cfg now B s (let batch1 = with_counts c b1 in
      if tc_Running c = 0 \<and> tc_Pending c = 0 then
        (let batch2 = completed_batch c b1 in finalizeCompletedBatch batch2 (SaveBatch batch2 s))
      else if hasDispatchExceededMaxDuration now batch1 then RepairTimeoutBatch now B s
      else if (case ab_DispatchLeaseUntil b1 of None \<Rightarrow> False | Some t \<Rightarrow> t < now) then RepairTimeoutBatch now B s
      else (Inr (), SaveBatch batch1 s))"
      using repair [OF s] by (simp add: Let_def)
  qed
  have "refreshed cfg now B st (sbind (refreshDispatchProgress cfg env now b (ListBatchDispatchState B st) st) ?k)"
    by (rule refreshed_sbind [OF r]) (use works_refreshProgress [of b st] id k refreshProgress_batch in auto)
  moreover have "refreshDispatchingBatch cfg env now B st
      = sbind (refreshDispatchProgress cfg env now b (ListBatchDispatchState B st) st) ?k"
    using b by (simp add: refreshDispatchingBatch_def slift_def)
  ultimately show ?thesis by simp
qed

lemma refresh_all:
  assumes v: "AsyncDownloadV2_validate cfg"
    and "records_ok cfg st" "set Bs \<subseteq> dom (map_of (ad_Batches st))"
    and "\<And>B b. map_of (ad_Batches st) B = Some b \<Longrightarrow> ab_State b = BDispatching \<Longrightarrow> B \<in> set Bs \<or> \<not> hasDispatchExceededMaxDuration now b"
    and "sfor (refreshDispatchingBatch cfg env now) Bs st = (r, st')"
  shows "records_ok cfg st' \<and> (r = Inr () \<longrightarrow> (\<forall>B b. map_of (ad_Batches st') B = Some b \<longrightarrow> ab_State b = BDispatching
      \<longrightarrow> \<not> hasDispatchExceededMaxDuration now b))
    \<and> (\<forall>e. r = Inl e \<longrightarrow> (\<exists>B. lost_task st B e))"
  using assms(2-)
proof (induction Bs arbitrary: st)
  case (Cons B Bs)
  let ?r = "refreshDispatchingBatch cfg env now B st"
  obtain b where b: "map_of (ad_Batches st) B = Some b" using Cons.prems(2) by auto
  then have gb: "GetBatch B st = Inr b" by (simp add: GetBatch_def)
  have f: "refreshed cfg now B st ?r"
  proof (cases "ab_State b = BDispatching")
    case True
    then show ?thesis using refresh_refreshed [OF v Cons.prems(1) gb] by simp
  next
    case False
    then have "?r = (Inr (), st)" using gb by (simp add: refreshDispatchingBatch_def slift_def)
    then show ?thesis using Cons.prems(1) b False by (simp add: refreshed_def grown_def)
  qed
  obtain a s where r: "?r = (a, s)" by fastforce
  have g: "grown st s" and o: "records_ok cfg s" using f r by (auto simp: refreshed_def)
  show ?case
  proof (cases a)
    case (Inl e)
    then show ?thesis using Cons.prems(4) f r by (auto simp: refreshed_def)
  next
    case (Inr u)
    have sub: "set Bs \<subseteq> dom (map_of (ad_Batches s))" using Cons.prems(2) g
      unfolding grown_def by (metis order_trans set_subset_Cons)
    have old: "B' \<in> set Bs \<or> \<not> hasDispatchExceededMaxDuration now b'"
      if "map_of (ad_Batches s) B' = Some b'" "ab_State b' = BDispatching" for B' b'
      using that f r Inr Cons.prems(3) [of B' b'] by (cases "B' = B") (auto simp: refreshed_def)
    have "sfor (refreshDispatchingBatch cfg env now) Bs s = (r, st')" using Cons.prems(4) r Inr by simp
    from Cons.IH [OF o sub old this] show ?thesis using lost_task_grown [OF g] by blast
  qed
qed auto

lemma fold_process:
  assumes "AsyncDownloadV2_validate cfg" "records_ok cfg st"
  shows "records_ok cfg (fold (\<lambda>B st. snd (ProcessBatch cfg env now B st)) Bs st)
    \<and> grown st (fold (\<lambda>B st. snd (ProcessBatch cfg env now B st)) Bs st)"
  using assms(2)
proof (induction Bs arbitrary: st)
  case (Cons B Bs)
  have "grown st (snd (ProcessBatch cfg env now B st))"
  proof (cases "\<exists>b. GetBatch B st = Inr b \<and> ab_State b = BCollecting")
    case True
    then obtain b where b: "GetBatch B st = Inr b" "ab_State b = BCollecting" by blast
    have "grown st (SaveBatch b2 (ClearOpenBatchID k (SaveBatch b1 st)))" for b1 b2 k
      by (auto simp: grown_def SaveBatch_def ClearOpenBatchID_def)
    from grown_trans [OF this kept_grown [OF kept_dispatch_shards]] show ?thesis
      using b by (simp add: ProcessBatch_def Let_def)
  next
    case False
    then show ?thesis by (auto simp: ProcessBatch_def grown_def split: sum.splits)
  qed
  then show ?case using Cons.IH [OF process_records [OF assms(1) Cons.prems]] grown_trans by auto
qed (simp add: grown_def)

text \<open>A round on any store whose records are in order.\<close>

lemma round_result:
  assumes v: "AsyncDownloadV2_validate cfg" and o: "records_ok cfg st"
    and r: "ProcessDueBatches cfg env now st = (r, st')"
  shows "records_ok cfg st' \<and> (r = Inr () \<longrightarrow> (\<forall>B b. map_of (ad_Batches st') B = Some b \<longrightarrow> ab_State b = BDispatching
      \<longrightarrow> \<not> hasDispatchExceededMaxDuration now b))
    \<and> (\<forall>e. r = Inl e \<longrightarrow> (\<exists>B. lost_task st B e))"
proof -
  let ?s = "fold (\<lambda>B st. snd (ProcessBatch cfg env now B st)) (ListDueBatchIDs now (ac_MaxDueBatchesPerTick cfg) st) st"
  have s: "records_ok cfg ?s" "grown st ?s" using fold_process [OF v o] by auto
  have m: "B \<in> set (ListDispatchingBatchIDs ?s) \<longleftrightarrow> (\<exists>b. map_of (ad_Batches ?s) B = Some b \<and> ab_State b = BDispatching)" for B
  proof
    assume "B \<in> set (ListDispatchingBatchIDs ?s)"
    then show "\<exists>b. map_of (ad_Batches ?s) B = Some b \<and> ab_State b = BDispatching"
      using s(1) by (auto simp: ListDispatchingBatchIDs_def map_filter_def records_ok_def split: option.splits if_splits)
  next
    assume "\<exists>b. map_of (ad_Batches ?s) B = Some b \<and> ab_State b = BDispatching"
    then obtain b where b: "map_of (ad_Batches ?s) B = Some b" "ab_State b = BDispatching" by blast
    have "(B, b) \<in> set (ad_Batches ?s)" using b(1) by (rule map_of_SomeD)
    then show "B \<in> set (ListDispatchingBatchIDs ?s)"
      using b s(1) by (force simp: ListDispatchingBatchIDs_def map_filter_def records_ok_def)
  qed
  have "sfor (refreshDispatchingBatch cfg env now) (ListDispatchingBatchIDs ?s) ?s = (r, st')"
    using r by (simp add: ProcessDueBatches_def refreshDispatchingBatches_def)
  moreover have "set (ListDispatchingBatchIDs ?s) \<subseteq> dom (map_of (ad_Batches ?s))" using m by blast
  ultimately show ?thesis using refresh_all [OF v s(1)] m lost_task_grown [OF s(2)] by blast
qed

section \<open>Histories with races and expiry\<close>

text \<open>
  The store, and the records that some process has read or built and may still write. Requests and
  rounds may run as a whole; or a process reads the record of a batch, computes from one it has, and
  writes one it has, each in a step of its own and at any time. A key may expire at any time. All other
  families of keys (tasks, targets, transfers, the keys that lead to a task or a batch, and the list of
  due batches, which \<open>SaveBatch\<close> writes with a second command) may change between two steps in any way.
\<close>

record ad_world =
  aw_Store :: ad_store
  aw_Views :: "ad_batch set"

inductive ad_move :: "ad_config \<Rightarrow> ad_world \<Rightarrow> ad_world \<Rightarrow> bool" for cfg where
  request: "ad_move cfg w (w\<lparr>aw_Store := snd (CreateTask cfg now buuid tuuid rq (aw_Store w))\<rparr>)"
| round: "ad_move cfg w (w\<lparr>aw_Store := snd (ProcessDueBatches cfg env now (aw_Store w))\<rparr>)"
| reads: "GetBatch B (aw_Store w) = Inr b \<Longrightarrow> ad_move cfg w (w\<lparr>aw_Views := insert b (aw_Views w)\<rparr>)"
| starts: "ad_move cfg w (w\<lparr>aw_Views := insert (newV2Batch rq uuid now (seconds (ac_CollectWindowSeconds cfg))) (aw_Views w)\<rparr>)"
| computes: "b \<in> aw_Views w \<Longrightarrow> writes cfg b b' \<Longrightarrow> ad_move cfg w (w\<lparr>aw_Views := insert b' (aw_Views w)\<rparr>)"
| saves: "b \<in> aw_Views w \<Longrightarrow> ad_move cfg w (w\<lparr>aw_Store := SaveBatch b (aw_Store w)\<rparr>)"
| expires: "ad_move cfg w (w\<lparr>aw_Store := (aw_Store w)\<lparr>ad_Batches := AList.delete B (ad_Batches (aw_Store w))\<rparr>\<rparr>)"
| other_keys: "ad_Batches st = ad_Batches (aw_Store w) \<Longrightarrow> ad_move cfg w (w\<lparr>aw_Store := st\<rparr>)"

definition world_init :: "ad_world \<Rightarrow> bool" where
  "world_init w \<longleftrightarrow> aw_Store w = empty_store \<and> aw_Views w = {}"

definition world_next :: "ad_config \<Rightarrow> ad_world \<Rightarrow> ad_world \<Rightarrow> bool" where
  "world_next cfg w w' \<longleftrightarrow> AsyncDownloadV2_validate cfg \<and> ad_move cfg w w'"

definition world_ok :: "ad_config \<Rightarrow> ad_world \<Rightarrow> bool" where
  "world_ok cfg w \<longleftrightarrow> records_ok cfg (aw_Store w) \<and> (\<forall>b \<in> aw_Views w. record_ok cfg b)"

lemma move_ok:
  assumes "ad_move cfg w w'" "AsyncDownloadV2_validate cfg" "world_ok cfg w"
  shows "world_ok cfg w'"
  using assms(1)
proof cases
  case (request now buuid tuuid rq)
  then show ?thesis using request_records [OF assms(2)] assms(3) by (simp add: world_ok_def)
next
  case (round env now)
  obtain r st' where "ProcessDueBatches cfg env now (aw_Store w) = (r, st')" by fastforce
  then show ?thesis using round_result [OF assms(2)] assms(3) round by (auto simp: world_ok_def)
next
  case (computes b b')
  then show ?thesis using writes_ok [OF computes(3) _ assms(2)] assms(3) by (auto simp: world_ok_def)
next
  case (saves b)
  then show ?thesis using records_ok_SaveBatch assms(3) by (auto simp: world_ok_def)
next
  case (reads B b)
  then show ?thesis using GetBatch_ok assms(3) by (auto simp: world_ok_def)
next
  case (starts rq uuid now)
  then show ?thesis using new_batch_ok [OF assms(2)] assms(3) by (simp add: world_ok_def)
next
  case (expires B)
  then show ?thesis using assms(3) by (simp add: world_ok_def records_ok_def)
next
  case (other_keys st)
  show ?thesis using assms(3) records_ok_cong [OF other_keys(2)] by (simp add: other_keys(1) world_ok_def)
qed

interpretation races: transition_system world_init "world_next cfg" "world_ok cfg" for cfg
proof
  show "world_init w \<Longrightarrow> world_ok cfg w" for w
    by (simp add: world_init_def world_ok_def records_ok_def empty_store_def)
qed (auto simp: world_next_def intro: move_ok)

section \<open>The properties\<close>

text \<open>
  C12: Whatever requests, rounds of the scheduler and single reads and writes of several feed servers
  follow each other, in any interleaving and with any keys that expire or change between them, every
  record of a batch is in order: it has a target and no more than configured; while it collects it has
  a window and no dispatch has begun; while it is dispatched its dispatch is its first and the window
  is gone; and its final state is the one its counts give, with at most one dispatch counted, also
  when a late write has made it collect and be dispatched again.
\<close>

theorem reachable_records_consistent:
  assumes "reach world_init (world_next cfg) w" "GetBatch B (aw_Store w) = Inr b"
  shows "ab_BatchID b = B \<and> 0 < ab_TargetCount b \<and> int (ab_TargetCount b) \<le> ac_MaxTargetsPerBatch cfg
    \<and> (ab_State b = BCollecting \<longrightarrow> ab_DispatchAttempt b = 0 \<and> ab_DispatchStartedAt b = None \<and> ab_OpenUntil b \<noteq> None)
    \<and> (ab_State b = BDispatching \<longrightarrow> ab_DispatchAttempt b = 1 \<and> ab_DispatchStartedAt b \<noteq> None \<and> ab_OpenUntil b = None)
    \<and> (ab_State b \<in> {BDone, BPartial, BFailed} \<longrightarrow> ab_DispatchAttempt b \<le> 1
        \<and> (ab_State b = BDone \<longleftrightarrow> ab_FailedCount b = 0 \<and> ab_TimeoutCount b = 0)
        \<and> (ab_State b = BFailed \<longleftrightarrow> ab_SuccessCount b = 0 \<and> 0 < ab_FailedCount b + ab_TimeoutCount b))"
proof -
  have "world_ok cfg w" by (rule races.reach_inv [OF assms(1)])
  then have "ab_BatchID b = B" "record_ok cfg b" using GetBatch_ok [OF _ assms(2)] by (auto simp: world_ok_def)
  then show ?thesis
    by (cases "ab_State b") (auto simp: record_ok_def deriveTerminalBatchState_def split: if_splits)
qed

text \<open>
  C13: A round of the scheduler, on any store that such a history leads to and without another writer
  during the round: either it succeeds, and then no batch is left whose dispatch began more than twenty
  minutes before, whatever the transfer service answers; or it fails, and then a task that the store
  lists for a batch is not in the store.
\<close>

theorem round_ends_old_dispatches:
  assumes "reach world_init (world_next cfg) w" "AsyncDownloadV2_validate cfg"
    and "ProcessDueBatches cfg env now (aw_Store w) = (r, st')"
  shows "case r of
      Inr _ \<Rightarrow> \<forall>B b t. GetBatch B st' = Inr b \<longrightarrow> ab_State b = BDispatching \<longrightarrow> ab_DispatchStartedAt b = Some t
        \<longrightarrow> now \<le> t + seconds (20 * 60)
    | Inl e \<Rightarrow> \<exists>B. \<exists>k \<in> batch_keys (aw_Store w) B. GetTask k (aw_Store w) = Inl e"
proof -
  have "records_ok cfg (aw_Store w)" using races.reach_inv [OF assms(1)] by (simp add: world_ok_def)
  note res = round_result [OF assms(2) this assms(3)]
  have "now \<le> t + seconds (20 * 60)"
    if "\<not> hasDispatchExceededMaxDuration now b" "ab_DispatchStartedAt b = Some t" for b t
    using that unfolding hasDispatchExceededMaxDuration_def by simp
  then show ?thesis using res
    by (cases r) (auto simp: lost_task_def GetBatch_def split: option.splits)
qed

section \<open>Concrete histories\<close>

definition ex_world :: "ad_store \<Rightarrow> ad_batch set \<Rightarrow> ad_world" where
  "ex_world st views = \<lparr>aw_Store = st, aw_Views = views\<rparr>"

text \<open>A request reads the batch, the scheduler dispatches it, and the request writes it with its task.\<close>

definition ex_read :: ad_batch where
  "ex_read = projr (GetBatch ''AsyncDownloadBatchV2:b1'' ex_created)"

lemma ex_read: "GetBatch ''AsyncDownloadBatchV2:b1'' ex_created = Inr ex_read" "ab_State ex_read = BCollecting"
  "ab_TargetCount ex_read = 1" "ac_MaxTargetsPerBatch ex_cfg = 5000" "ab_BatchID ex_read = ''AsyncDownloadBatchV2:b1''"
  by code_simp+

lemma ex_worlds:
  "reach world_init (world_next ex_cfg) (ex_world ex_sent {ex_read})"
  "reach world_init (world_next ex_cfg)
     (ex_world (SaveBatch (joined_batch ex_cfg 1 ex_read) ex_sent) {joined_batch ex_cfg 1 ex_read, ex_read})"
proof -
  have v: "AsyncDownloadV2_validate ex_cfg" by code_simp
  have step: "reach world_init (world_next ex_cfg) w \<Longrightarrow> ad_move ex_cfg w w' \<Longrightarrow> reach world_init (world_next ex_cfg) w'" for w w'
    using reach.step [of world_init "world_next ex_cfg" w w'] v by (simp add: world_next_def)
  have "reach world_init (world_next ex_cfg) (ex_world empty_store {})"
    by (rule reach.start) (simp add: world_init_def ex_world_def)
  from step [OF this ad_move.request] have "reach world_init (world_next ex_cfg) (ex_world ex_created {})"
    by (simp add: ex_world_def ex_created_def)
  moreover have "GetBatch ''AsyncDownloadBatchV2:b1'' (aw_Store (ex_world ex_created {})) = Inr ex_read"
    by (simp add: ex_world_def ex_read)
  ultimately have "reach world_init (world_next ex_cfg)
      ((ex_world ex_created {})\<lparr>aw_Views := insert ex_read (aw_Views (ex_world ex_created {}))\<rparr>)"
    using step ad_move.reads by blast
  then have "reach world_init (world_next ex_cfg) (ex_world ex_created {ex_read})" by (simp add: ex_world_def ex_read)
  from step [OF this ad_move.round] show c: "reach world_init (world_next ex_cfg) (ex_world ex_sent {ex_read})"
    by (simp add: ex_world_def ex_sent_def)
  have "writes ex_cfg ex_read (joined_batch ex_cfg 1 ex_read)" by (rule writes.joins) (simp_all add: ex_read)
  from step [OF c ad_move.computes [OF _ this]]
  have "reach world_init (world_next ex_cfg) (ex_world ex_sent {joined_batch ex_cfg 1 ex_read, ex_read})" by (simp add: ex_world_def)
  from step [OF this ad_move.saves] show "reach world_init (world_next ex_cfg)
      (ex_world (SaveBatch (joined_batch ex_cfg 1 ex_read) ex_sent) {joined_batch ex_cfg 1 ex_read, ex_read})"
    by (simp add: ex_world_def)
qed

theorem reachable_records_consistent_witness:
  "\<exists>b. GetBatch ''AsyncDownloadBatchV2:b1'' (SaveBatch (joined_batch ex_cfg 1 ex_read) ex_sent) = Inr b
    \<and> ab_State b = BCollecting \<and> ab_DispatchAttempt b = 0 \<and> ab_TargetCount b = 2"
proof -
  let ?b = "joined_batch ex_cfg 1 ex_read"
  have "GetBatch ''AsyncDownloadBatchV2:b1'' (aw_Store (ex_world (SaveBatch ?b ex_sent) {?b, ex_read})) = Inr ?b"
    by (simp add: ex_world_def GetBatch_def SaveBatch_def joined_batch_def ex_read)
  from reachable_records_consistent [OF ex_worlds(2) this] this show ?thesis
    by (simp add: ex_world_def joined_batch_def ex_read)
qed

theorem round_ends_old_dispatches_witness:
  "\<exists>st'. ProcessDueBatches ex_cfg ex_env (seconds 2000) ex_sent = (Inr (), st')
    \<and> (\<forall>b. GetBatch ''AsyncDownloadBatchV2:b1'' st' = Inr b \<longrightarrow> ab_State b = BDispatching \<longrightarrow> ab_DispatchStartedAt b \<noteq> Some (seconds 10))"
proof -
  obtain r st' where r: "ProcessDueBatches ex_cfg ex_env (seconds 2000) ex_sent = (r, st')" by fastforce
  have "is_ok (fst (ProcessDueBatches ex_cfg ex_env (seconds 2000) ex_sent))" by code_simp
  then have ok: "r = Inr ()" using r is_ok_Inr by fastforce
  have v: "AsyncDownloadV2_validate ex_cfg" by code_simp
  have "ProcessDueBatches ex_cfg ex_env (seconds 2000) (aw_Store (ex_world ex_sent {ex_read})) = (r, st')"
    using r by (simp add: ex_world_def)
  from round_ends_old_dispatches [OF ex_worlds(1) v this] r ok show ?thesis
    by (force simp: seconds_def)
qed

end
