(* ===== verification/Spec2Isabelle.thy ===== *)
theory Spec2Isabelle
  imports ReleaseMatch ApprovalProps ApprovalClaims CredentialClaims ProcExprProps KvClaims PathTools ToolsLib IamAdapt ProcOpsExamples AsyncRaces
begin

text \<open>
  Verification library of the BlueKing configuration platform bk-bscp.

  \<^bold>\<open>The program.\<close> bk-bscp stores the configuration of applications, as files and as keys with
  values, publishes releases of it to groups of instances, and operates the processes of a business.
  Its parts are separate servers. The data service (\<open>cmd/data-service\<close>) owns the tables; its
  handlers run on the data access objects of \<open>internal/dal/dao\<close> and on the secret store
  (\<open>internal/dal/vault\<close>). The feed server (\<open>cmd/feed-server\<close>) answers the instances: which release
  an instance gets, what its credential may read, and the asynchronous transfer of large files. The
  auth server (\<open>cmd/auth-server\<close>) decides with the policies of the permission centre
  (\<open>pkg/iam\<close>). The validators, selectors, expressions and small tools of \<open>pkg\<close> and
  \<open>internal/expression\<close> are used by all of them. The parts share the tables: publication writes the
  released groups that the feed server matches, the synchronisation with the configuration
  management database writes the processes that expressions select and that operations start and
  stop, and the stores of keys and files are read by a release.

  \<^bold>\<open>Conventions.\<close> A structure of the code is a record, an enumeration a datatype, and an operation a
  function with its name. A result with an error is a sum, with the error on the left. A table is a
  list of rows in the order of their ids, a transaction a function from store to store of which the
  caller keeps the old store when it fails; operations that keep what they wrote when they fail
  return the result and the store (\<open>Effects\<close>). A Go map that is iterated is a list of entries, so
  that a statement for every list is one for every order of iteration. Numbers that can overflow
  are words or have the wrap-around written out; the other ids and counts are natural numbers. What
  is not part of the repository is an argument: the decoders of JSON, YAML and XML, the
  glob matcher, the digests, the clock, the ticket service, the secret store, the transfer service,
  the agent service and the configuration management database.

  \<^bold>\<open>Foundations.\<close>
  \<^item> \<open>Prelude\<close>: results, Go maps and the generic lemmas on lists. \<open>Effects\<close>: operations that keep
    what they wrote.
  \<^item> \<open>GoStrings\<close>, \<open>GoFloat\<close>, \<open>GoHash\<close>, \<open>GoTime\<close>, \<open>GoRegexp\<close>, \<open>GoPath\<close>: the parts of Go's standard
    library that the code calls.
  \<^item> \<open>Transition\<close> and \<open>Progress\<close> state the interfaces of state machines: \<open>transition_system\<close> gives
    an invariant of every reachable state from the laws of one step, \<open>refined_operations\<close> gives the
    refinement of a specification by every sequence of operations, and \<open>progress_system\<close> gives
    termination and the absence of deadlock from a measure.

  \<^bold>\<open>Fields, selectors and publication.\<close>
  \<^item> \<open>Validator\<close> models \<open>pkg/criteria/validator\<close>; \<open>Selector\<close> models \<open>pkg/runtime/selector\<close>, where the
    ten operators are instances of the interface \<open>label_operator\<close>. The lemmas give the meaning of a
    validated selector, and the types of the values that pass the check before decoding.
  \<^item> \<open>Tables\<close> holds the rows of \<open>pkg/dal/table\<close> for groups, strategies and released groups, \<open>Publish\<close>
    the transaction of \<open>internal/dal/dao/publish.go\<close>, \<open>ReleaseMatch\<close> the matching of
    \<open>cmd/feed-server/bll/release/match.go\<close>. The lemmas give the rows after a publication, the release
    each instance gets, and what a gray percentage selects.
  \<^item> \<open>Approval\<close> is \<open>cmd/data-service/service/publish.go\<close>: submission, the four decisions and the
    callback of the ticket service. \<open>PublishWriters\<close> has the other code that writes the tables of
    strategies and released groups: the creation of a release with its publication, the scheduled
    publication of the cache service (\<open>cache/event/publish.go\<close>), the edit of groups and the deletion
    of applications. \<open>ApprovalProps\<close> has the life cycle of a submission, \<open>ApprovalFlow\<close> the histories of the store (interpretation \<open>pub\<close> of \<open>transition_system\<close>) and
    \<open>ApprovalClaims\<close> what holds in them: one submission in flight, who may decide, what a decision
    changes, and that a callback takes effect once.
  \<^item> \<open>Credential\<close> and \<open>CredentialClaims\<close> are \<open>pkg/runtime/credential\<close>, \<open>pkg/types/cache.go\<close> and the
    cache of the feed server: scopes, and the agreement of the two ways to authorise.

  \<^bold>\<open>Keys and values.\<close>
  \<^item> \<open>KvTables\<close> and \<open>KvService\<close> are the tables, the secret store, the data access objects and the
    handlers of keys and releases (\<open>cmd/data-service/service/kv.go\<close>, \<open>release.go\<close>,
    \<open>released_kv.go\<close>). \<open>KvProps\<close> proves the invariant of the drafts of a key for every
    handler, \<open>KvRefine\<close> the refinement of two sets of keys (interpretations \<open>kvs\<close> and \<open>kv_ops\<close>),
    \<open>KvClaims\<close> the properties of releases, undoing and imports.

  \<^bold>\<open>Permissions.\<close>
  \<^item> \<open>IamPolicy\<close> has the operators and policies of \<open>pkg/iam/sdk/operator\<close>, \<open>IamAuth\<close> the decisions of
    \<open>pkg/iam/sdk/auth\<close>, \<open>IamBatch\<close> a batch as a whole and its goroutines as a state machine that always settles
    (interpretation \<open>batch\<close> of \<open>progress_system\<close>), \<open>IamClaims\<close> the boolean reading of a policy and
    the listing of what is authorised, and \<open>IamAdapt\<close> the auth server, which turns a request into
    actions and resources.

  \<^bold>\<open>Processes.\<close>
  \<^item> \<open>Range2Re\<close> and \<open>ProcExpr\<close> are \<open>internal/expression\<close>, \<open>ProcExprProps\<close> their meaning: the
    fragments of a number range match exactly its numbers, and the expression written for a list of
    ids selects these. \<open>splitRangeLeft\<close> is a partial function, as its loop does not end for some
    ranges.
  \<^item> \<open>ProcSync\<close> and \<open>ProcDiff\<close> are the synchronisation of \<open>internal/processor/cmdb/sync_cmdb.go\<close> on the
    tables of processes and instances, \<open>ProcSyncProps\<close> what it guarantees: the numbers given to
    instances, the states of the rows after it, and which rows it changes. Fetching by pages is a
    partial function, and its termination is characterised.
  \<^item> \<open>ProcStatus\<close> has the states of processes and instances, the check whether an operation can be done
    and the actions that are offered (\<open>pkg/protocol/core/process/convert.go\<close>); \<open>GseProc\<close> the requests
    to the agent service and the wait for their results, whose polls are a list of answers: the loop
    is \<open>None\<close> when they end before it does; \<open>TaskBatch\<close> the rows that count the tasks of an
    operation.
  \<^item> \<open>ProcTask\<close>, \<open>ProcExec\<close>, \<open>ProcOperate\<close> and \<open>ProcRetry\<close> are the way of an operation: the builders and
    steps of \<open>internal/task\<close>, the executors and their callbacks, the handlers
    \<open>OperateProcess\<close> and \<open>RetryTasks\<close> of the data service. The library that runs the tasks is given by
    its contract, the steps in their order up to the first error and then the callback (\<open>run_steps\<close>).
    Selecting by an expression is an option, as its loops may not end; the pages of
    failed tasks are a partial function that is proved to return all of them.
  \<^item> \<open>ProcOpsProps\<close> relates what is offered for a process to its instances, \<open>ProcTaskProps\<close> has what a task
    leaves of its instance, batch and process, in good runs and in those that go wrong. \<open>BatchFlow\<close>
    has the histories of requests, retries, steps and callbacks: interpretation \<open>ops\<close> of
    \<open>transition_system\<close> gives the accounts of every batch, interpretation \<open>work\<close> of
    \<open>progress_system\<close> their end. A retry that fails on its way counts tasks back that it does not
    start; the field \<open>ow_Lost\<close>, which is not in the program, counts them. The histories start from a
    table without batches and have the batches of operations on processes only. \<open>ProcOpsExamples\<close> has the statements at a concrete store.

  \<^bold>\<open>Asynchronous downloads.\<close>
  \<^item> \<open>AsyncStore\<close> and \<open>AsyncSched\<close> are \<open>cmd/feed-server/bll/asyncdownload/v2\<close>: the records in redis, the
    creation of tasks and the scheduler. \<open>AsyncProps\<close> has the effect of each operation and the two
    ways in which concurrent or lost data break them, \<open>AsyncInv\<close> the invariant of requests and rounds
    one after the other, without keys that expire (interpretation \<open>downloads\<close>), \<open>AsyncRaces\<close> the
    histories in which several feed servers read and write at any time and keys expire
    (interpretation \<open>races\<close>): what holds of every record then, and what a round achieves.

  \<^bold>\<open>Tools.\<close>
  \<^item> \<open>PathTools\<close> and \<open>ToolsLib\<close> are the checks of paths and the functions on slices of \<open>pkg/tools\<close>.

  \<^bold>\<open>Fuel and bounds.\<close> There is no fuel: loops are structural recursions, functions with a measure, or
  partial functions with an option result, for which it is proved when they return. The words of
  the hash and of the ids in requests have their width; the integers of number ranges are Go's
  64-bit integers with the saturation of \<open>strconv.Atoi\<close> written out.

  \<^bold>\<open>Not modelled.\<close> The generated code of the protocols and of the query builder, the gateways and
  servers that pass requests on, the clients of other services, configuration, logging, metrics and
  translation, the migrations, and the command line tools have no logic of their own to verify. The
  handlers of templates, hooks, files and applications, the caches and the event queues
  apart from the scheduled publication, the
  first version of the asynchronous downloads, the tasks on configuration files and the periodic
  synchronisation of process states are program logic that this library does not reach. A database call that fails for reasons of its own, rather than
  for a missing or a duplicate row, is not a value of the model, except where it is stated.
\<close>

end
